(* ===== verification/Prelude.thy ===== *)
theory Prelude
  imports Main "HOL-Library.Word"
begin

text \<open>
  Shared vocabulary of the development: the machine types of the Go code, the result type of
  its fallible functions, big-endian byte strings and the readers built on them, and the
  generic list, option and word lemmas that the component theories use. Every component theory
  imports this one.
\<close>

unbundle bit_operations_syntax

section \<open>Machine types\<close>

text \<open>
  Go's fixed-width integers are words of the same width. A signed 64-bit integer (\<open>int64\<close>,
  \<open>btcutil.Amount\<close>, \<open>omnicore.Amount\<close>) is a 64-bit word read with \<open>sint\<close>: conversion to and
  from \<open>uint64\<close> is then the identity, as it is in Go.
\<close>

type_synonym u8 = "8 word"
type_synonym u16 = "16 word"
type_synonym u32 = "32 word"
type_synonym u64 = "64 word"
type_synonym i64 = "64 word"
type_synonym bytes = "u8 list"

text \<open>Signed comparison of two 64-bit integers.\<close>

definition i64_less :: "i64 \<Rightarrow> i64 \<Rightarrow> bool" where
  "i64_less a b \<longleftrightarrow> sint a < sint b"

text \<open>Go's integer division truncates towards zero and its result wraps.\<close>

definition i64_div :: "i64 \<Rightarrow> i64 \<Rightarrow> i64" where
  "i64_div a b = word_of_int (sgn (sint a) * sgn (sint b) * (\<bar>sint a\<bar> div \<bar>sint b\<bar>))"

section \<open>Collections of facts\<close>

named_theorems wire_simps \<open>equations that evaluate encoders and decoders\<close>
named_theorems log_simps \<open>equations of the update log operations\<close>
named_theorems view_simps \<open>equations of the view evaluation\<close>

lemma unat_lt: "unat (w :: 'a::len word) < 2 ^ LENGTH('a)"
  by (rule unsigned_less)

section \<open>Results\<close>

text \<open>
  A Go function that returns \<open>(T, error)\<close> is a function into \<open>'e + 'a\<close>: \<open>Inl\<close> carries the
  error, \<open>Inr\<close> the value. \<open>sbind\<close> is the early return \<open>if err != nil { return err }\<close>.
\<close>

definition sbind :: "'e + 'a \<Rightarrow> ('a \<Rightarrow> 'e + 'b) \<Rightarrow> 'e + 'b" where
  "sbind r f = (case r of Inl e \<Rightarrow> Inl e | Inr x \<Rightarrow> f x)"

lemma sbind_simps [simp]:
  "sbind (Inl e) f = Inl e"
  "sbind (Inr x) f = f x"
  by (simp_all add: sbind_def)

lemma sbind_eq_Inr: "sbind r f = Inr y \<longleftrightarrow> (\<exists>x. r = Inr x \<and> f x = Inr y)"
  by (cases r) auto

lemma sbind_eq_Inl: "sbind r f = Inl e \<longleftrightarrow> r = Inl e \<or> (\<exists>x. r = Inr x \<and> f x = Inl e)"
  by (cases r) auto

definition is_ok :: "'e + 'a \<Rightarrow> bool" where
  "is_ok r \<longleftrightarrow> (case r of Inl _ \<Rightarrow> False | Inr _ \<Rightarrow> True)"

lemma is_ok_simps [simp]: "\<not> is_ok (Inl e)" "is_ok (Inr x)"
  by (simp_all add: is_ok_def)

lemma is_ok_Inr: "is_ok r \<Longrightarrow> \<exists>x. r = Inr x"
  by (cases r) auto

section \<open>Step relations\<close>

text \<open>An invariant of the steps holds in every reachable state.\<close>

locale invariant_system =
  fixes step :: "'s \<Rightarrow> 's \<Rightarrow> bool" and inv :: "'s \<Rightarrow> bool"
  assumes step_inv: "inv s \<Longrightarrow> step s t \<Longrightarrow> inv t"
begin

lemma reachable_inv: "step\<^sup>*\<^sup>* s t \<Longrightarrow> inv s \<Longrightarrow> inv t"
  by (induction rule: rtranclp_induct) (auto intro: step_inv)

end

section \<open>Big-endian byte strings\<close>

text \<open>\<open>be_nat n x\<close> are the \<open>n\<close> low bytes of \<open>x\<close>, most significant first.\<close>

fun be_nat :: "nat \<Rightarrow> nat \<Rightarrow> bytes" where
  "be_nat 0 x = []"
| "be_nat (Suc n) x = of_nat (x div 256 ^ n) # be_nat n x"

text \<open>\<open>be_val bs\<close> is the number the bytes spell.\<close>

definition be_val :: "bytes \<Rightarrow> nat" where
  "be_val bs = foldl (\<lambda>a b. a * 256 + unat b) 0 bs"

lemma length_be_nat [simp]: "length (be_nat n x) = n"
  by (induction n) auto

lemma foldl_be_shift:
  "foldl (\<lambda>a b. a * 256 + unat (b :: u8)) acc bs
     = acc * 256 ^ length bs + foldl (\<lambda>a b. a * 256 + unat b) 0 bs"
proof (induction bs arbitrary: acc)
  case Nil
  then show ?case by simp
next
  case (Cons b bs)
  show ?case
    using Cons [of "acc * 256 + unat b"] Cons [of "unat b"] by (simp add: algebra_simps)
qed

lemma be_val_simps [simp]:
  "be_val [] = 0"
  "be_val (b # bs) = unat b * 256 ^ length bs + be_val bs"
  using foldl_be_shift [of "unat b" bs] by (simp_all add: be_val_def)

lemma be_val_append: "be_val (xs @ ys) = be_val xs * 256 ^ length ys + be_val ys"
  by (induction xs) (auto simp: algebra_simps power_add)

lemma be_val_bound: "be_val bs < 256 ^ length bs"
proof (induction bs)
  case Nil
  then show ?case by simp
next
  case (Cons b bs)
  have "unat b + 1 \<le> 256" using unat_lt [of b] by simp
  then have "(unat b + 1) * 256 ^ length bs \<le> 256 * 256 ^ length bs"
    by (rule mult_le_mono1)
  then have "unat b * 256 ^ length bs + 256 ^ length bs \<le> 256 * 256 ^ length bs"
    by (simp only: add_mult_distrib mult_1)
  with Cons have "unat b * 256 ^ length bs + be_val bs < 256 * 256 ^ length bs"
    by linarith
  then show ?case by simp
qed

lemma be_val_be_nat: "be_val (be_nat n x) = x mod 256 ^ n"
proof (induction n)
  case 0
  then show ?case by simp
next
  case (Suc n)
  have "x mod 256 ^ Suc n = 256 ^ n * (x div 256 ^ n mod 256) + x mod 256 ^ n"
    using mod_mult2_eq [of x "256 ^ n" 256] by (simp add: mult.commute)
  then show ?case
    by (simp add: Suc unat_of_nat)
qed

text \<open>
  Encoding and decoding a word: \<open>binary.BigEndian.PutUintN\<close> and \<open>binary.BigEndian.UintN\<close>. The
  two functions work on words only, so they evaluate; the lemmas relate them to the numbers
  above.
\<close>

definition put_word :: "nat \<Rightarrow> 'a::len word \<Rightarrow> bytes" where
  "put_word n w = map (\<lambda>i. ucast (drop_bit (8 * i) w)) (rev [0..<n])"

definition get_word :: "bytes \<Rightarrow> 'a::len word" where
  "get_word bs = foldl (\<lambda>a b. a * 256 + ucast b) 0 bs"

lemma put_word_be_nat: "put_word n w = be_nat n (unat w)"
proof (induction n)
  case 0
  then show ?case by (simp add: put_word_def)
next
  case (Suc n)
  have "ucast (drop_bit (8 * n) w) = (of_nat (unat w div 256 ^ n) :: u8)"
  proof (rule bit_word_eqI)
    fix k assume "k < LENGTH(8)"
    moreover have "(256::nat) ^ n = 2 ^ (8 * n)" by (simp add: power_mult)
    ultimately show "bit (ucast (drop_bit (8 * n) w) :: u8) k = bit (of_nat (unat w div 256 ^ n) :: u8) k"
      by (simp add: bit_simps add.commute flip: drop_bit_eq_div)
  qed
  with Suc show ?case by (simp add: put_word_def)
qed

lemma get_word_be_val: "get_word bs = of_nat (be_val bs)"
proof -
  have "foldl (\<lambda>a b. a * 256 + ucast b) (of_nat m) bs
      = (of_nat (foldl (\<lambda>a b. a * 256 + unat b) m bs) :: 'a word)" for m
  proof (induction bs arbitrary: m)
    case Nil
    then show ?case by simp
  next
    case (Cons b bs)
    show ?case using Cons [of "m * 256 + unat b"] by simp
  qed
  from this [of 0] show ?thesis by (simp add: get_word_def be_val_def)
qed

lemma length_put_word [simp]: "length (put_word n w) = n"
  by (simp add: put_word_be_nat)

lemma get_put_word [simp]:
  assumes "LENGTH('a) \<le> 8 * n"
  shows "get_word (put_word n (w :: 'a::len word)) = w"
proof -
  have "unat w < 2 ^ LENGTH('a)" by (rule unat_lt)
  also have "(2::nat) ^ LENGTH('a) \<le> 2 ^ (8 * n)" using assms by (intro power_increasing) auto
  also have "\<dots> = (256::nat) ^ n" by (simp add: power_mult)
  finally have "unat w mod 256 ^ n = unat w" by simp
  then show ?thesis by (simp add: put_word_be_nat get_word_be_val be_val_be_nat)
qed

section \<open>Readers\<close>

text \<open>
  An \<open>io.Reader\<close> over a byte slice is the list of the bytes not yet read. \<open>io.ReadFull\<close> of a
  buffer of \<open>n\<close> bytes fails with \<open>EOF\<close> when nothing is left and with \<open>ErrUnexpectedEOF\<close> when
  less than \<open>n\<close> bytes are left; reading into an empty buffer always succeeds.
\<close>

datatype io_error = EOF | ErrUnexpectedEOF

definition read_full :: "nat \<Rightarrow> bytes \<Rightarrow> io_error + bytes \<times> bytes" where
  "read_full n bs =
     (if n = 0 then Inr ([], bs)
      else if bs = [] then Inl EOF
      else if length bs < n then Inl ErrUnexpectedEOF
      else Inr (take n bs, drop n bs))"

lemma read_full_append [simp]: "length xs = n \<Longrightarrow> read_full n (xs @ ys) = Inr (xs, ys)"
  by (auto simp: read_full_def)

lemma read_full_InrD:
  "read_full n bs = Inr (xs, ys) \<Longrightarrow> bs = xs @ ys \<and> length xs = n"
  by (auto simp: read_full_def split: if_splits)

section \<open>Lists, options and words\<close>

lemma nth_update_same [simp]: "i < length xs \<Longrightarrow> xs[i := x] ! i = x"
  by simp

lemma filter_True_id: "(\<And>x. x \<in> set xs \<Longrightarrow> P x) \<Longrightarrow> filter P xs = xs"
  by (rule filter_True) auto

lemma map_of_distinct_SomeI:
  "distinct (map fst xs) \<Longrightarrow> (k, v) \<in> set xs \<Longrightarrow> map_of xs k = Some v"
  by (simp add: map_of_is_SomeI)

lemma unat_less_mono: "unat (a :: 'a::len word) < unat b \<longleftrightarrow> a < b"
  by (simp add: word_less_nat_alt)

lemma sum_list_filter_split:
  "(\<Sum>x\<leftarrow>xs. f x) = (\<Sum>x\<leftarrow>filter P xs. f x) + (\<Sum>x\<leftarrow>filter (\<lambda>x. \<not> P x) xs. f x :: 'a::comm_monoid_add)"
  by (induction xs) (auto simp: algebra_simps)

lemma map_of_filter_neq: "k \<noteq> e \<Longrightarrow> map_of (filter (\<lambda>x. fst x \<noteq> e) xs) k = map_of xs k"
  by (induction xs) auto

lemma distinct_map_filter_conj:
  "distinct (map f (filter P xs)) \<Longrightarrow> distinct (map f (filter (\<lambda>x. Q x \<and> P x) xs))"
  by (induction xs) (auto split: if_splits)

end
