(* ===== verification/Sha256.thy ===== *)
theory Sha256
  imports Prelude
begin

text \<open>
  The hash function of Go's standard library that the code calls as \<open>sha256.Sum256\<close>
  (FIPS 180-4), written as an executable function on bytes. The revocation secrets of the
  channel and the payment hashes of HTLCs are computed with it. The proofs of the development
  use only that a digest has 32 bytes.
\<close>

definition sha256_k :: "u32 list" where
  "sha256_k =
    [1116352408, 1899447441, 3049323471, 3921009573, 961987163, 1508970993, 2453635748, 2870763221,
     3624381080, 310598401, 607225278, 1426881987, 1925078388, 2162078206, 2614888103, 3248222580,
     3835390401, 4022224774, 264347078, 604807628, 770255983, 1249150122, 1555081692, 1996064986,
     2554220882, 2821834349, 2952996808, 3210313671, 3336571891, 3584528711, 113926993, 338241895,
     666307205, 773529912, 1294757372, 1396182291, 1695183700, 1986661051, 2177026350, 2456956037,
     2730485921, 2820302411, 3259730800, 3345764771, 3516065817, 3600352804, 4094571909, 275423344,
     430227734, 506948616, 659060556, 883997877, 958139571, 1322822218, 1537002063, 1747873779,
     1955562222, 2024104815, 2227730452, 2361852424, 2428436474, 2756734187, 3204031479, 3329325298]"

definition sha256_init :: "u32 list" where
  "sha256_init =
    [1779033703, 3144134277, 1013904242, 2773480762, 1359893119, 2600822924, 528734635, 1541459225]"

definition ror32 :: "nat \<Rightarrow> u32 \<Rightarrow> u32" where
  "ror32 n x = drop_bit n x OR push_bit (32 - n) x"

text \<open>Padding: a one bit, zeros, and the message length in bits as 64 bits.\<close>

definition sha256_pad :: "bytes \<Rightarrow> bytes" where
  "sha256_pad m =
     m @ [0x80] @ replicate ((119 - length m mod 64) mod 64) 0 @ put_word 8 (of_nat (8 * length m) :: u64)"

fun sha256_words :: "bytes \<Rightarrow> u32 list" where
  "sha256_words (a # b # c # d # bs) = get_word [a, b, c, d] # sha256_words bs"
| "sha256_words _ = []"

text \<open>The message schedule, newest word first: the window holds the last sixteen words.\<close>

definition sched_next :: "u32 list \<Rightarrow> u32" where
  "sched_next w =
     (let x = w ! 14; y = w ! 1;
          s0 = ror32 7 x XOR ror32 18 x XOR drop_bit 3 x;
          s1 = ror32 17 y XOR ror32 19 y XOR drop_bit 10 y
      in w ! 15 + s0 + w ! 6 + s1)"

fun sha256_schedule :: "nat \<Rightarrow> u32 list \<Rightarrow> u32 list" where
  "sha256_schedule 0 w = w"
| "sha256_schedule (Suc n) w = sha256_schedule n (sched_next w # w)"

definition sha256_round :: "u32 list \<Rightarrow> u32 \<times> u32 \<Rightarrow> u32 list" where
  "sha256_round st kw =
     (case (st, kw) of
        ([a, b, c, d, e, f, g, h], (k, w)) \<Rightarrow>
          let t1 = h + (ror32 6 e XOR ror32 11 e XOR ror32 25 e)
                   + ((e AND f) XOR (NOT e AND g)) + k + w;
              t2 = (ror32 2 a XOR ror32 13 a XOR ror32 22 a)
                   + ((a AND b) XOR (a AND c) XOR (b AND c))
          in [t1 + t2, a, b, c, d + t1, e, f, g]
      | _ \<Rightarrow> st)"

definition sha256_block :: "u32 list \<Rightarrow> u32 list \<Rightarrow> u32 list" where
  "sha256_block h blk =
     map2 (+) h (foldl sha256_round h (zip sha256_k (rev (sha256_schedule 48 (rev blk)))))"

fun sha256_blocks :: "nat \<Rightarrow> u32 list \<Rightarrow> u32 list \<Rightarrow> u32 list" where
  "sha256_blocks 0 h ws = h"
| "sha256_blocks (Suc n) h ws = sha256_blocks n (sha256_block h (take 16 ws)) (drop 16 ws)"

definition sha256 :: "bytes \<Rightarrow> bytes" where
  "sha256 m =
     (let ws = sha256_words (sha256_pad m)
      in concat (map (put_word 4) (sha256_blocks (length ws div 16) sha256_init ws)))"

lemma length_sha256_round: "length st = 8 \<Longrightarrow> length (sha256_round st kw) = 8"
  by (auto simp: sha256_round_def Let_def split: prod.splits list.splits)

lemma length_foldl_round: "length st = 8 \<Longrightarrow> length (foldl sha256_round st kws) = 8"
  by (induction kws arbitrary: st) (auto simp: length_sha256_round)

lemma length_sha256_block: "length h = 8 \<Longrightarrow> length (sha256_block h blk) = 8"
  by (simp add: sha256_block_def length_foldl_round)

lemma length_sha256_blocks: "length h = 8 \<Longrightarrow> length (sha256_blocks n h ws) = 8"
  by (induction n arbitrary: h ws) (auto simp: length_sha256_block)

lemma length_concat_put: "length (concat (map (put_word n) xs)) = n * length xs"
  by (induction xs) auto

lemma length_sha256 [simp]: "length (sha256 m) = 32"
  by (simp add: sha256_def Let_def length_concat_put length_sha256_blocks sha256_init_def)

end
