(* ===== verification/Shachain.thy ===== *)
theory Shachain
  imports Sha256
begin

text \<open>
  The shachain elements (\<open>src/oblnd/shachain/element.go\<close>, \<open>utils.go\<close>): indexes, the bit
  transformations that lead from one index to another and the derivation of one element from
  another by flipping bits and hashing. A \<open>chainhash.Hash\<close> is a list of 32 bytes. The lemmas
  characterise derivability by prefixes and show that derivations compose.
\<close>

section \<open>The model\<close>

type_synonym index = u64
type_synonym hash = bytes

datatype shachain_error =
    PrefixesDiffer           \<comment> \<open>prefixes are different - indexes aren't derivable\<close>
  | UnableToDerive           \<comment> \<open>unable to derive hash\<close>
  | NotDerivable             \<comment> \<open>hash isn't derivable from previous ones\<close>
  | IndexOutOfRange          \<comment> \<open>the runtime panic of an array access\<close>
  | ReadFailed io_error

record element =
  el_index :: index
  el_hash :: hash

definition maxHeight :: nat where
  "maxHeight = 48"

definition rootIndex :: index where
  "rootIndex = 0"

definition startIndex :: index where
  "startIndex = push_bit maxHeight 1 - 1"

definition newIndex :: "u64 \<Rightarrow> index" where
  "newIndex v = startIndex - v"

definition getBit :: "index \<Rightarrow> nat \<Rightarrow> u8" where
  "getBit ix position = ucast (drop_bit position ix AND 1)"

definition getPrefix :: "index \<Rightarrow> nat \<Rightarrow> u64" where
  "getPrefix ix position =
     (let mask = (0 - 1) - (push_bit position 1 - 1) in ix AND mask)"

text \<open>The counting loop of \<open>countTrailingZeros\<close>, from a given value of its counter.\<close>

function countTrailingZeros_loop :: "index \<Rightarrow> nat \<Rightarrow> nat" where
  "countTrailingZeros_loop ix zeros =
     (if zeros < maxHeight
      then if getBit ix zeros \<noteq> 0 then zeros else countTrailingZeros_loop ix (Suc zeros)
      else zeros)"
  by pat_completeness auto
termination
  by (relation "measure (\<lambda>(ix, zeros). maxHeight - zeros)") auto

declare countTrailingZeros_loop.simps [simp del]

definition countTrailingZeros :: "index \<Rightarrow> nat" where
  "countTrailingZeros ix = countTrailingZeros_loop ix 0"

text \<open>
  The descending loop that collects the positions of the set bits of \<open>to\<close>. Its counter is a
  \<open>uint8\<close> and starts at \<open>zeros - 1\<close>, which wraps to 255 when \<open>zeros\<close> is 0.
\<close>

fun derivePositions :: "index \<Rightarrow> nat \<Rightarrow> nat list" where
  "derivePositions to 0 = (if getBit to 0 = 1 then [0] else [])"
| "derivePositions to (Suc p) =
     (if getBit to (Suc p) = 1 then Suc p # derivePositions to p else derivePositions to p)"

definition deriveBitTransformations :: "index \<Rightarrow> index \<Rightarrow> shachain_error + nat list" where
  "deriveBitTransformations frm to =
     (if frm = to then Inr []
      else
        let zeros = countTrailingZeros frm
        in if frm \<noteq> getPrefix to zeros then Inl PrefixesDiffer
           else Inr (derivePositions to ((zeros + 255) mod 256)))"

text \<open>One step of \<open>derive\<close>: flip the bit, then hash. The buffer has 32 bytes.\<close>

definition flipHash :: "nat \<Rightarrow> bytes \<Rightarrow> bytes" where
  "flipHash position buf =
     (let byteNumber = position div 8; bitNumber = position mod 8
      in sha256 (buf[byteNumber := buf ! byteNumber XOR push_bit bitNumber 1]))"

definition derive :: "element \<Rightarrow> index \<Rightarrow> shachain_error + element" where
  "derive e toIndex =
     sbind (deriveBitTransformations (el_index e) toIndex) (\<lambda>positions.
       Inr \<lparr>el_index = toIndex, el_hash = fold flipHash positions (el_hash e)\<rparr>)"

definition isEqual :: "element \<Rightarrow> element \<Rightarrow> bool" where
  "isEqual e e2 \<longleftrightarrow> el_index e = el_index e2 \<and> el_hash e = el_hash e2"

lemma element_eta [simp]: "\<lparr>el_index = el_index e, el_hash = el_hash e\<rparr> = (e :: element)"
  by simp

section \<open>Indexes as numbers\<close>

lemma startIndex_nat: "unat startIndex = 2 ^ 48 - 1"
  by (simp add: startIndex_def maxHeight_def push_bit_eq_mult)

lemma getBit_bit: "getBit ix p = 1 \<longleftrightarrow> bit ix p" "getBit ix p = 0 \<longleftrightarrow> \<not> bit ix p"
proof -
  have *: "drop_bit p ix AND 1 = (if bit ix p then 1 else 0)"
    by (simp add: and_one_eq mod_2_eq_odd bit_iff_odd_drop_bit)
  show "getBit ix p = 1 \<longleftrightarrow> bit ix p" by (simp add: getBit_def *)
  show "getBit ix p = 0 \<longleftrightarrow> \<not> bit ix p" by (simp add: getBit_def *)
qed

text \<open>The prefix clears the low bits.\<close>

lemma getPrefix_nat: "unat (getPrefix ix p) = unat ix div 2 ^ p * 2 ^ p"
proof -
  have mask: "(0 - 1) - (push_bit p 1 - 1) = (NOT (mask p) :: u64)"
    by (simp add: mask_eq_exp_minus_1 push_bit_eq_mult not_eq_complement)
  have "getPrefix ix p = push_bit p (drop_bit p ix)"
    unfolding getPrefix_def Let_def mask by (rule bit_word_eqI) (auto simp: bit_simps)
  also have "unat \<dots> = take_bit 64 (push_bit p (drop_bit p (take_bit 64 (unat ix))))"
    by (simp add: unsigned_push_bit_eq unsigned_drop_bit_eq)
  also have "\<dots> = take_bit 64 (unat ix div 2 ^ p * 2 ^ p)"
    using unat_lt [of ix] by (simp add: push_bit_eq_mult drop_bit_eq_div take_bit_nat_eq_self)
  also have "unat ix div 2 ^ p * 2 ^ p < 2 ^ 64"
    using unat_lt [of ix] div_times_less_eq_dividend [of "unat ix" "2 ^ p"]
    by (simp del: div_times_less_eq_dividend)
  then have "take_bit 64 (unat ix div 2 ^ p * 2 ^ p) = unat ix div 2 ^ p * 2 ^ p"
    by (simp add: take_bit_eq_mod)
  finally show ?thesis .
qed

text \<open>The counting loop stops at the lowest set bit, or at \<open>maxHeight\<close>.\<close>

lemma countTrailingZeros_loop_props:
  assumes "z \<le> maxHeight"
  shows "z \<le> countTrailingZeros_loop ix z \<and> countTrailingZeros_loop ix z \<le> maxHeight
    \<and> (\<forall>k. z \<le> k \<and> k < countTrailingZeros_loop ix z \<longrightarrow> \<not> bit ix k)
    \<and> (countTrailingZeros_loop ix z < maxHeight \<longrightarrow> bit ix (countTrailingZeros_loop ix z))"
  using assms
proof (induction ix z rule: countTrailingZeros_loop.induct)
  case (1 ix z)
  show ?case
  proof (cases "z < maxHeight \<and> \<not> bit ix z")
    case True
    then have unf: "countTrailingZeros_loop ix z = countTrailingZeros_loop ix (Suc z)"
      by (simp add: countTrailingZeros_loop.simps [of ix z] getBit_bit)
    have split: "z \<le> k \<longleftrightarrow> k = z \<or> Suc z \<le> k" for k by auto
    from True "1.IH" have "Suc z \<le> countTrailingZeros_loop ix (Suc z)
        \<and> countTrailingZeros_loop ix (Suc z) \<le> maxHeight
        \<and> (\<forall>k. Suc z \<le> k \<and> k < countTrailingZeros_loop ix (Suc z) \<longrightarrow> \<not> bit ix k)
        \<and> (countTrailingZeros_loop ix (Suc z) < maxHeight \<longrightarrow> bit ix (countTrailingZeros_loop ix (Suc z)))"
      by (simp add: getBit_bit)
    with True show ?thesis unfolding unf split by blast
  next
    case False
    then have "countTrailingZeros_loop ix z = z"
      by (simp add: countTrailingZeros_loop.simps [of ix z] getBit_bit)
    with False "1.prems" show ?thesis by auto
  qed
qed

lemma ctz_le: "countTrailingZeros ix \<le> 48"
  and ctz_zero_bits: "k < countTrailingZeros ix \<Longrightarrow> \<not> bit ix k"
  and ctz_bit: "countTrailingZeros ix < 48 \<Longrightarrow> bit ix (countTrailingZeros ix)"
  using countTrailingZeros_loop_props [of 0 ix] by (auto simp: countTrailingZeros_def maxHeight_def)

lemma bit_index_nat: "bit (ix :: index) k \<longleftrightarrow> odd (unat ix div 2 ^ k)"
  by (simp add: bit_iff_odd [symmetric] bit_unsigned_iff)

lemma dvd_iff_low_bits: "2 ^ n dvd unat (ix :: index) \<longleftrightarrow> (\<forall>k<n. \<not> bit ix k)"
proof -
  have "2 ^ n dvd unat ix \<longleftrightarrow> take_bit n (unat ix) = 0"
    by (simp add: take_bit_eq_0_iff)
  also have "\<dots> \<longleftrightarrow> (\<forall>k<n. \<not> bit (unat ix) k)"
    by (auto simp: bit_eq_iff bit_take_bit_iff)
  also have "\<dots> \<longleftrightarrow> (\<forall>k<n. \<not> bit ix k)"
    by (simp add: bit_index_nat bit_iff_odd)
  finally show ?thesis .
qed

lemma ctz_dvd: "2 ^ countTrailingZeros ix dvd unat ix"
  by (simp add: dvd_iff_low_bits ctz_zero_bits)

lemma ctz_eqI:
  assumes "2 ^ i dvd unat ix" and "odd (unat ix div 2 ^ i)" and "i < 48"
  shows "countTrailingZeros ix = i"
proof (rule antisym)
  have bit: "bit ix i" and low: "\<forall>k<i. \<not> bit ix k"
    using assms by (simp_all add: bit_index_nat dvd_iff_low_bits)
  show "countTrailingZeros ix \<le> i"
    using bit ctz_zero_bits [of i ix] by (meson not_le)
  show "i \<le> countTrailingZeros ix"
  proof (rule ccontr)
    assume "\<not> i \<le> countTrailingZeros ix"
    then show False using low ctz_bit [of ix] assms(3) by (meson le_less_trans less_imp_le not_le)
  qed
qed

lemma ctz_odd: "countTrailingZeros ix < 48 \<Longrightarrow> odd (unat ix div 2 ^ countTrailingZeros ix)"
  using ctz_bit by (simp add: bit_index_nat)

lemma ctz_less_48:
  assumes "0 < unat ix" and "unat ix < 2 ^ 48"
  shows "countTrailingZeros ix < 48"
proof (rule ccontr)
  assume "\<not> ?thesis"
  then have "2 ^ 48 dvd unat ix" using ctz_dvd [of ix] ctz_le [of ix] by simp
  with assms show False by (auto dest: dvd_imp_le)
qed

section \<open>Derivability\<close>

text \<open>
  An element can be derived from another exactly when the index of the first is the prefix of
  the second that ends where the trailing zeros of the first begin.
\<close>

definition derivable :: "index \<Rightarrow> index \<Rightarrow> bool" where
  "derivable frm to \<longleftrightarrow>
     unat frm = unat to div 2 ^ countTrailingZeros frm * 2 ^ countTrailingZeros frm"

definition bitsBelow :: "index \<Rightarrow> nat \<Rightarrow> nat list" where
  "bitsBelow to n = filter (bit to) (rev [0..<n])"

lemma derivable_refl: "derivable ix ix"
  using ctz_dvd [of ix] by (simp add: derivable_def)

lemma derivable_le: "derivable frm to \<Longrightarrow> unat frm \<le> unat to"
  by (metis derivable_def div_times_less_eq_dividend)

lemma derivable_upper: "derivable frm to \<Longrightarrow> unat to < unat frm + 2 ^ countTrailingZeros frm"
  unfolding derivable_def
  by (metis add.commute add_less_cancel_right div_mult_mod_eq mod_less_divisor
      nat_zero_less_power_iff zero_less_numeral)

lemma derivableI:
  assumes "unat frm \<le> unat to" and "unat to < unat frm + 2 ^ countTrailingZeros frm"
  shows "derivable frm to"
proof -
  let ?m = "2 ^ countTrailingZeros frm :: nat"
  obtain q where q: "unat frm = ?m * q" using ctz_dvd [of frm] by (auto elim: dvdE)
  have "unat to div ?m = q"
    using assms unfolding q by (intro div_nat_eqI) (auto simp: algebra_simps)
  then show ?thesis by (simp add: derivable_def q)
qed

lemma derivePositions_bits: "derivePositions to p = bitsBelow to (Suc p)"
  by (induction p) (auto simp: bitsBelow_def getBit_bit)

lemma deriveBitTransformations_ok:
  assumes "derivable frm to"
  shows "deriveBitTransformations frm to = Inr (bitsBelow to (countTrailingZeros frm))"
proof (cases "frm = to")
  case True
  then show ?thesis
    by (auto simp: deriveBitTransformations_def bitsBelow_def filter_empty_conv ctz_zero_bits)
next
  case False
  let ?z = "countTrailingZeros frm"
  from assms have pre: "frm = getPrefix to ?z"
    by (simp add: word_unat_eq_iff getPrefix_nat derivable_def)
  have "?z \<noteq> 0"
  proof
    assume "?z = 0"
    with assms have "unat frm = unat to" by (simp add: derivable_def)
    with False show False by (simp add: word_unat_eq_iff)
  qed
  then have "(?z + 255) mod 256 = ?z - 1" and "Suc (?z - 1) = ?z"
    using ctz_le [of frm] by (auto simp: mod_if)
  with False pre show ?thesis
    by (simp add: deriveBitTransformations_def Let_def derivePositions_bits)
qed

lemma deriveBitTransformations_fail:
  assumes "\<not> derivable frm to"
  shows "deriveBitTransformations frm to = Inl PrefixesDiffer"
proof -
  have "frm \<noteq> to" using assms derivable_refl by auto
  moreover have "frm \<noteq> getPrefix to (countTrailingZeros frm)"
    using assms by (auto simp: word_unat_eq_iff getPrefix_nat derivable_def)
  ultimately show ?thesis by (simp add: deriveBitTransformations_def Let_def)
qed

definition deriveHash :: "element \<Rightarrow> index \<Rightarrow> hash" where
  "deriveHash e to = fold flipHash (bitsBelow to (countTrailingZeros (el_index e))) (el_hash e)"

lemma derive_eq:
  "derive e to =
     (if derivable (el_index e) to
      then Inr \<lparr>el_index = to, el_hash = deriveHash e to\<rparr>
      else Inl PrefixesDiffer)"
  by (simp add: derive_def deriveHash_def deriveBitTransformations_ok deriveBitTransformations_fail)

lemma deriveHash_self [simp]: "deriveHash e (el_index e) = el_hash e"
  by (auto simp: deriveHash_def bitsBelow_def filter_empty_conv ctz_zero_bits)

lemma length_flipHash [simp]: "length (flipHash p buf) = 32"
  by (simp add: flipHash_def Let_def)

lemma length_deriveHash: "length (el_hash e) = 32 \<Longrightarrow> length (deriveHash e to) = 32"
proof -
  have "length (fold flipHash ps buf) = 32" if "length buf = 32" for ps buf
    using that by (induction ps arbitrary: buf) auto
  then show "length (el_hash e) = 32 \<Longrightarrow> length (deriveHash e to) = 32"
    by (simp add: deriveHash_def)
qed

text \<open>Derivations compose: going through an intermediate element changes nothing.\<close>

lemma derivable_bits_above:
  assumes "derivable b c" and "countTrailingZeros b \<le> k"
  shows "bit c k = bit b k"
proof -
  let ?m = "countTrailingZeros b"
  from assms(2) obtain d where k: "k = ?m + d" using le_Suc_ex by blast
  from assms(1) have "unat b div 2 ^ ?m = unat c div 2 ^ ?m" by (simp add: derivable_def)
  then have "unat b div 2 ^ ?m div 2 ^ d = unat c div 2 ^ ?m div 2 ^ d" by simp
  then show ?thesis by (simp add: bit_index_nat k power_add div_mult2_eq)
qed

lemma derivable_ctz_mono:
  assumes "derivable a b" and "0 < unat b" and "unat b < 2 ^ 48"
  shows "countTrailingZeros b \<le> countTrailingZeros a"
proof (rule ccontr)
  assume "\<not> ?thesis"
  then have less: "countTrailingZeros a < countTrailingZeros b" by simp
  then have "2 ^ countTrailingZeros a dvd unat b"
    using ctz_dvd [of b] by (meson dvd_trans le_imp_power_dvd less_imp_le)
  then have "unat a = unat b" using assms(1) by (simp add: derivable_def)
  then have "a = b" by (simp add: word_unat_eq_iff)
  with less show False by simp
qed

lemma derivable_trans:
  assumes "derivable a b" "derivable b c" "0 < unat b" "unat b < 2 ^ 48"
  shows "derivable a c"
proof (rule derivableI)
  show "unat a \<le> unat c" using derivable_le assms(1,2) le_trans by blast
  have le: "countTrailingZeros b \<le> countTrailingZeros a" by (rule derivable_ctz_mono [OF assms(1,3,4)])
  obtain d where d: "countTrailingZeros a = countTrailingZeros b + d" using le le_Suc_ex by blast
  have "unat c div 2 ^ countTrailingZeros a = unat b div 2 ^ countTrailingZeros a"
    using assms(2) by (simp add: d power_add div_mult2_eq derivable_def)
  then have "unat a = unat c div 2 ^ countTrailingZeros a * 2 ^ countTrailingZeros a"
    using assms(1) by (simp add: derivable_def)
  then have "derivable a c" by (simp add: derivable_def)
  then show "unat c < unat a + 2 ^ countTrailingZeros a" by (rule derivable_upper)
qed

lemma bitsBelow_split:
  assumes "derivable a b" "derivable b c" "0 < unat b" "unat b < 2 ^ 48"
  shows "bitsBelow c (countTrailingZeros a)
       = bitsBelow b (countTrailingZeros a) @ bitsBelow c (countTrailingZeros b)"
proof -
  let ?l = "countTrailingZeros b" and ?h = "countTrailingZeros a"
  have le: "?l \<le> ?h" by (rule derivable_ctz_mono [OF assms(1,3,4)])
  have "rev [0..<?h] = rev [?l..<?h] @ rev [0..<?l]"
    using upt_add_eq_append [of 0 ?l "?h - ?l"] le by (simp flip: rev_append)
  moreover have "filter (bit c) (rev [?l..<?h]) = filter (bit b) (rev [?l..<?h])"
    by (rule filter_cong) (auto simp: derivable_bits_above [OF assms(2)])
  moreover have "filter (bit b) (rev [0..<?l]) = []"
    by (auto simp: filter_empty_conv ctz_zero_bits)
  ultimately show ?thesis by (simp add: bitsBelow_def)
qed

lemma deriveHash_compose:
  assumes "derivable (el_index e) b" "derivable b c" "0 < unat b" "unat b < 2 ^ 48"
  shows "deriveHash \<lparr>el_index = b, el_hash = deriveHash e b\<rparr> c = deriveHash e c"
  using bitsBelow_split [OF assms] by (simp add: deriveHash_def)

end
