(* ===== verification/Shachain_Store.thy ===== *)
theory Shachain_Store
  imports Shachain
begin

text \<open>
  The producer and the store of revocation secrets (\<open>src/oblnd/shachain/producer.go\<close> and
  \<open>store.go\<close>). The producer derives the secret of every commitment height from one root; the
  store keeps at most 48 elements from which every secret received so far can be derived again.
  The invariant says which index each bucket holds; the two interface locales state what the
  channel relies on, and are interpreted on the model.
\<close>

section \<open>The model\<close>

subsection \<open>The producer\<close>

record RevocationProducer =
  root :: element

definition NewRevocationProducer :: "hash \<Rightarrow> RevocationProducer" where
  "NewRevocationProducer h = \<lparr>root = \<lparr>el_index = rootIndex, el_hash = h\<rparr>\<rparr>"

definition AtIndex :: "RevocationProducer \<Rightarrow> u64 \<Rightarrow> shachain_error + hash" where
  "AtIndex p v =
     (let ind = newIndex v
      in sbind (derive (root p) ind) (\<lambda>e. Inr (el_hash e)))"

definition Producer_Encode :: "RevocationProducer \<Rightarrow> bytes" where
  "Producer_Encode p = el_hash (root p)"

text \<open>
  \<open>chainhash.NewHash\<close> belongs to a third-party package and is the parameter \<open>newHash\<close>.
\<close>

definition NewRevocationProducerFromBytes ::
    "(bytes \<Rightarrow> 'e + hash) \<Rightarrow> bytes \<Rightarrow> 'e + RevocationProducer" where
  "NewRevocationProducerFromBytes newHash data =
     sbind (newHash data) (\<lambda>h. Inr \<lparr>root = \<lparr>el_index = rootIndex, el_hash = h\<rparr>\<rparr>)"

subsection \<open>The store\<close>

record RevocationStore =
  lenBuckets :: nat
  buckets :: "element list"
  st_index :: index

definition zeroElement :: element where
  "zeroElement = \<lparr>el_index = 0, el_hash = replicate 32 0\<rparr>"

definition NewRevocationStore :: RevocationStore where
  "NewRevocationStore =
     \<lparr>lenBuckets = 0, buckets = replicate maxHeight zeroElement, st_index = startIndex\<rparr>"

text \<open>
  The lookup loop over the first \<open>lenBuckets\<close> buckets; indexing past the array is Go's panic.
\<close>

fun lookupBuckets :: "index \<Rightarrow> nat \<Rightarrow> element list \<Rightarrow> shachain_error + hash" where
  "lookupBuckets ind 0 bs = Inl UnableToDerive"
| "lookupBuckets ind (Suc n) [] = Inl IndexOutOfRange"
| "lookupBuckets ind (Suc n) (b # bs) =
     (case derive b ind of
        Inl _ \<Rightarrow> lookupBuckets ind n bs
      | Inr e \<Rightarrow> Inr (el_hash e))"

definition LookUp :: "RevocationStore \<Rightarrow> u64 \<Rightarrow> shachain_error + hash" where
  "LookUp store v = (let ind = newIndex v in lookupBuckets ind (lenBuckets store) (buckets store))"

text \<open>The loop of \<open>AddNextEntry\<close> that derives the lower buckets again.\<close>

fun checkBuckets :: "element \<Rightarrow> element list \<Rightarrow> shachain_error + unit" where
  "checkBuckets newElement [] = Inr ()"
| "checkBuckets newElement (b # bs) =
     sbind (derive newElement (el_index b)) (\<lambda>e.
       if \<not> isEqual e b then Inl NotDerivable else checkBuckets newElement bs)"

definition AddNextEntry :: "RevocationStore \<Rightarrow> hash \<Rightarrow> shachain_error + RevocationStore" where
  "AddNextEntry store hash =
     (let newElement = \<lparr>el_index = st_index store, el_hash = hash\<rparr>;
          bucket = countTrailingZeros (el_index newElement)
      in sbind (checkBuckets newElement (take bucket (buckets store))) (\<lambda>_.
           if length (buckets store) \<le> bucket then Inl IndexOutOfRange
           else Inr (store\<lparr>buckets := (buckets store)[bucket := newElement],
                           lenBuckets := (if lenBuckets store < bucket + 1 then bucket + 1
                                          else lenBuckets store),
                           st_index := st_index store - 1\<rparr>)))"

subsection \<open>Serialisation of the store\<close>

fun encodeBuckets :: "nat \<Rightarrow> element list \<Rightarrow> shachain_error + bytes" where
  "encodeBuckets 0 bs = Inr []"
| "encodeBuckets (Suc n) [] = Inl IndexOutOfRange"
| "encodeBuckets (Suc n) (b # bs) =
     sbind (encodeBuckets n bs) (\<lambda>rest. Inr (put_word 8 (el_index b) @ el_hash b @ rest))"

definition Store_Encode :: "RevocationStore \<Rightarrow> shachain_error + bytes" where
  "Store_Encode store =
     sbind (encodeBuckets (lenBuckets store) (buckets store)) (\<lambda>bs.
       Inr (put_word 1 (of_nat (lenBuckets store) :: u8) @ bs @ put_word 8 (st_index store)))"

definition readFull :: "nat \<Rightarrow> bytes \<Rightarrow> shachain_error + bytes \<times> bytes" where
  "readFull n r = (case read_full n r of Inl e \<Rightarrow> Inl (ReadFailed e) | Inr p \<Rightarrow> Inr p)"

text \<open>\<open>decodeBuckets n i bs r\<close> reads buckets \<open>i\<close> to \<open>i + n - 1\<close> into the array \<open>bs\<close>.\<close>

fun decodeBuckets ::
    "nat \<Rightarrow> nat \<Rightarrow> element list \<Rightarrow> bytes \<Rightarrow> shachain_error + element list \<times> bytes" where
  "decodeBuckets 0 i bs r = Inr (bs, r)"
| "decodeBuckets (Suc n) i bs r =
     sbind (readFull 8 r) (\<lambda>(ib, r1).
     sbind (readFull 32 r1) (\<lambda>(nextHash, r2).
       if length bs \<le> i then Inl IndexOutOfRange
       else decodeBuckets n (Suc i) (bs[i := \<lparr>el_index = get_word ib, el_hash = nextHash\<rparr>]) r2))"

definition NewRevocationStoreFromBytes ::
    "bytes \<Rightarrow> shachain_error + RevocationStore \<times> bytes" where
  "NewRevocationStoreFromBytes r =
     sbind (readFull 1 r) (\<lambda>(lb, r1).
     sbind (decodeBuckets (unat (get_word lb :: u8)) 0 (replicate maxHeight zeroElement) r1) (\<lambda>(bs, r2).
     sbind (readFull 8 r2) (\<lambda>(ib, r3).
       Inr (\<lparr>lenBuckets = unat (get_word lb :: u8), buckets = bs, st_index = get_word ib\<rparr>, r3))))"

section \<open>Arithmetic of trailing zeros\<close>

definition tz :: "nat \<Rightarrow> nat \<Rightarrow> bool" where
  "tz i x \<longleftrightarrow> 2 ^ i dvd x \<and> odd (x div 2 ^ i)"

text \<open>The smallest number above \<open>s\<close> (and below \<open>2 ^ 48\<close>) with exactly \<open>i\<close> trailing zeros.\<close>

definition least_after :: "nat \<Rightarrow> nat \<Rightarrow> nat \<Rightarrow> bool" where
  "least_after s i x \<longleftrightarrow> s < x \<and> x < 2 ^ 48 \<and> tz i x \<and> (\<forall>y. s < y \<and> y < x \<longrightarrow> \<not> tz i y)"

lemma ctz_tz: "tz i (unat ix) \<Longrightarrow> i < 48 \<Longrightarrow> countTrailingZeros ix = i"
  by (simp add: tz_def ctz_eqI)

lemma tz_ctz: "0 < unat ix \<Longrightarrow> unat ix < 2 ^ 48 \<Longrightarrow> tz (countTrailingZeros ix) (unat ix)"
  by (simp add: tz_def ctz_dvd ctz_odd ctz_less_48)

lemma least_after_unique: "least_after s i x \<Longrightarrow> least_after s i x' \<Longrightarrow> x = x'"
  by (meson least_after_def linorder_neqE_nat)

lemma odd_gap: "odd m \<Longrightarrow> odd q \<Longrightarrow> m < q \<Longrightarrow> Suc m \<le> q div 2 * (2::nat)"
  by (elim oddE) auto

text \<open>Every number above \<open>s\<close> has a prefix that is such a smallest number.\<close>

lemma covering_prefix:
  assumes "s < j" and "j < 2 ^ 48"
  obtains t where "t < 48" and "least_after s t (j div 2 ^ t * 2 ^ t)"
proof -
  define pre where "pre k = j div 2 ^ k * 2 ^ k" for k
  define t where "t = (LEAST k. pre (Suc k) \<le> s)"
  have ex: "pre (Suc 47) \<le> s" using assms(2) by (simp add: pre_def)
  have low: "pre (Suc t) \<le> s" unfolding t_def by (rule LeastI [of _ 47]) (rule ex)
  have "t \<le> 47" unfolding t_def by (rule Least_le) (rule ex)
  have high: "s < pre t"
  proof (cases t)
    case 0
    then show ?thesis using assms(1) by (simp add: pre_def)
  next
    case (Suc k)
    then have "\<not> pre (Suc k) \<le> s" unfolding t_def using not_less_Least by (metis lessI)
    with Suc show ?thesis by simp
  qed
  let ?q = "j div 2 ^ t"
  have "j div 2 ^ Suc t = ?q div 2" by (metis div_mult2_eq power_Suc2)
  then have dbl: "pre (Suc t) = ?q div 2 * 2 * 2 ^ t" by (simp only: pre_def power_Suc mult.assoc)
  have odd: "odd ?q"
  proof (rule ccontr)
    assume "\<not> odd ?q"
    then have "?q div 2 * 2 = ?q" by simp
    then have "pre (Suc t) = pre t" unfolding dbl by (simp add: pre_def)
    with low high show False by simp
  qed
  have pre_t: "pre t = pre (Suc t) + 2 ^ t"
  proof -
    have "?q = Suc (?q div 2 * 2)" using odd_two_times_div_two_succ [OF odd] by simp
    then have "pre t = Suc (?q div 2 * 2) * 2 ^ t" by (simp add: pre_def)
    then show ?thesis by (simp add: dbl)
  qed
  have "least_after s t (pre t)"
    unfolding least_after_def
  proof (intro conjI allI impI)
    show "s < pre t" by (rule high)
    show "pre t < 2 ^ 48"
      using assms(2) div_times_less_eq_dividend [of j "2 ^ t"] unfolding pre_def by linarith
    show "tz t (pre t)" using odd by (simp add: tz_def pre_def)
    fix y assume y: "s < y \<and> y < pre t"
    show "\<not> tz t y"
    proof
      assume "tz t y"
      then obtain m where m: "y = m * 2 ^ t" and "odd m" by (auto simp: tz_def)
      from y have "m < ?q" by (simp add: m pre_def)
      with odd \<open>odd m\<close> have "Suc m \<le> ?q div 2 * 2" by (intro odd_gap)
      then have "Suc m * 2 ^ t \<le> ?q div 2 * 2 * 2 ^ t" by (rule mult_le_mono1)
      then have "y + 2 ^ t \<le> pre (Suc t)" by (simp add: m dbl)
      with low y show False by simp
    qed
  qed
  with \<open>t \<le> 47\<close> show thesis by (intro that [of t]) (simp_all add: pre_def)
qed

section \<open>The invariant of the store\<close>

text \<open>
  \<open>h\<close> gives the hash that was added for each index. After the entries above \<open>st_index\<close> were
  added, bucket \<open>i\<close> holds the entry with the smallest of these indexes that has \<open>i\<close> trailing
  zeros, there is none for the unused buckets, and whatever can be derived from a bucket is what
  was added.
\<close>

definition store_inv :: "(nat \<Rightarrow> hash) \<Rightarrow> RevocationStore \<Rightarrow> bool" where
  "store_inv h s \<longleftrightarrow>
     length (buckets s) = 48 \<and> lenBuckets s \<le> 48 \<and> unat (st_index s) < 2 ^ 48
     \<and> (\<forall>i<lenBuckets s. least_after (unat (st_index s)) i (unat (el_index (buckets s ! i))))
     \<and> (\<forall>i<48. lenBuckets s \<le> i \<longrightarrow> (\<forall>y. unat (st_index s) < y \<and> y < 2 ^ 48 \<longrightarrow> \<not> tz i y))
     \<and> (\<forall>i<lenBuckets s. \<forall>j. unat j < 2 ^ 48 \<and> derivable (el_index (buckets s ! i)) j
          \<longrightarrow> deriveHash (buckets s ! i) j = h (unat j))"

lemma store_inv_new: "store_inv h NewRevocationStore"
  by (auto simp: store_inv_def NewRevocationStore_def startIndex_nat maxHeight_def)

lemma store_inv_cong:
  "store_inv h s \<Longrightarrow> (\<And>j. j < 2 ^ 48 \<Longrightarrow> h j = g j) \<Longrightarrow> store_inv g s"
  unfolding store_inv_def by metis

lemma store_inv_bucket:
  assumes "store_inv h s" and "i < lenBuckets s"
  shows "least_after (unat (st_index s)) i (unat (el_index (buckets s ! i)))"
    and "countTrailingZeros (el_index (buckets s ! i)) = i"
    and "unat j < 2 ^ 48 \<Longrightarrow> derivable (el_index (buckets s ! i)) j
           \<Longrightarrow> deriveHash (buckets s ! i) j = h (unat j)"
    and "el_hash (buckets s ! i) = h (unat (el_index (buckets s ! i)))"
proof -
  show least: "least_after (unat (st_index s)) i (unat (el_index (buckets s ! i)))"
    using assms by (simp add: store_inv_def)
  show "countTrailingZeros (el_index (buckets s ! i)) = i"
    using assms least by (intro ctz_tz) (auto simp: least_after_def store_inv_def)
  show derived: "unat j < 2 ^ 48 \<Longrightarrow> derivable (el_index (buckets s ! i)) j
           \<Longrightarrow> deriveHash (buckets s ! i) j = h (unat j)" for j
    using assms unfolding store_inv_def by blast
  show "el_hash (buckets s ! i) = h (unat (el_index (buckets s ! i)))"
    using derived [of "el_index (buckets s ! i)"] least
    by (simp add: derivable_refl least_after_def)
qed

text \<open>Every index added so far can be derived from a bucket.\<close>

lemma store_inv_covers:
  assumes inv: "store_inv h s" and j: "unat (st_index s) < unat j" "unat j < 2 ^ 48"
  obtains i where "i < lenBuckets s" and "derivable (el_index (buckets s ! i)) j"
proof -
  obtain t where t: "t < 48" "least_after (unat (st_index s)) t (unat j div 2 ^ t * 2 ^ t)"
    using covering_prefix [OF j] .
  have len: "t < lenBuckets s"
  proof (rule ccontr)
    assume "\<not> t < lenBuckets s"
    with inv t show False unfolding store_inv_def least_after_def by (meson not_le)
  qed
  have "unat (el_index (buckets s ! t)) = unat j div 2 ^ t * 2 ^ t"
    by (rule least_after_unique [OF store_inv_bucket(1) [OF inv len] t(2)])
  then have "derivable (el_index (buckets s ! t)) j"
    by (simp add: derivable_def store_inv_bucket(2) [OF inv len])
  with len show thesis by (rule that)
qed

text \<open>
  The buckets below the one a new entry goes to are in use, and the new entry's index is a
  prefix of theirs.
\<close>

lemma store_inv_lower_buckets:
  assumes inv: "store_inv h s" and i: "i < countTrailingZeros (st_index s)"
  shows "i < lenBuckets s" and "derivable (st_index s) (el_index (buckets s ! i))"
    and "unat (el_index (buckets s ! i)) < unat (st_index s) + 2 ^ countTrailingZeros (st_index s)"
proof -
  let ?s = "unat (st_index s)" and ?b = "countTrailingZeros (st_index s)"
  let ?x = "?s + 2 ^ i"
  have b: "?b \<le> 48" and i48: "i < 48" using i ctz_le [of "st_index s"] by auto
  obtain q where q: "?s = 2 ^ ?b * q" using ctz_dvd [of "st_index s"] by (auto elim: dvdE)
  obtain d where d: "?b = Suc i + d" using i less_iff_Suc_add by auto
  have p48: "(2::nat) ^ 48 = 2 ^ ?b * 2 ^ (48 - ?b)"
    using b by (metis le_add_diff_inverse power_add)
  have bound: "?s + 2 ^ ?b \<le> 2 ^ 48"
  proof -
    have "2 ^ ?b * q < 2 ^ ?b * 2 ^ (48 - ?b)"
      using inv q p48 by (metis store_inv_def)
    then have "Suc q \<le> 2 ^ (48 - ?b)" by simp
    then have "2 ^ ?b * Suc q \<le> 2 ^ ?b * 2 ^ (48 - ?b)" by (rule mult_le_mono2)
    then show ?thesis unfolding p48 q by simp
  qed
  have lt: "(2::nat) ^ i < 2 ^ ?b" using i by simp
  have x_gt: "?s < ?x" by simp
  have x_lt: "?x < 2 ^ 48" using lt bound by linarith
  have x_eq: "?x = (2 * (2 ^ d * q) + 1) * 2 ^ i"
    by (simp add: q d power_add algebra_simps)
  have "?x div 2 ^ i = 2 * (2 ^ d * q) + 1" unfolding x_eq by simp
  then have tz: "tz i ?x" unfolding tz_def by (simp add: x_eq)
  show len: "i < lenBuckets s"
  proof (rule ccontr)
    assume "\<not> i < lenBuckets s"
    then have "\<forall>y. ?s < y \<and> y < 2 ^ 48 \<longrightarrow> \<not> tz i y" using inv i48 by (simp add: store_inv_def)
    with tz x_gt x_lt show False by blast
  qed
  have least: "least_after ?s i (unat (el_index (buckets s ! i)))"
    by (rule store_inv_bucket(1) [OF inv len])
  then have le: "unat (el_index (buckets s ! i)) \<le> ?x"
    using tz x_gt unfolding least_after_def by (meson not_le)
  then show up: "unat (el_index (buckets s ! i)) < ?s + 2 ^ ?b" using lt by linarith
  show "derivable (st_index s) (el_index (buckets s ! i))"
    using up least by (intro derivableI) (auto simp: least_after_def)
qed

section \<open>Adding an entry\<close>

lemma checkBuckets_iff:
  "checkBuckets e bs = Inr () \<longleftrightarrow>
     (\<forall>b \<in> set bs. derivable (el_index e) (el_index b) \<and> deriveHash e (el_index b) = el_hash b)"
  by (induction bs) (auto simp: derive_eq isEqual_def)

lemma ctz_zero_index: "countTrailingZeros 0 = 48"
  using ctz_bit [of 0] ctz_le [of 0] by fastforce

text \<open>A successful addition moves the next entry into its bucket and keeps the rest.\<close>

lemma AddNextEntry_InrD:
  assumes "AddNextEntry s hash = Inr s'" and "length (buckets s) = 48"
  defines "b \<equiv> countTrailingZeros (st_index s)"
  shows "b < 48" and "0 < unat (st_index s)"
    and "buckets s' = (buckets s)[b := \<lparr>el_index = st_index s, el_hash = hash\<rparr>]"
    and "lenBuckets s' = max (lenBuckets s) (Suc b)"
    and "st_index s' = st_index s - 1"
    and "\<And>i. i < b \<Longrightarrow>
           deriveHash \<lparr>el_index = st_index s, el_hash = hash\<rparr> (el_index (buckets s ! i))
           = el_hash (buckets s ! i)"
proof -
  let ?e = "\<lparr>el_index = st_index s, el_hash = hash\<rparr>"
  have chk: "checkBuckets ?e (take b (buckets s)) = Inr ()" and "b < 48"
    and s': "s' = s\<lparr>buckets := (buckets s)[b := ?e],
        lenBuckets := (if lenBuckets s < b + 1 then b + 1 else lenBuckets s),
        st_index := st_index s - 1\<rparr>"
    using assms by (auto simp: AddNextEntry_def Let_def sbind_eq_Inr split: if_splits)
  then show "b < 48" "buckets s' = (buckets s)[b := ?e]" "lenBuckets s' = max (lenBuckets s) (Suc b)"
    "st_index s' = st_index s - 1"
    by auto
  show "0 < unat (st_index s)"
    using \<open>b < 48\<close> ctz_zero_index by (cases "st_index s = 0") (auto simp: b_def unat_gt_0)
  show "deriveHash ?e (el_index (buckets s ! i)) = el_hash (buckets s ! i)" if "i < b" for i
  proof -
    have "buckets s ! i \<in> set (take b (buckets s))"
      using that \<open>b < 48\<close> assms(2) by (auto simp: in_set_conv_nth intro!: exI [of _ i])
    with chk show ?thesis by (auto simp: checkBuckets_iff)
  qed
qed

lemma unat_pred: "0 < unat (x :: u64) \<Longrightarrow> unat (x - 1) = unat x - 1"
  by (metis One_nat_def Suc_leI unat_1 unat_sub word_le_nat_alt)

text \<open>The index that comes next has its own bucket; the others keep theirs.\<close>

lemma least_after_step:
  assumes "0 < s" "s < 2 ^ 48" "tz b s"
  shows "least_after (s - 1) b s"
    and "i \<noteq> b \<Longrightarrow> \<not> tz i s \<Longrightarrow> least_after s i x \<Longrightarrow> least_after (s - 1) i x"
proof -
  show "least_after (s - 1) b s" using assms by (auto simp: least_after_def)
  show "\<not> tz i s \<Longrightarrow> least_after s i x \<Longrightarrow> least_after (s - 1) i x"
    unfolding least_after_def using assms(1)
    by (metis Suc_pred' less_SucI less_antisym not_less_eq)
qed

lemma tz_unique: "tz i x \<Longrightarrow> tz k x \<Longrightarrow> i = k"
proof (rule ccontr)
  assume a: "tz i x" "tz k x" "i \<noteq> k"
  have False if "i < k" "tz i x" "tz k x" for i k
  proof -
    from that(1) obtain d where d: "k = Suc i + d" using less_iff_Suc_add by auto
    from that(3) obtain q where "x = 2 ^ k * q" by (auto simp: tz_def)
    then have "x = 2 ^ i * (2 * (2 ^ d * q))" by (simp add: d power_add)
    then have "even (x div 2 ^ i)" by simp
    with that(2) show False by (simp add: tz_def)
  qed
  with a show False by (meson linorder_neqE_nat)
qed

text \<open>Whatever the new entry derives is what was added before.\<close>

lemma AddNextEntry_derives:
  assumes inv: "store_inv h s" and add: "AddNextEntry s hash = Inr s'"
    and der: "derivable (st_index s) j" and j: "unat j < 2 ^ 48" and neq: "j \<noteq> st_index s"
  shows "deriveHash \<lparr>el_index = st_index s, el_hash = hash\<rparr> j = h (unat j)"
proof -
  let ?s = "unat (st_index s)" and ?b = "countTrailingZeros (st_index s)"
  let ?e = "\<lparr>el_index = st_index s, el_hash = hash\<rparr>"
  have len48: "length (buckets s) = 48" using inv by (simp add: store_inv_def)
  have gt: "?s < unat j"
    using neq derivable_le [OF der] by (simp add: word_unat_eq_iff order_le_less)
  obtain t where t: "t < lenBuckets s" "derivable (el_index (buckets s ! t)) j"
    using store_inv_covers [OF inv gt j] .
  let ?x = "el_index (buckets s ! t)"
  have x: "?s < unat ?x" "unat ?x < 2 ^ 48"
    using store_inv_bucket(1) [OF inv t(1)] by (auto simp: least_after_def)
  have "unat ?x < ?s + 2 ^ ?b" using derivable_le [OF t(2)] derivable_upper [OF der] by linarith
  then have derx: "derivable (st_index s) ?x" using x by (intro derivableI) auto
  have "t \<le> ?b" using derivable_ctz_mono [OF derx] x store_inv_bucket(2) [OF inv t(1)] by simp
  moreover have "t \<noteq> ?b"
  proof
    assume "t = ?b"
    then have "2 ^ ?b dvd unat ?x" using ctz_dvd [of ?x] store_inv_bucket(2) [OF inv t(1)] by simp
    then have "?s = unat ?x" using derx by (simp add: derivable_def)
    with x show False by simp
  qed
  ultimately have "deriveHash ?e ?x = el_hash (buckets s ! t)"
    by (intro AddNextEntry_InrD(6) [OF add len48]) simp
  then have "deriveHash ?e j = deriveHash (buckets s ! t) j"
    using deriveHash_compose [of ?e ?x j] derx t(2) x by simp
  also have "\<dots> = h (unat j)" by (rule store_inv_bucket(3) [OF inv t(1) j t(2)])
  finally show ?thesis .
qed

text \<open>Which entry each bucket holds after the addition.\<close>

lemma AddNextEntry_buckets:
  assumes inv: "store_inv h s" and add: "AddNextEntry s hash = Inr s'" and i: "i < lenBuckets s'"
  shows "i = countTrailingZeros (st_index s)
           \<Longrightarrow> buckets s' ! i = \<lparr>el_index = st_index s, el_hash = hash\<rparr>"
    and "i \<noteq> countTrailingZeros (st_index s) \<Longrightarrow> buckets s' ! i = buckets s ! i \<and> i < lenBuckets s"
proof -
  have len48: "length (buckets s) = 48" using inv by (simp add: store_inv_def)
  note D = AddNextEntry_InrD [OF add len48]
  show "i = countTrailingZeros (st_index s)
      \<Longrightarrow> buckets s' ! i = \<lparr>el_index = st_index s, el_hash = hash\<rparr>"
    using D(1,3) len48 by simp
  show "i \<noteq> countTrailingZeros (st_index s) \<Longrightarrow> buckets s' ! i = buckets s ! i \<and> i < lenBuckets s"
    using i D(3,4) store_inv_lower_buckets(1) [OF inv, of i]
    by (auto simp: less_max_iff_disj less_Suc_eq)
qed

lemma AddNextEntry_store_inv:
  assumes inv: "store_inv h s" and add: "AddNextEntry s hash = Inr s'"
  shows "store_inv (h(unat (st_index s) := hash)) s'"
proof -
  let ?s = "unat (st_index s)" and ?b = "countTrailingZeros (st_index s)"
  have len48: "length (buckets s) = 48" and lt: "?s < 2 ^ 48" using inv by (auto simp: store_inv_def)
  note D = AddNextEntry_InrD [OF add len48] and B = AddNextEntry_buckets [OF inv add]
  have idx: "unat (st_index s') = ?s - 1" by (simp add: D(5) unat_pred D(2))
  have tz: "tz ?b ?s" by (rule tz_ctz [OF D(2) lt])
  then have not_tz: "\<not> tz i ?s" if "i \<noteq> ?b" for i using that tz_unique by blast
  have "least_after (unat (st_index s')) i (unat (el_index (buckets s' ! i)))"
    if "i < lenBuckets s'" for i
  proof (cases "i = ?b")
    case True
    then show ?thesis using B(1) [OF that] least_after_step(1) [OF D(2) lt tz] by (simp add: idx)
  next
    case False
    then show ?thesis
      using B(2) [OF that False] least_after_step(2) [OF D(2) lt tz False not_tz]
        store_inv_bucket(1) [OF inv, of i] by (simp add: idx)
  qed
  moreover have "\<not> tz i y"
    if "i < 48" "lenBuckets s' \<le> i" "unat (st_index s') < y" "y < 2 ^ 48" for i y
  proof (cases "y = ?s")
    case True
    then show ?thesis using that(2) D(4) not_tz by auto
  next
    case False
    then have "?s < y" using that(3) idx D(2) by linarith
    moreover have "lenBuckets s \<le> i" using that(2) D(4) by simp
    ultimately show ?thesis using inv that(1,4) unfolding store_inv_def by blast
  qed
  moreover have "deriveHash (buckets s' ! i) j = (h(?s := hash)) (unat j)"
    if i: "i < lenBuckets s'" and j: "unat j < 2 ^ 48" "derivable (el_index (buckets s' ! i)) j" for i j
  proof (cases "i = ?b")
    case True
    show ?thesis
    proof (cases "j = st_index s")
      case True
      then show ?thesis using B(1) [OF i \<open>i = ?b\<close>] deriveHash_self [of "buckets s' ! i"] by simp
    next
      case False
      then have "unat j \<noteq> ?s" by (simp add: word_unat_eq_iff)
      then show ?thesis
        using B(1) [OF i \<open>i = ?b\<close>] j False AddNextEntry_derives [OF inv add _ j(1)] by simp
    qed
  next
    case False
    note old = B(2) [OF i False]
    then have "?s < unat j"
      using derivable_le [OF j(2)] store_inv_bucket(1) [OF inv, of i] by (auto simp: least_after_def)
    then show ?thesis using old store_inv_bucket(3) [OF inv, of i j] j by simp
  qed
  moreover have "length (buckets s') = 48" "lenBuckets s' \<le> 48" "unat (st_index s') < 2 ^ 48"
    using D(1,3,4) len48 lt idx inv by (auto simp: store_inv_def)
  ultimately show ?thesis unfolding store_inv_def by blast
qed

section \<open>Looking an entry up\<close>

lemma lookupBuckets_eq:
  assumes "\<And>i. i < n \<Longrightarrow> i < length bs"
    and "\<And>i. i < n \<Longrightarrow> derivable (el_index (bs ! i)) j \<Longrightarrow> deriveHash (bs ! i) j = x"
    and "\<exists>i<n. derivable (el_index (bs ! i)) j"
  shows "lookupBuckets j n bs = Inr x"
  using assms
proof (induction j n bs rule: lookupBuckets.induct)
  case (3 ind n b bs)
  show ?case
  proof (cases "derivable (el_index b) ind")
    case True
    then show ?thesis using "3.prems"(2) [of 0] by (simp add: derive_eq)
  next
    case False
    then have "\<exists>i<n. derivable (el_index (bs ! i)) ind"
      using "3.prems"(3) by (metis Suc_less_eq gr0_implies_Suc not_gr_zero nth_Cons_0 nth_Cons_Suc)
    with False "3.IH" "3.prems"(1,2) show ?thesis
      by (simp add: derive_eq) (metis Suc_less_eq length_Cons nth_Cons_Suc)
  qed
qed auto

lemma newIndex_nat: "v < 2 ^ 48 \<Longrightarrow> unat (newIndex (of_nat v)) = 2 ^ 48 - 1 - v"
proof -
  assume v: "v < 2 ^ 48"
  then have "unat (of_nat v :: u64) = v" by (simp add: unat_of_nat)
  moreover from this v have "(of_nat v :: u64) \<le> startIndex"
    by (simp add: word_le_nat_alt startIndex_nat)
  ultimately show ?thesis by (simp add: newIndex_def unat_sub startIndex_nat)
qed

lemma LookUp_store_inv:
  assumes inv: "store_inv h s" and "unat (st_index s) < unat (newIndex v)" "unat (newIndex v) < 2 ^ 48"
  shows "LookUp s v = Inr (h (unat (newIndex v)))"
proof -
  have "\<exists>i<lenBuckets s. derivable (el_index (buckets s ! i)) (newIndex v)"
    using store_inv_covers [OF assms] by blast
  then show ?thesis
    using inv store_inv_bucket(3) [OF inv _ assms(3)]
    by (auto simp: LookUp_def Let_def store_inv_def intro!: lookupBuckets_eq)
qed

section \<open>The interfaces\<close>

text \<open>
  What a channel needs of a store of secrets: \<open>holds h n s\<close> says that the store has accepted
  the secrets \<open>h 0, \<dots>, h (n - 1)\<close>. A second contract adds a party that produces the secrets.
\<close>

fun add_all :: "('s \<Rightarrow> 'h \<Rightarrow> 'e + 's) \<Rightarrow> 's \<Rightarrow> 'h list \<Rightarrow> 'e + 's" where
  "add_all add s [] = Inr s"
| "add_all add s (x # xs) = sbind (add s x) (\<lambda>s'. add_all add s' xs)"

locale secret_store =
  fixes new :: 's
    and add :: "'s \<Rightarrow> 'h \<Rightarrow> 'e + 's"
    and lookup :: "'s \<Rightarrow> nat \<Rightarrow> 'e + 'h"
    and holds :: "(nat \<Rightarrow> 'h) \<Rightarrow> nat \<Rightarrow> 's \<Rightarrow> bool"
  assumes holds_new: "holds h 0 new"
    and holds_add: "holds h n s \<Longrightarrow> add s x = Inr s' \<Longrightarrow> holds (h(n := x)) (Suc n) s'"
    and holds_lookup: "holds h n s \<Longrightarrow> v < n \<Longrightarrow> lookup s v = Inr (h v)"
begin

lemma holds_add_all:
  "holds h n s \<Longrightarrow> add_all add s xs = Inr s'
     \<Longrightarrow> holds (\<lambda>v. if n \<le> v \<and> v < n + length xs then xs ! (v - n) else h v) (n + length xs) s'"
proof (induction xs arbitrary: h n s)
  case Nil
  then have "(\<lambda>v. if n \<le> v \<and> v < n + length [] then [] ! (v - n) else h v) = h"
    by (auto simp: fun_eq_iff)
  with Nil show ?case by simp
next
  case (Cons x xs)
  then obtain s1 where s1: "add s x = Inr s1" "add_all add s1 xs = Inr s'"
    by (auto simp: sbind_eq_Inr)
  have "(\<lambda>v. if Suc n \<le> v \<and> v < Suc n + length xs then xs ! (v - Suc n) else (h(n := x)) v)
      = (\<lambda>v. if n \<le> v \<and> v < n + length (x # xs) then (x # xs) ! (v - n) else h v)"
    by (auto simp: fun_eq_iff nth_Cons' Suc_le_eq)
  with Cons.IH [OF holds_add [OF Cons.prems(1) s1(1)] s1(2)] show ?case by simp
qed

lemma lookup_after_adds:
  assumes "add_all add new xs = Inr s" and "v < length xs"
  shows "lookup s v = Inr (xs ! v)"
  using holds_lookup [OF holds_add_all [OF holds_new assms(1)], of v] assms(2) by simp

end

locale secret_channel = secret_store new add lookup holds
  for new :: 's and add :: "'s \<Rightarrow> 'h \<Rightarrow> 'e + 's" and lookup and holds +
  fixes secret :: "nat \<Rightarrow> 'h" and limit :: nat
  assumes accepts: "holds secret n s \<Longrightarrow> n < limit \<Longrightarrow> \<exists>s'. add s (secret n) = Inr s'"
begin

lemma honest_accepted_from:
  "holds secret n s \<Longrightarrow> n + k \<le> limit
     \<Longrightarrow> \<exists>s'. add_all add s (map secret [n..<n + k]) = Inr s' \<and> holds secret (n + k) s'"
proof (induction k arbitrary: n s)
  case 0
  then show ?case by simp
next
  case (Suc k)
  from accepts [OF Suc.prems(1)] Suc.prems(2) obtain s1 where s1: "add s (secret n) = Inr s1"
    by auto
  have "holds secret (Suc n) s1" using holds_add [OF Suc.prems(1) s1] by simp
  then obtain s' where "add_all add s1 (map secret [Suc n..<Suc n + k]) = Inr s'"
      "holds secret (Suc n + k) s'"
    using Suc.IH [of "Suc n" s1] Suc.prems(2) by auto
  moreover have "[n..<n + Suc k] = n # [Suc n..<Suc n + k]"
    by (simp add: upt_conv_Cons)
  ultimately show ?case using s1 by auto
qed

lemma honest_accepted:
  "k \<le> limit \<Longrightarrow> \<exists>s. add_all add new (map secret [0..<k]) = Inr s \<and> (\<forall>v<k. lookup s v = Inr (secret v))"
  using honest_accepted_from [OF holds_new, of k] holds_lookup by auto

end

section \<open>The model provides the interfaces\<close>

definition store_holds :: "(nat \<Rightarrow> hash) \<Rightarrow> nat \<Rightarrow> RevocationStore \<Rightarrow> bool" where
  "store_holds h n s \<longleftrightarrow>
     n < 2 ^ 48 \<and> unat (st_index s) = 2 ^ 48 - 1 - n \<and> store_inv (\<lambda>i. h (2 ^ 48 - 1 - i)) s"

lemma store_holds_new: "store_holds h 0 NewRevocationStore"
  using store_inv_new by (simp add: store_holds_def NewRevocationStore_def startIndex_nat)

lemma store_holds_add:
  assumes "store_holds h n s" and add: "AddNextEntry s x = Inr s'"
  shows "store_holds (h(n := x)) (Suc n) s'"
proof -
  let ?g = "\<lambda>h i. h ((2::nat) ^ 48 - 1 - i)"
  have inv: "store_inv (?g h) s" and n: "n < 2 ^ 48" and idx: "unat (st_index s) = 2 ^ 48 - 1 - n"
    using assms(1) by (auto simp: store_holds_def)
  have len48: "length (buckets s) = 48" using inv by (simp add: store_inv_def)
  note D = AddNextEntry_InrD [OF add len48]
  have Suc_n: "Suc n < 2 ^ 48" using D(2) idx by simp
  have "store_inv ((?g h)(unat (st_index s) := x)) s'" by (rule AddNextEntry_store_inv [OF inv add])
  then have "store_inv (?g (h(n := x))) s'"
  proof (rule store_inv_cong)
    show "((?g h)(unat (st_index s) := x)) j = ?g (h(n := x)) j" if "j < 2 ^ 48" for j
      using that n by (auto simp: idx)
  qed
  moreover have "unat (st_index s') = 2 ^ 48 - 1 - Suc n"
    unfolding D(5) unat_pred [OF D(2)] idx by simp
  ultimately show ?thesis using Suc_n by (simp add: store_holds_def)
qed

lemma store_holds_lookup:
  assumes "store_holds h n s" and "v < n"
  shows "LookUp s (of_nat v) = Inr (h v)"
proof -
  have v: "v < 2 ^ 48" using assms by (simp add: store_holds_def)
  have "LookUp s (of_nat v) = Inr (h (2 ^ 48 - 1 - unat (newIndex (of_nat v))))"
    using assms by (intro LookUp_store_inv) (auto simp: store_holds_def newIndex_nat)
  with v show ?thesis by (simp add: newIndex_nat)
qed

interpretation rev_store: secret_store NewRevocationStore AddNextEntry
    "\<lambda>s v. LookUp s (of_nat v)" store_holds
  by unfold_locales (auto intro: store_holds_new store_holds_add store_holds_lookup)

text \<open>The honest producer: what it hands out for height \<open>v\<close>.\<close>

definition honestSecret :: "RevocationProducer \<Rightarrow> nat \<Rightarrow> hash" where
  "honestSecret p v = deriveHash (root p) (newIndex (of_nat v))"

lemma derivable_root: "derivable 0 j \<longleftrightarrow> unat j < 2 ^ 48"
  by (auto simp: derivable_def ctz_zero_index div_eq_0_iff)

lemma AtIndex_root:
  assumes "el_index (root p) = 0"
  shows "AtIndex p v = (if unat (newIndex v) < 2 ^ 48 then Inr (deriveHash (root p) (newIndex v))
                        else Inl PrefixesDiffer)"
  using assms by (simp add: AtIndex_def Let_def derive_eq derivable_root)

text \<open>A store that has followed an honest producer accepts the producer's next secret.\<close>

lemma honest_next_accepted:
  assumes holds: "store_holds (honestSecret p) n s" and n: "n < 2 ^ 48 - 1"
    and root: "el_index (root p) = 0"
  shows "\<exists>s'. AddNextEntry s (honestSecret p n) = Inr s'"
proof -
  let ?b = "countTrailingZeros (st_index s)" and ?e = "\<lparr>el_index = st_index s, el_hash = honestSecret p n\<rparr>"
  have inv: "store_inv (\<lambda>i. honestSecret p (2 ^ 48 - 1 - i)) s"
    and idx: "unat (st_index s) = 2 ^ 48 - 1 - n"
    using holds by (auto simp: store_holds_def)
  have len48: "length (buckets s) = 48" using inv by (simp add: store_inv_def)
  have pos: "0 < unat (st_index s)" "unat (st_index s) < 2 ^ 48" using n idx by auto
  then have b: "?b < 48" by (rule ctz_less_48)
  have next_ix: "newIndex (of_nat n) = st_index s"
    using n by (simp add: word_unat_eq_iff newIndex_nat idx)
  have "deriveHash ?e (el_index x) = el_hash x \<and> derivable (st_index s) (el_index x)"
    if x: "x \<in> set (take ?b (buckets s))" for x
  proof -
    obtain i where i: "i < ?b" "x = buckets s ! i" using x len48 b by (auto simp: in_set_conv_nth)
    note lower = store_inv_lower_buckets [OF inv i(1)]
    note bucket = store_inv_bucket [OF inv lower(1)]
    have ix: "unat (el_index x) < 2 ^ 48" using bucket(1) by (simp add: least_after_def i(2))
    have "newIndex (of_nat (2 ^ 48 - 1 - unat (el_index x))) = el_index x"
    proof -
      have "(2::nat) ^ 48 - 1 - unat (el_index x) < 2 ^ 48" by simp
      then show ?thesis unfolding word_unat_eq_iff using ix by (subst newIndex_nat) linarith+
    qed
    then have "el_hash x = deriveHash (root p) (el_index x)"
      using bucket(4) by (simp add: i(2) honestSecret_def)
    moreover have "deriveHash ?e (el_index x) = deriveHash (root p) (el_index x)"
      using deriveHash_compose [of "root p" "st_index s" "el_index x"] lower(2) pos
      by (simp add: i(2) honestSecret_def next_ix root derivable_root)
    ultimately show ?thesis using lower(2) by (simp add: i(2))
  qed
  then have "checkBuckets ?e (take ?b (buckets s)) = Inr ()" by (simp add: checkBuckets_iff)
  then show ?thesis using b len48 by (simp add: AddNextEntry_def Let_def)
qed

interpretation rev_channel: secret_channel NewRevocationStore AddNextEntry
    "\<lambda>s v. LookUp s (of_nat v)" store_holds "honestSecret (NewRevocationProducer r)" "2 ^ 48 - 1" for r
  by unfold_locales
    (rule honest_next_accepted, auto simp: NewRevocationProducer_def rootIndex_def)

section \<open>Serialisation\<close>

text \<open>
  The stores that additions reach: the array has 48 elements with 32-byte hashes and the unused
  ones are zero.
\<close>

definition store_wf :: "RevocationStore \<Rightarrow> bool" where
  "store_wf s \<longleftrightarrow> length (buckets s) = 48 \<and> lenBuckets s \<le> 48
     \<and> (\<forall>b \<in> set (buckets s). length (el_hash b) = 32)
     \<and> (\<forall>i<48. lenBuckets s \<le> i \<longrightarrow> buckets s ! i = zeroElement)"

lemma store_wf_new: "store_wf NewRevocationStore"
  by (simp add: store_wf_def NewRevocationStore_def maxHeight_def zeroElement_def)

lemma store_wf_add:
  assumes "store_wf s" "AddNextEntry s h = Inr s'" "length h = 32"
  shows "store_wf s'"
proof -
  have len48: "length (buckets s) = 48" using assms(1) by (simp add: store_wf_def)
  note D = AddNextEntry_InrD [OF assms(2) len48]
  have "\<forall>b \<in> set (buckets s'). length (el_hash b) = 32"
    using assms(1,3) D(3) set_update_subset_insert unfolding store_wf_def by fastforce
  moreover have "buckets s' ! i = zeroElement" if "i < 48" "lenBuckets s' \<le> i" for i
    using that assms(1) D(3,4) by (simp add: store_wf_def)
  ultimately show ?thesis
    using assms(1) D(1,3,4) by (simp add: store_wf_def)
qed

lemma store_wf_add_all:
  "add_all AddNextEntry s hs = Inr s' \<Longrightarrow> store_wf s \<Longrightarrow> \<forall>h \<in> set hs. length h = 32 \<Longrightarrow> store_wf s'"
  by (induction hs arbitrary: s) (auto simp: sbind_eq_Inr intro: store_wf_add)

lemma readFull_append [simp]: "length xs = n \<Longrightarrow> readFull n (xs @ ys) = Inr (xs, ys)"
  by (simp add: readFull_def)

lemma encodeBuckets_ok:
  "n \<le> length bs \<Longrightarrow> encodeBuckets n bs
     = Inr (concat (map (\<lambda>b. put_word 8 (el_index b) @ el_hash b) (take n bs)))"
  by (induction n bs rule: encodeBuckets.induct) auto

lemma length_encoded:
  "\<forall>b \<in> set es. length (el_hash b) = 32
     \<Longrightarrow> length (concat (map (\<lambda>b. put_word 8 (el_index b) @ el_hash b) es)) = 40 * length es"
  by (induction es) auto

lemma decodeBuckets_encoded:
  assumes "\<forall>b \<in> set es. length (el_hash b) = 32" and "i + length es \<le> length bs"
  shows "decodeBuckets (length es) i bs
           (concat (map (\<lambda>b. put_word 8 (el_index b) @ el_hash b) es) @ rest)
         = Inr (take i bs @ es @ drop (i + length es) bs, rest)"
  using assms
proof (induction es arbitrary: i bs)
  case Nil
  then show ?case by simp
next
  case (Cons e es)
  have upd: "take (Suc i) (bs[i := e]) @ es @ drop (Suc i + length es) (bs[i := e])
      = take i bs @ (e # es) @ drop (i + length (e # es)) bs"
    using Cons.prems(2) by (simp add: take_Suc_conv_app_nth)
  have e: "\<lparr>el_index = el_index e, el_hash = el_hash e\<rparr> = e" by simp
  show ?case
    using Cons.IH [of "Suc i" "bs[i := e]"] Cons.prems upd by (simp add: e del: append_Cons)
qed

lemma store_wf_split:
  assumes "store_wf s"
  shows "take (lenBuckets s) (buckets s) @ drop (lenBuckets s) (replicate maxHeight zeroElement)
       = buckets s"
  using assms
  by (intro nth_equalityI) (auto simp: store_wf_def maxHeight_def nth_append)

lemma store_roundtrip_wf:
  assumes "store_wf s"
  shows "\<exists>bs. Store_Encode s = Inr bs \<and> length bs = 9 + 40 * lenBuckets s
           \<and> NewRevocationStoreFromBytes (bs @ rest) = Inr (s, rest)"
proof -
  let ?es = "take (lenBuckets s) (buckets s)"
  let ?enc = "concat (map (\<lambda>b. put_word 8 (el_index b) @ el_hash b) ?es)"
  have wf: "length (buckets s) = 48" "lenBuckets s \<le> 48" "\<forall>b \<in> set ?es. length (el_hash b) = 32"
    using assms by (auto simp: store_wf_def dest: in_set_takeD)
  have len: "length ?es = lenBuckets s" using wf by simp
  have mh: "lenBuckets s \<le> maxHeight" using wf(2) by (simp add: maxHeight_def)
  have n: "unat (of_nat (lenBuckets s) :: u8) = lenBuckets s" using wf(2) by (simp add: unat_of_nat)
  have enc: "Store_Encode s
      = Inr (put_word 1 (of_nat (lenBuckets s) :: u8) @ ?enc @ put_word 8 (st_index s))"
    using wf by (simp add: Store_Encode_def encodeBuckets_ok)
  have len_enc: "length ?enc = 40 * lenBuckets s" using length_encoded [OF wf(3)] len by simp
  have "decodeBuckets (lenBuckets s) 0 (replicate maxHeight zeroElement)
      (?enc @ put_word 8 (st_index s) @ rest) = Inr (buckets s, put_word 8 (st_index s) @ rest)"
    using decodeBuckets_encoded [of ?es 0 "replicate maxHeight zeroElement"] wf
      store_wf_split [OF assms] mh by (simp add: len)
  then have "NewRevocationStoreFromBytes
      (put_word 1 (of_nat (lenBuckets s) :: u8) @ ?enc @ put_word 8 (st_index s) @ rest) = Inr (s, rest)"
    by (simp add: NewRevocationStoreFromBytes_def n)
  with enc len_enc show ?thesis by simp
qed

section \<open>Properties\<close>

text \<open>
  C30. A peer cannot make the store lose or change a secret it has accepted. Whatever hashes a
  peer sends, if \<open>AddNextEntry\<close> accepted all of them then \<open>LookUp\<close> returns, for every height
  \<open>v\<close>, the very hash that was sent for it, although the store keeps only 48 elements.
\<close>

theorem accepted_secrets_recoverable:
  assumes "add_all AddNextEntry NewRevocationStore hs = Inr s" and "v < length hs"
  shows "LookUp s (of_nat v) = Inr (hs ! v)"
  using assms by (rule rev_store.lookup_after_adds)

theorem accepted_secrets_recoverable_witness:
  "\<exists>s. add_all AddNextEntry NewRevocationStore
         (map (honestSecret (NewRevocationProducer (replicate 32 7))) [0..<3]) = Inr s
     \<and> LookUp s (of_nat 1) = Inr (honestSecret (NewRevocationProducer (replicate 32 7)) 1)"
proof -
  let ?hs = "map (honestSecret (NewRevocationProducer (replicate 32 7))) [0..<3]"
  have "(3::nat) \<le> 2 ^ 48 - 1" by simp
  then obtain s where s: "add_all AddNextEntry NewRevocationStore ?hs = Inr s"
    using rev_channel.honest_accepted by meson
  moreover have "LookUp s (of_nat 1) = Inr (?hs ! 1)"
    by (rule accepted_secrets_recoverable [OF s]) simp
  ultimately show ?thesis by auto
qed

text \<open>
  C31. An honest producer is never rejected: the store accepts the secrets \<open>AtIndex\<close> gives for
  the heights \<open>0, \<dots>, k - 1\<close>, for every \<open>k\<close> up to \<open>2 ^ 48 - 1\<close>, and gives each of them back.
\<close>

theorem honest_secrets_accepted:
  assumes "length hs \<le> 2 ^ 48 - 1"
    and "\<And>v. v < length hs \<Longrightarrow> AtIndex (NewRevocationProducer r) (of_nat v) = Inr (hs ! v)"
  shows "\<exists>s. add_all AddNextEntry NewRevocationStore hs = Inr s
           \<and> (\<forall>v<length hs. LookUp s (of_nat v) = AtIndex (NewRevocationProducer r) (of_nat v))"
proof -
  let ?p = "NewRevocationProducer r"
  have at: "AtIndex ?p (of_nat v) = Inr (honestSecret ?p v)" if "v < length hs" for v
    using that assms(1)
    by (subst AtIndex_root) (auto simp: newIndex_nat honestSecret_def NewRevocationProducer_def rootIndex_def)
  then have "hs = map (honestSecret ?p) [0..<length hs]"
    using assms(2) by (intro nth_equalityI) auto
  then show ?thesis
    using rev_channel.honest_accepted [OF assms(1), of r] at by metis
qed

theorem honest_secrets_accepted_witness:
  "\<exists>s. add_all AddNextEntry NewRevocationStore
         (map (honestSecret (NewRevocationProducer (replicate 32 7))) [0..<5]) = Inr s
     \<and> LookUp s (of_nat 4) = AtIndex (NewRevocationProducer (replicate 32 7)) (of_nat 4)"
proof -
  let ?p = "NewRevocationProducer (replicate 32 7)"
  have "AtIndex ?p (of_nat v) = Inr (honestSecret ?p v)" if "v < 5" for v
    using that by (subst AtIndex_root)
      (auto simp: newIndex_nat honestSecret_def NewRevocationProducer_def rootIndex_def)
  then obtain s where "add_all AddNextEntry NewRevocationStore (map (honestSecret ?p) [0..<5]) = Inr s"
      "\<forall>v<5. LookUp s (of_nat v) = AtIndex ?p (of_nat v)"
    using honest_secrets_accepted [of "map (honestSecret ?p) [0..<5]" "replicate 32 7"] by auto
  then show ?thesis by (metis lessI eval_nat_numeral(3))
qed

lemma producer_defined: "is_ok (AtIndex (NewRevocationProducer r) v) \<longleftrightarrow> unat v < 2 ^ 48"
proof -
  have "unat (newIndex v) < 2 ^ 48 \<longleftrightarrow> unat v < 2 ^ 48"
  proof (cases "v \<le> startIndex")
    case True
    then show ?thesis
      by (simp add: newIndex_def unat_sub startIndex_nat word_le_nat_alt)
  next
    case False
    then show ?thesis
      using unat_lt [of v] by (simp add: newIndex_def unat_sub_if' startIndex_nat word_le_nat_alt)
  qed
  then show ?thesis by (simp add: AtIndex_root NewRevocationProducer_def rootIndex_def)
qed

text \<open>
  The producer has a secret exactly for the heights below \<open>2 ^ 48\<close>; every other height is an
  error, since its index wraps around.
\<close>

theorem AtIndex_defined_iff:
  "is_ok (AtIndex (NewRevocationProducer r) v) \<longleftrightarrow> unat v < 2 ^ 48"
  by (rule producer_defined)

text \<open>
  C32. Every store that additions of 32-byte hashes reach survives serialisation: \<open>Encode\<close>
  succeeds with at most 1929 bytes, and \<open>NewRevocationStoreFromBytes\<close> reads the same store back
  and leaves what follows it in the stream.
\<close>

theorem store_encode_decode:
  assumes "add_all AddNextEntry NewRevocationStore hs = Inr s" and "\<forall>h \<in> set hs. length h = 32"
  shows "\<exists>bs. Store_Encode s = Inr bs \<and> length bs \<le> 1929
           \<and> NewRevocationStoreFromBytes (bs @ rest) = Inr (s, rest)"
proof -
  have "store_wf s" using store_wf_add_all [OF assms(1) store_wf_new assms(2)] .
  then show ?thesis using store_roundtrip_wf [of s rest] by (auto simp: store_wf_def)
qed

theorem store_encode_decode_witness:
  "\<exists>s bs. add_all AddNextEntry NewRevocationStore [replicate 32 1] = Inr s
     \<and> Store_Encode s = Inr bs \<and> NewRevocationStoreFromBytes (bs @ [5]) = Inr (s, [5])"
proof -
  have z: "countTrailingZeros startIndex = 0" by code_simp
  obtain s where s: "add_all AddNextEntry NewRevocationStore [replicate 32 1] = Inr s"
    by (simp add: AddNextEntry_def NewRevocationStore_def Let_def z maxHeight_def)
  obtain bs where "Store_Encode s = Inr bs" "NewRevocationStoreFromBytes (bs @ [5]) = Inr (s, [5])"
    using store_encode_decode [OF s, of "[5]"] by auto
  with s show ?thesis by blast
qed

text \<open>
  The last index cannot be used: after \<open>2 ^ 48 - 1\<close> entries the store's index is 0, whose
  bucket is outside the array, so the next \<open>AddNextEntry\<close> fails whatever the hash.
\<close>

theorem store_exhausted:
  assumes "length (buckets s) = 48" and "st_index s = 0"
  shows "\<not> is_ok (AddNextEntry s hash)"
  using AddNextEntry_InrD(2) [of s hash] assms by (cases "AddNextEntry s hash") auto

theorem store_exhausted_witness:
  "\<not> is_ok (AddNextEntry (NewRevocationStore\<lparr>st_index := 0\<rparr>) (replicate 32 9))"
  by (rule store_exhausted) (simp_all add: NewRevocationStore_def maxHeight_def)

end
