(* ===== verification/Units.thy ===== *)
theory Units
  imports Prelude
begin

text \<open>
  Amounts, fee rates and channel types: \<open>src/oblnd/lnwire/msat.go\<close>,
  \<open>src/oblnd/lnwallet/chainfee/rates.go\<close>, the transaction weights of
  \<open>src/oblnd/input/size.go\<close>, the channel type bits and constraints of
  \<open>src/oblnd/channeldb/channel.go\<close>, and the fee and dust functions of
  \<open>src/oblnd/lnwallet/commitment.go\<close> and \<open>channel.go\<close>. Amounts keep their width of 64 bits and
  all arithmetic wraps as in Go; signed types are read with \<open>sint\<close>.
\<close>

section \<open>The model\<close>

subsection \<open>Amounts\<close>

type_synonym MilliSatoshi = u64
type_synonym UnitPrec11 = u64
type_synonym UnitPrec8 = u64
type_synonym SatAmount = i64
type_synonym AssetAmount = i64

definition mSatScale :: u64 where
  "mSatScale = 1000"

definition MaxMilliSatoshi :: MilliSatoshi where
  "MaxMilliSatoshi = NOT 0"

definition NewMSatFromSatoshis :: "SatAmount \<Rightarrow> MilliSatoshi" where
  "NewMSatFromSatoshis sat = sat * mSatScale"

definition ToSatoshis :: "MilliSatoshi \<Rightarrow> SatAmount" where
  "ToSatoshis m = m div mSatScale"

definition UnitPrec8_ToMsat :: "UnitPrec8 \<Rightarrow> MilliSatoshi" where
  "UnitPrec8_ToMsat i = NewMSatFromSatoshis i"

definition UnitPrec8_ToSat :: "UnitPrec8 \<Rightarrow> SatAmount" where
  "UnitPrec8_ToSat i = i"

definition UnitPrec11_ToMsat :: "UnitPrec11 \<Rightarrow> MilliSatoshi" where
  "UnitPrec11_ToMsat i = i"

definition UnitPrec11_ToSat :: "UnitPrec11 \<Rightarrow> SatAmount" where
  "UnitPrec11_ToSat i = i div 1000"

definition OmniGas :: SatAmount where
  "OmniGas = 546"

definition BtcAssetId :: u32 where
  "BtcAssetId = 0"

definition AssetMinHtlc :: UnitPrec11 where
  "AssetMinHtlc = 10000"

definition LoadDefaultMinHtlc :: "u32 \<Rightarrow> MilliSatoshi \<Rightarrow> UnitPrec11" where
  "LoadDefaultMinHtlc assetId minHtlc = (if assetId = BtcAssetId then minHtlc else AssetMinHtlc)"

subsection \<open>Fee rates\<close>

type_synonym SatPerKWeight = i64
type_synonym SatPerKVByte = i64

definition FeePerKwFloor :: SatPerKWeight where
  "FeePerKwFloor = 253"

definition AbsoluteFeePerKwFloor :: SatPerKWeight where
  "AbsoluteFeePerKwFloor = 250"

definition FeeForVSize :: "SatPerKVByte \<Rightarrow> i64 \<Rightarrow> SatAmount" where
  "FeeForVSize s vbytes = i64_div (s * vbytes) 1000"

definition FeeForWeight :: "SatPerKWeight \<Rightarrow> i64 \<Rightarrow> SatAmount" where
  "FeeForWeight s wu = i64_div (s * wu) 1000"

text \<open>\<open>blockchain.WitnessScaleFactor\<close> is the constant 4 of BIP 141.\<close>

definition FeePerKWeight :: "SatPerKVByte \<Rightarrow> SatPerKWeight" where
  "FeePerKWeight s = i64_div s 4"

definition FeePerKVByte :: "SatPerKWeight \<Rightarrow> SatPerKVByte" where
  "FeePerKVByte s = s * 4"

subsection \<open>Weights\<close>

definition MultiSigSize :: i64 where
  "MultiSigSize = 1 + 1 + 33 + 1 + 33 + 1 + 1"

definition MultiSigWitnessSize :: i64 where
  "MultiSigWitnessSize = 1 + 1 + 1 + 73 + 1 + 73 + 1 + MultiSigSize"

definition P2WPKHSize :: i64 where
  "P2WPKHSize = 1 + 1 + 20"

definition P2WSHSize :: i64 where
  "P2WSHSize = 1 + 1 + 32"

definition FundingInputSize :: i64 where
  "FundingInputSize = 32 + 4 + 1 + 4"

definition CommitmentDelayOutput :: i64 where
  "CommitmentDelayOutput = 8 + 1 + P2WSHSize"

definition CommitmentKeyHashOutput :: i64 where
  "CommitmentKeyHashOutput = 8 + 1 + P2WPKHSize"

definition CommitmentAnchorOutput :: i64 where
  "CommitmentAnchorOutput = 8 + 1 + P2WSHSize"

definition HTLCSize :: i64 where
  "HTLCSize = 8 + 1 + P2WSHSize"

definition WitnessHeaderSize :: i64 where
  "WitnessHeaderSize = 1 + 1"

definition BaseCommitmentTxSize :: i64 where
  "BaseCommitmentTxSize =
     4 + 1 + FundingInputSize + 1 + CommitmentDelayOutput + CommitmentKeyHashOutput + 4"

definition BaseCommitmentTxWeight :: i64 where
  "BaseCommitmentTxWeight = 4 * BaseCommitmentTxSize"

definition WitnessCommitmentTxWeight :: i64 where
  "WitnessCommitmentTxWeight = WitnessHeaderSize + MultiSigWitnessSize"

definition BaseAnchorCommitmentTxSize :: i64 where
  "BaseAnchorCommitmentTxSize =
     4 + 1 + FundingInputSize + 3 + 2 * CommitmentDelayOutput + 2 * CommitmentAnchorOutput + 4"

definition BaseAnchorCommitmentTxWeight :: i64 where
  "BaseAnchorCommitmentTxWeight = 4 * BaseAnchorCommitmentTxSize"

definition CommitWeight_const :: i64 where
  "CommitWeight_const = BaseCommitmentTxWeight + WitnessCommitmentTxWeight"

definition AnchorCommitWeight :: i64 where
  "AnchorCommitWeight = BaseAnchorCommitmentTxWeight + WitnessCommitmentTxWeight"

definition HTLCWeight :: i64 where
  "HTLCWeight = 4 * HTLCSize"

definition HtlcTimeoutWeight :: i64 where
  "HtlcTimeoutWeight = 663"

definition HtlcSuccessWeight :: i64 where
  "HtlcSuccessWeight = 703"

definition HtlcConfirmedScriptOverhead :: i64 where
  "HtlcConfirmedScriptOverhead = 3"

definition HtlcTimeoutWeightConfirmed :: i64 where
  "HtlcTimeoutWeightConfirmed = HtlcTimeoutWeight + HtlcConfirmedScriptOverhead"

definition HtlcSuccessWeightConfirmed :: i64 where
  "HtlcSuccessWeightConfirmed = HtlcSuccessWeight + HtlcConfirmedScriptOverhead"

lemmas weight_defs =
  MultiSigSize_def MultiSigWitnessSize_def P2WPKHSize_def P2WSHSize_def FundingInputSize_def
  CommitmentDelayOutput_def CommitmentKeyHashOutput_def CommitmentAnchorOutput_def HTLCSize_def
  WitnessHeaderSize_def BaseCommitmentTxSize_def BaseCommitmentTxWeight_def
  WitnessCommitmentTxWeight_def BaseAnchorCommitmentTxSize_def BaseAnchorCommitmentTxWeight_def
  CommitWeight_const_def AnchorCommitWeight_def HTLCWeight_def HtlcTimeoutWeight_def
  HtlcSuccessWeight_def HtlcConfirmedScriptOverhead_def HtlcTimeoutWeightConfirmed_def
  HtlcSuccessWeightConfirmed_def

subsection \<open>Channel types and constraints\<close>

type_synonym ChannelType = u8

definition DualFunderBit :: ChannelType where "DualFunderBit = 1"
definition SingleFunderTweaklessBit :: ChannelType where "SingleFunderTweaklessBit = 2"
definition NoFundingTxBit :: ChannelType where "NoFundingTxBit = 4"
definition AnchorOutputsBit :: ChannelType where "AnchorOutputsBit = 8"
definition FrozenBit :: ChannelType where "FrozenBit = 16"
definition ZeroHtlcTxFeeBit :: ChannelType where "ZeroHtlcTxFeeBit = 32"
definition LeaseExpirationBit :: ChannelType where "LeaseExpirationBit = 64"

definition IsSingleFunder :: "ChannelType \<Rightarrow> bool" where
  "IsSingleFunder c \<longleftrightarrow> c AND DualFunderBit = 0"

definition IsDualFunder :: "ChannelType \<Rightarrow> bool" where
  "IsDualFunder c \<longleftrightarrow> c AND DualFunderBit = DualFunderBit"

definition IsTweakless :: "ChannelType \<Rightarrow> bool" where
  "IsTweakless c \<longleftrightarrow> c AND SingleFunderTweaklessBit = SingleFunderTweaklessBit"

definition HasFundingTx :: "ChannelType \<Rightarrow> bool" where
  "HasFundingTx c \<longleftrightarrow> c AND NoFundingTxBit = 0"

definition HasAnchors :: "ChannelType \<Rightarrow> bool" where
  "HasAnchors c \<longleftrightarrow> c AND AnchorOutputsBit = AnchorOutputsBit"

definition ZeroHtlcTxFee :: "ChannelType \<Rightarrow> bool" where
  "ZeroHtlcTxFee c \<longleftrightarrow> c AND ZeroHtlcTxFeeBit = ZeroHtlcTxFeeBit"

definition IsFrozen :: "ChannelType \<Rightarrow> bool" where
  "IsFrozen c \<longleftrightarrow> c AND FrozenBit = FrozenBit"

definition HasLeaseExpiration :: "ChannelType \<Rightarrow> bool" where
  "HasLeaseExpiration c \<longleftrightarrow> c AND LeaseExpirationBit = LeaseExpirationBit"

record ChannelConstraints =
  DustLimit :: SatAmount
  ChanReserve :: UnitPrec8
  MaxPendingAmount :: UnitPrec11
  MinHTLC :: UnitPrec11
  MaxAcceptedHtlcs :: u16
  CsvDelay :: u16

subsection \<open>Short channel identifiers\<close>

record ShortChannelID =
  BlockHeight :: u32
  TxIndex :: u32
  TxPosition :: u16

definition NewShortChanIDFromInt :: "u64 \<Rightarrow> ShortChannelID" where
  "NewShortChanIDFromInt chanID =
     \<lparr>BlockHeight = ucast (drop_bit 40 chanID),
      TxIndex = ucast (drop_bit 16 chanID) AND 0xFFFFFF,
      TxPosition = ucast chanID\<rparr>"

definition ToUint64 :: "ShortChannelID \<Rightarrow> u64" where
  "ToUint64 c =
     (push_bit 40 (ucast (BlockHeight c)) OR push_bit 16 (ucast (TxIndex c))) OR ucast (TxPosition c)"

subsection \<open>Fees and dust\<close>

definition CommitWeight :: "ChannelType \<Rightarrow> i64" where
  "CommitWeight chanType = (if HasAnchors chanType then AnchorCommitWeight else CommitWeight_const)"

definition HtlcTimeoutFee :: "ChannelType \<Rightarrow> SatPerKWeight \<Rightarrow> SatAmount" where
  "HtlcTimeoutFee chanType feePerKw =
     (if ZeroHtlcTxFee chanType then 0
      else if HasAnchors chanType then FeeForWeight feePerKw HtlcTimeoutWeightConfirmed
      else FeeForWeight feePerKw HtlcTimeoutWeight)"

definition HtlcSuccessFee :: "ChannelType \<Rightarrow> SatPerKWeight \<Rightarrow> SatAmount" where
  "HtlcSuccessFee chanType feePerKw =
     (if ZeroHtlcTxFee chanType then 0
      else if HasAnchors chanType then FeeForWeight feePerKw HtlcSuccessWeightConfirmed
      else FeeForWeight feePerKw HtlcSuccessWeight)"

definition HtlcIsDust ::
    "ChannelType \<Rightarrow> bool \<Rightarrow> bool \<Rightarrow> SatPerKWeight \<Rightarrow> SatAmount \<Rightarrow> SatAmount \<Rightarrow> u32 \<Rightarrow> bool" where
  "HtlcIsDust chanType incoming ourCommit feePerKw htlcAmt dustLimit assetId =
     (let htlcAmtBtc = (if assetId \<noteq> BtcAssetId then OmniGas * 3 else htlcAmt);
          htlcFee = (if incoming = ourCommit then HtlcSuccessFee chanType feePerKw
                     else HtlcTimeoutFee chanType feePerKw)
      in i64_less (htlcAmtBtc - htlcFee) dustLimit)"

section \<open>Properties of units and fees\<close>

lemma weight_values:
  "CommitWeight_const = 724" "AnchorCommitWeight = 1124" "HTLCWeight = 172"
  "HtlcTimeoutWeightConfirmed = 666" "HtlcSuccessWeightConfirmed = 706"
  "WitnessCommitmentTxWeight = 224"
  by (simp_all add: weight_defs)

lemma sint_unat: "unat (a :: i64) < 2 ^ 63 \<Longrightarrow> sint a = int (unat a)"
proof -
  assume "unat a < 2 ^ 63"
  then have "int (unat a) < 2 ^ 63" by (metis of_nat_less_iff of_nat_numeral of_nat_power)
  moreover have u: "uint a = int (unat a)" unfolding unat_eq_nat_uint by (rule nat_0_le [symmetric]) simp
  ultimately have "uint a < 2 ^ 63" by (simp only:)
  then have "signed_take_bit 63 (uint a) = uint a"
    by (intro signed_take_bit_int_eq_self) (auto intro: order_trans [OF _ uint_ge_0])
  then show "sint a = int (unat a)" unfolding u [symmetric] by (simp add: sint_uint)
qed

lemma unat_mult_lt: "unat (a :: u64) * unat b < 2 ^ 64 \<Longrightarrow> unat (a * b) = unat a * unat b"
  by (simp add: unat_word_ariths)

lemma unat_add_lt: "unat (a :: u64) + unat b < 2 ^ 64 \<Longrightarrow> unat (a + b) = unat a + unat b"
  by (simp add: unat_word_ariths)

text \<open>For amounts that fit the signed range, truncating division is division of naturals.\<close>

lemma i64_div_nat:
  assumes "unat a < 2 ^ 63" and "unat b < 2 ^ 63"
  shows "unat (i64_div a b) = unat a div unat b"
proof -
  have "sgn (int m) * sgn (int n) * (\<bar>int m\<bar> div \<bar>int n\<bar>) = int (m div n)" for m n
    by (cases "m = 0"; cases "n = 0") (simp_all add: zdiv_int)
  then have "i64_div a b = of_nat (unat a div unat b)"
    unfolding i64_div_def sint_unat [OF assms(1)] sint_unat [OF assms(2)]
    by (simp only: word_of_int_nat of_nat_0_le_iff nat_int)
  moreover have "unat a div unat b < 2 ^ 64"
    by (rule le_less_trans [OF div_le_dividend]) (use unat_lt [of a] in simp)
  ultimately show ?thesis by (simp add: unat_of_nat)
qed

lemma FeeForWeight_nat:
  assumes "unat rate * unat w < 2 ^ 63"
  shows "unat (FeeForWeight rate w) = unat rate * unat w div 1000"
  using assms by (simp add: FeeForWeight_def i64_div_nat unat_mult_lt)

lemma msat_roundtrip:
  assumes "unat sat * 1000 < 2 ^ 64"
  shows "ToSatoshis (NewMSatFromSatoshis sat) = sat"
proof -
  have "unat (sat * 1000) = unat sat * 1000" using assms by (simp add: unat_mult_lt)
  then show ?thesis
    by (simp add: ToSatoshis_def NewMSatFromSatoshis_def mSatScale_def word_unat_eq_iff unat_div)
qed

text \<open>A short channel identifier whose block height and index fit three bytes.\<close>

definition scid_wf :: "ShortChannelID \<Rightarrow> bool" where
  "scid_wf c \<longleftrightarrow> BlockHeight c < 2 ^ 24 \<and> TxIndex c < 2 ^ 24"

lemma less_two_power_high_bits: "(x :: 'a::len word) < 2 ^ n \<Longrightarrow> n \<le> k \<Longrightarrow> \<not> bit x k"
  using less_mask_eq [of x n] by (metis bit_and_iff bit_mask_iff leD)

lemma mask24_bit: "bit (0xFFFFFF :: u32) k \<longleftrightarrow> k < 24"
proof -
  have "(0xFFFFFF :: u32) = mask 24" by (simp add: mask_eq_exp_minus_1)
  then have "bit (0xFFFFFF :: u32) k \<longleftrightarrow> bit (mask 24 :: u32) k" by (rule arg_cong)
  then show ?thesis unfolding bit_mask_iff by auto
qed

text \<open>The compact form of a well-formed identifier is lossless.\<close>

lemma bit_ToUint64:
  "bit (ToUint64 c) k \<longleftrightarrow> k < 64 \<and>
     (40 \<le> k \<and> bit (BlockHeight c) (k - 40) \<or> 16 \<le> k \<and> bit (TxIndex c) (k - 16)
      \<or> bit (TxPosition c) k)"
  using bit_imp_le_length [of "TxPosition c" k] by (auto simp: ToUint64_def bit_simps)

lemma scid_wf_bits:
  assumes "scid_wf c"
  shows "bit (BlockHeight c) k \<Longrightarrow> k < 24" and "bit (TxIndex c) k \<Longrightarrow> k < 24"
    and "bit (TxPosition c) k \<Longrightarrow> k < 16"
  using assms less_two_power_high_bits bit_imp_le_length [of "TxPosition c" k]
  unfolding scid_wf_def by (meson not_le, meson not_le, simp)

lemma scid_roundtrip:
  assumes "scid_wf c"
  shows "NewShortChanIDFromInt (ToUint64 c) = c"
proof -
  note bits = scid_wf_bits [OF assms]
  have "ucast (drop_bit 40 (ToUint64 c)) = BlockHeight c"
  proof (rule bit_word_eqI)
    fix k assume "k < LENGTH(32)"
    then show "bit (ucast (drop_bit 40 (ToUint64 c)) :: u32) k = bit (BlockHeight c) k"
      using bits(1) [of k] bits(2) [of "24 + k"] bits(3) [of "40 + k"]
      by (auto simp: bit_simps bit_ToUint64)
  qed
  moreover have "ucast (drop_bit 16 (ToUint64 c)) AND 0xFFFFFF = TxIndex c"
  proof (rule bit_word_eqI)
    fix k assume "k < LENGTH(32)"
    then show "bit (ucast (drop_bit 16 (ToUint64 c)) AND 0xFFFFFF :: u32) k = bit (TxIndex c) k"
      using bits(2) [of k] bits(3) [of "16 + k"]
      unfolding bit_and_iff mask24_bit by (auto simp: bit_simps bit_ToUint64)
  qed
  moreover have "ucast (ToUint64 c) = TxPosition c"
    by (rule bit_word_eqI) (auto simp: bit_simps bit_ToUint64)
  ultimately show ?thesis by (simp add: NewShortChanIDFromInt_def)
qed

lemma scid_from_int_wf: "scid_wf (NewShortChanIDFromInt x)"
proof -
  have small: "w < 2 ^ 24" if "\<And>k. bit w k \<Longrightarrow> k < 24" for w :: u32
  proof -
    have "w AND mask 24 = w"
      by (rule bit_word_eqI) (use that in \<open>auto simp: bit_and_iff bit_mask_iff\<close>)
    then show ?thesis using and_mask_less' [of 24 w] by simp
  qed
  have "ucast (drop_bit 40 x) < (2 ^ 24 :: u32)"
    by (rule small) (use bit_imp_le_length [of x] in \<open>fastforce simp: bit_simps\<close>)
  moreover have "ucast (drop_bit 16 x) AND 0xFFFFFF < (2 ^ 24 :: u32)"
    by (rule small) (simp only: bit_and_iff mask24_bit)
  ultimately show ?thesis unfolding scid_wf_def NewShortChanIDFromInt_def ShortChannelID.simps ..
qed

end
