(* ===== verification/Update_Log.thy ===== *)
theory Update_Log
  imports Units
begin

text \<open>
  Payment descriptors and the two update logs of a channel
  (\<open>src/oblnd/lnwallet/channel.go\<close>: \<open>updateType\<close>, \<open>PaymentDescriptor\<close>, \<open>updateLog\<close> and
  \<open>compactLogs\<close>). The doubly linked list of Go is a list of elements; an element has an
  identity, so that the two indexes of a log point to elements and not to values. The invariant
  ties the indexes to the list, and the two logs of a channel to each other: every settle or fail
  entry of one log refers to exactly one HTLC of the other, with the same amounts.
\<close>

section \<open>The model\<close>

datatype updateType = Add | Fail | MalformedFail | Settle | FeeUpdate

record AddRef =
  ar_Height :: u64
  ar_Index :: u16

record SettleFailRef =
  sfr_Source :: ShortChannelID
  sfr_Height :: u64
  sfr_Index :: u16

record CircuitKey =
  ck_ChanID :: ShortChannelID
  ck_HtlcID :: u64

text \<open>
  The signature of the second-level transaction is kept as the bytes of \<open>ecdsa.Signature\<close>, a
  type of a third-party package that the log never looks into.
\<close>

record PaymentDescriptor =
  RHash :: bytes
  RPreimage :: bytes
  Timeout :: u32
  BtcAmount :: MilliSatoshi
  AssetAmount :: AssetAmount
  AssetID :: u32
  LogIndex :: u64
  HtlcIndex :: u64
  ParentIndex :: u64
  SourceRef :: "AddRef option"
  DestRef :: "SettleFailRef option"
  OpenCircuitKey :: "CircuitKey option"
  ClosedCircuitKey :: "CircuitKey option"
  localOutputIndex :: "32 word"
  remoteOutputIndex :: "32 word"
  pd_sig :: "bytes option"
  addCommitHeightRemote :: u64
  addCommitHeightLocal :: u64
  removeCommitHeightRemote :: u64
  removeCommitHeightLocal :: u64
  OnionBlob :: bytes
  ShaOnionBlob :: bytes
  FailReason :: bytes
  FailCode :: u16
  ourPkScript :: bytes
  ourWitnessScript :: bytes
  theirPkScript :: bytes
  theirWitnessScript :: bytes
  EntryType :: updateType
  isForwarded :: bool

text \<open>The zero value of the struct, from which Go's composite literals start.\<close>

definition zeroPD :: PaymentDescriptor where
  "zeroPD =
     \<lparr>RHash = replicate 32 0, RPreimage = replicate 32 0, Timeout = 0, BtcAmount = 0,
      AssetAmount = 0, AssetID = 0, LogIndex = 0, HtlcIndex = 0, ParentIndex = 0,
      SourceRef = None, DestRef = None, OpenCircuitKey = None, ClosedCircuitKey = None,
      localOutputIndex = 0, remoteOutputIndex = 0, pd_sig = None,
      addCommitHeightRemote = 0, addCommitHeightLocal = 0,
      removeCommitHeightRemote = 0, removeCommitHeightLocal = 0,
      OnionBlob = [], ShaOnionBlob = replicate 32 0, FailReason = [], FailCode = 0,
      ourPkScript = [], ourWitnessScript = [], theirPkScript = [], theirWitnessScript = [],
      EntryType = Add, isForwarded = False\<rparr>"

definition GetMsgAmt :: "PaymentDescriptor \<Rightarrow> UnitPrec11" where
  "GetMsgAmt pd = (if AssetID pd = BtcAssetId then BtcAmount pd else AssetAmount pd)"

definition GetHtlcAmt :: "PaymentDescriptor \<Rightarrow> UnitPrec11" where
  "GetHtlcAmt pd = (if AssetID pd = BtcAssetId then BtcAmount pd else AssetAmount pd)"

subsection \<open>The update log\<close>

text \<open>
  \<open>entries\<close> is the embedded \<open>list.List\<close>, front first; \<open>nextElem\<close> is the identity of the next
  element that \<open>PushBack\<close> allocates.
\<close>

record updateLog =
  logIndex :: u64
  htlcCounter :: u64
  entries :: "(nat \<times> PaymentDescriptor) list"
  nextElem :: nat
  updateIndex :: "u64 \<Rightarrow> nat option"
  htlcIndex :: "u64 \<Rightarrow> nat option"
  modifiedHtlcs :: "u64 set"

definition newUpdateLog :: "u64 \<Rightarrow> u64 \<Rightarrow> updateLog" where
  "newUpdateLog li hc =
     \<lparr>logIndex = li, htlcCounter = hc, entries = [], nextElem = 0,
      updateIndex = Map.empty, htlcIndex = Map.empty, modifiedHtlcs = {}\<rparr>"

definition PushBack :: "updateLog \<Rightarrow> PaymentDescriptor \<Rightarrow> updateLog" where
  "PushBack u pd = u\<lparr>entries := entries u @ [(nextElem u, pd)], nextElem := Suc (nextElem u)\<rparr>"

definition restoreHtlc :: "updateLog \<Rightarrow> PaymentDescriptor \<Rightarrow> updateLog" where
  "restoreHtlc u pd =
     (if htlcIndex u (HtlcIndex pd) \<noteq> None then u
      else (PushBack u pd)\<lparr>htlcIndex := (htlcIndex u)(HtlcIndex pd \<mapsto> nextElem u)\<rparr>)"

definition appendUpdate :: "updateLog \<Rightarrow> PaymentDescriptor \<Rightarrow> updateLog" where
  "appendUpdate u pd =
     (PushBack u pd)\<lparr>updateIndex := (updateIndex u)(logIndex u \<mapsto> nextElem u),
                      logIndex := logIndex u + 1\<rparr>"

definition restoreUpdate :: "updateLog \<Rightarrow> PaymentDescriptor \<Rightarrow> updateLog" where
  "restoreUpdate u pd =
     (PushBack u pd)\<lparr>updateIndex := (updateIndex u)(LogIndex pd \<mapsto> nextElem u)\<rparr>"

definition appendHtlc :: "updateLog \<Rightarrow> PaymentDescriptor \<Rightarrow> updateLog" where
  "appendHtlc u pd =
     (PushBack u pd)\<lparr>htlcIndex := (htlcIndex u)(htlcCounter u \<mapsto> nextElem u),
                      htlcCounter := htlcCounter u + 1, logIndex := logIndex u + 1\<rparr>"

definition lookupHtlc :: "updateLog \<Rightarrow> u64 \<Rightarrow> PaymentDescriptor option" where
  "lookupHtlc u i = (case htlcIndex u i of None \<Rightarrow> None | Some e \<Rightarrow> map_of (entries u) e)"

definition removeElem :: "nat \<Rightarrow> (nat \<times> PaymentDescriptor) list \<Rightarrow> (nat \<times> PaymentDescriptor) list" where
  "removeElem e xs = filter (\<lambda>x. fst x \<noteq> e) xs"

text \<open>\<open>List.Remove\<close> dereferences its argument: a missing index entry is a panic, the result \<open>None\<close>.\<close>

definition removeUpdate :: "updateLog \<Rightarrow> u64 \<Rightarrow> updateLog option" where
  "removeUpdate u i =
     (case updateIndex u i of
        None \<Rightarrow> None
      | Some e \<Rightarrow> Some (u\<lparr>entries := removeElem e (entries u),
                           updateIndex := (updateIndex u)(i := None)\<rparr>))"

definition removeHtlc :: "updateLog \<Rightarrow> u64 \<Rightarrow> updateLog option" where
  "removeHtlc u i =
     (case htlcIndex u i of
        None \<Rightarrow> None
      | Some e \<Rightarrow> Some (u\<lparr>entries := removeElem e (entries u),
                           htlcIndex := (htlcIndex u)(i := None),
                           modifiedHtlcs := modifiedHtlcs u - {i}\<rparr>))"

definition htlcHasModification :: "updateLog \<Rightarrow> u64 \<Rightarrow> bool" where
  "htlcHasModification u i \<longleftrightarrow> i \<in> modifiedHtlcs u"

definition markHtlcModified :: "updateLog \<Rightarrow> u64 \<Rightarrow> updateLog" where
  "markHtlcModified u i = u\<lparr>modifiedHtlcs := insert i (modifiedHtlcs u)\<rparr>"

subsection \<open>Compaction\<close>

definition lockedIn :: "u64 \<Rightarrow> u64 \<Rightarrow> PaymentDescriptor \<Rightarrow> bool" where
  "lockedIn localChainTail remoteChainTail htlc \<longleftrightarrow>
     EntryType htlc \<noteq> Add
     \<and> \<not> (removeCommitHeightRemote htlc = 0 \<or> removeCommitHeightLocal htlc = 0)
     \<and> remoteChainTail \<ge> removeCommitHeightRemote htlc
     \<and> localChainTail \<ge> removeCommitHeightLocal htlc"

text \<open>
  The loop stands at one element at a time and removes at most the element it stands at from
  \<open>logA\<close>; the elements are those the list had when the loop began.
\<close>

fun compactLog ::
    "u64 \<Rightarrow> u64 \<Rightarrow> (nat \<times> PaymentDescriptor) list \<Rightarrow> updateLog \<Rightarrow> updateLog \<Rightarrow> (updateLog \<times> updateLog) option"
  where
  "compactLog lt rt [] logA logB = Some (logA, logB)"
| "compactLog lt rt ((e, htlc) # es) logA logB =
     (if \<not> lockedIn lt rt htlc then compactLog lt rt es logA logB
      else if EntryType htlc = FeeUpdate then
        (case removeUpdate logA (LogIndex htlc) of
           None \<Rightarrow> None
         | Some logA' \<Rightarrow> compactLog lt rt es logA' logB)
      else
        (case removeUpdate logA (LogIndex htlc) of
           None \<Rightarrow> None
         | Some logA' \<Rightarrow>
             (case removeHtlc logB (ParentIndex htlc) of
                None \<Rightarrow> None
              | Some logB' \<Rightarrow> compactLog lt rt es logA' logB')))"

definition compactLogs ::
    "updateLog \<Rightarrow> updateLog \<Rightarrow> u64 \<Rightarrow> u64 \<Rightarrow> (updateLog \<times> updateLog) option" where
  "compactLogs ourLog theirLog localChainTail remoteChainTail =
     (case compactLog localChainTail remoteChainTail (entries ourLog) ourLog theirLog of
        None \<Rightarrow> None
      | Some (ourLog', theirLog') \<Rightarrow>
          (case compactLog localChainTail remoteChainTail (entries theirLog') theirLog' ourLog' of
             None \<Rightarrow> None
           | Some (theirLog'', ourLog'') \<Rightarrow> Some (ourLog'', theirLog'')))"

section \<open>The invariant of one log\<close>

definition log_inv :: "updateLog \<Rightarrow> bool" where
  "log_inv u \<longleftrightarrow>
     distinct (map fst (entries u))
     \<and> sorted_wrt (\<lambda>x y. LogIndex x < LogIndex y) (map snd (entries u))
     \<and> (\<forall>(e, pd) \<in> set (entries u). e < nextElem u \<and> LogIndex pd < logIndex u
          \<and> (if EntryType pd = Add then htlcIndex u (HtlcIndex pd) = Some e \<and> HtlcIndex pd < htlcCounter u
             else updateIndex u (LogIndex pd) = Some e))
     \<and> (\<forall>k e. htlcIndex u k = Some e
          \<longrightarrow> (\<exists>pd. (e, pd) \<in> set (entries u) \<and> EntryType pd = Add \<and> HtlcIndex pd = k))
     \<and> (\<forall>k e. updateIndex u k = Some e
          \<longrightarrow> (\<exists>pd. (e, pd) \<in> set (entries u) \<and> EntryType pd \<noteq> Add \<and> LogIndex pd = k))
     \<and> modifiedHtlcs u \<subseteq> dom (htlcIndex u)"

lemma log_invD:
  assumes "log_inv u"
  shows "distinct (map fst (entries u))"
    and "sorted_wrt (\<lambda>x y. LogIndex x < LogIndex y) (map snd (entries u))"
    and "(e, pd) \<in> set (entries u) \<Longrightarrow> e < nextElem u"
    and "(e, pd) \<in> set (entries u) \<Longrightarrow> LogIndex pd < logIndex u"
    and "(e, pd) \<in> set (entries u) \<Longrightarrow> EntryType pd = Add \<Longrightarrow> htlcIndex u (HtlcIndex pd) = Some e"
    and "(e, pd) \<in> set (entries u) \<Longrightarrow> EntryType pd = Add \<Longrightarrow> HtlcIndex pd < htlcCounter u"
    and "(e, pd) \<in> set (entries u) \<Longrightarrow> EntryType pd \<noteq> Add \<Longrightarrow> updateIndex u (LogIndex pd) = Some e"
    and "htlcIndex u k = Some e
           \<Longrightarrow> \<exists>pd. (e, pd) \<in> set (entries u) \<and> EntryType pd = Add \<and> HtlcIndex pd = k"
    and "updateIndex u k = Some e
           \<Longrightarrow> \<exists>pd. (e, pd) \<in> set (entries u) \<and> EntryType pd \<noteq> Add \<and> LogIndex pd = k"
    and "modifiedHtlcs u \<subseteq> dom (htlcIndex u)"
  using assms unfolding log_inv_def by (auto split: if_splits)

lemma log_invI:
  assumes "distinct (map fst (entries u))"
    and "sorted_wrt (\<lambda>x y. LogIndex x < LogIndex y) (map snd (entries u))"
    and "\<And>e pd. (e, pd) \<in> set (entries u) \<Longrightarrow> e < nextElem u \<and> LogIndex pd < logIndex u"
    and "\<And>e pd. (e, pd) \<in> set (entries u) \<Longrightarrow> EntryType pd = Add
           \<Longrightarrow> htlcIndex u (HtlcIndex pd) = Some e \<and> HtlcIndex pd < htlcCounter u"
    and "\<And>e pd. (e, pd) \<in> set (entries u) \<Longrightarrow> EntryType pd \<noteq> Add
           \<Longrightarrow> updateIndex u (LogIndex pd) = Some e"
    and "\<And>k e. htlcIndex u k = Some e
           \<Longrightarrow> \<exists>pd. (e, pd) \<in> set (entries u) \<and> EntryType pd = Add \<and> HtlcIndex pd = k"
    and "\<And>k e. updateIndex u k = Some e
           \<Longrightarrow> \<exists>pd. (e, pd) \<in> set (entries u) \<and> EntryType pd \<noteq> Add \<and> LogIndex pd = k"
    and "modifiedHtlcs u \<subseteq> dom (htlcIndex u)"
  shows "log_inv u"
  using assms unfolding log_inv_def by auto

lemma log_inv_new: "log_inv (newUpdateLog li hc)"
  by (simp add: log_inv_def newUpdateLog_def)

lemma log_inv_mark:
  "log_inv u \<Longrightarrow> htlcIndex u i \<noteq> None \<Longrightarrow> log_inv (markHtlcModified u i)"
  by (auto simp: log_inv_def markHtlcModified_def)

lemma log_inv_map_of: "log_inv u \<Longrightarrow> map_of (entries u) e = Some pd \<longleftrightarrow> (e, pd) \<in> set (entries u)"
  using log_invD(1) map_of_eq_Some_iff by metis

text \<open>The index finds exactly the Add entries of the list.\<close>

lemma lookupHtlc_iff:
  assumes "log_inv u"
  shows "lookupHtlc u k = Some pd \<longleftrightarrow> pd \<in> snd ` set (entries u) \<and> EntryType pd = Add \<and> HtlcIndex pd = k"
proof
  assume "lookupHtlc u k = Some pd"
  then obtain e where e: "htlcIndex u k = Some e" "map_of (entries u) e = Some pd"
    by (auto simp: lookupHtlc_def split: option.splits)
  then have mem: "(e, pd) \<in> set (entries u)" using log_inv_map_of [OF assms] by simp
  obtain pd' where "(e, pd') \<in> set (entries u)" "EntryType pd' = Add" "HtlcIndex pd' = k"
    using log_invD(8) [OF assms e(1)] by auto
  then have "EntryType pd = Add \<and> HtlcIndex pd = k"
    using log_inv_map_of [OF assms] e(2) by (metis option.inject)
  with mem show "pd \<in> snd ` set (entries u) \<and> EntryType pd = Add \<and> HtlcIndex pd = k" by force
next
  assume "pd \<in> snd ` set (entries u) \<and> EntryType pd = Add \<and> HtlcIndex pd = k"
  then obtain e where "(e, pd) \<in> set (entries u)" "EntryType pd = Add" "HtlcIndex pd = k" by auto
  then show "lookupHtlc u k = Some pd"
    using log_invD(5) [OF assms] log_inv_map_of [OF assms] by (fastforce simp: lookupHtlc_def)
qed

lemma lookupHtlc_None: "log_inv u \<Longrightarrow> lookupHtlc u k = None \<longleftrightarrow> htlcIndex u k = None"
proof (cases "htlcIndex u k")
  case (Some e)
  assume inv: "log_inv u"
  then obtain q where "(e, q) \<in> set (entries u)" using log_invD(8) Some by blast
  then have "map_of (entries u) e = Some q" using log_inv_map_of [OF inv] by simp
  then show ?thesis using Some by (simp add: lookupHtlc_def)
qed (simp add: lookupHtlc_def)

lemma log_inv_lookup_dom: "log_inv u \<Longrightarrow> lookupHtlc u k = Some pd \<Longrightarrow> htlcIndex u k \<noteq> None"
  using lookupHtlc_None by (metis option.distinct(1))

section \<open>Operations keep the invariant\<close>

text \<open>A word counter that does not wrap grows.\<close>

lemma word_less_succ: "(x :: u64) + 1 \<noteq> 0 \<Longrightarrow> y < x + 1 \<longleftrightarrow> y \<le> x"
  using unatSuc [of x] by (simp add: word_less_nat_alt word_le_nat_alt add.commute less_Suc_eq_le)

lemma append_simps [log_simps]:
  "entries (appendHtlc u pd) = entries u @ [(nextElem u, pd)]"
  "nextElem (appendHtlc u pd) = Suc (nextElem u)"
  "logIndex (appendHtlc u pd) = logIndex u + 1"
  "htlcCounter (appendHtlc u pd) = htlcCounter u + 1"
  "htlcIndex (appendHtlc u pd) = (htlcIndex u)(htlcCounter u \<mapsto> nextElem u)"
  "updateIndex (appendHtlc u pd) = updateIndex u"
  "modifiedHtlcs (appendHtlc u pd) = modifiedHtlcs u"
  "entries (appendUpdate u pd) = entries u @ [(nextElem u, pd)]"
  "nextElem (appendUpdate u pd) = Suc (nextElem u)"
  "logIndex (appendUpdate u pd) = logIndex u + 1"
  "htlcCounter (appendUpdate u pd) = htlcCounter u"
  "htlcIndex (appendUpdate u pd) = htlcIndex u"
  "updateIndex (appendUpdate u pd) = (updateIndex u)(logIndex u \<mapsto> nextElem u)"
  "modifiedHtlcs (appendUpdate u pd) = modifiedHtlcs u"
  by (simp_all add: appendHtlc_def appendUpdate_def PushBack_def)

lemma mark_simps [log_simps]:
  "entries (markHtlcModified u i) = entries u"
  "logIndex (markHtlcModified u i) = logIndex u"
  "htlcCounter (markHtlcModified u i) = htlcCounter u"
  "htlcIndex (markHtlcModified u i) = htlcIndex u"
  "updateIndex (markHtlcModified u i) = updateIndex u"
  "modifiedHtlcs (markHtlcModified u i) = insert i (modifiedHtlcs u)"
  by (simp_all add: markHtlcModified_def)

lemma append_sorted:
  assumes "log_inv u" and "LogIndex pd = logIndex u"
  shows "sorted_wrt (\<lambda>x y. LogIndex x < LogIndex y) (map snd (entries u @ [(nextElem u, pd)]))"
    and "distinct (map fst (entries u @ [(nextElem u, pd)]))"
  using log_invD(1,2) [OF assms(1)] assms(2)
  by (auto simp: sorted_wrt_append dest: log_invD(3,4) [OF assms(1)])

lemma append_old_bounds:
  assumes inv: "log_inv u" and wrap: "logIndex u + 1 \<noteq> 0" and pd: "LogIndex pd = logIndex u"
    and mem: "(e, q) \<in> set (entries u @ [(nextElem u, pd)])"
  shows "e < Suc (nextElem u) \<and> LogIndex q < logIndex u + 1"
  using log_invD(3,4) [OF inv] mem pd wrap by (fastforce simp: word_less_succ)

lemma log_inv_appendHtlc:
  assumes inv: "log_inv u" and pd: "EntryType pd = Add" "LogIndex pd = logIndex u" "HtlcIndex pd = htlcCounter u"
    and wrap: "logIndex u + 1 \<noteq> 0" "htlcCounter u + 1 \<noteq> 0"
  shows "log_inv (appendHtlc u pd)"
proof (rule log_invI, unfold append_simps)
  note D = log_invD [OF inv]
  have fresh: "HtlcIndex q \<noteq> htlcCounter u \<and> HtlcIndex q < htlcCounter u + 1"
    if "(e, q) \<in> set (entries u)" "EntryType q = Add" for e q
    using D(6) [OF that] wrap by (auto simp: word_less_succ)
  show "((htlcIndex u)(htlcCounter u \<mapsto> nextElem u)) (HtlcIndex q) = Some e \<and> HtlcIndex q < htlcCounter u + 1"
    if "(e, q) \<in> set (entries u @ [(nextElem u, pd)])" "EntryType q = Add" for e q
    using that fresh D(5) pd wrap by (auto simp: word_less_succ)
  show "\<exists>q. (e, q) \<in> set (entries u @ [(nextElem u, pd)]) \<and> EntryType q = Add \<and> HtlcIndex q = k"
    if "((htlcIndex u)(htlcCounter u \<mapsto> nextElem u)) k = Some e" for k e
    using that D(8) [of k e] pd by (auto split: if_splits)
  show "\<exists>q. (e, q) \<in> set (entries u @ [(nextElem u, pd)]) \<and> EntryType q \<noteq> Add \<and> LogIndex q = k"
    if "updateIndex u k = Some e" for k e
    using D(9) [OF that] by auto
  show "updateIndex u (LogIndex q) = Some e"
    if "(e, q) \<in> set (entries u @ [(nextElem u, pd)])" "EntryType q \<noteq> Add" for e q
    using that D(7) pd by auto
  show "modifiedHtlcs u \<subseteq> dom ((htlcIndex u)(htlcCounter u \<mapsto> nextElem u))"
    using D(10) by auto
qed (use append_sorted [OF inv pd(2)] append_old_bounds [OF inv wrap(1) pd(2)] in auto)

lemma log_inv_appendUpdate:
  assumes inv: "log_inv u" and pd: "EntryType pd \<noteq> Add" "LogIndex pd = logIndex u"
    and wrap: "logIndex u + 1 \<noteq> 0"
  shows "log_inv (appendUpdate u pd)"
proof (rule log_invI, unfold append_simps)
  note D = log_invD [OF inv]
  show "((updateIndex u)(logIndex u \<mapsto> nextElem u)) (LogIndex q) = Some e"
    if "(e, q) \<in> set (entries u @ [(nextElem u, pd)])" "EntryType q \<noteq> Add" for e q
    using that D(4,7) pd by fastforce
  show "\<exists>q. (e, q) \<in> set (entries u @ [(nextElem u, pd)]) \<and> EntryType q \<noteq> Add \<and> LogIndex q = k"
    if "((updateIndex u)(logIndex u \<mapsto> nextElem u)) k = Some e" for k e
    using that D(9) [of k e] pd by (auto split: if_splits)
  show "\<exists>q. (e, q) \<in> set (entries u @ [(nextElem u, pd)]) \<and> EntryType q = Add \<and> HtlcIndex q = k"
    if "htlcIndex u k = Some e" for k e
    using D(8) [OF that] by auto
  show "htlcIndex u (HtlcIndex q) = Some e \<and> HtlcIndex q < htlcCounter u"
    if "(e, q) \<in> set (entries u @ [(nextElem u, pd)])" "EntryType q = Add" for e q
    using that D(5,6) pd by auto
  show "modifiedHtlcs u \<subseteq> dom (htlcIndex u)" by (rule D(10))
qed (use append_sorted [OF inv pd(2)] append_old_bounds [OF inv wrap pd(2)] in auto)

lemma lookupHtlc_mark [log_simps]: "lookupHtlc (markHtlcModified u i) k = lookupHtlc u k"
  unfolding lookupHtlc_def mark_simps ..

lemma lookupHtlc_appendUpdate [log_simps]:
  assumes "log_inv u"
  shows "lookupHtlc (appendUpdate u pd) k = lookupHtlc u k"
proof (cases "htlcIndex u k")
  case (Some e)
  then obtain q where "(e, q) \<in> set (entries u)" using log_invD(8) [OF assms] by blast
  then have "map_of (entries u) e = Some q" using log_inv_map_of [OF assms] by simp
  then show ?thesis using Some by (simp add: lookupHtlc_def append_simps map_add_Some_iff)
qed (simp add: lookupHtlc_def append_simps)

lemma lookupHtlc_appendHtlc [log_simps]:
  assumes "log_inv u"
  shows "lookupHtlc (appendHtlc u pd) k = (if k = htlcCounter u then Some pd else lookupHtlc u k)"
proof (cases "htlcIndex u k")
  case None
  have "map_of (entries u @ [(nextElem u, pd)]) (nextElem u) = Some pd"
    using log_invD(3) [OF assms] by (fastforce simp: map_add_Some_iff map_of_eq_None_iff)
  with None show ?thesis by (simp add: lookupHtlc_def append_simps)
next
  case (Some e)
  then obtain q where q: "(e, q) \<in> set (entries u)" "EntryType q = Add" "HtlcIndex q = k"
    using log_invD(8) [OF assms] by blast
  then have "map_of (entries u) e = Some q" using log_inv_map_of [OF assms] by simp
  moreover have "k \<noteq> htlcCounter u" using log_invD(6) [OF assms q(1,2)] q(3) by simp
  ultimately show ?thesis using Some by (simp add: lookupHtlc_def append_simps map_add_Some_iff)
qed

section \<open>The two logs of a channel\<close>

definition isRemoval :: "PaymentDescriptor \<Rightarrow> bool" where
  "isRemoval pd \<longleftrightarrow> EntryType pd = Fail \<or> EntryType pd = MalformedFail \<or> EntryType pd = Settle"

definition removals :: "updateLog \<Rightarrow> PaymentDescriptor list" where
  "removals u = filter isRemoval (map snd (entries u))"

text \<open>\<open>pair_inv A B\<close>: the settle and fail entries of \<open>A\<close> each refer to one HTLC of \<open>B\<close>.\<close>

definition sameAmount :: "PaymentDescriptor \<Rightarrow> PaymentDescriptor \<Rightarrow> bool" where
  "sameAmount a b \<longleftrightarrow> BtcAmount a = BtcAmount b \<and> AssetAmount a = AssetAmount b \<and> AssetID a = AssetID b"

definition pair_inv :: "updateLog \<Rightarrow> updateLog \<Rightarrow> bool" where
  "pair_inv A B \<longleftrightarrow>
     distinct (map ParentIndex (removals A))
     \<and> ParentIndex ` set (removals A) = modifiedHtlcs B
     \<and> (\<forall>r \<in> set (removals A). \<exists>h. lookupHtlc B (ParentIndex r) = Some h \<and> sameAmount r h)"

definition logs_inv :: "updateLog \<Rightarrow> updateLog \<Rightarrow> bool" where
  "logs_inv A B \<longleftrightarrow> log_inv A \<and> log_inv B \<and> pair_inv A B \<and> pair_inv B A"

lemma logs_inv_sym: "logs_inv A B \<longleftrightarrow> logs_inv B A"
  by (auto simp: logs_inv_def)

lemma logs_inv_new: "logs_inv (newUpdateLog a b) (newUpdateLog c d)"
  using log_inv_new by (simp add: logs_inv_def pair_inv_def removals_def newUpdateLog_def)

lemma removals_append [log_simps]:
  "removals (appendHtlc u pd) = removals u @ (if isRemoval pd then [pd] else [])"
  "removals (appendUpdate u pd) = removals u @ (if isRemoval pd then [pd] else [])"
  "removals (markHtlcModified u i) = removals u"
  by (simp_all add: removals_def append_simps mark_simps)

lemma isRemoval_not_Add: "isRemoval pd \<Longrightarrow> EntryType pd \<noteq> Add \<and> EntryType pd \<noteq> FeeUpdate"
  by (auto simp: isRemoval_def)

lemma notRemoval_iff: "\<not> isRemoval pd \<longleftrightarrow> EntryType pd = Add \<or> EntryType pd = FeeUpdate"
  by (cases "EntryType pd") (auto simp: isRemoval_def)

lemma logs_inv_add:
  assumes "logs_inv A B" and "EntryType pd = Add" "LogIndex pd = logIndex A" "HtlcIndex pd = htlcCounter A"
    and "logIndex A + 1 \<noteq> 0" "htlcCounter A + 1 \<noteq> 0"
  shows "logs_inv (appendHtlc A pd) B"
proof -
  have inv: "log_inv A" "log_inv B" "pair_inv A B" "pair_inv B A"
    using assms(1) by (auto simp: logs_inv_def)
  have "lookupHtlc A (htlcCounter A) = None"
    by (cases "lookupHtlc A (htlcCounter A)")
      (auto simp: lookupHtlc_iff [OF inv(1)] dest: log_invD(6) [OF inv(1)])
  with inv(4) have "pair_inv B (appendHtlc A pd)"
    by (auto simp: pair_inv_def lookupHtlc_appendHtlc [OF inv(1)] append_simps)
  moreover have "pair_inv (appendHtlc A pd) B"
    using inv(3) assms(2) by (simp add: pair_inv_def removals_append isRemoval_def)
  ultimately show ?thesis
    using inv log_inv_appendHtlc [OF inv(1) assms(2-6)] by (simp add: logs_inv_def)
qed

lemma logs_inv_fee:
  assumes "logs_inv A B" and "EntryType pd = FeeUpdate" "LogIndex pd = logIndex A" "logIndex A + 1 \<noteq> 0"
  shows "logs_inv (appendUpdate A pd) B"
  using assms log_inv_appendUpdate [of A pd]
  by (auto simp: logs_inv_def pair_inv_def removals_append isRemoval_def append_simps lookupHtlc_appendUpdate)

lemma logs_inv_removal:
  assumes "logs_inv A B" and pd: "isRemoval pd" "LogIndex pd = logIndex A" "ParentIndex pd = i"
    and h: "lookupHtlc B i = Some h" "sameAmount pd h" and nm: "i \<notin> modifiedHtlcs B"
    and wrap: "logIndex A + 1 \<noteq> 0"
  shows "logs_inv (appendUpdate A pd) (markHtlcModified B i)"
proof -
  have inv: "log_inv A" "log_inv B" "pair_inv A B" "pair_inv B A"
    using assms(1) by (auto simp: logs_inv_def)
  have "log_inv (markHtlcModified B i)"
    using log_inv_mark [OF inv(2)] log_inv_lookup_dom [OF inv(2) h(1)] by simp
  moreover have "log_inv (appendUpdate A pd)"
    using log_inv_appendUpdate [OF inv(1) _ pd(2) wrap] isRemoval_not_Add [OF pd(1)] by simp
  moreover have "pair_inv (appendUpdate A pd) (markHtlcModified B i)"
    using inv(3) pd h nm by (auto simp: pair_inv_def removals_append lookupHtlc_mark mark_simps)
  moreover have "pair_inv (markHtlcModified B i) (appendUpdate A pd)"
    using inv(1,4) by (simp add: pair_inv_def removals_append lookupHtlc_appendUpdate append_simps)
  ultimately show ?thesis by (simp add: logs_inv_def)
qed

section \<open>Compaction removes exactly the settled pairs\<close>

definition keepHtlcs :: "u64 set \<Rightarrow> (nat \<times> PaymentDescriptor) list \<Rightarrow> (nat \<times> PaymentDescriptor) list" where
  "keepHtlcs K xs = filter (\<lambda>(f, q). \<not> (EntryType q = Add \<and> HtlcIndex q \<in> K)) xs"

lemma in_removeElem: "x \<in> set (removeElem e xs) \<longleftrightarrow> x \<in> set xs \<and> fst x \<noteq> e"
  by (auto simp: removeElem_def)

lemma removeElem_sorted:
  assumes "log_inv u"
  shows "distinct (map fst (removeElem e (entries u)))"
    and "sorted_wrt (\<lambda>x y. LogIndex x < LogIndex y) (map snd (removeElem e (entries u)))"
  using log_invD(1,2) [OF assms]
  by (auto simp: removeElem_def distinct_map_filter sorted_wrt_map intro: sorted_wrt_filter)

lemma entry_unique:
  "log_inv u \<Longrightarrow> (e, a) \<in> set (entries u) \<Longrightarrow> (e, b) \<in> set (entries u) \<Longrightarrow> a = b"
  using log_inv_map_of by (metis option.inject)

lemma removeUpdate_ok:
  assumes inv: "log_inv u" and mem: "(e, pd) \<in> set (entries u)" "EntryType pd \<noteq> Add"
  obtains u' where "removeUpdate u (LogIndex pd) = Some u'" and "log_inv u'"
    and "entries u' = removeElem e (entries u)" and "modifiedHtlcs u' = modifiedHtlcs u"
    and "lookupHtlc u' = lookupHtlc u" and "logIndex u' = logIndex u" and "htlcCounter u' = htlcCounter u"
proof -
  note D = log_invD [OF inv]
  let ?u = "u\<lparr>entries := removeElem e (entries u), updateIndex := (updateIndex u)(LogIndex pd := None)\<rparr>"
  have e: "updateIndex u (LogIndex pd) = Some e" by (rule D(7) [OF mem])
  have other: "updateIndex u (LogIndex q) \<noteq> Some e" if "(f, q) \<in> set (entries u)" "EntryType q \<noteq> Add" "f \<noteq> e" for f q
    using D(7) [OF that(1,2)] that(3) by simp
  have "log_inv ?u"
  proof (rule log_invI)
    show "updateIndex ?u (LogIndex q) = Some f" if "(f, q) \<in> set (entries ?u)" "EntryType q \<noteq> Add" for f q
      using that D(7) [of f q] other [of f q] e by (auto simp: in_removeElem)
    show "\<exists>q. (f, q) \<in> set (entries ?u) \<and> EntryType q = Add \<and> HtlcIndex q = k" if "htlcIndex ?u k = Some f" for k f
      using that D(8) [of k f] entry_unique [OF inv mem(1)] mem(2) by (fastforce simp: in_removeElem)
    show "\<exists>q. (f, q) \<in> set (entries ?u) \<and> EntryType q \<noteq> Add \<and> LogIndex q = k" if "updateIndex ?u k = Some f" for k f
      using that D(9) [of k f] entry_unique [OF inv mem(1)] by (fastforce simp: in_removeElem split: if_splits)
  qed (use removeElem_sorted [OF inv] D(3-6,10) in \<open>auto simp: in_removeElem\<close>)
  moreover have "lookupHtlc ?u k = lookupHtlc u k" for k
  proof (cases "htlcIndex u k")
    case (Some f)
    then have "f \<noteq> e" using D(8) entry_unique [OF inv mem(1)] mem(2) by blast
    with Some show ?thesis by (simp add: lookupHtlc_def removeElem_def map_of_filter_neq)
  qed (simp add: lookupHtlc_def)
  ultimately show thesis using e by (intro that [of ?u]) (auto simp: removeUpdate_def)
qed

lemma removeHtlc_ok:
  assumes inv: "log_inv u" and k: "lookupHtlc u k \<noteq> None"
  obtains u' where "removeHtlc u k = Some u'" and "log_inv u'"
    and "entries u' = keepHtlcs {k} (entries u)"
    and "modifiedHtlcs u' = modifiedHtlcs u - {k}" and "\<And>j. j \<noteq> k \<Longrightarrow> lookupHtlc u' j = lookupHtlc u j"
    and "logIndex u' = logIndex u" and "htlcCounter u' = htlcCounter u"
proof -
  note D = log_invD [OF inv]
  from k obtain e where e: "htlcIndex u k = Some e" using lookupHtlc_None [OF inv, of k] by auto
  obtain pd where pd: "(e, pd) \<in> set (entries u)" "EntryType pd = Add" "HtlcIndex pd = k"
    using D(8) [OF e] by blast
  let ?u = "u\<lparr>entries := removeElem e (entries u), htlcIndex := (htlcIndex u)(k := None),
      modifiedHtlcs := modifiedHtlcs u - {k}\<rparr>"
  have elem: "f = e \<longleftrightarrow> EntryType q = Add \<and> HtlcIndex q = k" if "(f, q) \<in> set (entries u)" for f q
  proof
    assume "f = e"
    with that have "q = pd" using entry_unique [OF inv _ pd(1)] by blast
    with pd show "EntryType q = Add \<and> HtlcIndex q = k" by simp
  next
    assume "EntryType q = Add \<and> HtlcIndex q = k"
    with D(5) [OF that] e show "f = e" by simp
  qed
  then have ent: "removeElem e (entries u) = keepHtlcs {k} (entries u)"
    unfolding removeElem_def keepHtlcs_def by (intro filter_cong) (auto split: prod.splits)
  have "log_inv ?u"
  proof (rule log_invI)
    show "htlcIndex ?u (HtlcIndex q) = Some f \<and> HtlcIndex q < htlcCounter ?u"
      if "(f, q) \<in> set (entries ?u)" "EntryType q = Add" for f q
      using that D(5,6) [of f q] elem [of f q] by (auto simp: in_removeElem)
    show "\<exists>q. (f, q) \<in> set (entries ?u) \<and> EntryType q = Add \<and> HtlcIndex q = j" if "htlcIndex ?u j = Some f" for j f
      using that D(8) [of j f] elem by (fastforce simp: in_removeElem split: if_splits)
    show "\<exists>q. (f, q) \<in> set (entries ?u) \<and> EntryType q \<noteq> Add \<and> LogIndex q = j" if "updateIndex ?u j = Some f" for j f
      using that D(9) [of j f] elem by (fastforce simp: in_removeElem)
  qed (use removeElem_sorted [OF inv] D(3,4,7,10) in \<open>auto simp: in_removeElem\<close>)
  moreover have "lookupHtlc ?u j = lookupHtlc u j" if "j \<noteq> k" for j
  proof (cases "htlcIndex u j")
    case (Some f)
    then have "f \<noteq> e" using D(8) [OF Some] elem that by blast
    with Some that show ?thesis by (simp add: lookupHtlc_def removeElem_def map_of_filter_neq)
  qed (use that in \<open>simp add: lookupHtlc_def\<close>)
  ultimately show thesis using e ent by (intro that [of ?u]) (auto simp: removeHtlc_def)
qed

text \<open>Evicting one settle or fail entry together with its HTLC.\<close>

lemma removals_removeElem:
  assumes "log_inv u" "(e, pd) \<in> set (entries u)"
  shows "set (filter isRemoval (map snd (removeElem e (entries u)))) = {r \<in> set (removals u). r \<noteq> pd}"
proof -
  have "q \<noteq> pd" if "(f, q) \<in> set (entries u)" "f \<noteq> e" for f q
  proof
    assume "q = pd"
    with that assms log_invD(5,7) [OF assms(1)] show False
      by (cases "EntryType pd = Add") (metis option.inject)+
  qed
  moreover have "f \<noteq> e" if "(f, q) \<in> set (entries u)" "q \<noteq> pd" for f q
    using that assms entry_unique by blast
  ultimately show ?thesis by (force simp: removals_def removeElem_def)
qed

lemma evict_pair:
  assumes inv: "logs_inv A B" and mem: "(e, pd) \<in> set (entries A)" "isRemoval pd"
  obtains A' B' where "removeUpdate A (LogIndex pd) = Some A'" "removeHtlc B (ParentIndex pd) = Some B'"
    and "logs_inv A' B'" and "entries A' = removeElem e (entries A)"
    and "entries B' = keepHtlcs {ParentIndex pd} (entries B)"
    and "logIndex A' = logIndex A" "htlcCounter A' = htlcCounter A"
    and "logIndex B' = logIndex B" "htlcCounter B' = htlcCounter B"
proof -
  have invs: "log_inv A" "log_inv B" "pair_inv A B" "pair_inv B A" using inv by (auto simp: logs_inv_def)
  have pd: "pd \<in> set (removals A)" using mem by (force simp: removals_def)
  obtain A' where A': "removeUpdate A (LogIndex pd) = Some A'" "log_inv A'"
      "entries A' = removeElem e (entries A)" "modifiedHtlcs A' = modifiedHtlcs A"
      "lookupHtlc A' = lookupHtlc A" "logIndex A' = logIndex A" "htlcCounter A' = htlcCounter A"
    using removeUpdate_ok [OF invs(1) mem(1)] isRemoval_not_Add [OF mem(2)] by blast
  have "lookupHtlc B (ParentIndex pd) \<noteq> None" using invs(3) pd by (auto simp: pair_inv_def)
  from removeHtlc_ok [OF invs(2) this] obtain B' where B': "removeHtlc B (ParentIndex pd) = Some B'" "log_inv B'"
      "entries B' = keepHtlcs {ParentIndex pd} (entries B)"
      "modifiedHtlcs B' = modifiedHtlcs B - {ParentIndex pd}"
      "\<And>j. j \<noteq> ParentIndex pd \<Longrightarrow> lookupHtlc B' j = lookupHtlc B j"
      "logIndex B' = logIndex B" "htlcCounter B' = htlcCounter B" by blast
  have remA: "set (removals A') = {r \<in> set (removals A). r \<noteq> pd}"
    unfolding removals_def [of A'] A'(3) by (rule removals_removeElem [OF invs(1) mem(1)])
  have dist: "distinct (map ParentIndex (removals A'))"
    using invs(3) unfolding pair_inv_def removals_def A'(3) removeElem_def
    by (simp add: filter_map comp_def distinct_map_filter_conj)
  have par: "ParentIndex r \<noteq> ParentIndex pd" if "r \<in> set (removals A)" "r \<noteq> pd" for r
    using invs(3) that pd by (auto simp: pair_inv_def distinct_map inj_on_def)
  have "removals B' = removals B"
    unfolding removals_def B'(3) keepHtlcs_def filter_map by (auto simp: isRemoval_def comp_def intro!: arg_cong [of _ _ "map snd"] filter_cong)
  then have "pair_inv B' A'" using invs(4) A'(4,5) by (simp add: pair_inv_def)
  moreover have "pair_inv A' B'"
    using invs(3) pd par dist by (auto simp: pair_inv_def remA B'(4,5) image_iff)
  ultimately show thesis using A' B' by (intro that [of A' B']) (auto simp: logs_inv_def)
qed

text \<open>Evicting a fee update.\<close>

lemma evict_fee:
  assumes inv: "logs_inv A B" and mem: "(e, pd) \<in> set (entries A)" "EntryType pd = FeeUpdate"
  obtains A' where "removeUpdate A (LogIndex pd) = Some A'" and "logs_inv A' B"
    and "entries A' = removeElem e (entries A)"
    and "logIndex A' = logIndex A" "htlcCounter A' = htlcCounter A"
proof -
  have invs: "log_inv A" "log_inv B" "pair_inv A B" "pair_inv B A" using inv by (auto simp: logs_inv_def)
  obtain A' where A': "removeUpdate A (LogIndex pd) = Some A'" "log_inv A'"
      "entries A' = removeElem e (entries A)" "modifiedHtlcs A' = modifiedHtlcs A"
      "lookupHtlc A' = lookupHtlc A" "logIndex A' = logIndex A" "htlcCounter A' = htlcCounter A"
    using removeUpdate_ok [OF invs(1) mem(1)] mem(2) by (metis updateType.distinct(7))
  have "fst x \<noteq> e" if "x \<in> set (entries A)" "isRemoval (snd x)" for x
    using that mem(2) entry_unique [OF invs(1) mem(1), of "snd x"] by (auto simp: isRemoval_def)
  then have "removals A' = removals A"
    unfolding removals_def A'(3) removeElem_def filter_map
    by (auto simp: comp_def intro!: arg_cong [of _ _ "map snd"] filter_cong)
  then have "logs_inv A' B" using invs A' by (simp add: logs_inv_def pair_inv_def)
  with A' show thesis by (intro that [of A']) auto
qed

text \<open>What stays in the two logs after the loop over the entries \<open>es\<close> of the first one.\<close>

text \<open>An update is final when commitments that both parties have locked in contain it.\<close>

definition finalIn :: "u64 \<Rightarrow> u64 \<Rightarrow> PaymentDescriptor \<Rightarrow> bool" where
  "finalIn lt rt pd \<longleftrightarrow> EntryType pd \<noteq> Add \<and> 0 < removeCommitHeightLocal pd \<and> removeCommitHeightLocal pd \<le> lt
     \<and> 0 < removeCommitHeightRemote pd \<and> removeCommitHeightRemote pd \<le> rt"

lemma lockedIn_final: "finalIn lt rt pd = lockedIn lt rt pd"
  by (auto simp: lockedIn_def finalIn_def word_neq_0_conv)

definition keepEntries ::
    "u64 \<Rightarrow> u64 \<Rightarrow> (nat \<times> PaymentDescriptor) list \<Rightarrow> (nat \<times> PaymentDescriptor) list" where
  "keepEntries lt rt es = filter (\<lambda>(e, pd). \<not> finalIn lt rt pd) es"

definition evictedParents :: "u64 \<Rightarrow> u64 \<Rightarrow> (nat \<times> PaymentDescriptor) list \<Rightarrow> u64 set" where
  "evictedParents lt rt es = ParentIndex ` {r \<in> snd ` set es. isRemoval r \<and> finalIn lt rt r}"

lemma keepHtlcs_simps [simp]:
  "keepHtlcs {} xs = xs"
  "keepHtlcs K (keepHtlcs L xs) = keepHtlcs (L \<union> K) xs"
  by (auto simp: keepHtlcs_def intro!: filter_cong)

lemma evictedParents_Cons:
  "evictedParents lt rt ((e, pd) # es) =
     (if isRemoval pd \<and> lockedIn lt rt pd then insert (ParentIndex pd) (evictedParents lt rt es)
      else evictedParents lt rt es)"
  "evictedParents lt rt [] = {}"
  by (auto simp: evictedParents_def lockedIn_final)

lemma removeElem_at: "distinct (map fst (pre @ (e, pd) # es)) \<Longrightarrow> removeElem e (pre @ (e, pd) # es) = pre @ es"
proof -
  assume "distinct (map fst (pre @ (e, pd) # es))"
  then have "filter (\<lambda>x. fst x \<noteq> e) pre = pre" "filter (\<lambda>x. fst x \<noteq> e) es = es"
    by (auto simp: filter_id_conv)
  then show ?thesis by (simp add: removeElem_def)
qed

lemma compactLog_ok:
  assumes "logs_inv A B" and "entries A = pre @ es"
  shows "\<exists>A' B'. compactLog lt rt es A B = Some (A', B') \<and> logs_inv A' B'
     \<and> entries A' = pre @ keepEntries lt rt es \<and> entries B' = keepHtlcs (evictedParents lt rt es) (entries B)
     \<and> logIndex A' = logIndex A \<and> htlcCounter A' = htlcCounter A
     \<and> logIndex B' = logIndex B \<and> htlcCounter B' = htlcCounter B"
  using assms
proof (induction es arbitrary: A B pre)
  case Nil
  then show ?case by (simp add: keepEntries_def lockedIn_final evictedParents_Cons)
next
  case (Cons x es)
  obtain e pd where x: "x = (e, pd)" by fastforce
  have mem: "(e, pd) \<in> set (entries A)" using Cons.prems(2) x by simp
  have dist: "distinct (map fst (pre @ (e, pd) # es))"
    using log_invD(1) [of A] Cons.prems x unfolding logs_inv_def by simp
  consider (keep) "\<not> lockedIn lt rt pd" | (fee) "lockedIn lt rt pd" "EntryType pd = FeeUpdate"
    | (pair) "lockedIn lt rt pd" "isRemoval pd"
    using notRemoval_iff by (auto simp: lockedIn_def)
  then show ?case
  proof cases
    case keep
    with Cons.IH [OF Cons.prems(1), of "pre @ [(e, pd)]"] Cons.prems(2) x show ?thesis
      by (simp add: keepEntries_def lockedIn_final evictedParents_Cons)
  next
    case fee
    obtain A' where A': "removeUpdate A (LogIndex pd) = Some A'" "logs_inv A' B"
        "entries A' = removeElem e (entries A)" "logIndex A' = logIndex A" "htlcCounter A' = htlcCounter A"
      using evict_fee [OF Cons.prems(1) mem fee(2)] by blast
    have "entries A' = pre @ es" using A'(3) Cons.prems(2) x removeElem_at [OF dist] by simp
    from Cons.IH [OF A'(2) this] A' fee x show ?thesis
      by (auto simp: keepEntries_def lockedIn_final evictedParents_Cons isRemoval_def)
  next
    case pair
    obtain A' B' where AB: "removeUpdate A (LogIndex pd) = Some A'" "removeHtlc B (ParentIndex pd) = Some B'"
        "logs_inv A' B'" "entries A' = removeElem e (entries A)"
        "entries B' = keepHtlcs {ParentIndex pd} (entries B)"
        "logIndex A' = logIndex A" "htlcCounter A' = htlcCounter A"
        "logIndex B' = logIndex B" "htlcCounter B' = htlcCounter B"
      using evict_pair [OF Cons.prems(1) mem pair(2)] by blast
    have "entries A' = pre @ es" using AB(4) Cons.prems(2) x removeElem_at [OF dist] by simp
    from Cons.IH [OF AB(3) this] AB pair x isRemoval_not_Add [OF pair(2)] show ?thesis
      by (auto simp: keepEntries_def lockedIn_final evictedParents_Cons)
  qed
qed

text \<open>
  The whole compaction: it never panics, it keeps the invariant, and each log loses exactly its
  locked-in updates and the HTLCs that locked-in settles and fails of the other log refer to.
\<close>

lemma removals_keepHtlcs:
  "{r \<in> snd ` set (keepHtlcs K xs). isRemoval r \<and> P r} = {r \<in> snd ` set xs. isRemoval r \<and> P r}"
  by (force simp: keepHtlcs_def isRemoval_def)

lemma keep_commute: "keepHtlcs K (keepEntries lt rt xs) = keepEntries lt rt (keepHtlcs K xs)"
  by (auto simp: keepHtlcs_def keepEntries_def lockedIn_final intro!: filter_cong)

lemma compactLogs_ok:
  assumes "logs_inv A B"
  shows "\<exists>A' B'. compactLogs A B lt rt = Some (A', B') \<and> logs_inv A' B'
     \<and> entries A' = keepHtlcs (evictedParents lt rt (entries B)) (keepEntries lt rt (entries A))
     \<and> entries B' = keepHtlcs (evictedParents lt rt (entries A)) (keepEntries lt rt (entries B))
     \<and> logIndex A' = logIndex A \<and> htlcCounter A' = htlcCounter A
     \<and> logIndex B' = logIndex B \<and> htlcCounter B' = htlcCounter B"
proof -
  obtain A1 B1 where 1: "compactLog lt rt (entries A) A B = Some (A1, B1)" "logs_inv A1 B1"
      "entries A1 = keepEntries lt rt (entries A)"
      "entries B1 = keepHtlcs (evictedParents lt rt (entries A)) (entries B)"
      "logIndex A1 = logIndex A" "htlcCounter A1 = htlcCounter A"
      "logIndex B1 = logIndex B" "htlcCounter B1 = htlcCounter B"
    using compactLog_ok [OF assms, of "[]" "entries A" lt rt] by auto
  obtain A2 B2 where 2: "compactLog lt rt (entries B1) B1 A1 = Some (B2, A2)" "logs_inv B2 A2"
      "entries B2 = keepEntries lt rt (entries B1)"
      "entries A2 = keepHtlcs (evictedParents lt rt (entries B1)) (entries A1)"
      "logIndex A2 = logIndex A1" "htlcCounter A2 = htlcCounter A1"
      "logIndex B2 = logIndex B1" "htlcCounter B2 = htlcCounter B1"
    using compactLog_ok [of B1 A1 "[]" "entries B1" lt rt] 1(2) logs_inv_sym by auto
  have "evictedParents lt rt (entries B1) = evictedParents lt rt (entries B)"
    unfolding evictedParents_def lockedIn_final 1(4) removals_keepHtlcs ..
  with 1 2 show ?thesis
    by (auto simp: compactLogs_def keep_commute logs_inv_sym)
qed

end
