(* ===== verification/Commit_View.thy ===== *)
theory Commit_View
  imports Update_Log
begin

text \<open>
  The state of a channel and the evaluation of its update logs
  (\<open>src/oblnd/lnwallet/channel.go\<close>: \<open>commitment\<close>, \<open>commitmentChain\<close>, \<open>LightningChannel\<close>,
  \<open>fetchHTLCView\<close>, \<open>evaluateHTLCView\<close>, \<open>computeView\<close> and their helpers). The theorems say that an
  evaluation conserves value: what leaves the balances enters the HTLCs and back.
\<close>

section \<open>The model\<close>

subsection \<open>Commitments and chains\<close>

text \<open>
  The two index maps of a commitment point to elements of its HTLC slices: they map an output
  index to a position in the slice.
\<close>

record TxOut =
  out_Value :: i64
  PkScript :: bytes

record OutPoint =
  op_Hash :: bytes
  op_Index :: u32

record TxIn =
  PreviousOutPoint :: OutPoint
  Sequence :: u32

record MsgTx =
  Version :: "32 word"
  tx_TxIn :: "TxIn list"
  tx_TxOut :: "TxOut list"
  LockTime :: u32

record commitment =
  height :: u64
  isOurs :: bool
  ourMessageIndex :: u64
  theirMessageIndex :: u64
  ourHtlcIndex :: u64
  theirHtlcIndex :: u64
  txn :: "MsgTx option"
  c_sig :: bytes
  ourBtcBalance :: MilliSatoshi
  theirBtcBalance :: MilliSatoshi
  ourAssetBalance :: AssetAmount
  theirAssetBalance :: AssetAmount
  fee :: SatAmount
  feePerKw :: SatPerKWeight
  dustLimit :: SatAmount
  outgoingHTLCs :: "PaymentDescriptor list"
  incomingHTLCs :: "PaymentDescriptor list"
  outgoingHTLCIndex :: "32 word \<Rightarrow> nat option"
  incomingHTLCIndex :: "32 word \<Rightarrow> nat option"

text \<open>
  The commitments of a chain, the tail first. \<open>Front()\<close> and \<open>Back()\<close> of an empty list are nil,
  and reading them panics; the chains of a channel are never empty.
\<close>

type_synonym commitmentChain = "commitment list"

definition newCommitmentChain :: commitmentChain where
  "newCommitmentChain = []"

definition addCommitment :: "commitmentChain \<Rightarrow> commitment \<Rightarrow> commitmentChain" where
  "addCommitment s c = s @ [c]"

definition advanceTail :: "commitmentChain \<Rightarrow> commitmentChain" where
  "advanceTail s = tl s"

definition tip :: "commitmentChain \<Rightarrow> commitment" where
  "tip s = last s"

definition tail :: "commitmentChain \<Rightarrow> commitment" where
  "tail s = hd s"

text \<open>Front and back are different elements exactly when there is more than one element.\<close>

definition hasUnackedCommitment :: "commitmentChain \<Rightarrow> bool" where
  "hasUnackedCommitment s \<longleftrightarrow> 1 < length s"

subsection \<open>The channel\<close>

record HTLC =
  h_Signature :: bytes
  h_RHash :: bytes
  h_AssetId :: u32
  h_BtcAmt :: MilliSatoshi
  h_AssetAmt :: AssetAmount
  h_RefundTimeout :: u32
  h_OutputIndex :: "32 word"
  h_Incoming :: bool
  h_OnionBlob :: bytes
  h_HtlcIndex :: u64
  h_LogIndex :: u64

record ChannelCommitment =
  CommitHeight :: u64
  LocalLogIndex :: u64
  LocalHtlcIndex :: u64
  RemoteLogIndex :: u64
  RemoteHtlcIndex :: u64
  LocalBtcBalance :: MilliSatoshi
  RemoteBtcBalance :: MilliSatoshi
  LocalAssetBalance :: AssetAmount
  RemoteAssetBalance :: AssetAmount
  CommitFee :: SatAmount
  FeePerKw :: SatAmount
  CommitTx :: "MsgTx option"
  CommitSig :: bytes
  Htlcs :: "HTLC list"

text \<open>The fields of \<open>channeldb.OpenChannel\<close> that the state machine reads and writes.\<close>

record OpenChannel =
  ChanType :: ChannelType
  ShortChanID :: ShortChannelID
  IsInitiator :: bool
  cs_BtcCapacity :: SatAmount
  cs_AssetCapacity :: AssetAmount
  cs_AssetID :: u32
  TotalAssetSent :: AssetAmount
  TotalAssetReceived :: AssetAmount
  TotalMSatSent :: MilliSatoshi
  TotalMSatReceived :: MilliSatoshi
  LocalChanCfg :: ChannelConstraints
  RemoteChanCfg :: ChannelConstraints
  LocalCommitment :: ChannelCommitment
  RemoteCommitment :: ChannelCommitment
  LocalShutdownScript :: bytes
  RemoteShutdownScript :: bytes
  ThawHeight :: u32

record LightningChannel =
  BtcCapacity :: SatAmount
  AssetCapacity :: AssetAmount
  currentHeight :: u64
  remoteCommitChain :: commitmentChain
  localCommitChain :: commitmentChain
  channelState :: OpenChannel
  localUpdateLog :: updateLog
  remoteUpdateLog :: updateLog

datatype channel_error =
    ErrUnknownHtlcIndex ShortChannelID u64
  | ErrHtlcIndexAlreadySettled u64
  | ErrHtlcIndexAlreadyFailed u64
  | ErrInvalidSettlePreimage bytes bytes
  | ErrBelowChanReserve
  | ErrInvalidHTLCAmt
  | ErrBelowMinHTLC
  | ErrMaxPendingAmount
  | ErrMaxHTLCNumber
  | ParentNotFound u64
  | ParentZeroRemoteHeight u64 u64
  | ParentZeroLocalHeight u64 u64
  | MissingAssetID
  | FeeBelowFloor SatPerKWeight
  | HtlcIdMismatch u64 u64
  | FeeUpdateAsNonInitiator
  | FeeUpdateAsInitiator
  | FeeAboveBalance SatPerKWeight MilliSatoshi MilliSatoshi

definition ActiveHtlcs :: "(bytes \<Rightarrow> bytes) \<Rightarrow> OpenChannel \<Rightarrow> HTLC list" where
  "ActiveHtlcs sha c =
     (let remoteHtlcs = (\<lambda>h. sha (h_OnionBlob h)) ` set (Htlcs (RemoteCommitment c))
      in filter (\<lambda>h. sha (h_OnionBlob h) \<in> remoteHtlcs) (Htlcs (LocalCommitment c)))"

definition HTLC_GetAmt :: "HTLC \<Rightarrow> u32 \<Rightarrow> UnitPrec11" where
  "HTLC_GetAmt h assetId = (if assetId > BtcAssetId then h_AssetAmt h else h_BtcAmt h)"

subsection \<open>Views\<close>

text \<open>
  A view holds pointers to log entries: each entry comes with the identity of its list element.
  An entry that is not in a log (the predicted HTLC of a validation) has a fresh identity.
\<close>

record htlcView =
  ourUpdates :: "(nat \<times> PaymentDescriptor) list"
  theirUpdates :: "(nat \<times> PaymentDescriptor) list"
  v_feePerKw :: SatPerKWeight

definition fetchHTLCView :: "LightningChannel \<Rightarrow> u64 \<Rightarrow> u64 \<Rightarrow> htlcView" where
  "fetchHTLCView lc theirLogIndex ourLogIndex =
     \<lparr>ourUpdates = filter (\<lambda>(e, htlc). LogIndex htlc < ourLogIndex) (entries (localUpdateLog lc)),
      theirUpdates = filter (\<lambda>(e, htlc). LogIndex htlc < theirLogIndex) (entries (remoteUpdateLog lc)),
      v_feePerKw = 0\<rparr>"

record balances =
  ourBtc :: MilliSatoshi
  theirBtc :: MilliSatoshi
  ourAsset :: AssetAmount
  theirAsset :: AssetAmount

definition fetchParent ::
    "LightningChannel \<Rightarrow> PaymentDescriptor \<Rightarrow> bool \<Rightarrow> bool \<Rightarrow> channel_error + PaymentDescriptor" where
  "fetchParent lc entry remoteChain remoteLog =
     (case lookupHtlc (if remoteLog then remoteUpdateLog lc else localUpdateLog lc) (ParentIndex entry) of
        None \<Rightarrow> Inl (ParentNotFound (ParentIndex entry))
      | Some addEntry \<Rightarrow>
          if remoteChain \<and> addCommitHeightRemote addEntry = 0
          then Inl (ParentZeroRemoteHeight (ParentIndex entry) (LogIndex entry))
          else if \<not> remoteChain \<and> addCommitHeightLocal addEntry = 0
          then Inl (ParentZeroLocalHeight (ParentIndex entry) (LogIndex entry))
          else Inr addEntry)"

text \<open>The height fields that the two chains use.\<close>

definition addHeight :: "bool \<Rightarrow> PaymentDescriptor \<Rightarrow> u64" where
  "addHeight remoteChain pd = (if remoteChain then addCommitHeightRemote pd else addCommitHeightLocal pd)"

definition removeHeight :: "bool \<Rightarrow> PaymentDescriptor \<Rightarrow> u64" where
  "removeHeight remoteChain pd =
     (if remoteChain then removeCommitHeightRemote pd else removeCommitHeightLocal pd)"

definition setAddHeight :: "bool \<Rightarrow> u64 \<Rightarrow> PaymentDescriptor \<Rightarrow> PaymentDescriptor" where
  "setAddHeight remoteChain h pd =
     (if remoteChain then pd\<lparr>addCommitHeightRemote := h\<rparr> else pd\<lparr>addCommitHeightLocal := h\<rparr>)"

definition setRemoveHeight :: "bool \<Rightarrow> u64 \<Rightarrow> PaymentDescriptor \<Rightarrow> PaymentDescriptor" where
  "setRemoveHeight remoteChain h pd =
     (if remoteChain then pd\<lparr>removeCommitHeightRemote := h\<rparr> else pd\<lparr>removeCommitHeightLocal := h\<rparr>)"

definition processAddEntry ::
    "PaymentDescriptor \<Rightarrow> balances \<Rightarrow> u64 \<Rightarrow> bool \<Rightarrow> bool \<Rightarrow> bool \<Rightarrow> PaymentDescriptor \<times> balances" where
  "processAddEntry htlc b nextHeight remoteChain isIncoming mutateState =
     (if addHeight remoteChain htlc \<noteq> 0 then (htlc, b)
      else
        ((if mutateState then setAddHeight remoteChain nextHeight htlc else htlc),
         (if isIncoming
          then b\<lparr>theirBtc := theirBtc b - BtcAmount htlc, theirAsset := theirAsset b - AssetAmount htlc\<rparr>
          else b\<lparr>ourBtc := ourBtc b - BtcAmount htlc, ourAsset := ourAsset b - AssetAmount htlc\<rparr>)))"

definition creditOurs :: "PaymentDescriptor \<Rightarrow> balances \<Rightarrow> balances" where
  "creditOurs htlc b = b\<lparr>ourBtc := ourBtc b + BtcAmount htlc, ourAsset := ourAsset b + AssetAmount htlc\<rparr>"

definition creditTheirs :: "PaymentDescriptor \<Rightarrow> balances \<Rightarrow> balances" where
  "creditTheirs htlc b =
     b\<lparr>theirBtc := theirBtc b + BtcAmount htlc, theirAsset := theirAsset b + AssetAmount htlc\<rparr>"

definition processRemoveEntry ::
    "PaymentDescriptor \<Rightarrow> balances \<Rightarrow> u64 \<Rightarrow> bool \<Rightarrow> bool \<Rightarrow> bool \<Rightarrow> PaymentDescriptor \<times> balances" where
  "processRemoveEntry htlc b nextHeight remoteChain isIncoming mutateState =
     (if removeHeight remoteChain htlc \<noteq> 0 then (htlc, b)
      else
        ((if mutateState then setRemoveHeight remoteChain nextHeight htlc else htlc),
         (if isIncoming \<and> EntryType htlc = Settle then creditOurs htlc b
          else if isIncoming \<and> (EntryType htlc = Fail \<or> EntryType htlc = MalformedFail)
          then creditTheirs htlc b
          else if \<not> isIncoming \<and> EntryType htlc = Settle then creditTheirs htlc b
          else if \<not> isIncoming \<and> (EntryType htlc = Fail \<or> EntryType htlc = MalformedFail)
          then creditOurs htlc b
          else b)))"

definition processFeeUpdate ::
    "PaymentDescriptor \<Rightarrow> u64 \<Rightarrow> bool \<Rightarrow> bool \<Rightarrow> SatPerKWeight \<Rightarrow> PaymentDescriptor \<times> SatPerKWeight" where
  "processFeeUpdate feeUpdate nextHeight remoteChain mutateState rate =
     (if addHeight remoteChain feeUpdate \<noteq> 0 then (feeUpdate, rate)
      else
        ((if mutateState
          then setRemoveHeight remoteChain nextHeight (setAddHeight remoteChain nextHeight feeUpdate)
          else feeUpdate),
         ToSatoshis (BtcAmount feeUpdate)))"

subsection \<open>Evaluating a view\<close>

text \<open>Writing through the pointer of a view entry: the element of the log changes its value.\<close>

definition writeElem :: "nat \<Rightarrow> PaymentDescriptor \<Rightarrow> updateLog \<Rightarrow> updateLog" where
  "writeElem e pd u = u\<lparr>entries := map (\<lambda>(f, q). if f = e then (f, pd) else (f, q)) (entries u)\<rparr>"

definition writeEntry ::
    "bool \<Rightarrow> bool \<Rightarrow> nat \<Rightarrow> PaymentDescriptor \<Rightarrow> LightningChannel \<Rightarrow> LightningChannel" where
  "writeEntry mutateState ours e pd lc =
     (if \<not> mutateState then lc
      else if ours then lc\<lparr>localUpdateLog := writeElem e pd (localUpdateLog lc)\<rparr>
      else lc\<lparr>remoteUpdateLog := writeElem e pd (remoteUpdateLog lc)\<rparr>)"

definition countSettled :: "bool \<Rightarrow> PaymentDescriptor \<Rightarrow> OpenChannel \<Rightarrow> OpenChannel" where
  "countSettled ours entry cs =
     (if ours
      then cs\<lparr>TotalMSatReceived := TotalMSatReceived cs + BtcAmount entry,
              TotalAssetReceived := TotalAssetReceived cs + AssetAmount entry\<rparr>
      else cs\<lparr>TotalMSatSent := TotalMSatSent cs + BtcAmount entry,
              TotalAssetSent := TotalAssetSent cs + AssetAmount entry\<rparr>)"

record evalState =
  es_lc :: LightningChannel
  es_bal :: balances
  es_fee :: SatPerKWeight
  es_skip :: "u64 set"

text \<open>
  The two loops over the non-add entries are the same code up to the log they walk: \<open>ours\<close> is
  true for \<open>view.ourUpdates\<close>, whose settles and fails refer to HTLCs of the remote log.
\<close>

fun removalLoop ::
    "bool \<Rightarrow> u64 \<Rightarrow> bool \<Rightarrow> bool \<Rightarrow> (nat \<times> PaymentDescriptor) list \<Rightarrow> evalState
       \<Rightarrow> evalState \<times> channel_error option" where
  "removalLoop ours nextHeight remoteChain mutateState [] st = (st, None)"
| "removalLoop ours nextHeight remoteChain mutateState ((e, entry) # es) st =
     (if EntryType entry = Add then removalLoop ours nextHeight remoteChain mutateState es st
      else if EntryType entry = FeeUpdate then
        (let (entry', rate) = processFeeUpdate entry nextHeight remoteChain mutateState (es_fee st)
         in removalLoop ours nextHeight remoteChain mutateState es
              (st\<lparr>es_lc := writeEntry mutateState ours e entry' (es_lc st), es_fee := rate\<rparr>))
      else
        (let lc = (if mutateState \<and> EntryType entry = Settle \<and> \<not> remoteChain
                      \<and> removeCommitHeightLocal entry = 0
                   then (es_lc st)\<lparr>channelState := countSettled ours entry (channelState (es_lc st))\<rparr>
                   else es_lc st)
         in case fetchParent lc entry remoteChain ours of
              Inl err \<Rightarrow> (st\<lparr>es_lc := lc\<rparr>, Some err)
            | Inr addEntry \<Rightarrow>
                (let (entry', b) = processRemoveEntry entry (es_bal st) nextHeight remoteChain ours mutateState
                 in removalLoop ours nextHeight remoteChain mutateState es
                      (st\<lparr>es_lc := writeEntry mutateState ours e entry' lc, es_bal := b,
                          es_skip := insert (HtlcIndex addEntry) (es_skip st)\<rparr>))))"

fun addLoop ::
    "bool \<Rightarrow> u64 \<Rightarrow> bool \<Rightarrow> bool \<Rightarrow> u64 set \<Rightarrow> (nat \<times> PaymentDescriptor) list
       \<Rightarrow> LightningChannel \<Rightarrow> balances \<Rightarrow> LightningChannel \<times> balances \<times> (nat \<times> PaymentDescriptor) list" where
  "addLoop ours nextHeight remoteChain mutateState skip [] lc b = (lc, b, [])"
| "addLoop ours nextHeight remoteChain mutateState skip ((e, entry) # es) lc b =
     (if EntryType entry \<noteq> Add \<or> HtlcIndex entry \<in> skip
      then addLoop ours nextHeight remoteChain mutateState skip es lc b
      else
        (let (entry', b1) = processAddEntry entry b nextHeight remoteChain (\<not> ours) mutateState;
             (lc', b', kept) = addLoop ours nextHeight remoteChain mutateState skip es
                                 (writeEntry mutateState ours e entry' lc) b1
         in (lc', b', (e, entry') # kept)))"

text \<open>
  The last step of the evaluation of an asset channel replaces both bitcoin balances. The number
  of HTLCs is computed from \<open>newView.theirUpdates\<close> twice, as in the source.
\<close>

definition resetAssetBtc :: "LightningChannel \<Rightarrow> htlcView \<Rightarrow> balances \<Rightarrow> balances" where
  "resetAssetBtc lc newView b =
     (if cs_AssetID (channelState lc) > BtcAssetId
      then (let cap = BtcCapacity lc
                      - of_nat (length (theirUpdates newView) + length (theirUpdates newView)) * (3 * OmniGas)
            in b\<lparr>ourBtc := NewMSatFromSatoshis cap, theirBtc := NewMSatFromSatoshis cap\<rparr>)
      else b)"

definition evaluateHTLCView ::
    "LightningChannel \<Rightarrow> htlcView \<Rightarrow> balances \<Rightarrow> u64 \<Rightarrow> bool \<Rightarrow> bool
       \<Rightarrow> LightningChannel \<times> (channel_error + balances \<times> htlcView)" where
  "evaluateHTLCView lc view b nextHeight remoteChain mutateState =
     (case removalLoop True nextHeight remoteChain mutateState (ourUpdates view)
             \<lparr>es_lc = lc, es_bal = b, es_fee = v_feePerKw view, es_skip = {}\<rparr> of
        (st1, Some err) \<Rightarrow> (es_lc st1, Inl err)
      | (st1, None) \<Rightarrow>
          (case removalLoop False nextHeight remoteChain mutateState (theirUpdates view) (st1\<lparr>es_skip := {}\<rparr>) of
             (st2, Some err) \<Rightarrow> (es_lc st2, Inl err)
           | (st2, None) \<Rightarrow>
               (let skipThem = es_skip st1; skipUs = es_skip st2;
                    (lc3, b3, ours) = addLoop True nextHeight remoteChain mutateState skipUs
                                        (ourUpdates view) (es_lc st2) (es_bal st2);
                    (lc4, b4, theirs) = addLoop False nextHeight remoteChain mutateState skipThem
                                          (theirUpdates view) lc3 b3;
                    newView = \<lparr>ourUpdates = ours, theirUpdates = theirs, v_feePerKw = es_fee st2\<rparr>
                in (lc4, Inr (resetAssetBtc lc4 newView b4, newView)))))"

definition countHtlcWeight ::
    "OpenChannel \<Rightarrow> bool \<Rightarrow> bool \<Rightarrow> SatPerKWeight \<Rightarrow> SatAmount \<Rightarrow> (nat \<times> PaymentDescriptor) list \<Rightarrow> i64" where
  "countHtlcWeight cs incoming ourCommit rate dust htlcs =
     (\<Sum>(e, htlc) \<leftarrow> htlcs.
        if HtlcIsDust (ChanType cs) incoming ourCommit rate (ToSatoshis (BtcAmount htlc)) dust (AssetID htlc)
        then 0 else HTLCWeight)"

definition chainOf :: "LightningChannel \<Rightarrow> bool \<Rightarrow> commitmentChain" where
  "chainOf lc remoteChain = (if remoteChain then remoteCommitChain lc else localCommitChain lc)"

definition dustLimitOf :: "LightningChannel \<Rightarrow> bool \<Rightarrow> SatAmount" where
  "dustLimitOf lc remoteChain =
     DustLimit (if remoteChain then RemoteChanCfg (channelState lc) else LocalChanCfg (channelState lc))"

definition startBalances :: "LightningChannel \<Rightarrow> bool \<Rightarrow> balances" where
  "startBalances lc remoteChain =
     (let c = tip (chainOf lc remoteChain);
          prevFee = NewMSatFromSatoshis (fee c)
      in \<lparr>ourBtc = (if IsInitiator (channelState lc) then ourBtcBalance c + prevFee else ourBtcBalance c),
          theirBtc = (if \<not> IsInitiator (channelState lc) then theirBtcBalance c + prevFee
                      else theirBtcBalance c),
          ourAsset = ourAssetBalance c, theirAsset = theirAssetBalance c\<rparr>)"

definition computeView ::
    "LightningChannel \<Rightarrow> htlcView \<Rightarrow> bool \<Rightarrow> bool
       \<Rightarrow> LightningChannel \<times> (channel_error + balances \<times> i64 \<times> htlcView)" where
  "computeView lc view remoteChain updateState =
     (let commitChain = chainOf lc remoteChain;
          dust = dustLimitOf lc remoteChain;
          nextHeight = height (tip commitChain) + 1;
          view1 = view\<lparr>v_feePerKw := feePerKw (tip commitChain)\<rparr>
      in case evaluateHTLCView lc view1 (startBalances lc remoteChain) nextHeight remoteChain updateState of
           (lc', Inl err) \<Rightarrow> (lc', Inl err)
         | (lc', Inr (b, filtered)) \<Rightarrow>
             (let rate = v_feePerKw filtered;
                  totalHtlcWeight =
                    countHtlcWeight (channelState lc') False (\<not> remoteChain) rate dust (ourUpdates filtered)
                    + countHtlcWeight (channelState lc') True (\<not> remoteChain) rate dust (theirUpdates filtered)
              in (lc', Inr (b, CommitWeight (ChanType (channelState lc')) + totalHtlcWeight, filtered))))"

end
