(* ===== verification/View_Conservation.thy ===== *)
theory View_Conservation
  imports Commit_View
begin

text \<open>
  Facts about the evaluation of a view: which parts of the channel it may change, that it
  conserves value, and that a view that was committed once is not applied again. The sums are
  sums of 64-bit words, so the equations hold without any bound on the amounts.
\<close>

section \<open>Sums over entries\<close>

definition sumOf :: "(PaymentDescriptor \<Rightarrow> u64) \<Rightarrow> (PaymentDescriptor \<Rightarrow> bool) \<Rightarrow> (nat \<times> PaymentDescriptor) list \<Rightarrow> u64" where
  "sumOf amt P xs = (\<Sum>x \<leftarrow> filter (\<lambda>x. P (snd x)) xs. amt (snd x))"

lemma sumOf_simps [view_simps]:
  "sumOf amt P [] = 0"
  "sumOf amt P ((e, pd) # xs) = (if P pd then amt pd + sumOf amt P xs else sumOf amt P xs)"
  by (simp_all add: sumOf_def)

lemma sumOf_split: "sumOf amt P xs = sumOf amt (\<lambda>p. P p \<and> Q p) xs + sumOf amt (\<lambda>p. P p \<and> \<not> Q p) xs"
  by (induction xs) (auto simp: view_simps algebra_simps)

lemma sumOf_cong: "(\<And>e p. (e, p) \<in> set xs \<Longrightarrow> P p = Q p) \<Longrightarrow> sumOf amt P xs = sumOf amt Q xs"
  unfolding sumOf_def by (intro arg_cong [of _ _ sum_list] map_cong filter_cong) auto

text \<open>The total of one of the two currencies: bitcoin or asset.\<close>

definition total :: "bool \<Rightarrow> balances \<Rightarrow> u64" where
  "total asset b = (if asset then ourAsset b + theirAsset b else ourBtc b + theirBtc b)"

definition amount :: "bool \<Rightarrow> PaymentDescriptor \<Rightarrow> u64" where
  "amount asset pd = (if asset then AssetAmount pd else BtcAmount pd)"

section \<open>The single steps\<close>

lemma set_height_simps [view_simps]:
  "EntryType (setAddHeight rc h pd) = EntryType pd" "EntryType (setRemoveHeight rc h pd) = EntryType pd"
  "LogIndex (setAddHeight rc h pd) = LogIndex pd" "LogIndex (setRemoveHeight rc h pd) = LogIndex pd"
  "HtlcIndex (setAddHeight rc h pd) = HtlcIndex pd" "HtlcIndex (setRemoveHeight rc h pd) = HtlcIndex pd"
  "ParentIndex (setAddHeight rc h pd) = ParentIndex pd" "ParentIndex (setRemoveHeight rc h pd) = ParentIndex pd"
  "amount a (setAddHeight rc h pd) = amount a pd" "amount a (setRemoveHeight rc h pd) = amount a pd"
  "BtcAmount (setAddHeight rc h pd) = BtcAmount pd" "BtcAmount (setRemoveHeight rc h pd) = BtcAmount pd"
  "AssetAmount (setAddHeight rc h pd) = AssetAmount pd" "AssetAmount (setRemoveHeight rc h pd) = AssetAmount pd"
  "AssetID (setAddHeight rc h pd) = AssetID pd" "AssetID (setRemoveHeight rc h pd) = AssetID pd"
  "addHeight rc (setAddHeight rc h pd) = h" "removeHeight rc (setRemoveHeight rc h pd) = h"
  "addHeight rc (setRemoveHeight rc' h pd) = addHeight rc pd"
  "removeHeight rc (setAddHeight rc' h pd) = removeHeight rc pd"
  by (simp_all add: setAddHeight_def setRemoveHeight_def amount_def addHeight_def removeHeight_def)

lemma processAddEntry_total:
  "processAddEntry pd b h rc inc m = (pd', b') \<Longrightarrow>
     total a b' = total a b - (if addHeight rc pd = 0 then amount a pd else 0) \<and> amount a pd' = amount a pd"
  by (auto simp: processAddEntry_def total_def view_simps split: if_splits simp: amount_def)

lemma processRemoveEntry_total:
  "processRemoveEntry pd b h rc inc m = (pd', b') \<Longrightarrow> isRemoval pd \<Longrightarrow>
     total a b' = total a b + (if removeHeight rc pd = 0 then amount a pd else 0)"
  by (auto simp: processRemoveEntry_def total_def creditOurs_def creditTheirs_def isRemoval_def
      split: if_splits simp: amount_def)

section \<open>What the loops do\<close>

lemma removalLoop_total:
  "removalLoop ours h rc m es st = (st', None) \<Longrightarrow>
     total a (es_bal st') = total a (es_bal st)
       + sumOf (amount a) (\<lambda>p. isRemoval p \<and> removeHeight rc p = 0) es"
proof (induction ours h rc m es st rule: removalLoop.induct)
  case (1 ours h rc m st)
  then show ?case by (simp add: view_simps)
next
  case (2 ours h rc m e entry es st)
  consider "EntryType entry = Add" | "EntryType entry = FeeUpdate" | "isRemoval entry"
    using notRemoval_iff by auto
  then show ?case
  proof cases
    case 3
    then show ?thesis
      using "2.prems" "2.IH"(3) isRemoval_not_Add [OF 3]
      by (auto simp: view_simps Let_def algebra_simps dest!: processRemoveEntry_total [where a = a]
          split: sum.splits prod.splits if_splits)
  qed (use 2 in \<open>auto simp: view_simps isRemoval_def Let_def split: prod.splits\<close>)
qed

lemma addLoop_total:
  "addLoop ours h rc m skip es lc b = (lc', b', kept) \<Longrightarrow>
     total a b' = total a b
       - sumOf (amount a) (\<lambda>p. EntryType p = Add \<and> HtlcIndex p \<notin> skip \<and> addHeight rc p = 0) es
     \<and> sumOf (amount a) (\<lambda>_. True) kept = sumOf (amount a) (\<lambda>p. EntryType p = Add \<and> HtlcIndex p \<notin> skip) es"
proof (induction ours h rc m skip es lc b arbitrary: lc' b' kept rule: addLoop.induct)
  case (1 ours h rc m skip lc b)
  then show ?case by (simp add: view_simps)
next
  case (2 ours h rc m skip e entry es lc b)
  show ?case
  proof (cases "EntryType entry \<noteq> Add \<or> HtlcIndex entry \<in> skip")
    case True
    with 2 show ?thesis by (auto simp: view_simps)
  next
    case False
    obtain entry' b1 where p: "processAddEntry entry b h rc (\<not> ours) m = (entry', b1)" by fastforce
    obtain kept' where k: "addLoop ours h rc m skip es (writeEntry m ours e entry' lc) b1 = (lc', b', kept')"
      "kept = (e, entry') # kept'"
      using "2.prems" False p by (auto split: prod.splits)
    from "2.IH"(2) [OF False p [symmetric] refl k(1)] processAddEntry_total [OF p, of a] False k(2)
    show ?thesis by (auto simp: view_simps algebra_simps)
  qed
qed

section \<open>Logs that differ in the progress of their entries\<close>

text \<open>
  The fields that change while an update waits in a log: the heights at which the chains committed
  it, the scripts of its output, and whether it was forwarded. The rest is the update itself.
\<close>

definition stripProgress :: "PaymentDescriptor \<Rightarrow> PaymentDescriptor" where
  "stripProgress p = p\<lparr>addCommitHeightRemote := 0, addCommitHeightLocal := 0,
     removeCommitHeightRemote := 0, removeCommitHeightLocal := 0, ourPkScript := [], ourWitnessScript := [],
     theirPkScript := [], theirWitnessScript := [], SourceRef := None, DestRef := None, isForwarded := False\<rparr>"

definition sameUpdate :: "PaymentDescriptor \<Rightarrow> PaymentDescriptor \<Rightarrow> bool" where
  "sameUpdate p q \<longleftrightarrow> stripProgress p = stripProgress q"

lemma stripProgress_fields:
  "EntryType (stripProgress p) = EntryType p" "LogIndex (stripProgress p) = LogIndex p"
  "HtlcIndex (stripProgress p) = HtlcIndex p" "ParentIndex (stripProgress p) = ParentIndex p"
  "BtcAmount (stripProgress p) = BtcAmount p" "AssetAmount (stripProgress p) = AssetAmount p"
  "AssetID (stripProgress p) = AssetID p"
  by (simp_all add: stripProgress_def)

lemma sameUpdateD:
  assumes "sameUpdate p q"
  shows "EntryType q = EntryType p" "LogIndex q = LogIndex p" "HtlcIndex q = HtlcIndex p"
    "ParentIndex q = ParentIndex p" "BtcAmount q = BtcAmount p" "AssetAmount q = AssetAmount p"
    "AssetID q = AssetID p" "isRemoval q = isRemoval p"
  using assms stripProgress_fields unfolding sameUpdate_def isRemoval_def by metis+

lemma sameUpdate_refl [simp]: "sameUpdate p p"
  by (simp add: sameUpdate_def)

lemma sameUpdate_trans: "sameUpdate p q \<Longrightarrow> sameUpdate q r \<Longrightarrow> sameUpdate p r"
  by (simp add: sameUpdate_def)

lemma sameUpdate_set [simp]:
  "sameUpdate p (setAddHeight rc h p)" "sameUpdate p (setRemoveHeight rc h p)"
  "sameUpdate p (setRemoveHeight rc h (setAddHeight rc h p))"
  by (simp_all add: sameUpdate_def stripProgress_def setAddHeight_def setRemoveHeight_def)

lemma process_sameUpdate:
  "processAddEntry p b h rc inc m = (p', b') \<Longrightarrow> sameUpdate p p'"
  "processRemoveEntry p b h rc inc m = (p', b') \<Longrightarrow> sameUpdate p p'"
  "processFeeUpdate p h rc m r = (p', r') \<Longrightarrow> sameUpdate p p'"
  by (auto simp: processAddEntry_def processRemoveEntry_def processFeeUpdate_def split: if_splits)

text \<open>\<open>logRel R u v\<close>: the logs have the same elements and indexes; the values are related by \<open>R\<close>.\<close>

definition logRel :: "(PaymentDescriptor \<Rightarrow> PaymentDescriptor \<Rightarrow> bool) \<Rightarrow> updateLog \<Rightarrow> updateLog \<Rightarrow> bool" where
  "logRel R u v \<longleftrightarrow> v = u\<lparr>entries := entries v\<rparr>
     \<and> list_all2 (\<lambda>x y. fst x = fst y \<and> R (snd x) (snd y)) (entries u) (entries v)"

lemma logRel_fields:
  assumes "logRel R u v"
  shows "logIndex v = logIndex u" "htlcCounter v = htlcCounter u" "nextElem v = nextElem u"
    "updateIndex v = updateIndex u" "htlcIndex v = htlcIndex u" "modifiedHtlcs v = modifiedHtlcs u"
    "map fst (entries v) = map fst (entries u)"
proof -
  have v: "v = u\<lparr>entries := entries v\<rparr>" using assms by (simp add: logRel_def)
  show "logIndex v = logIndex u" "htlcCounter v = htlcCounter u" "nextElem v = nextElem u"
    "updateIndex v = updateIndex u" "htlcIndex v = htlcIndex u" "modifiedHtlcs v = modifiedHtlcs u"
    by (subst v, simp)+
  have "list_all2 (\<lambda>x y. fst x = fst y) (entries u) (entries v)"
    using assms by (auto simp: logRel_def intro: list_all2_mono)
  then show "map fst (entries v) = map fst (entries u)"
    by (induction rule: list_all2_induct) auto
qed

lemma logRel_refl: "(\<And>p. R p p) \<Longrightarrow> logRel R u u"
  by (simp add: logRel_def list_all2_refl)

lemma logRel_trans:
  assumes "logRel R u v" "logRel R v w" and tr: "\<And>p q r. R p q \<Longrightarrow> R q r \<Longrightarrow> R p r"
  shows "logRel R u w"
proof -
  have "w = u\<lparr>entries := entries w\<rparr>"
    using logRel_fields [OF assms(1)] logRel_fields [OF assms(2)] by simp
  moreover have "list_all2 (\<lambda>x y. fst x = fst y \<and> R (snd x) (snd y)) (entries u) (entries w)"
  proof (rule list_all2_trans)
    show "fst a = fst c \<and> R (snd a) (snd c)"
      if "fst a = fst b \<and> R (snd a) (snd b)" "fst b = fst c \<and> R (snd b) (snd c)"
      for a b c :: "nat \<times> PaymentDescriptor"
      using that tr [of "snd a" "snd b" "snd c"] by simp
    show "list_all2 (\<lambda>x y. fst x = fst y \<and> R (snd x) (snd y)) (entries u) (entries v)"
      "list_all2 (\<lambda>x y. fst x = fst y \<and> R (snd x) (snd y)) (entries v) (entries w)"
      using assms(1,2) by (simp_all add: logRel_def)
  qed
  ultimately show ?thesis by (simp add: logRel_def)
qed

lemma logRel_mono: "logRel R u v \<Longrightarrow> (\<And>p q. R p q \<Longrightarrow> S p q) \<Longrightarrow> logRel S u v"
  unfolding logRel_def by (auto intro: list_all2_mono)

lemma logRel_writeElem:
  assumes "distinct (map fst (entries u))" and "(e, p) \<in> set (entries u)" and "R p p'" and "\<And>p. R p p"
  shows "logRel R u (writeElem e p' u)"
proof -
  have "list_all2 (\<lambda>x y. fst x = fst y \<and> R (snd x) (snd y)) xs
      (map (\<lambda>(f, q). if f = e then (f, p') else (f, q)) xs)" if "\<And>q. (e, q) \<in> set xs \<Longrightarrow> R q p'" for xs
    using that assms(4) by (induction xs) auto
  moreover have "R q p'" if "(e, q) \<in> set (entries u)" for q
    using eq_key_imp_eq_value [OF assms(1) that assms(2)] assms(3) by simp
  ultimately show ?thesis by (simp add: logRel_def writeElem_def)
qed

lemma logRel_memD:
  assumes "logRel R u v" and "(e, q) \<in> set (entries v)"
  shows "\<exists>p. (e, p) \<in> set (entries u) \<and> R p q"
  using assms unfolding logRel_def list_all2_conv_all_nth in_set_conv_nth
  by (metis fst_conv prod.collapse snd_conv)

lemma logRel_memI:
  assumes "logRel R u v" and "(e, p) \<in> set (entries u)"
  shows "\<exists>q. (e, q) \<in> set (entries v) \<and> R p q"
  using assms unfolding logRel_def list_all2_conv_all_nth in_set_conv_nth
  by (metis fst_conv prod.collapse snd_conv)

lemma logRel_log_inv:
  assumes rel: "logRel sameUpdate u v" and inv: "log_inv u"
  shows "log_inv v"
proof (rule log_invI)
  note D = log_invD [OF inv] and F = logRel_fields [OF rel]
  have "list_all2 (\<lambda>x y. LogIndex (snd y) = LogIndex (snd x)) (entries u) (entries v)"
    using rel by (auto simp: logRel_def dest: sameUpdateD elim!: list_all2_mono)
  then have eq: "map (\<lambda>x. LogIndex (snd x)) (entries v) = map (\<lambda>x. LogIndex (snd x)) (entries u)"
    by (induction rule: list_all2_induct) auto
  have "sorted_wrt (<) (map (\<lambda>x. LogIndex (snd x)) (entries u))" using D(2) by (simp add: sorted_wrt_map)
  then have "sorted_wrt (<) (map (\<lambda>x. LogIndex (snd x)) (entries v))" by (simp only: eq)
  then show "sorted_wrt (\<lambda>x y. LogIndex x < LogIndex y) (map snd (entries v))" by (simp add: sorted_wrt_map)
  show "distinct (map fst (entries v))" using D(1) F(7) by simp
  show "e < nextElem v \<and> LogIndex q < logIndex v" if "(e, q) \<in> set (entries v)" for e q
    using logRel_memD [OF rel that] D(3,4) F by (auto simp: sameUpdateD)
  show "htlcIndex v (HtlcIndex q) = Some e \<and> HtlcIndex q < htlcCounter v"
    if "(e, q) \<in> set (entries v)" "EntryType q = Add" for e q
    using logRel_memD [OF rel that(1)] that(2) D(5,6) F by (auto simp: sameUpdateD)
  show "updateIndex v (LogIndex q) = Some e" if "(e, q) \<in> set (entries v)" "EntryType q \<noteq> Add" for e q
    using logRel_memD [OF rel that(1)] that(2) D(7) F by (auto simp: sameUpdateD)
  show "\<exists>q. (e, q) \<in> set (entries v) \<and> EntryType q = Add \<and> HtlcIndex q = k" if "htlcIndex v k = Some e" for k e
    using D(8) [of k e] that F logRel_memI [OF rel] by (metis sameUpdateD(1,3))
  show "\<exists>q. (e, q) \<in> set (entries v) \<and> EntryType q \<noteq> Add \<and> LogIndex q = k" if "updateIndex v k = Some e" for k e
    using D(9) [of k e] that F logRel_memI [OF rel] by (metis sameUpdateD(1,2))
  show "modifiedHtlcs v \<subseteq> dom (htlcIndex v)" using D(10) F by simp
qed

lemma logRel_lookup:
  assumes rel: "logRel R u v" and inv: "log_inv u" and "lookupHtlc u k = Some p"
  shows "\<exists>q. lookupHtlc v k = Some q \<and> R p q"
proof -
  from assms(3) obtain e where e: "htlcIndex u k = Some e" "map_of (entries u) e = Some p"
    by (auto simp: lookupHtlc_def split: option.splits)
  then have "(e, p) \<in> set (entries u)" using log_inv_map_of [OF inv] by simp
  then obtain q where q: "(e, q) \<in> set (entries v)" "R p q" using logRel_memI [OF rel] by blast
  have "distinct (map fst (entries v))" using log_invD(1) [OF inv] logRel_fields(7) [OF rel] by simp
  then have "map_of (entries v) e = Some q" using q(1) by simp
  then show ?thesis using e(1) q(2) logRel_fields(5) [OF rel] by (simp add: lookupHtlc_def)
qed

lemma logRel_removals:
  assumes "logRel sameUpdate u v"
  shows "list_all2 sameUpdate (removals u) (removals v)"
proof -
  have "list_all2 (\<lambda>x y. sameUpdate (snd x) (snd y)) (entries u) (entries v)"
    using assms by (auto simp: logRel_def elim!: list_all2_mono)
  then show ?thesis unfolding removals_def
    by (induction rule: list_all2_induct) (auto dest: sameUpdateD(8))
qed

lemma logRel_pair_inv:
  assumes A: "logRel sameUpdate A A'" and B: "logRel sameUpdate B B'"
    and inv: "log_inv B" "pair_inv A B"
  shows "pair_inv A' B'"
proof -
  note rem = logRel_removals [OF A]
  have "list_all2 (\<lambda>p q. ParentIndex q = ParentIndex p) (removals A) (removals A')"
    using rem by (auto dest: sameUpdateD elim!: list_all2_mono)
  then have par: "map ParentIndex (removals A') = map ParentIndex (removals A)"
    by (induction rule: list_all2_induct) auto
  have "\<exists>h. lookupHtlc B' (ParentIndex r') = Some h \<and> sameAmount r' h" if r': "r' \<in> set (removals A')" for r'
  proof -
    obtain r where r: "r \<in> set (removals A)" "sameUpdate r r'"
      using rem r' unfolding list_all2_conv_all_nth in_set_conv_nth by metis
    obtain h where "lookupHtlc B (ParentIndex r) = Some h" "sameAmount r h"
      using inv(2) r(1) by (auto simp: pair_inv_def)
    moreover from this(1) obtain h' where "lookupHtlc B' (ParentIndex r) = Some h'" "sameUpdate h h'"
      using logRel_lookup [OF B inv(1)] by blast
    ultimately show ?thesis using sameUpdateD [OF r(2)] by (auto simp: sameAmount_def sameUpdateD)
  qed
  moreover have "ParentIndex ` set (removals A') = ParentIndex ` set (removals A)"
    using arg_cong [OF par, of set] by simp
  ultimately show ?thesis
    using inv(2) logRel_fields(6) [OF B] par unfolding pair_inv_def by simp
qed

lemma logRel_logs_inv:
  "logRel sameUpdate A A' \<Longrightarrow> logRel sameUpdate B B' \<Longrightarrow> logs_inv A B \<Longrightarrow> logs_inv A' B'"
  by (simp add: logs_inv_def logRel_log_inv logRel_pair_inv)

section \<open>What the loops may change\<close>

definition ownLog :: "bool \<Rightarrow> LightningChannel \<Rightarrow> updateLog" where
  "ownLog ours lc = (if ours then localUpdateLog lc else remoteUpdateLog lc)"

definition otherLog :: "bool \<Rightarrow> LightningChannel \<Rightarrow> updateLog" where
  "otherLog ours lc = (if ours then remoteUpdateLog lc else localUpdateLog lc)"

text \<open>The counters of settled payments are the only part of the channel state that changes.\<close>

definition stripTotals :: "OpenChannel \<Rightarrow> OpenChannel" where
  "stripTotals cs = cs\<lparr>TotalAssetSent := 0, TotalAssetReceived := 0, TotalMSatSent := 0, TotalMSatReceived := 0\<rparr>"

definition sameConfig :: "LightningChannel \<Rightarrow> LightningChannel \<Rightarrow> bool" where
  "sameConfig lc lc' \<longleftrightarrow>
     lc'\<lparr>localUpdateLog := localUpdateLog lc, remoteUpdateLog := remoteUpdateLog lc, channelState := channelState lc\<rparr> = lc
     \<and> stripTotals (channelState lc') = stripTotals (channelState lc)"

lemma sameConfig_refl [simp]: "sameConfig lc lc"
  by (simp add: sameConfig_def)

lemma sameConfigD:
  assumes "sameConfig lc lc'"
  shows "localCommitChain lc' = localCommitChain lc" "remoteCommitChain lc' = remoteCommitChain lc"
    "BtcCapacity lc' = BtcCapacity lc" "AssetCapacity lc' = AssetCapacity lc" "currentHeight lc' = currentHeight lc"
    "ChanType (channelState lc') = ChanType (channelState lc)"
    "IsInitiator (channelState lc') = IsInitiator (channelState lc)"
    "cs_AssetID (channelState lc') = cs_AssetID (channelState lc)"
    "cs_BtcCapacity (channelState lc') = cs_BtcCapacity (channelState lc)"
    "LocalChanCfg (channelState lc') = LocalChanCfg (channelState lc)"
    "RemoteChanCfg (channelState lc') = RemoteChanCfg (channelState lc)"
  using assms by (cases lc; cases lc'; cases "channelState lc"; cases "channelState lc'";
      simp add: sameConfig_def stripTotals_def)+

lemma sameConfig_trans: "sameConfig a b \<Longrightarrow> sameConfig b c \<Longrightarrow> sameConfig a c"
  by (cases a; cases b; cases c) (simp add: sameConfig_def)

lemma sameConfig_steps [simp]:
  "sameConfig lc (writeEntry m ours e p lc)"
  "sameConfig lc (lc\<lparr>channelState := countSettled ours p (channelState lc)\<rparr>)"
  by (simp_all add: sameConfig_def writeEntry_def stripTotals_def countSettled_def)

lemma writeEntry_logs [view_simps]:
  "otherLog ours (writeEntry m ours e p lc) = otherLog ours lc"
  "ownLog ours (writeEntry m ours e p lc) = (if m then writeElem e p (ownLog ours lc) else ownLog ours lc)"
  "ownLog ours (lc\<lparr>channelState := cs\<rparr>) = ownLog ours lc"
  "otherLog ours (lc\<lparr>channelState := cs\<rparr>) = otherLog ours lc"
  by (simp_all add: otherLog_def ownLog_def writeEntry_def)

lemma writeElem_mem: "f \<noteq> e \<Longrightarrow> (f, q) \<in> set (entries (writeElem e p u)) \<longleftrightarrow> (f, q) \<in> set (entries u)"
  by (force simp: writeElem_def)

lemma writeElem_fst: "map fst (entries (writeElem e p u)) = map fst (entries u)"
  by (auto simp: writeElem_def)

text \<open>Entries of a view that point into a log: distinct elements with their current values.\<close>

definition pointsInto :: "(PaymentDescriptor \<Rightarrow> bool) \<Rightarrow> (nat \<times> PaymentDescriptor) list \<Rightarrow> updateLog \<Rightarrow> bool" where
  "pointsInto P es u \<longleftrightarrow> distinct (map fst es) \<and> distinct (map fst (entries u))
     \<and> (\<forall>(e, p) \<in> set es. P p \<longrightarrow> (e, p) \<in> set (entries u))"

lemma pointsInto_write:
  assumes "pointsInto P ((e, p) # es) u"
  shows "pointsInto P es (writeElem e p' u)"
proof -
  have "f \<noteq> e" if "(f, q) \<in> set es" for f q
    using assms that by (force simp: pointsInto_def)
  then show ?thesis
    using assms by (auto simp: pointsInto_def writeElem_fst writeElem_mem)
qed

lemma pointsInto_tl: "pointsInto P (x # es) u \<Longrightarrow> pointsInto P es u"
  by (auto simp: pointsInto_def)

lemma logRel_write_pointed:
  assumes "pointsInto P ((e, p) # es) u" "P p" "R p p'" and "\<And>p. R p p"
  shows "logRel R u (writeElem e p' u)"
  using assms by (intro logRel_writeElem) (auto simp: pointsInto_def)

definition heightsChange :: "PaymentDescriptor \<Rightarrow> PaymentDescriptor \<Rightarrow> bool" where
  "heightsChange p q \<longleftrightarrow> sameUpdate p q \<and> (EntryType p = Add \<longrightarrow> q = p)"

lemma heightsChange_refl [simp]: "heightsChange p p"
  by (simp add: heightsChange_def)

lemma heightsChange_trans: "heightsChange p q \<Longrightarrow> heightsChange q r \<Longrightarrow> heightsChange p r"
  using sameUpdate_trans sameUpdateD(1) by (auto simp: heightsChange_def)

definition frame ::
    "(PaymentDescriptor \<Rightarrow> PaymentDescriptor \<Rightarrow> bool) \<Rightarrow> bool \<Rightarrow> LightningChannel \<Rightarrow> LightningChannel \<Rightarrow> bool" where
  "frame R ours a b \<longleftrightarrow> logRel R (ownLog ours a) (ownLog ours b) \<and> otherLog ours b = otherLog ours a \<and> sameConfig a b"

lemma frame_trans:
  "frame R ours a b \<Longrightarrow> frame R ours b c \<Longrightarrow> (\<And>p q r. R p q \<Longrightarrow> R q r \<Longrightarrow> R p r) \<Longrightarrow> frame R ours a c"
  unfolding frame_def using logRel_trans sameConfig_trans by metis

lemma frame_heights_trans:
  "frame heightsChange ours a b \<Longrightarrow> frame heightsChange ours b c \<Longrightarrow> frame heightsChange ours a c"
  by (erule (1) frame_trans) (rule heightsChange_trans)

lemma frame_same_trans:
  "frame sameUpdate ours a b \<Longrightarrow> frame sameUpdate ours b c \<Longrightarrow> frame sameUpdate ours a c"
  by (erule (1) frame_trans) (rule sameUpdate_trans)

lemma frame_refl: "(\<And>p. R p p) \<Longrightarrow> frame R ours a a"
  by (simp add: frame_def logRel_refl)

lemma frame_count: "(\<And>p. R p p) \<Longrightarrow> frame R ours lc (lc\<lparr>channelState := countSettled ours p (channelState lc)\<rparr>)"
  by (simp add: frame_def logRel_refl view_simps)

lemma frame_write:
  assumes "m \<longrightarrow> pointsInto P ((e, p) # es) (ownLog ours lc)" and "P p" "R p p'" and "\<And>p. R p p"
  shows "frame R ours lc (writeEntry m ours e p' lc)"
  using assms logRel_write_pointed [of P e p es "ownLog ours lc" R p'] by (auto simp: frame_def view_simps intro: logRel_refl)

lemma points_after_write:
  "m \<longrightarrow> pointsInto P ((e, p) # es) (ownLog ours lc)
     \<Longrightarrow> m \<longrightarrow> pointsInto P es (ownLog ours (writeEntry m ours e p' lc))"
  by (auto simp: view_simps intro: pointsInto_write)

lemma removalLoop_frame:
  assumes "removalLoop ours h rc m es st = (st', r)"
    and "m \<longrightarrow> pointsInto (\<lambda>p. EntryType p \<noteq> Add) es (ownLog ours (es_lc st))"
  shows "frame heightsChange ours (es_lc st) (es_lc st')"
  using assms
proof (induction ours h rc m es st rule: removalLoop.induct)
  case (1 ours h rc m st)
  then show ?case by (simp add: frame_refl)
next
  case (2 ours h rc m e entry es st)
  note tr = frame_heights_trans
  consider (add) "EntryType entry = Add" | (fee) "EntryType entry = FeeUpdate" | (rem) "isRemoval entry"
    using notRemoval_iff by auto
  then show ?case
  proof cases
    case add
    then show ?thesis using 2 by (auto dest: pointsInto_tl)
  next
    case fee
    obtain p' rate where p: "processFeeUpdate entry h rc m (es_fee st) = (p', rate)" by fastforce
    have "frame heightsChange ours (es_lc st) (writeEntry m ours e p' (es_lc st))"
      using "2.prems"(2) process_sameUpdate(3) [OF p] fee
      by (intro frame_write [where P = "\<lambda>p. EntryType p \<noteq> Add" and es = es]) (auto simp: heightsChange_def)
    moreover have "frame heightsChange ours (writeEntry m ours e p' (es_lc st)) (es_lc st')"
      using "2.IH"(2) [OF _ _ p [symmetric]] fee "2.prems" p points_after_write [OF "2.prems"(2)] by simp
    ultimately show ?thesis by (rule tr)
  next
    case rem
    let ?lc = "if m \<and> EntryType entry = Settle \<and> \<not> rc \<and> removeCommitHeightLocal entry = 0
       then (es_lc st)\<lparr>channelState := countSettled ours entry (channelState (es_lc st))\<rparr> else es_lc st"
    obtain p' b where p: "processRemoveEntry entry (es_bal st) h rc ours m = (p', b)" by fastforce
    have ne: "EntryType entry \<noteq> Add" "EntryType entry \<noteq> FeeUpdate" using isRemoval_not_Add [OF rem] by auto
    have own: "ownLog ours ?lc = ownLog ours (es_lc st)" by (simp add: view_simps)
    have 1: "frame heightsChange ours (es_lc st) ?lc" by (simp add: frame_count frame_refl)
    show ?thesis
    proof (cases "fetchParent ?lc entry rc ours")
      case (Inl err)
      then show ?thesis using "2.prems"(1) ne 1 by (auto simp: Let_def split: if_splits)
    next
      case (Inr addEntry)
      have 2: "frame heightsChange ours ?lc (writeEntry m ours e p' ?lc)"
        using "2.prems"(2) process_sameUpdate(2) [OF p] ne unfolding own [symmetric]
        by (intro frame_write [where P = "\<lambda>p. EntryType p \<noteq> Add" and es = es]) (auto simp: heightsChange_def)
      have 3: "m \<longrightarrow> pointsInto (\<lambda>p. EntryType p \<noteq> Add) es (ownLog ours (writeEntry m ours e p' ?lc))"
        using "2.prems"(2) unfolding own [symmetric] by (rule points_after_write)
      have "frame heightsChange ours (writeEntry m ours e p' ?lc) (es_lc st')"
        using "2.IH"(3) [OF ne refl Inr p [symmetric]] "2.prems"(1) ne Inr p 3 by (simp add: Let_def)
      then show ?thesis using tr [OF 1 tr [OF 2]] by blast
    qed
  qed
qed

lemma addLoop_frame:
  assumes "addLoop ours h rc m skip es lc b = (lc', b', kept)"
    and "m \<longrightarrow> pointsInto (\<lambda>p. EntryType p = Add) es (ownLog ours lc)"
  shows "frame sameUpdate ours lc lc'"
  using assms
proof (induction ours h rc m skip es lc b arbitrary: lc' b' kept rule: addLoop.induct)
  case (1 ours h rc m skip lc b)
  then show ?case by (simp add: frame_refl)
next
  case (2 ours h rc m skip e entry es lc b)
  show ?case
  proof (cases "EntryType entry \<noteq> Add \<or> HtlcIndex entry \<in> skip")
    case True
    with 2 show ?thesis by (auto dest: pointsInto_tl)
  next
    case False
    obtain p' b1 where p: "processAddEntry entry b h rc (\<not> ours) m = (p', b1)" by fastforce
    obtain kept' where k: "addLoop ours h rc m skip es (writeEntry m ours e p' lc) b1 = (lc', b', kept')"
      using "2.prems"(1) False p by (auto split: prod.splits)
    have "frame sameUpdate ours lc (writeEntry m ours e p' lc)"
      using "2.prems"(2) process_sameUpdate(1) [OF p] False
      by (intro frame_write [where P = "\<lambda>p. EntryType p = Add" and es = es]) auto
    moreover have "frame sameUpdate ours (writeEntry m ours e p' lc) lc'"
      using "2.IH"(2) [OF False p [symmetric] refl k] points_after_write [OF "2.prems"(2)] by simp
    ultimately show ?thesis by (rule frame_same_trans)
  qed
qed

text \<open>The HTLCs that the loop over the non-add entries marks as removed.\<close>

lemma fetchParent_InrD:
  "fetchParent lc entry rc ours = Inr h \<Longrightarrow>
     lookupHtlc (otherLog ours lc) (ParentIndex entry) = Some h \<and> addHeight rc h \<noteq> 0"
  by (auto simp: fetchParent_def otherLog_def addHeight_def split: option.splits if_splits)

definition parentsOf :: "(nat \<times> PaymentDescriptor) list \<Rightarrow> u64 set" where
  "parentsOf es = ParentIndex ` {p \<in> snd ` set es. isRemoval p}"

lemma parentsOf_Cons [view_simps]:
  "parentsOf ((e, p) # es) = (if isRemoval p then insert (ParentIndex p) (parentsOf es) else parentsOf es)"
  "parentsOf [] = {}"
  by (auto simp: parentsOf_def)

lemma removalLoop_skip:
  assumes "removalLoop ours h rc m es st = (st', None)" and "log_inv (otherLog ours (es_lc st))"
  shows "es_skip st' = es_skip st \<union> parentsOf es
     \<and> (\<forall>k \<in> parentsOf es. \<exists>p. lookupHtlc (otherLog ours (es_lc st)) k = Some p \<and> addHeight rc p \<noteq> 0)"
  using assms
proof (induction ours h rc m es st rule: removalLoop.induct)
  case (1 ours h rc m st)
  then show ?case by (simp add: view_simps)
next
  case (2 ours h rc m e entry es st)
  consider (add) "EntryType entry = Add" | (fee) "EntryType entry = FeeUpdate" | (rem) "isRemoval entry"
    using notRemoval_iff by auto
  then show ?case
  proof cases
    case add
    then show ?thesis using 2 by (auto simp: view_simps isRemoval_def)
  next
    case fee
    then show ?thesis using 2 by (auto simp: view_simps isRemoval_def split: prod.splits)
  next
    case rem
    let ?lc = "if m \<and> EntryType entry = Settle \<and> \<not> rc \<and> removeCommitHeightLocal entry = 0
       then (es_lc st)\<lparr>channelState := countSettled ours entry (channelState (es_lc st))\<rparr> else es_lc st"
    obtain p' b where p: "processRemoveEntry entry (es_bal st) h rc ours m = (p', b)" by fastforce
    have ne: "EntryType entry \<noteq> Add" "EntryType entry \<noteq> FeeUpdate" using isRemoval_not_Add [OF rem] by auto
    have other: "otherLog ours ?lc = otherLog ours (es_lc st)" by (simp add: view_simps)
    obtain q where q: "fetchParent ?lc entry rc ours = Inr q"
      using "2.prems"(1) ne by (cases "fetchParent ?lc entry rc ours") (auto simp: Let_def split: if_splits)
    note q' = fetchParent_InrD [OF q, unfolded other]
    have "HtlcIndex q = ParentIndex entry" using q' lookupHtlc_iff [OF "2.prems"(2)] by blast
    with "2.IH"(3) [OF ne refl q p [symmetric]] "2.prems" ne q p q' rem show ?thesis
      by (auto simp: view_simps Let_def other)
  qed
qed

section \<open>An evaluation conserves value\<close>

lemma logRel_heights_lookup:
  assumes "logRel heightsChange u v" and "log_inv u"
  shows "lookupHtlc v k = lookupHtlc u k"
proof (cases "lookupHtlc u k")
  case None
  then have "htlcIndex v k = None" using lookupHtlc_None [OF assms(2)] logRel_fields(5) [OF assms(1)] by simp
  with None show ?thesis by (simp add: lookupHtlc_def)
next
  case (Some p)
  then have "EntryType p = Add" using lookupHtlc_iff [OF assms(2)] by blast
  with logRel_lookup [OF assms Some] Some show ?thesis by (auto simp: heightsChange_def)
qed

lemma logRel_heights_inv: "logRel heightsChange u v \<Longrightarrow> log_inv u \<Longrightarrow> log_inv v"
  by (rule logRel_log_inv) (auto simp: heightsChange_def elim: logRel_mono)

text \<open>The updates of a log below an index, and the updates of the other log that remove its HTLCs.\<close>

definition below :: "u64 \<Rightarrow> (nat \<times> PaymentDescriptor) list \<Rightarrow> (nat \<times> PaymentDescriptor) list" where
  "below i xs = filter (\<lambda>(e, p). LogIndex p < i) xs"

lemma fetchHTLCView_below:
  "ourUpdates (fetchHTLCView lc ti oi) = below oi (entries (localUpdateLog lc))"
  "theirUpdates (fetchHTLCView lc ti oi) = below ti (entries (remoteUpdateLog lc))"
  by (simp_all add: fetchHTLCView_def below_def)

lemma adds_distinct:
  assumes "log_inv u"
  shows "distinct (map (\<lambda>x. HtlcIndex (snd x)) (filter (\<lambda>x. EntryType (snd x) = Add) (entries u)))"
proof -
  have "distinct (entries u)" using log_invD(1) [OF assms] by (simp add: distinct_map)
  moreover have "inj_on (\<lambda>x. HtlcIndex (snd x)) {x \<in> set (entries u). EntryType (snd x) = Add}"
    using log_invD(5) [OF assms] entry_unique [OF assms] by (auto simp: inj_on_def) (metis option.inject)+
  ultimately show ?thesis by (simp add: distinct_map)
qed

lemma sumOf_below: "sumOf amt P (below i xs) = sumOf amt (\<lambda>p. LogIndex p < i \<and> P p) xs"
  unfolding sumOf_def below_def by (simp add: case_prod_unfold conj_ac)

lemma lookup_member: "log_inv u \<Longrightarrow> (e, p) \<in> set (entries u) \<Longrightarrow> EntryType p = Add \<Longrightarrow> lookupHtlc u (HtlcIndex p) = Some p"
  using lookupHtlc_iff by force

lemma matched_sum:
  fixes Q :: "PaymentDescriptor \<Rightarrow> bool"
  assumes invs: "log_inv B" "pair_inv A B"
  defines "K \<equiv> ParentIndex ` {r \<in> snd ` set (entries A). isRemoval r \<and> Q r}"
  shows "sumOf (amount a) (\<lambda>p. EntryType p = Add \<and> HtlcIndex p \<in> K) (entries B)
       = sumOf (amount a) (\<lambda>p. isRemoval p \<and> Q p) (entries A)"
proof -
  let ?f = "\<lambda>k. amount a (the (lookupHtlc B k))"
  let ?T = "filter (\<lambda>x. EntryType (snd x) = Add \<and> HtlcIndex (snd x) \<in> K) (entries B)"
  let ?R = "filter (\<lambda>x. isRemoval (snd x) \<and> Q (snd x)) (entries A)"
  have rem: "r \<in> set (removals A)" if "r \<in> snd ` set (entries A)" "isRemoval r" for r using that by (auto simp: removals_def)
  have T: "lookupHtlc B (HtlcIndex (snd x)) = Some (snd x)" if "x \<in> set ?T" for x
    using that lookupHtlc_iff [OF invs(1)] by force
  have setT: "(\<lambda>x. HtlcIndex (snd x)) ` set ?T = K"
  proof
    show "K \<subseteq> (\<lambda>x. HtlcIndex (snd x)) ` set ?T"
    proof
      fix k assume k: "k \<in> K"
      then obtain p where "lookupHtlc B k = Some p" using invs(2) rem by (fastforce simp: K_def pair_inv_def)
      then obtain e where "(e, p) \<in> set (entries B)" "EntryType p = Add" "HtlcIndex p = k"
        using lookupHtlc_iff [OF invs(1)] by force
      with k show "k \<in> (\<lambda>x. HtlcIndex (snd x)) ` set ?T" by (intro image_eqI [of _ _ "(e, p)"]) auto
    qed
  qed auto
  have distT: "distinct (map (\<lambda>x. HtlcIndex (snd x)) ?T)"
    using distinct_map_filter_conj [OF adds_distinct [OF invs(1)], of "\<lambda>x. HtlcIndex (snd x) \<in> K"] by (simp add: conj_ac)
  have distR: "distinct (map (\<lambda>x. ParentIndex (snd x)) ?R)"
    using distinct_map_filter_conj [of "\<lambda>x. ParentIndex (snd x)" "\<lambda>x. isRemoval (snd x)" "entries A" "\<lambda>x. Q (snd x)"] invs(2)
    by (simp add: pair_inv_def removals_def filter_map comp_def conj_ac)
  have R: "amount a (snd x) = ?f (ParentIndex (snd x))" if "x \<in> set ?R" for x
    using that invs(2) rem by (fastforce simp: pair_inv_def sameAmount_def amount_def)
  have "sumOf (amount a) (\<lambda>p. EntryType p = Add \<and> HtlcIndex p \<in> K) (entries B) = (\<Sum>x\<leftarrow>?T. ?f (HtlcIndex (snd x)))"
    unfolding sumOf_def using T by (intro arg_cong [of _ _ sum_list] map_cong) auto
  also have "\<dots> = sum ?f K" using sum_list_distinct_conv_sum_set [OF distT, of ?f] setT by (simp add: comp_def)
  also have "\<dots> = (\<Sum>x\<leftarrow>?R. ?f (ParentIndex (snd x)))"
  proof -
    have "(\<lambda>x. ParentIndex (snd x)) ` set ?R = K" by (force simp: K_def)
    then show ?thesis using sum_list_distinct_conv_sum_set [OF distR, of ?f] by (simp add: comp_def)
  qed
  also have "\<dots> = sumOf (amount a) (\<lambda>p. isRemoval p \<and> Q p) (entries A)"
    unfolding sumOf_def using R by (intro arg_cong [of _ _ sum_list] map_cong) auto
  finally show ?thesis .
qed

lemma skipped_sum:
  assumes invs: "log_inv B" "pair_inv A B"
    and closed: "\<And>k. k \<in> parentsOf (below i (entries A)) \<Longrightarrow> \<exists>p. lookupHtlc B k = Some p \<and> LogIndex p < j"
  shows "sumOf (amount a) (\<lambda>p. EntryType p = Add \<and> HtlcIndex p \<in> parentsOf (below i (entries A))) (below j (entries B))
       = sumOf (amount a) isRemoval (below i (entries A))"
proof -
  let ?K = "parentsOf (below i (entries A))"
  have K: "?K = ParentIndex ` {r \<in> snd ` set (entries A). isRemoval r \<and> LogIndex r < i}"
    by (force simp: parentsOf_def below_def)
  have "LogIndex p < j" if "(e, p) \<in> set (entries B)" "EntryType p = Add" "HtlcIndex p \<in> ?K" for e p
    using closed [OF that(3)] lookup_member [OF invs(1) that(1,2)] by simp
  then have "sumOf (amount a) (\<lambda>p. EntryType p = Add \<and> HtlcIndex p \<in> ?K) (below j (entries B))
      = sumOf (amount a) (\<lambda>p. EntryType p = Add \<and> HtlcIndex p \<in> ?K) (entries B)"
    unfolding sumOf_below by (intro sumOf_cong) blast
  also have "\<dots> = sumOf (amount a) (\<lambda>p. isRemoval p \<and> LogIndex p < i) (entries A)"
    unfolding K by (rule matched_sum [OF invs])
  finally show ?thesis unfolding sumOf_below by (simp add: conj_commute)
qed

text \<open>
  The value of the HTLCs that the previous commitment of the chain carries: its committed adds
  without those that it already removed.
\<close>

definition inFlight :: "bool \<Rightarrow> bool \<Rightarrow> htlcView \<Rightarrow> u64" where
  "inFlight a rc v =
     sumOf (amount a) (\<lambda>p. EntryType p = Add \<and> addHeight rc p \<noteq> 0) (ourUpdates v)
     + sumOf (amount a) (\<lambda>p. EntryType p = Add \<and> addHeight rc p \<noteq> 0) (theirUpdates v)
     - sumOf (amount a) (\<lambda>p. isRemoval p \<and> removeHeight rc p \<noteq> 0) (ourUpdates v)
     - sumOf (amount a) (\<lambda>p. isRemoval p \<and> removeHeight rc p \<noteq> 0) (theirUpdates v)"

definition htlcValue :: "bool \<Rightarrow> htlcView \<Rightarrow> u64" where
  "htlcValue a v = sumOf (amount a) (\<lambda>_. True) (ourUpdates v) + sumOf (amount a) (\<lambda>_. True) (theirUpdates v)"

text \<open>One side: what the kept adds of \<open>B\<close> carry, given the removals in \<open>A\<close>.\<close>

lemma kept_side:
  assumes "log_inv B" "pair_inv A B"
    and parents: "\<And>k. k \<in> parentsOf (below i (entries A)) \<Longrightarrow>
      \<exists>p. lookupHtlc B k = Some p \<and> LogIndex p < j \<and> addHeight rc p \<noteq> 0"
  defines "K \<equiv> parentsOf (below i (entries A))" and "es \<equiv> below j (entries B)"
  shows "sumOf (amount a) (\<lambda>p. EntryType p = Add \<and> HtlcIndex p \<notin> K) es
         - sumOf (amount a) (\<lambda>p. EntryType p = Add \<and> HtlcIndex p \<notin> K \<and> addHeight rc p = 0) es
         + sumOf (amount a) isRemoval (below i (entries A))
       = sumOf (amount a) (\<lambda>p. EntryType p = Add \<and> addHeight rc p \<noteq> 0) es"
proof -
  let ?S = "\<lambda>P. sumOf (amount a) P es"
  have "addHeight rc p \<noteq> 0" if "(e, p) \<in> set es" "EntryType p = Add" "HtlcIndex p \<in> K" for e p
  proof -
    have "lookupHtlc B (HtlcIndex p) = Some p"
      using that lookupHtlc_iff [OF assms(1)] by (force simp: es_def below_def)
    with parents [of "HtlcIndex p"] that(3) show ?thesis by (auto simp: K_def)
  qed
  then have "?S (\<lambda>p. (EntryType p = Add \<and> addHeight rc p \<noteq> 0) \<and> HtlcIndex p \<in> K)
      = ?S (\<lambda>p. EntryType p = Add \<and> HtlcIndex p \<in> K)"
    by (intro sumOf_cong) auto
  also have "\<dots> = sumOf (amount a) isRemoval (below i (entries A))"
    unfolding K_def es_def using parents by (intro skipped_sum [OF assms(1,2)]) blast
  finally have skipped: "?S (\<lambda>p. (EntryType p = Add \<and> addHeight rc p \<noteq> 0) \<and> HtlcIndex p \<in> K)
      = sumOf (amount a) isRemoval (below i (entries A))" .
  have "?S (\<lambda>p. EntryType p = Add \<and> HtlcIndex p \<notin> K)
      = ?S (\<lambda>p. EntryType p = Add \<and> HtlcIndex p \<notin> K \<and> addHeight rc p = 0)
        + ?S (\<lambda>p. (EntryType p = Add \<and> addHeight rc p \<noteq> 0) \<and> HtlcIndex p \<notin> K)"
    using sumOf_split [of "amount a" "\<lambda>p. EntryType p = Add \<and> HtlcIndex p \<notin> K" es "\<lambda>p. addHeight rc p = 0"]
    by (simp add: conj_ac)
  moreover have "?S (\<lambda>p. EntryType p = Add \<and> addHeight rc p \<noteq> 0)
      = ?S (\<lambda>p. (EntryType p = Add \<and> addHeight rc p \<noteq> 0) \<and> HtlcIndex p \<in> K)
        + ?S (\<lambda>p. (EntryType p = Add \<and> addHeight rc p \<noteq> 0) \<and> HtlcIndex p \<notin> K)"
    by (rule sumOf_split)
  ultimately show ?thesis unfolding skipped by simp
qed

text \<open>
  The entries that a chain has committed lie below the indexes of the view: the view extends the
  previous commitment.
\<close>

definition committedBelow :: "bool \<Rightarrow> LightningChannel \<Rightarrow> u64 \<Rightarrow> u64 \<Rightarrow> bool" where
  "committedBelow rc lc theirIdx ourIdx \<longleftrightarrow>
     (\<forall>(e, p) \<in> set (entries (localUpdateLog lc)). addHeight rc p \<noteq> 0 \<longrightarrow> LogIndex p < ourIdx)
     \<and> (\<forall>(e, p) \<in> set (entries (remoteUpdateLog lc)). addHeight rc p \<noteq> 0 \<longrightarrow> LogIndex p < theirIdx)"

lemma committedBelow_lookup:
  assumes "committedBelow rc lc ti oi" and "log_inv (otherLog ours lc)"
    and "lookupHtlc (otherLog ours lc) k = Some p" and "addHeight rc p \<noteq> 0"
  shows "LogIndex p < (if ours then ti else oi)"
  using assms lookupHtlc_iff [OF assms(2)] by (force simp: committedBelow_def otherLog_def split: if_splits)

lemma below_points: "log_inv u \<Longrightarrow> pointsInto P (below i (entries u)) u"
  using log_invD(1) [of u] by (auto simp: pointsInto_def below_def distinct_map_filter)

lemma resetAssetBtc_total:
  "a \<or> cs_AssetID (channelState lc) = BtcAssetId \<Longrightarrow> total a (resetAssetBtc lc v b) = total a b"
  by (auto simp: resetAssetBtc_def total_def BtcAssetId_def Let_def)

lemma evaluate_cases:
  assumes "evaluateHTLCView lc v b h rc m = (lc', Inr (b', v'))"
  obtains st1 st2 lc3 b3 b4 ours theirs where
    "removalLoop True h rc m (ourUpdates v)
       \<lparr>es_lc = lc, es_bal = b, es_fee = v_feePerKw v, es_skip = {}\<rparr> = (st1, None)"
    and "removalLoop False h rc m (theirUpdates v) (st1\<lparr>es_skip := {}\<rparr>) = (st2, None)"
    and "addLoop True h rc m (es_skip st2) (ourUpdates v) (es_lc st2) (es_bal st2) = (lc3, b3, ours)"
    and "addLoop False h rc m (es_skip st1) (theirUpdates v) lc3 b3 = (lc', b4, theirs)"
    and "v' = \<lparr>ourUpdates = ours, theirUpdates = theirs, v_feePerKw = es_fee st2\<rparr>"
    and "b' = resetAssetBtc lc' v' b4"
  using assms unfolding evaluateHTLCView_def
  by (auto simp: Let_def split: prod.splits option.splits)

text \<open>The two sets of removed HTLCs, read in the channel before the evaluation.\<close>

lemma evaluate_skips:
  assumes inv: "logs_inv (localUpdateLog lc) (remoteUpdateLog lc)"
    and r1: "removalLoop True h rc m (below oi (entries (localUpdateLog lc)))
       \<lparr>es_lc = lc, es_bal = b, es_fee = f, es_skip = {}\<rparr> = (st1, None)"
    and r2: "removalLoop False h rc m (below ti (entries (remoteUpdateLog lc))) (st1\<lparr>es_skip := {}\<rparr>) = (st2, None)"
  shows "es_skip st1 = parentsOf (below oi (entries (localUpdateLog lc)))"
    and "es_skip st2 = parentsOf (below ti (entries (remoteUpdateLog lc)))"
    and "k \<in> es_skip st1 \<Longrightarrow> \<exists>p. lookupHtlc (remoteUpdateLog lc) k = Some p \<and> addHeight rc p \<noteq> 0"
    and "k \<in> es_skip st2 \<Longrightarrow> \<exists>p. lookupHtlc (localUpdateLog lc) k = Some p \<and> addHeight rc p \<noteq> 0"
proof -
  have li: "log_inv (localUpdateLog lc)" "log_inv (remoteUpdateLog lc)" using inv by (auto simp: logs_inv_def)
  have "frame heightsChange True lc (es_lc st1)"
    using removalLoop_frame [OF r1] below_points [OF li(1)] by (simp add: ownLog_def)
  then have rel: "logRel heightsChange (localUpdateLog lc) (localUpdateLog (es_lc st1))"
    by (simp add: frame_def ownLog_def)
  note 1 = removalLoop_skip [OF r1] and 2 = removalLoop_skip [OF r2]
  from 1 li show "es_skip st1 = parentsOf (below oi (entries (localUpdateLog lc)))"
    "k \<in> es_skip st1 \<Longrightarrow> \<exists>p. lookupHtlc (remoteUpdateLog lc) k = Some p \<and> addHeight rc p \<noteq> 0"
    by (auto simp: otherLog_def)
  from 2 logRel_heights_inv [OF rel li(1)] logRel_heights_lookup [OF rel li(1)]
  show "es_skip st2 = parentsOf (below ti (entries (remoteUpdateLog lc)))"
    "k \<in> es_skip st2 \<Longrightarrow> \<exists>p. lookupHtlc (localUpdateLog lc) k = Some p \<and> addHeight rc p \<noteq> 0"
    by (auto simp: otherLog_def)
qed

lemma evaluate_frame:
  assumes inv: "logs_inv (localUpdateLog lc) (remoteUpdateLog lc)"
    and v: "ourUpdates v = below oi (entries (localUpdateLog lc))" "theirUpdates v = below ti (entries (remoteUpdateLog lc))"
    and ev: "evaluateHTLCView lc v b h rc m = (lc', Inr (b', v'))"
  shows "logRel sameUpdate (localUpdateLog lc) (localUpdateLog lc')"
    and "logRel sameUpdate (remoteUpdateLog lc) (remoteUpdateLog lc')" and "sameConfig lc lc'"
proof -
  have li: "log_inv (localUpdateLog lc)" "log_inv (remoteUpdateLog lc)" using inv by (auto simp: logs_inv_def)
  obtain st1 st2 lc3 b3 b4 ours theirs where e:
    "removalLoop True h rc m (ourUpdates v) \<lparr>es_lc = lc, es_bal = b, es_fee = v_feePerKw v, es_skip = {}\<rparr> = (st1, None)"
    "removalLoop False h rc m (theirUpdates v) (st1\<lparr>es_skip := {}\<rparr>) = (st2, None)"
    "addLoop True h rc m (es_skip st2) (ourUpdates v) (es_lc st2) (es_bal st2) = (lc3, b3, ours)"
    "addLoop False h rc m (es_skip st1) (theirUpdates v) lc3 b3 = (lc', b4, theirs)"
    using evaluate_cases [OF ev] .
  have adds: "pointsInto (\<lambda>p. EntryType p = Add) (below i (entries u)) w"
    if "logRel heightsChange u w" "log_inv u" for i u w
    using below_points [OF that(2), of "\<lambda>p. EntryType p = Add" i] logRel_memI [OF that(1)] logRel_fields(7) [OF that(1)]
    by (fastforce simp: pointsInto_def heightsChange_def)
  have f1: "frame heightsChange True lc (es_lc st1)"
    using removalLoop_frame [OF e(1)] below_points [OF li(1)] by (simp add: ownLog_def v)
  have f2: "frame heightsChange False (es_lc st1) (es_lc st2)"
    using removalLoop_frame [OF e(2)] below_points [OF li(2)] f1 by (simp add: frame_def ownLog_def otherLog_def v)
  have f3: "frame sameUpdate True (es_lc st2) lc3"
    using addLoop_frame [OF e(3)] adds [OF _ li(1)] f1 f2 by (simp add: frame_def ownLog_def otherLog_def v)
  have f4: "frame sameUpdate False lc3 lc'"
    using addLoop_frame [OF e(4)] adds [OF _ li(2)] f1 f2 f3 by (simp add: frame_def ownLog_def otherLog_def v)
  have weak: "logRel heightsChange x y \<Longrightarrow> logRel sameUpdate x y" for x y
    by (erule logRel_mono) (simp add: heightsChange_def)
  have tr: "logRel sameUpdate x y \<Longrightarrow> logRel sameUpdate y z \<Longrightarrow> logRel sameUpdate x z" for x y z
    by (erule (1) logRel_trans) (rule sameUpdate_trans)
  show "logRel sameUpdate (localUpdateLog lc) (localUpdateLog lc')"
    using f1 f2 f3 f4 weak tr unfolding frame_def ownLog_def otherLog_def by (simp, metis)
  show "logRel sameUpdate (remoteUpdateLog lc) (remoteUpdateLog lc')"
    using f1 f2 f3 f4 weak tr unfolding frame_def ownLog_def otherLog_def by (simp, metis)
  show "sameConfig lc lc'" using f1 f2 f3 f4 by (meson frame_def sameConfig_trans)
qed

lemma evaluate_error_cases:
  assumes "evaluateHTLCView lc v b h rc m = (lc', Inl err)"
  obtains st1 where "removalLoop True h rc m (ourUpdates v)
       \<lparr>es_lc = lc, es_bal = b, es_fee = v_feePerKw v, es_skip = {}\<rparr> = (st1, Some err)" "lc' = es_lc st1"
  | st1 st2 where "removalLoop True h rc m (ourUpdates v)
       \<lparr>es_lc = lc, es_bal = b, es_fee = v_feePerKw v, es_skip = {}\<rparr> = (st1, None)"
    "removalLoop False h rc m (theirUpdates v) (st1\<lparr>es_skip := {}\<rparr>) = (st2, Some err)" "lc' = es_lc st2"
  using assms unfolding evaluateHTLCView_def by (auto simp: Let_def split: prod.splits option.splits)

text \<open>Whatever the outcome, an evaluation changes the progress of the updates and nothing else.\<close>

definition sameLogs :: "LightningChannel \<Rightarrow> LightningChannel \<Rightarrow> bool" where
  "sameLogs a b \<longleftrightarrow> logRel sameUpdate (localUpdateLog a) (localUpdateLog b)
     \<and> logRel sameUpdate (remoteUpdateLog a) (remoteUpdateLog b) \<and> sameConfig a b"

lemma logRel_same_trans: "logRel sameUpdate x y \<Longrightarrow> logRel sameUpdate y z \<Longrightarrow> logRel sameUpdate x z"
  by (erule (1) logRel_trans) (rule sameUpdate_trans)

lemma sameLogs_trans: "sameLogs a b \<Longrightarrow> sameLogs b c \<Longrightarrow> sameLogs a c"
  unfolding sameLogs_def using logRel_same_trans sameConfig_trans by blast

lemma sameLogs_refl [simp]: "sameLogs a a"
  by (simp add: sameLogs_def logRel_refl)

lemma frame_sameLogs:
  assumes "frame R ours a b" and "\<And>p q. R p q \<Longrightarrow> sameUpdate p q"
  shows "sameLogs a b"
proof -
  have "logRel sameUpdate (ownLog ours a) (ownLog ours b)" "logRel sameUpdate (otherLog ours a) (otherLog ours b)"
    using assms logRel_mono [of R] logRel_refl [of sameUpdate] by (auto simp: frame_def)
  then show ?thesis using assms(1) by (auto simp: sameLogs_def frame_def ownLog_def otherLog_def split: if_splits)
qed

lemma heightsChange_same: "heightsChange p q \<Longrightarrow> sameUpdate p q"
  by (simp add: heightsChange_def)

lemma evaluate_sameLogs:
  assumes inv: "logs_inv (localUpdateLog lc) (remoteUpdateLog lc)"
    and v: "ourUpdates v = below oi (entries (localUpdateLog lc))" "theirUpdates v = below ti (entries (remoteUpdateLog lc))"
    and ev: "evaluateHTLCView lc v b h rc m = (lc', r)"
  shows "sameLogs lc lc'"
proof (cases r)
  case (Inr x)
  then show ?thesis using evaluate_frame [OF inv v, of b h rc m lc'] ev by (cases x) (simp add: sameLogs_def)
next
  case (Inl err)
  have li: "log_inv (localUpdateLog lc)" "log_inv (remoteUpdateLog lc)" using inv by (auto simp: logs_inv_def)
  note same = frame_sameLogs [OF _ heightsChange_same]
  from ev Inl have "evaluateHTLCView lc v b h rc m = (lc', Inl err)" by simp
  then show ?thesis
  proof (cases rule: evaluate_error_cases)
    case (1 st1)
    have "frame heightsChange True lc (es_lc st1)"
      using removalLoop_frame [OF 1(1)] below_points [OF li(1)] by (simp add: ownLog_def v)
    then show ?thesis using same 1(2) by blast
  next
    case (2 st1 st2)
    have f1: "frame heightsChange True lc (es_lc st1)"
      using removalLoop_frame [OF 2(1)] below_points [OF li(1)] by (simp add: ownLog_def v)
    have "frame heightsChange False (es_lc st1) (es_lc st2)"
      using removalLoop_frame [OF 2(2)] below_points [OF li(2)] f1 by (simp add: frame_def ownLog_def otherLog_def v)
    then show ?thesis using same [OF f1] same sameLogs_trans 2(3) by blast
  qed
qed

lemma sameLogs_inv:
  "sameLogs a b \<Longrightarrow> logs_inv (localUpdateLog a) (remoteUpdateLog a) \<Longrightarrow> logs_inv (localUpdateLog b) (remoteUpdateLog b)"
  using logRel_logs_inv by (auto simp: sameLogs_def)

lemma computeView_sameLogs:
  assumes inv: "logs_inv (localUpdateLog lc) (remoteUpdateLog lc)"
    and cv: "computeView lc (fetchHTLCView lc ti oi) rc m = (lc', r)"
  shows "sameLogs lc lc'"
proof -
  let ?v = "(fetchHTLCView lc ti oi)\<lparr>v_feePerKw := feePerKw (tip (chainOf lc rc))\<rparr>"
  obtain r' where "evaluateHTLCView lc ?v (startBalances lc rc) (height (tip (chainOf lc rc)) + 1) rc m = (lc', r')"
    using cv unfolding computeView_def Let_def by (auto split: prod.splits sum.splits)
  then show ?thesis using evaluate_sameLogs [OF inv, of ?v oi ti] by (simp add: fetchHTLCView_below)
qed

text \<open>The arithmetic of the four passes.\<close>

lemma passes_balance:
  fixes t0 :: u64
  assumes "t1 = t0 + r1" "t2 = t1 + r2" "t3 = t2 - x1" "t4 = t3 - x2"
    and "k1 - x1 + m2 = a1" "k2 - x2 + m1 = a2" "m1 = r1 + n1" "m2 = r2 + n2"
  shows "t4 + (k1 + k2) = t0 + (a1 + a2 - n1 - n2)"
  unfolding assms(1-4) assms(5,6) [symmetric] unfolding assms(7,8) by (simp add: algebra_simps)

lemma evaluate_total:
  assumes inv: "logs_inv (localUpdateLog lc) (remoteUpdateLog lc)" and cb: "committedBelow rc lc ti oi"
    and v: "ourUpdates v = below oi (entries (localUpdateLog lc))" "theirUpdates v = below ti (entries (remoteUpdateLog lc))"
    and ev: "evaluateHTLCView lc v b h rc m = (lc', Inr (b', v'))"
    and a: "a \<or> cs_AssetID (channelState lc) = BtcAssetId"
  shows "total a b' + htlcValue a v' = total a b + inFlight a rc v"
proof -
  obtain st1 st2 lc3 b3 b4 ours theirs where e:
    "removalLoop True h rc m (ourUpdates v) \<lparr>es_lc = lc, es_bal = b, es_fee = v_feePerKw v, es_skip = {}\<rparr> = (st1, None)"
    "removalLoop False h rc m (theirUpdates v) (st1\<lparr>es_skip := {}\<rparr>) = (st2, None)"
    "addLoop True h rc m (es_skip st2) (ourUpdates v) (es_lc st2) (es_bal st2) = (lc3, b3, ours)"
    "addLoop False h rc m (es_skip st1) (theirUpdates v) lc3 b3 = (lc', b4, theirs)"
    "v' = \<lparr>ourUpdates = ours, theirUpdates = theirs, v_feePerKw = es_fee st2\<rparr>" "b' = resetAssetBtc lc' v' b4"
    using evaluate_cases [OF ev] .
  note skips = evaluate_skips [OF inv e(1,2) [unfolded v]]
  have li: "log_inv (localUpdateLog lc)" "log_inv (remoteUpdateLog lc)"
    "pair_inv (localUpdateLog lc) (remoteUpdateLog lc)" "pair_inv (remoteUpdateLog lc) (localUpdateLog lc)"
    using inv by (auto simp: logs_inv_def)
  have p1: "\<exists>p. lookupHtlc (remoteUpdateLog lc) k = Some p \<and> LogIndex p < ti \<and> addHeight rc p \<noteq> 0"
    if "k \<in> parentsOf (below oi (entries (localUpdateLog lc)))" for k
    using skips(3) [of k] that committedBelow_lookup [OF cb, of True k] li(2) by (auto simp: skips(1) otherLog_def)
  have p2: "\<exists>p. lookupHtlc (localUpdateLog lc) k = Some p \<and> LogIndex p < oi \<and> addHeight rc p \<noteq> 0"
    if "k \<in> parentsOf (below ti (entries (remoteUpdateLog lc)))" for k
    using skips(4) [of k] that committedBelow_lookup [OF cb, of False k] li(1) by (auto simp: skips(2) otherLog_def)
  have reset: "total a b' = total a b4"
    using e(6) resetAssetBtc_total [of a lc'] a sameConfigD(8) [OF evaluate_frame(3) [OF inv v ev]] by simp
  note tot = removalLoop_total [OF e(1), of a] removalLoop_total [OF e(2), of a]
    addLoop_total [OF e(3), of a] addLoop_total [OF e(4), of a]
  note split = sumOf_split [of "amount a" isRemoval _ "\<lambda>p. removeHeight rc p = 0"]
  have k: "sumOf (amount a) (\<lambda>_. True) ours
        - sumOf (amount a) (\<lambda>p. EntryType p = Add \<and> HtlcIndex p \<notin> es_skip st2 \<and> addHeight rc p = 0) (ourUpdates v)
        + sumOf (amount a) isRemoval (theirUpdates v)
      = sumOf (amount a) (\<lambda>p. EntryType p = Add \<and> addHeight rc p \<noteq> 0) (ourUpdates v)"
    "sumOf (amount a) (\<lambda>_. True) theirs
        - sumOf (amount a) (\<lambda>p. EntryType p = Add \<and> HtlcIndex p \<notin> es_skip st1 \<and> addHeight rc p = 0) (theirUpdates v)
        + sumOf (amount a) isRemoval (ourUpdates v)
      = sumOf (amount a) (\<lambda>p. EntryType p = Add \<and> addHeight rc p \<noteq> 0) (theirUpdates v)"
    using kept_side [where i = oi and j = ti and a = a, OF li(2,3) p1]
      kept_side [where i = ti and j = oi and a = a, OF li(1,4) p2] tot(3,4)
    unfolding v skips(1,2) by simp_all
  show ?thesis
    unfolding reset htlcValue_def inFlight_def e(5) htlcView.simps
    by (rule passes_balance [OF _ _ _ _ k split split]) (use tot in simp_all)
qed

end
