(* ===== verification/Lnwire.thy ===== *)
theory Lnwire
  imports Units
begin

text \<open>
  The wire format of the peer protocol (\<open>src/oblnd/lnwire\<close>): the element writers of
  \<open>writer.go\<close>, the cases of \<open>ReadElement\<close> in \<open>lnwire.go\<close> that the modelled messages use, channel
  identifiers, and the messages of the channel state machine. A writer is a function to bytes, a
  reader takes the bytes left in the stream and returns an error or a value and the rest.
  Public keys belong to a third-party package: their serialisation and parser are arguments.
\<close>

section \<open>The model\<close>

datatype wire_error =
    ReadError io_error
  | ErrNilPublicKey
  | ErrParsePubKey
  | BlockHeightTooBig
  | TxIndexTooBig
  | ErrOutpointIndexTooBig u32
  | AddressTooLong u16
  | ErrMaxPongBytesExceeded

type_synonym 'a reader = "bytes \<Rightarrow> wire_error + 'a \<times> bytes"
type_synonym ChannelID = bytes
type_synonym Sig = bytes
type_synonym ExtraOpaqueData = bytes

subsection \<open>Writers\<close>

definition WriteBytes :: "bytes \<Rightarrow> bytes" where
  "WriteBytes b = b"

definition WriteUint8 :: "u8 \<Rightarrow> bytes" where
  "WriteUint8 n = [n]"

definition WriteUint16 :: "u16 \<Rightarrow> bytes" where
  "WriteUint16 n = put_word 2 n"

definition WriteUint32 :: "u32 \<Rightarrow> bytes" where
  "WriteUint32 n = put_word 4 n"

definition WriteUint64 :: "u64 \<Rightarrow> bytes" where
  "WriteUint64 n = put_word 8 n"

definition WriteSatoshi :: "SatAmount \<Rightarrow> bytes" where
  "WriteSatoshi amount = WriteUint64 amount"

definition WriteAssetMinUnit :: "AssetAmount \<Rightarrow> bytes" where
  "WriteAssetMinUnit amount = WriteUint64 amount"

definition WriteMilliSatoshi :: "MilliSatoshi \<Rightarrow> bytes" where
  "WriteMilliSatoshi amount = WriteUint64 amount"

definition WritePublicKey :: "('pk \<Rightarrow> bytes) \<Rightarrow> 'pk option \<Rightarrow> wire_error + bytes" where
  "WritePublicKey serializeCompressed pub =
     (case pub of None \<Rightarrow> Inl ErrNilPublicKey | Some k \<Rightarrow> Inr (serializeCompressed k))"

definition WriteChannelID :: "ChannelID \<Rightarrow> bytes" where
  "WriteChannelID channelID = WriteBytes channelID"

definition WriteShortChannelID :: "ShortChannelID \<Rightarrow> wire_error + bytes" where
  "WriteShortChannelID c =
     (if BlockHeight c > 0xFFFFFF then Inl BlockHeightTooBig
      else if TxIndex c > 0xFFFFFF then Inl TxIndexTooBig
      else Inr (drop 1 (put_word 4 (BlockHeight c)) @ drop 1 (put_word 4 (TxIndex c))
                @ WriteUint16 (TxPosition c)))"

definition WriteSig :: "Sig \<Rightarrow> bytes" where
  "WriteSig sig = WriteBytes sig"

definition WriteSigs :: "Sig list \<Rightarrow> bytes" where
  "WriteSigs sigs = WriteUint16 (of_nat (length sigs)) @ concat (map WriteSig sigs)"

definition WriteFailCode :: "u16 \<Rightarrow> bytes" where
  "WriteFailCode e = WriteUint16 e"

definition WriteBool :: "bool \<Rightarrow> bytes" where
  "WriteBool b = (if b then [1] else [0])"

definition writeDataWithLength :: "bytes \<Rightarrow> bytes" where
  "writeDataWithLength data = put_word 2 (of_nat (length data) :: u16) @ data"

definition WriteDeliveryAddress :: "bytes \<Rightarrow> bytes" where
  "WriteDeliveryAddress addr = writeDataWithLength addr"

definition WritePingPayload :: "bytes \<Rightarrow> bytes" where
  "WritePingPayload payload = writeDataWithLength payload"

definition WritePongPayload :: "bytes \<Rightarrow> bytes" where
  "WritePongPayload payload = writeDataWithLength payload"

definition WriteErrorData :: "bytes \<Rightarrow> bytes" where
  "WriteErrorData data = writeDataWithLength data"

definition WriteOpaqueReason :: "bytes \<Rightarrow> bytes" where
  "WriteOpaqueReason reason = writeDataWithLength reason"

record WireOutPoint =
  wop_Hash :: bytes
  wop_Index :: u32

definition WriteOutPoint :: "WireOutPoint \<Rightarrow> wire_error + bytes" where
  "WriteOutPoint p =
     (if wop_Index p > 0xFFFF then Inl (ErrOutpointIndexTooBig (wop_Index p))
      else Inr (wop_Hash p @ WriteUint16 (ucast (wop_Index p))))"

subsection \<open>Readers\<close>

definition readN :: "nat \<Rightarrow> bytes reader" where
  "readN n r = (case read_full n r of Inl e \<Rightarrow> Inl (ReadError e) | Inr p \<Rightarrow> Inr p)"

definition readUint8 :: "u8 reader" where
  "readUint8 r = sbind (readN 1 r) (\<lambda>(b, r'). Inr (b ! 0, r'))"

definition readUint16 :: "u16 reader" where
  "readUint16 r = sbind (readN 2 r) (\<lambda>(b, r'). Inr (get_word b, r'))"

definition readUint32 :: "u32 reader" where
  "readUint32 r = sbind (readN 4 r) (\<lambda>(b, r'). Inr (get_word b, r'))"

definition readUint64 :: "u64 reader" where
  "readUint64 r = sbind (readN 8 r) (\<lambda>(b, r'). Inr (get_word b, r'))"

definition readBool :: "bool reader" where
  "readBool r = sbind (readN 1 r) (\<lambda>(b, r'). Inr (b ! 0 = 1, r'))"

definition readChannelID :: "ChannelID reader" where
  "readChannelID r = readN 32 r"

definition readSig :: "Sig reader" where
  "readSig r = readN 64 r"

fun readSigsLoop :: "nat \<Rightarrow> Sig list reader" where
  "readSigsLoop 0 r = Inr ([], r)"
| "readSigsLoop (Suc n) r =
     sbind (readSig r) (\<lambda>(s, r1). sbind (readSigsLoop n r1) (\<lambda>(ss, r2). Inr (s # ss, r2)))"

definition readSigs :: "Sig list reader" where
  "readSigs r = sbind (readUint16 r) (\<lambda>(numSigs, r'). readSigsLoop (unat numSigs) r')"

definition readPublicKey :: "(bytes \<Rightarrow> 'pk option) \<Rightarrow> 'pk reader" where
  "readPublicKey parsePubKey r =
     sbind (readN 33 r) (\<lambda>(b, r').
       case parsePubKey b of None \<Rightarrow> Inl ErrParsePubKey | Some k \<Rightarrow> Inr (k, r'))"

definition readDataWithLength :: "bytes reader" where
  "readDataWithLength r = sbind (readUint16 r) (\<lambda>(l, r'). readN (unat l) r')"

definition deliveryAddressMaxSize :: u16 where
  "deliveryAddressMaxSize = 34"

definition readDeliveryAddress :: "bytes reader" where
  "readDeliveryAddress r =
     sbind (readUint16 r) (\<lambda>(l, r').
       if l > deliveryAddressMaxSize then Inl (AddressTooLong l) else readN (unat l) r')"

definition readShortChannelID :: "ShortChannelID reader" where
  "readShortChannelID r =
     sbind (readN 3 r) (\<lambda>(bh, r1).
     sbind (readN 3 r1) (\<lambda>(ti, r2).
     sbind (readN 2 r2) (\<lambda>(tp, r3).
       Inr (\<lparr>BlockHeight = get_word (0 # bh), TxIndex = get_word (0 # ti), TxPosition = get_word tp\<rparr>, r3))))"

definition readOutPoint :: "WireOutPoint reader" where
  "readOutPoint r =
     sbind (readN 32 r) (\<lambda>(h, r1).
     sbind (readN 2 r1) (\<lambda>(ib, r2).
       Inr (\<lparr>wop_Hash = h, wop_Index = ucast (get_word ib :: u16)\<rparr>, r2)))"

text \<open>\<open>ExtraOpaqueData.Decode\<close> takes everything that is left.\<close>

definition ExtraOpaqueData_Decode :: "ExtraOpaqueData reader" where
  "ExtraOpaqueData_Decode r = Inr (r, [])"

subsection \<open>Channel identifiers\<close>

definition xorTxid :: "ChannelID \<Rightarrow> u16 \<Rightarrow> ChannelID" where
  "xorTxid cid outputIndex =
     (let buf = put_word 2 outputIndex
      in cid[30 := cid ! 30 XOR buf ! 0, 31 := cid ! 31 XOR buf ! 1])"

definition NewChanIDFromOutPoint :: "WireOutPoint \<Rightarrow> ChannelID" where
  "NewChanIDFromOutPoint p = xorTxid (wop_Hash p) (ucast (wop_Index p))"

definition MaxFundingTxOutputs :: nat where
  "MaxFundingTxOutputs = 65535"

definition GenPossibleOutPoints :: "ChannelID \<Rightarrow> WireOutPoint list" where
  "GenPossibleOutPoints c =
     map (\<lambda>i. \<lparr>wop_Hash = xorTxid c (of_nat i), wop_Index = of_nat i\<rparr>) [0..<MaxFundingTxOutputs]"

definition IsChanPoint :: "ChannelID \<Rightarrow> WireOutPoint \<Rightarrow> bool" where
  "IsChanPoint c p \<longleftrightarrow> NewChanIDFromOutPoint p = c"

section \<open>The contract of an element\<close>

text \<open>
  An element of the wire format is a writer and a reader that gives back what was written and
  leaves the rest of the stream. Some writers fail on values outside the format.
\<close>

locale partial_element =
  fixes put :: "'a \<Rightarrow> wire_error + bytes" and get :: "'a reader" and wf :: "'a \<Rightarrow> bool"
  assumes put_get: "wf x \<Longrightarrow> \<exists>bs. put x = Inr bs \<and> (\<forall>rest. get (bs @ rest) = Inr (x, rest))"
begin

lemma put_inj: "wf x \<Longrightarrow> wf y \<Longrightarrow> put x = put y \<Longrightarrow> x = y"
  using put_get [of x] put_get [of y] by (metis Pair_inject sum.inject(2))

end

locale element =
  fixes put :: "'a \<Rightarrow> bytes" and get :: "'a reader" and wf :: "'a \<Rightarrow> bool"
  assumes get_put: "wf x \<Longrightarrow> get (put x @ rest) = Inr (x, rest)"

sublocale element \<subseteq> partial: partial_element "\<lambda>x. Inr (put x)" get wf
  by unfold_locales (auto simp: get_put)

text \<open>A list of elements, written one after the other, is read back element by element.\<close>

fun readMany :: "'a reader \<Rightarrow> nat \<Rightarrow> 'a list reader" where
  "readMany rd 0 r = Inr ([], r)"
| "readMany rd (Suc n) r =
     sbind (rd r) (\<lambda>(x, r1). sbind (readMany rd n r1) (\<lambda>(xs, r2). Inr (x # xs, r2)))"

context element
begin

lemma readMany_put:
  "\<forall>x \<in> set xs. wf x \<Longrightarrow> readMany get (length xs) (concat (map put xs) @ rest) = Inr (xs, rest)"
  by (induction xs) (auto simp: get_put)

end

lemma readSigsLoop_readMany: "readSigsLoop n r = readMany readSig n r"
  by (induction n arbitrary: r) auto

section \<open>The elements of the format\<close>

lemma readN_append [wire_simps]: "length xs = n \<Longrightarrow> readN n (xs @ ys) = Inr (xs, ys)"
  by (simp add: readN_def)

lemma readN_Cons: "readN (Suc 0) (x # ys) = Inr ([x], ys)"
  by (simp add: readN_def read_full_def)

interpretation el_u8: element WriteUint8 readUint8 "\<lambda>_. True"
  by unfold_locales (simp add: WriteUint8_def readUint8_def readN_Cons)

interpretation el_u16: element WriteUint16 readUint16 "\<lambda>_. True"
  by unfold_locales (simp add: WriteUint16_def readUint16_def wire_simps)

interpretation el_u32: element WriteUint32 readUint32 "\<lambda>_. True"
  by unfold_locales (simp add: WriteUint32_def readUint32_def wire_simps)

interpretation el_u64: element WriteUint64 readUint64 "\<lambda>_. True"
  by unfold_locales (simp add: WriteUint64_def readUint64_def wire_simps)

interpretation el_bool: element WriteBool readBool "\<lambda>_. True"
  by unfold_locales (auto simp: WriteBool_def readBool_def readN_Cons)

interpretation el_bytes: element WriteBytes "readN n" "\<lambda>b. length b = n" for n
  by unfold_locales (simp add: WriteBytes_def wire_simps)

interpretation el_chanid: element WriteChannelID readChannelID "\<lambda>c. length c = 32"
  by unfold_locales (simp add: WriteChannelID_def readChannelID_def WriteBytes_def wire_simps)

interpretation el_sig: element WriteSig readSig "\<lambda>s. length s = 64"
  by unfold_locales (simp add: WriteSig_def readSig_def WriteBytes_def wire_simps)

lemma unat_of_nat_u16: "n < 2 ^ 16 \<Longrightarrow> unat (of_nat n :: u16) = n"
  by (simp add: unat_of_nat)

interpretation el_sigs: element WriteSigs readSigs "\<lambda>ss. length ss < 2 ^ 16 \<and> (\<forall>s \<in> set ss. length s = 64)"
  by unfold_locales
    (simp add: WriteSigs_def readSigs_def el_u16.get_put readSigsLoop_readMany unat_of_nat_u16
      el_sig.readMany_put)

interpretation el_data: element writeDataWithLength readDataWithLength "\<lambda>d. length d < 2 ^ 16"
  by unfold_locales
    (simp add: writeDataWithLength_def readDataWithLength_def WriteUint16_def [symmetric]
      el_u16.get_put unat_of_nat_u16 wire_simps)

lemma of_nat_le_34: "n \<le> 34 \<Longrightarrow> \<not> (of_nat n :: u16) > 34"
  by (simp add: word_less_nat_alt unat_of_nat not_less)

interpretation el_addr: element WriteDeliveryAddress readDeliveryAddress "\<lambda>d. length d \<le> 34"
  by unfold_locales
    (simp add: WriteDeliveryAddress_def writeDataWithLength_def readDeliveryAddress_def
      WriteUint16_def [symmetric] el_u16.get_put unat_of_nat_u16 wire_simps of_nat_le_34
      deliveryAddressMaxSize_def)

lemma three_bytes:
  assumes "(w :: u32) \<le> 0xFFFFFF"
  shows "length (drop 1 (put_word 4 w)) = 3" and "get_word (0 # drop 1 (put_word 4 w)) = w"
proof -
  have "unat w < 256 ^ 3" using assms by (simp add: word_le_nat_alt)
  then have "unat w div 256 ^ 3 = 0" by (rule div_less)
  moreover have "put_word 4 w = be_nat (Suc 3) (unat w)" unfolding put_word_be_nat by simp
  ultimately have "put_word 4 w = 0 # drop 1 (put_word 4 w)"
    unfolding be_nat.simps by (simp only: semiring_1_class.of_nat_0 drop_Suc_Cons One_nat_def drop_0)
  then have "get_word (0 # drop 1 (put_word 4 w)) = (get_word (put_word 4 w) :: u32)" by simp
  then show "get_word (0 # drop 1 (put_word 4 w)) = w" by simp
  show "length (drop 1 (put_word 4 w)) = 3" by simp
qed

lemma less_24_bits: "(w :: u32) < 2 ^ 24 \<longleftrightarrow> w \<le> 0xFFFFFF"
  by (simp add: word_less_nat_alt word_le_nat_alt) arith

interpretation el_scid: partial_element WriteShortChannelID readShortChannelID scid_wf
proof
  fix c assume wf: "scid_wf c"
  then have le: "BlockHeight c \<le> 0xFFFFFF" "TxIndex c \<le> 0xFFFFFF"
    by (simp_all add: scid_wf_def less_24_bits [simplified])
  let ?bs = "drop 1 (put_word 4 (BlockHeight c)) @ drop 1 (put_word 4 (TxIndex c)) @ WriteUint16 (TxPosition c)"
  have "WriteShortChannelID c = Inr ?bs" using le by (simp add: WriteShortChannelID_def not_less [symmetric])
  moreover have "readShortChannelID (?bs @ rest) = Inr (c, rest)" for rest
    using three_bytes [OF le(1)] three_bytes [OF le(2)]
    by (simp add: readShortChannelID_def readN_append WriteUint16_def del: drop_Suc_Cons)
  ultimately show "\<exists>bs. WriteShortChannelID c = Inr bs \<and> (\<forall>rest. readShortChannelID (bs @ rest) = Inr (c, rest))"
    by blast
qed

interpretation el_outpoint: partial_element WriteOutPoint readOutPoint
    "\<lambda>p. length (wop_Hash p) = 32 \<and> wop_Index p < 2 ^ 16"
proof
  fix p :: WireOutPoint assume wf: "length (wop_Hash p) = 32 \<and> wop_Index p < 2 ^ 16"
  then have small: "unat (wop_Index p) < 2 ^ 16" by (simp add: word_less_nat_alt)
  then have "\<not> wop_Index p > 0xFFFF" by (simp add: word_less_nat_alt)
  moreover have "ucast (ucast (wop_Index p) :: u16) = wop_Index p"
    by (rule bit_word_eqI) (use wf less_two_power_high_bits [of "wop_Index p" 16] not_le in \<open>auto simp: bit_simps\<close>)
  ultimately show "\<exists>bs. WriteOutPoint p = Inr bs \<and> (\<forall>rest. readOutPoint (bs @ rest) = Inr (p, rest))"
    using wf by (simp add: WriteOutPoint_def readOutPoint_def WriteUint16_def readN_append)
qed

text \<open>
  The key package: a compressed key has 33 bytes and its parser accepts what the serialiser
  writes. Both are documented behaviour of \<open>btcec\<close>.
\<close>

definition key_codec :: "('pk \<Rightarrow> bytes) \<Rightarrow> (bytes \<Rightarrow> 'pk option) \<Rightarrow> bool" where
  "key_codec ser parse \<longleftrightarrow> (\<forall>k. length (ser k) = 33 \<and> parse (ser k) = Some k)"

lemma readPublicKey_write [wire_simps]:
  "key_codec ser parse \<Longrightarrow> readPublicKey parse (ser k @ rest) = Inr (k, rest)"
  by (simp add: key_codec_def readPublicKey_def readN_append)

section \<open>Channel identifiers\<close>

lemma word8_xor_cancel: "(a XOR b) XOR b = (a :: u8)"
  by (simp add: xor.assoc)

lemma xorTxid_involution:
  assumes "length cid = 32"
  shows "xorTxid (xorTxid cid i) i = cid"
  using assms by (simp add: xorTxid_def Let_def list_update_swap word8_xor_cancel)

lemmas element_simps =
  el_u8.get_put [OF TrueI] el_u16.get_put [OF TrueI] el_u32.get_put [OF TrueI] el_u64.get_put [OF TrueI]
  el_bool.get_put [OF TrueI] el_bytes.get_put el_chanid.get_put el_sig.get_put el_sigs.get_put
  el_data.get_put el_addr.get_put readPublicKey_write

end
