(* ===== verification/Lnwire_Messages.thy ===== *)
theory Lnwire_Messages
  imports Lnwire
begin

text \<open>
  The messages of the peer protocol that have a fixed layout, each with its \<open>Encode\<close> and
  \<open>Decode\<close> method (one file of \<open>src/oblnd/lnwire\<close> per message). A message is well formed when its
  array fields have the size of the Go type and its length-prefixed fields fit their prefix. The
  locale \<open>wire_message\<close> states the contract of the interface \<open>Message\<close>, and every message
  interprets it.
\<close>

section \<open>The model\<close>

definition OnionPacketSize :: nat where
  "OnionPacketSize = 1366"

subsection \<open>UpdateAddHTLC\<close>

record UpdateAddHTLC =
  uah_ChanID :: ChannelID
  uah_ID :: u64
  uah_AssetID :: u32
  uah_Amount :: u64
  uah_PaymentHash :: bytes
  uah_Expiry :: u32
  uah_OnionBlob :: bytes
  uah_ExtraData :: ExtraOpaqueData

definition UpdateAddHTLC_Encode :: "UpdateAddHTLC \<Rightarrow> wire_error + bytes" where
  "UpdateAddHTLC_Encode c =
     Inr (WriteChannelID (uah_ChanID c) @ WriteUint64 (uah_ID c) @ WriteUint32 (uah_AssetID c)
           @ WriteUint64 (uah_Amount c) @ WriteBytes (uah_PaymentHash c)
           @ WriteUint32 (uah_Expiry c) @ WriteBytes (uah_OnionBlob c)
           @ WriteBytes (uah_ExtraData c))"

definition UpdateAddHTLC_Decode :: "UpdateAddHTLC reader" where
  "UpdateAddHTLC_Decode r =
     sbind (readChannelID r) (\<lambda>(vChanID, r1).
     sbind (readUint64 r1) (\<lambda>(vID, r2).
     sbind (readUint32 r2) (\<lambda>(vAssetID, r3).
     sbind (readUint64 r3) (\<lambda>(vAmount, r4).
     sbind (readN 32 r4) (\<lambda>(vPaymentHash, r5).
     sbind (readUint32 r5) (\<lambda>(vExpiry, r6).
     sbind (readN OnionPacketSize r6) (\<lambda>(vOnionBlob, r7).
     sbind (ExtraOpaqueData_Decode r7) (\<lambda>(vExtraData, r8).
       Inr (\<lparr>uah_ChanID = vChanID, uah_ID = vID, uah_AssetID = vAssetID, uah_Amount = vAmount,
             uah_PaymentHash = vPaymentHash, uah_Expiry = vExpiry,
             uah_OnionBlob = vOnionBlob, uah_ExtraData = vExtraData\<rparr>, r8)))))))))"

definition UpdateAddHTLC_wf :: "UpdateAddHTLC \<Rightarrow> bool" where
  "UpdateAddHTLC_wf c \<longleftrightarrow> length (uah_ChanID c) = 32 \<and> length (uah_PaymentHash c) = 32
     \<and> length (uah_OnionBlob c) = OnionPacketSize"

subsection \<open>UpdateFulfillHTLC\<close>

record UpdateFulfillHTLC =
  ufh_ChanID :: ChannelID
  ufh_ID :: u64
  ufh_PaymentPreimage :: bytes
  ufh_ExtraData :: ExtraOpaqueData

definition UpdateFulfillHTLC_Encode :: "UpdateFulfillHTLC \<Rightarrow> wire_error + bytes" where
  "UpdateFulfillHTLC_Encode c =
     Inr (WriteChannelID (ufh_ChanID c) @ WriteUint64 (ufh_ID c)
           @ WriteBytes (ufh_PaymentPreimage c) @ WriteBytes (ufh_ExtraData c))"

definition UpdateFulfillHTLC_Decode :: "UpdateFulfillHTLC reader" where
  "UpdateFulfillHTLC_Decode r =
     sbind (readChannelID r) (\<lambda>(vChanID, r1).
     sbind (readUint64 r1) (\<lambda>(vID, r2).
     sbind (readN 32 r2) (\<lambda>(vPaymentPreimage, r3).
     sbind (ExtraOpaqueData_Decode r3) (\<lambda>(vExtraData, r4).
       Inr (\<lparr>ufh_ChanID = vChanID, ufh_ID = vID, ufh_PaymentPreimage = vPaymentPreimage,
             ufh_ExtraData = vExtraData\<rparr>, r4)))))"

definition UpdateFulfillHTLC_wf :: "UpdateFulfillHTLC \<Rightarrow> bool" where
  "UpdateFulfillHTLC_wf c \<longleftrightarrow> length (ufh_ChanID c) = 32 \<and> length (ufh_PaymentPreimage c) = 32"

subsection \<open>UpdateFailHTLC\<close>

record UpdateFailHTLC =
  ufl_ChanID :: ChannelID
  ufl_ID :: u64
  ufl_Reason :: bytes
  ufl_ExtraData :: ExtraOpaqueData

definition UpdateFailHTLC_Encode :: "UpdateFailHTLC \<Rightarrow> wire_error + bytes" where
  "UpdateFailHTLC_Encode c =
     Inr (WriteChannelID (ufl_ChanID c) @ WriteUint64 (ufl_ID c)
           @ WriteOpaqueReason (ufl_Reason c) @ WriteBytes (ufl_ExtraData c))"

definition UpdateFailHTLC_Decode :: "UpdateFailHTLC reader" where
  "UpdateFailHTLC_Decode r =
     sbind (readChannelID r) (\<lambda>(vChanID, r1).
     sbind (readUint64 r1) (\<lambda>(vID, r2).
     sbind (readDataWithLength r2) (\<lambda>(vReason, r3).
     sbind (ExtraOpaqueData_Decode r3) (\<lambda>(vExtraData, r4).
       Inr (\<lparr>ufl_ChanID = vChanID, ufl_ID = vID, ufl_Reason = vReason,
             ufl_ExtraData = vExtraData\<rparr>, r4)))))"

definition UpdateFailHTLC_wf :: "UpdateFailHTLC \<Rightarrow> bool" where
  "UpdateFailHTLC_wf c \<longleftrightarrow> length (ufl_ChanID c) = 32 \<and> length (ufl_Reason c) < 2 ^ 16"

subsection \<open>UpdateFailMalformedHTLC\<close>

record UpdateFailMalformedHTLC =
  ufm_ChanID :: ChannelID
  ufm_ID :: u64
  ufm_ShaOnionBlob :: bytes
  ufm_FailureCode :: u16
  ufm_ExtraData :: ExtraOpaqueData

definition UpdateFailMalformedHTLC_Encode :: "UpdateFailMalformedHTLC \<Rightarrow> wire_error + bytes" where
  "UpdateFailMalformedHTLC_Encode c =
     Inr (WriteChannelID (ufm_ChanID c) @ WriteUint64 (ufm_ID c)
           @ WriteBytes (ufm_ShaOnionBlob c) @ WriteFailCode (ufm_FailureCode c)
           @ WriteBytes (ufm_ExtraData c))"

definition UpdateFailMalformedHTLC_Decode :: "UpdateFailMalformedHTLC reader" where
  "UpdateFailMalformedHTLC_Decode r =
     sbind (readChannelID r) (\<lambda>(vChanID, r1).
     sbind (readUint64 r1) (\<lambda>(vID, r2).
     sbind (readN 32 r2) (\<lambda>(vShaOnionBlob, r3).
     sbind (readUint16 r3) (\<lambda>(vFailureCode, r4).
     sbind (ExtraOpaqueData_Decode r4) (\<lambda>(vExtraData, r5).
       Inr (\<lparr>ufm_ChanID = vChanID, ufm_ID = vID, ufm_ShaOnionBlob = vShaOnionBlob,
             ufm_FailureCode = vFailureCode, ufm_ExtraData = vExtraData\<rparr>, r5))))))"

definition UpdateFailMalformedHTLC_wf :: "UpdateFailMalformedHTLC \<Rightarrow> bool" where
  "UpdateFailMalformedHTLC_wf c \<longleftrightarrow> length (ufm_ChanID c) = 32 \<and> length (ufm_ShaOnionBlob c) = 32"

subsection \<open>CommitSig\<close>

record CommitSig =
  cs_ChanID :: ChannelID
  cs_CommitSig :: Sig
  cs_HtlcSigs :: "Sig list"
  cs_ExtraData :: ExtraOpaqueData

definition CommitSig_Encode :: "CommitSig \<Rightarrow> wire_error + bytes" where
  "CommitSig_Encode c =
     Inr (WriteChannelID (cs_ChanID c) @ WriteSig (cs_CommitSig c) @ WriteSigs (cs_HtlcSigs c)
           @ WriteBytes (cs_ExtraData c))"

definition CommitSig_Decode :: "CommitSig reader" where
  "CommitSig_Decode r =
     sbind (readChannelID r) (\<lambda>(vChanID, r1).
     sbind (readSig r1) (\<lambda>(vCommitSig, r2).
     sbind (readSigs r2) (\<lambda>(vHtlcSigs, r3).
     sbind (ExtraOpaqueData_Decode r3) (\<lambda>(vExtraData, r4).
       Inr (\<lparr>cs_ChanID = vChanID, cs_CommitSig = vCommitSig, cs_HtlcSigs = vHtlcSigs,
             cs_ExtraData = vExtraData\<rparr>, r4)))))"

definition CommitSig_wf :: "CommitSig \<Rightarrow> bool" where
  "CommitSig_wf c \<longleftrightarrow> length (cs_ChanID c) = 32 \<and> length (cs_CommitSig c) = 64
     \<and> (length (cs_HtlcSigs c) < 2 ^ 16 \<and> (\<forall>s \<in> set (cs_HtlcSigs c). length s = 64))"

subsection \<open>RevokeAndAck\<close>

record 'pk RevokeAndAck =
  raa_ChanID :: ChannelID
  raa_Revocation :: bytes
  raa_NextRevocationKey :: "'pk option"
  raa_ExtraData :: ExtraOpaqueData

definition RevokeAndAck_Encode :: "('pk \<Rightarrow> bytes) \<Rightarrow> 'pk RevokeAndAck \<Rightarrow> wire_error + bytes" where
  "RevokeAndAck_Encode ser c =
     sbind (WritePublicKey ser (raa_NextRevocationKey c)) (\<lambda>x0.
       Inr (WriteChannelID (raa_ChanID c) @ WriteBytes (raa_Revocation c) @ x0
           @ WriteBytes (raa_ExtraData c)))"

definition RevokeAndAck_Decode :: "(bytes \<Rightarrow> 'pk option) \<Rightarrow> 'pk RevokeAndAck reader" where
  "RevokeAndAck_Decode parse r =
     sbind (readChannelID r) (\<lambda>(vChanID, r1).
     sbind (readN 32 r1) (\<lambda>(vRevocation, r2).
     sbind (readPublicKey parse r2) (\<lambda>(vNextRevocationKey, r3).
     sbind (ExtraOpaqueData_Decode r3) (\<lambda>(vExtraData, r4).
       Inr (\<lparr>raa_ChanID = vChanID, raa_Revocation = vRevocation,
             raa_NextRevocationKey = Some vNextRevocationKey, raa_ExtraData = vExtraData\<rparr>, r4)))))"

definition RevokeAndAck_wf :: "'pk RevokeAndAck \<Rightarrow> bool" where
  "RevokeAndAck_wf c \<longleftrightarrow> length (raa_ChanID c) = 32 \<and> length (raa_Revocation c) = 32
     \<and> (raa_NextRevocationKey c) \<noteq> None"

subsection \<open>FundingCreated\<close>

record FundingCreated =
  fc_PendingChannelID :: bytes
  fc_FundingPoint :: WireOutPoint
  fc_CommitSig :: Sig
  fc_ExtraData :: ExtraOpaqueData

definition FundingCreated_Encode :: "FundingCreated \<Rightarrow> wire_error + bytes" where
  "FundingCreated_Encode c =
     sbind (WriteOutPoint (fc_FundingPoint c)) (\<lambda>x0.
       Inr (WriteBytes (fc_PendingChannelID c) @ x0 @ WriteSig (fc_CommitSig c)
           @ WriteBytes (fc_ExtraData c)))"

definition FundingCreated_Decode :: "FundingCreated reader" where
  "FundingCreated_Decode r =
     sbind (readN 32 r) (\<lambda>(vPendingChannelID, r1).
     sbind (readOutPoint r1) (\<lambda>(vFundingPoint, r2).
     sbind (readSig r2) (\<lambda>(vCommitSig, r3).
     sbind (ExtraOpaqueData_Decode r3) (\<lambda>(vExtraData, r4).
       Inr (\<lparr>fc_PendingChannelID = vPendingChannelID, fc_FundingPoint = vFundingPoint,
             fc_CommitSig = vCommitSig, fc_ExtraData = vExtraData\<rparr>, r4)))))"

definition FundingCreated_wf :: "FundingCreated \<Rightarrow> bool" where
  "FundingCreated_wf c \<longleftrightarrow> length (fc_PendingChannelID c) = 32
     \<and> (length (wop_Hash (fc_FundingPoint c)) = 32 \<and> wop_Index (fc_FundingPoint c) < 2 ^ 16)
     \<and> length (fc_CommitSig c) = 64"

subsection \<open>FundingSigned\<close>

record FundingSigned =
  fs_ChanID :: ChannelID
  fs_CommitSig :: Sig
  fs_ExtraData :: ExtraOpaqueData

definition FundingSigned_Encode :: "FundingSigned \<Rightarrow> wire_error + bytes" where
  "FundingSigned_Encode c =
     Inr (WriteChannelID (fs_ChanID c) @ WriteSig (fs_CommitSig c)
           @ WriteBytes (fs_ExtraData c))"

definition FundingSigned_Decode :: "FundingSigned reader" where
  "FundingSigned_Decode r =
     sbind (readChannelID r) (\<lambda>(vChanID, r1).
     sbind (readSig r1) (\<lambda>(vCommitSig, r2).
     sbind (ExtraOpaqueData_Decode r2) (\<lambda>(vExtraData, r3).
       Inr (\<lparr>fs_ChanID = vChanID, fs_CommitSig = vCommitSig, fs_ExtraData = vExtraData\<rparr>, r3))))"

definition FundingSigned_wf :: "FundingSigned \<Rightarrow> bool" where
  "FundingSigned_wf c \<longleftrightarrow> length (fs_ChanID c) = 32 \<and> length (fs_CommitSig c) = 64"

subsection \<open>FundingLocked\<close>

record 'pk FundingLocked =
  fl_ChanID :: ChannelID
  fl_NextPerCommitmentPoint :: "'pk option"
  fl_ExtraData :: ExtraOpaqueData

definition FundingLocked_Encode :: "('pk \<Rightarrow> bytes) \<Rightarrow> 'pk FundingLocked \<Rightarrow> wire_error + bytes" where
  "FundingLocked_Encode ser c =
     sbind (WritePublicKey ser (fl_NextPerCommitmentPoint c)) (\<lambda>x0.
       Inr (WriteChannelID (fl_ChanID c) @ x0 @ WriteBytes (fl_ExtraData c)))"

definition FundingLocked_Decode :: "(bytes \<Rightarrow> 'pk option) \<Rightarrow> 'pk FundingLocked reader" where
  "FundingLocked_Decode parse r =
     sbind (readChannelID r) (\<lambda>(vChanID, r1).
     sbind (readPublicKey parse r1) (\<lambda>(vNextPerCommitmentPoint, r2).
     sbind (ExtraOpaqueData_Decode r2) (\<lambda>(vExtraData, r3).
       Inr (\<lparr>fl_ChanID = vChanID, fl_NextPerCommitmentPoint = Some vNextPerCommitmentPoint,
             fl_ExtraData = vExtraData\<rparr>, r3))))"

definition FundingLocked_wf :: "'pk FundingLocked \<Rightarrow> bool" where
  "FundingLocked_wf c \<longleftrightarrow> length (fl_ChanID c) = 32 \<and> (fl_NextPerCommitmentPoint c) \<noteq> None"

subsection \<open>Shutdown\<close>

record Shutdown =
  sd_ChannelID :: ChannelID
  sd_Address :: bytes
  sd_ExtraData :: ExtraOpaqueData

definition Shutdown_Encode :: "Shutdown \<Rightarrow> wire_error + bytes" where
  "Shutdown_Encode c =
     Inr (WriteChannelID (sd_ChannelID c) @ WriteDeliveryAddress (sd_Address c)
           @ WriteBytes (sd_ExtraData c))"

definition Shutdown_Decode :: "Shutdown reader" where
  "Shutdown_Decode r =
     sbind (readChannelID r) (\<lambda>(vChannelID, r1).
     sbind (readDeliveryAddress r1) (\<lambda>(vAddress, r2).
     sbind (ExtraOpaqueData_Decode r2) (\<lambda>(vExtraData, r3).
       Inr (\<lparr>sd_ChannelID = vChannelID, sd_Address = vAddress, sd_ExtraData = vExtraData\<rparr>, r3))))"

definition Shutdown_wf :: "Shutdown \<Rightarrow> bool" where
  "Shutdown_wf c \<longleftrightarrow> length (sd_ChannelID c) = 32 \<and> length (sd_Address c) \<le> 34"

subsection \<open>ClosingSigned\<close>

record ClosingSigned =
  cls_ChannelID :: ChannelID
  cls_FeeSatoshis :: SatAmount
  cls_Signature :: Sig
  cls_ExtraData :: ExtraOpaqueData

definition ClosingSigned_Encode :: "ClosingSigned \<Rightarrow> wire_error + bytes" where
  "ClosingSigned_Encode c =
     Inr (WriteChannelID (cls_ChannelID c) @ WriteSatoshi (cls_FeeSatoshis c)
           @ WriteSig (cls_Signature c) @ WriteBytes (cls_ExtraData c))"

definition ClosingSigned_Decode :: "ClosingSigned reader" where
  "ClosingSigned_Decode r =
     sbind (readChannelID r) (\<lambda>(vChannelID, r1).
     sbind (readUint64 r1) (\<lambda>(vFeeSatoshis, r2).
     sbind (readSig r2) (\<lambda>(vSignature, r3).
     sbind (ExtraOpaqueData_Decode r3) (\<lambda>(vExtraData, r4).
       Inr (\<lparr>cls_ChannelID = vChannelID, cls_FeeSatoshis = vFeeSatoshis,
             cls_Signature = vSignature, cls_ExtraData = vExtraData\<rparr>, r4)))))"

definition ClosingSigned_wf :: "ClosingSigned \<Rightarrow> bool" where
  "ClosingSigned_wf c \<longleftrightarrow> length (cls_ChannelID c) = 32 \<and> length (cls_Signature c) = 64"

subsection \<open>ObShutdownSimpleSend\<close>

record ObShutdownSimpleSend =
  osd_ChannelID :: ChannelID
  osd_Address :: bytes
  osd_ExtraData :: ExtraOpaqueData

definition ObShutdownSimpleSend_Encode :: "ObShutdownSimpleSend \<Rightarrow> wire_error + bytes" where
  "ObShutdownSimpleSend_Encode c =
     Inr (WriteChannelID (osd_ChannelID c) @ WriteDeliveryAddress (osd_Address c)
           @ WriteBytes (osd_ExtraData c))"

definition ObShutdownSimpleSend_Decode :: "ObShutdownSimpleSend reader" where
  "ObShutdownSimpleSend_Decode r =
     sbind (readChannelID r) (\<lambda>(vChannelID, r1).
     sbind (readDeliveryAddress r1) (\<lambda>(vAddress, r2).
     sbind (ExtraOpaqueData_Decode r2) (\<lambda>(vExtraData, r3).
       Inr (\<lparr>osd_ChannelID = vChannelID, osd_Address = vAddress, osd_ExtraData = vExtraData\<rparr>, r3))))"

definition ObShutdownSimpleSend_wf :: "ObShutdownSimpleSend \<Rightarrow> bool" where
  "ObShutdownSimpleSend_wf c \<longleftrightarrow> length (osd_ChannelID c) = 32 \<and> length (osd_Address c) \<le> 34"

subsection \<open>ObClosingSignedSimpleSend\<close>

record ObClosingSignedSimpleSend =
  ocs_ChannelID :: ChannelID
  ocs_FeeSatoshis :: SatAmount
  ocs_Signatures :: "Sig list"
  ocs_ExtraData :: ExtraOpaqueData
  ocs_SigEnd :: bool

definition ObClosingSignedSimpleSend_Encode :: "ObClosingSignedSimpleSend \<Rightarrow> wire_error + bytes" where
  "ObClosingSignedSimpleSend_Encode c =
     Inr (WriteChannelID (ocs_ChannelID c) @ WriteSatoshi (ocs_FeeSatoshis c)
           @ WriteSigs (ocs_Signatures c) @ WriteBool (ocs_SigEnd c) @ WriteBytes (ocs_ExtraData c))"

definition ObClosingSignedSimpleSend_Decode :: "ObClosingSignedSimpleSend reader" where
  "ObClosingSignedSimpleSend_Decode r =
     sbind (readChannelID r) (\<lambda>(vChannelID, r1).
     sbind (readUint64 r1) (\<lambda>(vFeeSatoshis, r2).
     sbind (readSigs r2) (\<lambda>(vSignatures, r3).
     sbind (readBool r3) (\<lambda>(vSigEnd, r4).
     sbind (ExtraOpaqueData_Decode r4) (\<lambda>(vExtraData, r5).
       Inr (\<lparr>ocs_ChannelID = vChannelID, ocs_FeeSatoshis = vFeeSatoshis, ocs_Signatures = vSignatures,
             ocs_ExtraData = vExtraData, ocs_SigEnd = vSigEnd\<rparr>, r5))))))"

definition ObClosingSignedSimpleSend_wf :: "ObClosingSignedSimpleSend \<Rightarrow> bool" where
  "ObClosingSignedSimpleSend_wf c \<longleftrightarrow> length (ocs_ChannelID c) = 32 \<and> length (ocs_Signatures c) < 2 ^ 16
     \<and> (\<forall>s \<in> set (ocs_Signatures c). length s = 64)"

subsection \<open>AnnounceSignatures\<close>

record AnnounceSignatures =
  as_ChannelID :: ChannelID
  as_ShortChannelID :: ShortChannelID
  as_NodeSignature :: Sig
  as_BitcoinSignature :: Sig
  as_ExtraOpaqueData :: ExtraOpaqueData

definition AnnounceSignatures_Encode :: "AnnounceSignatures \<Rightarrow> wire_error + bytes" where
  "AnnounceSignatures_Encode c =
     sbind (WriteShortChannelID (as_ShortChannelID c)) (\<lambda>x0.
       Inr (WriteChannelID (as_ChannelID c) @ x0 @ WriteSig (as_NodeSignature c)
           @ WriteSig (as_BitcoinSignature c) @ WriteBytes (as_ExtraOpaqueData c)))"

definition AnnounceSignatures_Decode :: "AnnounceSignatures reader" where
  "AnnounceSignatures_Decode r =
     sbind (readChannelID r) (\<lambda>(vChannelID, r1).
     sbind (readShortChannelID r1) (\<lambda>(vShortChannelID, r2).
     sbind (readSig r2) (\<lambda>(vNodeSignature, r3).
     sbind (readSig r3) (\<lambda>(vBitcoinSignature, r4).
     sbind (ExtraOpaqueData_Decode r4) (\<lambda>(vExtraOpaqueData, r5).
       Inr (\<lparr>as_ChannelID = vChannelID, as_ShortChannelID = vShortChannelID,
             as_NodeSignature = vNodeSignature, as_BitcoinSignature = vBitcoinSignature,
             as_ExtraOpaqueData = vExtraOpaqueData\<rparr>, r5))))))"

definition AnnounceSignatures_wf :: "AnnounceSignatures \<Rightarrow> bool" where
  "AnnounceSignatures_wf c \<longleftrightarrow> length (as_ChannelID c) = 32 \<and> scid_wf (as_ShortChannelID c)
     \<and> length (as_NodeSignature c) = 64 \<and> length (as_BitcoinSignature c) = 64"

subsection \<open>GossipTimestampRange\<close>

record GossipTimestampRange =
  gtr_ChainHash :: bytes
  gtr_FirstTimestamp :: u32
  gtr_TimestampRange :: u32
  gtr_ExtraData :: ExtraOpaqueData

definition GossipTimestampRange_Encode :: "GossipTimestampRange \<Rightarrow> wire_error + bytes" where
  "GossipTimestampRange_Encode c =
     Inr (WriteBytes (gtr_ChainHash c) @ WriteUint32 (gtr_FirstTimestamp c)
           @ WriteUint32 (gtr_TimestampRange c) @ WriteBytes (gtr_ExtraData c))"

definition GossipTimestampRange_Decode :: "GossipTimestampRange reader" where
  "GossipTimestampRange_Decode r =
     sbind (readN 32 r) (\<lambda>(vChainHash, r1).
     sbind (readUint32 r1) (\<lambda>(vFirstTimestamp, r2).
     sbind (readUint32 r2) (\<lambda>(vTimestampRange, r3).
     sbind (ExtraOpaqueData_Decode r3) (\<lambda>(vExtraData, r4).
       Inr (\<lparr>gtr_ChainHash = vChainHash, gtr_FirstTimestamp = vFirstTimestamp,
             gtr_TimestampRange = vTimestampRange, gtr_ExtraData = vExtraData\<rparr>, r4)))))"

definition GossipTimestampRange_wf :: "GossipTimestampRange \<Rightarrow> bool" where
  "GossipTimestampRange_wf c \<longleftrightarrow> length (gtr_ChainHash c) = 32"

subsection \<open>ReplyShortChanIDsEnd\<close>

record ReplyShortChanIDsEnd =
  rse_ChainHash :: bytes
  rse_Complete :: u8
  rse_ExtraData :: ExtraOpaqueData

definition ReplyShortChanIDsEnd_Encode :: "ReplyShortChanIDsEnd \<Rightarrow> wire_error + bytes" where
  "ReplyShortChanIDsEnd_Encode c =
     Inr (WriteBytes (rse_ChainHash c) @ WriteUint8 (rse_Complete c)
           @ WriteBytes (rse_ExtraData c))"

definition ReplyShortChanIDsEnd_Decode :: "ReplyShortChanIDsEnd reader" where
  "ReplyShortChanIDsEnd_Decode r =
     sbind (readN 32 r) (\<lambda>(vChainHash, r1).
     sbind (readUint8 r1) (\<lambda>(vComplete, r2).
     sbind (ExtraOpaqueData_Decode r2) (\<lambda>(vExtraData, r3).
       Inr (\<lparr>rse_ChainHash = vChainHash, rse_Complete = vComplete, rse_ExtraData = vExtraData\<rparr>, r3))))"

definition ReplyShortChanIDsEnd_wf :: "ReplyShortChanIDsEnd \<Rightarrow> bool" where
  "ReplyShortChanIDsEnd_wf c \<longleftrightarrow> length (rse_ChainHash c) = 32"

subsection \<open>QueryChannelRange\<close>

record QueryChannelRange =
  qcr_ChainHash :: bytes
  qcr_FirstBlockHeight :: u32
  qcr_NumBlocks :: u32
  qcr_ExtraData :: ExtraOpaqueData

definition QueryChannelRange_Encode :: "QueryChannelRange \<Rightarrow> wire_error + bytes" where
  "QueryChannelRange_Encode c =
     Inr (WriteBytes (qcr_ChainHash c) @ WriteUint32 (qcr_FirstBlockHeight c)
           @ WriteUint32 (qcr_NumBlocks c) @ WriteBytes (qcr_ExtraData c))"

definition QueryChannelRange_Decode :: "QueryChannelRange reader" where
  "QueryChannelRange_Decode r =
     sbind (readN 32 r) (\<lambda>(vChainHash, r1).
     sbind (readUint32 r1) (\<lambda>(vFirstBlockHeight, r2).
     sbind (readUint32 r2) (\<lambda>(vNumBlocks, r3).
     sbind (ExtraOpaqueData_Decode r3) (\<lambda>(vExtraData, r4).
       Inr (\<lparr>qcr_ChainHash = vChainHash, qcr_FirstBlockHeight = vFirstBlockHeight,
             qcr_NumBlocks = vNumBlocks, qcr_ExtraData = vExtraData\<rparr>, r4)))))"

definition QueryChannelRange_wf :: "QueryChannelRange \<Rightarrow> bool" where
  "QueryChannelRange_wf c \<longleftrightarrow> length (qcr_ChainHash c) = 32"

subsection \<open>Error\<close>

record Error =
  er_ChanID :: ChannelID
  er_Data :: bytes

definition Error_Encode :: "Error \<Rightarrow> wire_error + bytes" where
  "Error_Encode c =
     Inr (WriteChannelID (er_ChanID c) @ WriteErrorData (er_Data c))"

definition Error_Decode :: "Error reader" where
  "Error_Decode r =
     sbind (readChannelID r) (\<lambda>(vChanID, r1).
     sbind (readDataWithLength r1) (\<lambda>(vData, r2).
       Inr (\<lparr>er_ChanID = vChanID, er_Data = vData\<rparr>, r2)))"

definition Error_wf :: "Error \<Rightarrow> bool" where
  "Error_wf c \<longleftrightarrow> length (er_ChanID c) = 32 \<and> length (er_Data c) < 2 ^ 16"

subsection \<open>Pong\<close>

record Pong =
  po_PongBytes :: bytes

definition Pong_Encode :: "Pong \<Rightarrow> wire_error + bytes" where
  "Pong_Encode c =
     Inr (WritePongPayload (po_PongBytes c))"

definition Pong_Decode :: "Pong reader" where
  "Pong_Decode r =
     sbind (readDataWithLength r) (\<lambda>(vPongBytes, r1).
       Inr (\<lparr>po_PongBytes = vPongBytes\<rparr>, r1))"

definition Pong_wf :: "Pong \<Rightarrow> bool" where
  "Pong_wf c \<longleftrightarrow> length (po_PongBytes c) < 2 ^ 16"

subsection \<open>UpdateFee\<close>

text \<open>The field \<open>AssetID\<close> is not part of the encoding.\<close>

record UpdateFee =
  uf_ChanID :: ChannelID
  uf_AssetID :: u32
  uf_FeePerKw :: u32
  uf_ExtraData :: ExtraOpaqueData

definition UpdateFee_Encode :: "UpdateFee \<Rightarrow> wire_error + bytes" where
  "UpdateFee_Encode c =
     Inr (WriteChannelID (uf_ChanID c) @ WriteUint32 (uf_FeePerKw c) @ WriteBytes (uf_ExtraData c))"

definition UpdateFee_Decode :: "UpdateFee reader" where
  "UpdateFee_Decode r =
     sbind (readChannelID r) (\<lambda>(vChanID, r1).
     sbind (readUint32 r1) (\<lambda>(vFeePerKw, r2).
     sbind (ExtraOpaqueData_Decode r2) (\<lambda>(vExtraData, r3).
       Inr (\<lparr>uf_ChanID = vChanID, uf_AssetID = 0, uf_FeePerKw = vFeePerKw,
             uf_ExtraData = vExtraData\<rparr>, r3))))"

subsection \<open>Ping\<close>

definition MaxPongBytes :: u16 where
  "MaxPongBytes = 65531"

record Ping =
  pi_NumPongBytes :: u16
  pi_PaddingBytes :: bytes

definition Ping_Encode :: "Ping \<Rightarrow> wire_error + bytes" where
  "Ping_Encode p = Inr (WriteUint16 (pi_NumPongBytes p) @ WritePingPayload (pi_PaddingBytes p))"

definition Ping_Decode :: "Ping reader" where
  "Ping_Decode r =
     sbind (readUint16 r) (\<lambda>(n, r1).
     sbind (readDataWithLength r1) (\<lambda>(padding, r2).
       if n > MaxPongBytes then Inl ErrMaxPongBytesExceeded
       else Inr (\<lparr>pi_NumPongBytes = n, pi_PaddingBytes = padding\<rparr>, r2)))"

definition Ping_wf :: "Ping \<Rightarrow> bool" where
  "Ping_wf p \<longleftrightarrow> pi_NumPongBytes p \<le> MaxPongBytes \<and> length (pi_PaddingBytes p) < 2 ^ 16"

subsection \<open>ChannelReestablish\<close>

record 'pk ChannelReestablish =
  cr_ChanID :: ChannelID
  cr_NextLocalCommitHeight :: u64
  cr_RemoteCommitTailHeight :: u64
  cr_LastRemoteCommitSecret :: bytes
  cr_LocalUnrevokedCommitPoint :: "'pk option"
  cr_ExtraData :: ExtraOpaqueData

definition ChannelReestablish_Encode ::
    "('pk \<Rightarrow> bytes) \<Rightarrow> 'pk ChannelReestablish \<Rightarrow> wire_error + bytes" where
  "ChannelReestablish_Encode ser a =
     (let start = WriteChannelID (cr_ChanID a) @ WriteUint64 (cr_NextLocalCommitHeight a)
                  @ WriteUint64 (cr_RemoteCommitTailHeight a)
      in if cr_LocalUnrevokedCommitPoint a = None then Inr (start @ WriteBytes (cr_ExtraData a))
         else sbind (WritePublicKey ser (cr_LocalUnrevokedCommitPoint a)) (\<lambda>point.
                Inr (start @ WriteBytes (cr_LastRemoteCommitSecret a) @ point
                     @ WriteBytes (cr_ExtraData a))))"

definition ChannelReestablish_Decode ::
    "(bytes \<Rightarrow> 'pk option) \<Rightarrow> 'pk ChannelReestablish reader" where
  "ChannelReestablish_Decode parse r =
     sbind (readChannelID r) (\<lambda>(vChanID, r1).
     sbind (readUint64 r1) (\<lambda>(vNext, r2).
     sbind (readUint64 r2) (\<lambda>(vTail, r3).
       (case readN 32 r3 of
          Inl (ReadError EOF) \<Rightarrow>
            Inr (\<lparr>cr_ChanID = vChanID, cr_NextLocalCommitHeight = vNext,
                  cr_RemoteCommitTailHeight = vTail, cr_LastRemoteCommitSecret = replicate 32 0,
                  cr_LocalUnrevokedCommitPoint = None, cr_ExtraData = []\<rparr>, r3)
        | Inl e \<Rightarrow> Inl e
        | Inr (secret, r4) \<Rightarrow>
            sbind (readPublicKey parse r4) (\<lambda>(point, r5).
            sbind (ExtraOpaqueData_Decode r5) (\<lambda>(vExtraData, r6).
              Inr (\<lparr>cr_ChanID = vChanID, cr_NextLocalCommitHeight = vNext,
                    cr_RemoteCommitTailHeight = vTail, cr_LastRemoteCommitSecret = secret,
                    cr_LocalUnrevokedCommitPoint = Some point, cr_ExtraData = vExtraData\<rparr>, r6)))))))"

text \<open>
  Without a commitment point the optional fields are absent: such a message is well formed only
  when its secret is zero and it carries no extra data.
\<close>

definition ChannelReestablish_wf :: "'pk ChannelReestablish \<Rightarrow> bool" where
  "ChannelReestablish_wf a \<longleftrightarrow> length (cr_ChanID a) = 32 \<and> length (cr_LastRemoteCommitSecret a) = 32
     \<and> (cr_LocalUnrevokedCommitPoint a = None
        \<longrightarrow> cr_LastRemoteCommitSecret a = replicate 32 0 \<and> cr_ExtraData a = [])"

definition LastBlockHeight :: "QueryChannelRange \<Rightarrow> u32" where
  "LastBlockHeight q =
     (let lastBlockHeight = (ucast (qcr_FirstBlockHeight q) :: u64) + ucast (qcr_NumBlocks q) - 1
      in if lastBlockHeight > 0xFFFFFFFF then 0xFFFFFFFF else ucast lastBlockHeight)"

section \<open>The contract of a message\<close>

text \<open>What a peer relies on: decoding what \<open>Encode\<close> wrote gives the message back, and nothing is left.\<close>

locale wire_message =
  fixes Encode :: "'m \<Rightarrow> wire_error + bytes" and Decode :: "'m reader" and wf :: "'m \<Rightarrow> bool"
  assumes encode_decode: "wf m \<Longrightarrow> \<exists>bs. Encode m = Inr bs \<and> Decode bs = Inr (m, [])"
begin

lemma encode_ok: "wf m \<Longrightarrow> is_ok (Encode m)"
  using encode_decode [of m] by auto

lemma encode_inj: "wf m \<Longrightarrow> wf m' \<Longrightarrow> Encode m = Encode m' \<Longrightarrow> m = m'"
  using encode_decode [of m] encode_decode [of m'] by (metis Pair_inject sum.inject(2))

end

lemma extra_last [wire_simps]: "ExtraOpaqueData_Decode (WriteBytes x) = Inr (x, [])"
  by (simp add: ExtraOpaqueData_Decode_def WriteBytes_def)

lemma data_last [wire_simps]: "length d < 2 ^ 16 \<Longrightarrow> readDataWithLength (writeDataWithLength d) = Inr (d, [])"
  using el_data.get_put [of d "[]"] by simp

lemmas data_writers = WriteOpaqueReason_def WriteErrorData_def WritePongPayload_def WritePingPayload_def
  WriteSatoshi_def WriteFailCode_def

lemma onion_bytes [wire_simps]:
  "length b = OnionPacketSize \<Longrightarrow> readN OnionPacketSize (WriteBytes b @ rest) = Inr (b, rest)"
  by (rule el_bytes.get_put)

interpretation msg_UpdateAddHTLC: wire_message UpdateAddHTLC_Encode UpdateAddHTLC_Decode UpdateAddHTLC_wf
  by unfold_locales
    (simp add: UpdateAddHTLC_Encode_def UpdateAddHTLC_Decode_def UpdateAddHTLC_wf_def data_writers element_simps wire_simps)

interpretation msg_UpdateFulfillHTLC: wire_message UpdateFulfillHTLC_Encode UpdateFulfillHTLC_Decode UpdateFulfillHTLC_wf
  by unfold_locales
    (simp add: UpdateFulfillHTLC_Encode_def UpdateFulfillHTLC_Decode_def UpdateFulfillHTLC_wf_def data_writers element_simps wire_simps)

interpretation msg_UpdateFailHTLC: wire_message UpdateFailHTLC_Encode UpdateFailHTLC_Decode UpdateFailHTLC_wf
  by unfold_locales
    (simp add: UpdateFailHTLC_Encode_def UpdateFailHTLC_Decode_def UpdateFailHTLC_wf_def data_writers element_simps wire_simps)

interpretation msg_UpdateFailMalformedHTLC: wire_message UpdateFailMalformedHTLC_Encode UpdateFailMalformedHTLC_Decode UpdateFailMalformedHTLC_wf
  by unfold_locales
    (simp add: UpdateFailMalformedHTLC_Encode_def UpdateFailMalformedHTLC_Decode_def UpdateFailMalformedHTLC_wf_def data_writers element_simps wire_simps)

interpretation msg_CommitSig: wire_message CommitSig_Encode CommitSig_Decode CommitSig_wf
  by unfold_locales
    (simp add: CommitSig_Encode_def CommitSig_Decode_def CommitSig_wf_def data_writers element_simps wire_simps)

interpretation msg_FundingSigned: wire_message FundingSigned_Encode FundingSigned_Decode FundingSigned_wf
  by unfold_locales
    (simp add: FundingSigned_Encode_def FundingSigned_Decode_def FundingSigned_wf_def data_writers element_simps wire_simps)

interpretation msg_Shutdown: wire_message Shutdown_Encode Shutdown_Decode Shutdown_wf
  by unfold_locales
    (simp add: Shutdown_Encode_def Shutdown_Decode_def Shutdown_wf_def data_writers element_simps wire_simps)

interpretation msg_ClosingSigned: wire_message ClosingSigned_Encode ClosingSigned_Decode ClosingSigned_wf
  by unfold_locales
    (simp add: ClosingSigned_Encode_def ClosingSigned_Decode_def ClosingSigned_wf_def data_writers element_simps wire_simps)

interpretation msg_ObShutdownSimpleSend: wire_message ObShutdownSimpleSend_Encode ObShutdownSimpleSend_Decode ObShutdownSimpleSend_wf
  by unfold_locales
    (simp add: ObShutdownSimpleSend_Encode_def ObShutdownSimpleSend_Decode_def ObShutdownSimpleSend_wf_def data_writers element_simps wire_simps)

interpretation msg_ObClosingSignedSimpleSend: wire_message ObClosingSignedSimpleSend_Encode ObClosingSignedSimpleSend_Decode ObClosingSignedSimpleSend_wf
  by unfold_locales
    (simp add: ObClosingSignedSimpleSend_Encode_def ObClosingSignedSimpleSend_Decode_def ObClosingSignedSimpleSend_wf_def data_writers element_simps wire_simps)

interpretation msg_GossipTimestampRange: wire_message GossipTimestampRange_Encode GossipTimestampRange_Decode GossipTimestampRange_wf
  by unfold_locales
    (simp add: GossipTimestampRange_Encode_def GossipTimestampRange_Decode_def GossipTimestampRange_wf_def data_writers element_simps wire_simps)

interpretation msg_ReplyShortChanIDsEnd: wire_message ReplyShortChanIDsEnd_Encode ReplyShortChanIDsEnd_Decode ReplyShortChanIDsEnd_wf
  by unfold_locales
    (simp add: ReplyShortChanIDsEnd_Encode_def ReplyShortChanIDsEnd_Decode_def ReplyShortChanIDsEnd_wf_def data_writers element_simps wire_simps)

interpretation msg_QueryChannelRange: wire_message QueryChannelRange_Encode QueryChannelRange_Decode QueryChannelRange_wf
  by unfold_locales
    (simp add: QueryChannelRange_Encode_def QueryChannelRange_Decode_def QueryChannelRange_wf_def data_writers element_simps wire_simps)

interpretation msg_Error: wire_message Error_Encode Error_Decode Error_wf
  by unfold_locales
    (simp add: Error_Encode_def Error_Decode_def Error_wf_def data_writers element_simps wire_simps)

interpretation msg_Pong: wire_message Pong_Encode Pong_Decode Pong_wf
  by unfold_locales
    (simp add: Pong_Encode_def Pong_Decode_def Pong_wf_def data_writers element_simps wire_simps)

interpretation msg_Ping: wire_message Ping_Encode Ping_Decode Ping_wf
  by unfold_locales
    (simp add: Ping_Encode_def Ping_Decode_def Ping_wf_def data_writers element_simps wire_simps not_less)

interpretation msg_UpdateFee: wire_message UpdateFee_Encode UpdateFee_Decode
    "\<lambda>c. length (uf_ChanID c) = 32 \<and> uf_AssetID c = 0"
  by unfold_locales (simp add: UpdateFee_Encode_def UpdateFee_Decode_def element_simps wire_simps)

interpretation msg_FundingCreated: wire_message FundingCreated_Encode FundingCreated_Decode FundingCreated_wf
proof
  fix m assume wf: "FundingCreated_wf m"
  then obtain bs where "WriteOutPoint (fc_FundingPoint m) = Inr bs" "\<And>rest. readOutPoint (bs @ rest) = Inr (fc_FundingPoint m, rest)"
    using el_outpoint.put_get [of "fc_FundingPoint m"] by (auto simp: FundingCreated_wf_def)
  with wf show "\<exists>bs. FundingCreated_Encode m = Inr bs \<and> FundingCreated_Decode bs = Inr (m, [])"
    by (simp add: FundingCreated_Encode_def FundingCreated_Decode_def FundingCreated_wf_def element_simps wire_simps)
qed

interpretation msg_AnnounceSignatures: wire_message AnnounceSignatures_Encode AnnounceSignatures_Decode AnnounceSignatures_wf
proof
  fix m assume wf: "AnnounceSignatures_wf m"
  then obtain bs where "WriteShortChannelID (as_ShortChannelID m) = Inr bs"
      "\<And>rest. readShortChannelID (bs @ rest) = Inr (as_ShortChannelID m, rest)"
    using el_scid.put_get [of "as_ShortChannelID m"] by (auto simp: AnnounceSignatures_wf_def)
  with wf show "\<exists>bs. AnnounceSignatures_Encode m = Inr bs \<and> AnnounceSignatures_Decode bs = Inr (m, [])"
    by (simp add: AnnounceSignatures_Encode_def AnnounceSignatures_Decode_def AnnounceSignatures_wf_def
        element_simps wire_simps)
qed

text \<open>Messages with a public key, for any key package that parses what it serialises.\<close>

lemma RevokeAndAck_roundtrip:
  assumes "key_codec ser parse" and "RevokeAndAck_wf m"
  shows "\<exists>bs. RevokeAndAck_Encode ser m = Inr bs \<and> RevokeAndAck_Decode parse bs = Inr (m, [])"
  using assms
  by (auto simp: RevokeAndAck_Encode_def RevokeAndAck_Decode_def RevokeAndAck_wf_def WritePublicKey_def
      element_simps wire_simps)

lemma FundingLocked_roundtrip:
  assumes "key_codec ser parse" and "FundingLocked_wf m"
  shows "\<exists>bs. FundingLocked_Encode ser m = Inr bs \<and> FundingLocked_Decode parse bs = Inr (m, [])"
  using assms
  by (auto simp: FundingLocked_Encode_def FundingLocked_Decode_def FundingLocked_wf_def WritePublicKey_def
      element_simps wire_simps)

lemma ChannelReestablish_roundtrip:
  assumes "key_codec ser parse" and wf: "ChannelReestablish_wf m"
  shows "\<exists>bs. ChannelReestablish_Encode ser m = Inr bs \<and> ChannelReestablish_Decode parse bs = Inr (m, [])"
proof (cases "cr_LocalUnrevokedCommitPoint m")
  case None
  have "readUint64 (WriteUint64 h) = Inr (h, [])" for h using el_u64.get_put [of h "[]"] by simp
  moreover have "readN 32 [] = Inl (ReadError EOF)" by (simp add: readN_def read_full_def)
  ultimately show ?thesis
    using wf None
    by (simp add: ChannelReestablish_Encode_def ChannelReestablish_Decode_def ChannelReestablish_wf_def
        WriteBytes_def element_simps wire_simps)
next
  case (Some k)
  then show ?thesis
    using assms el_bytes.get_put [of _ 32]
    by (simp add: ChannelReestablish_Encode_def ChannelReestablish_Decode_def ChannelReestablish_wf_def
        WritePublicKey_def element_simps wire_simps)
qed

end
