(* ===== verification/Channel_Ops.thy ===== *)
theory Channel_Ops
  imports View_Conservation Lnwire_Messages Sha256
begin

text \<open>
  The operations of the channel state machine that add updates to the logs
  (\<open>src/oblnd/lnwallet/channel.go\<close>): the checks of a commitment against the channel constraints,
  the offer, settlement and failure of HTLCs by either party, fee updates, the available balance,
  and the questions whether a commitment is owed. An operation that succeeds returns the new
  channel; one that fails leaves the channel as it is.
\<close>

section \<open>The model\<close>

subsection \<open>Commitment sanity\<close>

fun validateUpdatesLoop ::
    "ChannelConstraints \<Rightarrow> (nat \<times> PaymentDescriptor) list \<Rightarrow> u16 \<Rightarrow> UnitPrec11
       \<Rightarrow> channel_error + u16 \<times> UnitPrec11" where
  "validateUpdatesLoop constraints [] numInFlight amtInFlight = Inr (numInFlight, amtInFlight)"
| "validateUpdatesLoop constraints ((e, entry) # es) numInFlight amtInFlight =
     (if EntryType entry = Add then
        (if GetMsgAmt entry = 0 then Inl ErrInvalidHTLCAmt
         else if GetMsgAmt entry < MinHTLC constraints then Inl ErrBelowMinHTLC
         else validateUpdatesLoop constraints es (numInFlight + 1) (amtInFlight + GetMsgAmt entry))
      else validateUpdatesLoop constraints es numInFlight amtInFlight)"

definition validateUpdates ::
    "(nat \<times> PaymentDescriptor) list \<Rightarrow> ChannelConstraints \<Rightarrow> channel_error + unit" where
  "validateUpdates updates constraints =
     sbind (validateUpdatesLoop constraints updates 0 0) (\<lambda>(numInFlight, amtInFlight).
       if amtInFlight > MaxPendingAmount constraints then Inl ErrMaxPendingAmount
       else if numInFlight > MaxAcceptedHtlcs constraints then Inl ErrMaxHTLCNumber
       else Inr ())"

text \<open>The view of the validation: the logs below the indexes, and the predicted HTLCs.\<close>

definition predictView ::
    "LightningChannel \<Rightarrow> u64 \<Rightarrow> u64 \<Rightarrow> PaymentDescriptor option \<Rightarrow> PaymentDescriptor option \<Rightarrow> htlcView" where
  "predictView lc theirLogCounter ourLogCounter predictOurAdd predictTheirAdd =
     (let view = fetchHTLCView lc theirLogCounter ourLogCounter
      in view\<lparr>ourUpdates := ourUpdates view @
                (case predictOurAdd of None \<Rightarrow> [] | Some pd \<Rightarrow> [(nextElem (localUpdateLog lc), pd)]),
              theirUpdates := theirUpdates view @
                (case predictTheirAdd of None \<Rightarrow> [] | Some pd \<Rightarrow> [(nextElem (remoteUpdateLog lc), pd)])\<rparr>)"

text \<open>
  The guards at the top of \<open>validateCommitmentSanity\<close>: the result is an early return, if there is
  one. \<open>omnicore.Amount\<close> is signed, so \<open>AssetAmount > 0\<close> is a signed comparison.
\<close>

definition sanityGuards ::
    "PaymentDescriptor option \<Rightarrow> PaymentDescriptor option \<Rightarrow> (channel_error + unit) option" where
  "sanityGuards predictOurAdd predictTheirAdd =
     (if (case predictOurAdd of None \<Rightarrow> False
          | Some pd \<Rightarrow> i64_less 0 (AssetAmount pd) \<and> AssetID pd = BtcAssetId)
      then Some (Inl MissingAssetID)
      else if (case predictOurAdd of None \<Rightarrow> False | Some pd \<Rightarrow> AssetID pd \<noteq> BtcAssetId) then Some (Inr ())
      else if (case predictTheirAdd of None \<Rightarrow> False | Some pd \<Rightarrow> AssetID pd \<noteq> BtcAssetId) then Some (Inr ())
      else if (case predictTheirAdd of None \<Rightarrow> False
               | Some pd \<Rightarrow> i64_less 0 (AssetAmount pd) \<and> AssetID pd = BtcAssetId)
      then Some (Inl MissingAssetID)
      else None)"

definition subtractFee :: "OpenChannel \<Rightarrow> MilliSatoshi \<Rightarrow> balances \<Rightarrow> balances" where
  "subtractFee cs commitFeeMsat b =
     (if IsInitiator cs then b\<lparr>ourBtc := ourBtc b - commitFeeMsat\<rparr>
      else b\<lparr>theirBtc := theirBtc b - commitFeeMsat\<rparr>)"

definition checkReserves :: "LightningChannel \<Rightarrow> bool \<Rightarrow> balances \<Rightarrow> channel_error + unit" where
  "checkReserves lc remoteChain b =
     (let cs = channelState lc;
          c = tip (chainOf lc remoteChain);
          isBtc = (cs_AssetID cs = BtcAssetId);
          ourInitialBalance = (if isBtc then ourBtcBalance c else ourAssetBalance c);
          theirInitialBalance = (if isBtc then theirBtcBalance c else theirAssetBalance c);
          ourAmt = (if isBtc then ourBtc b else ourAsset b);
          theirAmt = (if isBtc then theirBtc b else theirAsset b);
          ourReserve = (if isBtc then UnitPrec8_ToMsat (ChanReserve (LocalChanCfg cs))
                        else ChanReserve (LocalChanCfg cs));
          theirReserve = (if isBtc then UnitPrec8_ToMsat (ChanReserve (RemoteChanCfg cs))
                          else ChanReserve (RemoteChanCfg cs))
      in if ourAmt < ourInitialBalance \<and> ourAmt < ourReserve then Inl ErrBelowChanReserve
         else if theirAmt < theirInitialBalance \<and> theirAmt < theirReserve then Inl ErrBelowChanReserve
         else Inr ())"

definition validateCommitmentSanity ::
    "LightningChannel \<Rightarrow> u64 \<Rightarrow> u64 \<Rightarrow> bool \<Rightarrow> PaymentDescriptor option \<Rightarrow> PaymentDescriptor option
       \<Rightarrow> channel_error + unit" where
  "validateCommitmentSanity lc theirLogCounter ourLogCounter remoteChain predictOurAdd predictTheirAdd =
     (case sanityGuards predictOurAdd predictTheirAdd of
        Some r \<Rightarrow> r
      | None \<Rightarrow>
          sbind (snd (computeView lc
                   (predictView lc theirLogCounter ourLogCounter predictOurAdd predictTheirAdd)
                   remoteChain False))
            (\<lambda>(b0, commitWeight, filteredView).
               let rate = v_feePerKw filteredView;
                   commitFeeMsat = NewMSatFromSatoshis (FeeForWeight rate commitWeight);
                   b = subtractFee (channelState lc) commitFeeMsat b0
               in if i64_less (ourBtc b) 0 then Inl ErrBelowChanReserve
                  else if i64_less (theirBtc b) 0 then Inl ErrBelowChanReserve
                  else if i64_less rate FeePerKwFloor then Inl (FeeBelowFloor rate)
                  else
                    sbind (checkReserves lc remoteChain b) (\<lambda>_.
                    sbind (validateUpdates (theirUpdates filteredView) (RemoteChanCfg (channelState lc))) (\<lambda>_.
                      validateUpdates (ourUpdates filteredView) (LocalChanCfg (channelState lc))))))"

subsection \<open>Offering HTLCs\<close>

definition SetAmtFromMsgHtlc :: "PaymentDescriptor \<Rightarrow> UpdateAddHTLC \<Rightarrow> PaymentDescriptor" where
  "SetAmtFromMsgHtlc pd htlc =
     (let pd1 = pd\<lparr>AssetID := uah_AssetID htlc\<rparr>
      in if uah_AssetID htlc = BtcAssetId then pd1\<lparr>BtcAmount := uah_Amount htlc\<rparr>
         else pd1\<lparr>AssetAmount := uah_Amount htlc, BtcAmount := NewMSatFromSatoshis (OmniGas * 3)\<rparr>)"

definition SetAmtFromHtlcMsg :: "PaymentDescriptor \<Rightarrow> UpdateAddHTLC \<Rightarrow> PaymentDescriptor" where
  "SetAmtFromHtlcMsg pd htlc =
     (if uah_AssetID htlc = BtcAssetId then pd\<lparr>BtcAmount := uah_Amount htlc\<rparr>
      else pd\<lparr>AssetAmount := uah_Amount htlc, BtcAmount := NewMSatFromSatoshis (OmniGas * 3)\<rparr>)"

definition htlcAddDescriptor :: "LightningChannel \<Rightarrow> UpdateAddHTLC \<Rightarrow> CircuitKey option \<Rightarrow> PaymentDescriptor" where
  "htlcAddDescriptor lc htlc openKey =
     SetAmtFromMsgHtlc
       (zeroPD\<lparr>EntryType := Add, RHash := uah_PaymentHash htlc, Timeout := uah_Expiry htlc,
               AssetID := uah_AssetID htlc, LogIndex := logIndex (localUpdateLog lc),
               HtlcIndex := htlcCounter (localUpdateLog lc), OnionBlob := uah_OnionBlob htlc,
               OpenCircuitKey := openKey\<rparr>) htlc"

definition validateAddHtlc :: "LightningChannel \<Rightarrow> PaymentDescriptor \<Rightarrow> channel_error + unit" where
  "validateAddHtlc lc pd =
     (if AssetID pd > BtcAssetId then Inr ()
      else if i64_less 0 (AssetAmount pd) \<and> AssetID pd = BtcAssetId then Inl MissingAssetID
      else
        (let remoteACKedIndex = theirMessageIndex (tail (localCommitChain lc))
         in sbind (validateCommitmentSanity lc remoteACKedIndex (logIndex (localUpdateLog lc)) True (Some pd) None) (\<lambda>_.
              validateCommitmentSanity lc (logIndex (remoteUpdateLog lc)) (logIndex (localUpdateLog lc))
                False (Some pd) None)))"

definition AddHTLC ::
    "LightningChannel \<Rightarrow> UpdateAddHTLC \<Rightarrow> CircuitKey option \<Rightarrow> channel_error + LightningChannel \<times> u64" where
  "AddHTLC lc htlc openKey =
     (let pd = htlcAddDescriptor lc htlc openKey
      in sbind (validateAddHtlc lc pd) (\<lambda>_.
           Inr (lc\<lparr>localUpdateLog := appendHtlc (localUpdateLog lc) pd\<rparr>, HtlcIndex pd)))"

definition MayAddOutgoingHtlc :: "LightningChannel \<Rightarrow> UnitPrec11 \<Rightarrow> channel_error + unit" where
  "MayAddOutgoingHtlc lc amt =
     (let mockHtlcAmt = (if amt \<noteq> 0 then amt
                         else if MinHTLC (LocalChanCfg (channelState lc)) \<noteq> 0
                         then MinHTLC (LocalChanCfg (channelState lc))
                         else 1);
          mock = \<lparr>uah_ChanID = replicate 32 0, uah_ID = 0, uah_AssetID = cs_AssetID (channelState lc),
                  uah_Amount = mockHtlcAmt, uah_PaymentHash = replicate 32 0, uah_Expiry = 0,
                  uah_OnionBlob = replicate OnionPacketSize 0, uah_ExtraData = []\<rparr>;
          zeroKey = \<lparr>ck_ChanID = \<lparr>BlockHeight = 0, TxIndex = 0, TxPosition = 0\<rparr>, ck_HtlcID = 0\<rparr>
      in validateAddHtlc lc (htlcAddDescriptor lc mock (Some zeroKey)))"

definition receivedDescriptor :: "LightningChannel \<Rightarrow> UpdateAddHTLC \<Rightarrow> PaymentDescriptor" where
  "receivedDescriptor lc htlc =
     SetAmtFromMsgHtlc
       (zeroPD\<lparr>EntryType := Add, RHash := uah_PaymentHash htlc, Timeout := uah_Expiry htlc,
               AssetID := uah_AssetID htlc, LogIndex := logIndex (remoteUpdateLog lc),
               HtlcIndex := htlcCounter (remoteUpdateLog lc), OnionBlob := uah_OnionBlob htlc\<rparr>) htlc"

definition ReceiveHTLC :: "LightningChannel \<Rightarrow> UpdateAddHTLC \<Rightarrow> channel_error + LightningChannel \<times> u64" where
  "ReceiveHTLC lc htlc =
     (if uah_ID htlc \<noteq> htlcCounter (remoteUpdateLog lc)
      then Inl (HtlcIdMismatch (uah_ID htlc) (htlcCounter (remoteUpdateLog lc)))
      else
        (let pd = receivedDescriptor lc htlc;
             localACKedIndex = ourMessageIndex (tail (remoteCommitChain lc))
         in sbind (validateCommitmentSanity lc (logIndex (remoteUpdateLog lc)) localACKedIndex False None (Some pd)) (\<lambda>_.
              Inr (lc\<lparr>remoteUpdateLog := appendHtlc (remoteUpdateLog lc) pd\<rparr>, HtlcIndex pd))))"

subsection \<open>Settling and failing HTLCs\<close>

definition SettleHTLC ::
    "LightningChannel \<Rightarrow> bytes \<Rightarrow> u64 \<Rightarrow> AddRef option \<Rightarrow> SettleFailRef option \<Rightarrow> CircuitKey option
       \<Rightarrow> channel_error + LightningChannel" where
  "SettleHTLC lc preimage hIndex sourceRef destRef closeKey =
     (case lookupHtlc (remoteUpdateLog lc) hIndex of
        None \<Rightarrow> Inl (ErrUnknownHtlcIndex (ShortChanID (channelState lc)) hIndex)
      | Some htlc \<Rightarrow>
          if htlcHasModification (remoteUpdateLog lc) hIndex
          then Inl (ErrHtlcIndexAlreadySettled hIndex)
          else if RHash htlc \<noteq> sha256 preimage then Inl (ErrInvalidSettlePreimage preimage (RHash htlc))
          else
            (let pd = zeroPD\<lparr>AssetID := AssetID htlc, AssetAmount := AssetAmount htlc,
                             BtcAmount := BtcAmount htlc, RPreimage := preimage,
                             LogIndex := logIndex (localUpdateLog lc), ParentIndex := hIndex,
                             EntryType := Settle, SourceRef := sourceRef, DestRef := destRef,
                             ClosedCircuitKey := closeKey\<rparr>
             in Inr (lc\<lparr>localUpdateLog := appendUpdate (localUpdateLog lc) pd,
                        remoteUpdateLog := markHtlcModified (remoteUpdateLog lc) hIndex\<rparr>)))"

definition ReceiveHTLCSettle :: "LightningChannel \<Rightarrow> bytes \<Rightarrow> u64 \<Rightarrow> channel_error + LightningChannel" where
  "ReceiveHTLCSettle lc preimage hIndex =
     (case lookupHtlc (localUpdateLog lc) hIndex of
        None \<Rightarrow> Inl (ErrUnknownHtlcIndex (ShortChanID (channelState lc)) hIndex)
      | Some htlc \<Rightarrow>
          if htlcHasModification (localUpdateLog lc) hIndex
          then Inl (ErrHtlcIndexAlreadySettled hIndex)
          else if RHash htlc \<noteq> sha256 preimage then Inl (ErrInvalidSettlePreimage preimage (RHash htlc))
          else
            (let pd = zeroPD\<lparr>AssetID := AssetID htlc, AssetAmount := AssetAmount htlc,
                             BtcAmount := BtcAmount htlc, RPreimage := preimage,
                             ParentIndex := HtlcIndex htlc, RHash := RHash htlc,
                             LogIndex := logIndex (remoteUpdateLog lc), EntryType := Settle\<rparr>
             in Inr (lc\<lparr>remoteUpdateLog := appendUpdate (remoteUpdateLog lc) pd,
                        localUpdateLog := markHtlcModified (localUpdateLog lc) hIndex\<rparr>)))"

definition FailHTLC ::
    "LightningChannel \<Rightarrow> u64 \<Rightarrow> bytes \<Rightarrow> AddRef option \<Rightarrow> SettleFailRef option \<Rightarrow> CircuitKey option
       \<Rightarrow> channel_error + LightningChannel" where
  "FailHTLC lc hIndex reason sourceRef destRef closeKey =
     (case lookupHtlc (remoteUpdateLog lc) hIndex of
        None \<Rightarrow> Inl (ErrUnknownHtlcIndex (ShortChanID (channelState lc)) hIndex)
      | Some htlc \<Rightarrow>
          if htlcHasModification (remoteUpdateLog lc) hIndex
          then Inl (ErrHtlcIndexAlreadyFailed hIndex)
          else
            (let pd = zeroPD\<lparr>AssetID := AssetID htlc, AssetAmount := AssetAmount htlc,
                             BtcAmount := BtcAmount htlc, RHash := RHash htlc, ParentIndex := hIndex,
                             LogIndex := logIndex (localUpdateLog lc), EntryType := Fail,
                             FailReason := reason, SourceRef := sourceRef, DestRef := destRef,
                             ClosedCircuitKey := closeKey\<rparr>
             in Inr (lc\<lparr>localUpdateLog := appendUpdate (localUpdateLog lc) pd,
                        remoteUpdateLog := markHtlcModified (remoteUpdateLog lc) hIndex\<rparr>)))"

definition MalformedFailHTLC ::
    "LightningChannel \<Rightarrow> u64 \<Rightarrow> u16 \<Rightarrow> bytes \<Rightarrow> AddRef option \<Rightarrow> channel_error + LightningChannel" where
  "MalformedFailHTLC lc hIndex failCode shaOnionBlob sourceRef =
     (case lookupHtlc (remoteUpdateLog lc) hIndex of
        None \<Rightarrow> Inl (ErrUnknownHtlcIndex (ShortChanID (channelState lc)) hIndex)
      | Some htlc \<Rightarrow>
          if htlcHasModification (remoteUpdateLog lc) hIndex
          then Inl (ErrHtlcIndexAlreadyFailed hIndex)
          else
            (let pd = zeroPD\<lparr>AssetID := AssetID htlc, AssetAmount := AssetAmount htlc,
                             BtcAmount := BtcAmount htlc, RHash := RHash htlc, ParentIndex := hIndex,
                             LogIndex := logIndex (localUpdateLog lc), EntryType := MalformedFail,
                             FailCode := failCode, ShaOnionBlob := shaOnionBlob, SourceRef := sourceRef\<rparr>
             in Inr (lc\<lparr>localUpdateLog := appendUpdate (localUpdateLog lc) pd,
                        remoteUpdateLog := markHtlcModified (remoteUpdateLog lc) hIndex\<rparr>)))"

definition ReceiveFailHTLC :: "LightningChannel \<Rightarrow> u64 \<Rightarrow> bytes \<Rightarrow> channel_error + LightningChannel" where
  "ReceiveFailHTLC lc hIndex reason =
     (case lookupHtlc (localUpdateLog lc) hIndex of
        None \<Rightarrow> Inl (ErrUnknownHtlcIndex (ShortChanID (channelState lc)) hIndex)
      | Some htlc \<Rightarrow>
          if htlcHasModification (localUpdateLog lc) hIndex
          then Inl (ErrHtlcIndexAlreadyFailed hIndex)
          else
            (let pd = zeroPD\<lparr>AssetID := AssetID htlc, AssetAmount := AssetAmount htlc,
                             BtcAmount := BtcAmount htlc, RHash := RHash htlc,
                             ParentIndex := HtlcIndex htlc, LogIndex := logIndex (remoteUpdateLog lc),
                             EntryType := Fail, FailReason := reason\<rparr>
             in Inr (lc\<lparr>remoteUpdateLog := appendUpdate (remoteUpdateLog lc) pd,
                        localUpdateLog := markHtlcModified (localUpdateLog lc) hIndex\<rparr>)))"

subsection \<open>Balances and fee updates\<close>

definition availableCommitmentBalance :: "LightningChannel \<Rightarrow> htlcView \<Rightarrow> bool \<Rightarrow> UnitPrec11 \<times> i64" where
  "availableCommitmentBalance lc view remoteChain =
     (case snd (computeView lc view remoteChain False) of
        Inl err \<Rightarrow> (0, 0)
      | Inr (b, commitWeight, filteredView) \<Rightarrow>
          (let cs = channelState lc;
               isBtc = (cs_AssetID cs = BtcAssetId);
               ourReserve = (if isBtc then UnitPrec8_ToMsat (ChanReserve (LocalChanCfg cs))
                             else ChanReserve (LocalChanCfg cs));
               ourAmt0 = (if isBtc then ourBtc b else ourAsset b);
               theirAmt0 = (if isBtc then theirBtc b else theirAsset b);
               ourAmt = (if ourReserve \<le> ourAmt0 then ourAmt0 - ourReserve else 0);
               rate = v_feePerKw filteredView;
               htlcCommitFee = NewMSatFromSatoshis (FeeForWeight rate (commitWeight + HTLCWeight))
           in if IsInitiator cs then
                (if isBtc then
                   (if ourAmt < htlcCommitFee then (0, commitWeight)
                    else (ourAmt - htlcCommitFee, commitWeight))
                 else (ourAmt, commitWeight))
              else
                (let theirReserve = (if isBtc then UnitPrec8_ToMsat (ChanReserve (RemoteChanCfg cs))
                                     else ChanReserve (RemoteChanCfg cs));
                     theirAmt = (if theirReserve \<le> theirAmt0 then theirAmt0 - theirReserve else 0);
                     dustlimit = dustLimitOf lc remoteChain;
                     htlcFee = NewMSatFromSatoshis
                                 (if remoteChain then HtlcSuccessFee (ChanType cs) rate
                                  else HtlcTimeoutFee (ChanType cs) rate);
                     nonDustHtlcAmt = NewMSatFromSatoshis dustlimit + htlcFee
                 in if isBtc \<and> theirAmt < htlcCommitFee \<and> ourAmt \<ge> nonDustHtlcAmt
                    then (nonDustHtlcAmt - 1, commitWeight)
                    else (ourAmt, commitWeight))))"

definition availableBalance_priv :: "LightningChannel \<Rightarrow> UnitPrec11 \<times> i64" where
  "availableBalance_priv lc =
     (let remoteACKedIndex = theirMessageIndex (tip (localCommitChain lc));
          view = fetchHTLCView lc remoteACKedIndex (logIndex (localUpdateLog lc));
          (ourLocalCommitBalance, commitWeight) = availableCommitmentBalance lc view False;
          (ourRemoteCommitBalance, _) = availableCommitmentBalance lc view True
      in if ourRemoteCommitBalance < ourLocalCommitBalance then (ourRemoteCommitBalance, commitWeight)
         else (ourLocalCommitBalance, commitWeight))"

definition AvailableBalance :: "LightningChannel \<Rightarrow> UnitPrec11" where
  "AvailableBalance lc = fst (availableBalance_priv lc)"

definition validateFeeRate :: "LightningChannel \<Rightarrow> SatPerKWeight \<Rightarrow> channel_error + unit" where
  "validateFeeRate lc rate =
     (if cs_AssetID (channelState lc) > BtcAssetId then Inr ()
      else
        (let (available, txWeight) = availableBalance_priv lc;
             oldFee = NewMSatFromSatoshis (FeeForWeight (feePerKw (tip (localCommitChain lc))) txWeight);
             baseBalance = available + oldFee;
             newFee = NewMSatFromSatoshis (FeeForWeight rate txWeight)
         in if newFee > baseBalance then Inl (FeeAboveBalance rate newFee baseBalance) else Inr ()))"

definition feeDescriptor :: "LightningChannel \<Rightarrow> updateLog \<Rightarrow> SatPerKWeight \<Rightarrow> PaymentDescriptor" where
  "feeDescriptor lc log rate =
     zeroPD\<lparr>LogIndex := logIndex log, BtcAmount := NewMSatFromSatoshis rate, EntryType := FeeUpdate,
            AssetID := cs_AssetID (channelState lc)\<rparr>"

definition UpdateFee :: "LightningChannel \<Rightarrow> SatPerKWeight \<Rightarrow> channel_error + LightningChannel" where
  "UpdateFee lc rate =
     (if \<not> IsInitiator (channelState lc) then Inl FeeUpdateAsNonInitiator
      else sbind (validateFeeRate lc rate) (\<lambda>_.
             Inr (lc\<lparr>localUpdateLog :=
                       appendUpdate (localUpdateLog lc) (feeDescriptor lc (localUpdateLog lc) rate)\<rparr>)))"

definition ReceiveUpdateFee :: "LightningChannel \<Rightarrow> SatPerKWeight \<Rightarrow> channel_error + LightningChannel" where
  "ReceiveUpdateFee lc rate =
     (if IsInitiator (channelState lc) then Inl FeeUpdateAsInitiator
      else Inr (lc\<lparr>remoteUpdateLog :=
                     appendUpdate (remoteUpdateLog lc) (feeDescriptor lc (remoteUpdateLog lc) rate)\<rparr>))"

definition dustSumOf ::
    "ChannelType \<Rightarrow> bool \<Rightarrow> bool \<Rightarrow> SatPerKWeight \<Rightarrow> SatAmount \<Rightarrow> (nat \<times> PaymentDescriptor) list \<Rightarrow> MilliSatoshi" where
  "dustSumOf chanType incoming ourCommit rate dust es =
     (\<Sum>(e, pd) \<leftarrow> es.
        if EntryType pd = Add
           \<and> HtlcIsDust chanType incoming ourCommit rate (ToSatoshis (BtcAmount pd)) dust (AssetID pd)
        then BtcAmount pd else 0)"

definition GetDustSum :: "LightningChannel \<Rightarrow> bool \<Rightarrow> MilliSatoshi" where
  "GetDustSum lc remote =
     (let cs = channelState lc;
          commit = (if remote then RemoteCommitment cs else LocalCommitment cs);
          dust = dustLimitOf lc remote;
          rate = FeePerKw commit
      in dustSumOf (ChanType cs) False (\<not> remote) rate dust (entries (localUpdateLog lc))
         + dustSumOf (ChanType cs) True (\<not> remote) rate dust (entries (remoteUpdateLog lc)))"

subsection \<open>Pending work\<close>

definition oweCommitment :: "LightningChannel \<Rightarrow> bool \<Rightarrow> bool" where
  "oweCommitment lc local =
     (let lastLocalCommit = tip (localCommitChain lc);
          lastRemoteCommit = tip (remoteCommitChain lc);
          localUpdatesPending =
            (if local then logIndex (localUpdateLog lc) \<noteq> ourMessageIndex lastRemoteCommit
             else logIndex (remoteUpdateLog lc) \<noteq> theirMessageIndex lastLocalCommit);
          remoteUpdatesPending =
            (if local then theirMessageIndex lastLocalCommit \<noteq> theirMessageIndex lastRemoteCommit
             else ourMessageIndex lastRemoteCommit \<noteq> ourMessageIndex lastLocalCommit)
      in localUpdatesPending \<or> remoteUpdatesPending)"

definition OweCommitment :: "LightningChannel \<Rightarrow> bool \<Rightarrow> bool" where
  "OweCommitment lc local = oweCommitment lc local"

definition IsChannelClean :: "LightningChannel \<Rightarrow> bool" where
  "IsChannelClean lc \<longleftrightarrow>
     \<not> hasUnackedCommitment (localCommitChain lc) \<and> \<not> hasUnackedCommitment (remoteCommitChain lc)
     \<and> ActiveHtlcs sha256 (channelState lc) = []
     \<and> \<not> oweCommitment lc True \<and> \<not> oweCommitment lc False"

definition PendingLocalUpdateCount :: "LightningChannel \<Rightarrow> u64" where
  "PendingLocalUpdateCount lc = logIndex (localUpdateLog lc) - ourMessageIndex (tip (remoteCommitChain lc))"

end
