(* ===== verification/Channel_Safety.thy ===== *)
theory Channel_Safety
  imports Channel_Ops
begin

text \<open>
  Correctness of the update operations: the contract that the five operations which settle or
  fail an HTLC share, as a locale with its client lemmas; the invariant of the two logs along
  every sequence of operations, evaluations and compactions; what the checks of an accepted HTLC
  guarantee, and what they do not.
\<close>

section \<open>A concrete channel\<close>

text \<open>
  The channel on which the theorems are instantiated: one million satoshis, half on each side, at
  the fee rate 250, funded by the local party.
\<close>

definition sampleConstraints :: ChannelConstraints where
  "sampleConstraints =
     \<lparr>DustLimit = 573, ChanReserve = 10000, MaxPendingAmount = 990000000, MinHTLC = 1000,
      MaxAcceptedHtlcs = 483, CsvDelay = 144\<rparr>"

definition sampleCommitment :: "bool \<Rightarrow> commitment" where
  "sampleCommitment ours =
     \<lparr>height = 1, isOurs = ours, ourMessageIndex = 0, theirMessageIndex = 0, ourHtlcIndex = 0, theirHtlcIndex = 0,
      txn = None, c_sig = [], ourBtcBalance = 499819000, theirBtcBalance = 500000000,
      ourAssetBalance = 0, theirAssetBalance = 0, fee = 181, feePerKw = 253, dustLimit = 573,
      outgoingHTLCs = [], incomingHTLCs = [],
      outgoingHTLCIndex = Map.empty, incomingHTLCIndex = Map.empty\<rparr>"

definition sampleDiskCommitment :: ChannelCommitment where
  "sampleDiskCommitment =
     \<lparr>CommitHeight = 1, LocalLogIndex = 0, LocalHtlcIndex = 0, RemoteLogIndex = 0, RemoteHtlcIndex = 0,
      LocalBtcBalance = 499819000, RemoteBtcBalance = 500000000, LocalAssetBalance = 0, RemoteAssetBalance = 0,
      CommitFee = 181, FeePerKw = 253, CommitTx = None, CommitSig = [], Htlcs = []\<rparr>"

definition sampleState :: "u32 \<Rightarrow> OpenChannel" where
  "sampleState assetId =
     \<lparr>ChanType = SingleFunderTweaklessBit,
      ShortChanID = \<lparr>BlockHeight = 700000, TxIndex = 1, TxPosition = 0\<rparr>, IsInitiator = True,
      cs_BtcCapacity = 1000000, cs_AssetCapacity = 0, cs_AssetID = assetId, TotalAssetSent = 0,
      TotalAssetReceived = 0, TotalMSatSent = 0, TotalMSatReceived = 0, LocalChanCfg = sampleConstraints,
      RemoteChanCfg = sampleConstraints, LocalCommitment = sampleDiskCommitment,
      RemoteCommitment = sampleDiskCommitment, LocalShutdownScript = [], RemoteShutdownScript = [], ThawHeight = 0\<rparr>"

definition sampleChannel :: "u32 \<Rightarrow> LightningChannel" where
  "sampleChannel assetId =
     \<lparr>BtcCapacity = 1000000, AssetCapacity = 0, currentHeight = 1,
      remoteCommitChain = [sampleCommitment False], localCommitChain = [sampleCommitment True],
      channelState = sampleState assetId, localUpdateLog = newUpdateLog 0 0, remoteUpdateLog = newUpdateLog 0 0\<rparr>"

definition sampleHTLC :: "u32 \<Rightarrow> u64 \<Rightarrow> u64 \<Rightarrow> bytes \<Rightarrow> UpdateAddHTLC" where
  "sampleHTLC assetId i amt hash =
     \<lparr>uah_ChanID = replicate 32 0, uah_ID = i, uah_AssetID = assetId, uah_Amount = amt,
      uah_PaymentHash = hash, uah_Expiry = 800000, uah_OnionBlob = [], uah_ExtraData = []\<rparr>"

lemma sample_logs_inv: "logs_inv (localUpdateLog (sampleChannel a)) (remoteUpdateLog (sampleChannel a))"
  by (simp add: sampleChannel_def logs_inv_new)

section \<open>Evaluations without mutation\<close>

lemma writeEntry_pure [simp]: "writeEntry False ours e p lc = lc"
  by (simp add: writeEntry_def)

lemma removalLoop_pure: "es_lc (fst (removalLoop ours h rc False es st)) = es_lc st"
proof (induction ours h rc False es st rule: removalLoop.induct)
  case (2 ours h rc e entry es st)
  then show ?case by (auto simp: Let_def split: prod.splits sum.splits)
qed simp

lemma addLoop_pure: "fst (addLoop ours h rc False skip es lc b) = lc"
proof (induction ours h rc False skip es lc b rule: addLoop.induct)
  case (2 ours h rc skip e entry es lc b)
  then show ?case by (auto simp: Let_def split: prod.splits)
qed simp

lemma evaluate_pure: "fst (evaluateHTLCView lc v b h rc False) = lc"
proof -
  obtain st1 r1 where r1: "removalLoop True h rc False (ourUpdates v)
      \<lparr>es_lc = lc, es_bal = b, es_fee = v_feePerKw v, es_skip = {}\<rparr> = (st1, r1)" by fastforce
  obtain st2 r2 where r2: "removalLoop False h rc False (theirUpdates v) (st1\<lparr>es_skip := {}\<rparr>) = (st2, r2)"
    by fastforce
  have lc: "es_lc st1 = lc" "es_lc st2 = lc"
    using removalLoop_pure [of True h rc "ourUpdates v"] r1
      removalLoop_pure [of False h rc "theirUpdates v" "st1\<lparr>es_skip := {}\<rparr>"] r2 by (metis evalState.select_convs(1) evalState.update_convs(4) fst_conv evalState.surjective)+
  obtain lc3 b3 k3 where a3: "addLoop True h rc False (es_skip st2) (ourUpdates v) (es_lc st2) (es_bal st2) = (lc3, b3, k3)"
    by (metis prod_cases3)
  obtain lc4 b4 k4 where a4: "addLoop False h rc False (es_skip st1) (theirUpdates v) lc3 b3 = (lc4, b4, k4)"
    by (metis prod_cases3)
  have "lc3 = lc" "lc4 = lc"
    using addLoop_pure [of True h rc "es_skip st2" "ourUpdates v" "es_lc st2" "es_bal st2"] a3
      addLoop_pure [of False h rc "es_skip st1" "theirUpdates v" lc3 b3] a4 lc by simp_all
  then show ?thesis
    using r1 r2 a3 a4 lc by (simp add: evaluateHTLCView_def Let_def split: option.splits)
qed

lemma computeView_pure: "fst (computeView lc v rc False) = lc"
proof -
  let ?ev = "evaluateHTLCView lc (v\<lparr>v_feePerKw := feePerKw (tip (chainOf lc rc))\<rparr>) (startBalances lc rc)
    (height (tip (chainOf lc rc)) + 1) rc False"
  have "fst ?ev = lc" by (rule evaluate_pure)
  then show ?thesis
    unfolding computeView_def Let_def by (cases ?ev) (auto split: sum.splits prod.splits)
qed

section \<open>Settling and failing an HTLC\<close>

text \<open>
  The contract that the operations share: \<open>ours\<close> tells whose log the new entry goes to; the HTLC is
  looked up in the other log, and marked there.
\<close>

definition removalEffect :: "bool \<Rightarrow> LightningChannel \<Rightarrow> u64 \<Rightarrow> LightningChannel \<Rightarrow> bool" where
  "removalEffect ours lc i lc' \<longleftrightarrow>
     (\<exists>h pd. lookupHtlc (otherLog ours lc) i = Some h \<and> isRemoval pd \<and> sameAmount pd h
        \<and> LogIndex pd = logIndex (ownLog ours lc) \<and> ParentIndex pd = i
        \<and> ownLog ours lc' = appendUpdate (ownLog ours lc) pd
        \<and> otherLog ours lc' = markHtlcModified (otherLog ours lc) i
        \<and> sameConfig lc lc')"

lemma removalEffectI:
  assumes "ownLog ours lc' = appendUpdate (ownLog ours lc) pd"
    and "lookupHtlc (otherLog ours lc) i = Some h" "isRemoval pd" "sameAmount pd h"
    and "LogIndex pd = logIndex (ownLog ours lc)" "ParentIndex pd = i"
    and "otherLog ours lc' = markHtlcModified (otherLog ours lc) i" "sameConfig lc lc'"
  shows "removalEffect ours lc i lc'"
  using assms unfolding removalEffect_def by blast

locale htlc_removal =
  fixes remove_op :: "LightningChannel \<Rightarrow> u64 \<Rightarrow> channel_error + LightningChannel" and ours :: bool
  assumes unknown: "lookupHtlc (otherLog ours lc) i = None
        \<Longrightarrow> remove_op lc i = Inl (ErrUnknownHtlcIndex (ShortChanID (channelState lc)) i)"
    and modified: "i \<in> modifiedHtlcs (otherLog ours lc) \<Longrightarrow> \<not> is_ok (remove_op lc i)"
    and effect: "remove_op lc i = Inr lc' \<Longrightarrow> log_inv (otherLog ours lc) \<Longrightarrow> removalEffect ours lc i lc'"
begin

lemma success_fresh: "remove_op lc i = Inr lc' \<Longrightarrow> i \<notin> modifiedHtlcs (otherLog ours lc)"
  using modified [of i lc] by auto

lemma keeps_logs_inv:
  assumes "remove_op lc i = Inr lc'" and inv: "logs_inv (ownLog ours lc) (otherLog ours lc)"
    and "logIndex (ownLog ours lc) + 1 \<noteq> 0"
  shows "logs_inv (ownLog ours lc') (otherLog ours lc')"
proof -
  have "log_inv (otherLog ours lc)" using inv by (simp add: logs_inv_def)
  from effect [OF assms(1) this, unfolded removalEffect_def] obtain h pd where *:
    "lookupHtlc (otherLog ours lc) i = Some h" "isRemoval pd" "sameAmount pd h"
    "LogIndex pd = logIndex (ownLog ours lc)" "ParentIndex pd = i"
    "ownLog ours lc' = appendUpdate (ownLog ours lc) pd"
    "otherLog ours lc' = markHtlcModified (otherLog ours lc) i" by blast
  show ?thesis
    unfolding *(6,7)
    by (rule logs_inv_removal [OF inv *(2,4,5,1,3) success_fresh [OF assms(1)] assms(3)])
qed

lemma marked: "remove_op lc i = Inr lc' \<Longrightarrow> log_inv (otherLog ours lc) \<Longrightarrow> i \<in> modifiedHtlcs (otherLog ours lc')"
  using effect [of lc i lc'] by (auto simp: mark_simps removalEffect_def)

lemma only_once:
  assumes "remove_op lc i = Inr lc'" and "log_inv (otherLog ours lc)"
  shows "\<not> is_ok (remove_op lc' i)"
  using modified marked [OF assms] by blast

end

lemmas removal_defs = SettleHTLC_def ReceiveHTLCSettle_def FailHTLC_def MalformedFailHTLC_def
  ReceiveFailHTLC_def htlcHasModification_def ownLog_def otherLog_def

lemma sameConfig_logs [simp]:
  "sameConfig lc (lc\<lparr>localUpdateLog := a, remoteUpdateLog := b\<rparr>)"
  by (simp add: sameConfig_def)

interpretation settle: htlc_removal "\<lambda>lc i. SettleHTLC lc preimage i s d c" True for preimage s d c
  by unfold_locales
    (auto simp: removal_defs isRemoval_def sameAmount_def Let_def intro!: removalEffectI
      split: option.splits if_splits)

interpretation fail: htlc_removal "\<lambda>lc i. FailHTLC lc i reason s d c" True for reason s d c
  by unfold_locales
    (auto simp: removal_defs isRemoval_def sameAmount_def Let_def intro!: removalEffectI
      split: option.splits if_splits)

interpretation malformed: htlc_removal "\<lambda>lc i. MalformedFailHTLC lc i code sha s" True for code sha s
  by unfold_locales
    (auto simp: removal_defs isRemoval_def sameAmount_def Let_def intro!: removalEffectI
      split: option.splits if_splits)

lemma lookupHtlc_HtlcIndex: "log_inv u \<Longrightarrow> lookupHtlc u i = Some h \<Longrightarrow> HtlcIndex h = i"
  using lookupHtlc_iff by blast

interpretation receive_settle: htlc_removal "\<lambda>lc i. ReceiveHTLCSettle lc preimage i" False for preimage
  by unfold_locales
    (auto simp: removal_defs isRemoval_def sameAmount_def Let_def sameConfig_def intro!: removalEffectI
      dest: lookupHtlc_HtlcIndex split: option.splits if_splits)

interpretation receive_fail: htlc_removal "\<lambda>lc i. ReceiveFailHTLC lc i reason" False for reason
  by unfold_locales
    (auto simp: removal_defs isRemoval_def sameAmount_def Let_def sameConfig_def intro!: removalEffectI
      dest: lookupHtlc_HtlcIndex split: option.splits if_splits)

section \<open>What a passed check means\<close>

lemma validateUpdatesLoop_iff:
  "validateUpdatesLoop c es n a = Inr (n', a') \<longleftrightarrow>
     (\<forall>(e, p) \<in> set es. EntryType p = Add \<longrightarrow> GetMsgAmt p \<noteq> 0 \<and> MinHTLC c \<le> GetMsgAmt p)
     \<and> n' = n + of_nat (length (filter (\<lambda>(e, p). EntryType p = Add) es))
     \<and> a' = a + sumOf GetMsgAmt (\<lambda>p. EntryType p = Add) es"
  by (induction c es n a rule: validateUpdatesLoop.induct) (auto simp: view_simps algebra_simps)

definition withinLimits :: "ChannelConstraints \<Rightarrow> (nat \<times> PaymentDescriptor) list \<Rightarrow> bool" where
  "withinLimits c es \<longleftrightarrow>
     (\<forall>(e, p) \<in> set es. EntryType p = Add \<longrightarrow> GetMsgAmt p \<noteq> 0 \<and> MinHTLC c \<le> GetMsgAmt p)
     \<and> sumOf GetMsgAmt (\<lambda>p. EntryType p = Add) es \<le> MaxPendingAmount c
     \<and> of_nat (length (filter (\<lambda>(e, p). EntryType p = Add) es)) \<le> MaxAcceptedHtlcs c"

lemma validateUpdates_iff: "validateUpdates es c = Inr () \<longleftrightarrow> withinLimits c es"
proof -
  have "validateUpdates es c = Inr () \<longleftrightarrow>
      (\<exists>n a. validateUpdatesLoop c es 0 0 = Inr (n, a) \<and> a \<le> MaxPendingAmount c \<and> n \<le> MaxAcceptedHtlcs c)"
    by (auto simp: validateUpdates_def sbind_eq_Inr not_less)
  then show ?thesis by (auto simp: validateUpdatesLoop_iff withinLimits_def)
qed

text \<open>The commitment that a check computes, with its balances after the fee.\<close>

definition reserveKept :: "MilliSatoshi \<Rightarrow> MilliSatoshi \<Rightarrow> UnitPrec8 \<Rightarrow> bool" where
  "reserveKept before after reserve \<longleftrightarrow> before \<le> after \<or> UnitPrec8_ToMsat reserve \<le> after"

definition saneCommitment :: "LightningChannel \<Rightarrow> bool \<Rightarrow> htlcView \<Rightarrow> bool" where
  "saneCommitment lc rc view \<longleftrightarrow>
     (\<exists>b0 w v. snd (computeView lc view rc False) = Inr (b0, w, v)
        \<and> withinLimits (LocalChanCfg (channelState lc)) (ourUpdates v)
        \<and> withinLimits (RemoteChanCfg (channelState lc)) (theirUpdates v)
        \<and> sint FeePerKwFloor \<le> sint (v_feePerKw v)
        \<and> (let b = subtractFee (channelState lc) (NewMSatFromSatoshis (FeeForWeight (v_feePerKw v) w)) b0
           in 0 \<le> sint (ourBtc b) \<and> 0 \<le> sint (theirBtc b)
              \<and> reserveKept (ourBtcBalance (tip (chainOf lc rc))) (ourBtc b) (ChanReserve (LocalChanCfg (channelState lc)))
              \<and> reserveKept (theirBtcBalance (tip (chainOf lc rc))) (theirBtc b)
                  (ChanReserve (RemoteChanCfg (channelState lc)))))"

lemma sanity_btc_iff:
  assumes "cs_AssetID (channelState lc) = BtcAssetId" and "sanityGuards po pt = None"
  shows "validateCommitmentSanity lc ti oi rc po pt = Inr () \<longleftrightarrow> saneCommitment lc rc (predictView lc ti oi po pt)"
proof -
  have "checkReserves lc rc b = Inr () \<longleftrightarrow>
      reserveKept (ourBtcBalance (tip (chainOf lc rc))) (ourBtc b) (ChanReserve (LocalChanCfg (channelState lc)))
      \<and> reserveKept (theirBtcBalance (tip (chainOf lc rc))) (theirBtc b) (ChanReserve (RemoteChanCfg (channelState lc)))" for b
    using assms(1) by (auto simp: checkReserves_def Let_def reserveKept_def not_less)
  then show ?thesis
    using assms(2) unfolding validateCommitmentSanity_def saneCommitment_def
    by (cases "snd (computeView lc (predictView lc ti oi po pt) rc False)")
      (auto simp: sbind_eq_Inr validateUpdates_iff i64_less_def not_less Let_def split: if_splits)
qed

text \<open>An evaluation without mutation filters the adds of the view.\<close>

lemma addLoop_kept:
  "addLoop ours h rc False skip es lc b = (lc', b', kept)
     \<Longrightarrow> kept = filter (\<lambda>(e, p). EntryType p = Add \<and> HtlcIndex p \<notin> skip) es"
proof (induction ours h rc False skip es lc b arbitrary: lc' b' kept rule: addLoop.induct)
  case (2 ours h rc skip e entry es lc b)
  then show ?case
    by (auto simp: processAddEntry_def split: prod.splits if_splits)
qed simp

lemma evaluate_filtered:
  assumes "evaluateHTLCView lc v b h rc False = (lc', Inr (b', v'))"
    and "log_inv (localUpdateLog lc)" "log_inv (remoteUpdateLog lc)"
  shows "ourUpdates v' = filter (\<lambda>(e, p). EntryType p = Add \<and> HtlcIndex p \<notin> parentsOf (theirUpdates v)) (ourUpdates v)"
    and "theirUpdates v' = filter (\<lambda>(e, p). EntryType p = Add \<and> HtlcIndex p \<notin> parentsOf (ourUpdates v)) (theirUpdates v)"
    and "k \<in> parentsOf (theirUpdates v) \<Longrightarrow> k < htlcCounter (localUpdateLog lc)"
    and "k \<in> parentsOf (ourUpdates v) \<Longrightarrow> k < htlcCounter (remoteUpdateLog lc)"
proof -
  obtain st1 st2 lc3 b3 b4 ours theirs where e:
    "removalLoop True h rc False (ourUpdates v) \<lparr>es_lc = lc, es_bal = b, es_fee = v_feePerKw v, es_skip = {}\<rparr> = (st1, None)"
    "removalLoop False h rc False (theirUpdates v) (st1\<lparr>es_skip := {}\<rparr>) = (st2, None)"
    "addLoop True h rc False (es_skip st2) (ourUpdates v) (es_lc st2) (es_bal st2) = (lc3, b3, ours)"
    "addLoop False h rc False (es_skip st1) (theirUpdates v) lc3 b3 = (lc', b4, theirs)"
    "v' = \<lparr>ourUpdates = ours, theirUpdates = theirs, v_feePerKw = es_fee st2\<rparr>"
    using evaluate_cases [OF assms(1)] .
  have lc: "es_lc st1 = lc"
    using removalLoop_pure [of True h rc "ourUpdates v"] e(1) by (metis evalState.select_convs(1) fst_conv)
  note s1 = removalLoop_skip [OF e(1)] and s2 = removalLoop_skip [OF e(2)]
  have skips: "es_skip st1 = parentsOf (ourUpdates v)" "es_skip st2 = parentsOf (theirUpdates v)"
    using s1 s2 assms(2,3) lc by (simp_all add: otherLog_def)
  show "ourUpdates v' = filter (\<lambda>(e, p). EntryType p = Add \<and> HtlcIndex p \<notin> parentsOf (theirUpdates v)) (ourUpdates v)"
    "theirUpdates v' = filter (\<lambda>(e, p). EntryType p = Add \<and> HtlcIndex p \<notin> parentsOf (ourUpdates v)) (theirUpdates v)"
    using addLoop_kept [OF e(3)] addLoop_kept [OF e(4)] e(5) skips by simp_all
  have bound: "k < htlcCounter u" if "log_inv u" "lookupHtlc u k = Some p" for u k p
    using that lookupHtlc_iff [OF that(1)] log_invD [OF that(1)] by fastforce
  show "k \<in> parentsOf (theirUpdates v) \<Longrightarrow> k < htlcCounter (localUpdateLog lc)"
    using s2 assms(2) lc bound by (fastforce simp: otherLog_def)
  show "k \<in> parentsOf (ourUpdates v) \<Longrightarrow> k < htlcCounter (remoteUpdateLog lc)"
    using s1 assms(3) bound by (fastforce simp: otherLog_def)
qed


text \<open>The predicted HTLC is part of the commitment that the check computes.\<close>

lemma computeView_evaluate:
  assumes "snd (computeView lc view rc m) = Inr (b, w, v)"
  shows "\<exists>lc'. evaluateHTLCView lc (view\<lparr>v_feePerKw := feePerKw (tip (chainOf lc rc))\<rparr>)
      (startBalances lc rc) (height (tip (chainOf lc rc)) + 1) rc m = (lc', Inr (b, v))"
  using assms unfolding computeView_def Let_def by (auto split: prod.splits sum.splits)

lemma predicted_ours_kept:
  assumes "snd (computeView lc (predictView lc ti oi (Some pd) None) rc False) = Inr (b, w, v)"
    and "log_inv (localUpdateLog lc)" "log_inv (remoteUpdateLog lc)"
    and "EntryType pd = Add" "HtlcIndex pd = htlcCounter (localUpdateLog lc)"
  shows "(nextElem (localUpdateLog lc), pd) \<in> set (ourUpdates v)"
proof -
  obtain lc' where ev: "evaluateHTLCView lc ((predictView lc ti oi (Some pd) None)\<lparr>v_feePerKw := feePerKw (tip (chainOf lc rc))\<rparr>)
      (startBalances lc rc) (height (tip (chainOf lc rc)) + 1) rc False = (lc', Inr (b, v))"
    using computeView_evaluate [OF assms(1)] by blast
  have "HtlcIndex pd \<notin> parentsOf (theirUpdates (predictView lc ti oi (Some pd) None))"
    using evaluate_filtered(3) [OF ev assms(2,3), of "HtlcIndex pd"] assms(5) by auto
  then show ?thesis
    using evaluate_filtered(1) [OF ev assms(2,3)] assms(4) by (simp add: predictView_def Let_def)
qed

lemma predicted_theirs_kept:
  assumes "snd (computeView lc (predictView lc ti oi None (Some pd)) rc False) = Inr (b, w, v)"
    and "log_inv (localUpdateLog lc)" "log_inv (remoteUpdateLog lc)"
    and "EntryType pd = Add" "HtlcIndex pd = htlcCounter (remoteUpdateLog lc)"
  shows "(nextElem (remoteUpdateLog lc), pd) \<in> set (theirUpdates v)"
proof -
  obtain lc' where ev: "evaluateHTLCView lc ((predictView lc ti oi None (Some pd))\<lparr>v_feePerKw := feePerKw (tip (chainOf lc rc))\<rparr>)
      (startBalances lc rc) (height (tip (chainOf lc rc)) + 1) rc False = (lc', Inr (b, v))"
    using computeView_evaluate [OF assms(1)] by blast
  have "HtlcIndex pd \<notin> parentsOf (ourUpdates (predictView lc ti oi None (Some pd)))"
    using evaluate_filtered(4) [OF ev assms(2,3), of "HtlcIndex pd"] assms(5) by auto
  then show ?thesis
    using evaluate_filtered(2) [OF ev assms(2,3)] assms(4) by (simp add: predictView_def Let_def)
qed

lemma descriptor_fields [simp]:
  "EntryType (htlcAddDescriptor lc htlc k) = Add" "EntryType (receivedDescriptor lc htlc) = Add"
  "HtlcIndex (htlcAddDescriptor lc htlc k) = htlcCounter (localUpdateLog lc)"
  "HtlcIndex (receivedDescriptor lc htlc) = htlcCounter (remoteUpdateLog lc)"
  "LogIndex (htlcAddDescriptor lc htlc k) = logIndex (localUpdateLog lc)"
  "LogIndex (receivedDescriptor lc htlc) = logIndex (remoteUpdateLog lc)"
  "AssetID (htlcAddDescriptor lc htlc k) = uah_AssetID htlc" "AssetID (receivedDescriptor lc htlc) = uah_AssetID htlc"
  "RHash (htlcAddDescriptor lc htlc k) = uah_PaymentHash htlc" "RHash (receivedDescriptor lc htlc) = uah_PaymentHash htlc"
  "GetMsgAmt (htlcAddDescriptor lc htlc k) = uah_Amount htlc" "GetMsgAmt (receivedDescriptor lc htlc) = uah_Amount htlc"
  "uah_AssetID htlc = BtcAssetId \<Longrightarrow> AssetAmount (htlcAddDescriptor lc htlc k) = 0"
  "uah_AssetID htlc = BtcAssetId \<Longrightarrow> AssetAmount (receivedDescriptor lc htlc) = 0"
  by (simp_all add: htlcAddDescriptor_def receivedDescriptor_def SetAmtFromMsgHtlc_def zeroPD_def Let_def GetMsgAmt_def)

lemma sanityGuards_btc:
  "AssetID pd = BtcAssetId \<Longrightarrow> AssetAmount pd = 0 \<Longrightarrow> sanityGuards (Some pd) None = None \<and> sanityGuards None (Some pd) = None"
  by (simp add: sanityGuards_def i64_less_def)

section \<open>Properties\<close>

text \<open>
  C26. An accepted outgoing bitcoin HTLC respects the limits of the channel: its amount is not zero
  and not below our minimum, and the commitment of either chain with the HTLC added keeps the
  number and the sum of HTLCs of both parties within their limits, the fee rate above the floor,
  both balances non-negative, and a balance that decreases above its reserve.
\<close>

theorem AddHTLC_within_limits:
  assumes "AddHTLC lc htlc openKey = Inr (lc', i)"
    and "uah_AssetID htlc = BtcAssetId" and "cs_AssetID (channelState lc) = BtcAssetId"
    and "log_inv (localUpdateLog lc)" and "log_inv (remoteUpdateLog lc)"
  shows "uah_Amount htlc \<noteq> 0 \<and> MinHTLC (LocalChanCfg (channelState lc)) \<le> uah_Amount htlc
     \<and> saneCommitment lc True (predictView lc (theirMessageIndex (tail (localCommitChain lc)))
          (logIndex (localUpdateLog lc)) (Some (htlcAddDescriptor lc htlc openKey)) None)
     \<and> saneCommitment lc False (predictView lc (logIndex (remoteUpdateLog lc))
          (logIndex (localUpdateLog lc)) (Some (htlcAddDescriptor lc htlc openKey)) None)"
proof -
  let ?pd = "htlcAddDescriptor lc htlc openKey"
  have "validateAddHtlc lc ?pd = Inr ()" using assms(1) by (auto simp: AddHTLC_def Let_def sbind_eq_Inr)
  then have sane: "saneCommitment lc True (predictView lc (theirMessageIndex (tail (localCommitChain lc)))
          (logIndex (localUpdateLog lc)) (Some ?pd) None)"
    "saneCommitment lc False (predictView lc (logIndex (remoteUpdateLog lc)) (logIndex (localUpdateLog lc)) (Some ?pd) None)"
    using assms(2) sanity_btc_iff [OF assms(3)] sanityGuards_btc [of ?pd]
    by (auto simp: validateAddHtlc_def Let_def sbind_eq_Inr i64_less_def BtcAssetId_def)
  then obtain b0 w v where v: "withinLimits (LocalChanCfg (channelState lc)) (ourUpdates v)"
    "snd (computeView lc (predictView lc (logIndex (remoteUpdateLog lc)) (logIndex (localUpdateLog lc)) (Some ?pd) None) False False)
       = Inr (b0, w, v)" by (auto simp: saneCommitment_def)
  have "(nextElem (localUpdateLog lc), ?pd) \<in> set (ourUpdates v)"
    by (rule predicted_ours_kept [OF v(2) assms(4,5)]) simp_all
  with v(1) sane show ?thesis by (fastforce simp: withinLimits_def)
qed

lemma sample_add_ok: "validateAddHtlc (sampleChannel 0) (htlcAddDescriptor (sampleChannel 0) (sampleHTLC 0 0 1000000 []) None) = Inr ()"
  by code_simp

lemma sample_receive_ok:
  "validateCommitmentSanity (sampleChannel 0) 0 0 False None (Some (receivedDescriptor (sampleChannel 0) (sampleHTLC 0 0 1000000 []))) = Inr ()"
  by code_simp

lemma sample_log_inv: "log_inv (localUpdateLog (sampleChannel a))" "log_inv (remoteUpdateLog (sampleChannel a))"
  using sample_logs_inv by (auto simp: logs_inv_def)

theorem AddHTLC_within_limits_witness:
  "is_ok (AddHTLC (sampleChannel 0) (sampleHTLC 0 0 1000000 []) None)
   \<and> MinHTLC (LocalChanCfg (channelState (sampleChannel 0))) \<le> 1000000
   \<and> saneCommitment (sampleChannel 0) False (predictView (sampleChannel 0) 0 0
        (Some (htlcAddDescriptor (sampleChannel 0) (sampleHTLC 0 0 1000000 []) None)) None)"
proof -
  let ?lc = "sampleChannel 0" and ?m = "sampleHTLC 0 0 1000000 []"
  obtain lc' i where ok: "AddHTLC ?lc ?m None = Inr (lc', i)" using sample_add_ok by (simp add: AddHTLC_def Let_def)
  have "cs_AssetID (channelState ?lc) = BtcAssetId" "uah_AssetID ?m = BtcAssetId" "uah_Amount ?m = 1000000"
    "logIndex (remoteUpdateLog ?lc) = 0" "logIndex (localUpdateLog ?lc) = 0"
    by (simp_all add: sampleChannel_def sampleState_def sampleHTLC_def BtcAssetId_def newUpdateLog_def)
  with AddHTLC_within_limits [OF ok _ _ sample_log_inv] ok show ?thesis by simp
qed

text \<open>
  The same for a bitcoin HTLC that the remote party offers, against its own limits, on our
  commitment. The identifier must be the next one.
\<close>

theorem ReceiveHTLC_within_limits:
  assumes "ReceiveHTLC lc htlc = Inr (lc', i)"
    and "uah_AssetID htlc = BtcAssetId" and "cs_AssetID (channelState lc) = BtcAssetId"
    and "log_inv (localUpdateLog lc)" and "log_inv (remoteUpdateLog lc)"
  shows "i = uah_ID htlc \<and> uah_ID htlc = htlcCounter (remoteUpdateLog lc)
     \<and> uah_Amount htlc \<noteq> 0 \<and> MinHTLC (RemoteChanCfg (channelState lc)) \<le> uah_Amount htlc
     \<and> saneCommitment lc False (predictView lc (logIndex (remoteUpdateLog lc))
          (ourMessageIndex (tail (remoteCommitChain lc))) None (Some (receivedDescriptor lc htlc)))"
proof -
  let ?pd = "receivedDescriptor lc htlc"
  have id: "uah_ID htlc = htlcCounter (remoteUpdateLog lc)" "i = uah_ID htlc"
    and sane: "saneCommitment lc False (predictView lc (logIndex (remoteUpdateLog lc))
          (ourMessageIndex (tail (remoteCommitChain lc))) None (Some ?pd))"
    using assms(1,2) sanity_btc_iff [OF assms(3)] sanityGuards_btc [of ?pd]
    by (auto simp: ReceiveHTLC_def Let_def sbind_eq_Inr split: if_splits)
  from sane obtain b0 w v where v: "withinLimits (RemoteChanCfg (channelState lc)) (theirUpdates v)"
    "snd (computeView lc (predictView lc (logIndex (remoteUpdateLog lc)) (ourMessageIndex (tail (remoteCommitChain lc))) None (Some ?pd)) False False)
       = Inr (b0, w, v)" by (auto simp: saneCommitment_def)
  have "(nextElem (remoteUpdateLog lc), ?pd) \<in> set (theirUpdates v)"
    by (rule predicted_theirs_kept [OF v(2) assms(4,5)]) simp_all
  with v(1) sane id show ?thesis by (fastforce simp: withinLimits_def)
qed

theorem ReceiveHTLC_within_limits_witness:
  "is_ok (ReceiveHTLC (sampleChannel 0) (sampleHTLC 0 0 1000000 []))
   \<and> MinHTLC (RemoteChanCfg (channelState (sampleChannel 0))) \<le> 1000000"
proof -
  let ?lc = "sampleChannel 0" and ?m = "sampleHTLC 0 0 1000000 []"
  have f: "cs_AssetID (channelState ?lc) = BtcAssetId" "uah_AssetID ?m = BtcAssetId" "uah_Amount ?m = 1000000"
    "uah_ID ?m = 0" "htlcCounter (remoteUpdateLog ?lc) = 0" "logIndex (remoteUpdateLog ?lc) = 0"
    "ourMessageIndex (tail (remoteCommitChain ?lc)) = 0"
    by (simp_all add: sampleChannel_def sampleState_def sampleHTLC_def sampleCommitment_def BtcAssetId_def newUpdateLog_def tail_def)
  obtain lc' i where ok: "ReceiveHTLC ?lc ?m = Inr (lc', i)"
    using sample_receive_ok f by (simp add: ReceiveHTLC_def Let_def)
  with ReceiveHTLC_within_limits [OF ok _ _ sample_log_inv] ok f show ?thesis by simp
qed

section \<open>An asset HTLC is not checked\<close>

text \<open>A channel whose log was extended finds the HTLCs that it found before.\<close>

definition keepsHtlcs :: "LightningChannel \<Rightarrow> LightningChannel \<Rightarrow> bool" where
  "keepsHtlcs lc lc' \<longleftrightarrow>
     (\<forall>ours k p. lookupHtlc (otherLog ours lc) k = Some p \<longrightarrow> lookupHtlc (otherLog ours lc') k = Some p)"

lemma fetchParent_Inr:
  "fetchParent lc entry rc ours = Inr p \<longleftrightarrow>
     lookupHtlc (otherLog ours lc) (ParentIndex entry) = Some p \<and> addHeight rc p \<noteq> 0"
  by (auto simp: fetchParent_def otherLog_def addHeight_def split: option.splits)

lemma fetchParent_kept:
  "keepsHtlcs lc lc' \<Longrightarrow> fetchParent lc entry rc ours = Inr p \<Longrightarrow> fetchParent lc' entry rc ours = Inr p"
  by (simp add: keepsHtlcs_def fetchParent_Inr)

lemma evalState_comm:
  "(st\<lparr>es_lc := lc', es_fee := r\<rparr>) = (st\<lparr>es_fee := r, es_lc := lc'\<rparr>)"
  "(st\<lparr>es_lc := lc', es_skip := k\<rparr>) = (st\<lparr>es_skip := k, es_lc := lc'\<rparr>)"
  "(st\<lparr>es_lc := lc', es_bal := b, es_skip := k\<rparr>) = (st\<lparr>es_bal := b, es_skip := k, es_lc := lc'\<rparr>)"
  by simp_all

lemma removalLoop_kept:
  assumes "removalLoop ours h rc False es st = (st', None)" "keepsHtlcs (es_lc st) lc'"
  shows "removalLoop ours h rc False es (st\<lparr>es_lc := lc'\<rparr>) = (st'\<lparr>es_lc := lc'\<rparr>, None)"
  using assms
proof (induction ours h rc False es st rule: removalLoop.induct)
  case (2 ours h rc e entry es st)
  show ?case
  proof (cases "EntryType entry = Add \<or> EntryType entry = FeeUpdate")
    case True
    then show ?thesis using 2 by (auto simp: evalState_comm split: prod.splits)
  next
    case False
    then obtain q where q: "fetchParent (es_lc st) entry rc ours = Inr q"
      using "2.prems"(1) by (cases "fetchParent (es_lc st) entry rc ours") auto
    with False 2 fetchParent_kept [OF "2.prems"(2) q] show ?thesis by (auto simp: evalState_comm split: prod.splits)
  qed
qed simp

lemma removalLoop_snoc_Add:
  "EntryType p = Add \<Longrightarrow> removalLoop ours h rc m (es @ [(e, p)]) st = removalLoop ours h rc m es st"
  by (induction ours h rc m es st rule: removalLoop.induct) (auto simp: Let_def split: prod.splits sum.splits)

text \<open>What an evaluation without mutation takes from the balances does not depend on the balances.\<close>

definition shifted :: "balances \<Rightarrow> balances \<Rightarrow> balances \<Rightarrow> balances \<Rightarrow> bool" where
  "shifted b c b' c' \<longleftrightarrow> ourAsset c' = ourAsset b' + (ourAsset c - ourAsset b)
     \<and> theirAsset c' = theirAsset b' + (theirAsset c - theirAsset b)"

lemma addLoop_shifted:
  assumes "addLoop ours h rc False skip es lc b = (l, b', kept)"
  shows "\<exists>c'. addLoop ours h rc False skip es lc' c = (lc', c', kept) \<and> shifted b c b' c'"
  using assms
proof (induction ours h rc False skip es lc b arbitrary: c l b' kept rule: addLoop.induct)
  case (2 ours h rc skip e entry es lc b)
  show ?case
  proof (cases "EntryType entry \<noteq> Add \<or> HtlcIndex entry \<in> skip")
    case True
    then show ?thesis using 2 by auto
  next
    case False
    obtain x b1 where b1: "processAddEntry entry b h rc (\<not> ours) False = (x, b1)" by fastforce
    obtain c1 where c1: "processAddEntry entry c h rc (\<not> ours) False = (x, c1)" "shifted b c b1 c1"
      using b1 by (auto simp: processAddEntry_def shifted_def split: if_splits)
    obtain l2 b2 k2 where r: "addLoop ours h rc False skip es lc b1 = (l2, b2, k2)" by (metis prod_cases3)
    from "2.hyps"(2) [OF False b1 [symmetric] refl, of l2 b2 k2 c1] r
    obtain c2 where "addLoop ours h rc False skip es lc' c1 = (lc', c2, k2)" "shifted b1 c1 b2 c2" by auto
    with False b1 c1 r "2.prems" show ?thesis by (auto simp: shifted_def)
  qed
qed (simp add: shifted_def)

lemma addLoop_snoc:
  assumes "EntryType p = Add" "HtlcIndex p \<notin> skip" "addHeight rc p = 0"
    and "addLoop ours h rc False skip es lc b = (l, b', kept)"
  shows "addLoop ours h rc False skip (es @ [(e, p)]) lc b
    = (l, snd (processAddEntry p b' h rc (\<not> ours) False), kept @ [(e, p)])"
  using assms
proof (induction ours h rc False skip es lc b arbitrary: l b' kept rule: addLoop.induct)
  case (1 ours h rc skip lc b)
  then show ?case by (simp add: processAddEntry_def)
next
  case (2 ours h rc skip e entry es lc b)
  then show ?case by (auto split: if_splits prod.splits)
qed

definition debitAsset :: "bool \<Rightarrow> AssetAmount \<Rightarrow> balances \<Rightarrow> balances \<Rightarrow> bool" where
  "debitAsset ours amt b b' \<longleftrightarrow> ourAsset b' = ourAsset b - (if ours then amt else 0)
     \<and> theirAsset b' = theirAsset b - (if ours then 0 else amt)"

lemma resetAssetBtc_assets [simp]:
  "ourAsset (resetAssetBtc lc v b) = ourAsset b" "theirAsset (resetAssetBtc lc v b) = theirAsset b"
  by (simp_all add: resetAssetBtc_def Let_def)

lemma processAddEntry_debit:
  "addHeight rc p = 0 \<Longrightarrow> debitAsset ours (AssetAmount p) b (snd (processAddEntry p b h rc (\<not> ours) False))"
  by (simp add: processAddEntry_def debitAsset_def)

text \<open>A new HTLC at the end of a log: the evaluation takes its amount from its owner and is otherwise the same.\<close>

lemma evaluate_extended:
  assumes ev: "evaluateHTLCView lc v b h rc False = (l, Inr (b1, v1))"
    and inv: "log_inv (localUpdateLog lc)" "log_inv (remoteUpdateLog lc)" and keeps: "keepsHtlcs lc lc'"
    and p: "EntryType p = Add" "addHeight rc p = 0" "lookupHtlc (otherLog (\<not> ours) lc) (HtlcIndex p) = None"
    and v': "ourUpdates v' = ourUpdates v @ (if ours then [(e, p)] else [])" "v_feePerKw v' = v_feePerKw v"
      "theirUpdates v' = theirUpdates v @ (if ours then [] else [(e, p)])"
  shows "\<exists>l' b2 v2. evaluateHTLCView lc' v' b h rc False = (l', Inr (b2, v2)) \<and> debitAsset ours (AssetAmount p) b1 b2"
proof -
  let ?st = "\<lparr>es_lc = lc, es_bal = b, es_fee = v_feePerKw v, es_skip = {}\<rparr>"
  obtain st1 st2 lc3 b3 b4 o4 t4 where r: "removalLoop True h rc False (ourUpdates v) ?st = (st1, None)"
    "removalLoop False h rc False (theirUpdates v) (st1\<lparr>es_skip := {}\<rparr>) = (st2, None)"
    and a: "addLoop True h rc False (es_skip st2) (ourUpdates v) (es_lc st2) (es_bal st2) = (lc3, b3, o4)"
    "addLoop False h rc False (es_skip st1) (theirUpdates v) lc3 b3 = (l, b4, t4)"
    and b1: "b1 = resetAssetBtc l v1 b4"
    by (rule evaluate_cases [OF ev]) blast
  have lc: "es_lc st1 = lc" using removalLoop_pure [of True h rc "ourUpdates v" ?st] r(1) by simp
  have logs: "log_inv (otherLog x lc)" for x using inv by (simp add: otherLog_def)
  have skips: "if ours then HtlcIndex p \<notin> es_skip st2 else HtlcIndex p \<notin> es_skip st1"
    using removalLoop_skip [OF r(1)] removalLoop_skip [OF r(2)] logs lc p(3) by (cases ours) force+
  have r': "removalLoop True h rc False (ourUpdates v') (?st\<lparr>es_lc := lc'\<rparr>) = (st1\<lparr>es_lc := lc'\<rparr>, None)"
    "removalLoop False h rc False (theirUpdates v') (st1\<lparr>es_lc := lc', es_skip := {}\<rparr>) = (st2\<lparr>es_lc := lc'\<rparr>, None)"
    using removalLoop_kept [OF r(1), of lc'] removalLoop_kept [OF r(2), of lc'] keeps lc p(1)
    by (simp_all add: v' removalLoop_snoc_Add evalState_comm)
  obtain c3 where c3: "addLoop True h rc False (es_skip st2) (ourUpdates v) lc' (es_bal st2) = (lc', c3, o4)"
    "shifted (es_bal st2) (es_bal st2) b3 c3" using addLoop_shifted [OF a(1)] by blast
  obtain d3 o5 where d3: "addLoop True h rc False (es_skip st2) (ourUpdates v') lc' (es_bal st2) = (lc', d3, o5)"
    "if ours then debitAsset ours (AssetAmount p) c3 d3 else d3 = c3"
    using c3(1) addLoop_snoc [OF p(1) _ p(2) c3(1)] skips processAddEntry_debit [OF p(2), of ours c3 h] by (cases ours) (auto simp: v')
  obtain c4 where c4: "addLoop False h rc False (es_skip st1) (theirUpdates v) lc' d3 = (lc', c4, t4)"
    "shifted b3 d3 b4 c4" using addLoop_shifted [OF a(2)] by blast
  obtain d4 t5 where d4: "addLoop False h rc False (es_skip st1) (theirUpdates v') lc' d3 = (lc', d4, t5)"
    "if ours then d4 = c4 else debitAsset ours (AssetAmount p) c4 d4"
    using c4(1) addLoop_snoc [OF p(1) _ p(2) c4(1)] skips processAddEntry_debit [OF p(2), of ours c4 h] by (cases ours) (auto simp: v')
  have "debitAsset ours (AssetAmount p) b4 d4"
    using c3(2) d3(2) c4(2) d4(2) by (cases ours) (simp_all add: debitAsset_def shifted_def)
  then show ?thesis
    using r' d3(1) d4(1) by (simp add: evaluateHTLCView_def v'(2) b1 debitAsset_def Let_def)
qed

lemma computeView_extended:
  assumes "computeView lc v rc False = (l, Inr (b1, w, v1))"
    and "log_inv (localUpdateLog lc)" "log_inv (remoteUpdateLog lc)" "keepsHtlcs lc lc'"
    and "EntryType p = Add" "addHeight rc p = 0" "lookupHtlc (otherLog (\<not> ours) lc) (HtlcIndex p) = None"
    and "ourUpdates v' = ourUpdates v @ (if ours then [(e, p)] else [])"
      "theirUpdates v' = theirUpdates v @ (if ours then [] else [(e, p)])"
    and "chainOf lc' = chainOf lc" "startBalances lc' = startBalances lc"
  shows "\<exists>b2 w2 v2. snd (computeView lc' v' rc False) = Inr (b2, w2, v2) \<and> debitAsset ours (AssetAmount p) b1 b2"
proof -
  let ?rate = "feePerKw (tip (chainOf lc rc))"
  obtain l where ev: "evaluateHTLCView lc (v\<lparr>v_feePerKw := ?rate\<rparr>) (startBalances lc rc)
      (height (tip (chainOf lc rc)) + 1) rc False = (l, Inr (b1, v1))"
    using assms(1) by (auto simp: computeView_def Let_def split: prod.splits sum.splits)
  from evaluate_extended [OF ev assms(2-7), of "v'\<lparr>v_feePerKw := ?rate\<rparr>" e] assms(8,9)
  obtain l' b2 v2 where "evaluateHTLCView lc' (v'\<lparr>v_feePerKw := ?rate\<rparr>) (startBalances lc rc)
      (height (tip (chainOf lc rc)) + 1) rc False = (l', Inr (b2, v2))" "debitAsset ours (AssetAmount p) b1 b2" by auto
  then show ?thesis by (simp add: computeView_def Let_def assms(10,11))
qed

lemma lookup_counter: "log_inv u \<Longrightarrow> lookupHtlc u (htlcCounter u) = None"
  using log_invD(6,8) by (fastforce simp: lookupHtlc_def split: option.splits)

lemma keepsHtlcs_append:
  assumes "log_inv (localUpdateLog lc)" "log_inv (remoteUpdateLog lc)"
  shows "keepsHtlcs lc (lc\<lparr>localUpdateLog := appendHtlc (localUpdateLog lc) pd\<rparr>)"
    and "keepsHtlcs lc (lc\<lparr>remoteUpdateLog := appendHtlc (remoteUpdateLog lc) pd\<rparr>)"
  using lookup_counter [OF assms(1)] lookup_counter [OF assms(2)]
  by (auto simp: keepsHtlcs_def otherLog_def lookupHtlc_appendHtlc assms)

lemma below_append:
  assumes "log_inv u" "logIndex u + 1 \<noteq> 0" "LogIndex pd = logIndex u"
  shows "below (logIndex u + 1) (entries u @ [(e, pd)]) = below (logIndex u) (entries u) @ [(e, pd)]"
proof -
  have lt: "logIndex u < logIndex u + 1" using word_less_succ [OF assms(2)] by simp
  have "LogIndex p < logIndex u + 1 \<longleftrightarrow> LogIndex p < logIndex u" if "(f, p) \<in> set (entries u)" for f p
    using log_invD(4) [OF assms(1) that] lt by simp
  then show ?thesis using lt assms(3) by (auto simp: below_def intro!: filter_cong)
qed

lemma new_descriptor_fields [simp]:
  "addHeight rc (htlcAddDescriptor lc htlc k) = 0" "addHeight rc (receivedDescriptor lc htlc) = 0"
  "uah_AssetID htlc \<noteq> BtcAssetId \<Longrightarrow> AssetAmount (htlcAddDescriptor lc htlc k) = uah_Amount htlc"
  "uah_AssetID htlc \<noteq> BtcAssetId \<Longrightarrow> AssetAmount (receivedDescriptor lc htlc) = uah_Amount htlc"
  by (simp_all add: htlcAddDescriptor_def receivedDescriptor_def SetAmtFromMsgHtlc_def zeroPD_def Let_def addHeight_def)

lemma asset_HTLC_accepted:
  assumes "uah_AssetID htlc \<noteq> BtcAssetId"
  shows "AddHTLC lc htlc openKey
       = Inr (lc\<lparr>localUpdateLog := appendHtlc (localUpdateLog lc) (htlcAddDescriptor lc htlc openKey)\<rparr>,
              htlcCounter (localUpdateLog lc))"
    and "uah_ID htlc = htlcCounter (remoteUpdateLog lc) \<Longrightarrow>
       ReceiveHTLC lc htlc
       = Inr (lc\<lparr>remoteUpdateLog := appendHtlc (remoteUpdateLog lc) (receivedDescriptor lc htlc)\<rparr>,
              htlcCounter (remoteUpdateLog lc))"
  using assms
  by (simp_all add: AddHTLC_def ReceiveHTLC_def validateAddHtlc_def validateCommitmentSanity_def sanityGuards_def
      Let_def BtcAssetId_def word_neq_0_conv)

text \<open>The balances of the next commitment of a chain that takes the updates below the two indexes.\<close>

definition nextBalances :: "LightningChannel \<Rightarrow> bool \<Rightarrow> u64 \<Rightarrow> u64 \<Rightarrow> balances option" where
  "nextBalances lc remoteChain theirLogIndex ourLogIndex =
     (case snd (computeView lc (fetchHTLCView lc theirLogIndex ourLogIndex) remoteChain False) of
        Inl _ \<Rightarrow> None | Inr (b, _) \<Rightarrow> Some b)"

lemma nextBalances_Some:
  "nextBalances lc rc t i = Some b \<longleftrightarrow> (\<exists>l w v. computeView lc (fetchHTLCView lc t i) rc False = (l, Inr (b, w, v)))"
  by (cases "computeView lc (fetchHTLCView lc t i) rc False") (auto simp: nextBalances_def split: sum.splits)

lemma startBalances_logs [simp]:
  "chainOf (lc\<lparr>localUpdateLog := u\<rparr>) = chainOf lc" "chainOf (lc\<lparr>remoteUpdateLog := u\<rparr>) = chainOf lc"
  "startBalances (lc\<lparr>localUpdateLog := u\<rparr>) = startBalances lc" "startBalances (lc\<lparr>remoteUpdateLog := u\<rparr>) = startBalances lc"
  by (simp_all add: fun_eq_iff chainOf_def startBalances_def Let_def)

lemma nextBalances_add:
  assumes "nextBalances lc rc t (logIndex (localUpdateLog lc)) = Some b" "uah_AssetID htlc \<noteq> BtcAssetId"
    and inv: "log_inv (localUpdateLog lc)" "log_inv (remoteUpdateLog lc)" and wrap: "logIndex (localUpdateLog lc) + 1 \<noteq> 0"
    and lc1_def: "lc1 = lc\<lparr>localUpdateLog := appendHtlc (localUpdateLog lc) (htlcAddDescriptor lc htlc k)\<rparr>"
  shows "\<exists>b'. nextBalances lc1 rc t (logIndex (localUpdateLog lc1)) = Some b' \<and> debitAsset True (uah_Amount htlc) b b'"
proof -
  obtain l w v where view: "computeView lc (fetchHTLCView lc t (logIndex (localUpdateLog lc))) rc False = (l, Inr (b, w, v))"
    using assms(1) by (auto simp: nextBalances_Some)
  have "\<exists>b2 w2 v2. snd (computeView lc1 (fetchHTLCView lc1 t (logIndex (localUpdateLog lc1))) rc False) = Inr (b2, w2, v2)
      \<and> debitAsset True (AssetAmount (htlcAddDescriptor lc htlc k)) b b2"
    by (rule computeView_extended [OF view inv])
      (simp_all add: lc1_def keepsHtlcs_append inv otherLog_def lookup_counter fetchHTLCView_below append_simps below_append wrap)
  then show ?thesis using assms(2) by (auto simp: nextBalances_def)
qed

lemma nextBalances_receive:
  assumes "nextBalances lc rc (logIndex (remoteUpdateLog lc)) i = Some b" "uah_AssetID htlc \<noteq> BtcAssetId"
    and inv: "log_inv (localUpdateLog lc)" "log_inv (remoteUpdateLog lc)" and wrap: "logIndex (remoteUpdateLog lc) + 1 \<noteq> 0"
    and lc1_def: "lc1 = lc\<lparr>remoteUpdateLog := appendHtlc (remoteUpdateLog lc) (receivedDescriptor lc htlc)\<rparr>"
  shows "\<exists>b'. nextBalances lc1 rc (logIndex (remoteUpdateLog lc1)) i = Some b' \<and> debitAsset False (uah_Amount htlc) b b'"
proof -
  obtain l w v where view: "computeView lc (fetchHTLCView lc (logIndex (remoteUpdateLog lc)) i) rc False = (l, Inr (b, w, v))"
    using assms(1) by (auto simp: nextBalances_Some)
  have "\<exists>b2 w2 v2. snd (computeView lc1 (fetchHTLCView lc1 (logIndex (remoteUpdateLog lc1)) i) rc False) = Inr (b2, w2, v2)
      \<and> debitAsset False (AssetAmount (receivedDescriptor lc htlc)) b b2"
    by (rule computeView_extended [OF view inv])
      (simp_all add: lc1_def keepsHtlcs_append inv otherLog_def lookup_counter fetchHTLCView_below append_simps below_append wrap)
  then show ?thesis using assms(2) by (auto simp: nextBalances_def)
qed

lemma overdraft:
  fixes a m :: i64
  assumes "0 \<le> sint a" "sint a < sint m"
  shows "sint (a - m) < 0"
proof -
  have "sint m < 2 ^ 63" using sint_lt [of m] by simp
  then have "sint (a - m) = sint a - sint m"
    using assms by (simp add: sint_word_ariths signed_take_bit_int_eq_self)
  then show ?thesis using assms by simp
qed

text \<open>
  C33. An HTLC that carries an asset is accepted in both directions whatever its amount and whatever
  the balances, and nothing later in the evaluation objects: the next commitment of either chain is
  computed as before, with the amount taken from the asset balance of the party that offers the HTLC
  and the other asset balance unchanged. When the amount exceeds the balance, the asset balance of
  that commitment is negative.
\<close>

theorem asset_HTLC_overdraws:
  assumes asset: "uah_AssetID htlc \<noteq> BtcAssetId"
    and inv: "log_inv (localUpdateLog lc)" "log_inv (remoteUpdateLog lc)"
    and wrap: "logIndex (localUpdateLog lc) + 1 \<noteq> 0" "logIndex (remoteUpdateLog lc) + 1 \<noteq> 0"
  shows "(\<exists>lc1. AddHTLC lc htlc openKey = Inr (lc1, htlcCounter (localUpdateLog lc))
     \<and> (\<forall>rc theirs b. nextBalances lc rc theirs (logIndex (localUpdateLog lc)) = Some b \<longrightarrow>
          (\<exists>b'. nextBalances lc1 rc theirs (logIndex (localUpdateLog lc1)) = Some b'
             \<and> ourAsset b' = ourAsset b - uah_Amount htlc \<and> theirAsset b' = theirAsset b
             \<and> (0 \<le> sint (ourAsset b) \<and> sint (ourAsset b) < sint (uah_Amount htlc) \<longrightarrow> sint (ourAsset b') < 0))))
   \<and> (uah_ID htlc = htlcCounter (remoteUpdateLog lc) \<longrightarrow>
     (\<exists>lc2. ReceiveHTLC lc htlc = Inr (lc2, htlcCounter (remoteUpdateLog lc))
     \<and> (\<forall>rc ours b. nextBalances lc rc (logIndex (remoteUpdateLog lc)) ours = Some b \<longrightarrow>
          (\<exists>b'. nextBalances lc2 rc (logIndex (remoteUpdateLog lc2)) ours = Some b'
             \<and> theirAsset b' = theirAsset b - uah_Amount htlc \<and> ourAsset b' = ourAsset b
             \<and> (0 \<le> sint (theirAsset b) \<and> sint (theirAsset b) < sint (uah_Amount htlc) \<longrightarrow> sint (theirAsset b') < 0)))))"
proof (intro conjI impI, goal_cases)
  case 1
  show ?case
    using nextBalances_add [OF _ asset inv wrap(1) refl] overdraft
    by (fastforce simp: asset_HTLC_accepted(1) [OF asset] debitAsset_def)
next
  case 2
  show ?case
    using nextBalances_receive [OF _ asset inv wrap(2) refl] overdraft
    by (fastforce simp: asset_HTLC_accepted(2) [OF asset 2] debitAsset_def)
qed

text \<open>
  On a channel of asset 31 without any asset balance, an HTLC of five units is accepted from either
  side, and the next commitment has an asset balance of minus five on the side that offered it.
\<close>

lemma sample_no_assets:
  "map_option (\<lambda>b. (ourAsset b, theirAsset b)) (nextBalances (sampleChannel 31) True 0 0) = Some (0, 0)"
  by code_simp

theorem asset_HTLC_overdraws_witness:
  "\<exists>lc1 lc2 b1 b2. AddHTLC (sampleChannel 31) (sampleHTLC 31 0 5 []) None = Inr (lc1, 0)
     \<and> ReceiveHTLC (sampleChannel 31) (sampleHTLC 31 0 5 []) = Inr (lc2, 0)
     \<and> nextBalances lc1 True 0 (logIndex (localUpdateLog lc1)) = Some b1 \<and> sint (ourAsset b1) < 0
     \<and> nextBalances lc2 True (logIndex (remoteUpdateLog lc2)) 0 = Some b2 \<and> sint (theirAsset b2) < 0"
proof -
  obtain b where b: "nextBalances (sampleChannel 31) True 0 0 = Some b" "ourAsset b = 0" "theirAsset b = 0"
    using sample_no_assets by auto
  have f: "uah_AssetID (sampleHTLC 31 0 5 []) \<noteq> BtcAssetId" "uah_ID (sampleHTLC 31 0 5 []) = 0" "sint (uah_Amount (sampleHTLC 31 0 5 [])) = 5"
    "htlcCounter (localUpdateLog (sampleChannel 31)) = 0" "htlcCounter (remoteUpdateLog (sampleChannel 31)) = 0"
    "logIndex (localUpdateLog (sampleChannel 31)) = 0" "logIndex (remoteUpdateLog (sampleChannel 31)) = 0"
    by (simp_all add: sampleHTLC_def BtcAssetId_def sampleChannel_def newUpdateLog_def)
  note t = asset_HTLC_overdraws [OF f(1) sample_log_inv [of 31], where openKey = None]
  show ?thesis using t f b by fastforce
qed

lemma counter_unmodified: "log_inv u \<Longrightarrow> htlcCounter u \<notin> modifiedHtlcs u"
  using log_invD(6,8,10) by (fastforce simp: dom_def)

lemma settle_received_iff:
  assumes "ReceiveHTLC lc htlc = Inr (lc1, i)" and "log_inv (remoteUpdateLog lc)"
  shows "is_ok (SettleHTLC lc1 preimage i s d c) \<longleftrightarrow> sha256 preimage = uah_PaymentHash htlc"
proof -
  have "i = htlcCounter (remoteUpdateLog lc)"
    "remoteUpdateLog lc1 = appendHtlc (remoteUpdateLog lc) (receivedDescriptor lc htlc)"
    using assms(1) by (auto simp: ReceiveHTLC_def Let_def sbind_eq_Inr split: if_splits)
  then show ?thesis
    using counter_unmodified [OF assms(2)]
    by (auto simp: SettleHTLC_def lookupHtlc_appendHtlc [OF assms(2)] htlcHasModification_def append_simps Let_def)
qed

text \<open>
  C25. After an HTLC was received, settling it succeeds exactly with the preimage of its payment
  hash; a settle entry with the amounts of the HTLC enters our log, and from then on no settle and
  no failure of the same HTLC is accepted.
\<close>

theorem settle_received_HTLC:
  assumes "ReceiveHTLC lc htlc = Inr (lc1, i)" and "log_inv (remoteUpdateLog lc)"
    and "logIndex (remoteUpdateLog lc) + 1 \<noteq> 0" "htlcCounter (remoteUpdateLog lc) + 1 \<noteq> 0"
  shows "(is_ok (SettleHTLC lc1 preimage i s d c) \<longleftrightarrow> sha256 preimage = uah_PaymentHash htlc)
     \<and> (SettleHTLC lc1 preimage i s d c = Inr lc2 \<longrightarrow>
       (\<exists>pd. localUpdateLog lc2 = appendUpdate (localUpdateLog lc1) pd \<and> EntryType pd = Settle
          \<and> sameAmount pd (receivedDescriptor lc htlc) \<and> ParentIndex pd = i)
       \<and> \<not> is_ok (SettleHTLC lc2 preimage' i s' d' c') \<and> \<not> is_ok (FailHTLC lc2 i reason s' d' c')
       \<and> \<not> is_ok (MalformedFailHTLC lc2 i code sha s'))"
proof (intro conjI impI)
  show "is_ok (SettleHTLC lc1 preimage i s d c) \<longleftrightarrow> sha256 preimage = uah_PaymentHash htlc"
    using settle_received_iff [OF assms(1,2)] .
  have lc1: "i = htlcCounter (remoteUpdateLog lc)"
    "remoteUpdateLog lc1 = appendHtlc (remoteUpdateLog lc) (receivedDescriptor lc htlc)"
    using assms(1) by (auto simp: ReceiveHTLC_def Let_def sbind_eq_Inr split: if_splits)
  have inv: "log_inv (otherLog True lc1)"
    using log_inv_appendHtlc [OF assms(2) _ _ _ assms(3,4), of "receivedDescriptor lc htlc"] lc1 by (simp add: otherLog_def)
  assume settled: "SettleHTLC lc1 preimage i s d c = Inr lc2"
  have m: "i \<in> modifiedHtlcs (otherLog True lc2)" using settle.marked [OF settled inv] .
  show "\<not> is_ok (SettleHTLC lc2 preimage' i s' d' c')" "\<not> is_ok (FailHTLC lc2 i reason s' d' c')"
    "\<not> is_ok (MalformedFailHTLC lc2 i code sha s')"
    using settle.modified [OF m] fail.modified [OF m] malformed.modified [OF m] by auto
  show "\<exists>pd. localUpdateLog lc2 = appendUpdate (localUpdateLog lc1) pd \<and> EntryType pd = Settle
          \<and> sameAmount pd (receivedDescriptor lc htlc) \<and> ParentIndex pd = i"
    using settled lc1
    by (auto simp: SettleHTLC_def lookupHtlc_appendHtlc [OF assms(2)] sameAmount_def Let_def split: if_splits)
qed

lemma sample_receive_asset:
  "ReceiveHTLC (sampleChannel 31) (sampleHTLC 31 0 5 (sha256 (replicate 32 7)))
     = Inr ((sampleChannel 31)\<lparr>remoteUpdateLog := appendHtlc (newUpdateLog 0 0)
              (receivedDescriptor (sampleChannel 31) (sampleHTLC 31 0 5 (sha256 (replicate 32 7))))\<rparr>, 0)"
  by (simp add: ReceiveHTLC_def validateCommitmentSanity_def sanityGuards_def sampleChannel_def newUpdateLog_def
      sampleHTLC_def BtcAssetId_def Let_def receivedDescriptor_def SetAmtFromMsgHtlc_def zeroPD_def)

theorem settle_received_HTLC_witness:
  "\<exists>lc1 lc2. ReceiveHTLC (sampleChannel 31) (sampleHTLC 31 0 5 (sha256 (replicate 32 7))) = Inr (lc1, 0)
     \<and> SettleHTLC lc1 (replicate 32 7) 0 None None None = Inr lc2
     \<and> \<not> is_ok (FailHTLC lc2 0 [] None None None)"
proof -
  let ?r = "remoteUpdateLog (sampleChannel 31)"
  have nw: "logIndex ?r + 1 \<noteq> 0" "htlcCounter ?r + 1 \<noteq> 0" by (simp_all add: sampleChannel_def newUpdateLog_def)
  note * = settle_received_HTLC [OF sample_receive_asset sample_log_inv(2) nw]
  have "uah_PaymentHash (sampleHTLC 31 0 5 (sha256 (replicate 32 7))) = sha256 (replicate 32 7)"
    by (simp add: sampleHTLC_def)
  with * [of "replicate 32 7" None None None _ "[]" None None None "[]" 0 "[]"] sample_receive_asset show ?thesis
    by (metis is_ok_def sum.case_eq_if sum.collapse(2))
qed

lemma fetch_with_rate:
  "ourUpdates ((fetchHTLCView lc ti oi)\<lparr>v_feePerKw := f\<rparr>) = below oi (entries (localUpdateLog lc))"
  "theirUpdates ((fetchHTLCView lc ti oi)\<lparr>v_feePerKw := f\<rparr>) = below ti (entries (remoteUpdateLog lc))"
  by (simp_all add: fetchHTLCView_below)

lemma startBalances_total:
  "total False (startBalances lc rc) = ourBtcBalance (tip (chainOf lc rc)) + theirBtcBalance (tip (chainOf lc rc))
     + NewMSatFromSatoshis (fee (tip (chainOf lc rc)))"
  "total True (startBalances lc rc) = ourAssetBalance (tip (chainOf lc rc)) + theirAssetBalance (tip (chainOf lc rc))"
  by (auto simp: total_def startBalances_def Let_def)

lemma computeView_total:
  assumes inv: "logs_inv (localUpdateLog lc) (remoteUpdateLog lc)" "committedBelow rc lc ti oi"
    and cv: "computeView lc (fetchHTLCView lc ti oi) rc m = (lc', Inr (b, w, v))"
  shows "ourAsset b + theirAsset b + htlcValue True v
       = ourAssetBalance (tip (chainOf lc rc)) + theirAssetBalance (tip (chainOf lc rc))
         + inFlight True rc (fetchHTLCView lc ti oi)
     \<and> (cs_AssetID (channelState lc) = BtcAssetId \<longrightarrow>
          ourBtc b + theirBtc b + htlcValue False v
          = ourBtcBalance (tip (chainOf lc rc)) + theirBtcBalance (tip (chainOf lc rc))
            + NewMSatFromSatoshis (fee (tip (chainOf lc rc))) + inFlight False rc (fetchHTLCView lc ti oi))"
proof -
  obtain lc1 where ev: "evaluateHTLCView lc ((fetchHTLCView lc ti oi)\<lparr>v_feePerKw := feePerKw (tip (chainOf lc rc))\<rparr>)
      (startBalances lc rc) (height (tip (chainOf lc rc)) + 1) rc m = (lc1, Inr (b, v))"
    using computeView_evaluate [of lc "fetchHTLCView lc ti oi" rc m] cv by auto
  note * = evaluate_total [OF inv fetch_with_rate ev]
  have "inFlight a rc ((fetchHTLCView lc ti oi)\<lparr>v_feePerKw := f\<rparr>) = inFlight a rc (fetchHTLCView lc ti oi)" for a f
    by (simp add: inFlight_def)
  with * [of True] * [of False] startBalances_total show ?thesis by (auto simp: total_def)
qed

text \<open>
  C23. Computing a commitment conserves value on either chain, with or without mutation: in a
  bitcoin channel, the balances and the HTLCs of the new commitment add up to the balances and the
  fee of the previous commitment and the HTLCs that it carried; the asset balances and asset HTLCs
  add up in every channel.
\<close>

theorem computeView_conserves:
  assumes inv: "logs_inv (localUpdateLog lc) (remoteUpdateLog lc)" "committedBelow rc lc ti oi"
    and cv: "computeView lc (fetchHTLCView lc ti oi) rc m = (lc', Inr (b, w, v))"
  shows "ourAsset b + theirAsset b + htlcValue True v
       = ourAssetBalance (tip (chainOf lc rc)) + theirAssetBalance (tip (chainOf lc rc))
         + inFlight True rc (fetchHTLCView lc ti oi)
     \<and> (cs_AssetID (channelState lc) = BtcAssetId \<longrightarrow>
          ourBtc b + theirBtc b + htlcValue False v
          = ourBtcBalance (tip (chainOf lc rc)) + theirBtcBalance (tip (chainOf lc rc))
            + NewMSatFromSatoshis (fee (tip (chainOf lc rc))) + inFlight False rc (fetchHTLCView lc ti oi))"
  using assms by (rule computeView_total)

definition offered :: LightningChannel where
  "offered = (sampleChannel 0)\<lparr>localUpdateLog :=
     appendHtlc (localUpdateLog (sampleChannel 0))
       (htlcAddDescriptor (sampleChannel 0) (sampleHTLC 0 0 1000000 []) None)\<rparr>"

lemma offered_view_ok: "is_ok (snd (computeView offered (fetchHTLCView offered 0 1) True False))"
  by code_simp

lemma offered_inv: "logs_inv (localUpdateLog offered) (remoteUpdateLog offered)"
proof -
  have "logs_inv (appendHtlc (localUpdateLog (sampleChannel 0))
          (htlcAddDescriptor (sampleChannel 0) (sampleHTLC 0 0 1000000 []) None)) (remoteUpdateLog (sampleChannel 0))"
    by (rule logs_inv_add [OF sample_logs_inv]) (simp_all add: sampleChannel_def newUpdateLog_def)
  then show ?thesis by (simp add: offered_def)
qed

lemma offered_values:
  "ourBtcBalance (tip (chainOf offered True)) + theirBtcBalance (tip (chainOf offered True))
     + NewMSatFromSatoshis (fee (tip (chainOf offered True))) + inFlight False True (fetchHTLCView offered 0 1) = 1000000000"
  by code_simp

theorem computeView_conserves_witness:
  "\<exists>lc' b w v. computeView offered (fetchHTLCView offered 0 1) True False = (lc', Inr (b, w, v))
     \<and> ourBtc b + theirBtc b + htlcValue False v = 1000000000"
proof -
  obtain lc' b w v where cv: "computeView offered (fetchHTLCView offered 0 1) True False = (lc', Inr (b, w, v))"
    using offered_view_ok by (metis is_ok_def prod.collapse sum.case_eq_if sum.collapse(2) prod_cases3)
  have "committedBelow True offered 0 1" by code_simp
  moreover have "cs_AssetID (channelState offered) = BtcAssetId"
    by (simp add: offered_def sampleChannel_def sampleState_def BtcAssetId_def)
  ultimately have "ourBtc b + theirBtc b + htlcValue False v = 1000000000"
    using computeView_conserves [OF offered_inv _ cv] offered_values by simp
  with cv show ?thesis by blast
qed

text \<open>
  C24. Compacting the logs never fails, keeps the invariant of the two logs, and removes exactly the
  settle, fail and fee entries that both chain tails have passed, together with the HTLCs that they
  refer to; the counters stay.
\<close>

theorem compaction_exact:
  assumes "logs_inv A B"
  shows "\<exists>A' B'. compactLogs A B lt rt = Some (A', B') \<and> logs_inv A' B'
     \<and> entries A' = keepHtlcs (evictedParents lt rt (entries B)) (keepEntries lt rt (entries A))
     \<and> entries B' = keepHtlcs (evictedParents lt rt (entries A)) (keepEntries lt rt (entries B))
     \<and> logIndex A' = logIndex A \<and> htlcCounter A' = htlcCounter A
     \<and> logIndex B' = logIndex B \<and> htlcCounter B' = htlcCounter B"
  using assms by (rule compactLogs_ok)

definition settledAdd :: PaymentDescriptor where
  "settledAdd = zeroPD\<lparr>EntryType := Add, BtcAmount := 5000, addCommitHeightLocal := 2, addCommitHeightRemote := 2\<rparr>"

definition settledEntry :: PaymentDescriptor where
  "settledEntry = zeroPD\<lparr>EntryType := Settle, BtcAmount := 5000, removeCommitHeightLocal := 3, removeCommitHeightRemote := 3\<rparr>"

lemma new_log_fields [simp]:
  "logIndex (newUpdateLog a b) = a" "htlcCounter (newUpdateLog a b) = b" "entries (newUpdateLog a b) = []"
  "modifiedHtlcs (newUpdateLog a b) = {}" "nextElem (newUpdateLog a b) = 0"
  by (simp_all add: newUpdateLog_def)

lemma settled_fields [simp]:
  "EntryType settledAdd = Add" "LogIndex settledAdd = 0" "HtlcIndex settledAdd = 0"
  "EntryType settledEntry = Settle" "LogIndex settledEntry = 0" "ParentIndex settledEntry = 0"
  "sameAmount settledEntry settledAdd" "lockedIn 3 3 settledEntry"
  by (simp_all add: settledEntry_def settledAdd_def zeroPD_def sameAmount_def lockedIn_def)

lemma settled_logs_inv:
  "logs_inv (appendUpdate (newUpdateLog 0 0) settledEntry)
            (markHtlcModified (appendHtlc (newUpdateLog 0 0) settledAdd) 0)"
proof (rule logs_inv_removal [where h = settledAdd])
  have "logs_inv (appendHtlc (newUpdateLog 0 0) settledAdd) (newUpdateLog 0 0)"
    by (rule logs_inv_add [OF logs_inv_new]) simp_all
  then show "logs_inv (newUpdateLog 0 0) (appendHtlc (newUpdateLog 0 0) settledAdd)" by (simp add: logs_inv_sym)
qed (simp_all add: isRemoval_def lookupHtlc_appendHtlc [OF log_inv_new] append_simps)

theorem compaction_exact_witness:
  "\<exists>A' B'. compactLogs (appendUpdate (newUpdateLog 0 0) settledEntry)
        (markHtlcModified (appendHtlc (newUpdateLog 0 0) settledAdd) 0) 3 3 = Some (A', B')
     \<and> entries A' = [] \<and> entries B' = []"
proof -
  let ?A = "appendUpdate (newUpdateLog 0 0) settledEntry"
  let ?B = "markHtlcModified (appendHtlc (newUpdateLog 0 0) settledAdd) 0"
  have "keepHtlcs (evictedParents 3 3 (entries ?B)) (keepEntries 3 3 (entries ?A)) = []"
    "keepHtlcs (evictedParents 3 3 (entries ?A)) (keepEntries 3 3 (entries ?B)) = []"
    by (simp_all add: append_simps mark_simps keepEntries_def lockedIn_final keepHtlcs_def evictedParents_Cons isRemoval_def)
  with compaction_exact [OF settled_logs_inv, of 3 3] show ?thesis by auto
qed

end
