(* ===== verification/Wire_Canonical.thy ===== *)
theory Wire_Canonical
  imports Lnwire_Messages
begin

text \<open>
  The wire format read backwards: what a decoder of \<open>src/oblnd/lnwire\<close> accepts is exactly the
  encoding of the message it returns, so every accepted byte string is the encoding of one message
  and nothing else is accepted. The contract of a canonical element and of a canonical message are
  locales; the messages of the commitment protocol are interpretations. The properties of the wire
  format stand at the end.
\<close>

section \<open>Bytes that spell a word\<close>

lemma be_val_inj: "length xs = length ys \<Longrightarrow> be_val xs = be_val ys \<Longrightarrow> xs = ys"
proof (induction xs ys rule: list_induct2)
  case (Cons x xs y ys)
  have "unat x = (unat x * 256 ^ length xs + be_val xs) div 256 ^ length xs"
    using be_val_bound [of xs] by simp
  also have "\<dots> = (unat y * 256 ^ length ys + be_val ys) div 256 ^ length ys"
    using Cons.prems Cons.hyps by simp
  also have "\<dots> = unat y" using be_val_bound [of ys] by simp
  finally have "x = y" by (simp add: word_unat_eq_iff)
  with Cons show ?case by simp
qed simp

lemma put_get_word:
  assumes "length bs = n" "LENGTH('a) = 8 * n"
  shows "put_word n (get_word bs :: 'a::len word) = bs"
proof (rule be_val_inj)
  have "be_val bs < 2 ^ LENGTH('a)" using be_val_bound [of bs] assms by (simp add: power_mult)
  then have "unat (get_word bs :: 'a word) = be_val bs"
    by (simp add: get_word_be_val unat_of_nat)
  then show "be_val (put_word n (get_word bs :: 'a word)) = be_val bs"
    using be_val_bound [of bs] assms(1) by (simp add: put_word_be_nat be_val_be_nat)
qed (simp add: assms)

section \<open>Canonical elements\<close>

locale canonical_element = element +
  assumes get_canonical: "get r = Inr (x, rest) \<Longrightarrow> wf x \<and> r = put x @ rest"
begin

lemma readMany_canonical:
  "readMany get n r = Inr (xs, rest) \<Longrightarrow> length xs = n \<and> (\<forall>x \<in> set xs. wf x) \<and> r = concat (map put xs) @ rest"
  by (induction n arbitrary: r xs) (auto simp: sbind_eq_Inr dest!: get_canonical)

end

lemma readN_InrD: "readN n r = Inr (b, rest) \<Longrightarrow> length b = n \<and> r = b @ rest"
  by (auto simp: readN_def dest: read_full_InrD split: sum.splits)

interpretation can_u16: canonical_element WriteUint16 readUint16 "\<lambda>_. True"
  by unfold_locales
    (auto simp: WriteUint16_def readUint16_def sbind_eq_Inr put_get_word dest!: readN_InrD)

interpretation can_u32: canonical_element WriteUint32 readUint32 "\<lambda>_. True"
  by unfold_locales
    (auto simp: WriteUint32_def readUint32_def sbind_eq_Inr put_get_word dest!: readN_InrD)

interpretation can_u64: canonical_element WriteUint64 readUint64 "\<lambda>_. True"
  by unfold_locales
    (auto simp: WriteUint64_def readUint64_def sbind_eq_Inr put_get_word dest!: readN_InrD)

interpretation can_bytes: canonical_element WriteBytes "readN n" "\<lambda>b. length b = n" for n
  by unfold_locales (auto simp: WriteBytes_def dest!: readN_InrD)

interpretation can_chanid: canonical_element WriteChannelID readChannelID "\<lambda>c. length c = 32"
  by unfold_locales (auto simp: WriteChannelID_def readChannelID_def WriteBytes_def dest!: readN_InrD)

interpretation can_sig: canonical_element WriteSig readSig "\<lambda>s. length s = 64"
  by unfold_locales (auto simp: WriteSig_def readSig_def WriteBytes_def dest!: readN_InrD)

lemma u16_length: "n = unat (l :: u16) \<Longrightarrow> n < 2 ^ 16 \<and> (of_nat n :: u16) = l"
  using unat_lt [of l] by simp

interpretation can_sigs: canonical_element WriteSigs readSigs "\<lambda>ss. length ss < 2 ^ 16 \<and> (\<forall>s \<in> set ss. length s = 64)"
proof
  fix r ss rest assume "readSigs r = Inr (ss, rest)"
  then obtain l r' where l: "readUint16 r = Inr (l, r')" "readMany readSig (unat l) r' = Inr (ss, rest)"
    by (auto simp: readSigs_def sbind_eq_Inr readSigsLoop_readMany)
  from can_u16.get_canonical [OF l(1)] can_sig.readMany_canonical [OF l(2)] u16_length [of "length ss" l]
  show "(length ss < 2 ^ 16 \<and> (\<forall>s \<in> set ss. length s = 64)) \<and> r = WriteSigs ss @ rest"
    by (simp add: WriteSigs_def)
qed

interpretation can_data: canonical_element writeDataWithLength readDataWithLength "\<lambda>d. length d < 2 ^ 16"
proof
  fix r d rest assume "readDataWithLength r = Inr (d, rest)"
  then obtain l r' where l: "readUint16 r = Inr (l, r')" "readN (unat l) r' = Inr (d, rest)"
    by (auto simp: readDataWithLength_def sbind_eq_Inr)
  from can_u16.get_canonical [OF l(1)] readN_InrD [OF l(2)] u16_length [of "length d" l]
  show "length d < 2 ^ 16 \<and> r = writeDataWithLength d @ rest"
    by (simp add: writeDataWithLength_def WriteUint16_def)
qed

lemmas canonical_dests =
  can_u16.get_canonical can_u32.get_canonical can_u64.get_canonical can_bytes.get_canonical
  can_chanid.get_canonical can_sig.get_canonical can_sigs.get_canonical can_data.get_canonical

section \<open>Canonical messages\<close>

locale canonical_message = wire_message +
  assumes decode_canonical: "Decode r = Inr (m, rest) \<Longrightarrow> wf m \<and> rest = [] \<and> Encode m = Inr r"
begin

lemma decode_iff: "Decode r = Inr (m, rest) \<longleftrightarrow> rest = [] \<and> wf m \<and> Encode m = Inr r"
  using decode_canonical [of r m rest] encode_decode [of m] by auto

lemma decode_inj: "Decode r = Inr (m, rest) \<Longrightarrow> Decode r' = Inr (m, rest') \<Longrightarrow> r = r'"
  using decode_canonical [of r m rest] decode_canonical [of r' m rest'] by simp

end

interpretation cm_UpdateAddHTLC: canonical_message UpdateAddHTLC_Encode UpdateAddHTLC_Decode UpdateAddHTLC_wf
  by unfold_locales
    (auto simp: UpdateAddHTLC_Encode_def UpdateAddHTLC_Decode_def UpdateAddHTLC_wf_def sbind_eq_Inr
      ExtraOpaqueData_Decode_def WriteBytes_def dest!: canonical_dests)

interpretation cm_UpdateFulfillHTLC: canonical_message UpdateFulfillHTLC_Encode UpdateFulfillHTLC_Decode UpdateFulfillHTLC_wf
  by unfold_locales
    (auto simp: UpdateFulfillHTLC_Encode_def UpdateFulfillHTLC_Decode_def UpdateFulfillHTLC_wf_def sbind_eq_Inr
      ExtraOpaqueData_Decode_def WriteBytes_def dest!: canonical_dests)

interpretation cm_UpdateFailHTLC: canonical_message UpdateFailHTLC_Encode UpdateFailHTLC_Decode UpdateFailHTLC_wf
  by unfold_locales
    (auto simp: UpdateFailHTLC_Encode_def UpdateFailHTLC_Decode_def UpdateFailHTLC_wf_def sbind_eq_Inr
      ExtraOpaqueData_Decode_def WriteBytes_def data_writers dest!: canonical_dests)

interpretation cm_UpdateFailMalformedHTLC:
    canonical_message UpdateFailMalformedHTLC_Encode UpdateFailMalformedHTLC_Decode UpdateFailMalformedHTLC_wf
  by unfold_locales
    (auto simp: UpdateFailMalformedHTLC_Encode_def UpdateFailMalformedHTLC_Decode_def UpdateFailMalformedHTLC_wf_def
      sbind_eq_Inr ExtraOpaqueData_Decode_def WriteBytes_def data_writers dest!: canonical_dests)

interpretation cm_CommitSig: canonical_message CommitSig_Encode CommitSig_Decode CommitSig_wf
  by unfold_locales
    (auto simp: CommitSig_Encode_def CommitSig_Decode_def CommitSig_wf_def sbind_eq_Inr
      ExtraOpaqueData_Decode_def WriteBytes_def data_writers dest!: canonical_dests)

section \<open>Properties\<close>

text \<open>
  C34. The decoder of \<open>update_add_htlc\<close> returns a message exactly for the bytes that the encoder
  writes for it; it consumes the whole stream, and no two byte strings decode to the same message.
\<close>

theorem UpdateAddHTLC_wire:
  "UpdateAddHTLC_Decode r = Inr (m, rest) \<longleftrightarrow> rest = [] \<and> UpdateAddHTLC_wf m \<and> UpdateAddHTLC_Encode m = Inr r"
  by (rule cm_UpdateAddHTLC.decode_iff)

text \<open>
  The same for \<open>commitment_signed\<close>, with its list of up to 65535 HTLC signatures.
\<close>

theorem CommitSig_wire:
  "CommitSig_Decode r = Inr (m, rest) \<longleftrightarrow> rest = [] \<and> CommitSig_wf m \<and> CommitSig_Encode m = Inr r"
  by (rule cm_CommitSig.decode_iff)

text \<open>
  The three messages that remove an HTLC are decoded from their encodings and from nothing else.
\<close>

theorem removal_messages_wire:
  "(UpdateFulfillHTLC_Decode r = Inr (m1, rest) \<longleftrightarrow> rest = [] \<and> UpdateFulfillHTLC_wf m1 \<and> UpdateFulfillHTLC_Encode m1 = Inr r)
   \<and> (UpdateFailHTLC_Decode r = Inr (m2, rest) \<longleftrightarrow> rest = [] \<and> UpdateFailHTLC_wf m2 \<and> UpdateFailHTLC_Encode m2 = Inr r)
   \<and> (UpdateFailMalformedHTLC_Decode r = Inr (m3, rest)
      \<longleftrightarrow> rest = [] \<and> UpdateFailMalformedHTLC_wf m3 \<and> UpdateFailMalformedHTLC_Encode m3 = Inr r)"
  by (intro conjI cm_UpdateFulfillHTLC.decode_iff cm_UpdateFailHTLC.decode_iff cm_UpdateFailMalformedHTLC.decode_iff)

text \<open>
  A \<open>revoke_and_ack\<close> with a next revocation key is encoded, and decoded to the same message,
  for every key package whose parser reads the 33 bytes that its serialiser writes.
\<close>

theorem RevokeAndAck_wire:
  assumes "key_codec ser parse" and "RevokeAndAck_wf m"
  shows "\<exists>bs. RevokeAndAck_Encode ser m = Inr bs \<and> RevokeAndAck_Decode parse bs = Inr (m, [])"
  using assms by (rule RevokeAndAck_roundtrip)

lemma unit_key_codec: "key_codec (\<lambda>_. replicate 33 2) (\<lambda>_. Some ())"
  by (simp add: key_codec_def)

theorem RevokeAndAck_wire_witness:
  "\<exists>bs. RevokeAndAck_Encode (\<lambda>_. replicate 33 2)
        \<lparr>raa_ChanID = replicate 32 1, raa_Revocation = replicate 32 4, raa_NextRevocationKey = Some (), raa_ExtraData = [9]\<rparr> = Inr bs
     \<and> RevokeAndAck_Decode (\<lambda>_. Some ()) bs =
        Inr (\<lparr>raa_ChanID = replicate 32 1, raa_Revocation = replicate 32 4, raa_NextRevocationKey = Some (), raa_ExtraData = [9]\<rparr>, [])"
  by (rule RevokeAndAck_wire [OF unit_key_codec]) (simp add: RevokeAndAck_wf_def)

text \<open>
  A \<open>channel_reestablish\<close> is decoded to the same message, with the two optional fields and
  without them.
\<close>

theorem ChannelReestablish_wire:
  assumes "key_codec ser parse" and "ChannelReestablish_wf m"
  shows "\<exists>bs. ChannelReestablish_Encode ser m = Inr bs \<and> ChannelReestablish_Decode parse bs = Inr (m, [])"
  using assms by (rule ChannelReestablish_roundtrip)

theorem ChannelReestablish_wire_witness:
  "\<exists>bs. ChannelReestablish_Encode (\<lambda>_. replicate 33 2)
        \<lparr>cr_ChanID = replicate 32 1, cr_NextLocalCommitHeight = 5, cr_RemoteCommitTailHeight = 4,
         cr_LastRemoteCommitSecret = replicate 32 3, cr_LocalUnrevokedCommitPoint = Some (), cr_ExtraData = []\<rparr> = Inr bs
     \<and> ChannelReestablish_Decode (\<lambda>_. Some ()) bs =
        Inr (\<lparr>cr_ChanID = replicate 32 1, cr_NextLocalCommitHeight = 5, cr_RemoteCommitTailHeight = 4,
         cr_LastRemoteCommitSecret = replicate 32 3, cr_LocalUnrevokedCommitPoint = Some (), cr_ExtraData = []\<rparr>, [])"
  by (rule ChannelReestablish_wire [OF unit_key_codec]) (simp add: ChannelReestablish_wf_def)

text \<open>
  C35. The asset identifier of a fee update never reaches the peer: whatever it is, the decoded
  message has the asset identifier 0.
\<close>

theorem UpdateFee_loses_asset:
  assumes "length (uf_ChanID m) = 32"
  shows "\<exists>bs. UpdateFee_Encode m = Inr bs \<and> UpdateFee_Decode bs = Inr (m\<lparr>uf_AssetID := 0\<rparr>, [])"
proof -
  have "UpdateFee_Encode m = UpdateFee_Encode (m\<lparr>uf_AssetID := 0\<rparr>)" by (simp add: UpdateFee_Encode_def)
  then show ?thesis using msg_UpdateFee.encode_decode [of "m\<lparr>uf_AssetID := 0\<rparr>"] assms by simp
qed

theorem UpdateFee_loses_asset_witness:
  "\<exists>bs. UpdateFee_Encode \<lparr>uf_ChanID = replicate 32 1, uf_AssetID = 31, uf_FeePerKw = 300, uf_ExtraData = []\<rparr> = Inr bs
     \<and> UpdateFee_Decode bs = Inr (\<lparr>uf_ChanID = replicate 32 1, uf_AssetID = 0, uf_FeePerKw = 300, uf_ExtraData = []\<rparr>, [])"
  using UpdateFee_loses_asset [of "\<lparr>uf_ChanID = replicate 32 1, uf_AssetID = 31, uf_FeePerKw = 300, uf_ExtraData = []\<rparr>"]
  by simp

lemma xorTxid_length [simp]: "length (xorTxid c i) = length c"
  by (simp add: xorTxid_def Let_def)

lemma possible_outpoint_iff:
  assumes "length cid = 32" "length (wop_Hash p) = 32" "unat (wop_Index p) < MaxFundingTxOutputs"
  shows "p \<in> set (GenPossibleOutPoints cid) \<longleftrightarrow> IsChanPoint cid p"
proof -
  have idx: "of_nat (unat (wop_Index p)) = (ucast (wop_Index p) :: u16)"
    by simp
  have small: "unat (of_nat i :: u32) = i" if "i < MaxFundingTxOutputs" for i
    using that by (simp add: MaxFundingTxOutputs_def unat_of_nat)
  have mem: "p \<in> set (GenPossibleOutPoints cid)
      \<longleftrightarrow> (\<exists>i<MaxFundingTxOutputs. p = \<lparr>wop_Hash = xorTxid cid (of_nat i), wop_Index = of_nat i\<rparr>)"
    by (auto simp: GenPossibleOutPoints_def)
  have inv: "wop_Hash p = xorTxid cid (ucast (wop_Index p)) \<longleftrightarrow> IsChanPoint cid p"
    using xorTxid_involution [OF assms(1)] xorTxid_involution [OF assms(2)]
    by (auto simp: IsChanPoint_def NewChanIDFromOutPoint_def)
  show ?thesis
  proof
    assume "p \<in> set (GenPossibleOutPoints cid)"
    then obtain i where i: "i < MaxFundingTxOutputs" "p = \<lparr>wop_Hash = xorTxid cid (of_nat i), wop_Index = of_nat i\<rparr>"
      using mem by blast
    then have "(ucast (wop_Index p) :: u16) = of_nat i" using small [OF i(1)] idx by simp
    then show "IsChanPoint cid p" using inv i(2) by simp
  next
    assume "IsChanPoint cid p"
    then have "p = \<lparr>wop_Hash = xorTxid cid (of_nat (unat (wop_Index p))), wop_Index = of_nat (unat (wop_Index p))\<rparr>"
      using inv idx by simp
    then show "p \<in> set (GenPossibleOutPoints cid)" using mem assms(3) by blast
  qed
qed

text \<open>
  From a channel identifier the funding outpoint can be recovered by search: an outpoint is
  among the possible outpoints of an identifier exactly when it has that identifier; in
  particular every outpoint is among those of its own identifier.
\<close>

theorem funding_outpoint_recoverable:
  assumes "length cid = 32" "length (wop_Hash p) = 32" "unat (wop_Index p) < MaxFundingTxOutputs"
  shows "(p \<in> set (GenPossibleOutPoints cid) \<longleftrightarrow> IsChanPoint cid p)
     \<and> p \<in> set (GenPossibleOutPoints (NewChanIDFromOutPoint p))"
  using possible_outpoint_iff [OF assms] possible_outpoint_iff [OF _ assms(2,3), of "NewChanIDFromOutPoint p"] assms(2)
  by (simp add: IsChanPoint_def) (simp add: NewChanIDFromOutPoint_def)

theorem funding_outpoint_recoverable_witness:
  "\<lparr>wop_Hash = replicate 32 9, wop_Index = 3\<rparr>
     \<in> set (GenPossibleOutPoints (NewChanIDFromOutPoint \<lparr>wop_Hash = replicate 32 9, wop_Index = 3\<rparr>))"
  using funding_outpoint_recoverable [of "replicate 32 0" "\<lparr>wop_Hash = replicate 32 9, wop_Index = 3\<rparr>"]
  by (simp add: MaxFundingTxOutputs_def)

text \<open>
  A short channel identifier survives the packing into 64 bits exactly when its block height
  and transaction index fit into 24 bits.
\<close>

theorem short_channel_id_packing: "NewShortChanIDFromInt (ToUint64 c) = c \<longleftrightarrow> scid_wf c"
  using scid_roundtrip scid_from_int_wf by metis

end
