(* ===== verification/Omni_Payload.thy ===== *)
theory Omni_Payload
  imports Wire_Canonical Commit_View "HOL-Library.Multiset"
begin

text \<open>
  The Omni layer payloads (\<open>src/oblnd/lnwallet/omnicore/op/opreturn.go\<close>): the send-to-many and
  simple-send payloads, the \<open>OP_RETURN\<close> script around them, and the output that carries the asset
  amounts of a transaction. The theorems say that a payload is read back, that every payload of at
  most seven receivers fits, and to which outputs the amounts of a transaction are assigned.
\<close>

section \<open>The model\<close>

datatype omni_error =
    MissAssetId
  | TooManyReceivers
  | PayloadTooLong
  | SliceOutOfRange
  | ScriptOutputNotFound bytes AssetAmount
  | OmniReadError wire_error

definition max_receivers :: nat where
  "max_receivers = 7"

record OmniOutput =
  oo_Index :: u8
  oo_Amount :: u64

record Opreturn =
  or_Ver :: u16
  or_TranType :: u16
  or_Outputs :: "OmniOutput list"
  or_PropertyId :: u32

record OpreturnSimple =
  os_Ver :: u16
  os_TranType :: u16
  os_PropertyId :: u32
  os_Amount :: u64

definition writeOutput :: "OmniOutput \<Rightarrow> bytes" where
  "writeOutput out = WriteUint8 (oo_Index out) @ WriteUint64 (oo_Amount out)"

text \<open>The version and the type that are written are constants; the fields are not looked at.\<close>

definition Opreturn_Encode :: "Opreturn \<Rightarrow> omni_error + bytes" where
  "Opreturn_Encode p =
     (if or_PropertyId p = 0 then Inl MissAssetId
      else if length (or_Outputs p) > max_receivers then Inl TooManyReceivers
      else Inr (WriteUint16 0 @ WriteUint16 7 @ WriteUint32 (or_PropertyId p)
                @ WriteUint8 (of_nat (length (or_Outputs p))) @ concat (map writeOutput (or_Outputs p))))"

definition readOutput :: "OmniOutput reader" where
  "readOutput r = sbind (readUint8 r) (\<lambda>(i, r1). sbind (readUint64 r1) (\<lambda>(a, r2).
     Inr (\<lparr>oo_Index = i, oo_Amount = a\<rparr>, r2)))"

text \<open>Decoding fills the receiver: the outputs are appended to those that it already has.\<close>

definition Opreturn_Decode :: "Opreturn \<Rightarrow> bytes \<Rightarrow> omni_error + Opreturn" where
  "Opreturn_Decode p bs =
     (case sbind (readUint16 bs) (\<lambda>(v, r1). sbind (readUint16 r1) (\<lambda>(t, r2). sbind (readUint32 r2) (\<lambda>(pid, r3).
             sbind (readUint8 r3) (\<lambda>(n, r4). sbind (readMany readOutput (unat n) r4) (\<lambda>(outs, r5).
               Inr \<lparr>or_Ver = v, or_TranType = t, or_Outputs = or_Outputs p @ outs, or_PropertyId = pid\<rparr>))))) of
        Inl e \<Rightarrow> Inl (OmniReadError e)
      | Inr q \<Rightarrow> Inr q)"

definition OP_RETURN :: u8 where
  "OP_RETURN = 0x6a"

definition OP_PUSHDATA1 :: u8 where
  "OP_PUSHDATA1 = 0x4c"

definition addOpCodeData :: "bytes \<Rightarrow> bytes" where
  "addOpCodeData data =
     (if length data < unat OP_PUSHDATA1 then [of_nat (length data)] @ data
      else if length data \<le> 255 then [OP_PUSHDATA1, of_nat (length data)] @ data
      else [])"

text \<open>The marker is the string \<open>omni\<close>.\<close>

definition omniMarker :: bytes where
  "omniMarker = [0x6f, 0x6d, 0x6e, 0x69]"

definition getOpPKs :: "bytes \<Rightarrow> omni_error + bytes" where
  "getOpPKs data =
     (let payload = omniMarker @ data
      in if length payload > 83 then Inl PayloadTooLong else Inr (OP_RETURN # addOpCodeData payload))"

definition GetOpReturnOut :: "u32 \<Rightarrow> OmniOutput list \<Rightarrow> omni_error + TxOut" where
  "GetOpReturnOut assetID outs =
     sbind (Opreturn_Encode \<lparr>or_Ver = 0, or_TranType = 0, or_Outputs = outs, or_PropertyId = assetID\<rparr>) (\<lambda>w.
     sbind (getOpPKs w) (\<lambda>opPks. Inr \<lparr>out_Value = 0, PkScript = opPks\<rparr>))"

definition OpreturnSimple_Encode :: "OpreturnSimple \<Rightarrow> omni_error + bytes" where
  "OpreturnSimple_Encode p =
     (if os_PropertyId p = 0 then Inl MissAssetId
      else getOpPKs (WriteUint16 0 @ WriteUint16 0 @ WriteUint32 (os_PropertyId p) @ WriteUint64 (os_Amount p)))"

definition OpreturnSimple_AddOpReturnToTx :: "OpreturnSimple \<Rightarrow> MsgTx \<Rightarrow> omni_error + MsgTx" where
  "OpreturnSimple_AddOpReturnToTx p tx =
     sbind (OpreturnSimple_Encode p) (\<lambda>bs. Inr (tx\<lparr>tx_TxOut := \<lparr>out_Value = 0, PkScript = bs\<rparr> # tx_TxOut tx\<rparr>))"

definition OpreturnSimple_Decode :: "bytes \<Rightarrow> omni_error + OpreturnSimple" where
  "OpreturnSimple_Decode pkScript =
     (if length pkScript < 6 then Inl SliceOutOfRange
      else case sbind (readUint16 (drop 6 pkScript)) (\<lambda>(v, r1). sbind (readUint16 r1) (\<lambda>(t, r2).
             sbind (readUint32 r2) (\<lambda>(pid, r3). sbind (readUint64 r3) (\<lambda>(a, r4).
               Inr \<lparr>os_Ver = v, os_TranType = t, os_PropertyId = pid, os_Amount = a\<rparr>)))) of
             Inl e \<Rightarrow> Inl (OmniReadError e)
           | Inr q \<Rightarrow> Inr q)"

record pksAmount =
  pks :: bytes
  pa_amount :: AssetAmount

record PksAmounts =
  pa_AssetID :: u32
  pksAmounts :: "pksAmount list"

definition NewPksAmounts :: "u32 \<Rightarrow> PksAmounts" where
  "NewPksAmounts assetId = \<lparr>pa_AssetID = assetId, pksAmounts = []\<rparr>"

definition PksAmounts_Add :: "PksAmounts \<Rightarrow> bytes \<Rightarrow> AssetAmount \<Rightarrow> PksAmounts" where
  "PksAmounts_Add p script amt =
     (if pa_AssetID p = 0 \<or> pa_AssetID p = BtcAssetId then p
      else if amt = 0 then p
      else p\<lparr>pksAmounts := pksAmounts p @ [\<lparr>pks = script, pa_amount = amt\<rparr>]\<rparr>)"

fun findScript :: "nat \<Rightarrow> TxOut list \<Rightarrow> bytes \<Rightarrow> bool \<times> u32" where
  "findScript i [] script = (False, 0)"
| "findScript i (o1 # os) script = (if PkScript o1 = script then (True, of_nat i) else findScript (Suc i) os script)"

definition FindScriptOutputIndex :: "MsgTx \<Rightarrow> bytes \<Rightarrow> bool \<times> u32" where
  "FindScriptOutputIndex tx script = findScript 0 (tx_TxOut tx) script"

fun assetOutputs :: "MsgTx \<Rightarrow> pksAmount list \<Rightarrow> omni_error + OmniOutput list" where
  "assetOutputs tx [] = Inr []"
| "assetOutputs tx (pa # pas) =
     (let (found, assetOutIndex) = FindScriptOutputIndex tx (pks pa)
      in if \<not> found then Inl (ScriptOutputNotFound (pks pa) (pa_amount pa))
         else sbind (assetOutputs tx pas) (\<lambda>outs.
                Inr (\<lparr>oo_Index = ucast assetOutIndex + 1, oo_Amount = pa_amount pa\<rparr> # outs)))"

text \<open>
  \<open>sort.Sort\<close> uses insertion sort, which is stable, below twelve elements; more than seven
  elements are refused by the encoder.
\<close>

definition AddOpReturnToTx :: "MsgTx \<Rightarrow> PksAmounts \<Rightarrow> omni_error + MsgTx" where
  "AddOpReturnToTx tx p =
     (if pa_AssetID p = 0 \<or> pa_AssetID p = BtcAssetId then Inr tx
      else if pksAmounts p = [] then Inr tx
      else sbind (assetOutputs tx (pksAmounts p)) (\<lambda>opOutPuts.
           sbind (GetOpReturnOut (pa_AssetID p) (sort_key oo_Index opOutPuts)) (\<lambda>txOut.
             Inr (tx\<lparr>tx_TxOut := txOut # tx_TxOut tx\<rparr>))))"

section \<open>Payloads are read back\<close>

lemma length_u8: "n \<le> max_receivers \<Longrightarrow> unat (of_nat n :: u8) = n"
  by (simp add: unat_of_nat max_receivers_def)

interpretation el_output: element writeOutput readOutput "\<lambda>_. True"
  by unfold_locales (simp add: writeOutput_def readOutput_def element_simps)

lemma length_writers [simp]:
  "length (WriteUint8 a) = 1" "length (WriteUint16 b) = 2" "length (WriteUint32 c) = 4" "length (WriteUint64 d) = 8"
  by (simp_all add: WriteUint8_def WriteUint16_def WriteUint32_def WriteUint64_def)

lemma length_outputs: "length (concat (map writeOutput outs)) = 9 * length outs"
  by (induction outs) (simp_all add: writeOutput_def)

lemma decode_send_to_many:
  assumes "Opreturn_Encode p = Inr bs"
  shows "Opreturn_Decode q (bs @ rest) =
    Inr \<lparr>or_Ver = 0, or_TranType = 7, or_Outputs = or_Outputs q @ or_Outputs p, or_PropertyId = or_PropertyId p\<rparr>"
proof -
  have n: "length (or_Outputs p) \<le> max_receivers"
    and bs: "bs = WriteUint16 0 @ WriteUint16 7 @ WriteUint32 (or_PropertyId p)
                @ WriteUint8 (of_nat (length (or_Outputs p))) @ concat (map writeOutput (or_Outputs p))"
    using assms by (auto simp: Opreturn_Encode_def split: if_splits)
  have "readMany readOutput (unat (of_nat (length (or_Outputs p)) :: u8)) (concat (map writeOutput (or_Outputs p)) @ rest)
      = Inr (or_Outputs p, rest)"
    unfolding length_u8 [OF n] by (rule el_output.readMany_put) simp
  then show ?thesis unfolding bs by (simp add: Opreturn_Decode_def element_simps)
qed

lemma send_to_many_length: "Opreturn_Encode p = Inr bs \<Longrightarrow> length bs = 9 + 9 * length (or_Outputs p)"
  by (auto simp: Opreturn_Encode_def length_outputs split: if_splits)

lemma Opreturn_Encode_ok:
  "is_ok (Opreturn_Encode p) \<longleftrightarrow> or_PropertyId p \<noteq> 0 \<and> length (or_Outputs p) \<le> max_receivers"
  by (simp add: Opreturn_Encode_def not_less [symmetric])

text \<open>The script of a payload: the prefix is two or three bytes and the marker.\<close>

lemma getOpPKs_script:
  assumes "length data \<le> 79"
  shows "\<exists>n \<in> {6, 7}. \<exists>s. getOpPKs data = Inr s \<and> drop n s = data \<and> hd s = OP_RETURN \<and> length s = n + length data"
  using assms by (auto simp: getOpPKs_def addOpCodeData_def omniMarker_def Let_def OP_PUSHDATA1_def)

lemma getOpPKs_short:
  assumes "length data < 72"
  shows "\<exists>s. getOpPKs data = Inr s \<and> drop 6 s = data \<and> length s = 6 + length data"
  using assms by (auto simp: getOpPKs_def addOpCodeData_def omniMarker_def Let_def OP_PUSHDATA1_def)

section \<open>To which outputs the amounts go\<close>

lemma findScript_found:
  "findScript i os script = (True, k) \<Longrightarrow> i + length os < 2 ^ 32 \<Longrightarrow>
     \<exists>j < length os. k = of_nat (i + j) \<and> PkScript (os ! j) = script \<and> (\<forall>l < j. PkScript (os ! l) \<noteq> script)"
proof (induction os arbitrary: i)
  case (Cons o1 os)
  show ?case
  proof (cases "PkScript o1 = script")
    case True
    then show ?thesis using Cons.prems by (intro exI [of _ 0]) auto
  next
    case False
    then obtain j where "j < length os" "k = of_nat (Suc i + j)" "PkScript (os ! j) = script"
      "\<forall>l < j. PkScript (os ! l) \<noteq> script" using Cons by fastforce
    with False show ?thesis by (intro exI [of _ "Suc j"]) (auto simp: nth_Cons split: nat.splits)
  qed
qed simp

lemma ucast_of_nat_u8: "(ucast (of_nat n :: u32) :: u8) = of_nat n"
  by (rule bit_word_eqI) (auto simp: bit_simps)

definition firstWith :: "TxOut list \<Rightarrow> bytes \<Rightarrow> nat \<Rightarrow> bool" where
  "firstWith os script j \<longleftrightarrow> j < length os \<and> PkScript (os ! j) = script \<and> (\<forall>l < j. PkScript (os ! l) \<noteq> script)"

text \<open>Each amount is assigned to the first output with its script; position 0 will be the payload.\<close>

lemma assetOutputs_indexes:
  assumes "assetOutputs tx pas = Inr outs" and "length (tx_TxOut tx) < 255"
  shows "list_all2 (\<lambda>pa out. oo_Amount out = pa_amount pa
     \<and> (\<exists>j. unat (oo_Index out) = Suc j \<and> firstWith (tx_TxOut tx) (pks pa) j)) pas outs"
  using assms
proof (induction pas arbitrary: outs)
  case (Cons pa pas)
  obtain k outs' where k: "findScript 0 (tx_TxOut tx) (pks pa) = (True, k)" "assetOutputs tx pas = Inr outs'"
    "outs = \<lparr>oo_Index = ucast k + 1, oo_Amount = pa_amount pa\<rparr> # outs'"
    using Cons.prems(1) by (auto simp: FindScriptOutputIndex_def Let_def sbind_eq_Inr split: prod.splits if_splits)
  obtain j where j: "j < length (tx_TxOut tx)" "k = of_nat j" "firstWith (tx_TxOut tx) (pks pa) j"
    using findScript_found [OF k(1)] Cons.prems(2) by (auto simp: firstWith_def)
  have "(ucast k + 1 :: u8) = of_nat (Suc j)" using j(2) by (simp add: ucast_of_nat_u8)
  then have "unat (ucast k + 1 :: u8) = Suc j" using j(1) Cons.prems(2) by (simp add: unat_of_nat del: of_nat_Suc)
  with Cons k j(3) show ?case by auto
qed simp

lemma list_all2_sorted:
  assumes "list_all2 P xs ys"
  shows "\<forall>y \<in> set (sort_key f ys). \<exists>x \<in> set xs. P x y"
proof
  fix y assume "y \<in> set (sort_key f ys)"
  then obtain i where "i < length ys" "ys ! i = y" by (auto simp: in_set_conv_nth)
  with assms show "\<exists>x \<in> set xs. P x y" by (auto simp: list_all2_conv_all_nth intro!: bexI [of _ "xs ! i"])
qed

lemma AddOpReturnToTx_cases:
  assumes "AddOpReturnToTx tx p = Inr tx'" and "pa_AssetID p \<noteq> 0" "pksAmounts p \<noteq> []"
  obtains outs txOut where "assetOutputs tx (pksAmounts p) = Inr outs"
    "GetOpReturnOut (pa_AssetID p) (sort_key oo_Index outs) = Inr txOut"
    "tx' = tx\<lparr>tx_TxOut := txOut # tx_TxOut tx\<rparr>"
  using assms by (auto simp: AddOpReturnToTx_def BtcAssetId_def sbind_eq_Inr)

lemma GetOpReturnOut_payload:
  assumes "GetOpReturnOut assetID outs = Inr txOut"
  shows "out_Value txOut = 0 \<and> length outs \<le> max_receivers
    \<and> (\<exists>n \<in> {6, 7}. Opreturn_Decode q (drop n (PkScript txOut))
         = Inr \<lparr>or_Ver = 0, or_TranType = 7, or_Outputs = or_Outputs q @ outs, or_PropertyId = assetID\<rparr>)"
proof -
  let ?p = "\<lparr>or_Ver = 0, or_TranType = 0, or_Outputs = outs, or_PropertyId = assetID\<rparr>"
  obtain w s where w: "Opreturn_Encode ?p = Inr w" "getOpPKs w = Inr s" "txOut = \<lparr>out_Value = 0, PkScript = s\<rparr>"
    using assms by (auto simp: GetOpReturnOut_def sbind_eq_Inr)
  have n: "length outs \<le> 7" using Opreturn_Encode_ok [of ?p] w(1) by (simp add: max_receivers_def)
  with send_to_many_length [OF w(1)] have "length w \<le> 79" by simp
  from getOpPKs_script [OF this] w(2) obtain k where "k \<in> {6, 7}" "drop k s = w" by auto
  moreover have "Opreturn_Decode q w = Inr \<lparr>or_Ver = 0, or_TranType = 7, or_Outputs = or_Outputs q @ outs, or_PropertyId = assetID\<rparr>"
    using decode_send_to_many [OF w(1), of q "[]"] by simp
  ultimately show ?thesis using w(3) n by (auto simp: max_receivers_def)
qed

definition freshOpreturn :: Opreturn where
  "freshOpreturn = \<lparr>or_Ver = 0, or_TranType = 0, or_Outputs = [], or_PropertyId = 0\<rparr>"

section \<open>Properties\<close>

text \<open>
  C36. The send-to-many payload: it exists exactly for a property identifier other than zero and at
  most seven receivers, it always fits into the script, and the script without its prefix is decoded
  to the same property and the same receivers in the same order.
\<close>

theorem send_to_many_payload:
  "(is_ok (GetOpReturnOut assetID outs) \<longleftrightarrow> assetID \<noteq> 0 \<and> length outs \<le> 7)
   \<and> (\<forall>txOut. GetOpReturnOut assetID outs = Inr txOut \<longrightarrow>
        out_Value txOut = 0
        \<and> (\<exists>n \<in> {6, 7}. Opreturn_Decode freshOpreturn (drop n (PkScript txOut))
             = Inr \<lparr>or_Ver = 0, or_TranType = 7, or_Outputs = outs, or_PropertyId = assetID\<rparr>))"
proof (intro conjI allI impI)
  let ?p = "\<lparr>or_Ver = 0, or_TranType = 0, or_Outputs = outs, or_PropertyId = assetID\<rparr>"
  show "is_ok (GetOpReturnOut assetID outs) \<longleftrightarrow> assetID \<noteq> 0 \<and> length outs \<le> 7"
  proof (cases "Opreturn_Encode ?p")
    case (Inl e)
    then show ?thesis using Opreturn_Encode_ok [of ?p] by (auto simp: GetOpReturnOut_def max_receivers_def)
  next
    case (Inr w)
    then have n: "assetID \<noteq> 0" "length outs \<le> 7" using Opreturn_Encode_ok [of ?p] by (simp_all add: max_receivers_def)
    with send_to_many_length [OF Inr] getOpPKs_script [of w] Inr show ?thesis by (auto simp: GetOpReturnOut_def)
  qed
  fix txOut assume "GetOpReturnOut assetID outs = Inr txOut"
  from GetOpReturnOut_payload [OF this, of freshOpreturn]
  show "out_Value txOut = 0"
    "\<exists>n \<in> {6, 7}. Opreturn_Decode freshOpreturn (drop n (PkScript txOut))
       = Inr \<lparr>or_Ver = 0, or_TranType = 7, or_Outputs = outs, or_PropertyId = assetID\<rparr>"
    by (simp_all add: freshOpreturn_def)
qed

theorem send_to_many_payload_witness:
  "is_ok (GetOpReturnOut 31 [\<lparr>oo_Index = 2, oo_Amount = 1050000000\<rparr>]) \<and> \<not> is_ok (GetOpReturnOut 0 [])"
  using send_to_many_payload [of 31 "[\<lparr>oo_Index = 2, oo_Amount = 1050000000\<rparr>]"] send_to_many_payload [of 0 "[]"] by simp

text \<open>A simple-send payload is always built for a property identifier other than zero, and read back from its script.\<close>

lemma simple_send_payload:
  assumes "os_PropertyId p \<noteq> 0"
  shows "\<exists>s. OpreturnSimple_Encode p = Inr s
     \<and> OpreturnSimple_Decode s = Inr (p\<lparr>os_Ver := 0, os_TranType := 0\<rparr>)"
proof -
  let ?d = "WriteUint16 0 @ WriteUint16 0 @ WriteUint32 (os_PropertyId p) @ WriteUint64 (os_Amount p)"
  obtain s where s: "getOpPKs ?d = Inr s" "drop 6 s = ?d" "length s = 6 + length ?d"
    using getOpPKs_short [of ?d] by auto
  have "readUint64 (WriteUint64 (os_Amount p)) = Inr (os_Amount p, [])"
    using el_u64.get_put [of "os_Amount p" "[]"] by simp
  then have "OpreturnSimple_Decode s = Inr (p\<lparr>os_Ver := 0, os_TranType := 0\<rparr>)"
    using s(2,3) by (simp add: OpreturnSimple_Decode_def element_simps)
  with s(1) assms show ?thesis by (simp add: OpreturnSimple_Encode_def)
qed

text \<open>
  C37. The asset output of a transaction: the payload becomes output 0, and its receivers are the
  outputs that pay to the scripts of the amounts, at their position in the new transaction. Among
  several outputs with the same script only the first one can receive anything.
\<close>

theorem asset_amounts_assigned:
  assumes "AddOpReturnToTx tx p = Inr tx'" and "pa_AssetID p \<noteq> 0" "pksAmounts p \<noteq> []"
    and "length (tx_TxOut tx) < 255"
  shows "\<exists>outs n. tl (tx_TxOut tx') = tx_TxOut tx
     \<and> Opreturn_Decode freshOpreturn (drop n (PkScript (hd (tx_TxOut tx'))))
         = Inr \<lparr>or_Ver = 0, or_TranType = 7, or_Outputs = outs, or_PropertyId = pa_AssetID p\<rparr>
     \<and> mset (map oo_Amount outs) = mset (map pa_amount (pksAmounts p))
     \<and> (\<forall>out \<in> set outs. \<exists>pa \<in> set (pksAmounts p). oo_Amount out = pa_amount pa
          \<and> PkScript (tx_TxOut tx' ! unat (oo_Index out)) = pks pa
          \<and> (\<forall>l. 0 < l \<and> l < unat (oo_Index out) \<longrightarrow> PkScript (tx_TxOut tx' ! l) \<noteq> pks pa))"
proof -
  obtain outs txOut where o: "assetOutputs tx (pksAmounts p) = Inr outs"
    "GetOpReturnOut (pa_AssetID p) (sort_key oo_Index outs) = Inr txOut"
    "tx' = tx\<lparr>tx_TxOut := txOut # tx_TxOut tx\<rparr>" using AddOpReturnToTx_cases [OF assms(1-3)] .
  note idx = assetOutputs_indexes [OF o(1) assms(4)]
  have amounts: "map oo_Amount outs = map pa_amount (pksAmounts p)"
    using idx by (auto simp: list_all2_conv_all_nth intro: nth_equalityI)
  have "PkScript (tx_TxOut tx' ! unat (oo_Index out)) = pks pa
        \<and> (\<forall>l. 0 < l \<and> l < unat (oo_Index out) \<longrightarrow> PkScript (tx_TxOut tx' ! l) \<noteq> pks pa)"
    if j: "unat (oo_Index out) = Suc j" "firstWith (tx_TxOut tx) (pks pa) j" for out pa j
    using j by (auto simp: o(3) firstWith_def nth_Cons split: nat.splits)
  with list_all2_sorted [OF idx, of oo_Index] have assigned:
    "\<forall>out \<in> set (sort_key oo_Index outs). \<exists>pa \<in> set (pksAmounts p). oo_Amount out = pa_amount pa
          \<and> PkScript (tx_TxOut tx' ! unat (oo_Index out)) = pks pa
          \<and> (\<forall>l. 0 < l \<and> l < unat (oo_Index out) \<longrightarrow> PkScript (tx_TxOut tx' ! l) \<noteq> pks pa)"
    by meson
  have "mset (map oo_Amount (sort_key oo_Index outs)) = mset (map pa_amount (pksAmounts p))"
    by (simp only: mset_map mset_sort) (simp only: mset_map [symmetric] amounts)
  with GetOpReturnOut_payload [OF o(2), of freshOpreturn] assigned show ?thesis
    by (auto simp: o(3) freshOpreturn_def)
qed

definition sampleAssetTx :: MsgTx where
  "sampleAssetTx = \<lparr>Version = 2, tx_TxIn = [],
     tx_TxOut = [\<lparr>out_Value = 600, PkScript = [1]\<rparr>, \<lparr>out_Value = 1638, PkScript = [2]\<rparr>, \<lparr>out_Value = 1638, PkScript = [2]\<rparr>],
     LockTime = 0\<rparr>"

definition sampleAmounts :: PksAmounts where
  "sampleAmounts = \<lparr>pa_AssetID = 31,
     pksAmounts = [\<lparr>pks = [1], pa_amount = 40\<rparr>, \<lparr>pks = [2], pa_amount = 5\<rparr>, \<lparr>pks = [2], pa_amount = 9\<rparr>]\<rparr>"

lemma sample_assigned: "is_ok (AddOpReturnToTx sampleAssetTx sampleAmounts)"
  by code_simp

lemma sample_assigned_hyps:
  "pa_AssetID sampleAmounts \<noteq> 0" "pksAmounts sampleAmounts \<noteq> []" "length (tx_TxOut sampleAssetTx) < 255"
  by (simp_all add: sampleAmounts_def sampleAssetTx_def)

theorem asset_amounts_assigned_witness:
  "\<exists>tx'. AddOpReturnToTx sampleAssetTx sampleAmounts = Inr tx' \<and> tl (tx_TxOut tx') = tx_TxOut sampleAssetTx"
  using is_ok_Inr [OF sample_assigned] asset_amounts_assigned [OF _ sample_assigned_hyps] by blast



end
