(* ===== verification/Key_Derivation.thy ===== *)
theory Key_Derivation
  imports Units Sha256
begin

text \<open>
  The derivation of the keys of a commitment (\<open>src/oblnd/input/script_utils.go\<close> from
  \<open>SingleTweakBytes\<close> to \<open>ComputeCommitmentPoint\<close>, and \<open>DeriveCommitmentKeys\<close> of
  \<open>src/oblnd/lnwallet/commitment.go\<close>). The group of the curve belongs to \<open>btcec\<close>: its operations are
  the fields of a record that the definitions take as an argument, and the laws of the group that
  the derivation relies on are the predicate \<open>curveLaws\<close>.
\<close>

section \<open>The model\<close>

text \<open>The order of the group, to which scalars are reduced.\<close>

definition curveOrder :: nat where
  "curveOrder = 0xFFFFFFFFFFFFFFFFFFFFFFFFFFFFFFFEBAAEDCE6AF48A03BBFD25E8CD0364141"

type_synonym ModNScalar = nat

record 'pk Curve =
  cv_Add :: "'pk \<Rightarrow> 'pk \<Rightarrow> 'pk"
  cv_ScalarMult :: "ModNScalar \<Rightarrow> 'pk \<Rightarrow> 'pk"
  cv_ScalarBaseMult :: "ModNScalar \<Rightarrow> 'pk"
  cv_SerializeCompressed :: "'pk \<Rightarrow> bytes"

definition SetByteSlice :: "bytes \<Rightarrow> ModNScalar" where
  "SetByteSlice b = be_val b mod curveOrder"

definition scalarAdd :: "ModNScalar \<Rightarrow> ModNScalar \<Rightarrow> ModNScalar" where
  "scalarAdd a b = (a + b) mod curveOrder"

definition scalarMul :: "ModNScalar \<Rightarrow> ModNScalar \<Rightarrow> ModNScalar" where
  "scalarMul a b = (a * b) mod curveOrder"

definition PubKey :: "'pk Curve \<Rightarrow> ModNScalar \<Rightarrow> 'pk" where
  "PubKey cv priv = cv_ScalarBaseMult cv priv"

definition SingleTweakBytes :: "'pk Curve \<Rightarrow> 'pk \<Rightarrow> 'pk \<Rightarrow> bytes" where
  "SingleTweakBytes cv commitPoint basePoint =
     sha256 (cv_SerializeCompressed cv commitPoint @ cv_SerializeCompressed cv basePoint)"

definition TweakPubKeyWithTweak :: "'pk Curve \<Rightarrow> 'pk \<Rightarrow> bytes \<Rightarrow> 'pk" where
  "TweakPubKeyWithTweak cv pubKey tweakBytes = cv_Add cv pubKey (cv_ScalarBaseMult cv (SetByteSlice tweakBytes))"

definition TweakPubKey :: "'pk Curve \<Rightarrow> 'pk \<Rightarrow> 'pk \<Rightarrow> 'pk" where
  "TweakPubKey cv basePoint commitPoint =
     TweakPubKeyWithTweak cv basePoint (SingleTweakBytes cv commitPoint basePoint)"

definition TweakPrivKey :: "ModNScalar \<Rightarrow> bytes \<Rightarrow> ModNScalar" where
  "TweakPrivKey basePriv commitTweak = scalarAdd (SetByteSlice commitTweak) basePriv"

definition DeriveRevocationPubkey :: "'pk Curve \<Rightarrow> 'pk \<Rightarrow> 'pk \<Rightarrow> 'pk" where
  "DeriveRevocationPubkey cv revokeBase commitPoint =
     (let revokeTweakScalar = SetByteSlice (SingleTweakBytes cv revokeBase commitPoint);
          commitTweakScalar = SetByteSlice (SingleTweakBytes cv commitPoint revokeBase)
      in cv_Add cv (cv_ScalarMult cv revokeTweakScalar revokeBase) (cv_ScalarMult cv commitTweakScalar commitPoint))"

definition DeriveRevocationPrivKey :: "'pk Curve \<Rightarrow> ModNScalar \<Rightarrow> ModNScalar \<Rightarrow> ModNScalar" where
  "DeriveRevocationPrivKey cv revokeBasePriv commitSecret =
     (let revokeTweakScalar = SetByteSlice (SingleTweakBytes cv (PubKey cv revokeBasePriv) (PubKey cv commitSecret));
          commitTweakScalar = SetByteSlice (SingleTweakBytes cv (PubKey cv commitSecret) (PubKey cv revokeBasePriv));
          revokeHalfPriv = scalarMul revokeTweakScalar revokeBasePriv;
          commitHalfPriv = scalarMul commitTweakScalar commitSecret
      in scalarAdd revokeHalfPriv commitHalfPriv)"

definition ComputeCommitmentPoint :: "'pk Curve \<Rightarrow> bytes \<Rightarrow> 'pk" where
  "ComputeCommitmentPoint cv commitSecret = cv_ScalarBaseMult cv (SetByteSlice commitSecret)"

subsection \<open>The key ring of a commitment\<close>

text \<open>The key descriptors of a channel configuration. A nil tweak is the empty list.\<close>

record 'pk ChannelKeys =
  MultiSigKey :: 'pk
  RevocationBasePoint :: 'pk
  PaymentBasePoint :: 'pk
  DelayBasePoint :: 'pk
  HtlcBasePoint :: 'pk

record 'pk CommitmentKeyRing =
  CommitPoint :: 'pk
  LocalCommitKeyTweak :: bytes
  LocalHtlcKeyTweak :: bytes
  LocalHtlcKey :: 'pk
  RemoteHtlcKey :: 'pk
  ToLocalKey :: 'pk
  ToRemoteKey :: 'pk
  RevocationKey :: 'pk

definition DeriveCommitmentKeys ::
    "'pk Curve \<Rightarrow> 'pk \<Rightarrow> bool \<Rightarrow> ChannelType \<Rightarrow> 'pk ChannelKeys \<Rightarrow> 'pk ChannelKeys \<Rightarrow> 'pk CommitmentKeyRing" where
  "DeriveCommitmentKeys cv commitPoint isOurCommit chanType localChanCfg remoteChanCfg =
     (let tweaklessCommit = IsTweakless chanType;
          localBasePoint = (if isOurCommit then DelayBasePoint localChanCfg else PaymentBasePoint localChanCfg);
          toLocalBasePoint = (if isOurCommit then DelayBasePoint localChanCfg else DelayBasePoint remoteChanCfg);
          toRemoteBasePoint = (if isOurCommit then PaymentBasePoint remoteChanCfg else PaymentBasePoint localChanCfg);
          revocationBasePoint = (if isOurCommit then RevocationBasePoint remoteChanCfg else RevocationBasePoint localChanCfg)
      in \<lparr>CommitPoint = commitPoint,
          LocalCommitKeyTweak =
            (if tweaklessCommit \<and> \<not> isOurCommit then [] else SingleTweakBytes cv commitPoint localBasePoint),
          LocalHtlcKeyTweak = SingleTweakBytes cv commitPoint (HtlcBasePoint localChanCfg),
          LocalHtlcKey = TweakPubKey cv (HtlcBasePoint localChanCfg) commitPoint,
          RemoteHtlcKey = TweakPubKey cv (HtlcBasePoint remoteChanCfg) commitPoint,
          ToLocalKey = TweakPubKey cv toLocalBasePoint commitPoint,
          ToRemoteKey = (if tweaklessCommit then toRemoteBasePoint else TweakPubKey cv toRemoteBasePoint commitPoint),
          RevocationKey = DeriveRevocationPubkey cv revocationBasePoint commitPoint\<rparr>)"

section \<open>Properties\<close>

text \<open>
  The laws of the group that \<open>btcec\<close> documents: multiples of the base point add and multiply like
  their scalars, and a scalar counts modulo the order.
\<close>

definition curveLaws :: "'pk Curve \<Rightarrow> bool" where
  "curveLaws cv \<longleftrightarrow>
     (\<forall>a b. cv_Add cv (cv_ScalarBaseMult cv a) (cv_ScalarBaseMult cv b) = cv_ScalarBaseMult cv (a + b))
     \<and> (\<forall>a b. cv_ScalarMult cv a (cv_ScalarBaseMult cv b) = cv_ScalarBaseMult cv (a * b))
     \<and> (\<forall>a. cv_ScalarBaseMult cv (a mod curveOrder) = cv_ScalarBaseMult cv a)"

lemma scalarAdd_mul: "scalarAdd (scalarMul a b) (scalarMul c d) = (a * b + c * d) mod curveOrder"
  by (simp add: scalarAdd_def scalarMul_def mod_simps)

text \<open>
  C40. Whoever owns the base secrets can sign for the derived keys: in a group that obeys its laws,
  the tweaked private key belongs to the tweaked public key, and once the commitment secret of a
  revoked commitment is known, the derived revocation private key belongs to the revocation public
  key that the outputs of that commitment pay to.
\<close>

theorem derived_keys_spendable:
  assumes "curveLaws cv"
  shows "PubKey cv (TweakPrivKey basePriv (SingleTweakBytes cv commitPoint (PubKey cv basePriv)))
       = TweakPubKey cv (PubKey cv basePriv) commitPoint
     \<and> PubKey cv (DeriveRevocationPrivKey cv revokeBasePriv (SetByteSlice commitSecret))
       = DeriveRevocationPubkey cv (PubKey cv revokeBasePriv) (ComputeCommitmentPoint cv commitSecret)"
proof
  show "PubKey cv (TweakPrivKey basePriv (SingleTweakBytes cv commitPoint (PubKey cv basePriv)))
       = TweakPubKey cv (PubKey cv basePriv) commitPoint"
    using assms by (simp add: curveLaws_def PubKey_def TweakPrivKey_def TweakPubKey_def TweakPubKeyWithTweak_def
        scalarAdd_def add.commute)
  show "PubKey cv (DeriveRevocationPrivKey cv revokeBasePriv (SetByteSlice commitSecret))
       = DeriveRevocationPubkey cv (PubKey cv revokeBasePriv) (ComputeCommitmentPoint cv commitSecret)"
    using assms by (simp add: curveLaws_def PubKey_def scalarAdd_mul DeriveRevocationPrivKey_def DeriveRevocationPubkey_def
        ComputeCommitmentPoint_def Let_def)
qed

text \<open>A cyclic group of the right order: the residues themselves.\<close>

definition residues :: "nat Curve" where
  "residues = \<lparr>cv_Add = (\<lambda>a b. (a + b) mod curveOrder), cv_ScalarMult = (\<lambda>k p. (k * p) mod curveOrder),
     cv_ScalarBaseMult = (\<lambda>k. k mod curveOrder), cv_SerializeCompressed = (\<lambda>p. put_word 32 (of_nat p :: 256 word))\<rparr>"

lemma residues_laws: "curveLaws residues"
  by (simp add: curveLaws_def residues_def mod_simps)

theorem derived_keys_spendable_witness:
  "PubKey residues (DeriveRevocationPrivKey residues 5 (SetByteSlice [1, 2, 3]))
     = DeriveRevocationPubkey residues (PubKey residues 5) (ComputeCommitmentPoint residues [1, 2, 3])"
  using derived_keys_spendable [OF residues_laws] by blast

text \<open>
  The two parties derive the same keys for a commitment from opposite points of view: what the
  owner derives as its own commitment, the other party derives as the commitment of the remote
  party, with the HTLC keys in exchanged roles.
\<close>

theorem key_rings_agree:
  "let owner = DeriveCommitmentKeys cv commitPoint True chanType cfgA cfgB;
       peer = DeriveCommitmentKeys cv commitPoint False chanType cfgB cfgA
   in ToLocalKey peer = ToLocalKey owner \<and> ToRemoteKey peer = ToRemoteKey owner \<and> RevocationKey peer = RevocationKey owner
      \<and> LocalHtlcKey peer = RemoteHtlcKey owner \<and> RemoteHtlcKey peer = LocalHtlcKey owner"
  by (simp add: DeriveCommitmentKeys_def Let_def)

end
