(* ===== verification/Commit_Tx.thy ===== *)
theory Commit_Tx
  imports Channel_Ops Omni_Payload Key_Derivation "HOL-Library.List_Lexorder" "HOL-Library.Product_Lexorder"
begin

text \<open>
  The construction of commitment transactions (\<open>src/oblnd/lnwallet/commitment.go\<close>,
  \<open>commit_sort.go\<close>, the state hints of \<open>transactions.go\<close>, and \<open>fetchCommitmentView\<close> with
  \<open>populateHtlcIndexes\<close> of \<open>channel.go\<close>). Script templates, the transaction weight and the
  consensus sanity check belong to the script and \<open>btcd\<close> packages: they are the fields of a
  record of functions that the definitions take as an argument.
\<close>

section \<open>The model\<close>

subsection \<open>Scripts\<close>

text \<open>A script template fails with \<open>None\<close>.\<close>

record 'pk ScriptLib =
  lib_LeaseCommitScriptToSelf :: "'pk \<Rightarrow> 'pk \<Rightarrow> u32 \<Rightarrow> u32 \<Rightarrow> bytes option"
  lib_CommitScriptToSelf :: "u32 \<Rightarrow> 'pk \<Rightarrow> 'pk \<Rightarrow> bytes option"
  lib_ReceiverHTLCScript :: "u32 \<Rightarrow> 'pk \<Rightarrow> 'pk \<Rightarrow> 'pk \<Rightarrow> bytes \<Rightarrow> bool \<Rightarrow> bytes option"
  lib_SenderHTLCScript :: "'pk \<Rightarrow> 'pk \<Rightarrow> 'pk \<Rightarrow> bytes \<Rightarrow> bool \<Rightarrow> bytes option"
  lib_LeaseSecondLevelHtlcScript :: "'pk \<Rightarrow> 'pk \<Rightarrow> u32 \<Rightarrow> u32 \<Rightarrow> bytes option"
  lib_SecondLevelHtlcScript :: "'pk \<Rightarrow> 'pk \<Rightarrow> u32 \<Rightarrow> bytes option"
  lib_GenerateP2SH :: "bytes \<Rightarrow> bytes option"
  lib_CheckTransactionSanity :: "MsgTx \<Rightarrow> bool"
  lib_GetTransactionWeight :: "MsgTx \<Rightarrow> i64"

datatype commit_error =
    ChannelError channel_error
  | ScriptBuildError
  | LocalAssetBelowDust SatAmount SatAmount AssetAmount
  | RemoteAssetBelowDust SatAmount SatAmount AssetAmount
  | StateNumTooBig u64
  | NotOneInput nat
  | CommitSortPanic
  | OmniError omni_error
  | TransactionInsane
  | ExceedsCapacity u64 SatAmount SatAmount
  | FeeRateBelowFloor u64 SatPerKWeight
  | IndexPanic
  | HtlcOutputNotFound bytes MilliSatoshi u32

definition of_script :: "bytes option \<Rightarrow> commit_error + bytes" where
  "of_script r = (case r of None \<Rightarrow> Inl ScriptBuildError | Some s \<Rightarrow> Inr s)"

text \<open>The result is the pair of public key script and witness script.\<close>

definition CommitScriptToSelf ::
    "'pk ScriptLib \<Rightarrow> ChannelType \<Rightarrow> bool \<Rightarrow> 'pk \<Rightarrow> 'pk \<Rightarrow> u32 \<Rightarrow> u32 \<Rightarrow> commit_error + bytes \<times> bytes" where
  "CommitScriptToSelf lib chanType initiator selfKey revokeKey csvDelay leaseExpiry =
     sbind (of_script (if initiator \<and> HasLeaseExpiration chanType
                       then lib_LeaseCommitScriptToSelf lib selfKey revokeKey csvDelay leaseExpiry
                       else lib_CommitScriptToSelf lib csvDelay selfKey revokeKey)) (\<lambda>redeem.
     sbind (of_script (lib_GenerateP2SH lib redeem)) (\<lambda>pkScript. Inr (pkScript, redeem)))"

definition genHtlcScript ::
    "'pk ScriptLib \<Rightarrow> ChannelType \<Rightarrow> bool \<Rightarrow> bool \<Rightarrow> u32 \<Rightarrow> bytes \<Rightarrow> 'pk CommitmentKeyRing
       \<Rightarrow> commit_error + bytes \<times> bytes" where
  "genHtlcScript lib chanType isIncoming ourCommit timeout rHash k =
     (let confirmedHtlcSpends = HasAnchors chanType;
          script =
            (if isIncoming \<and> ourCommit then
               lib_ReceiverHTLCScript lib timeout (RemoteHtlcKey k) (LocalHtlcKey k) (RevocationKey k) rHash confirmedHtlcSpends
             else if isIncoming \<and> \<not> ourCommit then
               lib_SenderHTLCScript lib (RemoteHtlcKey k) (LocalHtlcKey k) (RevocationKey k) rHash confirmedHtlcSpends
             else if \<not> isIncoming \<and> ourCommit then
               lib_SenderHTLCScript lib (LocalHtlcKey k) (RemoteHtlcKey k) (RevocationKey k) rHash confirmedHtlcSpends
             else
               lib_ReceiverHTLCScript lib timeout (LocalHtlcKey k) (RemoteHtlcKey k) (RevocationKey k) rHash confirmedHtlcSpends)
      in sbind (of_script script) (\<lambda>witnessScript.
         sbind (of_script (lib_GenerateP2SH lib witnessScript)) (\<lambda>p2sh. Inr (p2sh, witnessScript))))"

subsection \<open>State hints\<close>

definition maxStateHint :: u64 where
  "maxStateHint = 0xFFFFFFFFFFFF"

definition TimelockShift :: u32 where
  "TimelockShift = 0x20000000"

definition SequenceLockTimeDisabled :: u32 where
  "SequenceLockTimeDisabled = 0x80000000"

text \<open>The obfuscator has six bytes and is padded to a 64-bit number.\<close>

definition obfuscatorInt :: "bytes \<Rightarrow> u64" where
  "obfuscatorInt obfuscator = get_word ([0, 0] @ obfuscator)"

definition SetStateNumHint :: "MsgTx \<Rightarrow> u64 \<Rightarrow> bytes \<Rightarrow> commit_error + MsgTx" where
  "SetStateNumHint commitTx stateNum obfuscator =
     (if stateNum > maxStateHint then Inl (StateNumTooBig stateNum)
      else if length (tx_TxIn commitTx) \<noteq> 1 then Inl (NotOneInput (length (tx_TxIn commitTx)))
      else
        (let n = stateNum XOR obfuscatorInt obfuscator
         in Inr (commitTx\<lparr>tx_TxIn := [(hd (tx_TxIn commitTx))\<lparr>Sequence := ucast (drop_bit 24 n) OR SequenceLockTimeDisabled\<rparr>],
                          LockTime := ucast (n AND 0xFFFFFF) OR TimelockShift\<rparr>)))"

definition GetStateNumHint :: "MsgTx \<Rightarrow> bytes \<Rightarrow> u64" where
  "GetStateNumHint commitTx obfuscator =
     (push_bit 24 (ucast (Sequence (hd (tx_TxIn commitTx)) AND 0xFFFFFF)) OR ucast (LockTime commitTx AND 0xFFFFFF))
     XOR obfuscatorInt obfuscator"

subsection \<open>The canonical order\<close>

text \<open>
  The comparisons of \<open>sortableInputSlice.Less\<close> and \<open>sortableCommitOutputSlice.Less\<close>, and the keys
  whose order they are. Two outputs that compare equal in both directions are equal with their
  CLTV, so the result does not depend on the sorting algorithm.
\<close>

fun bytesLess :: "bytes \<Rightarrow> bytes \<Rightarrow> bool" where
  "bytesLess xs [] = False"
| "bytesLess [] (y # ys) = True"
| "bytesLess (x # xs) (y # ys) = (x < y \<or> x = y \<and> bytesLess xs ys)"

definition inputLess :: "TxIn \<Rightarrow> TxIn \<Rightarrow> bool" where
  "inputLess a b =
     (let pa = PreviousOutPoint a; pb = PreviousOutPoint b
      in if op_Hash pa = op_Hash pb then op_Index pa < op_Index pb
         else bytesLess (rev (op_Hash pa)) (rev (op_Hash pb)))"

definition outputLess :: "TxOut \<times> u32 \<Rightarrow> TxOut \<times> u32 \<Rightarrow> bool" where
  "outputLess a b =
     (if out_Value (fst a) \<noteq> out_Value (fst b) then i64_less (out_Value (fst a)) (out_Value (fst b))
      else if PkScript (fst a) \<noteq> PkScript (fst b) then bytesLess (PkScript (fst a)) (PkScript (fst b))
      else snd a < snd b)"

definition inputKey :: "TxIn \<Rightarrow> bytes \<times> u32" where
  "inputKey i = (rev (op_Hash (PreviousOutPoint i)), op_Index (PreviousOutPoint i))"

definition outputKey :: "TxOut \<times> u32 \<Rightarrow> int \<times> bytes \<times> u32" where
  "outputKey p = (sint (out_Value (fst p)), PkScript (fst p), snd p)"

definition InPlaceCommitSort :: "MsgTx \<Rightarrow> u32 list \<Rightarrow> commit_error + MsgTx \<times> u32 list" where
  "InPlaceCommitSort tx cltvs =
     (if length (tx_TxOut tx) \<noteq> length cltvs then Inl CommitSortPanic
      else
        (let sorted = sort_key outputKey (zip (tx_TxOut tx) cltvs)
         in Inr (tx\<lparr>tx_TxIn := sort_key inputKey (tx_TxIn tx), tx_TxOut := map fst sorted\<rparr>, map snd sorted)))"

subsection \<open>The commitment transaction\<close>

definition fundingTxIn :: "OutPoint \<Rightarrow> TxIn" where
  "fundingTxIn op = \<lparr>PreviousOutPoint = op, Sequence = 0xFFFFFFFF\<rparr>"

record CommitmentBuilder =
  cb_FundingOutpoint :: OutPoint
  obfuscator :: bytes

record unsignedCommitmentTx =
  u_txn :: MsgTx
  u_fee :: SatAmount
  u_balances :: balances
  u_cltvs :: "u32 list"

definition AddTxOut :: "MsgTx \<Rightarrow> TxOut \<Rightarrow> MsgTx" where
  "AddTxOut tx out = tx\<lparr>tx_TxOut := tx_TxOut tx @ [out]\<rparr>"

definition addOutput ::
    "bool \<Rightarrow> bytes \<Rightarrow> SatAmount \<Rightarrow> AssetAmount \<Rightarrow> MsgTx \<times> PksAmounts \<Rightarrow> MsgTx \<times> PksAmounts" where
  "addOutput present script btcAmt assetAmt p =
     (if present
      then (AddTxOut (fst p) \<lparr>out_Value = btcAmt, PkScript = script\<rparr>, PksAmounts_Add (snd p) script assetAmt)
      else p)"

definition CreateCommitTx ::
    "'pk ScriptLib \<Rightarrow> ChannelType \<Rightarrow> TxIn \<Rightarrow> 'pk CommitmentKeyRing \<Rightarrow> ChannelConstraints \<Rightarrow> SatAmount \<Rightarrow> SatAmount
       \<Rightarrow> AssetAmount \<Rightarrow> AssetAmount \<Rightarrow> bool \<Rightarrow> u32 \<Rightarrow> PksAmounts \<Rightarrow> bytes \<Rightarrow> commit_error + MsgTx \<times> PksAmounts" where
  "CreateCommitTx lib chanType fundingOutput k localChanCfg btcAmountToLocal btcAmountToRemote
      assetAmountToLocal assetAmountToRemote initiator leaseExpiry opAmounts remoteShutdownScript =
     sbind (CommitScriptToSelf lib chanType initiator (ToLocalKey k) (RevocationKey k)
              (ucast (CsvDelay localChanCfg)) leaseExpiry) (\<lambda>(toLocalScript, _).
       let commitTx = \<lparr>Version = 2, tx_TxIn = [fundingOutput], tx_TxOut = [], LockTime = 0\<rparr>;
           localOutput = (\<not> i64_less btcAmountToLocal (DustLimit localChanCfg));
           remoteOutput = (\<not> i64_less btcAmountToRemote (DustLimit localChanCfg))
       in if \<not> localOutput \<and> i64_less 0 assetAmountToLocal
          then Inl (LocalAssetBelowDust btcAmountToLocal (DustLimit localChanCfg) assetAmountToLocal)
          else if \<not> remoteOutput \<and> i64_less 0 assetAmountToRemote
          then Inl (RemoteAssetBelowDust btcAmountToRemote (DustLimit localChanCfg) assetAmountToRemote)
          else Inr (addOutput remoteOutput remoteShutdownScript btcAmountToRemote assetAmountToRemote
                     (addOutput localOutput toLocalScript btcAmountToLocal assetAmountToLocal (commitTx, opAmounts))))"

definition addHTLC ::
    "'pk ScriptLib \<Rightarrow> MsgTx \<Rightarrow> bool \<Rightarrow> bool \<Rightarrow> PaymentDescriptor \<Rightarrow> 'pk CommitmentKeyRing \<Rightarrow> ChannelType \<Rightarrow> PksAmounts
       \<Rightarrow> commit_error + MsgTx \<times> PaymentDescriptor \<times> PksAmounts" where
  "addHTLC lib commitTx ourCommit isIncoming pd k chanType opAmounts =
     sbind (genHtlcScript lib chanType isIncoming ourCommit (Timeout pd) (RHash pd) k) (\<lambda>(p2wsh, witnessScript).
       Inr (AddTxOut commitTx \<lparr>out_Value = ToSatoshis (BtcAmount pd), PkScript = p2wsh\<rparr>,
            (if ourCommit then pd\<lparr>ourPkScript := p2wsh, ourWitnessScript := witnessScript\<rparr>
             else pd\<lparr>theirPkScript := p2wsh, theirWitnessScript := witnessScript\<rparr>),
            PksAmounts_Add opAmounts p2wsh (AssetAmount pd)))"

text \<open>
  The loop over the HTLCs of one direction. An HTLC of the view is a pointer into the log: its new
  scripts are written there, also when a later HTLC fails.
\<close>

fun addHtlcOutputs ::
    "'pk ScriptLib \<Rightarrow> 'pk CommitmentKeyRing \<Rightarrow> ChannelType \<Rightarrow> bool \<Rightarrow> bool \<Rightarrow> SatPerKWeight \<Rightarrow> SatAmount
       \<Rightarrow> (nat \<times> PaymentDescriptor) list \<Rightarrow> LightningChannel \<Rightarrow> MsgTx \<Rightarrow> PksAmounts \<Rightarrow> u32 list
       \<Rightarrow> LightningChannel \<times> (commit_error + MsgTx \<times> PksAmounts \<times> u32 list \<times> (nat \<times> PaymentDescriptor) list)" where
  "addHtlcOutputs lib k chanType ourTx incoming rate dust [] lc tx opAmounts cltvs = (lc, Inr (tx, opAmounts, cltvs, []))"
| "addHtlcOutputs lib k chanType ourTx incoming rate dust ((e, htlc) # es) lc tx opAmounts cltvs =
     (if HtlcIsDust chanType incoming ourTx rate (ToSatoshis (BtcAmount htlc)) dust (AssetID htlc) then
        (case addHtlcOutputs lib k chanType ourTx incoming rate dust es lc tx opAmounts cltvs of
           (lc', Inl err) \<Rightarrow> (lc', Inl err)
         | (lc', Inr (tx', op', cltvs', es')) \<Rightarrow> (lc', Inr (tx', op', cltvs', (e, htlc) # es')))
      else
        (case addHTLC lib tx ourTx incoming htlc k chanType opAmounts of
           Inl err \<Rightarrow> (lc, Inl err)
         | Inr (tx1, htlc', op1) \<Rightarrow>
             (case addHtlcOutputs lib k chanType ourTx incoming rate dust es
                     (writeEntry True (\<not> incoming) e htlc' lc) tx1 op1 (cltvs @ [Timeout htlc]) of
                (lc', Inl err) \<Rightarrow> (lc', Inl err)
              | (lc', Inr (tx', op', cltvs', es')) \<Rightarrow> (lc', Inr (tx', op', cltvs', (e, htlc') # es')))))"

definition countNonDust ::
    "OpenChannel \<Rightarrow> bool \<Rightarrow> bool \<Rightarrow> SatPerKWeight \<Rightarrow> SatAmount \<Rightarrow> (nat \<times> PaymentDescriptor) list \<Rightarrow> i64" where
  "countNonDust cs incoming ourTx rate dust es =
     of_nat (length (filter (\<lambda>(e, htlc).
       \<not> HtlcIsDust (ChanType cs) incoming ourTx rate (ToSatoshis (BtcAmount htlc)) dust (AssetID htlc)) es))"

text \<open>
  The bitcoin balances of an asset channel: the party that did not fund the channel gets a fixed
  amount when it owns an asset, the other one the rest. The balances are unsigned, so the test
  whether they are below zero is never true.
\<close>

definition gasFor :: "AssetAmount \<Rightarrow> MilliSatoshi" where
  "gasFor assetAmt = (if i64_less 0 assetAmt then NewMSatFromSatoshis (OmniGas + 1106 + 100) else 0)"

definition remainder :: "OpenChannel \<Rightarrow> MilliSatoshi \<Rightarrow> MilliSatoshi \<Rightarrow> i64 \<Rightarrow> MilliSatoshi" where
  "remainder cs other commitFeeMSat numHTLCs =
     (let r = NewMSatFromSatoshis (cs_BtcCapacity cs) - other - commitFeeMSat
              - NewMSatFromSatoshis (OmniGas * 3 * numHTLCs)
      in if r < 0 then 0 else r)"

definition payCommitFee :: "OpenChannel \<Rightarrow> SatAmount \<Rightarrow> i64 \<Rightarrow> balances \<Rightarrow> balances" where
  "payCommitFee cs commitFee numHTLCs b =
     (let commitFeeMSat = NewMSatFromSatoshis commitFee
      in if cs_AssetID cs > BtcAssetId then
           (if IsInitiator cs then
              (let theirs = gasFor (theirAsset b)
               in b\<lparr>ourBtc := remainder cs theirs commitFeeMSat numHTLCs, theirBtc := theirs\<rparr>)
            else
              (let ours = gasFor (ourAsset b)
               in b\<lparr>ourBtc := ours, theirBtc := remainder cs ours commitFeeMSat numHTLCs\<rparr>))
         else if IsInitiator cs \<and> i64_less (ToSatoshis (ourBtc b)) commitFee then b\<lparr>ourBtc := 0\<rparr>
         else if IsInitiator cs then b\<lparr>ourBtc := ourBtc b - commitFeeMSat\<rparr>
         else if i64_less (ToSatoshis (theirBtc b)) commitFee then b\<lparr>theirBtc := 0\<rparr>
         else b\<lparr>theirBtc := theirBtc b - commitFeeMSat\<rparr>)"

definition leaseExpiryOf :: "OpenChannel \<Rightarrow> u32" where
  "leaseExpiryOf cs = (if HasLeaseExpiration (ChanType cs) then ThawHeight cs else 0)"

definition totalOut :: "MsgTx \<Rightarrow> SatAmount" where
  "totalOut tx = (\<Sum>txOut \<leftarrow> tx_TxOut tx. out_Value txOut)"

definition baseCommitTx ::
    "'pk ScriptLib \<Rightarrow> CommitmentBuilder \<Rightarrow> OpenChannel \<Rightarrow> balances \<Rightarrow> bool \<Rightarrow> 'pk CommitmentKeyRing
       \<Rightarrow> commit_error + MsgTx \<times> PksAmounts" where
  "baseCommitTx lib cb cs b ourTx k =
     (let opAmounts = NewPksAmounts (cs_AssetID cs)
      in if ourTx then
           CreateCommitTx lib (ChanType cs) (fundingTxIn (cb_FundingOutpoint cb)) k (LocalChanCfg cs)
             (ToSatoshis (ourBtc b)) (ToSatoshis (theirBtc b)) (ourAsset b) (theirAsset b)
             (IsInitiator cs) (leaseExpiryOf cs) opAmounts (RemoteShutdownScript cs)
         else
           CreateCommitTx lib (ChanType cs) (fundingTxIn (cb_FundingOutpoint cb)) k (RemoteChanCfg cs)
             (ToSatoshis (theirBtc b)) (ToSatoshis (ourBtc b)) (theirAsset b) (ourAsset b)
             (\<not> IsInitiator cs) (leaseExpiryOf cs) opAmounts (LocalShutdownScript cs))"

text \<open>The steps after the outputs are complete: state hint, order, asset payload and checks.\<close>

definition finishCommitTx ::
    "'pk ScriptLib \<Rightarrow> CommitmentBuilder \<Rightarrow> OpenChannel \<Rightarrow> u64 \<Rightarrow> SatAmount \<Rightarrow> MsgTx \<Rightarrow> PksAmounts \<Rightarrow> u32 list
       \<Rightarrow> commit_error + MsgTx \<times> u32 list" where
  "finishCommitTx lib cb cs ht commitFee tx opAmounts cltvs =
     sbind (SetStateNumHint tx ht (obfuscator cb)) (\<lambda>tx1.
     sbind (InPlaceCommitSort tx1 cltvs) (\<lambda>(tx2, cltvs').
     sbind (case AddOpReturnToTx tx2 opAmounts of Inl e \<Rightarrow> Inl (OmniError e) | Inr t \<Rightarrow> Inr t) (\<lambda>tx3.
       if \<not> lib_CheckTransactionSanity lib tx3 then Inl TransactionInsane
       else if i64_less (cs_BtcCapacity cs) (totalOut tx3 + commitFee)
       then Inl (ExceedsCapacity ht (totalOut tx3 + commitFee) (cs_BtcCapacity cs))
       else Inr (tx3, cltvs'))))"

definition createUnsignedCommitmentTx ::
    "'pk ScriptLib \<Rightarrow> CommitmentBuilder \<Rightarrow> LightningChannel \<Rightarrow> balances \<Rightarrow> bool \<Rightarrow> SatPerKWeight \<Rightarrow> u64 \<Rightarrow> htlcView
       \<Rightarrow> 'pk CommitmentKeyRing \<Rightarrow> LightningChannel \<times> (commit_error + unsignedCommitmentTx \<times> htlcView)" where
  "createUnsignedCommitmentTx lib cb lc b ourTx rate ht view k =
     (let cs = channelState lc;
          dust = DustLimit (if ourTx then LocalChanCfg cs else RemoteChanCfg cs);
          numHTLCs = countNonDust cs False ourTx rate dust (ourUpdates view)
                     + countNonDust cs True ourTx rate dust (theirUpdates view);
          commitFee = FeeForWeight rate (CommitWeight (ChanType cs) + HTLCWeight * numHTLCs);
          b' = payCommitFee cs commitFee numHTLCs b
      in case baseCommitTx lib cb cs b' ourTx k of
           Inl err \<Rightarrow> (lc, Inl err)
         | Inr (tx0, op0) \<Rightarrow>
             (case addHtlcOutputs lib k (ChanType cs) ourTx False rate dust (ourUpdates view) lc tx0 op0
                     (replicate (length (tx_TxOut tx0)) 0) of
                (lc1, Inl err) \<Rightarrow> (lc1, Inl err)
              | (lc1, Inr (tx1, op1, cltvs1, ours)) \<Rightarrow>
                  (case addHtlcOutputs lib k (ChanType cs) ourTx True rate dust (theirUpdates view) lc1 tx1 op1 cltvs1 of
                     (lc2, Inl err) \<Rightarrow> (lc2, Inl err)
                   | (lc2, Inr (tx2, op2, cltvs2, theirs)) \<Rightarrow>
                       (lc2, sbind (finishCommitTx lib cb cs ht commitFee tx2 op2 cltvs2) (\<lambda>(tx, cltvs).
                          Inr (\<lparr>u_txn = tx, u_fee = commitFee, u_balances = b', u_cltvs = cltvs\<rparr>,
                               view\<lparr>ourUpdates := ours, theirUpdates := theirs\<rparr>))))))"

subsection \<open>Locating the HTLC outputs\<close>

text \<open>
  The duplicates map a payment hash to the output indexes that were given out for it. The first
  output of value zero is the asset payload, which has no CLTV.
\<close>

type_synonym dups = "bytes \<Rightarrow> 32 word list"

fun locateLoop ::
    "nat \<Rightarrow> TxOut list \<Rightarrow> u32 list \<Rightarrow> bytes \<Rightarrow> PaymentDescriptor \<Rightarrow> dups \<Rightarrow> commit_error + 32 word \<times> dups" where
  "locateLoop i [] cltvs script p d = Inl (HtlcOutputNotFound script (BtcAmount p) (Timeout p))"
| "locateLoop i (txOut # outs) [] script p d = Inl IndexPanic"
| "locateLoop i (txOut # outs) (cltv # cltvs) script p d =
     (if PkScript txOut = script \<and> out_Value txOut = ToSatoshis (BtcAmount p) \<and> cltv = Timeout p
         \<and> of_nat i \<notin> set (d (RHash p))
      then Inr (of_nat i, d(RHash p := d (RHash p) @ [of_nat i]))
      else locateLoop (Suc i) outs cltvs script p d)"

definition locateOutputIndex ::
    "PaymentDescriptor \<Rightarrow> MsgTx \<Rightarrow> bool \<Rightarrow> dups \<Rightarrow> u32 list \<Rightarrow> commit_error + 32 word \<times> dups" where
  "locateOutputIndex p tx ourCommit d cltvs =
     (if tx_TxOut tx = [] then Inl IndexPanic
      else locateLoop 0 (tx_TxOut tx) (if out_Value (hd (tx_TxOut tx)) = 0 then 0 # cltvs else cltvs)
             (if ourCommit then ourPkScript p else theirPkScript p) p d)"

fun populateSide ::
    "bool \<Rightarrow> MsgTx \<Rightarrow> u32 list \<Rightarrow> nat \<Rightarrow> PaymentDescriptor list \<Rightarrow> dups \<Rightarrow> (32 word \<Rightarrow> nat option)
       \<Rightarrow> commit_error + PaymentDescriptor list \<times> dups \<times> (32 word \<Rightarrow> nat option)" where
  "populateSide ours tx cltvs i [] d ix = Inr ([], d, ix)"
| "populateSide ours tx cltvs i (htlc # hs) d ix =
     sbind (locateOutputIndex htlc tx ours d cltvs) (\<lambda>(idx, d').
     sbind (populateSide ours tx cltvs (Suc i) hs d' (if ours then ix(idx \<mapsto> i) else ix)) (\<lambda>(hs', d'', ix').
       Inr ((if ours then htlc\<lparr>localOutputIndex := idx\<rparr> else htlc\<lparr>remoteOutputIndex := idx\<rparr>) # hs', d'', ix')))"

definition populateHtlcIndexes :: "commitment \<Rightarrow> MsgTx \<Rightarrow> u32 list \<Rightarrow> commit_error + commitment" where
  "populateHtlcIndexes c tx cltvs =
     sbind (populateSide (isOurs c) tx cltvs 0 (outgoingHTLCs c) (\<lambda>_. []) Map.empty) (\<lambda>(outgoing, d, outIx).
     sbind (populateSide (isOurs c) tx cltvs 0 (incomingHTLCs c) d Map.empty) (\<lambda>(incoming, d', inIx).
       Inr (c\<lparr>outgoingHTLCs := outgoing, incomingHTLCs := incoming,
              outgoingHTLCIndex := outIx, incomingHTLCIndex := inIx\<rparr>)))"

definition fetchCommitmentView ::
    "'pk ScriptLib \<Rightarrow> CommitmentBuilder \<Rightarrow> LightningChannel \<Rightarrow> bool \<Rightarrow> u64 \<Rightarrow> u64 \<Rightarrow> u64 \<Rightarrow> u64 \<Rightarrow> 'pk CommitmentKeyRing
       \<Rightarrow> LightningChannel \<times> (commit_error + commitment)" where
  "fetchCommitmentView lib cb lc remoteChain ourLogIndex ourHtlcIdx theirLogIndex theirHtlcIdx k =
     (let nextHeight = height (tip (chainOf lc remoteChain)) + 1
      in case computeView lc (fetchHTLCView lc theirLogIndex ourLogIndex) remoteChain True of
           (lc1, Inl err) \<Rightarrow> (lc1, Inl (ChannelError err))
         | (lc1, Inr (b, _, filtered)) \<Rightarrow>
             (let rate = v_feePerKw filtered
              in case createUnsignedCommitmentTx lib cb lc1 b (\<not> remoteChain) rate nextHeight filtered k of
                   (lc2, Inl err) \<Rightarrow> (lc2, Inl err)
                 | (lc2, Inr (u, view)) \<Rightarrow>
                     (let cs = channelState lc2;
                          effFee = cs_BtcCapacity cs - totalOut (u_txn u);
                          weight = lib_GetTransactionWeight lib (u_txn u) + WitnessCommitmentTxWeight;
                          effFeeRate = i64_div (effFee * 1000) weight;
                          c = \<lparr>height = nextHeight, isOurs = \<not> remoteChain, ourMessageIndex = ourLogIndex,
                               theirMessageIndex = theirLogIndex, ourHtlcIndex = ourHtlcIdx,
                               theirHtlcIndex = theirHtlcIdx, txn = Some (u_txn u), c_sig = [],
                               ourBtcBalance = ourBtc (u_balances u), theirBtcBalance = theirBtc (u_balances u),
                               ourAssetBalance = ourAsset (u_balances u), theirAssetBalance = theirAsset (u_balances u),
                               fee = u_fee u, feePerKw = rate, dustLimit = dustLimitOf lc2 remoteChain,
                               outgoingHTLCs = map snd (ourUpdates view), incomingHTLCs = map snd (theirUpdates view),
                               outgoingHTLCIndex = Map.empty, incomingHTLCIndex = Map.empty\<rparr>
                      in if i64_less effFeeRate AbsoluteFeePerKwFloor
                         then (lc2, Inl (FeeRateBelowFloor nextHeight effFeeRate))
                         else (lc2, populateHtlcIndexes c (u_txn u) (u_cltvs u)))))"

subsection \<open>Cooperative close\<close>

text \<open>The result is \<open>None\<close> when the initiator cannot afford the fee.\<close>

definition CoopCloseBalance ::
    "bool \<Rightarrow> SatAmount \<Rightarrow> ChannelCommitment \<Rightarrow> (SatAmount \<times> SatAmount \<times> AssetAmount \<times> AssetAmount) option" where
  "CoopCloseBalance isInitiator coopCloseFee localCommit =
     (let ourBalance = ToSatoshis (LocalBtcBalance localCommit);
          theirBalance = ToSatoshis (RemoteBtcBalance localCommit);
          initiatorDelta = CommitFee localCommit - coopCloseFee;
          ourBalance' = (if isInitiator then ourBalance + initiatorDelta else ourBalance);
          theirBalance' = (if isInitiator then theirBalance else theirBalance + initiatorDelta)
      in if i64_less ourBalance' 0 \<or> i64_less theirBalance' 0 then None
         else Some (ourBalance', theirBalance', LocalAssetBalance localCommit, RemoteAssetBalance localCommit))"

section \<open>State hints\<close>

lemma high_bits_zero:
  fixes w :: u64
  assumes "unat w < 2 ^ 48" "48 \<le> n"
  shows "\<not> bit w n"
proof (rule less_two_power_high_bits [OF _ assms(2)])
  show "w < 2 ^ 48" using assms(1) by (simp add: word_less_nat_alt)
qed

lemma obfuscator_bits: "length obf = 6 \<Longrightarrow> 48 \<le> n \<Longrightarrow> \<not> bit (obfuscatorInt obf) n"
proof (rule high_bits_zero)
  assume "length obf = 6"
  then have "be_val obf < 2 ^ 48" using be_val_bound [of obf] by simp
  then show "unat (obfuscatorInt obf) < 2 ^ 48" by (simp add: obfuscatorInt_def get_word_be_val unat_of_nat)
qed

lemma hint_bits:
  fixes n :: u64
  assumes "\<And>k. 48 \<le> k \<Longrightarrow> \<not> bit n k"
  shows "push_bit 24 (ucast ((ucast (drop_bit 24 n) OR SequenceLockTimeDisabled) AND 0xFFFFFF))
     OR ucast ((ucast (n AND 0xFFFFFF) OR TimelockShift) AND (0xFFFFFF :: u32)) = n"
proof (rule bit_word_eqI)
  fix k assume k: "k < LENGTH(64)"
  have m: "bit (0xFFFFFF :: int) j \<longleftrightarrow> j < 24" for j
  proof -
    have "(0xFFFFFF :: int) = mask 24" by (simp add: mask_eq_exp_minus_1)
    then have "bit (0xFFFFFF :: int) j \<longleftrightarrow> bit (mask 24 :: int) j" by (rule arg_cong)
    then show ?thesis unfolding bit_mask_iff by auto
  qed
  have s: "bit SequenceLockTimeDisabled j \<longleftrightarrow> j = 31" "bit TimelockShift j \<longleftrightarrow> j = 29" for j
  proof -
    have "SequenceLockTimeDisabled = 2 ^ 31" "TimelockShift = 2 ^ 29"
      by (simp_all add: SequenceLockTimeDisabled_def TimelockShift_def)
    then have "bit SequenceLockTimeDisabled j \<longleftrightarrow> bit (2 ^ 31 :: u32) j" "bit TimelockShift j \<longleftrightarrow> bit (2 ^ 29 :: u32) j"
      by (simp_all only:)
    then show "bit SequenceLockTimeDisabled j \<longleftrightarrow> j = 31" "bit TimelockShift j \<longleftrightarrow> j = 29"
      unfolding bit_exp_iff by auto
  qed
  show "bit (push_bit 24 (ucast ((ucast (drop_bit 24 n) OR SequenceLockTimeDisabled) AND 0xFFFFFF))
     OR ucast ((ucast (n AND 0xFFFFFF) OR TimelockShift) AND (0xFFFFFF :: u32)) :: u64) k = bit n k"
    using k assms [of k] by (cases "k < 48"; cases "k < 24") (auto simp: bit_simps m s)
qed

lemma state_hint_roundtrip:
  assumes "SetStateNumHint tx n obf = Inr tx'" and "length obf = 6"
  shows "GetStateNumHint tx' obf = n"
proof -
  let ?x = "n XOR obfuscatorInt obf"
  have n: "unat n < 2 ^ 48" and tx': "Sequence (hd (tx_TxIn tx')) = ucast (drop_bit 24 ?x) OR SequenceLockTimeDisabled"
    "LockTime tx' = ucast (?x AND 0xFFFFFF) OR TimelockShift"
    using assms(1) by (auto simp: SetStateNumHint_def Let_def maxStateHint_def word_less_nat_alt not_less split: if_splits)
  have "\<not> bit ?x k" if "48 \<le> k" for k
    using high_bits_zero [OF n that] obfuscator_bits [OF assms(2) that] by (simp add: bit_simps)
  from hint_bits [OF this] have "GetStateNumHint tx' obf = ?x XOR obfuscatorInt obf"
    by (simp add: GetStateNumHint_def tx')
  then show ?thesis by (simp add: xor.assoc)
qed

section \<open>The canonical order\<close>

lemma bytesLess_iff: "bytesLess xs ys \<longleftrightarrow> xs < ys"
  by (induction xs ys rule: bytesLess.induct) auto

lemma sint_eq_i64: "sint a = sint b \<longleftrightarrow> a = (b :: i64)"
  by (auto intro: signed_word_eqI)

lemma outputKey_inj: "outputKey a = outputKey b \<Longrightarrow> a = b"
  by (cases a; cases b) (auto simp: outputKey_def sint_eq_i64 intro!: TxOut.equality)

lemma outputLess_key: "outputLess a b \<longleftrightarrow> outputKey a < outputKey b"
  by (auto simp: outputLess_def outputKey_def less_prod_def i64_less_def bytesLess_iff sint_eq_i64
      order.order_iff_strict)

lemma inputLess_key: "inputLess a b \<longleftrightarrow> inputKey a < inputKey b"
  by (auto simp: inputLess_def inputKey_def less_prod_def bytesLess_iff Let_def order.order_iff_strict)

lemma sort_key_unique:
  assumes "mset xs = mset ys" and "inj_on f (set xs)"
  shows "sort_key f xs = sort_key f ys"
proof -
  have "sort (map f xs) = map f (sort_key f xs)" "sort (map f xs) = map f (sort_key f ys)"
    using assms(1) by (intro properties_for_sort; simp)+
  moreover have "set xs = set ys" using assms(1) by (metis set_mset_mset)
  ultimately show ?thesis using assms(2) by (metis inj_on_map_eq_map set_sort sup.idem)
qed

section \<open>Properties\<close>

text \<open>
  The state number hidden in a commitment transaction is recovered from it: setting the hint
  succeeds exactly for a transaction with one input and a number of at most 48 bits, and reading it
  with the same obfuscator gives the number back. Only the sequence and the lock time change.
\<close>

theorem state_hint_recovered:
  assumes "length obf = 6"
  shows "(is_ok (SetStateNumHint tx n obf) \<longleftrightarrow> length (tx_TxIn tx) = 1 \<and> unat n < 2 ^ 48)
     \<and> (\<forall>tx'. SetStateNumHint tx n obf = Inr tx' \<longrightarrow>
          GetStateNumHint tx' obf = n \<and> tx_TxOut tx' = tx_TxOut tx
          \<and> map PreviousOutPoint (tx_TxIn tx') = map PreviousOutPoint (tx_TxIn tx))"
proof (intro conjI allI impI)
  show "is_ok (SetStateNumHint tx n obf) \<longleftrightarrow> length (tx_TxIn tx) = 1 \<and> unat n < 2 ^ 48"
    by (auto simp: SetStateNumHint_def maxStateHint_def word_less_nat_alt Let_def)
  fix tx' assume s: "SetStateNumHint tx n obf = Inr tx'"
  show "GetStateNumHint tx' obf = n" using state_hint_roundtrip [OF s assms] .
  show "tx_TxOut tx' = tx_TxOut tx" "map PreviousOutPoint (tx_TxIn tx') = map PreviousOutPoint (tx_TxIn tx)"
    using s by (auto simp: SetStateNumHint_def Let_def length_Suc_conv split: if_splits)
qed

theorem state_hint_recovered_witness:
  "is_ok (SetStateNumHint \<lparr>Version = 2, tx_TxIn = [fundingTxIn \<lparr>op_Hash = [], op_Index = 0\<rparr>], tx_TxOut = [], LockTime = 0\<rparr>
     77 [1, 2, 3, 4, 5, 6])"
  using state_hint_recovered [of "[1, 2, 3, 4, 5, 6]" "\<lparr>Version = 2, tx_TxIn = [fundingTxIn \<lparr>op_Hash = [], op_Index = 0\<rparr>], tx_TxOut = [], LockTime = 0\<rparr>" 77]
  by simp

text \<open>
  C39. The order of a commitment transaction is canonical: the outputs are permuted together with
  their CLTV values, no output is smaller than an earlier one, and two transactions with the same
  outputs and CLTV values in any order are sorted to the same outputs and CLTV values.
\<close>

theorem commit_sort_canonical:
  assumes "InPlaceCommitSort tx cltvs = Inr (tx', cltvs')"
  shows "mset (zip (tx_TxOut tx') cltvs') = mset (zip (tx_TxOut tx) cltvs)
     \<and> sorted_wrt (\<lambda>a b. \<not> outputLess b a) (zip (tx_TxOut tx') cltvs')
     \<and> sorted_wrt (\<lambda>a b. \<not> inputLess b a) (tx_TxIn tx')
     \<and> (mset (zip (tx_TxOut tx2) cltvs2) = mset (zip (tx_TxOut tx) cltvs) \<and> length (tx_TxOut tx2) = length cltvs2 \<longrightarrow>
          (\<exists>tx2'. InPlaceCommitSort tx2 cltvs2 = Inr (tx2', cltvs') \<and> tx_TxOut tx2' = tx_TxOut tx'))"
proof -
  let ?s = "sort_key outputKey (zip (tx_TxOut tx) cltvs)"
  have r: "length (tx_TxOut tx) = length cltvs" "tx_TxOut tx' = map fst ?s" "cltvs' = map snd ?s"
    "tx_TxIn tx' = sort_key inputKey (tx_TxIn tx)"
    using assms by (auto simp: InPlaceCommitSort_def Let_def split: if_splits)
  have z: "zip (tx_TxOut tx') cltvs' = ?s" by (simp add: r(2,3) zip_map_fst_snd)
  have sorted: "sorted_wrt (\<lambda>a b. f a \<le> f b) (sort_key f xs)" for f :: "'x \<Rightarrow> 'y::linorder" and xs
    using sorted_sort_key [of f xs] by (simp add: sorted_wrt_map)
  have "sorted_wrt (\<lambda>a b. \<not> outputLess b a) ?s" "sorted_wrt (\<lambda>a b. \<not> inputLess b a) (tx_TxIn tx')"
    using sorted by (simp_all add: outputLess_key inputLess_key not_less r(4))
  moreover have "\<exists>tx2'. InPlaceCommitSort tx2 cltvs2 = Inr (tx2', cltvs') \<and> tx_TxOut tx2' = tx_TxOut tx'"
    if "mset (zip (tx_TxOut tx2) cltvs2) = mset (zip (tx_TxOut tx) cltvs)" "length (tx_TxOut tx2) = length cltvs2"
    using sort_key_unique [OF that(1), of outputKey] outputKey_inj that(2) r
    by (auto simp: InPlaceCommitSort_def Let_def inj_on_def)
  ultimately show ?thesis by (auto simp: z)
qed

definition unsortedTx :: MsgTx where
  "unsortedTx = \<lparr>Version = 2, tx_TxIn = [],
     tx_TxOut = [\<lparr>out_Value = 900, PkScript = [1]\<rparr>, \<lparr>out_Value = 600, PkScript = [2]\<rparr>, \<lparr>out_Value = 600, PkScript = [2]\<rparr>],
     LockTime = 0\<rparr>"

theorem commit_sort_canonical_witness:
  "\<exists>tx' cltvs'. InPlaceCommitSort unsortedTx [0, 30, 20] = Inr (tx', cltvs')
     \<and> (\<exists>tx2'. InPlaceCommitSort unsortedTx [0, 20, 30] = Inr (tx2', cltvs') \<and> tx_TxOut tx2' = tx_TxOut tx')"
proof -
  obtain tx' cltvs' where s: "InPlaceCommitSort unsortedTx [0, 30, 20] = Inr (tx', cltvs')"
    by (simp add: InPlaceCommitSort_def unsortedTx_def Let_def)
  from commit_sort_canonical [OF s, of unsortedTx "[0, 20, 30]"] s show ?thesis by (auto simp: unsortedTx_def)
qed

end
