(* ===== verification/Commitment_Safety.thy ===== *)
theory Commitment_Safety
  imports Commit_Tx Channel_Safety
begin

text \<open>
  Correctness of the construction of a commitment: it changes nothing in the logs but the progress
  of the updates, it conserves value across the fee, its transaction pays what the balances say,
  and a commitment that would carry a dust HTLC cannot be built.
\<close>

section \<open>Building a commitment keeps the logs\<close>

definition logsRel :: "(PaymentDescriptor \<Rightarrow> PaymentDescriptor \<Rightarrow> bool) \<Rightarrow> LightningChannel \<Rightarrow> LightningChannel \<Rightarrow> bool" where
  "logsRel R a b \<longleftrightarrow> logRel R (localUpdateLog a) (localUpdateLog b) \<and> logRel R (remoteUpdateLog a) (remoteUpdateLog b) \<and> sameConfig a b"

lemma logsRel_same: "logsRel sameUpdate = sameLogs"
  by (intro ext) (simp add: logsRel_def sameLogs_def)

definition pointedBy :: "(PaymentDescriptor \<Rightarrow> PaymentDescriptor \<Rightarrow> bool) \<Rightarrow> (nat \<times> PaymentDescriptor) list \<Rightarrow> updateLog \<Rightarrow> bool" where
  "pointedBy R es u \<longleftrightarrow> distinct (map fst (entries u)) \<and> (\<forall>(e, p) \<in> set es. \<exists>q. (e, q) \<in> set (entries u) \<and> R q p)"

text \<open>
  What the outputs of a commitment may do to a log: a relation between the values of an entry that
  is an equivalence and that adding an output respects. The entries of a view are pointers to the log.
\<close>

locale output_progress =
  fixes R :: "PaymentDescriptor \<Rightarrow> PaymentDescriptor \<Rightarrow> bool"
  assumes R_refl [simp]: "R p p" and R_sym: "R p q \<Longrightarrow> R q p" and R_trans: "R p q \<Longrightarrow> R q r \<Longrightarrow> R p r"
    and R_ours: "R p (p\<lparr>ourPkScript := a, ourWitnessScript := b\<rparr>)"
    and R_theirs: "R p (p\<lparr>theirPkScript := a, theirWitnessScript := b\<rparr>)"
begin

lemma pointed_mono: "pointedBy R es u \<Longrightarrow> logRel R u v \<Longrightarrow> pointedBy R es v"
proof -
  assume p: "pointedBy R es u" and rel: "logRel R u v"
  have "\<exists>q. (e, q) \<in> set (entries v) \<and> R q p'" if mem: "(e, p') \<in> set es" for e p'
  proof -
    obtain q where q: "(e, q) \<in> set (entries u)" "R q p'" using p mem by (auto simp: pointedBy_def)
    from logRel_memI [OF rel q(1)] q(2) show ?thesis using R_trans R_sym by blast
  qed
  then show ?thesis using p logRel_fields(7) [OF rel] by (auto simp: pointedBy_def)
qed

lemma R_output: "addHTLC lib tx ours inc p k ct op = Inr (tx', q, op') \<Longrightarrow> R p q"
  by (auto simp: addHTLC_def sbind_eq_Inr R_ours R_theirs)

lemma pointed_tl: "pointedBy R (x # es) u \<Longrightarrow> pointedBy R es u"
  by (simp add: pointedBy_def)

lemma logsRel_refl: "logsRel R a a"
  by (simp add: logsRel_def logRel_refl)

lemma logsRel_trans: "logsRel R a b \<Longrightarrow> logsRel R b c \<Longrightarrow> logsRel R a c"
  unfolding logsRel_def using logRel_trans [of R] R_trans sameConfig_trans by metis

lemma logsRel_own: "logsRel R a b \<Longrightarrow> logRel R (ownLog ours a) (ownLog ours b)"
  by (simp add: logsRel_def ownLog_def)

lemma write_pointed:
  assumes "pointedBy R ((e, p) # es) (ownLog ours lc)" and "R p p'"
  shows "logsRel R lc (writeEntry True ours e p' lc)"
proof -
  obtain q where q: "distinct (map fst (entries (ownLog ours lc)))" "(e, q) \<in> set (entries (ownLog ours lc))" "R q p"
    using assms(1) by (auto simp: pointedBy_def)
  have "logRel R (ownLog ours lc) (writeElem e p' (ownLog ours lc))"
    using logRel_writeElem [OF q(1,2), of R p'] R_trans [OF q(3) assms(2)] by simp
  then show ?thesis
    using sameConfig_steps(1) [of lc True ours e p'] logRel_refl [of R]
    by (cases ours) (simp_all add: logsRel_def ownLog_def writeEntry_def)
qed

lemma addHtlcOutputs_rel:
  assumes "addHtlcOutputs lib k ct ourTx inc rate dust es lc tx op cltvs = (lc', r)"
    and "pointedBy R es (ownLog (\<not> inc) lc)"
  shows "logsRel R lc lc'"
  using assms
proof (induction lib k ct ourTx inc rate dust es lc tx op cltvs arbitrary: lc' r rule: addHtlcOutputs.induct)
  case (2 lib k ct ourTx inc rate dust e htlc es lc tx op cltvs)
  show ?case
  proof (cases "HtlcIsDust ct inc ourTx rate (ToSatoshis (BtcAmount htlc)) dust (AssetID htlc)")
    case True
    then show ?thesis using "2.IH"(1) "2.prems" pointed_tl by (fastforce split: prod.splits sum.splits)
  next
    case False
    show ?thesis
    proof (cases "addHTLC lib tx ourTx inc htlc k ct op")
      case (Inl err)
      then show ?thesis using "2.prems"(1) False logsRel_refl by simp
    next
      case (Inr x)
      obtain tx1 htlc' op1 where x: "x = (tx1, htlc', op1)" by (cases x)
      let ?lc = "writeEntry True (\<not> inc) e htlc' lc"
      have s: "logsRel R lc ?lc" using write_pointed [OF "2.prems"(2) R_output] Inr x by blast
      have p: "pointedBy R es (ownLog (\<not> inc) ?lc)"
        using pointed_mono [OF pointed_tl [OF "2.prems"(2)] logsRel_own [OF s]] .
      obtain r' where "addHtlcOutputs lib k ct ourTx inc rate dust es ?lc tx1 op1 (cltvs @ [Timeout htlc]) = (lc', r')"
        using "2.prems"(1) False Inr x by (auto split: prod.splits sum.splits)
      from "2.IH"(2) [OF False Inr x [symmetric] refl this p] s show ?thesis by (rule logsRel_trans [rotated])
    qed
  qed
qed (simp add: logsRel_refl)

lemma createUnsigned_rel:
  assumes "createUnsignedCommitmentTx lib cb lc b ourTx rate ht v k = (lc', r)"
    and "pointedBy R (ourUpdates v) (localUpdateLog lc)" "pointedBy R (theirUpdates v) (remoteUpdateLog lc)"
  shows "logsRel R lc lc'"
proof -
  have 1: "logsRel R lc lc1" if "addHtlcOutputs lib k ct ourTx False rate dust (ourUpdates v) lc tx op cltvs = (lc1, r1)"
    for ct dust tx op cltvs lc1 r1
    using addHtlcOutputs_rel [OF that] assms(2) by (simp add: ownLog_def)
  have 2: "logsRel R lc lc2" if "logsRel R lc lc1"
    "addHtlcOutputs lib k ct ourTx True rate dust (theirUpdates v) lc1 tx op cltvs = (lc2, r2)"
    for ct dust tx op cltvs lc1 lc2 r2
  proof -
    have "pointedBy R (theirUpdates v) (remoteUpdateLog lc1)"
      using pointed_mono [OF assms(3)] that(1) by (simp add: logsRel_def)
    then show ?thesis using logsRel_trans [OF that(1) addHtlcOutputs_rel [OF that(2)]] by (simp add: ownLog_def)
  qed
  show ?thesis
    using assms(1) unfolding createUnsignedCommitmentTx_def Let_def
    by (auto split: sum.splits prod.splits dest!: 1 dest: 2 intro: logsRel_refl)
qed

end

lemma sameUpdate_sym: "sameUpdate p q \<Longrightarrow> sameUpdate q p"
  by (simp add: sameUpdate_def)

lemma addHTLC_same:
  "addHTLC lib tx ours inc pd k ct op = Inr (tx', pd', op') \<Longrightarrow> sameUpdate pd pd'"
  by (auto simp: addHTLC_def sbind_eq_Inr sameUpdate_def stripProgress_def)

text \<open>An update that has gone equally far on both chains.\<close>

definition sameProgress :: "PaymentDescriptor \<Rightarrow> PaymentDescriptor \<Rightarrow> bool" where
  "sameProgress p q \<longleftrightarrow> sameUpdate p q \<and> (\<forall>rc. addHeight rc q = addHeight rc p \<and> removeHeight rc q = removeHeight rc p)"

interpretation out_same: output_progress sameUpdate
  by unfold_locales (auto simp: sameUpdate_def stripProgress_def)

interpretation out_progress: output_progress sameProgress
  by unfold_locales (auto simp: sameProgress_def sameUpdate_def stripProgress_def addHeight_def removeHeight_def)

lemma pointed_sameLogs: "pointedBy sameUpdate es u \<Longrightarrow> logRel sameUpdate u v \<Longrightarrow> pointedBy sameUpdate es v"
  by (rule out_same.pointed_mono)

lemma createUnsigned_sameLogs:
  assumes "createUnsignedCommitmentTx lib cb lc b ourTx rate ht v k = (lc', r)"
    and "pointedBy sameUpdate (ourUpdates v) (localUpdateLog lc)" "pointedBy sameUpdate (theirUpdates v) (remoteUpdateLog lc)"
  shows "sameLogs lc lc'"
  using out_same.createUnsigned_rel [OF assms] by (simp add: logsRel_same)

text \<open>The HTLCs that an evaluation keeps are entries of the view, up to their progress.\<close>

lemma addLoop_kept_same:
  "addLoop ours h rc m skip es lc b = (lc', b', kept) \<Longrightarrow> (e, q) \<in> set kept \<Longrightarrow> \<exists>p. (e, p) \<in> set es \<and> sameUpdate p q"
proof (induction ours h rc m skip es lc b arbitrary: lc' b' kept rule: addLoop.induct)
  case (2 ours h rc m skip f entry es lc b)
  show ?case
  proof (cases "EntryType entry \<noteq> Add \<or> HtlcIndex entry \<in> skip")
    case True
    then show ?thesis using 2 by auto
  next
    case False
    obtain p' b1 where p: "processAddEntry entry b h rc (\<not> ours) m = (p', b1)" by fastforce
    obtain kept' where k: "addLoop ours h rc m skip es (writeEntry m ours f p' lc) b1 = (lc', b', kept')"
      "kept = (f, p') # kept'"
      using "2.prems"(1) False p by (auto split: prod.splits)
    from "2.IH"(2) [OF False p [symmetric] refl k(1)] "2.prems"(2) k(2) process_sameUpdate(1) [OF p] show ?thesis by auto
  qed
qed simp

lemma computeView_pointed:
  assumes inv: "logs_inv (localUpdateLog lc) (remoteUpdateLog lc)"
    and cv: "computeView lc (fetchHTLCView lc ti oi) rc m = (lc', Inr (b, w, v))"
  shows "pointedBy sameUpdate (ourUpdates v) (localUpdateLog lc')" "pointedBy sameUpdate (theirUpdates v) (remoteUpdateLog lc')"
proof -
  let ?v = "(fetchHTLCView lc ti oi)\<lparr>v_feePerKw := feePerKw (tip (chainOf lc rc))\<rparr>"
  have ev: "evaluateHTLCView lc ?v (startBalances lc rc) (height (tip (chainOf lc rc)) + 1) rc m = (lc', Inr (b, v))"
    using cv unfolding computeView_def Let_def by (auto split: prod.splits sum.splits)
  have kept: "\<exists>p. (e, p) \<in> set (ourUpdates ?v) \<and> sameUpdate p q" if "(e, q) \<in> set (ourUpdates v)" for e q
    using evaluate_cases [OF ev] addLoop_kept_same that by (metis htlcView.select_convs(1))
  have kept': "\<exists>p. (e, p) \<in> set (theirUpdates ?v) \<and> sameUpdate p q" if "(e, q) \<in> set (theirUpdates v)" for e q
    using evaluate_cases [OF ev] addLoop_kept_same that by (metis htlcView.select_convs(2))
  have dist: "distinct (map fst (entries (localUpdateLog lc)))" "distinct (map fst (entries (remoteUpdateLog lc)))"
    using inv log_invD(1) by (auto simp: logs_inv_def)
  have "pointedBy sameUpdate (ourUpdates v) (localUpdateLog lc)" "pointedBy sameUpdate (theirUpdates v) (remoteUpdateLog lc)"
    using kept kept' dist by (fastforce simp: pointedBy_def fetchHTLCView_below below_def)+
  with computeView_sameLogs [OF inv cv] show "pointedBy sameUpdate (ourUpdates v) (localUpdateLog lc')"
    "pointedBy sameUpdate (theirUpdates v) (remoteUpdateLog lc')" by (auto simp: sameLogs_def intro: pointed_sameLogs)
qed

lemma fetchCommitmentView_cases:
  assumes "fetchCommitmentView lib cb lc rc oi oh ti th k = (lc', r)"
  obtains err where "computeView lc (fetchHTLCView lc ti oi) rc True = (lc', Inl err)" "r = Inl (ChannelError err)"
  | lc1 b w v err where "computeView lc (fetchHTLCView lc ti oi) rc True = (lc1, Inr (b, w, v))"
      "createUnsignedCommitmentTx lib cb lc1 b (\<not> rc) (v_feePerKw v) (height (tip (chainOf lc rc)) + 1) v k = (lc', Inl err)"
      "r = Inl err"
  | lc1 b w v u v' where "computeView lc (fetchHTLCView lc ti oi) rc True = (lc1, Inr (b, w, v))"
      "createUnsignedCommitmentTx lib cb lc1 b (\<not> rc) (v_feePerKw v) (height (tip (chainOf lc rc)) + 1) v k = (lc', Inr (u, v'))"
  using assms unfolding fetchCommitmentView_def Let_def
  by (auto split: prod.splits sum.splits if_splits)

lemma fetchCommitmentView_sameLogs:
  assumes inv: "logs_inv (localUpdateLog lc) (remoteUpdateLog lc)"
    and "fetchCommitmentView lib cb lc rc oi oh ti th k = (lc', r)"
  shows "sameLogs lc lc'"
  using assms(2)
proof (cases rule: fetchCommitmentView_cases)
  case (1 err)
  then show ?thesis using computeView_sameLogs [OF inv] by blast
next
  case (2 lc1 b w v err)
  then show ?thesis
    using computeView_sameLogs [OF inv 2(1)] createUnsigned_sameLogs [OF 2(2) computeView_pointed [OF inv 2(1)]] sameLogs_trans by blast
next
  case (3 lc1 b w v u v')
  then show ?thesis
    using computeView_sameLogs [OF inv 3(1)] createUnsigned_sameLogs [OF 3(2) computeView_pointed [OF inv 3(1)]] sameLogs_trans by blast
qed

section \<open>Mutation does not change the outcome of an evaluation\<close>

text \<open>The validation evaluates a view without mutation, the construction with mutation.\<close>

lemma removalLoop_mutate:
  assumes "removalLoop ours h rc m es st = (st1, None)"
    and "es_bal st' = es_bal st" "es_fee st' = es_fee st" "es_skip st' = es_skip st"
    and "\<And>k. lookupHtlc (otherLog ours (es_lc st')) k = lookupHtlc (otherLog ours (es_lc st)) k"
  shows "\<exists>st1'. removalLoop ours h rc False es st' = (st1', None)
     \<and> es_bal st1' = es_bal st1 \<and> es_fee st1' = es_fee st1 \<and> es_skip st1' = es_skip st1 \<and> es_lc st1' = es_lc st'"
  using assms
proof (induction ours h rc m es st arbitrary: st' rule: removalLoop.induct)
  case (1 ours h rc m st)
  then show ?case by simp
next
  case (2 ours h rc m e entry es st)
  consider (add) "EntryType entry = Add" | (fee) "EntryType entry = FeeUpdate" | (rem) "isRemoval entry"
    using notRemoval_iff by auto
  then show ?case
  proof cases
    case add
    then show ?thesis using 2 by simp
  next
    case fee
    obtain p' rate where p: "processFeeUpdate entry h rc m (es_fee st) = (p', rate)" by fastforce
    then have p0: "\<exists>q. processFeeUpdate entry h rc False (es_fee st) = (q, rate)"
      by (auto simp: processFeeUpdate_def split: if_splits)
    then obtain q where q: "processFeeUpdate entry h rc False (es_fee st) = (q, rate)" by blast
    have "removalLoop ours h rc m es (st\<lparr>es_lc := writeEntry m ours e p' (es_lc st), es_fee := rate\<rparr>) = (st1, None)"
      using "2.prems"(1) fee p by simp
    from "2.IH"(2) [OF _ _ p [symmetric] refl this, of "st'\<lparr>es_fee := rate\<rparr>"] fee "2.prems" q
    show ?thesis by (auto simp: view_simps)
  next
    case rem
    have ne: "EntryType entry \<noteq> Add" "EntryType entry \<noteq> FeeUpdate" using isRemoval_not_Add [OF rem] by auto
    let ?lc = "if m \<and> EntryType entry = Settle \<and> \<not> rc \<and> removeCommitHeightLocal entry = 0
       then (es_lc st)\<lparr>channelState := countSettled ours entry (channelState (es_lc st))\<rparr> else es_lc st"
    obtain p' b where p: "processRemoveEntry entry (es_bal st) h rc ours m = (p', b)" by fastforce
    then obtain q where q: "processRemoveEntry entry (es_bal st) h rc ours False = (q, b)"
      by (auto simp: processRemoveEntry_def split: if_splits)
    have other: "otherLog ours ?lc = otherLog ours (es_lc st)" by (simp add: view_simps)
    obtain a where a: "fetchParent ?lc entry rc ours = Inr a"
      using "2.prems"(1) ne by (cases "fetchParent ?lc entry rc ours") (auto simp: Let_def split: if_splits)
    have "fetchParent (es_lc st') entry rc ours = fetchParent ?lc entry rc ours"
      using "2.prems"(5) [of "ParentIndex entry"] other unfolding fetchParent_def otherLog_def by (auto split: if_splits)
    with a have a': "fetchParent (es_lc st') entry rc ours = Inr a" by simp
    have "removalLoop ours h rc m es (st\<lparr>es_lc := writeEntry m ours e p' ?lc, es_bal := b,
        es_skip := insert (HtlcIndex a) (es_skip st)\<rparr>) = (st1, None)"
      using "2.prems"(1) ne a p by (simp add: Let_def)
    from "2.IH"(3) [OF ne refl a p [symmetric] refl this,
        of "st'\<lparr>es_bal := b, es_skip := insert (HtlcIndex a) (es_skip st)\<rparr>"] ne a' q "2.prems"
    show ?thesis by (auto simp: view_simps other Let_def)
  qed
qed

lemma addLoop_mutate:
  "addLoop ours h rc m skip es lc b = (lc1, b1, kept) \<Longrightarrow>
     \<exists>kept'. addLoop ours h rc False skip es lc' b = (lc', b1, kept') \<and> list_all2 (\<lambda>x y. sameUpdate (snd x) (snd y)) kept kept'"
proof (induction ours h rc m skip es lc b arbitrary: lc1 b1 kept rule: addLoop.induct)
  case (2 ours h rc m skip f entry es lc b)
  show ?case
  proof (cases "EntryType entry \<noteq> Add \<or> HtlcIndex entry \<in> skip")
    case True
    then show ?thesis using 2 by auto
  next
    case False
    obtain p' b2 where p: "processAddEntry entry b h rc (\<not> ours) m = (p', b2)" by fastforce
    then have q: "processAddEntry entry b h rc (\<not> ours) False = (entry, b2)"
      by (auto simp: processAddEntry_def split: if_splits)
    obtain kept0 where k: "addLoop ours h rc m skip es (writeEntry m ours f p' lc) b2 = (lc1, b1, kept0)"
      "kept = (f, p') # kept0"
      using "2.prems" False p by (auto split: prod.splits)
    from "2.IH"(2) [OF False p [symmetric] refl k(1)] False q k(2) process_sameUpdate(1) [OF p]
    show ?thesis by (auto simp: sameUpdate_sym)
  qed
qed simp

definition sameView :: "htlcView \<Rightarrow> htlcView \<Rightarrow> bool" where
  "sameView v w \<longleftrightarrow> v_feePerKw w = v_feePerKw v
     \<and> list_all2 (\<lambda>x y. sameUpdate (snd x) (snd y)) (ourUpdates v) (ourUpdates w)
     \<and> list_all2 (\<lambda>x y. sameUpdate (snd x) (snd y)) (theirUpdates v) (theirUpdates w)"

lemma evaluate_mutate:
  assumes inv: "logs_inv (localUpdateLog lc) (remoteUpdateLog lc)"
    and v: "ourUpdates v = below oi (entries (localUpdateLog lc))" "theirUpdates v = below ti (entries (remoteUpdateLog lc))"
    and ev: "evaluateHTLCView lc v b h rc m = (lc', Inr (b', v'))"
  shows "\<exists>v0. evaluateHTLCView lc v b h rc False = (lc, Inr (b', v0)) \<and> sameView v' v0"
proof -
  obtain st1 st2 lc3 b3 b4 ours theirs where e:
    "removalLoop True h rc m (ourUpdates v) \<lparr>es_lc = lc, es_bal = b, es_fee = v_feePerKw v, es_skip = {}\<rparr> = (st1, None)"
    "removalLoop False h rc m (theirUpdates v) (st1\<lparr>es_skip := {}\<rparr>) = (st2, None)"
    "addLoop True h rc m (es_skip st2) (ourUpdates v) (es_lc st2) (es_bal st2) = (lc3, b3, ours)"
    "addLoop False h rc m (es_skip st1) (theirUpdates v) lc3 b3 = (lc', b4, theirs)"
    "v' = \<lparr>ourUpdates = ours, theirUpdates = theirs, v_feePerKw = es_fee st2\<rparr>" "b' = resetAssetBtc lc' v' b4"
    using evaluate_cases [OF ev] .
  have li: "log_inv (localUpdateLog lc)" "log_inv (remoteUpdateLog lc)" using inv by (auto simp: logs_inv_def)
  have f1: "frame heightsChange True lc (es_lc st1)"
    using removalLoop_frame [OF e(1)] below_points [OF li(1)] by (simp add: ownLog_def v)
  then have look: "lookupHtlc (localUpdateLog (es_lc st1)) k = lookupHtlc (localUpdateLog lc) k" for k
    using logRel_heights_lookup [OF _ li(1)] by (simp add: frame_def ownLog_def)
  obtain s1 where s1: "removalLoop True h rc False (ourUpdates v) \<lparr>es_lc = lc, es_bal = b, es_fee = v_feePerKw v, es_skip = {}\<rparr> = (s1, None)"
    "es_bal s1 = es_bal st1" "es_fee s1 = es_fee st1" "es_skip s1 = es_skip st1" "es_lc s1 = lc"
    using removalLoop_mutate [OF e(1) refl refl refl refl] by auto
  obtain s2 where s2: "removalLoop False h rc False (theirUpdates v) (s1\<lparr>es_skip := {}\<rparr>) = (s2, None)"
    "es_bal s2 = es_bal st2" "es_fee s2 = es_fee st2" "es_skip s2 = es_skip st2" "es_lc s2 = lc"
    using removalLoop_mutate [OF e(2), of "s1\<lparr>es_skip := {}\<rparr>"] s1 look by (auto simp: otherLog_def)
  obtain ours' where a3: "addLoop True h rc False (es_skip st2) (ourUpdates v) lc (es_bal st2) = (lc, b3, ours')"
    "list_all2 (\<lambda>x y. sameUpdate (snd x) (snd y)) ours ours'" using addLoop_mutate [OF e(3)] by blast
  obtain theirs' where a4: "addLoop False h rc False (es_skip st1) (theirUpdates v) lc b3 = (lc, b4, theirs')"
    "list_all2 (\<lambda>x y. sameUpdate (snd x) (snd y)) theirs theirs'" using addLoop_mutate [OF e(4)] by blast
  let ?v0 = "\<lparr>ourUpdates = ours', theirUpdates = theirs', v_feePerKw = es_fee st2\<rparr>"
  have "cs_AssetID (channelState lc') = cs_AssetID (channelState lc)" "BtcCapacity lc' = BtcCapacity lc"
    using evaluate_frame(3) [OF inv v ev] sameConfigD by auto
  then have "resetAssetBtc lc ?v0 b4 = b'"
    using e(5,6) list_all2_lengthD [OF a4(2)] by (simp add: resetAssetBtc_def)
  then show ?thesis
    using s1 s2 a3 a4 e(5) by (auto simp: evaluateHTLCView_def sameView_def)
qed

lemma list_same_sum:
  assumes "list_all2 (\<lambda>x y. sameUpdate (snd x) (snd y)) xs ys"
    and "\<And>p q. sameUpdate p q \<Longrightarrow> f p = (f q :: 'a::comm_monoid_add)"
  shows "(\<Sum>(e, p) \<leftarrow> xs. f p) = (\<Sum>(e, p) \<leftarrow> ys. f p)"
  using assms(1) by (induction rule: list_all2_induct) (auto dest: assms(2))

lemma countHtlcWeight_same:
  assumes "list_all2 (\<lambda>x y. sameUpdate (snd x) (snd y)) xs ys"
  shows "countHtlcWeight cs inc ours rate dust xs = countHtlcWeight cs inc ours rate dust ys"
  unfolding countHtlcWeight_def by (rule list_same_sum [OF assms]) (simp add: sameUpdateD)

lemma countHtlcWeight_config:
  "ChanType cs = ChanType cs' \<Longrightarrow> countHtlcWeight cs inc ours rate dust xs = countHtlcWeight cs' inc ours rate dust xs"
  by (simp add: countHtlcWeight_def)

lemma computeView_mutate:
  assumes inv: "logs_inv (localUpdateLog lc) (remoteUpdateLog lc)"
    and cv: "computeView lc (fetchHTLCView lc ti oi) rc m = (lc', Inr (b, w, v))"
  shows "\<exists>v0. snd (computeView lc (fetchHTLCView lc ti oi) rc False) = Inr (b, w, v0) \<and> sameView v v0"
proof -
  let ?v = "(fetchHTLCView lc ti oi)\<lparr>v_feePerKw := feePerKw (tip (chainOf lc rc))\<rparr>"
  have ev: "evaluateHTLCView lc ?v (startBalances lc rc) (height (tip (chainOf lc rc)) + 1) rc m = (lc', Inr (b, v))"
    using cv unfolding computeView_def Let_def by (auto split: prod.splits sum.splits)
  obtain v0 where v0: "evaluateHTLCView lc ?v (startBalances lc rc) (height (tip (chainOf lc rc)) + 1) rc False = (lc, Inr (b, v0))"
    "sameView v v0" using evaluate_mutate [OF inv fetch_with_rate ev] by blast
  have ct: "ChanType (channelState lc') = ChanType (channelState lc)"
    using computeView_sameLogs [OF inv cv] sameConfigD(6) by (auto simp: sameLogs_def)
  have "w = CommitWeight (ChanType (channelState lc'))
      + (countHtlcWeight (channelState lc') False (\<not> rc) (v_feePerKw v) (dustLimitOf lc rc) (ourUpdates v)
         + countHtlcWeight (channelState lc') True (\<not> rc) (v_feePerKw v) (dustLimitOf lc rc) (theirUpdates v))"
    using cv ev unfolding computeView_def Let_def by simp
  also have "\<dots> = CommitWeight (ChanType (channelState lc))
      + (countHtlcWeight (channelState lc) False (\<not> rc) (v_feePerKw v0) (dustLimitOf lc rc) (ourUpdates v0)
         + countHtlcWeight (channelState lc) True (\<not> rc) (v_feePerKw v0) (dustLimitOf lc rc) (theirUpdates v0))"
    using v0(2) countHtlcWeight_same [of "ourUpdates v" "ourUpdates v0"]
      countHtlcWeight_same [of "theirUpdates v" "theirUpdates v0"] countHtlcWeight_config [OF ct]
    by (simp add: sameView_def ct)
  finally show ?thesis using v0 unfolding computeView_def Let_def by simp
qed

section \<open>The commitment conserves value\<close>

lemma countNonDust_Cons:
  "countNonDust cs inc ours rate dust (x # es) =
     (if HtlcIsDust (ChanType cs) inc ours rate (ToSatoshis (BtcAmount (snd x))) dust (AssetID (snd x)) then 0 else 1)
     + countNonDust cs inc ours rate dust es"
  by (cases x) (simp add: countNonDust_def)

lemma weight_of_nondust:
  "countHtlcWeight cs inc ours rate dust es = HTLCWeight * countNonDust cs inc ours rate dust es"
proof (induction es)
  case Nil
  then show ?case by (simp add: countHtlcWeight_def countNonDust_def)
next
  case (Cons x es)
  have "countHtlcWeight cs inc ours rate dust (x # es)
      = (if HtlcIsDust (ChanType cs) inc ours rate (ToSatoshis (BtcAmount (snd x))) dust (AssetID (snd x)) then 0 else HTLCWeight)
        + countHtlcWeight cs inc ours rate dust es"
    by (cases x) (simp add: countHtlcWeight_def)
  with Cons show ?case by (simp add: countNonDust_Cons algebra_simps)
qed

lemma addHtlcOutputs_entries:
  "addHtlcOutputs lib k ct ourTx inc rate dust es lc tx op cltvs = (lc', Inr (tx', op', cltvs', es')) \<Longrightarrow>
     list_all2 (\<lambda>x y. sameUpdate (snd x) (snd y)) es es'"
proof (induction lib k ct ourTx inc rate dust es lc tx op cltvs arbitrary: lc' tx' op' cltvs' es' rule: addHtlcOutputs.induct)
  case (2 lib k ct ourTx inc rate dust e htlc es lc tx op cltvs)
  show ?case
  proof (cases "HtlcIsDust ct inc ourTx rate (ToSatoshis (BtcAmount htlc)) dust (AssetID htlc)")
    case True
    then show ?thesis using 2 by (fastforce split: prod.splits sum.splits)
  next
    case False
    then obtain tx1 htlc' op1 es1 where *: "addHTLC lib tx ourTx inc htlc k ct op = Inr (tx1, htlc', op1)"
      "addHtlcOutputs lib k ct ourTx inc rate dust es (writeEntry True (\<not> inc) e htlc' lc) tx1 op1 (cltvs @ [Timeout htlc])
         = (lc', Inr (tx', op', cltvs', es1))" "es' = (e, htlc') # es1"
      using "2.prems" by (auto split: prod.splits sum.splits)
    from "2.IH"(2) [OF False *(1) refl refl *(2)] addHTLC_same [OF *(1)] *(3) show ?thesis by simp
  qed
qed simp

lemma createUnsigned_Inr:
  assumes "createUnsignedCommitmentTx lib cb lc b ourTx rate ht v k = (lc', Inr (u, v'))"
  defines "cs \<equiv> channelState lc"
  defines "dust \<equiv> DustLimit (if ourTx then LocalChanCfg cs else RemoteChanCfg cs)"
  defines "n \<equiv> countNonDust cs False ourTx rate dust (ourUpdates v) + countNonDust cs True ourTx rate dust (theirUpdates v)"
  shows "u_fee u = FeeForWeight rate (CommitWeight (ChanType cs) + HTLCWeight * n)"
    and "u_balances u = payCommitFee cs (u_fee u) n b"
    and "list_all2 (\<lambda>x y. sameUpdate (snd x) (snd y)) (ourUpdates v) (ourUpdates v')"
    and "list_all2 (\<lambda>x y. sameUpdate (snd x) (snd y)) (theirUpdates v) (theirUpdates v')"
  using assms(1) unfolding createUnsignedCommitmentTx_def Let_def cs_def dust_def n_def
  by (auto simp: sbind_eq_Inr split: sum.splits prod.splits dest!: addHtlcOutputs_entries)

lemma populateSide_same:
  "populateSide ours tx cltvs i hs d ix = Inr (hs', d', ix') \<Longrightarrow> map (amount a) hs' = map (amount a) hs"
proof (induction ours tx cltvs i hs d ix arbitrary: hs' d' ix' rule: populateSide.induct)
  case (2 ours tx cltvs i htlc hs d ix)
  from "2.prems" obtain idx d1 hs1 d2 ix2 where "locateOutputIndex htlc tx ours d cltvs = Inr (idx, d1)"
    "populateSide ours tx cltvs (Suc i) hs d1 (if ours then ix(idx \<mapsto> i) else ix) = Inr (hs1, d2, ix2)"
    "hs' = (if ours then htlc\<lparr>localOutputIndex := idx\<rparr> else htlc\<lparr>remoteOutputIndex := idx\<rparr>) # hs1"
    by (auto simp: sbind_eq_Inr)
  with "2.IH" show ?case by (auto simp: amount_def)
qed simp

definition commitHtlcValue :: "bool \<Rightarrow> commitment \<Rightarrow> u64" where
  "commitHtlcValue a c = (\<Sum>p \<leftarrow> outgoingHTLCs c. amount a p) + (\<Sum>p \<leftarrow> incomingHTLCs c. amount a p)"

lemma populate_same:
  assumes "populateHtlcIndexes c tx cltvs = Inr c'"
  shows "commitHtlcValue a c' = commitHtlcValue a c"
    and "ourBtcBalance c' = ourBtcBalance c" "theirBtcBalance c' = theirBtcBalance c" "fee c' = fee c"
    "ourAssetBalance c' = ourAssetBalance c" "theirAssetBalance c' = theirAssetBalance c"
    "feePerKw c' = feePerKw c" "height c' = height c" "isOurs c' = isOurs c"
    "ourMessageIndex c' = ourMessageIndex c" "theirMessageIndex c' = theirMessageIndex c"
    "ourHtlcIndex c' = ourHtlcIndex c" "theirHtlcIndex c' = theirHtlcIndex c" "txn c' = txn c"
  using assms by (auto simp: populateHtlcIndexes_def sbind_eq_Inr commitHtlcValue_def dest!: populateSide_same [of _ _ _ _ _ _ _ _ _ _ a])

lemma sumOf_map: "sumOf f (\<lambda>_. True) es = (\<Sum>p \<leftarrow> map snd es. f p)"
  by (induction es) (auto simp: view_simps)

lemma sane_affordable:
  assumes "0 \<le> sint (m - NewMSatFromSatoshis f)" and "unat f * 1000 < 2 ^ 63"
  shows "\<not> i64_less (ToSatoshis m) f"
proof
  assume less: "i64_less (ToSatoshis m) f"
  have uf: "unat (NewMSatFromSatoshis f) = unat f * 1000"
    using assms(2) by (simp add: NewMSatFromSatoshis_def mSatScale_def unat_mult_lt)
  have us: "unat (ToSatoshis m) = unat m div 1000"
    by (simp add: ToSatoshis_def mSatScale_def unat_div)
  have "unat m div 1000 < 2 ^ 63" using unat_lt [of m] by simp
  then have "sint (ToSatoshis m) = int (unat m div 1000)" using sint_unat [of "ToSatoshis m"] us by simp
  moreover have "sint f = int (unat f)" using sint_unat [of f] assms(2) by simp
  ultimately have "int (unat m div 1000) < int (unat f)" using less unfolding i64_less_def by (simp only:)
  then have "unat m div 1000 < unat f" by (simp only: of_nat_less_iff)
  then have lt: "unat m < unat f * 1000" by (simp add: div_less_iff_less_mult)
  have "m - NewMSatFromSatoshis f = of_int (int (unat m) - int (unat f * 1000))"
    by (simp flip: uf)
  moreover have "signed_take_bit 63 (int x - int y) = int x - int y" if "x < y" "y < 2 ^ 63" for x y
    using that by (intro signed_take_bit_int_eq_self; simp)
  note this [OF lt assms(2)]
  ultimately have "sint (m - NewMSatFromSatoshis f) = int (unat m) - int (unat f * 1000)"
    by (simp only: sint_sbintrunc') simp
  with lt assms(1) show False by simp
qed

lemma payCommitFee_btc:
  assumes "cs_AssetID cs = BtcAssetId" and "unat f * 1000 < 2 ^ 63"
    and "0 \<le> sint (ourBtc (subtractFee cs (NewMSatFromSatoshis f) b))"
    and "0 \<le> sint (theirBtc (subtractFee cs (NewMSatFromSatoshis f) b))"
  shows "payCommitFee cs f n b = subtractFee cs (NewMSatFromSatoshis f) b"
  using assms sane_affordable [of "ourBtc b" f] sane_affordable [of "theirBtc b" f]
  by (auto simp: payCommitFee_def subtractFee_def BtcAssetId_def Let_def split: if_splits)

lemma subtractFee_total: "total False (subtractFee cs f b) + f = total False b"
  by (simp add: subtractFee_def total_def)

definition builtCommitment ::
    "LightningChannel \<Rightarrow> LightningChannel \<Rightarrow> bool \<Rightarrow> u64 \<Rightarrow> u64 \<Rightarrow> u64 \<Rightarrow> u64 \<Rightarrow> SatPerKWeight \<Rightarrow> unsignedCommitmentTx \<Rightarrow> htlcView \<Rightarrow> commitment" where
  "builtCommitment lc lc' rc oi oh ti th rate u v =
     \<lparr>height = height (tip (chainOf lc rc)) + 1, isOurs = \<not> rc, ourMessageIndex = oi, theirMessageIndex = ti,
      ourHtlcIndex = oh, theirHtlcIndex = th, txn = Some (u_txn u), c_sig = [],
      ourBtcBalance = ourBtc (u_balances u), theirBtcBalance = theirBtc (u_balances u),
      ourAssetBalance = ourAsset (u_balances u), theirAssetBalance = theirAsset (u_balances u),
      fee = u_fee u, feePerKw = rate, dustLimit = dustLimitOf lc' rc,
      outgoingHTLCs = map snd (ourUpdates v), incomingHTLCs = map snd (theirUpdates v),
      outgoingHTLCIndex = Map.empty, incomingHTLCIndex = Map.empty\<rparr>"

lemma fetchCommitmentView_built:
  assumes "fetchCommitmentView lib cb lc rc oi oh ti th k = (lc', Inr c)"
  obtains lc1 b w v u v' where "computeView lc (fetchHTLCView lc ti oi) rc True = (lc1, Inr (b, w, v))"
    "createUnsignedCommitmentTx lib cb lc1 b (\<not> rc) (v_feePerKw v) (height (tip (chainOf lc rc)) + 1) v k = (lc', Inr (u, v'))"
    "populateHtlcIndexes (builtCommitment lc lc' rc oi oh ti th (v_feePerKw v) u v') (u_txn u) (u_cltvs u) = Inr c"
  using assms unfolding fetchCommitmentView_def Let_def builtCommitment_def
  by (auto split: prod.splits sum.splits if_splits)

lemma fetchCommitmentView_Inr:
  assumes "fetchCommitmentView lib cb lc rc oi oh ti th k = (lc', Inr c)"
  obtains lc1 b w v u v' where "computeView lc (fetchHTLCView lc ti oi) rc True = (lc1, Inr (b, w, v))"
    "createUnsignedCommitmentTx lib cb lc1 b (\<not> rc) (v_feePerKw v) (height (tip (chainOf lc rc)) + 1) v k = (lc', Inr (u, v'))"
    "ourBtcBalance c = ourBtc (u_balances u)" "theirBtcBalance c = theirBtc (u_balances u)"
    "ourAssetBalance c = ourAsset (u_balances u)" "theirAssetBalance c = theirAsset (u_balances u)"
    "fee c = u_fee u" "feePerKw c = v_feePerKw v" "height c = height (tip (chainOf lc rc)) + 1" "isOurs c = (\<not> rc)"
    "ourMessageIndex c = oi" "theirMessageIndex c = ti" "ourHtlcIndex c = oh" "theirHtlcIndex c = th"
    "\<And>a. commitHtlcValue a c = htlcValue a v'" "txn c = Some (u_txn u)"
proof -
  obtain lc1 b w v u v' where *: "computeView lc (fetchHTLCView lc ti oi) rc True = (lc1, Inr (b, w, v))"
    "createUnsignedCommitmentTx lib cb lc1 b (\<not> rc) (v_feePerKw v) (height (tip (chainOf lc rc)) + 1) v k = (lc', Inr (u, v'))"
    "populateHtlcIndexes (builtCommitment lc lc' rc oi oh ti th (v_feePerKw v) u v') (u_txn u) (u_cltvs u) = Inr c"
    using fetchCommitmentView_built [OF assms] .
  have "commitHtlcValue a c = htlcValue a v'" for a
    unfolding populate_same(1) [OF *(3)] by (simp add: builtCommitment_def commitHtlcValue_def htlcValue_def sumOf_map comp_def)
  then show thesis
    using that [OF *(1,2)] populate_same [OF *(3)] by (simp add: builtCommitment_def)
qed

lemma commitment_balances:
  assumes inv: "logs_inv (localUpdateLog lc) (remoteUpdateLog lc)" and btc: "cs_AssetID (channelState lc) = BtcAssetId"
    and sane: "validateCommitmentSanity lc ti oi rc None None = Inr ()"
    and f: "fetchCommitmentView lib cb lc rc oi oh ti th k = (lc', Inr c)" and small: "unat (fee c) * 1000 < 2 ^ 63"
  obtains lc1 b w v where "computeView lc (fetchHTLCView lc ti oi) rc True = (lc1, Inr (b, w, v))"
    "ourBtcBalance c + theirBtcBalance c + NewMSatFromSatoshis (fee c) = total False b"
    "0 \<le> sint (ourBtcBalance c)" "0 \<le> sint (theirBtcBalance c)"
    "commitHtlcValue False c = htlcValue False v"
proof -
  obtain lc1 b w v u v' where c: "computeView lc (fetchHTLCView lc ti oi) rc True = (lc1, Inr (b, w, v))"
    "createUnsignedCommitmentTx lib cb lc1 b (\<not> rc) (v_feePerKw v) (height (tip (chainOf lc rc)) + 1) v k = (lc', Inr (u, v'))"
    "ourBtcBalance c = ourBtc (u_balances u)" "theirBtcBalance c = theirBtc (u_balances u)" "fee c = u_fee u"
    "\<And>a. commitHtlcValue a c = htlcValue a v'"
    using fetchCommitmentView_Inr [OF f] by metis
  have cfg: "sameConfig lc lc1" using computeView_sameLogs [OF inv c(1)] by (simp add: sameLogs_def)
  note u = createUnsigned_Inr [OF c(2)]
  obtain v0 where v0: "snd (computeView lc (fetchHTLCView lc ti oi) rc False) = Inr (b, w, v0)" "sameView v v0"
    using computeView_mutate [OF inv c(1)] by blast
  have pv: "predictView lc ti oi None None = fetchHTLCView lc ti oi" by (simp add: predictView_def Let_def)
  let ?b = "subtractFee (channelState lc) (NewMSatFromSatoshis (FeeForWeight (v_feePerKw v) w)) b"
  have ok: "0 \<le> sint (ourBtc ?b)" "0 \<le> sint (theirBtc ?b)"
    using sane v0 sanity_btc_iff [OF btc, of None None ti oi rc]
    by (auto simp: sanityGuards_def pv saneCommitment_def sameView_def Let_def)
  have "w = CommitWeight (ChanType (channelState lc1)) + HTLCWeight *
      (countNonDust (channelState lc1) False (\<not> rc) (v_feePerKw v) (dustLimitOf lc rc) (ourUpdates v)
       + countNonDust (channelState lc1) True (\<not> rc) (v_feePerKw v) (dustLimitOf lc rc) (theirUpdates v))"
    using c(1) unfolding computeView_def Let_def
    by (auto simp: weight_of_nondust algebra_simps split: prod.splits sum.splits)
  moreover have "DustLimit (if \<not> rc then LocalChanCfg (channelState lc1) else RemoteChanCfg (channelState lc1)) = dustLimitOf lc rc"
    using sameConfigD [OF cfg] by (simp add: dustLimitOf_def)
  ultimately have fee: "fee c = FeeForWeight (v_feePerKw v) w" using u(1) c(5) by simp
  have sub: "subtractFee (channelState lc1) = subtractFee (channelState lc)"
    and btc1: "cs_AssetID (channelState lc1) = BtcAssetId"
    using sameConfigD [OF cfg] btc by (simp_all add: subtractFee_def fun_eq_iff)
  have "u_balances u = ?b"
    unfolding u(2) c(5) [symmetric] using payCommitFee_btc [OF btc1 small, of b] ok by (simp only: sub fee)
  moreover have "htlcValue False v' = htlcValue False v"
    using list_same_sum [OF u(3), of "amount False"] list_same_sum [OF u(4), of "amount False"]
    by (simp add: htlcValue_def sumOf_map comp_def amount_def sameUpdateD case_prod_unfold)
  ultimately show thesis
    using that [OF c(1)] c(3,4,6) ok subtractFee_total [of "channelState lc" _ b] fee by (simp add: total_def)
qed

section \<open>Dust HTLCs\<close>

text \<open>Every output of a commitment transaction pays to one of the scripts of its parts.\<close>

definition scripted :: "MsgTx \<Rightarrow> bool" where
  "scripted tx \<longleftrightarrow> (\<forall>out \<in> set (tx_TxOut tx). PkScript out \<noteq> [])"

definition nonemptyScripts :: "'pk ScriptLib \<Rightarrow> OpenChannel \<Rightarrow> bool" where
  "nonemptyScripts lib cs \<longleftrightarrow> LocalShutdownScript cs \<noteq> [] \<and> RemoteShutdownScript cs \<noteq> []
     \<and> (\<forall>s. lib_GenerateP2SH lib s \<noteq> Some [])"

lemma not_ok_iff: "\<not> is_ok r \<longleftrightarrow> (\<forall>x. r \<noteq> Inr x)"
  by (cases r) auto

lemma of_script_eq_Inr [simp]: "of_script r = Inr s \<longleftrightarrow> r = Some s"
  by (auto simp: of_script_def split: option.splits)

lemma baseCommitTx_scripted:
  "baseCommitTx lib cb cs b ourTx k = Inr (tx, op) \<Longrightarrow> nonemptyScripts lib cs \<Longrightarrow> scripted tx"
  by (auto simp: baseCommitTx_def CreateCommitTx_def CommitScriptToSelf_def sbind_eq_Inr scripted_def nonemptyScripts_def
      addOutput_def AddTxOut_def Let_def split: if_splits)

lemma addHTLC_scripted:
  "addHTLC lib tx ours inc pd k ct op = Inr (tx', pd', op') \<Longrightarrow> nonemptyScripts lib cs \<Longrightarrow> scripted tx \<Longrightarrow> scripted tx'"
  by (auto simp: addHTLC_def genHtlcScript_def sbind_eq_Inr scripted_def nonemptyScripts_def AddTxOut_def Let_def)

lemma addHtlcOutputs_scripted:
  assumes "nonemptyScripts lib cs"
    and "addHtlcOutputs lib k ct ourTx inc rate dust es lc tx op cltvs = (lc', Inr (tx', op', cltvs', es'))" and "scripted tx"
  shows "scripted tx' \<and> (\<forall>(e, p) \<in> set es. HtlcIsDust ct inc ourTx rate (ToSatoshis (BtcAmount p)) dust (AssetID p) \<longrightarrow> (e, p) \<in> set es')"
  using assms
proof (induction lib k ct ourTx inc rate dust es lc tx op cltvs arbitrary: lc' tx' op' cltvs' es' rule: addHtlcOutputs.induct)
  case (2 lib k ct ourTx inc rate dust e htlc es lc tx op cltvs)
  show ?case
  proof (cases "HtlcIsDust ct inc ourTx rate (ToSatoshis (BtcAmount htlc)) dust (AssetID htlc)")
    case True
    then obtain es1 where "addHtlcOutputs lib k ct ourTx inc rate dust es lc tx op cltvs = (lc', Inr (tx', op', cltvs', es1))"
      "es' = (e, htlc) # es1" using "2.prems"(2) by (auto split: prod.splits sum.splits)
    with "2.IH"(1) [OF True "2.prems"(1) _ "2.prems"(3)] show ?thesis by auto
  next
    case False
    then obtain tx1 htlc' op1 es1 where *: "addHTLC lib tx ourTx inc htlc k ct op = Inr (tx1, htlc', op1)"
      "addHtlcOutputs lib k ct ourTx inc rate dust es (writeEntry True (\<not> inc) e htlc' lc) tx1 op1 (cltvs @ [Timeout htlc])
         = (lc', Inr (tx', op', cltvs', es1))" "es' = (e, htlc') # es1"
      using "2.prems"(2) by (auto split: prod.splits sum.splits)
    from "2.IH"(2) [OF False *(1) refl refl "2.prems"(1) *(2) addHTLC_scripted [OF *(1) "2.prems"(1,3)]] False *(3)
    show ?thesis by auto
  qed
qed simp

lemma AddOpReturnToTx_scripted:
  assumes "AddOpReturnToTx tx p = Inr tx'" and "scripted tx"
  shows "scripted tx'"
proof (cases "pa_AssetID p = 0 \<or> pksAmounts p = []")
  case True
  then show ?thesis using assms by (auto simp: AddOpReturnToTx_def BtcAssetId_def split: if_splits)
next
  case False
  then obtain outs txOut where o: "GetOpReturnOut (pa_AssetID p) outs = Inr txOut" "tx' = tx\<lparr>tx_TxOut := txOut # tx_TxOut tx\<rparr>"
    using AddOpReturnToTx_cases [OF assms(1)] by metis
  have "PkScript txOut \<noteq> []"
    using GetOpReturnOut_payload [OF o(1), of freshOpreturn]
    by (auto simp: Opreturn_Decode_def readUint16_def readN_def read_full_def)
  then show ?thesis using assms(2) by (simp add: o(2) scripted_def)
qed

lemma case_error_eq_Inr: "(case r of Inl e \<Rightarrow> Inl (f e) | Inr t \<Rightarrow> Inr t) = Inr x \<longleftrightarrow> r = Inr x"
  by (cases r) auto

lemma finishCommitTx_scripted:
  assumes "finishCommitTx lib cb cs ht f tx op cltvs = Inr (tx', cltvs')" and "scripted tx"
  shows "scripted tx'"
proof -
  obtain tx1 tx2 where *: "SetStateNumHint tx ht (obfuscator cb) = Inr tx1"
    "InPlaceCommitSort tx1 cltvs = Inr (tx2, cltvs')" "AddOpReturnToTx tx2 op = Inr tx'"
    using assms(1) by (auto simp: finishCommitTx_def sbind_eq_Inr case_error_eq_Inr split: if_splits)
  have "scripted tx1" using *(1) assms(2) by (auto simp: SetStateNumHint_def scripted_def Let_def split: if_splits)
  then have "scripted tx2"
    using *(2) by (fastforce simp: InPlaceCommitSort_def scripted_def Let_def dest: set_zip_leftD split: if_splits)
  then show ?thesis using AddOpReturnToTx_scripted [OF *(3)] by blast
qed

lemma locate_empty_script:
  "(if ours then ourPkScript p else theirPkScript p) = [] \<Longrightarrow> scripted tx \<Longrightarrow> \<not> is_ok (locateOutputIndex p tx ours d cltvs)"
proof -
  assume s: "(if ours then ourPkScript p else theirPkScript p) = []" and tx: "scripted tx"
  have "\<not> is_ok (locateLoop i outs cs [] p d)" if "\<forall>out \<in> set outs. PkScript out \<noteq> []" for i outs cs
    using that by (induction i outs cs "[] :: bytes" p d rule: locateLoop.induct) auto
  then show ?thesis using tx s by (simp add: locateOutputIndex_def scripted_def)
qed

lemma populateSide_empty_script:
  assumes "p \<in> set hs" "(if ours then ourPkScript p else theirPkScript p) = []" "scripted tx"
  shows "\<not> is_ok (populateSide ours tx cltvs i hs d ix)"
  using assms(1)
proof (induction hs arbitrary: i d ix)
  case (Cons htlc hs)
  show ?case
  proof (cases "htlc = p")
    case True
    then show ?thesis
      using locate_empty_script [OF assms(2,3), of d cltvs] by (cases "locateOutputIndex p tx ours d cltvs") auto
  next
    case False
    with Cons have "populateSide ours tx cltvs j hs d' ix' \<noteq> Inr x" for j d' ix' x by (metis is_ok_simps(2) set_ConsD)
    then show ?thesis by (auto simp: not_ok_iff sbind_eq_Inr)
  qed
qed simp

lemma populate_not_ok:
  "(\<forall>d ix. \<not> is_ok (populateSide (isOurs c) tx cltvs 0 (outgoingHTLCs c) d ix))
   \<or> (\<forall>d ix. \<not> is_ok (populateSide (isOurs c) tx cltvs 0 (incomingHTLCs c) d ix))
   \<Longrightarrow> \<not> is_ok (populateHtlcIndexes c tx cltvs)"
  by (auto simp: not_ok_iff populateHtlcIndexes_def sbind_eq_Inr)

section \<open>Properties\<close>

text \<open>A library of scripts for the instances of the theorems: every script is a constant.\<close>

definition sampleLib :: "unit ScriptLib" where
  "sampleLib =
     \<lparr>lib_LeaseCommitScriptToSelf = (\<lambda>_ _ _ _. Some [1]), lib_CommitScriptToSelf = (\<lambda>_ _ _. Some [2]),
      lib_ReceiverHTLCScript = (\<lambda>_ _ _ _ _ _. Some [3]), lib_SenderHTLCScript = (\<lambda>_ _ _ _ _. Some [4]),
      lib_LeaseSecondLevelHtlcScript = (\<lambda>_ _ _ _. Some [5]), lib_SecondLevelHtlcScript = (\<lambda>_ _ _. Some [6]),
      lib_GenerateP2SH = (\<lambda>s. Some (0 # s)), lib_CheckTransactionSanity = (\<lambda>_. True),
      lib_GetTransactionWeight = (\<lambda>_. 500)\<rparr>"

definition sampleKeys :: "unit CommitmentKeyRing" where
  "sampleKeys = \<lparr>CommitPoint = (), LocalCommitKeyTweak = [], LocalHtlcKeyTweak = [], LocalHtlcKey = (), RemoteHtlcKey = (), ToLocalKey = (), ToRemoteKey = (), RevocationKey = ()\<rparr>"

definition sampleBuilder :: CommitmentBuilder where
  "sampleBuilder = \<lparr>cb_FundingOutpoint = \<lparr>op_Hash = replicate 32 7, op_Index = 0\<rparr>, obfuscator = [1, 2, 3, 4, 5, 6]\<rparr>"

definition withShutdown :: "LightningChannel \<Rightarrow> LightningChannel" where
  "withShutdown lc = lc\<lparr>channelState := (channelState lc)\<lparr>LocalShutdownScript := [8], RemoteShutdownScript := [9]\<rparr>\<rparr>"

definition commitWith :: "LightningChannel \<Rightarrow> LightningChannel \<times> (commit_error + commitment)" where
  "commitWith lc = fetchCommitmentView sampleLib sampleBuilder (withShutdown lc) True 1 1 0 0 sampleKeys"

text \<open>
  \<open>fetchCommitmentView\<close> in two stages which take the result of the stage before by pattern matching,
  so that an instance is evaluated stage by stage.
\<close>

fun indexStage ::
    "LightningChannel \<Rightarrow> 'pk ScriptLib \<Rightarrow> bool \<Rightarrow> u64 \<Rightarrow> u64 \<Rightarrow> u64 \<Rightarrow> u64 \<Rightarrow> SatPerKWeight
       \<Rightarrow> LightningChannel \<times> (commit_error + unsignedCommitmentTx \<times> htlcView) \<Rightarrow> LightningChannel \<times> (commit_error + commitment)" where
  "indexStage lc lib rc oi oh ti th rate (lc2, Inl err) = (lc2, Inl err)"
| "indexStage lc lib rc oi oh ti th rate (lc2, Inr (u, view)) =
     (let r = i64_div ((cs_BtcCapacity (channelState lc2) - totalOut (u_txn u)) * 1000)
                (lib_GetTransactionWeight lib (u_txn u) + WitnessCommitmentTxWeight)
      in if i64_less r AbsoluteFeePerKwFloor
         then (lc2, Inl (FeeRateBelowFloor (height (tip (chainOf lc rc)) + 1) r))
         else (lc2, populateHtlcIndexes (builtCommitment lc lc2 rc oi oh ti th rate u view) (u_txn u) (u_cltvs u)))"

fun buildStage ::
    "'pk ScriptLib \<Rightarrow> CommitmentBuilder \<Rightarrow> LightningChannel \<Rightarrow> bool \<Rightarrow> u64 \<Rightarrow> u64 \<Rightarrow> u64 \<Rightarrow> u64 \<Rightarrow> 'pk CommitmentKeyRing
       \<Rightarrow> LightningChannel \<times> (channel_error + balances \<times> i64 \<times> htlcView) \<Rightarrow> LightningChannel \<times> (commit_error + commitment)" where
  "buildStage lib cb lc rc oi oh ti th k (lc1, Inl err) = (lc1, Inl (ChannelError err))"
| "buildStage lib cb lc rc oi oh ti th k (lc1, Inr (b, w, v)) =
     indexStage lc lib rc oi oh ti th (v_feePerKw v)
       (createUnsignedCommitmentTx lib cb lc1 b (\<not> rc) (v_feePerKw v) (height (tip (chainOf lc rc)) + 1) v k)"

lemma fetchCommitmentView_staged:
  "fetchCommitmentView lib cb lc rc oi oh ti th k = buildStage lib cb lc rc oi oh ti th k (computeView lc (fetchHTLCView lc ti oi) rc True)"
  by (auto simp: fetchCommitmentView_def builtCommitment_def Let_def split: prod.splits sum.splits)

text \<open>
  C13. A commitment of a bitcoin channel that passed the sanity check conserves value to the last
  millisatoshi: its two balances, its fee and its HTLCs add up to the balances and the fee of the
  previous commitment of that chain and the HTLCs which that one carried, and neither balance is
  negative. The entries of both logs keep everything but the progress of the updates.
\<close>

theorem commitment_conserves:
  assumes inv: "logs_inv (localUpdateLog lc) (remoteUpdateLog lc)" "committedBelow rc lc ti oi"
    and btc: "cs_AssetID (channelState lc) = BtcAssetId" and sane: "validateCommitmentSanity lc ti oi rc None None = Inr ()"
    and f: "fetchCommitmentView lib cb lc rc oi oh ti th k = (lc', Inr c)" and small: "unat (fee c) * 1000 < 2 ^ 63"
  shows "ourBtcBalance c + theirBtcBalance c + NewMSatFromSatoshis (fee c) + commitHtlcValue False c
       = ourBtcBalance (tip (chainOf lc rc)) + theirBtcBalance (tip (chainOf lc rc))
         + NewMSatFromSatoshis (fee (tip (chainOf lc rc))) + inFlight False rc (fetchHTLCView lc ti oi)
     \<and> 0 \<le> sint (ourBtcBalance c) \<and> 0 \<le> sint (theirBtcBalance c)
     \<and> sameLogs lc lc'"
proof -
  obtain lc1 b w v where c: "computeView lc (fetchHTLCView lc ti oi) rc True = (lc1, Inr (b, w, v))"
    "ourBtcBalance c + theirBtcBalance c + NewMSatFromSatoshis (fee c) = total False b"
    "0 \<le> sint (ourBtcBalance c)" "0 \<le> sint (theirBtcBalance c)" "commitHtlcValue False c = htlcValue False v"
    using commitment_balances [OF inv(1) btc sane f small] by blast
  have "total False b = ourBtc b + theirBtc b" by (simp add: total_def)
  with computeView_total [OF inv c(1)] btc c fetchCommitmentView_sameLogs [OF inv(1) f] show ?thesis
    by (simp add: add.assoc)
qed

lemma offered_commit_ok: "is_ok (snd (commitWith offered))"
  unfolding commitWith_def fetchCommitmentView_staged by code_simp

lemma offered_sane: "validateCommitmentSanity (withShutdown offered) 0 1 True None None = Inr ()"
  by code_simp

lemma offered_fee: "(case snd (commitWith offered) of Inr c \<Rightarrow> fee c < 1000000 | _ \<Rightarrow> False)"
  unfolding commitWith_def fetchCommitmentView_staged by code_simp

lemma withShutdown_logs [simp]:
  "localUpdateLog (withShutdown lc) = localUpdateLog lc" "remoteUpdateLog (withShutdown lc) = remoteUpdateLog lc"
  "chainOf (withShutdown lc) rc = chainOf lc rc" "cs_AssetID (channelState (withShutdown lc)) = cs_AssetID (channelState lc)"
  "fetchHTLCView (withShutdown lc) ti oi = fetchHTLCView lc ti oi"
  by (simp_all add: withShutdown_def chainOf_def fetchHTLCView_def Let_def)

theorem commitment_conserves_witness:
  "\<exists>lc' c. commitWith offered = (lc', Inr c)
     \<and> ourBtcBalance c + theirBtcBalance c + NewMSatFromSatoshis (fee c) + commitHtlcValue False c = 1000000000"
proof -
  obtain lc' c where c: "commitWith offered = (lc', Inr c)"
    using offered_commit_ok by (metis is_ok_Inr prod.collapse)
  have small: "unat (fee c) * 1000 < 2 ^ 63" using offered_fee c by (simp add: word_less_nat_alt)
  have below: "committedBelow True (withShutdown offered) 0 1" by code_simp
  have btc: "cs_AssetID (channelState (withShutdown offered)) = BtcAssetId"
    by (simp add: offered_def sampleChannel_def sampleState_def BtcAssetId_def)
  from commitment_conserves [OF _ below btc offered_sane c [unfolded commitWith_def] small] offered_inv offered_values c
  show ?thesis by (auto simp: commitWith_def)
qed

text \<open>
  C22. The location of the HTLC outputs has no case for dust: when the next commitment of either
  party carries an HTLC below the dust limit that has no output script yet, the commitment cannot
  be built, although the HTLC passed every check when it was added.
\<close>

theorem dust_HTLC_blocks_commitment:
  assumes "computeView lc (fetchHTLCView lc ti oi) rc True = (lc1, Inr (b, w, v))"
    and "(e, p) \<in> set (ourUpdates v) \<and> incoming = False \<or> (e, p) \<in> set (theirUpdates v) \<and> incoming = True"
    and "HtlcIsDust (ChanType (channelState lc1)) incoming (\<not> rc) (v_feePerKw v) (ToSatoshis (BtcAmount p))
           (DustLimit (if rc then RemoteChanCfg (channelState lc1) else LocalChanCfg (channelState lc1))) (AssetID p)"
    and "(if rc then theirPkScript p else ourPkScript p) = []"
    and "nonemptyScripts lib (channelState lc1)"
  shows "\<not> is_ok (snd (fetchCommitmentView lib cb lc rc oi oh ti th k))"
proof -
  let ?r = "fetchCommitmentView lib cb lc rc oi oh ti th k"
  have "snd ?r \<noteq> Inr c" for c
  proof
    assume "snd ?r = Inr c"
    then obtain lc' where "?r = (lc', Inr c)" by (metis prod.collapse)
    from fetchCommitmentView_built [OF this] assms(1) obtain u v' c0
      where u: "createUnsignedCommitmentTx lib cb lc1 b (\<not> rc) (v_feePerKw v) (height (tip (chainOf lc rc)) + 1) v k
        = (lc', Inr (u, v'))" and c0: "isOurs c0 = (\<not> rc)" "outgoingHTLCs c0 = map snd (ourUpdates v')"
        "incomingHTLCs c0 = map snd (theirUpdates v')" "populateHtlcIndexes c0 (u_txn u) (u_cltvs u) = Inr c"
      by (metis (no_types, lifting) Inr_inject Pair_inject builtCommitment_def commitment.select_convs(2,16,17))
    have "scripted (u_txn u) \<and> ((e, p) \<in> set (ourUpdates v') \<or> (e, p) \<in> set (theirUpdates v'))"
      using u assms(2,3) unfolding createUnsignedCommitmentTx_def Let_def
      by (fastforce simp: sbind_eq_Inr split: sum.splits prod.splits if_splits
          dest!: addHtlcOutputs_scripted [OF assms(5)] baseCommitTx_scripted [OF _ assms(5)] finishCommitTx_scripted)
    moreover from this have "p \<in> set (outgoingHTLCs c0) \<or> p \<in> set (incomingHTLCs c0)" unfolding c0 by force
    moreover have "(if isOurs c0 then ourPkScript p else theirPkScript p) = []" using assms(4) c0(1) by (simp split: if_splits)
    ultimately have "\<not> is_ok (populateHtlcIndexes c0 (u_txn u) (u_cltvs u))"
      using populateSide_empty_script [of p _ "isOurs c0" "u_txn u"] by (intro populate_not_ok) blast
    with c0(4) show False by simp
  qed
  then show ?thesis by (metis is_ok_Inr)
qed

definition dusty :: LightningChannel where
  "dusty = (sampleChannel 0)\<lparr>localUpdateLog :=
     appendHtlc (localUpdateLog (sampleChannel 0))
       (htlcAddDescriptor (sampleChannel 0) (sampleHTLC 0 0 1000 []) None)\<rparr>"

lemma dusty_accepted: "AddHTLC (sampleChannel 0) (sampleHTLC 0 0 1000 []) None = Inr (dusty, 0)"
proof -
  have "validateAddHtlc (sampleChannel 0) (htlcAddDescriptor (sampleChannel 0) (sampleHTLC 0 0 1000 []) None) = Inr ()"
    by code_simp
  then show ?thesis by (simp add: AddHTLC_def dusty_def Let_def) (simp add: sampleChannel_def newUpdateLog_def)
qed

fun hasDust :: "bool \<Rightarrow> LightningChannel \<times> (channel_error + balances \<times> i64 \<times> htlcView) \<Rightarrow> bool" where
  "hasDust rc (lc1, Inl err) = False"
| "hasDust rc (lc1, Inr (b, w, v)) = (list_ex (\<lambda>(e, p).
     HtlcIsDust (ChanType (channelState lc1)) False (\<not> rc) (v_feePerKw v) (ToSatoshis (BtcAmount p))
       (DustLimit (if rc then RemoteChanCfg (channelState lc1) else LocalChanCfg (channelState lc1))) (AssetID p)
     \<and> (if rc then theirPkScript p else ourPkScript p) = []) (ourUpdates v)
     \<and> LocalShutdownScript (channelState lc1) \<noteq> [] \<and> RemoteShutdownScript (channelState lc1) \<noteq> [])"

lemma dusty_view: "hasDust True (computeView (withShutdown dusty) (fetchHTLCView (withShutdown dusty) 0 1) True True)"
  by code_simp

theorem dust_HTLC_blocks_commitment_witness:
  "AddHTLC (sampleChannel 0) (sampleHTLC 0 0 1000 []) None = Inr (dusty, 0) \<and> \<not> is_ok (snd (commitWith dusty))"
proof -
  obtain lc1 b w v e p where d: "computeView (withShutdown dusty) (fetchHTLCView (withShutdown dusty) 0 1) True True = (lc1, Inr (b, w, v))"
    "(e, p) \<in> set (ourUpdates v)"
    "HtlcIsDust (ChanType (channelState lc1)) False False (v_feePerKw v) (ToSatoshis (BtcAmount p))
       (DustLimit (RemoteChanCfg (channelState lc1))) (AssetID p)" "theirPkScript p = []"
    "LocalShutdownScript (channelState lc1) \<noteq> []" "RemoteShutdownScript (channelState lc1) \<noteq> []"
    using dusty_view by (auto elim!: hasDust.elims simp: list_ex_iff)
  have "nonemptyScripts sampleLib (channelState lc1)" using d(5,6) by (simp add: nonemptyScripts_def sampleLib_def)
  with dust_HTLC_blocks_commitment [OF d(1), of e p False sampleLib] d(2-4) dusty_accepted show ?thesis
    by (simp add: commitWith_def)
qed

text \<open>
  C14. Validation and construction agree: the evaluation that the sanity check runs on a copy of the
  updates and the one that the construction of a commitment runs on the logs themselves give the
  same balances, the same weight, the same fee rate and the same HTLCs, and the weight is the one
  that the construction computes from the number of outputs.
\<close>

theorem validation_matches_construction:
  assumes inv: "logs_inv (localUpdateLog lc) (remoteUpdateLog lc)"
    and cv: "computeView lc (fetchHTLCView lc ti oi) rc True = (lc', Inr (b, w, v))"
  shows "(\<exists>v0. computeView lc (fetchHTLCView lc ti oi) rc False = (lc, Inr (b, w, v0)) \<and> sameView v v0)
     \<and> w = CommitWeight (ChanType (channelState lc)) + HTLCWeight *
         (countNonDust (channelState lc) False (\<not> rc) (v_feePerKw v) (dustLimitOf lc rc) (ourUpdates v)
          + countNonDust (channelState lc) True (\<not> rc) (v_feePerKw v) (dustLimitOf lc rc) (theirUpdates v))"
proof
  obtain v0 where v0: "snd (computeView lc (fetchHTLCView lc ti oi) rc False) = Inr (b, w, v0)" "sameView v v0"
    using computeView_mutate [OF inv cv] by blast
  with computeView_pure [of lc "fetchHTLCView lc ti oi" rc]
  show "\<exists>v0. computeView lc (fetchHTLCView lc ti oi) rc False = (lc, Inr (b, w, v0)) \<and> sameView v v0"
    by (metis prod.collapse)
  have "ChanType (channelState lc') = ChanType (channelState lc)"
    using computeView_sameLogs [OF inv cv] sameConfigD(6) by (auto simp: sameLogs_def)
  then have "countNonDust (channelState lc') = countNonDust (channelState lc)" "CommitWeight (ChanType (channelState lc')) = CommitWeight (ChanType (channelState lc))"
    by (simp_all add: countNonDust_def fun_eq_iff)
  then show "w = CommitWeight (ChanType (channelState lc)) + HTLCWeight *
         (countNonDust (channelState lc) False (\<not> rc) (v_feePerKw v) (dustLimitOf lc rc) (ourUpdates v)
          + countNonDust (channelState lc) True (\<not> rc) (v_feePerKw v) (dustLimitOf lc rc) (theirUpdates v))"
    using cv unfolding computeView_def Let_def
    by (auto simp: weight_of_nondust algebra_simps split: prod.splits sum.splits)
qed

fun viewSummary :: "LightningChannel \<times> (channel_error + balances \<times> i64 \<times> htlcView) \<Rightarrow> (balances \<times> i64) option" where
  "viewSummary (lc1, Inl err) = None"
| "viewSummary (lc1, Inr (b, w, v)) = Some (b, w)"

lemma offered_summary:
  "viewSummary (computeView offered (fetchHTLCView offered 0 1) True True)
     = Some (\<lparr>ourBtc = 499000000, theirBtc = 500000000, ourAsset = 0, theirAsset = 0\<rparr>, 896)"
  by code_simp

theorem validation_matches_construction_witness:
  "\<exists>v0. computeView offered (fetchHTLCView offered 0 1) True False
     = (offered, Inr (\<lparr>ourBtc = 499000000, theirBtc = 500000000, ourAsset = 0, theirAsset = 0\<rparr>, 896, v0))"
proof -
  obtain lc' b w v where cv: "computeView offered (fetchHTLCView offered 0 1) True True = (lc', Inr (b, w, v))"
    "b = \<lparr>ourBtc = 499000000, theirBtc = 500000000, ourAsset = 0, theirAsset = 0\<rparr>" "w = 896"
    using offered_summary by (auto elim!: viewSummary.elims)
  from validation_matches_construction [OF offered_inv cv(1)] show ?thesis unfolding cv(2,3) by blast
qed

end
