(* ===== verification/Second_Level.thy ===== *)
theory Second_Level
  imports Commitment_Safety
begin

text \<open>
  The second-level HTLC transactions and the signatures of a commitment
  (\<open>src/oblnd/lnwallet/commitment.go\<close>: \<open>HtlcSecondLevelInputSequence\<close>, \<open>SecondLevelHtlcScript\<close>;
  \<open>transactions.go\<close>: \<open>CreateHtlcSuccessTx\<close>, \<open>CreateHtlcTimeoutTx\<close>; \<open>channel.go\<close>:
  \<open>genRemoteHtlcSigJobs\<close>, \<open>genHtlcSigValidationJobs\<close>). Signing, hashing and verification belong to
  \<open>btcec\<close> and \<open>txscript\<close> and are the fields of a record of functions.
\<close>

section \<open>The model\<close>

definition HtlcSecondLevelInputSequence :: "ChannelType \<Rightarrow> u32" where
  "HtlcSecondLevelInputSequence chanType = (if HasAnchors chanType then 1 else 0)"

definition SecondLevelHtlcScript ::
    "'pk ScriptLib \<Rightarrow> ChannelType \<Rightarrow> bool \<Rightarrow> 'pk \<Rightarrow> 'pk \<Rightarrow> u32 \<Rightarrow> u32 \<Rightarrow> commit_error + bytes \<times> bytes" where
  "SecondLevelHtlcScript lib chanType initiator revocationKey delayKey csvDelay leaseExpiry =
     sbind (of_script (if initiator \<and> HasLeaseExpiration chanType
                       then lib_LeaseSecondLevelHtlcScript lib revocationKey delayKey csvDelay leaseExpiry
                       else lib_SecondLevelHtlcScript lib revocationKey delayKey csvDelay)) (\<lambda>witnessScript.
     sbind (of_script (lib_GenerateP2SH lib witnessScript)) (\<lambda>pkScript. Inr (pkScript, witnessScript)))"

definition omniResult :: "omni_error + MsgTx \<Rightarrow> commit_error + MsgTx" where
  "omniResult r = (case r of Inl e \<Rightarrow> Inl (OmniError e) | Inr tx \<Rightarrow> Inr tx)"

definition CreateHtlcSuccessTx ::
    "'pk ScriptLib \<Rightarrow> ChannelType \<Rightarrow> bool \<Rightarrow> OutPoint \<Rightarrow> SatAmount \<Rightarrow> AssetAmount \<Rightarrow> u32 \<Rightarrow> u32 \<Rightarrow> u32 \<Rightarrow> 'pk \<Rightarrow> 'pk
       \<Rightarrow> commit_error + MsgTx" where
  "CreateHtlcSuccessTx lib chanType initiator htlcOutput htlcBtcAmt htlcAssetAmt assetId csvDelay leaseExpiry
      revocationKey delayKey =
     sbind (SecondLevelHtlcScript lib chanType initiator revocationKey delayKey csvDelay leaseExpiry) (\<lambda>(pkScript, _).
       let successTx = \<lparr>Version = 2,
             tx_TxIn = [\<lparr>PreviousOutPoint = htlcOutput, Sequence = HtlcSecondLevelInputSequence chanType\<rparr>],
             tx_TxOut = [\<lparr>out_Value = htlcBtcAmt, PkScript = pkScript\<rparr>], LockTime = 0\<rparr>
       in omniResult (AddOpReturnToTx successTx (PksAmounts_Add (NewPksAmounts assetId) pkScript htlcAssetAmt)))"

definition CreateHtlcTimeoutTx ::
    "'pk ScriptLib \<Rightarrow> ChannelType \<Rightarrow> bool \<Rightarrow> OutPoint \<Rightarrow> SatAmount \<Rightarrow> AssetAmount \<Rightarrow> u32 \<Rightarrow> u32 \<Rightarrow> u32 \<Rightarrow> u32 \<Rightarrow> 'pk \<Rightarrow> 'pk
       \<Rightarrow> commit_error + MsgTx" where
  "CreateHtlcTimeoutTx lib chanType initiator htlcOutput htlcBtcAmt htlcAssetAmt assetId cltvExpiry csvDelay leaseExpiry
      revocationKey delayKey =
     sbind (SecondLevelHtlcScript lib chanType initiator revocationKey delayKey csvDelay leaseExpiry) (\<lambda>(pkScript, _).
       let timeoutTx = \<lparr>Version = 2,
             tx_TxIn = [\<lparr>PreviousOutPoint = htlcOutput, Sequence = HtlcSecondLevelInputSequence chanType\<rparr>],
             tx_TxOut = [\<lparr>out_Value = htlcBtcAmt, PkScript = pkScript\<rparr>], LockTime = cltvExpiry\<rparr>
       in omniResult (AddOpReturnToTx timeoutTx (PksAmounts_Add (NewPksAmounts assetId) pkScript htlcAssetAmt)))"

subsection \<open>Signing the HTLCs of a remote commitment\<close>

text \<open>
  The hash type is always \<open>SigHashAll\<close> and the input index always 0, so neither is a field of the
  sign descriptor here.
\<close>

record 'pk SignDescriptor =
  sd_KeyDesc :: 'pk
  sd_SingleTweak :: bytes
  sd_WitnessScript :: bytes
  sd_Output :: TxOut

record 'pk SignJob =
  sj_SignDesc :: "'pk SignDescriptor"
  sj_Tx :: MsgTx
  sj_OutputIndex :: "32 word"

record 'pk SigLib =
  sl_TxHash :: "MsgTx \<Rightarrow> bytes"
  sl_SignOutputRaw :: "'pk SignDescriptor \<Rightarrow> MsgTx \<Rightarrow> bytes option"
  sl_NewSigFromSignature :: "bytes \<Rightarrow> Sig option"
  sl_ToSignature :: "Sig \<Rightarrow> bytes option"
  sl_CalcSignatureHash :: "bytes \<Rightarrow> MsgTx \<Rightarrow> bytes option"
  sl_Verify :: "bytes \<Rightarrow> bytes \<Rightarrow> 'pk \<Rightarrow> bool"

datatype sig_error =
    SigCommitError commit_error
  | NilTransaction
  | OutputIndexPanic "32 word"
  | NotEnoughHtlcSigs
  | HtlcSigCountMismatch nat nat
  | UnparsableSig
  | SigningFailed
  | SigHashFailed

definition liftCommit :: "commit_error + 'a \<Rightarrow> sig_error + 'a" where
  "liftCommit r = (case r of Inl e \<Rightarrow> Inl (SigCommitError e) | Inr x \<Rightarrow> Inr x)"

definition of_sig :: "sig_error \<Rightarrow> 'a option \<Rightarrow> sig_error + 'a" where
  "of_sig e r = (case r of None \<Rightarrow> Inl e | Some x \<Rightarrow> Inr x)"

text \<open>
  The second-level transaction of an HTLC. On the commitment of its owner an incoming HTLC is
  claimed by a success transaction, an outgoing one by a timeout transaction.
\<close>

definition secondLevelTx ::
    "'pk ScriptLib \<Rightarrow> bytes \<Rightarrow> SatPerKWeight \<Rightarrow> ChannelType \<Rightarrow> bool \<Rightarrow> u32 \<Rightarrow> u32 \<Rightarrow> 'pk CommitmentKeyRing \<Rightarrow> bool
       \<Rightarrow> 32 word \<Rightarrow> PaymentDescriptor \<Rightarrow> commit_error + MsgTx" where
  "secondLevelTx lib txHash rate chanType initiator leaseExpiry csvDelay k success outputIndex htlc =
     (let op = \<lparr>op_Hash = txHash, op_Index = outputIndex\<rparr>
      in if success then
           CreateHtlcSuccessTx lib chanType initiator op (ToSatoshis (BtcAmount htlc) - HtlcSuccessFee chanType rate)
             (AssetAmount htlc) (AssetID htlc) csvDelay leaseExpiry (RevocationKey k) (ToLocalKey k)
         else
           CreateHtlcTimeoutTx lib chanType initiator op (ToSatoshis (BtcAmount htlc) - HtlcTimeoutFee chanType rate)
             (AssetAmount htlc) (AssetID htlc) (Timeout htlc) csvDelay leaseExpiry (RevocationKey k) (ToLocalKey k))"

fun signJobs ::
    "'pk ScriptLib \<Rightarrow> 'pk SigLib \<Rightarrow> 'pk CommitmentKeyRing \<Rightarrow> ChannelType \<Rightarrow> bool \<Rightarrow> u32 \<Rightarrow> 'pk ChannelKeys \<Rightarrow> ChannelConstraints
       \<Rightarrow> SatPerKWeight \<Rightarrow> MsgTx \<Rightarrow> bool \<Rightarrow> PaymentDescriptor list \<Rightarrow> sig_error + 'pk SignJob list" where
  "signJobs lib sl k chanType isRemoteInitiator leaseExpiry localKeys remoteChanCfg rate tx incoming [] = Inr []"
| "signJobs lib sl k chanType isRemoteInitiator leaseExpiry localKeys remoteChanCfg rate tx incoming (htlc # htlcs) =
     (if HtlcIsDust chanType incoming False rate (ToSatoshis (BtcAmount htlc)) (DustLimit remoteChanCfg) (AssetID htlc)
      then signJobs lib sl k chanType isRemoteInitiator leaseExpiry localKeys remoteChanCfg rate tx incoming htlcs
      else
        sbind (liftCommit (secondLevelTx lib (sl_TxHash sl tx) rate chanType isRemoteInitiator leaseExpiry
                 (ucast (CsvDelay remoteChanCfg)) k (\<not> incoming) (remoteOutputIndex htlc) htlc)) (\<lambda>jobTx.
        if length (tx_TxOut tx) \<le> unat (remoteOutputIndex htlc) then Inl (OutputIndexPanic (remoteOutputIndex htlc))
        else
          sbind (signJobs lib sl k chanType isRemoteInitiator leaseExpiry localKeys remoteChanCfg rate tx incoming htlcs) (\<lambda>jobs.
            Inr (\<lparr>sj_SignDesc = \<lparr>sd_KeyDesc = HtlcBasePoint localKeys, sd_SingleTweak = LocalHtlcKeyTweak k,
                    sd_WitnessScript = theirWitnessScript htlc, sd_Output = tx_TxOut tx ! unat (remoteOutputIndex htlc)\<rparr>,
                  sj_Tx = jobTx, sj_OutputIndex = remoteOutputIndex htlc\<rparr> # jobs))))"

definition genRemoteHtlcSigJobs ::
    "'pk ScriptLib \<Rightarrow> 'pk SigLib \<Rightarrow> 'pk CommitmentKeyRing \<Rightarrow> ChannelType \<Rightarrow> bool \<Rightarrow> u32 \<Rightarrow> 'pk ChannelKeys \<Rightarrow> ChannelConstraints
       \<Rightarrow> commitment \<Rightarrow> sig_error + 'pk SignJob list" where
  "genRemoteHtlcSigJobs lib sl k chanType isRemoteInitiator leaseExpiry localKeys remoteChanCfg c =
     (case txn c of
        None \<Rightarrow> Inl NilTransaction
      | Some tx \<Rightarrow>
          sbind (signJobs lib sl k chanType isRemoteInitiator leaseExpiry localKeys remoteChanCfg (feePerKw c) tx True (incomingHTLCs c)) (\<lambda>inc.
          sbind (signJobs lib sl k chanType isRemoteInitiator leaseExpiry localKeys remoteChanCfg (feePerKw c) tx False (outgoingHTLCs c)) (\<lambda>out.
            Inr (inc @ out))))"

text \<open>
  The jobs in the order of their outputs and the signatures that the pool returns for them. No two
  jobs have the same output, so the order does not depend on the sorting algorithm.
\<close>

definition sortJobs :: "'pk SignJob list \<Rightarrow> 'pk SignJob list" where
  "sortJobs jobs = sort_key (\<lambda>j. sint (sj_OutputIndex j)) jobs"

fun collectSigs :: "'pk SigLib \<Rightarrow> 'pk SignJob list \<Rightarrow> sig_error + Sig list" where
  "collectSigs sl [] = Inr []"
| "collectSigs sl (j # jobs) =
     sbind (of_sig SigningFailed (sl_SignOutputRaw sl (sj_SignDesc j) (sj_Tx j))) (\<lambda>raw.
     sbind (of_sig SigningFailed (sl_NewSigFromSignature sl raw)) (\<lambda>sig.
     sbind (collectSigs sl jobs) (\<lambda>sigs. Inr (sig # sigs))))"

subsection \<open>Verifying the HTLC signatures of a local commitment\<close>

text \<open>The hash of a job is computed when it is verified; its failure is the value \<open>None\<close>.\<close>

record 'pk VerifyJob =
  vj_HtlcIndex :: u64
  vj_PubKey :: 'pk
  vj_Sig :: bytes
  vj_SigHash :: "bytes option"

definition verifyHash ::
    "'pk ScriptLib \<Rightarrow> 'pk SigLib \<Rightarrow> 'pk CommitmentKeyRing \<Rightarrow> ChannelType \<Rightarrow> bool \<Rightarrow> u32 \<Rightarrow> ChannelConstraints
       \<Rightarrow> SatPerKWeight \<Rightarrow> MsgTx \<Rightarrow> bool \<Rightarrow> PaymentDescriptor \<Rightarrow> bytes option" where
  "verifyHash lib sl k chanType isLocalInitiator leaseExpiry localChanCfg rate tx incoming htlc =
     (case secondLevelTx lib (sl_TxHash sl tx) rate chanType isLocalInitiator leaseExpiry
             (ucast (CsvDelay localChanCfg)) k incoming (localOutputIndex htlc) htlc of
        Inl _ \<Rightarrow> None
      | Inr jobTx \<Rightarrow> sl_CalcSignatureHash sl (ourWitnessScript htlc) jobTx)"

text \<open>The loop over the outputs; the signature of an HTLC is stored in the HTLC of the commitment.\<close>

fun verifyLoop ::
    "'pk ScriptLib \<Rightarrow> 'pk SigLib \<Rightarrow> 'pk CommitmentKeyRing \<Rightarrow> ChannelType \<Rightarrow> bool \<Rightarrow> u32 \<Rightarrow> ChannelConstraints
       \<Rightarrow> MsgTx \<Rightarrow> nat list \<Rightarrow> commitment \<Rightarrow> Sig list \<Rightarrow> sig_error + commitment \<times> 'pk VerifyJob list \<times> Sig list" where
  "verifyLoop lib sl k chanType isLocalInitiator leaseExpiry localChanCfg tx [] c sigs = Inr (c, [], sigs)"
| "verifyLoop lib sl k chanType isLocalInitiator leaseExpiry localChanCfg tx (i # is) c sigs =
     (case incomingHTLCIndex c (of_nat i) of
        Some pos \<Rightarrow>
          (case sigs of
             [] \<Rightarrow> Inl NotEnoughHtlcSigs
           | s # sigs' \<Rightarrow>
               sbind (of_sig UnparsableSig (sl_ToSignature sl s)) (\<lambda>sig.
                 let htlc = incomingHTLCs c ! pos;
                     c' = c\<lparr>incomingHTLCs := (incomingHTLCs c)[pos := htlc\<lparr>pd_sig := Some sig\<rparr>]\<rparr>
                 in sbind (verifyLoop lib sl k chanType isLocalInitiator leaseExpiry localChanCfg tx is c' sigs') (\<lambda>(c'', jobs, rest).
                      Inr (c'', \<lparr>vj_HtlcIndex = HtlcIndex htlc, vj_PubKey = RemoteHtlcKey k, vj_Sig = sig,
                        vj_SigHash = verifyHash lib sl k chanType isLocalInitiator leaseExpiry localChanCfg (feePerKw c) tx True htlc\<rparr> # jobs, rest))))
      | None \<Rightarrow>
          (case outgoingHTLCIndex c (of_nat i) of
             Some pos \<Rightarrow>
               (case sigs of
                  [] \<Rightarrow> Inl NotEnoughHtlcSigs
                | s # sigs' \<Rightarrow>
                    sbind (of_sig UnparsableSig (sl_ToSignature sl s)) (\<lambda>sig.
                      let htlc = outgoingHTLCs c ! pos;
                          c' = c\<lparr>outgoingHTLCs := (outgoingHTLCs c)[pos := htlc\<lparr>pd_sig := Some sig\<rparr>]\<rparr>
                      in sbind (verifyLoop lib sl k chanType isLocalInitiator leaseExpiry localChanCfg tx is c' sigs') (\<lambda>(c'', jobs, rest).
                           Inr (c'', \<lparr>vj_HtlcIndex = HtlcIndex htlc, vj_PubKey = RemoteHtlcKey k, vj_Sig = sig,
                             vj_SigHash = verifyHash lib sl k chanType isLocalInitiator leaseExpiry localChanCfg (feePerKw c) tx False htlc\<rparr> # jobs, rest))))
           | None \<Rightarrow> verifyLoop lib sl k chanType isLocalInitiator leaseExpiry localChanCfg tx is c sigs))"

definition genHtlcSigValidationJobs ::
    "'pk ScriptLib \<Rightarrow> 'pk SigLib \<Rightarrow> commitment \<Rightarrow> 'pk CommitmentKeyRing \<Rightarrow> Sig list \<Rightarrow> ChannelType \<Rightarrow> bool \<Rightarrow> u32 \<Rightarrow> ChannelConstraints
       \<Rightarrow> sig_error + commitment \<times> 'pk VerifyJob list" where
  "genHtlcSigValidationJobs lib sl c k htlcSigs chanType isLocalInitiator leaseExpiry localChanCfg =
     (case txn c of
        None \<Rightarrow> Inl NilTransaction
      | Some tx \<Rightarrow>
          sbind (verifyLoop lib sl k chanType isLocalInitiator leaseExpiry localChanCfg tx [0..<length (tx_TxOut tx)] c htlcSigs)
            (\<lambda>(c', jobs, rest).
               if length htlcSigs \<noteq> length jobs then Inl (HtlcSigCountMismatch (length jobs) (length htlcSigs))
               else Inr (c', jobs)))"

section \<open>The two views of a commitment\<close>

text \<open>
  The commitment \<open>c\<close> that a party signs for its peer, and the commitment \<open>d\<close> that the peer builds for
  itself: the same transaction, incoming and outgoing HTLCs exchanged.
\<close>

definition mirrorHtlc :: "PaymentDescriptor \<Rightarrow> PaymentDescriptor \<Rightarrow> bool" where
  "mirrorHtlc p q \<longleftrightarrow> BtcAmount q = BtcAmount p \<and> AssetAmount q = AssetAmount p \<and> AssetID q = AssetID p
     \<and> Timeout q = Timeout p \<and> localOutputIndex q = remoteOutputIndex p \<and> ourWitnessScript q = theirWitnessScript p"

definition mirrorCommitment :: "commitment \<Rightarrow> commitment \<Rightarrow> bool" where
  "mirrorCommitment c d \<longleftrightarrow> txn d = txn c \<and> feePerKw d = feePerKw c
     \<and> list_all2 mirrorHtlc (incomingHTLCs c) (outgoingHTLCs d) \<and> list_all2 mirrorHtlc (outgoingHTLCs c) (incomingHTLCs d)"

definition indexes :: "(32 word \<Rightarrow> nat option) \<Rightarrow> PaymentDescriptor list \<Rightarrow> bool" where
  "indexes ix hs \<longleftrightarrow> (\<forall>i pos. ix i = Some pos \<longleftrightarrow> pos < length hs \<and> localOutputIndex (hs ! pos) = i)"

definition indexed :: "commitment \<Rightarrow> nat \<Rightarrow> bool" where
  "indexed d n \<longleftrightarrow> indexes (incomingHTLCIndex d) (incomingHTLCs d) \<and> indexes (outgoingHTLCIndex d) (outgoingHTLCs d)
     \<and> distinct (map localOutputIndex (incomingHTLCs d @ outgoingHTLCs d))
     \<and> (\<forall>q \<in> set (incomingHTLCs d @ outgoingHTLCs d). unat (localOutputIndex q) < n)"

subsection \<open>What the verification looks at\<close>

definition slot :: "commitment \<Rightarrow> nat \<Rightarrow> (bool \<times> PaymentDescriptor) option" where
  "slot d i = (case incomingHTLCIndex d (of_nat i) of
       Some pos \<Rightarrow> Some (True, incomingHTLCs d ! pos)
     | None \<Rightarrow> map_option (\<lambda>pos. (False, outgoingHTLCs d ! pos)) (outgoingHTLCIndex d (of_nat i)))"

definition withoutSig :: "PaymentDescriptor \<Rightarrow> PaymentDescriptor" where
  "withoutSig p = p\<lparr>pd_sig := None\<rparr>"

definition sigOnly :: "commitment \<Rightarrow> commitment \<Rightarrow> bool" where
  "sigOnly d c \<longleftrightarrow> incomingHTLCIndex c = incomingHTLCIndex d \<and> outgoingHTLCIndex c = outgoingHTLCIndex d
     \<and> feePerKw c = feePerKw d \<and> map withoutSig (incomingHTLCs c) = map withoutSig (incomingHTLCs d)
     \<and> map withoutSig (outgoingHTLCs c) = map withoutSig (outgoingHTLCs d)"

lemma verifyHash_withoutSig: "verifyHash lib sl k ct ini lease cfg rate tx inc (withoutSig p) = verifyHash lib sl k ct ini lease cfg rate tx inc p"
  by (simp add: withoutSig_def verifyHash_def secondLevelTx_def Let_def split: sum.split)

lemma withoutSig_eqD: "withoutSig p = withoutSig q \<Longrightarrow> verifyHash lib sl k ct ini lease cfg rate tx inc p = verifyHash lib sl k ct ini lease cfg rate tx inc q"
  by (metis verifyHash_withoutSig)

lemma sigOnly_sign:
  assumes "sigOnly d c"
  shows "sigOnly d (c\<lparr>incomingHTLCs := (incomingHTLCs c)[pos := (incomingHTLCs c ! pos)\<lparr>pd_sig := s\<rparr>]\<rparr>)"
    "sigOnly d (c\<lparr>outgoingHTLCs := (outgoingHTLCs c)[pos := (outgoingHTLCs c ! pos)\<lparr>pd_sig := s\<rparr>]\<rparr>)"
proof -
  have "map withoutSig (hs[pos := (hs ! pos)\<lparr>pd_sig := s\<rparr>]) = map withoutSig hs" for hs
    by (cases "pos < length hs") (auto simp: withoutSig_def map_update list_update_same_conv list_update_beyond)
  then show "sigOnly d (c\<lparr>incomingHTLCs := (incomingHTLCs c)[pos := (incomingHTLCs c ! pos)\<lparr>pd_sig := s\<rparr>]\<rparr>)"
    "sigOnly d (c\<lparr>outgoingHTLCs := (outgoingHTLCs c)[pos := (outgoingHTLCs c ! pos)\<lparr>pd_sig := s\<rparr>]\<rparr>)"
    using assms by (simp_all add: sigOnly_def)
qed

lemma sigOnly_nth:
  assumes "sigOnly d c" "indexed d n"
  shows "incomingHTLCIndex d i = Some pos \<Longrightarrow> withoutSig (incomingHTLCs c ! pos) = withoutSig (incomingHTLCs d ! pos)"
    "outgoingHTLCIndex d i = Some pos \<Longrightarrow> withoutSig (outgoingHTLCs c ! pos) = withoutSig (outgoingHTLCs d ! pos)"
proof -
  have *: "withoutSig (xs ! pos) = withoutSig (ys ! pos)" if "map withoutSig xs = map withoutSig ys" "pos < length ys" for xs ys
    using that by (metis length_map nth_map)
  show "incomingHTLCIndex d i = Some pos \<Longrightarrow> withoutSig (incomingHTLCs c ! pos) = withoutSig (incomingHTLCs d ! pos)"
    "outgoingHTLCIndex d i = Some pos \<Longrightarrow> withoutSig (outgoingHTLCs c ! pos) = withoutSig (outgoingHTLCs d ! pos)"
    using * assms unfolding sigOnly_def indexed_def indexes_def by metis+
qed

lemma verifyLoop_slots:
  assumes "indexed d n" and "sigOnly d c"
    and "length sigs = length (List.map_filter (slot d) is)"
    and "\<And>s. s \<in> set sigs \<Longrightarrow> sl_ToSignature sl s \<noteq> None"
  shows "\<exists>c' jobs. verifyLoop lib sl k ct ini lease cfg tx is c sigs = Inr (c', jobs, [])
     \<and> map vj_SigHash jobs = map (\<lambda>(inc, q). verifyHash lib sl k ct ini lease cfg (feePerKw d) tx inc q) (List.map_filter (slot d) is)
     \<and> map vj_Sig jobs = map (\<lambda>s. the (sl_ToSignature sl s)) sigs
     \<and> (\<forall>j \<in> set jobs. vj_PubKey j = RemoteHtlcKey k)"
  using assms(2-)
proof (induction "is" arbitrary: c sigs)
  case Nil
  then show ?case by (simp add: map_filter_simps)
next
  case (Cons i "is")
  have ix: "incomingHTLCIndex c = incomingHTLCIndex d" "outgoingHTLCIndex c = outgoingHTLCIndex d" "feePerKw c = feePerKw d"
    using Cons.prems(1) by (simp_all add: sigOnly_def)
  show ?case
  proof (cases "slot d i")
    case None
    then have "incomingHTLCIndex d (of_nat i) = None" "outgoingHTLCIndex d (of_nat i) = None"
      by (auto simp: slot_def split: option.splits)
    then show ?thesis using Cons.IH [OF Cons.prems(1)] Cons.prems None by (simp add: ix map_filter_simps)
  next
    case (Some x)
    then obtain s sigs' where sigs: "sigs = s # sigs'" using Cons.prems(2) by (cases sigs) (auto simp: map_filter_simps)
    obtain raw where raw: "sl_ToSignature sl s = Some raw" using Cons.prems(3) sigs by auto
    have len: "length sigs' = length (List.map_filter (slot d) is)" using Cons.prems(2) sigs Some by (simp add: map_filter_simps)
    have parse: "sl_ToSignature sl s' \<noteq> None" if "s' \<in> set sigs'" for s' using Cons.prems(3) that sigs by simp
    show ?thesis
    proof (cases "incomingHTLCIndex d (of_nat i)")
      case (Some pos)
      have x: "x = (True, incomingHTLCs d ! pos)" using \<open>slot d i = Some x\<close> Some by (simp add: slot_def)
      note h = withoutSig_eqD [OF sigOnly_nth(1) [OF Cons.prems(1) assms(1) Some]]
      obtain c' jobs where "verifyLoop lib sl k ct ini lease cfg tx is
          (c\<lparr>incomingHTLCs := (incomingHTLCs c)[pos := (incomingHTLCs c ! pos)\<lparr>pd_sig := Some raw\<rparr>]\<rparr>) sigs' = Inr (c', jobs, [])"
        "map vj_SigHash jobs = map (\<lambda>(inc, q). verifyHash lib sl k ct ini lease cfg (feePerKw d) tx inc q) (List.map_filter (slot d) is)"
        "map vj_Sig jobs = map (\<lambda>s. the (sl_ToSignature sl s)) sigs'" "\<forall>j \<in> set jobs. vj_PubKey j = RemoteHtlcKey k"
        using Cons.IH [OF sigOnly_sign(1) [OF Cons.prems(1)] len parse] by blast
      then show ?thesis using \<open>slot d i = Some x\<close> x Some raw h by (simp add: ix sigs map_filter_simps of_sig_def Let_def)
    next
      case None
      then obtain pos where pos: "outgoingHTLCIndex d (of_nat i) = Some pos" "x = (False, outgoingHTLCs d ! pos)"
        using \<open>slot d i = Some x\<close> by (auto simp: slot_def)
      note h = withoutSig_eqD [OF sigOnly_nth(2) [OF Cons.prems(1) assms(1) pos(1)]]
      obtain c' jobs where "verifyLoop lib sl k ct ini lease cfg tx is
          (c\<lparr>outgoingHTLCs := (outgoingHTLCs c)[pos := (outgoingHTLCs c ! pos)\<lparr>pd_sig := Some raw\<rparr>]\<rparr>) sigs' = Inr (c', jobs, [])"
        "map vj_SigHash jobs = map (\<lambda>(inc, q). verifyHash lib sl k ct ini lease cfg (feePerKw d) tx inc q) (List.map_filter (slot d) is)"
        "map vj_Sig jobs = map (\<lambda>s. the (sl_ToSignature sl s)) sigs'" "\<forall>j \<in> set jobs. vj_PubKey j = RemoteHtlcKey k"
        using Cons.IH [OF sigOnly_sign(2) [OF Cons.prems(1)] len parse] by blast
      then show ?thesis using \<open>slot d i = Some x\<close> pos None raw h by (simp add: ix sigs map_filter_simps of_sig_def Let_def)
    qed
  qed
qed

subsection \<open>The order of the outputs\<close>

lemma insort_list_all2:
  assumes "list_all2 R xs ys" "R x y" "\<And>a b. R a b \<Longrightarrow> f a = g b"
  shows "list_all2 R (insort_key f x xs) (insort_key g y ys)"
  using assms(1,2) by (induction rule: list_all2_induct) (auto dest!: assms(3))

lemma sort_list_all2:
  assumes "list_all2 R xs ys" "\<And>a b. R a b \<Longrightarrow> f a = g b"
  shows "list_all2 R (sort_key f xs) (sort_key g ys)"
  using assms(1) by (induction rule: list_all2_induct) (simp_all add: insort_list_all2 assms(2))

definition taggedHtlcs :: "commitment \<Rightarrow> (bool \<times> PaymentDescriptor) list" where
  "taggedHtlcs d = map (Pair False) (outgoingHTLCs d) @ map (Pair True) (incomingHTLCs d)"

definition outputOf :: "bool \<times> PaymentDescriptor \<Rightarrow> int" where
  "outputOf x = sint (localOutputIndex (snd x))"

lemma sint_of_index: "unat (w :: 32 word) < 2 ^ 31 \<Longrightarrow> sint w = int (unat w)"
proof -
  assume w: "unat w < 2 ^ 31"
  have "signed_take_bit 31 (int x) = int x" if "x < 2 ^ 31" for x
    using that by (intro signed_take_bit_int_eq_self; simp)
  from this [OF w] show ?thesis by (simp add: sint_uint)
qed

lemma slot_iff:
  assumes "indexed d n" "n \<le> 2 ^ 31" "i < n"
  shows "slot d i = Some x \<longleftrightarrow> x \<in> set (taggedHtlcs d) \<and> unat (localOutputIndex (snd x)) = i"
proof -
  have i: "of_nat i = w \<longleftrightarrow> unat w = i" for w :: "32 word"
    using assms(2,3) by (auto simp: unat_of_nat)
  have ix: "indexes (incomingHTLCIndex d) (incomingHTLCs d)" "indexes (outgoingHTLCIndex d) (outgoingHTLCs d)"
    and dist: "distinct (map localOutputIndex (incomingHTLCs d @ outgoingHTLCs d))" using assms(1) by (auto simp: indexed_def)
  have *: "(\<exists>pos. ix (of_nat i) = Some pos \<and> q = hs ! pos) \<longleftrightarrow> q \<in> set hs \<and> unat (localOutputIndex q) = i"
    if "indexes ix hs" for ix hs q
    using that i by (auto simp: indexes_def in_set_conv_nth) (metis i)
  have disj: "localOutputIndex q \<noteq> localOutputIndex q'" if "q \<in> set (incomingHTLCs d)" "q' \<in> set (outgoingHTLCs d)" for q q'
    using dist that by (auto simp: distinct_append)
  have in_none: "incomingHTLCIndex d (of_nat i) = None" if "q \<in> set (outgoingHTLCs d)" "unat (localOutputIndex q) = i" for q
    using ix(1) disj that i by (metis indexes_def not_None_eq nth_mem)
  have "slot d i = Some (inc, q) \<longleftrightarrow> (if inc then q \<in> set (incomingHTLCs d) \<and> unat (localOutputIndex q) = i
      else q \<in> set (outgoingHTLCs d) \<and> unat (localOutputIndex q) = i)" for inc q
  proof (cases inc)
    case True
    then show ?thesis unfolding * [OF ix(1), symmetric] by (auto simp: slot_def split: option.splits)
  next
    case False
    have "slot d i = Some (False, q) \<longleftrightarrow> incomingHTLCIndex d (of_nat i) = None \<and> (\<exists>pos. outgoingHTLCIndex d (of_nat i) = Some pos \<and> q = outgoingHTLCs d ! pos)"
      by (auto simp: slot_def split: option.splits)
    then show ?thesis using False in_none * [OF ix(2)] by auto
  qed
  then show ?thesis by (cases x) (auto simp: taggedHtlcs_def)
qed

lemma in_map_filter: "x \<in> set (List.map_filter f xs) \<longleftrightarrow> (\<exists>i \<in> set xs. f i = Some x)"
  by (induction xs) (auto simp: map_filter_simps split: option.splits)

lemma slots_sorted:
  assumes "indexed d n" "n \<le> 2 ^ 31"
  shows "List.map_filter (slot d) [0..<n] = sort_key outputOf (taggedHtlcs d)"
proof (rule sort_key_inj_key_eq [symmetric])
  let ?S = "List.map_filter (slot d) [0..<n]"
  have bound: "unat (localOutputIndex (snd x)) < n" if "x \<in> set (taggedHtlcs d)" for x
    using that assms(1) by (auto simp: indexed_def taggedHtlcs_def)
  have mem: "set ?S = set (taggedHtlcs d)"
    using slot_iff [OF assms] bound by (auto simp: in_map_filter)
  have keys: "map (\<lambda>x. unat (localOutputIndex (snd x))) (List.map_filter (slot d) is) = filter (\<lambda>i. slot d i \<noteq> None) is"
    if "set is \<subseteq> {0..<n}" for "is"
    using that
  proof (induction "is")
    case (Cons i "is")
    have "unat (localOutputIndex (snd x)) = i" if "slot d i = Some x" for x
      using slot_iff [OF assms, of i x] Cons.prems that by simp
    with Cons show ?case by (cases "slot d i") (auto simp: map_filter_simps)
  qed (simp add: map_filter_simps)
  have out: "outputOf x = int (unat (localOutputIndex (snd x)))" if "x \<in> set (taggedHtlcs d)" for x
    using bound [OF that] assms(2) by (simp only: outputOf_def) (rule sint_of_index, simp)
  have distS: "distinct (map (\<lambda>x. unat (localOutputIndex (snd x))) ?S)" using keys [of "[0..<n]"] by simp
  then have "distinct ?S" by (simp add: distinct_map)
  moreover have "distinct (taggedHtlcs d)"
    using assms(1) by (auto simp: indexed_def taggedHtlcs_def distinct_map inj_on_def)
  ultimately show "mset (taggedHtlcs d) = mset ?S" using mem by (simp add: set_eq_iff_mset_eq_distinct [symmetric])
  show "inj_on outputOf (set (taggedHtlcs d))"
  proof (rule inj_onI)
    fix x y assume xy: "x \<in> set (taggedHtlcs d)" "y \<in> set (taggedHtlcs d)" "outputOf x = outputOf y"
    then have "unat (localOutputIndex (snd x)) = unat (localOutputIndex (snd y))" using out by (metis of_nat_eq_iff)
    then show "x = y" using distS xy(1,2) by (auto simp: distinct_map mem inj_on_def)
  qed
  have "sorted (map (\<lambda>x. unat (localOutputIndex (snd x))) ?S)" using keys [of "[0..<n]"] by (simp add: sorted_filter [where f = id, simplified])
  moreover have "sorted (map int xs)" if "sorted xs" for xs using that by (induction xs) auto
  ultimately have "sorted (map int (map (\<lambda>x. unat (localOutputIndex (snd x))) ?S))" by blast
  moreover have "map outputOf ?S = map int (map (\<lambda>x. unat (localOutputIndex (snd x))) ?S)" using out by (simp add: mem)
  ultimately show "sorted (map outputOf ?S)" by (simp only:)
qed

subsection \<open>What the signer signs\<close>

definition signedAs ::
    "'pk ScriptLib \<Rightarrow> 'pk SigLib \<Rightarrow> 'pk CommitmentKeyRing \<Rightarrow> ChannelType \<Rightarrow> bool \<Rightarrow> u32 \<Rightarrow> 'pk ChannelKeys \<Rightarrow> ChannelConstraints
       \<Rightarrow> SatPerKWeight \<Rightarrow> MsgTx \<Rightarrow> bool \<Rightarrow> PaymentDescriptor \<Rightarrow> 'pk SignJob \<Rightarrow> bool" where
  "signedAs lib sl k ct ini lease keys cfg rate tx inc p j \<longleftrightarrow>
     secondLevelTx lib (sl_TxHash sl tx) rate ct ini lease (ucast (CsvDelay cfg)) k (\<not> inc) (remoteOutputIndex p) p = Inr (sj_Tx j)
     \<and> sj_OutputIndex j = remoteOutputIndex p \<and> sd_WitnessScript (sj_SignDesc j) = theirWitnessScript p
     \<and> sd_KeyDesc (sj_SignDesc j) = HtlcBasePoint keys \<and> sd_SingleTweak (sj_SignDesc j) = LocalHtlcKeyTweak k"

lemma signJobs_all:
  assumes "signJobs lib sl k ct ini lease keys cfg rate tx inc hs = Inr jobs"
    and "\<forall>p \<in> set hs. \<not> HtlcIsDust ct inc False rate (ToSatoshis (BtcAmount p)) (DustLimit cfg) (AssetID p)"
  shows "list_all2 (signedAs lib sl k ct ini lease keys cfg rate tx inc) hs jobs"
  using assms
proof (induction hs arbitrary: jobs)
  case (Cons p hs)
  from Cons.prems obtain jobTx jobs' where
    "secondLevelTx lib (sl_TxHash sl tx) rate ct ini lease (ucast (CsvDelay cfg)) k (\<not> inc) (remoteOutputIndex p) p = Inr jobTx"
    "signJobs lib sl k ct ini lease keys cfg rate tx inc hs = Inr jobs'"
    "jobs = \<lparr>sj_SignDesc = \<lparr>sd_KeyDesc = HtlcBasePoint keys, sd_SingleTweak = LocalHtlcKeyTweak k,
        sd_WitnessScript = theirWitnessScript p, sd_Output = tx_TxOut tx ! unat (remoteOutputIndex p)\<rparr>,
        sj_Tx = jobTx, sj_OutputIndex = remoteOutputIndex p\<rparr> # jobs'"
    by (auto simp: sbind_eq_Inr liftCommit_def split: sum.splits if_splits)
  with Cons.IH Cons.prems(2) show ?case by (simp add: signedAs_def)
qed simp

text \<open>A job covers an HTLC of the peer when both compute the same hash for the same output.\<close>

definition covers ::
    "'pk ScriptLib \<Rightarrow> 'pk SigLib \<Rightarrow> 'pk CommitmentKeyRing \<Rightarrow> 'pk CommitmentKeyRing \<Rightarrow> ChannelType \<Rightarrow> bool \<Rightarrow> u32 \<Rightarrow> 'pk ChannelKeys
       \<Rightarrow> ChannelConstraints \<Rightarrow> SatPerKWeight \<Rightarrow> MsgTx \<Rightarrow> bool \<times> PaymentDescriptor \<Rightarrow> 'pk SignJob \<Rightarrow> bool" where
  "covers lib sl k kd ct ini lease keys cfg rate tx x j \<longleftrightarrow>
     outputOf x = sint (sj_OutputIndex j)
     \<and> verifyHash lib sl kd ct ini lease cfg rate tx (fst x) (snd x) = sl_CalcSignatureHash sl (sd_WitnessScript (sj_SignDesc j)) (sj_Tx j)
     \<and> sd_KeyDesc (sj_SignDesc j) = HtlcBasePoint keys \<and> sd_SingleTweak (sj_SignDesc j) = LocalHtlcKeyTweak k"

lemma signed_covers:
  assumes "signedAs lib sl k ct ini lease keys cfg rate tx inc p j" "mirrorHtlc p q"
    and "RevocationKey kd = RevocationKey k" "ToLocalKey kd = ToLocalKey k"
  shows "covers lib sl k kd ct ini lease keys cfg rate tx (\<not> inc, q) j"
proof -
  have "secondLevelTx lib h rate ct ini lease csv kd suc (localOutputIndex q) q = secondLevelTx lib h rate ct ini lease csv k suc (remoteOutputIndex p) p"
    for h csv suc
    using assms(2-4) by (simp add: secondLevelTx_def mirrorHtlc_def Let_def)
  then show ?thesis using assms(1,2) by (simp add: covers_def signedAs_def outputOf_def verifyHash_def mirrorHtlc_def)
qed

lemma jobs_cover:
  assumes "mirrorCommitment c d" "txn c = Some tx"
    and jobs: "genRemoteHtlcSigJobs lib sl k ct ini lease keys cfg c = Inr jobs"
    and dust: "\<forall>p \<in> set (incomingHTLCs c). \<not> HtlcIsDust ct True False (feePerKw c) (ToSatoshis (BtcAmount p)) (DustLimit cfg) (AssetID p)"
      "\<forall>p \<in> set (outgoingHTLCs c). \<not> HtlcIsDust ct False False (feePerKw c) (ToSatoshis (BtcAmount p)) (DustLimit cfg) (AssetID p)"
    and keys: "RevocationKey kd = RevocationKey k" "ToLocalKey kd = ToLocalKey k"
  shows "list_all2 (covers lib sl k kd ct ini lease keys cfg (feePerKw c) tx) (sort_key outputOf (taggedHtlcs d)) (sortJobs jobs)"
proof -
  obtain inc out where j: "jobs = inc @ out"
    "signJobs lib sl k ct ini lease keys cfg (feePerKw c) tx True (incomingHTLCs c) = Inr inc"
    "signJobs lib sl k ct ini lease keys cfg (feePerKw c) tx False (outgoingHTLCs c) = Inr out"
    using jobs assms(2) by (auto simp: genRemoteHtlcSigJobs_def sbind_eq_Inr)
  have m: "list_all2 mirrorHtlc (incomingHTLCs c) (outgoingHTLCs d)" "list_all2 mirrorHtlc (outgoingHTLCs c) (incomingHTLCs d)"
    using assms(1) by (auto simp: mirrorCommitment_def)
  let ?C = "covers lib sl k kd ct ini lease keys cfg (feePerKw c) tx"
  have side: "list_all2 ?C (map (Pair (\<not> b)) qs) js"
    if "list_all2 mirrorHtlc ps qs" "list_all2 (signedAs lib sl k ct ini lease keys cfg (feePerKw c) tx b) ps js" for b ps qs js
    using that signed_covers [OF _ _ keys] by (auto simp: list_all2_conv_all_nth)
  have "list_all2 ?C (taggedHtlcs d) jobs"
    unfolding taggedHtlcs_def j(1)
    using side [OF m(1) signJobs_all [OF j(2) dust(1)]] side [OF m(2) signJobs_all [OF j(3) dust(2)]]
    by (intro list_all2_appendI) auto
  then show ?thesis unfolding sortJobs_def by (rule sort_list_all2) (simp add: covers_def)
qed

lemma collectSigs_all:
  "collectSigs sl jobs = Inr sigs \<Longrightarrow>
     list_all2 (\<lambda>j s. \<exists>raw. sl_SignOutputRaw sl (sj_SignDesc j) (sj_Tx j) = Some raw \<and> sl_NewSigFromSignature sl raw = Some s) jobs sigs"
  by (induction sl jobs arbitrary: sigs rule: collectSigs.induct) (auto simp: sbind_eq_Inr of_sig_def split: option.splits)

section \<open>Properties\<close>

text \<open>
  What the code relies on in the signature packages: a signature survives the conversion to the
  wire format and back, and a signature that the signer makes for a descriptor verifies for the
  hash of its script and transaction under the tweaked key of the descriptor.
\<close>

definition sigLaws :: "'pk Curve \<Rightarrow> 'pk SigLib \<Rightarrow> bool" where
  "sigLaws cv sl \<longleftrightarrow>
     (\<forall>raw s. sl_NewSigFromSignature sl raw = Some s \<longrightarrow> sl_ToSignature sl s = Some raw)
     \<and> (\<forall>sd tx raw. sl_SignOutputRaw sl sd tx = Some raw \<longrightarrow>
          (\<exists>h. sl_CalcSignatureHash sl (sd_WitnessScript sd) tx = Some h
             \<and> sl_Verify sl raw h (TweakPubKeyWithTweak cv (sd_KeyDesc sd) (sd_SingleTweak sd))))"

definition jobVerifies :: "'pk SigLib \<Rightarrow> 'pk VerifyJob \<Rightarrow> bool" where
  "jobVerifies sl j \<longleftrightarrow> (\<exists>h. vj_SigHash j = Some h \<and> sl_Verify sl (vj_Sig j) h (vj_PubKey j))"

text \<open>
  C27. Honest HTLC signatures are accepted: when a party signs the HTLCs of a commitment for its
  peer, and the peer builds the same commitment from its own point of view, then the peer finds
  exactly one signature for each HTLC output, in the order of the outputs, and every signature
  verifies against the second-level transaction that the peer derives for that output.
\<close>

theorem honest_HTLC_signatures_accepted:
  assumes laws: "sigLaws cv sl"
    and mirror: "mirrorCommitment c d" "txn c = Some tx" "indexed d (length (tx_TxOut tx))" "length (tx_TxOut tx) \<le> 2 ^ 31"
    and k: "k = DeriveCommitmentKeys cv commitPoint False ct signerKeys peerKeys"
    and kd: "kd = DeriveCommitmentKeys cv commitPoint True ct peerKeys signerKeys"
    and dust: "\<forall>p \<in> set (incomingHTLCs c). \<not> HtlcIsDust ct True False (feePerKw c) (ToSatoshis (BtcAmount p)) (DustLimit cfg) (AssetID p)"
      "\<forall>p \<in> set (outgoingHTLCs c). \<not> HtlcIsDust ct False False (feePerKw c) (ToSatoshis (BtcAmount p)) (DustLimit cfg) (AssetID p)"
    and jobs: "genRemoteHtlcSigJobs lib sl k ct ini lease signerKeys cfg c = Inr jobs"
    and sigs: "collectSigs sl (sortJobs jobs) = Inr htlcSigs"
  shows "\<exists>d' vjobs. genHtlcSigValidationJobs lib sl d kd htlcSigs ct ini lease cfg = Inr (d', vjobs)
     \<and> length vjobs = length (incomingHTLCs d) + length (outgoingHTLCs d) \<and> (\<forall>j \<in> set vjobs. jobVerifies sl j)"
proof -
  have tx: "txn d = Some tx" "feePerKw d = feePerKw c" using mirror(1,2) by (auto simp: mirrorCommitment_def)
  have keys: "RevocationKey kd = RevocationKey k" "ToLocalKey kd = ToLocalKey k"
    and pub: "RemoteHtlcKey kd = TweakPubKeyWithTweak cv (HtlcBasePoint signerKeys) (LocalHtlcKeyTweak k)"
    by (simp_all add: k kd DeriveCommitmentKeys_def TweakPubKey_def Let_def)
  note cover = jobs_cover [OF mirror(1,2) jobs dust keys]
  note signed = collectSigs_all [OF sigs]
  let ?S = "List.map_filter (slot d) [0..<length (tx_TxOut tx)]"
  have S: "?S = sort_key outputOf (taggedHtlcs d)" using slots_sorted [OF mirror(3,4)] .
  have len: "length htlcSigs = length ?S" "length ?S = length (sortJobs jobs)"
    using list_all2_lengthD [OF cover] list_all2_lengthD [OF signed] by (simp_all add: S)
  have parse: "sl_ToSignature sl s \<noteq> None" if "s \<in> set htlcSigs" for s
    using that signed laws by (auto simp: list_all2_conv_all_nth in_set_conv_nth sigLaws_def)
  obtain d' vjobs where v: "verifyLoop lib sl kd ct ini lease cfg tx [0..<length (tx_TxOut tx)] d htlcSigs = Inr (d', vjobs, [])"
    "map vj_SigHash vjobs = map (\<lambda>(inc, q). verifyHash lib sl kd ct ini lease cfg (feePerKw d) tx inc q) ?S"
    "map vj_Sig vjobs = map (\<lambda>s. the (sl_ToSignature sl s)) htlcSigs" "\<forall>j \<in> set vjobs. vj_PubKey j = RemoteHtlcKey kd"
    using verifyLoop_slots [OF mirror(3) _ len(1) parse, of d lib kd ct ini lease cfg tx] by (auto simp: sigOnly_def)
  have n: "length vjobs = length ?S" using v(2) by (metis length_map)
  have "jobVerifies sl (vjobs ! i)" if i: "i < length vjobs" for i
  proof -
    have iS: "i < length ?S" "i < length htlcSigs" "i < length (sortJobs jobs)" using i n len by auto
    have c: "covers lib sl k kd ct ini lease signerKeys cfg (feePerKw c) tx (?S ! i) (sortJobs jobs ! i)"
      using cover iS by (simp add: S list_all2_conv_all_nth)
    obtain raw where raw: "sl_SignOutputRaw sl (sj_SignDesc (sortJobs jobs ! i)) (sj_Tx (sortJobs jobs ! i)) = Some raw"
      "sl_NewSigFromSignature sl raw = Some (htlcSigs ! i)"
      using signed iS by (auto simp: list_all2_conv_all_nth)
    have "vj_Sig (vjobs ! i) = raw" using arg_cong [OF v(3), of "\<lambda>xs. xs ! i"] i iS raw(2) laws by (simp add: sigLaws_def)
    moreover have "vj_SigHash (vjobs ! i) = sl_CalcSignatureHash sl (sd_WitnessScript (sj_SignDesc (sortJobs jobs ! i))) (sj_Tx (sortJobs jobs ! i))"
      using arg_cong [OF v(2), of "\<lambda>xs. xs ! i"] i iS c by (simp add: covers_def tx case_prod_beta)
    moreover have "vj_PubKey (vjobs ! i) = TweakPubKeyWithTweak cv (sd_KeyDesc (sj_SignDesc (sortJobs jobs ! i))) (sd_SingleTweak (sj_SignDesc (sortJobs jobs ! i)))"
      using v(4) i c by (simp add: covers_def pub)
    ultimately show ?thesis using laws raw(1) unfolding jobVerifies_def sigLaws_def by metis
  qed
  moreover have "length ?S = length (incomingHTLCs d) + length (outgoingHTLCs d)" by (simp add: S taggedHtlcs_def)
  ultimately show ?thesis using v(1) n len tx by (auto simp: genHtlcSigValidationJobs_def in_set_conv_nth)
qed

text \<open>
  An instance: a commitment with an incoming and an outgoing HTLC, and signatures that are the
  signed hash itself.
\<close>

definition unitCurve :: "unit Curve" where
  "unitCurve = \<lparr>cv_Add = (\<lambda>_ _. ()), cv_ScalarMult = (\<lambda>_ _. ()), cv_ScalarBaseMult = (\<lambda>_. ()), cv_SerializeCompressed = (\<lambda>_. [])\<rparr>"

definition plainSigs :: "unit SigLib" where
  "plainSigs = \<lparr>sl_TxHash = (\<lambda>tx. put_word 4 (LockTime tx)),
     sl_SignOutputRaw = (\<lambda>sd tx. Some (sd_WitnessScript sd @ put_word 4 (LockTime tx))),
     sl_NewSigFromSignature = Some, sl_ToSignature = Some,
     sl_CalcSignatureHash = (\<lambda>script tx. Some (script @ put_word 4 (LockTime tx))),
     sl_Verify = (\<lambda>sig hash _. sig = hash)\<rparr>"

lemma plainSigs_laws: "sigLaws unitCurve plainSigs"
  by (simp add: sigLaws_def plainSigs_def)

definition sampleKeyPoints :: "unit ChannelKeys" where
  "sampleKeyPoints = \<lparr>MultiSigKey = (), RevocationBasePoint = (), PaymentBasePoint = (), DelayBasePoint = (), HtlcBasePoint = ()\<rparr>"

definition twoOutputs :: MsgTx where
  "twoOutputs = \<lparr>Version = 2, tx_TxIn = [],
     tx_TxOut = [\<lparr>out_Value = 9000, PkScript = [1]\<rparr>, \<lparr>out_Value = 9000, PkScript = [2]\<rparr>], LockTime = 3\<rparr>"

definition htlcOn :: "u32 \<Rightarrow> 32 word \<Rightarrow> bytes \<Rightarrow> PaymentDescriptor" where
  "htlcOn expiry i script =
     zeroPD\<lparr>BtcAmount := 9000000, Timeout := expiry, localOutputIndex := i, remoteOutputIndex := i,
            ourWitnessScript := script, theirWitnessScript := script\<rparr>"

definition signerView :: commitment where
  "signerView = (sampleCommitment False)\<lparr>txn := Some twoOutputs,
     incomingHTLCs := [htlcOn 20 1 [5]], outgoingHTLCs := [htlcOn 10 0 [6]]\<rparr>"

definition peerView :: commitment where
  "peerView = (sampleCommitment True)\<lparr>txn := Some twoOutputs,
     outgoingHTLCs := [htlcOn 20 1 [5]], incomingHTLCs := [htlcOn 10 0 [6]],
     outgoingHTLCIndex := [1 \<mapsto> 0], incomingHTLCIndex := [0 \<mapsto> 0]\<rparr>"

lemma views_mirror: "mirrorCommitment signerView peerView" "txn signerView = Some twoOutputs"
  by (simp_all add: mirrorCommitment_def signerView_def peerView_def sampleCommitment_def mirrorHtlc_def htlcOn_def)

lemma peer_indexed: "indexed peerView (length (tx_TxOut twoOutputs))"
  by (auto simp: indexed_def indexes_def peerView_def htlcOn_def twoOutputs_def sampleCommitment_def)

definition signerRing :: "unit CommitmentKeyRing" where
  "signerRing = DeriveCommitmentKeys unitCurve () False SingleFunderTweaklessBit sampleKeyPoints sampleKeyPoints"

lemma views_no_dust:
  "\<forall>p \<in> set (incomingHTLCs signerView). \<not> HtlcIsDust SingleFunderTweaklessBit True False (feePerKw signerView) (ToSatoshis (BtcAmount p)) (DustLimit sampleConstraints) (AssetID p)"
  "\<forall>p \<in> set (outgoingHTLCs signerView). \<not> HtlcIsDust SingleFunderTweaklessBit False False (feePerKw signerView) (ToSatoshis (BtcAmount p)) (DustLimit sampleConstraints) (AssetID p)"
  by code_simp+

fun sigsOf :: "sig_error + unit SignJob list \<Rightarrow> Sig list option" where
  "sigsOf (Inl e) = None"
| "sigsOf (Inr jobs) = (case collectSigs plainSigs (sortJobs jobs) of Inl e \<Rightarrow> None | Inr sigs \<Rightarrow> Some sigs)"

lemma signer_jobs:
  "sigsOf (genRemoteHtlcSigJobs sampleLib plainSigs signerRing SingleFunderTweaklessBit True 0 sampleKeyPoints sampleConstraints signerView)
     = Some [[6, 0, 0, 0, 0], [5, 0, 0, 0, 20]]"
proof -
  have "\<exists>inc out. signJobs sampleLib plainSigs signerRing SingleFunderTweaklessBit True 0 sampleKeyPoints sampleConstraints
      (feePerKw signerView) twoOutputs True (incomingHTLCs signerView) = Inr [inc]
    \<and> signJobs sampleLib plainSigs signerRing SingleFunderTweaklessBit True 0 sampleKeyPoints sampleConstraints
      (feePerKw signerView) twoOutputs False (outgoingHTLCs signerView) = Inr [out]
    \<and> sj_OutputIndex inc = 1 \<and> sj_OutputIndex out = 0 \<and> LockTime (sj_Tx inc) = 20 \<and> LockTime (sj_Tx out) = 0
    \<and> sd_WitnessScript (sj_SignDesc inc) = [5] \<and> sd_WitnessScript (sj_SignDesc out) = [6]"
    using views_no_dust by (simp add: signerView_def) (simp add: htlcOn_def secondLevelTx_def CreateHtlcSuccessTx_def CreateHtlcTimeoutTx_def
       SecondLevelHtlcScript_def sampleLib_def of_script_def AddOpReturnToTx_def liftCommit_def omniResult_def twoOutputs_def zeroPD_def
       BtcAssetId_def NewPksAmounts_def PksAmounts_Add_def Let_def)
  moreover have "put_word 4 (0 :: u32) = [0, 0, 0, 0]" "put_word 4 (20 :: u32) = [0, 0, 0, 20]" by code_simp+
  ultimately show ?thesis
    by (auto simp: genRemoteHtlcSigJobs_def views_mirror(2) sortJobs_def plainSigs_def of_sig_def)
qed

theorem honest_HTLC_signatures_accepted_witness:
  "\<exists>d' vjobs. genHtlcSigValidationJobs sampleLib plainSigs peerView
       (DeriveCommitmentKeys unitCurve () True SingleFunderTweaklessBit sampleKeyPoints sampleKeyPoints)
       [[6, 0, 0, 0, 0], [5, 0, 0, 0, 20]] SingleFunderTweaklessBit True 0 sampleConstraints = Inr (d', vjobs) \<and> length vjobs = 2"
proof -
  obtain jobs where j: "genRemoteHtlcSigJobs sampleLib plainSigs signerRing SingleFunderTweaklessBit True 0 sampleKeyPoints
      sampleConstraints signerView = Inr jobs" "collectSigs plainSigs (sortJobs jobs) = Inr [[6, 0, 0, 0, 0], [5, 0, 0, 0, 20]]"
    using signer_jobs by (auto elim!: sigsOf.elims split: sum.splits)
  have "length (tx_TxOut twoOutputs) \<le> 2 ^ 31" by (simp add: twoOutputs_def)
  from honest_HTLC_signatures_accepted [OF plainSigs_laws views_mirror peer_indexed this signerRing_def refl views_no_dust j]
  show ?thesis by (auto simp: peerView_def)
qed

end
