(* ===== verification/Fwd_Pkg.thy ===== *)
theory Fwd_Pkg
  imports Update_Log Lnwire_Messages
begin

text \<open>
  Forwarding packages (\<open>src/oblnd/channeldb/forwarding_package.go\<close>): the bit vectors that mark a
  subset of the updates of a package, the package itself, and the packager that writes, acknowledges
  and loads packages in the nested buckets of the database. A bucket is a map; the filters are kept
  in their encoded form, as in the database. The theorems say that a bit vector implements a set of
  indexes, and that a package is complete exactly when every add, settle and fail is acknowledged.
\<close>

section \<open>The model\<close>

subsection \<open>Log updates\<close>

datatype UpdateMsg =
    MsgUpdateAddHTLC UpdateAddHTLC
  | MsgUpdateFulfillHTLC UpdateFulfillHTLC
  | MsgUpdateFailHTLC UpdateFailHTLC
  | MsgUpdateFailMalformedHTLC UpdateFailMalformedHTLC
  | MsgUpdateFee UpdateFee

record LogUpdate =
  lu_LogIndex :: u64
  lu_UpdateMsg :: UpdateMsg

subsection \<open>Filters\<close>

record PkgFilter =
  pf_count :: u16
  pf_filter :: bytes

datatype fwd_error = ErrCorruptedFwdPkg | FilterIndexPanic u16 | FilterReadError io_error | BucketNotFound

definition NewPkgFilter :: "u16 \<Rightarrow> PkgFilter" where
  "NewPkgFilter count = \<lparr>pf_count = count, pf_filter = replicate (unat ((count + 7) div 8)) 0\<rparr>"

definition Count :: "PkgFilter \<Rightarrow> u16" where
  "Count f = pf_count f"

definition bitMask :: "u16 \<Rightarrow> u8" where
  "bitMask b = ucast (push_bit (unat (7 - b)) (1 :: u16))"

definition Set :: "PkgFilter \<Rightarrow> u16 \<Rightarrow> fwd_error + PkgFilter" where
  "Set f i =
     (let byt = i div 8; bit = i mod 8
      in if length (pf_filter f) \<le> unat byt then Inl (FilterIndexPanic i)
         else Inr (f\<lparr>pf_filter := (pf_filter f)[unat byt := pf_filter f ! unat byt OR bitMask bit]\<rparr>))"

definition Contains :: "PkgFilter \<Rightarrow> u16 \<Rightarrow> fwd_error + bool" where
  "Contains f i =
     (let byt = i div 8; bit = i mod 8
      in if length (pf_filter f) \<le> unat byt then Inl (FilterIndexPanic i)
         else Inr (pf_filter f ! unat byt AND bitMask bit \<noteq> 0))"

definition PkgFilter_Equal :: "PkgFilter \<Rightarrow> PkgFilter \<Rightarrow> bool" where
  "PkgFilter_Equal f f2 = (if pf_count f \<noteq> pf_count f2 then False else pf_filter f = pf_filter f2)"

fun allBytes :: "bytes \<Rightarrow> nat list \<Rightarrow> fwd_error + bool" where
  "allBytes bs [] = Inr True"
| "allBytes bs (i # is) =
     (if length bs \<le> i then Inl (FilterIndexPanic (of_nat i))
      else if bs ! i \<noteq> 0xFF then Inr False
      else allBytes bs is)"

fun allBits :: "PkgFilter \<Rightarrow> nat list \<Rightarrow> fwd_error + bool" where
  "allBits f [] = Inr True"
| "allBits f (i # is) = sbind (Contains f (of_nat i)) (\<lambda>c. if \<not> c then Inr False else allBits f is)"

definition IsFull :: "PkgFilter \<Rightarrow> fwd_error + bool" where
  "IsFull f =
     (let count = unat (pf_count f)
      in sbind (allBytes (pf_filter f) [0..<count div 8]) (\<lambda>full.
           if \<not> full then Inr False else allBits f [count - count mod 8..<count]))"

definition PkgFilter_Size :: "PkgFilter \<Rightarrow> u16" where
  "PkgFilter_Size f = 2 + (pf_count f + 7) div 8"

definition PkgFilter_Encode :: "PkgFilter \<Rightarrow> bytes" where
  "PkgFilter_Encode f = put_word 2 (pf_count f) @ pf_filter f"

definition PkgFilter_Decode :: "bytes \<Rightarrow> fwd_error + PkgFilter \<times> bytes" where
  "PkgFilter_Decode r =
     (case read_full 2 r of
        Inl e \<Rightarrow> Inl (FilterReadError e)
      | Inr (b, r1) \<Rightarrow>
          (let f = \<lparr>pf_count = get_word b, pf_filter = []\<rparr>
           in case read_full (unat (PkgFilter_Size f - 2)) r1 of
                Inl e \<Rightarrow> Inl (FilterReadError e)
              | Inr (bs, r2) \<Rightarrow> Inr (f\<lparr>pf_filter := bs\<rparr>, r2)))"

subsection \<open>Packages\<close>

datatype FwdState = FwdStateLockedIn | FwdStateProcessed | FwdStateCompleted

record FwdPkg =
  fp_Source :: ShortChannelID
  fp_Height :: u64
  fp_State :: FwdState
  fp_Adds :: "LogUpdate list"
  fp_FwdFilter :: PkgFilter
  fp_AckFilter :: PkgFilter
  fp_SettleFails :: "LogUpdate list"
  fp_SettleFailFilter :: PkgFilter

definition NewFwdPkg :: "ShortChannelID \<Rightarrow> u64 \<Rightarrow> LogUpdate list \<Rightarrow> LogUpdate list \<Rightarrow> FwdPkg" where
  "NewFwdPkg source h addUpdates settleFailUpdates =
     \<lparr>fp_Source = source, fp_Height = h, fp_State = FwdStateLockedIn, fp_Adds = addUpdates,
      fp_FwdFilter = NewPkgFilter (of_nat (length addUpdates)), fp_AckFilter = NewPkgFilter (of_nat (length addUpdates)),
      fp_SettleFails = settleFailUpdates, fp_SettleFailFilter = NewPkgFilter (of_nat (length settleFailUpdates))\<rparr>"

definition FwdPkg_ID :: "FwdPkg \<Rightarrow> bytes" where
  "FwdPkg_ID f = put_word 8 (ToUint64 (fp_Source f)) @ put_word 8 (fp_Height f)"

subsection \<open>The packager\<close>

text \<open>
  The bucket of one package, and the nested buckets by source and height. The root bucket may be
  missing. The updates of a package are keyed by their 16-bit position, which is their order.
\<close>

record PkgBucket =
  pb_adds :: "LogUpdate list"
  pb_ackFilter :: bytes
  pb_settleFails :: "LogUpdate list"
  pb_settleFailFilter :: bytes
  pb_fwdFilter :: "bytes option"

type_synonym SourceBucket = "u64 \<Rightarrow> PkgBucket option"
type_synonym FwdBucket = "(u64 \<Rightarrow> SourceBucket option) option"

definition sourceBucket :: "FwdBucket \<Rightarrow> ShortChannelID \<Rightarrow> SourceBucket option" where
  "sourceBucket bkt source = (case bkt of None \<Rightarrow> None | Some root \<Rightarrow> root (ToUint64 source))"

definition putSource :: "FwdBucket \<Rightarrow> ShortChannelID \<Rightarrow> SourceBucket \<Rightarrow> FwdBucket" where
  "putSource bkt source s =
     Some ((case bkt of None \<Rightarrow> Map.empty | Some root \<Rightarrow> root)(ToUint64 source \<mapsto> s))"

definition AddFwdPkg :: "FwdBucket \<Rightarrow> FwdPkg \<Rightarrow> FwdBucket" where
  "AddFwdPkg bkt fwdPkg =
     (let sourceBkt = (case sourceBucket bkt (fp_Source fwdPkg) of None \<Rightarrow> Map.empty | Some s \<Rightarrow> s);
          fwdFilter = (case sourceBkt (fp_Height fwdPkg) of None \<Rightarrow> None | Some p \<Rightarrow> pb_fwdFilter p);
          old = (case sourceBkt (fp_Height fwdPkg) of None \<Rightarrow> ([], []) | Some p \<Rightarrow> (pb_adds p, pb_settleFails p));
          pkg = \<lparr>pb_adds = fp_Adds fwdPkg @ drop (length (fp_Adds fwdPkg)) (fst old),
                 pb_ackFilter = PkgFilter_Encode (fp_AckFilter fwdPkg),
                 pb_settleFails = fp_SettleFails fwdPkg @ drop (length (fp_SettleFails fwdPkg)) (snd old),
                 pb_settleFailFilter = PkgFilter_Encode (fp_SettleFailFilter fwdPkg), pb_fwdFilter = fwdFilter\<rparr>
      in putSource bkt (fp_Source fwdPkg) (sourceBkt(fp_Height fwdPkg \<mapsto> pkg)))"

definition decodeFilter :: "bytes \<Rightarrow> fwd_error + PkgFilter" where
  "decodeFilter b = sbind (PkgFilter_Decode b) (\<lambda>(f, _). Inr f)"

definition loadFwdPkg :: "FwdBucket \<Rightarrow> ShortChannelID \<Rightarrow> u64 \<Rightarrow> fwd_error + FwdPkg" where
  "loadFwdPkg bkt source h =
     (case sourceBucket bkt source of
        None \<Rightarrow> Inl ErrCorruptedFwdPkg
      | Some sourceBkt \<Rightarrow>
          (case sourceBkt h of
             None \<Rightarrow> Inl ErrCorruptedFwdPkg
           | Some p \<Rightarrow>
               sbind (decodeFilter (pb_ackFilter p)) (\<lambda>ackFilter.
               sbind (decodeFilter (pb_settleFailFilter p)) (\<lambda>settleFailFilter.
                 let pkg = \<lparr>fp_Source = source, fp_Height = h, fp_State = FwdStateLockedIn, fp_Adds = pb_adds p,
                       fp_FwdFilter = NewPkgFilter (of_nat (length (pb_adds p))), fp_AckFilter = ackFilter,
                       fp_SettleFails = pb_settleFails p, fp_SettleFailFilter = settleFailFilter\<rparr>
                 in case pb_fwdFilter p of
                      None \<Rightarrow> Inr pkg
                    | Some b \<Rightarrow>
                        sbind (decodeFilter b) (\<lambda>fwdFilter.
                        sbind (IsFull ackFilter) (\<lambda>acked.
                          let pkg' = pkg\<lparr>fp_FwdFilter := fwdFilter, fp_State := FwdStateProcessed\<rparr>
                          in if \<not> acked then Inr pkg'
                             else sbind (IsFull settleFailFilter) (\<lambda>settled.
                               Inr (if settled then pkg'\<lparr>fp_State := FwdStateCompleted\<rparr> else pkg'))))))))"

definition SetFwdFilter :: "FwdBucket \<Rightarrow> ShortChannelID \<Rightarrow> u64 \<Rightarrow> PkgFilter \<Rightarrow> fwd_error + FwdBucket" where
  "SetFwdFilter bkt source h fwdFilter =
     (case sourceBucket bkt source of
        None \<Rightarrow> Inl ErrCorruptedFwdPkg
      | Some sourceBkt \<Rightarrow>
          (case sourceBkt h of
             None \<Rightarrow> Inl ErrCorruptedFwdPkg
           | Some p \<Rightarrow>
               if pb_fwdFilter p \<noteq> None then Inr bkt
               else Inr (putSource bkt source (sourceBkt(h \<mapsto> p\<lparr>pb_fwdFilter := Some (PkgFilter_Encode fwdFilter)\<rparr>)))))"

fun setAll :: "PkgFilter \<Rightarrow> u16 list \<Rightarrow> fwd_error + PkgFilter" where
  "setAll f [] = Inr f"
| "setAll f (i # is) = sbind (Set f i) (\<lambda>f'. setAll f' is)"

definition ackAddHtlcsAtHeight :: "SourceBucket \<Rightarrow> u64 \<Rightarrow> u16 list \<Rightarrow> fwd_error + SourceBucket" where
  "ackAddHtlcsAtHeight sourceBkt h indexes =
     (case sourceBkt h of
        None \<Rightarrow> Inr sourceBkt
      | Some p \<Rightarrow>
          sbind (decodeFilter (pb_ackFilter p)) (\<lambda>f.
          sbind (setAll f indexes) (\<lambda>f'. Inr (sourceBkt(h \<mapsto> p\<lparr>pb_ackFilter := PkgFilter_Encode f'\<rparr>)))))"

definition ackSettleFailsAtHeight :: "SourceBucket \<Rightarrow> u64 \<Rightarrow> u16 list \<Rightarrow> fwd_error + SourceBucket" where
  "ackSettleFailsAtHeight destBkt h indexes =
     (case destBkt h of
        None \<Rightarrow> Inr destBkt
      | Some p \<Rightarrow>
          sbind (decodeFilter (pb_settleFailFilter p)) (\<lambda>f.
          sbind (setAll f indexes) (\<lambda>f'. Inr (destBkt(h \<mapsto> p\<lparr>pb_settleFailFilter := PkgFilter_Encode f'\<rparr>)))))"

text \<open>
  The code groups the references by height (and destination) in a map and walks it in an unspecified
  order; the groups touch different buckets, so here each reference is acknowledged on its own, in
  the order of the list.
\<close>

fun ackAdds :: "SourceBucket \<Rightarrow> AddRef list \<Rightarrow> fwd_error + SourceBucket" where
  "ackAdds sourceBkt [] = Inr sourceBkt"
| "ackAdds sourceBkt (r # rs) =
     sbind (ackAddHtlcsAtHeight sourceBkt (ar_Height r) [ar_Index r]) (\<lambda>s. ackAdds s rs)"

definition AckAddHtlcs :: "FwdBucket \<Rightarrow> ShortChannelID \<Rightarrow> AddRef list \<Rightarrow> fwd_error + FwdBucket" where
  "AckAddHtlcs bkt source addRefs =
     (if addRefs = [] then Inr bkt
      else case sourceBucket bkt source of
        None \<Rightarrow> Inl ErrCorruptedFwdPkg
      | Some sourceBkt \<Rightarrow> sbind (ackAdds sourceBkt addRefs) (\<lambda>s. Inr (putSource bkt source s)))"

fun ackSettleFailRefs :: "FwdBucket \<Rightarrow> SettleFailRef list \<Rightarrow> fwd_error + FwdBucket" where
  "ackSettleFailRefs bkt [] = Inr bkt"
| "ackSettleFailRefs bkt (r # rs) =
     (case sourceBucket bkt (sfr_Source r) of
        None \<Rightarrow> ackSettleFailRefs bkt rs
      | Some destBkt \<Rightarrow>
          sbind (ackSettleFailsAtHeight destBkt (sfr_Height r) [sfr_Index r]) (\<lambda>d.
            ackSettleFailRefs (putSource bkt (sfr_Source r) d) rs))"

definition ackSettleFails :: "FwdBucket \<Rightarrow> SettleFailRef list \<Rightarrow> fwd_error + FwdBucket" where
  "ackSettleFails bkt refs =
     (if refs = [] then Inr bkt else if bkt = None then Inl ErrCorruptedFwdPkg else ackSettleFailRefs bkt refs)"

definition RemovePkg :: "FwdBucket \<Rightarrow> ShortChannelID \<Rightarrow> u64 \<Rightarrow> fwd_error + FwdBucket" where
  "RemovePkg bkt source h =
     (if bkt = None then Inr bkt
      else case sourceBucket bkt source of
        None \<Rightarrow> Inl ErrCorruptedFwdPkg
      | Some sourceBkt \<Rightarrow>
          if sourceBkt h = None then Inl BucketNotFound
          else Inr (putSource bkt source (sourceBkt(h := None))))"

definition Wipe :: "FwdBucket \<Rightarrow> ShortChannelID \<Rightarrow> FwdBucket" where
  "Wipe bkt source = map_option (\<lambda>root. root(ToUint64 source := None)) bkt"

section \<open>A filter is a set of indexes\<close>

text \<open>
  The contract of a set of indexes below a bound: what the operations return on an index in range,
  through an abstraction to a set of numbers.
\<close>

locale index_set =
  fixes new_set :: "u16 \<Rightarrow> 'f"
    and insert_op :: "'f \<Rightarrow> u16 \<Rightarrow> fwd_error + 'f"
    and member_op :: "'f \<Rightarrow> u16 \<Rightarrow> fwd_error + bool"
    and full_op :: "'f \<Rightarrow> fwd_error + bool"
    and set_inv :: "'f \<Rightarrow> bool"
    and bound :: "'f \<Rightarrow> nat"
    and abs :: "'f \<Rightarrow> nat set"
  assumes new_law: "unat c + 7 < 2 ^ 16 \<Longrightarrow> set_inv (new_set c) \<and> bound (new_set c) = unat c \<and> abs (new_set c) = {}"
    and insert_law: "set_inv f \<Longrightarrow> unat i < bound f \<Longrightarrow>
      \<exists>f'. insert_op f i = Inr f' \<and> set_inv f' \<and> bound f' = bound f \<and> abs f' = insert (unat i) (abs f)"
    and member_law: "set_inv f \<Longrightarrow> unat i < bound f \<Longrightarrow> member_op f i = Inr (unat i \<in> abs f)"
    and full_law: "set_inv f \<Longrightarrow> full_op f = Inr ({0..<bound f} \<subseteq> abs f)"
begin

fun insert_all :: "'f \<Rightarrow> u16 list \<Rightarrow> fwd_error + 'f" where
  "insert_all f [] = Inr f"
| "insert_all f (i # is) = sbind (insert_op f i) (\<lambda>f'. insert_all f' is)"

lemma insert_all_law:
  "set_inv f \<Longrightarrow> \<forall>i \<in> set is. unat i < bound f \<Longrightarrow>
     \<exists>f'. insert_all f is = Inr f' \<and> set_inv f' \<and> bound f' = bound f \<and> abs f' = unat ` set is \<union> abs f"
proof (induction "is" arbitrary: f)
  case (Cons i "is")
  then obtain f1 where f1: "insert_op f i = Inr f1" "set_inv f1" "bound f1 = bound f" "abs f1 = insert (unat i) (abs f)"
    using insert_law [of f i] by auto
  with Cons.IH [of f1] Cons.prems(2) show ?case by auto
qed simp

lemma full_after_inserts:
  assumes "unat c + 7 < 2 ^ 16" and "\<forall>i \<in> set is. unat i < unat c"
  shows "\<exists>f. insert_all (new_set c) is = Inr f \<and> set_inv f \<and> bound f = unat c
     \<and> full_op f = Inr (\<forall>i < unat c. of_nat i \<in> set is) \<and> (\<forall>i. unat i < unat c \<longrightarrow> member_op f i = Inr (i \<in> set is))"
proof -
  obtain f where f: "insert_all (new_set c) is = Inr f" "set_inv f" "bound f = unat c" "abs f = unat ` set is"
    using insert_all_law [of "new_set c" "is"] new_law [OF assms(1)] assms(2) by auto
  have conv: "i \<in> unat ` set is \<longleftrightarrow> of_nat i \<in> set is" if "i < unat c" for i
  proof -
    have "unat (of_nat i :: u16) = i" using that unat_lt [of c] by (simp add: unat_of_nat)
    then show ?thesis by (auto simp: image_iff intro!: bexI [of _ "of_nat i :: u16"])
  qed
  have "full_op f = Inr (\<forall>i < unat c. of_nat i \<in> set is)"
    using full_law [OF f(2)] f(3,4) conv by (auto simp: subset_eq)
  moreover have "member_op f i = Inr (i \<in> set is)" if "unat i < unat c" for i
    using member_law [OF f(2), of i] f(3,4) that by (auto simp: image_iff simp flip: word_unat_eq_iff)
  ultimately show ?thesis using f by blast
qed

end

definition filterSet :: "PkgFilter \<Rightarrow> nat set" where
  "filterSet f = {i. i < unat (pf_count f) \<and> bit (pf_filter f ! (i div 8)) (7 - i mod 8)}"

definition filter_inv :: "PkgFilter \<Rightarrow> bool" where
  "filter_inv f \<longleftrightarrow> unat (pf_count f) + 7 < 2 ^ 16 \<and> length (pf_filter f) = (unat (pf_count f) + 7) div 8"

lemma div_mod_8: "unat (i div 8 :: u16) = unat i div 8" "unat (i mod 8 :: u16) = unat i mod 8"
  by (simp_all add: unat_div unat_mod)

lemma filterLen: "unat c + 7 < 2 ^ 16 \<Longrightarrow> unat ((c + 7 :: u16) div 8) = (unat c + 7) div 8"
proof -
  assume "unat c + 7 < 2 ^ 16"
  then have "unat (c + 7) = unat c + 7" by (simp add: unat_add_lem [THEN iffD1])
  then show ?thesis by (simp add: unat_div)
qed

lemma bitMask_bit:
  assumes "unat b < 8"
  shows "bit (bitMask b) k \<longleftrightarrow> k = 7 - unat b"
proof -
  have "b \<le> 7" using assms by (simp add: word_le_nat_alt)
  then have "unat (7 - b) = 7 - unat b" by (simp add: unat_sub)
  then show ?thesis using assms by (auto simp: bitMask_def bit_simps)
qed

lemma and_bitMask: "unat b < 8 \<Longrightarrow> (w AND bitMask b \<noteq> 0) \<longleftrightarrow> bit w (7 - unat b)"
proof -
  assume b: "unat b < 8"
  have "(w AND bitMask b \<noteq> 0) \<longleftrightarrow> (\<exists>k < 8. bit w k \<and> bit (bitMask b) k)"
    by (auto simp: bit_eq_iff bit_and_iff)
  then show ?thesis using b by (auto simp: bitMask_bit)
qed

lemma full_byte: "(w :: u8) = 0xFF \<longleftrightarrow> (\<forall>k < 8. bit w k)"
proof -
  have "(0xFF :: u8) = mask 8" by (simp add: mask_eq_exp_minus_1)
  then show ?thesis by (auto simp: bit_eq_iff bit_simps)
qed

lemma filter_new:
  "unat c + 7 < 2 ^ 16 \<Longrightarrow> filter_inv (NewPkgFilter c) \<and> unat (pf_count (NewPkgFilter c)) = unat c \<and> filterSet (NewPkgFilter c) = {}"
  using filterLen [of c] by (auto simp: filter_inv_def filterSet_def NewPkgFilter_def nth_replicate)

lemma byte_in_range: "filter_inv f \<Longrightarrow> i < unat (pf_count f) \<Longrightarrow> i div 8 < length (pf_filter f)"
  unfolding filter_inv_def by linarith

lemma same_position: "(j :: nat) div 8 = m div 8 \<Longrightarrow> 7 - j mod 8 = 7 - m mod 8 \<Longrightarrow> j = m"
proof -
  assume a: "j div 8 = m div 8" "7 - j mod 8 = 7 - m mod 8"
  have "j mod 8 < 8" "m mod 8 < 8" by simp_all
  with a(2) have "j mod 8 = m mod 8" by linarith
  with a(1) show ?thesis by (metis div_mult_mod_eq)
qed

lemma filter_insert:
  assumes "filter_inv f" "unat i < unat (pf_count f)"
  shows "\<exists>f'. Set f i = Inr f' \<and> filter_inv f' \<and> unat (pf_count f') = unat (pf_count f) \<and> filterSet f' = insert (unat i) (filterSet f)"
proof -
  let ?n = "unat i div 8" and ?b = "i mod 8"
  let ?f = "f\<lparr>pf_filter := (pf_filter f)[?n := pf_filter f ! ?n OR bitMask ?b]\<rparr>"
  have n: "?n < length (pf_filter f)" using byte_in_range [OF assms] .
  have b: "unat ?b < 8" by (simp add: div_mod_8)
  have "bit (pf_filter ?f ! (j div 8)) (7 - j mod 8) \<longleftrightarrow> j = unat i \<or> bit (pf_filter f ! (j div 8)) (7 - j mod 8)" for j
  proof -
    have "j div 8 = ?n \<and> 7 - j mod 8 = 7 - unat i mod 8 \<longleftrightarrow> j = unat i" using same_position by blast
    then show ?thesis using n by (auto simp: nth_list_update bit_simps bitMask_bit [OF b] div_mod_8)
  qed
  then have "filterSet ?f = insert (unat i) (filterSet f)" using assms(2) by (auto simp: filterSet_def)
  moreover have "Set f i = Inr ?f" using n by (simp add: Set_def div_mod_8 Let_def)
  ultimately show ?thesis using assms(1) by (simp add: filter_inv_def)
qed

lemma filter_member: "filter_inv f \<Longrightarrow> unat i < unat (pf_count f) \<Longrightarrow> Contains f i = Inr (unat i \<in> filterSet f)"
  using byte_in_range [of f "unat i"] by (auto simp: Contains_def div_mod_8 Let_def and_bitMask filterSet_def)

lemma allBytes_iff:
  "\<forall>i \<in> set is. i < length bs \<Longrightarrow> allBytes bs is = Inr (\<forall>i \<in> set is. bs ! i = 0xFF)"
  by (induction "is") auto

lemma allBits_iff:
  "filter_inv f \<Longrightarrow> \<forall>i \<in> set is. i < unat (pf_count f) \<Longrightarrow> allBits f is = Inr (\<forall>i \<in> set is. i \<in> filterSet f)"
proof (induction "is")
  case (Cons i "is")
  have "unat (of_nat i :: u16) = i" using Cons.prems unat_lt [of "pf_count f"] by (simp add: unat_of_nat)
  with Cons filter_member [of f "of_nat i"] show ?case by auto
qed simp

lemma filter_full:
  assumes "filter_inv f"
  shows "IsFull f = Inr ({0..<unat (pf_count f)} \<subseteq> filterSet f)"
proof -
  let ?n = "unat (pf_count f)"
  have bytes: "allBytes (pf_filter f) [0..<?n div 8] = Inr (\<forall>i < ?n div 8. pf_filter f ! i = 0xFF)"
    using assms by (subst allBytes_iff) (auto simp: filter_inv_def)
  have bits: "allBits f [?n - ?n mod 8..<?n] = Inr (\<forall>i. ?n - ?n mod 8 \<le> i \<and> i < ?n \<longrightarrow> i \<in> filterSet f)"
    using allBits_iff [OF assms, of "[?n - ?n mod 8..<?n]"] by auto
  have "(\<forall>i < ?n div 8. pf_filter f ! i = 0xFF) \<longleftrightarrow> (\<forall>j < ?n - ?n mod 8. j \<in> filterSet f)"
  proof (intro iffI allI impI)
    fix j assume all: "\<forall>i < ?n div 8. pf_filter f ! i = 0xFF" and j: "j < ?n - ?n mod 8"
    have "j div 8 < ?n div 8" using j by (metis div_mult_mod_eq add_diff_cancel_right' less_mult_imp_div_less)
    then show "j \<in> filterSet f" using all j by (auto simp: filterSet_def full_byte)
  next
    fix i assume all: "\<forall>j < ?n - ?n mod 8. j \<in> filterSet f" and i: "i < ?n div 8"
    have "bit (pf_filter f ! i) k" if "k < 8" for k
    proof -
      define r where "r = 7 - k"
      have r: "r < 8" "7 - r = k" using that by (auto simp: r_def)
      have "8 * Suc i \<le> 8 * (?n div 8)" using i by simp
      then have "8 * i + r < ?n - ?n mod 8" using r(1) by (simp add: minus_mod_eq_mult_div)
      moreover have "(8 * i + r) div 8 = i" "7 - (8 * i + r) mod 8 = k" using r by simp_all
      ultimately show ?thesis using all by (metis (mono_tags, lifting) filterSet_def mem_Collect_eq)
    qed
    then show "pf_filter f ! i = 0xFF" by (simp add: full_byte)
  qed
  moreover have "{0..<?n} \<subseteq> filterSet f \<longleftrightarrow> (\<forall>j < ?n - ?n mod 8. j \<in> filterSet f)
      \<and> (\<forall>i. ?n - ?n mod 8 \<le> i \<and> i < ?n \<longrightarrow> i \<in> filterSet f)"
    by (auto simp: subset_eq) (metis not_less)
  ultimately show ?thesis using bytes bits by (simp add: IsFull_def Let_def)
qed

interpretation pkg_filter: index_set NewPkgFilter Set Contains IsFull filter_inv "\<lambda>f. unat (pf_count f)" filterSet
  by unfold_locales (fact filter_new filter_insert filter_member filter_full)+

lemma setAll_insert_all: "setAll f is = pkg_filter.insert_all f is"
  by (induction "is" arbitrary: f) simp_all

lemma filter_codec: "filter_inv f \<Longrightarrow> PkgFilter_Decode (PkgFilter_Encode f @ r) = Inr (f, r)"
  using filterLen [of "pf_count f"]
  by (simp add: PkgFilter_Decode_def PkgFilter_Encode_def PkgFilter_Size_def filter_inv_def Let_def)

lemma filter_decode: "filter_inv f \<Longrightarrow> decodeFilter (PkgFilter_Encode f) = Inr f"
  using filter_codec [of f "[]"] by (simp add: decodeFilter_def)

section \<open>The life of a package\<close>

text \<open>The package in the database: its filters are encodings of sets of the right size.\<close>

definition stored :: "FwdBucket \<Rightarrow> ShortChannelID \<Rightarrow> u64 \<Rightarrow> LogUpdate list \<Rightarrow> LogUpdate list \<Rightarrow> PkgFilter \<Rightarrow> PkgFilter \<Rightarrow> PkgFilter option \<Rightarrow> bool" where
  "stored bkt source h adds fails ack sf fwd \<longleftrightarrow>
     (\<exists>s. sourceBucket bkt source = Some s
        \<and> s h = Some \<lparr>pb_adds = adds, pb_ackFilter = PkgFilter_Encode ack, pb_settleFails = fails,
              pb_settleFailFilter = PkgFilter_Encode sf, pb_fwdFilter = map_option PkgFilter_Encode fwd\<rparr>)
     \<and> filter_inv ack \<and> filter_inv sf \<and> (\<forall>f. fwd = Some f \<longrightarrow> filter_inv f)
     \<and> unat (pf_count ack) = length adds \<and> unat (pf_count sf) = length fails"

lemma source_put [simp]: "sourceBucket (putSource bkt source s) source = Some s"
  by (simp add: sourceBucket_def putSource_def)

lemma stored_add:
  assumes "length adds + 7 < 2 ^ 16" "length fails + 7 < 2 ^ 16"
    and "\<And>s. sourceBucket bkt source = Some s \<Longrightarrow> s h = None"
  shows "stored (AddFwdPkg bkt (NewFwdPkg source h adds fails)) source h adds fails
     (NewPkgFilter (of_nat (length adds))) (NewPkgFilter (of_nat (length fails))) None"
proof -
  have "unat (of_nat (length adds) :: u16) = length adds" "unat (of_nat (length fails) :: u16) = length fails"
    using assms(1,2) by (simp_all add: unat_of_nat)
  then show ?thesis
    using assms filter_new [of "of_nat (length adds)"] filter_new [of "of_nat (length fails)"]
    by (auto simp: stored_def AddFwdPkg_def NewFwdPkg_def Let_def NewPkgFilter_def split: option.splits)
qed

lemma stored_ack:
  assumes "stored bkt source h adds fails ack sf fwd" and "\<forall>i \<in> set is. unat i < length adds"
  shows "\<exists>bkt' ack'. AckAddHtlcs bkt source (map (\<lambda>i. \<lparr>ar_Height = h, ar_Index = i\<rparr>) is) = Inr bkt'
     \<and> stored bkt' source h adds fails ack' sf fwd \<and> filterSet ack' = unat ` set is \<union> filterSet ack"
  using assms
proof -
  obtain s where s: "sourceBucket bkt source = Some s"
    "s h = Some \<lparr>pb_adds = adds, pb_ackFilter = PkgFilter_Encode ack, pb_settleFails = fails,
       pb_settleFailFilter = PkgFilter_Encode sf, pb_fwdFilter = map_option PkgFilter_Encode fwd\<rparr>"
    using assms(1) by (auto simp: stored_def)
  have "\<exists>s' ack'. ackAdds s (map (\<lambda>i. \<lparr>ar_Height = h, ar_Index = i\<rparr>) is) = Inr s'
      \<and> s' h = Some \<lparr>pb_adds = adds, pb_ackFilter = PkgFilter_Encode ack', pb_settleFails = fails,
           pb_settleFailFilter = PkgFilter_Encode sf, pb_fwdFilter = map_option PkgFilter_Encode fwd\<rparr>
      \<and> filter_inv ack' \<and> unat (pf_count ack') = length adds \<and> filterSet ack' = unat ` set is \<union> filterSet ack"
    if "s h = Some \<lparr>pb_adds = adds, pb_ackFilter = PkgFilter_Encode ack, pb_settleFails = fails,
           pb_settleFailFilter = PkgFilter_Encode sf, pb_fwdFilter = map_option PkgFilter_Encode fwd\<rparr>"
      "filter_inv ack" "unat (pf_count ack) = length adds" "\<forall>i \<in> set is. unat i < length adds" for s ack "is"
    using that
  proof (induction "is" arbitrary: s ack)
    case (Cons i "is")
    obtain f where f: "Set ack i = Inr f" "filter_inv f" "unat (pf_count f) = length adds" "filterSet f = insert (unat i) (filterSet ack)"
      using filter_insert [of ack i] Cons.prems by auto
    let ?p = "\<lambda>f. \<lparr>pb_adds = adds, pb_ackFilter = PkgFilter_Encode f, pb_settleFails = fails,
        pb_settleFailFilter = PkgFilter_Encode sf, pb_fwdFilter = map_option PkgFilter_Encode fwd\<rparr>"
    have "\<exists>s' ack'. ackAdds (s(h \<mapsto> ?p f)) (map (\<lambda>i. \<lparr>ar_Height = h, ar_Index = i\<rparr>) is) = Inr s' \<and> s' h = Some (?p ack')
        \<and> filter_inv ack' \<and> unat (pf_count ack') = length adds \<and> filterSet ack' = unat ` set is \<union> filterSet f"
      by (rule Cons.IH) (use f(2,3) Cons.prems(4) in auto)
    moreover have "ackAddHtlcsAtHeight s h [i] = Inr (s(h \<mapsto> ?p f))"
      using Cons.prems(1,2) f(1) by (simp add: ackAddHtlcsAtHeight_def filter_decode)
    ultimately show ?case using f(4) by simp
  qed auto
  from this [of s ack "is"] assms s show ?thesis
    by (cases "is") (fastforce simp: stored_def AckAddHtlcs_def)+
qed

lemma load_stored:
  assumes "stored bkt source h adds fails ack sf fwd"
  shows "\<exists>p. loadFwdPkg bkt source h = Inr p \<and> fp_Adds p = adds \<and> fp_SettleFails p = fails \<and> fp_AckFilter p = ack
     \<and> fp_SettleFailFilter p = sf
     \<and> fp_State p = (if fwd = None then FwdStateLockedIn
         else if {0..<length adds} \<subseteq> filterSet ack \<and> {0..<length fails} \<subseteq> filterSet sf then FwdStateCompleted
         else FwdStateProcessed)"
proof (cases fwd)
  case None
  then show ?thesis using assms by (auto simp: stored_def loadFwdPkg_def filter_decode Let_def)
next
  case (Some f)
  have ok: "IsFull ack = Inr ({0..<length adds} \<subseteq> filterSet ack)" "IsFull sf = Inr ({0..<length fails} \<subseteq> filterSet sf)"
    using assms filter_full [of ack] filter_full [of sf] by (simp_all add: stored_def)
  obtain s where s: "sourceBucket bkt source = Some s" "filter_inv ack" "filter_inv sf" "filter_inv f"
    "s h = Some \<lparr>pb_adds = adds, pb_ackFilter = PkgFilter_Encode ack, pb_settleFails = fails,
       pb_settleFailFilter = PkgFilter_Encode sf, pb_fwdFilter = Some (PkgFilter_Encode f)\<rparr>"
    using assms Some by (auto simp: stored_def)
  show ?thesis
    by (cases "{0..<length adds} \<subseteq> filterSet ack"; cases "{0..<length fails} \<subseteq> filterSet sf")
      (simp_all add: loadFwdPkg_def s filter_decode Let_def ok Some)
qed

lemma stored_ackSettleFails:
  assumes "stored bkt source h adds fails ack sf fwd" and "\<forall>i \<in> set is. unat i < length fails"
  shows "\<exists>bkt' sf'. ackSettleFails bkt (map (\<lambda>i. \<lparr>sfr_Source = source, sfr_Height = h, sfr_Index = i\<rparr>) is) = Inr bkt'
     \<and> stored bkt' source h adds fails ack sf' fwd \<and> filterSet sf' = unat ` set is \<union> filterSet sf"
proof -
  have "\<exists>bkt' sf'. ackSettleFailRefs bkt (map (\<lambda>i. \<lparr>sfr_Source = source, sfr_Height = h, sfr_Index = i\<rparr>) is) = Inr bkt'
     \<and> stored bkt' source h adds fails ack sf' fwd \<and> filterSet sf' = unat ` set is \<union> filterSet sf"
    using assms
  proof (induction "is" arbitrary: bkt sf)
    case (Cons i "is")
    obtain f where f: "Set sf i = Inr f" "filter_inv f" "unat (pf_count f) = length fails" "filterSet f = insert (unat i) (filterSet sf)"
      using filter_insert [of sf i] Cons.prems by (auto simp: stored_def)
    obtain s where s: "sourceBucket bkt source = Some s" "filter_inv sf"
      "s h = Some \<lparr>pb_adds = adds, pb_ackFilter = PkgFilter_Encode ack, pb_settleFails = fails,
         pb_settleFailFilter = PkgFilter_Encode sf, pb_fwdFilter = map_option PkgFilter_Encode fwd\<rparr>"
      using Cons.prems(1) by (auto simp: stored_def)
    let ?s = "s(h \<mapsto> \<lparr>pb_adds = adds, pb_ackFilter = PkgFilter_Encode ack, pb_settleFails = fails,
         pb_settleFailFilter = PkgFilter_Encode f, pb_fwdFilter = map_option PkgFilter_Encode fwd\<rparr>)"
    have "ackSettleFailsAtHeight s h [i] = Inr ?s" using s(2,3) f(1) by (simp add: ackSettleFailsAtHeight_def filter_decode)
    moreover have "stored (putSource bkt source ?s) source h adds fails ack f fwd"
      using Cons.prems(1) f(2,3) by (auto simp: stored_def)
    ultimately show ?case using Cons.IH [of "putSource bkt source ?s" f] Cons.prems(2) s(1) f(4) by auto
  qed auto
  moreover have "bkt \<noteq> None" using assms(1) by (auto simp: stored_def sourceBucket_def split: option.splits)
  ultimately show ?thesis using assms(1) by (cases "is") (auto simp: ackSettleFails_def)
qed

lemma stored_setFwd:
  assumes "stored bkt source h adds fails ack sf None" "filter_inv f"
  shows "\<exists>bkt'. SetFwdFilter bkt source h f = Inr bkt' \<and> stored bkt' source h adds fails ack sf (Some f)"
  using assms by (auto simp: stored_def SetFwdFilter_def)

section \<open>Properties\<close>

text \<open>
  C29. A filter implements a set of indexes: after any indexes below its size have been set on a new
  filter, exactly these are contained, it is full exactly when every index was set, and its
  encoding is decoded to the same filter.
\<close>

theorem filter_implements_set:
  assumes "unat c + 7 < 2 ^ 16" and "\<forall>i \<in> set is. unat i < unat c"
  shows "\<exists>f. setAll (NewPkgFilter c) is = Inr f \<and> (\<forall>i. unat i < unat c \<longrightarrow> Contains f i = Inr (i \<in> set is))
     \<and> IsFull f = Inr (\<forall>i < unat c. of_nat i \<in> set is) \<and> PkgFilter_Decode (PkgFilter_Encode f @ r) = Inr (f, r)"
  using pkg_filter.full_after_inserts [OF assms] filter_codec unfolding setAll_insert_all by blast

theorem filter_implements_set_witness:
  "\<exists>f. setAll (NewPkgFilter 10) [3, 9] = Inr f \<and> Contains f 9 = Inr True \<and> Contains f 8 = Inr False"
proof -
  obtain f where f: "setAll (NewPkgFilter 10) [3, 9] = Inr f" "\<forall>i. unat i < unat (10 :: u16) \<longrightarrow> Contains f i = Inr (i \<in> set [3, 9])"
    using filter_implements_set [of 10 "[3, 9]" "[]"] by auto
  from f(2) have "Contains f 9 = Inr ((9 :: u16) \<in> set [3, 9])" "Contains f 8 = Inr ((8 :: u16) \<in> set [3, 9])"
    by (simp_all del: list.set)
  with f(1) show ?thesis by auto
qed

text \<open>
  C28. The life of a forwarding package: a package that is written to a free height is loaded with the
  same updates; it stays locked in until the forwarding decision is written, and from then on it is
  complete exactly when every add and every settle or fail has been acknowledged.
\<close>

theorem package_completion:
  assumes size: "length adds + 7 < 2 ^ 16" "length fails + 7 < 2 ^ 16"
    and free: "\<And>s. sourceBucket bkt source = Some s \<Longrightarrow> s h = None" and fwd: "filter_inv fwd"
    and acks: "\<forall>i \<in> set is. unat i < length adds" "\<forall>j \<in> set js. unat j < length fails"
  shows "\<exists>b1 b2 b3 p0 p1. AckAddHtlcs (AddFwdPkg bkt (NewFwdPkg source h adds fails)) source (map (\<lambda>i. \<lparr>ar_Height = h, ar_Index = i\<rparr>) is) = Inr b1
     \<and> ackSettleFails b1 (map (\<lambda>i. \<lparr>sfr_Source = source, sfr_Height = h, sfr_Index = i\<rparr>) js) = Inr b2
     \<and> loadFwdPkg b2 source h = Inr p0 \<and> fp_State p0 = FwdStateLockedIn \<and> fp_Adds p0 = adds \<and> fp_SettleFails p0 = fails
     \<and> SetFwdFilter b2 source h fwd = Inr b3 \<and> loadFwdPkg b3 source h = Inr p1 \<and> fp_Adds p1 = adds
     \<and> fp_State p1 = (if (\<forall>i < length adds. i \<in> unat ` set is) \<and> (\<forall>j < length fails. j \<in> unat ` set js)
         then FwdStateCompleted else FwdStateProcessed)"
proof -
  let ?new = "\<lambda>xs. NewPkgFilter (of_nat (length xs))"
  have empty: "filterSet (?new adds) = {}" "filterSet (?new fails) = {}"
    using filter_new [of "of_nat (length adds)"] filter_new [of "of_nat (length fails)"] size by (simp_all add: unat_of_nat)
  obtain b1 ack where b1: "AckAddHtlcs (AddFwdPkg bkt (NewFwdPkg source h adds fails)) source (map (\<lambda>i. \<lparr>ar_Height = h, ar_Index = i\<rparr>) is) = Inr b1"
    "stored b1 source h adds fails ack (?new fails) None" "filterSet ack = unat ` set is"
    using stored_ack [OF stored_add [OF size, of bkt source h] acks(1)] free empty by auto
  obtain b2 sf where b2: "ackSettleFails b1 (map (\<lambda>i. \<lparr>sfr_Source = source, sfr_Height = h, sfr_Index = i\<rparr>) js) = Inr b2"
    "stored b2 source h adds fails ack sf None" "filterSet sf = unat ` set js"
    using stored_ackSettleFails [OF b1(2) acks(2)] empty by auto
  obtain b3 where b3: "SetFwdFilter b2 source h fwd = Inr b3" "stored b3 source h adds fails ack sf (Some fwd)"
    using stored_setFwd [OF b2(2) fwd] by blast
  obtain p0 where p0: "loadFwdPkg b2 source h = Inr p0" "fp_State p0 = FwdStateLockedIn" "fp_Adds p0 = adds" "fp_SettleFails p0 = fails"
    using load_stored [OF b2(2)] by auto
  have sub: "{0..<n} \<subseteq> X \<longleftrightarrow> (\<forall>i < n. i \<in> X)" for n and X :: "nat set" by auto
  obtain p1 where "loadFwdPkg b3 source h = Inr p1" "fp_Adds p1 = adds"
    "fp_State p1 = (if (\<forall>i < length adds. i \<in> unat ` set is) \<and> (\<forall>j < length fails. j \<in> unat ` set js)
         then FwdStateCompleted else FwdStateProcessed)"
    using load_stored [OF b3(2)] by (auto simp only: b1(3) b2(3) sub option.simps if_False)
  with b1(1) b2(1) b3(1) p0 show ?thesis by blast
qed

definition sampleUpdate :: LogUpdate where
  "sampleUpdate = \<lparr>lu_LogIndex = 3, lu_UpdateMsg = MsgUpdateFulfillHTLC
     \<lparr>ufh_ChanID = replicate 32 0, ufh_ID = 1, ufh_PaymentPreimage = replicate 32 7, ufh_ExtraData = []\<rparr>\<rparr>"

theorem package_completion_witness:
  "\<exists>b1 b2 b3 p1. AckAddHtlcs (AddFwdPkg None (NewFwdPkg \<lparr>BlockHeight = 1, TxIndex = 2, TxPosition = 3\<rparr> 7 [] [sampleUpdate]))
       \<lparr>BlockHeight = 1, TxIndex = 2, TxPosition = 3\<rparr> [] = Inr b1
     \<and> ackSettleFails b1 [\<lparr>sfr_Source = \<lparr>BlockHeight = 1, TxIndex = 2, TxPosition = 3\<rparr>, sfr_Height = 7, sfr_Index = 0\<rparr>] = Inr b2
     \<and> SetFwdFilter b2 \<lparr>BlockHeight = 1, TxIndex = 2, TxPosition = 3\<rparr> 7 (NewPkgFilter 0) = Inr b3
     \<and> loadFwdPkg b3 \<lparr>BlockHeight = 1, TxIndex = 2, TxPosition = 3\<rparr> 7 = Inr p1 \<and> fp_State p1 = FwdStateCompleted"
proof -
  have "filter_inv (NewPkgFilter 0)" using filter_new [of 0] by simp
  from package_completion [of "[]" "[sampleUpdate]" None "\<lparr>BlockHeight = 1, TxIndex = 2, TxPosition = 3\<rparr>" 7, OF _ _ _ this, of "[]" "[0]"]
  show ?thesis by (simp add: sourceBucket_def) blast
qed

end
