(* ===== verification/Commit_Dance.thy ===== *)
theory Commit_Dance
  imports Second_Level Fwd_Pkg Shachain_Store
begin

text \<open>
  The commitment dance (\<open>src/oblnd/lnwallet/channel.go\<close>: \<open>toDiskCommit\<close>, \<open>createCommitDiff\<close>,
  \<open>getUnsignedAckedUpdates\<close>, \<open>unsignedLocalUpdates\<close>, \<open>generateRevocation\<close>, \<open>SignNextCommitment\<close>,
  \<open>ReceiveNewCommitment\<close>, \<open>RevokeCurrentCommitment\<close>, \<open>ReceiveRevocation\<close>, \<open>ProcessChanSyncMsg\<close>) with
  the database operations that it calls (\<open>src/oblnd/channeldb/channel.go\<close>: \<open>AppendRemoteCommitChain\<close>,
  \<open>UpdateCommitment\<close>, \<open>AdvanceCommitChainTail\<close>, \<open>RemoteCommitChainTip\<close>). The bucket of the channel is
  a record; a transaction either commits all its writes or none, and whether the engine commits is
  a parameter.
\<close>

section \<open>The model\<close>

subsection \<open>The disk format of a commitment\<close>

definition diskHtlc :: "bool \<Rightarrow> bool \<Rightarrow> PaymentDescriptor \<Rightarrow> HTLC" where
  "diskHtlc ourCommit incoming htlc =
     \<lparr>h_Signature = (if ourCommit then (case pd_sig htlc of None \<Rightarrow> [] | Some s \<Rightarrow> s) else []),
      h_RHash = RHash htlc, h_AssetId = 0, h_BtcAmt = BtcAmount htlc, h_AssetAmt = AssetAmount htlc,
      h_RefundTimeout = Timeout htlc,
      h_OutputIndex = (if ourCommit then localOutputIndex htlc else remoteOutputIndex htlc),
      h_Incoming = incoming, h_OnionBlob = OnionBlob htlc, h_HtlcIndex = HtlcIndex htlc, h_LogIndex = LogIndex htlc\<rparr>"

definition toDiskCommit :: "commitment \<Rightarrow> bool \<Rightarrow> ChannelCommitment" where
  "toDiskCommit c ourCommit =
     \<lparr>CommitHeight = height c, LocalLogIndex = ourMessageIndex c, LocalHtlcIndex = ourHtlcIndex c,
      RemoteLogIndex = theirMessageIndex c, RemoteHtlcIndex = theirHtlcIndex c,
      LocalBtcBalance = ourBtcBalance c, RemoteBtcBalance = theirBtcBalance c,
      LocalAssetBalance = ourAssetBalance c, RemoteAssetBalance = theirAssetBalance c,
      CommitFee = fee c, FeePerKw = feePerKw c, CommitTx = txn c, ChannelCommitment.CommitSig = c_sig c,
      Htlcs = map (diskHtlc ourCommit False) (outgoingHTLCs c) @ map (diskHtlc ourCommit True) (incomingHTLCs c)\<rparr>"

subsection \<open>Log updates\<close>

text \<open>The onion blob of a message has a fixed size; \<open>copy\<close> cuts or pads.\<close>

definition copyOnion :: "bytes \<Rightarrow> bytes" where
  "copyOnion b = take OnionPacketSize b @ replicate (OnionPacketSize - length b) 0"

definition updateMessage :: "ChannelID \<Rightarrow> PaymentDescriptor \<Rightarrow> UpdateMsg" where
  "updateMessage chanID pd =
     (case EntryType pd of
        Add \<Rightarrow> MsgUpdateAddHTLC
          \<lparr>uah_ChanID = chanID, uah_ID = HtlcIndex pd, uah_AssetID = AssetID pd, uah_Amount = GetHtlcAmt pd,
           uah_PaymentHash = RHash pd, uah_Expiry = Timeout pd, uah_OnionBlob = copyOnion (OnionBlob pd), uah_ExtraData = []\<rparr>
      | Settle \<Rightarrow> MsgUpdateFulfillHTLC
          \<lparr>ufh_ChanID = chanID, ufh_ID = ParentIndex pd, ufh_PaymentPreimage = RPreimage pd, ufh_ExtraData = []\<rparr>
      | Fail \<Rightarrow> MsgUpdateFailHTLC
          \<lparr>ufl_ChanID = chanID, ufl_ID = ParentIndex pd, ufl_Reason = FailReason pd, ufl_ExtraData = []\<rparr>
      | MalformedFail \<Rightarrow> MsgUpdateFailMalformedHTLC
          \<lparr>ufm_ChanID = chanID, ufm_ID = ParentIndex pd, ufm_ShaOnionBlob = ShaOnionBlob pd,
           ufm_FailureCode = FailCode pd, ufm_ExtraData = []\<rparr>
      | FeeUpdate \<Rightarrow> MsgUpdateFee
          \<lparr>uf_ChanID = chanID, uf_AssetID = AssetID pd, uf_FeePerKw = ucast (ToSatoshis (BtcAmount pd)), uf_ExtraData = []\<rparr>)"

definition logUpdate :: "ChannelID \<Rightarrow> PaymentDescriptor \<Rightarrow> LogUpdate" where
  "logUpdate chanID pd = \<lparr>lu_LogIndex = LogIndex pd, lu_UpdateMsg = updateMessage chanID pd\<rparr>"

text \<open>
  A log update is stored in its wire encoding. The encoding of a fee update has no asset, so the
  asset is zero when it is read back.
\<close>

definition storeUpdate :: "LogUpdate \<Rightarrow> LogUpdate" where
  "storeUpdate u =
     (case lu_UpdateMsg u of MsgUpdateFee m \<Rightarrow> u\<lparr>lu_UpdateMsg := MsgUpdateFee (m\<lparr>uf_AssetID := 0\<rparr>)\<rparr> | _ \<Rightarrow> u)"

record CommitDiff =
  cd_Commitment :: ChannelCommitment
  cd_LogUpdates :: "LogUpdate list"
  cd_CommitSig :: Lnwire_Messages.CommitSig
  cd_OpenedCircuitKeys :: "CircuitKey list"
  cd_ClosedCircuitKeys :: "CircuitKey list"
  cd_AddAcks :: "AddRef list"
  cd_SettleFailAcks :: "SettleFailRef list"

text \<open>The two lists of references are not serialized.\<close>

definition storeDiff :: "CommitDiff \<Rightarrow> CommitDiff" where
  "storeDiff d = d\<lparr>cd_LogUpdates := map storeUpdate (cd_LogUpdates d), cd_AddAcks := [], cd_SettleFailAcks := []\<rparr>"

definition createCommitDiff :: "LightningChannel \<Rightarrow> ChannelID \<Rightarrow> commitment \<Rightarrow> Sig \<Rightarrow> Sig list \<Rightarrow> CommitDiff" where
  "createCommitDiff lc chanID newCommit commitSig htlcSigs =
     (let pds = filter (\<lambda>pd. addCommitHeightRemote pd = height newCommit \<or> removeCommitHeightRemote pd = height newCommit)
                  (map snd (entries (localUpdateLog lc)));
          adds = filter (\<lambda>pd. EntryType pd = Add) pds;
          others = filter (\<lambda>pd. EntryType pd \<noteq> Add) pds
      in \<lparr>cd_Commitment = toDiskCommit newCommit False, cd_LogUpdates = map (logUpdate chanID) pds,
          cd_CommitSig = \<lparr>cs_ChanID = chanID, cs_CommitSig = commitSig, cs_HtlcSigs = htlcSigs, cs_ExtraData = []\<rparr>,
          cd_OpenedCircuitKeys = List.map_filter OpenCircuitKey adds,
          cd_ClosedCircuitKeys = List.map_filter ClosedCircuitKey others,
          cd_AddAcks = List.map_filter SourceRef others, cd_SettleFailAcks = List.map_filter DestRef others\<rparr>)"

definition getUnsignedAckedUpdates :: "LightningChannel \<Rightarrow> ChannelID \<Rightarrow> LogUpdate list" where
  "getUnsignedAckedUpdates lc chanID =
     (let lastRemoteCommitted = theirMessageIndex (tail (remoteCommitChain lc));
          lastLocalCommitted = theirMessageIndex (tail (localCommitChain lc))
      in map (logUpdate chanID)
           (filter (\<lambda>pd. \<not> LogIndex pd < lastRemoteCommitted \<and> \<not> LogIndex pd \<ge> lastLocalCommitted)
             (map snd (entries (remoteUpdateLog lc)))))"

definition unsignedLocalUpdates :: "LightningChannel \<Rightarrow> u64 \<Rightarrow> u64 \<Rightarrow> ChannelID \<Rightarrow> LogUpdate list" where
  "unsignedLocalUpdates lc remoteMessageIndex localMessageIndex chanID =
     map (logUpdate chanID)
       (filter (\<lambda>pd. EntryType pd \<noteq> Add \<and> LogIndex pd < remoteMessageIndex \<and> LogIndex pd \<ge> localMessageIndex)
         (map snd (entries (localUpdateLog lc))))"

subsection \<open>The state of a channel and its bucket\<close>

type_synonym ChannelStatus = u8

definition ChanStatusRestored :: ChannelStatus where
  "ChanStatusRestored = 8"

definition hasChanStatus :: "ChannelStatus \<Rightarrow> ChannelStatus \<Rightarrow> bool" where
  "hasChanStatus chanStatus status = (if status = 0 then chanStatus = 0 else chanStatus AND status = status)"

record 'pk ChanBucket =
  db_chanStatus :: ChannelStatus
  db_chanInfo :: OpenChannel
  db_localCommitment :: ChannelCommitment
  db_remoteCommitment :: ChannelCommitment
  db_commitDiff :: "CommitDiff option"
  db_unsignedAckedUpdates :: "LogUpdate list option"
  db_remoteUnsignedLocalUpdates :: "LogUpdate list option"
  db_lastWasRevoke :: bool
  db_revocationState :: "RevocationStore \<times> 'pk option \<times> 'pk option"
  db_revocationLog :: "u64 \<Rightarrow> ChannelCommitment option"
  db_fwdPkgs :: FwdBucket

text \<open>
  The channel: the state machine with the part of \<open>OpenChannel\<close> that it reads, the keys, the two
  halves of the revocation protocol, and the bucket. \<open>LastWasRevoke\<close> is read from disk when the
  channel is loaded.
\<close>

record 'pk Chan =
  ch_lc :: LightningChannel
  ch_builder :: CommitmentBuilder
  ch_signDesc :: "'pk SignDescriptor"
  ch_localKeys :: "'pk ChannelKeys"
  ch_remoteKeys :: "'pk ChannelKeys"
  RemoteCurrentRevocation :: "'pk option"
  RemoteNextRevocation :: "'pk option"
  ch_producer :: RevocationProducer
  ch_store :: RevocationStore
  chanStatus :: ChannelStatus
  LastWasRevoke :: bool
  ch_db :: "'pk ChanBucket"

record 'pk Env =
  env_lib :: "'pk ScriptLib"
  env_sl :: "'pk SigLib"
  env_cv :: "'pk Curve"
  env_dbCommits :: bool

definition chanIDOf :: "'pk Chan \<Rightarrow> ChannelID" where
  "chanIDOf ch =
     (let op = cb_FundingOutpoint (ch_builder ch)
      in NewChanIDFromOutPoint \<lparr>wop_Hash = op_Hash op, wop_Index = op_Index op\<rparr>)"

datatype db_error = ErrNoRestoredChannelMutation | ErrChanBorked | ErrNoPendingCommit | DiffReadError | DbFwdError fwd_error | DbFailure

datatype 'pk dance_error =
    ErrNoWindow
  | DanceChannel channel_error
  | DanceCommit commit_error
  | DanceSig sig_error
  | DanceShachain shachain_error
  | DanceDb db_error
  | InvalidCommitSig u64
  | InvalidHtlcSig u64 u64
  | RevocationKeyMismatch
  | NilPointPanic
  | NilCommitmentPanic
  | CompactPanic
  | ErrInvalidLastCommitSecret
  | ErrCannotSyncCommitChains
  | ErrCommitSyncLocalDataLoss "'pk option"
  | ErrCommitSyncRemoteDataLoss
  | ErrInvalidLocalUnrevokedCommitPoint

subsection \<open>Database transactions\<close>

definition inTransaction :: "'pk Env \<Rightarrow> 'pk Chan \<Rightarrow> (db_error + 'pk ChanBucket) \<Rightarrow> db_error + 'pk ChanBucket" where
  "inTransaction env ch r =
     (if hasChanStatus (chanStatus ch) ChanStatusRestored then Inl ErrNoRestoredChannelMutation
      else if db_chanStatus (ch_db ch) \<noteq> 0 then Inl ErrChanBorked
      else sbind r (\<lambda>db. if env_dbCommits env then Inr db else Inl DbFailure))"

definition liftFwd :: "fwd_error + 'a \<Rightarrow> db_error + 'a" where
  "liftFwd r = (case r of Inl e \<Rightarrow> Inl (DbFwdError e) | Inr x \<Rightarrow> Inr x)"

definition AppendRemoteCommitChain :: "'pk Env \<Rightarrow> 'pk Chan \<Rightarrow> CommitDiff \<Rightarrow> db_error + 'pk Chan" where
  "AppendRemoteCommitChain env ch diff =
     (let db = ch_db ch; source = ShortChanID (channelState (ch_lc ch))
      in sbind (inTransaction env ch
           (sbind (liftFwd (AckAddHtlcs (db_fwdPkgs db) source (cd_AddAcks diff))) (\<lambda>f1.
            sbind (liftFwd (ackSettleFails f1 (cd_SettleFailAcks diff))) (\<lambda>f2.
              Inr (db\<lparr>db_fwdPkgs := f2, db_lastWasRevoke := False, db_commitDiff := Some (storeDiff diff)\<rparr>)))))
           (\<lambda>db'. Inr (ch\<lparr>ch_db := db'\<rparr>)))"

definition RemoteCommitChainTip :: "'pk Chan \<Rightarrow> db_error + CommitDiff" where
  "RemoteCommitChainTip ch = (case db_commitDiff (ch_db ch) of None \<Rightarrow> Inl ErrNoPendingCommit | Some d \<Rightarrow> Inr d)"

definition UpdateCommitment :: "'pk Env \<Rightarrow> 'pk Chan \<Rightarrow> ChannelCommitment \<Rightarrow> LogUpdate list \<Rightarrow> db_error + 'pk Chan" where
  "UpdateCommitment env ch newCommitment unsignedAckedUpdates =
     (let db = ch_db ch; lc = ch_lc ch
      in sbind (inTransaction env ch
           (Inr (db\<lparr>db_chanInfo := channelState lc, db_localCommitment := newCommitment,
                   db_unsignedAckedUpdates := Some (map storeUpdate unsignedAckedUpdates), db_lastWasRevoke := True,
                   db_remoteUnsignedLocalUpdates :=
                     map_option (filter (\<lambda>u. lu_LogIndex u \<ge> LocalLogIndex newCommitment)) (db_remoteUnsignedLocalUpdates db)\<rparr>)))
           (\<lambda>db'. Inr (ch\<lparr>ch_db := db', ch_lc := lc\<lparr>channelState := (channelState lc)\<lparr>LocalCommitment := newCommitment\<rparr>\<rparr>\<rparr>)))"

definition AdvanceCommitChainTail :: "'pk Env \<Rightarrow> 'pk Chan \<Rightarrow> FwdPkg \<Rightarrow> LogUpdate list \<Rightarrow> db_error + 'pk Chan" where
  "AdvanceCommitChainTail env ch fwdPkg updates =
     (let db = ch_db ch; lc = ch_lc ch; old = RemoteCommitment (channelState lc)
      in case db_commitDiff db of
           None \<Rightarrow> sbind (inTransaction env ch (Inl DiffReadError)) (\<lambda>_. Inr ch)
         | Some newCommit \<Rightarrow>
             sbind (inTransaction env ch
               (let db1 = db\<lparr>db_revocationState := (ch_store ch, RemoteCurrentRevocation ch, RemoteNextRevocation ch),
                            db_remoteCommitment := cd_Commitment newCommit, db_commitDiff := None,
                            db_revocationLog := (db_revocationLog db)(CommitHeight old \<mapsto> old),
                            db_fwdPkgs := AddFwdPkg (db_fwdPkgs db)
                              (fwdPkg\<lparr>fp_Adds := map storeUpdate (fp_Adds fwdPkg), fp_SettleFails := map storeUpdate (fp_SettleFails fwdPkg)\<rparr>)\<rparr>
                in case db_unsignedAckedUpdates db of
                     None \<Rightarrow> Inr db1
                   | Some acked \<Rightarrow>
                       Inr (db1\<lparr>db_unsignedAckedUpdates :=
                                  Some (filter (\<lambda>u. lu_LogIndex u \<ge> RemoteLogIndex (cd_Commitment newCommit)) acked),
                                db_remoteUnsignedLocalUpdates := Some (map storeUpdate updates)\<rparr>)))
               (\<lambda>db'. Inr (ch\<lparr>ch_db := db',
                  ch_lc := lc\<lparr>channelState := (channelState lc)\<lparr>RemoteCommitment := cd_Commitment newCommit\<rparr>\<rparr>\<rparr>)))"

definition InsertNextRevocation :: "'pk Env \<Rightarrow> 'pk Chan \<Rightarrow> 'pk \<Rightarrow> 'pk Chan \<times> (db_error + unit)" where
  "InsertNextRevocation env ch revKey =
     (let ch1 = ch\<lparr>RemoteNextRevocation := Some revKey\<rparr>
      in if env_dbCommits env
         then (ch1\<lparr>ch_db := (ch_db ch)\<lparr>db_revocationState := (ch_store ch, RemoteCurrentRevocation ch, Some revKey)\<rparr>\<rparr>, Inr ())
         else (ch1, Inl DbFailure))"

subsection \<open>Signing the next remote commitment\<close>

text \<open>
  An operation returns the channel it leaves behind and its result: a failing operation may already
  have changed the memory, for example the heights of the updates.
\<close>

definition liftDance :: "('e \<Rightarrow> 'pk dance_error) \<Rightarrow> 'e + 'a \<Rightarrow> 'pk dance_error + 'a" where
  "liftDance f r = (case r of Inl e \<Rightarrow> Inl (f e) | Inr x \<Rightarrow> Inr x)"

definition signCommitment :: "'pk Env \<Rightarrow> 'pk Chan \<Rightarrow> 'pk CommitmentKeyRing \<Rightarrow> commitment \<Rightarrow> sig_error + Sig \<times> Sig list" where
  "signCommitment env ch k newCommitView =
     (let cs = channelState (ch_lc ch); sl = env_sl env
      in sbind (genRemoteHtlcSigJobs (env_lib env) sl k (ChanType cs) (\<not> IsInitiator cs) (leaseExpiryOf cs)
                  (ch_localKeys ch) (RemoteChanCfg cs) newCommitView) (\<lambda>sigBatch.
         sbind (case txn newCommitView of None \<Rightarrow> Inl NilTransaction | Some tx \<Rightarrow> of_sig SigningFailed (sl_SignOutputRaw sl (ch_signDesc ch) tx)) (\<lambda>rawSig.
         sbind (of_sig SigningFailed (sl_NewSigFromSignature sl rawSig)) (\<lambda>sig.
         sbind (collectSigs sl (sortJobs sigBatch)) (\<lambda>htlcSigs. Inr (sig, htlcSigs))))))"

text \<open>From the constructed commitment on: sign, write the pending state to disk, extend the chain.\<close>

definition extendRemoteChain ::
    "'pk Env \<Rightarrow> 'pk Chan \<Rightarrow> 'pk CommitmentKeyRing \<Rightarrow> commitment \<Rightarrow> 'pk Chan \<times> ('pk dance_error + Sig \<times> Sig list \<times> HTLC list)" where
  "extendRemoteChain env ch k newCommitView =
     (case signCommitment env ch k newCommitView of
        Inl e \<Rightarrow> (ch, Inl (DanceSig e))
      | Inr (sig, htlcSigs) \<Rightarrow>
          (let diff = createCommitDiff (ch_lc ch) (chanIDOf ch) newCommitView sig htlcSigs
           in case AppendRemoteCommitChain env ch diff of
                Inl e \<Rightarrow> (ch, Inl (DanceDb e))
              | Inr ch2 \<Rightarrow>
                  (ch2\<lparr>ch_lc := (ch_lc ch2)\<lparr>remoteCommitChain := addCommitment (remoteCommitChain (ch_lc ch2)) newCommitView\<rparr>\<rparr>,
                   Inr (sig, htlcSigs, Htlcs (cd_Commitment diff)))))"

definition SignNextCommitment :: "'pk Env \<Rightarrow> 'pk Chan \<Rightarrow> 'pk Chan \<times> ('pk dance_error + Sig \<times> Sig list \<times> HTLC list)" where
  "SignNextCommitment env ch =
     (let lc = ch_lc ch;
          remoteACKedIndex = theirMessageIndex (tail (localCommitChain lc));
          remoteHtlcIndex = theirHtlcIndex (tail (localCommitChain lc))
      in case RemoteNextRevocation ch of
           None \<Rightarrow> (ch, Inl ErrNoWindow)
         | Some commitPoint \<Rightarrow>
             if hasUnackedCommitment (remoteCommitChain lc) then (ch, Inl ErrNoWindow)
             else
               (case validateCommitmentSanity lc remoteACKedIndex (logIndex (localUpdateLog lc)) True None None of
                  Inl e \<Rightarrow> (ch, Inl (DanceChannel e))
                | Inr _ \<Rightarrow>
                    (let k = DeriveCommitmentKeys (env_cv env) commitPoint False (ChanType (channelState lc)) (ch_localKeys ch) (ch_remoteKeys ch)
                     in case fetchCommitmentView (env_lib env) (ch_builder ch) lc True (logIndex (localUpdateLog lc))
                               (htlcCounter (localUpdateLog lc)) remoteACKedIndex remoteHtlcIndex k of
                          (lc1, Inl e) \<Rightarrow> (ch\<lparr>ch_lc := lc1\<rparr>, Inl (DanceCommit e))
                        | (lc1, Inr newCommitView) \<Rightarrow> extendRemoteChain env (ch\<lparr>ch_lc := lc1\<rparr>) k newCommitView)))"

subsection \<open>Receiving a signature for the next local commitment\<close>

text \<open>
  The workers of the pool answer in any order; when several signatures are invalid, the error is
  that of the first job.
\<close>

definition jobOk :: "'pk SigLib \<Rightarrow> 'pk VerifyJob \<Rightarrow> bool" where
  "jobOk sl j = (case vj_SigHash j of None \<Rightarrow> False | Some h \<Rightarrow> sl_Verify sl (vj_Sig j) h (vj_PubKey j))"

definition verifyCommitment ::
    "'pk Env \<Rightarrow> 'pk Chan \<Rightarrow> 'pk CommitmentKeyRing \<Rightarrow> commitment \<Rightarrow> Sig \<Rightarrow> Sig list \<Rightarrow> u64 \<Rightarrow> 'pk dance_error + commitment" where
  "verifyCommitment env ch k view commitSig htlcSigs nextHeight =
     (let cs = channelState (ch_lc ch); sl = env_sl env
      in case txn view of
           None \<Rightarrow> Inl (DanceSig NilTransaction)
         | Some localCommitTx \<Rightarrow>
             sbind (liftDance DanceSig (of_sig SigHashFailed (sl_CalcSignatureHash sl (sd_WitnessScript (ch_signDesc ch)) localCommitTx))) (\<lambda>sigHash.
             sbind (liftDance DanceSig (genHtlcSigValidationJobs (env_lib env) sl view k htlcSigs (ChanType cs) (IsInitiator cs)
                      (leaseExpiryOf cs) (LocalChanCfg cs))) (\<lambda>(view', verifyJobs).
             sbind (liftDance DanceSig (of_sig UnparsableSig (sl_ToSignature sl commitSig))) (\<lambda>cSig.
               if \<not> sl_Verify sl cSig sigHash (MultiSigKey (ch_remoteKeys ch)) then Inl (InvalidCommitSig nextHeight)
               else case filter (\<lambda>j. \<not> jobOk sl j) verifyJobs of
                      [] \<Rightarrow> Inr (view'\<lparr>c_sig := cSig\<rparr>)
                    | j # _ \<Rightarrow> Inl (InvalidHtlcSig nextHeight (vj_HtlcIndex j))))))"

definition ReceiveNewCommitment :: "'pk Env \<Rightarrow> 'pk Chan \<Rightarrow> Sig \<Rightarrow> Sig list \<Rightarrow> 'pk Chan \<times> ('pk dance_error + unit)" where
  "ReceiveNewCommitment env ch commitSig htlcSigs =
     (let lc = ch_lc ch;
          localACKedIndex = ourMessageIndex (tail (remoteCommitChain lc));
          localHtlcIndex = ourHtlcIndex (tail (remoteCommitChain lc))
      in case validateCommitmentSanity lc (logIndex (remoteUpdateLog lc)) localACKedIndex False None None of
           Inl e \<Rightarrow> (ch, Inl (DanceChannel e))
         | Inr _ \<Rightarrow>
             (let nextHeight = currentHeight lc + 1
              in case AtIndex (ch_producer ch) nextHeight of
                   Inl e \<Rightarrow> (ch, Inl (DanceShachain e))
                 | Inr commitSecret \<Rightarrow>
                     (let k = DeriveCommitmentKeys (env_cv env) (ComputeCommitmentPoint (env_cv env) commitSecret) True
                                (ChanType (channelState lc)) (ch_localKeys ch) (ch_remoteKeys ch)
                      in case fetchCommitmentView (env_lib env) (ch_builder ch) lc False localACKedIndex localHtlcIndex
                                (logIndex (remoteUpdateLog lc)) (htlcCounter (remoteUpdateLog lc)) k of
                           (lc1, Inl e) \<Rightarrow> (ch\<lparr>ch_lc := lc1\<rparr>, Inl (DanceCommit e))
                         | (lc1, Inr view) \<Rightarrow>
                             (let ch1 = ch\<lparr>ch_lc := lc1\<rparr>
                              in case verifyCommitment env ch1 k view commitSig htlcSigs nextHeight of
                                   Inl e \<Rightarrow> (ch1, Inl e)
                                 | Inr view' \<Rightarrow>
                                     (ch1\<lparr>ch_lc := lc1\<lparr>localCommitChain := addCommitment (localCommitChain lc1) view'\<rparr>\<rparr>, Inr ())))))"

subsection \<open>Revoking the current local commitment\<close>

definition generateRevocation :: "'pk Env \<Rightarrow> 'pk Chan \<Rightarrow> u64 \<Rightarrow> shachain_error + 'pk RevokeAndAck" where
  "generateRevocation env ch h =
     sbind (AtIndex (ch_producer ch) h) (\<lambda>commitSecret.
     sbind (AtIndex (ch_producer ch) (h + 2)) (\<lambda>nextCommitSecret.
       Inr \<lparr>raa_ChanID = chanIDOf ch, raa_Revocation = commitSecret,
            raa_NextRevocationKey = Some (ComputeCommitmentPoint (env_cv env) nextCommitSecret), raa_ExtraData = []\<rparr>))"

text \<open>With only one commitment in the local chain the new tail is nil, and reading it panics.\<close>

definition RevokeCurrentCommitment ::
    "'pk Env \<Rightarrow> 'pk Chan \<Rightarrow> 'pk Chan \<times> ('pk dance_error + 'pk RevokeAndAck \<times> HTLC list)" where
  "RevokeCurrentCommitment env ch =
     (let lc = ch_lc ch
      in case generateRevocation env ch (currentHeight lc) of
           Inl e \<Rightarrow> (ch, Inl (DanceShachain e))
         | Inr revocationMsg \<Rightarrow>
             (let lc1 = lc\<lparr>localCommitChain := advanceTail (localCommitChain lc), currentHeight := currentHeight lc + 1\<rparr>;
                  ch1 = ch\<lparr>ch_lc := lc1\<rparr>
              in if localCommitChain lc1 = [] then (ch1, Inl NilCommitmentPanic)
                 else
                   (let newCommitment = toDiskCommit (tail (localCommitChain lc1)) True
                    in case UpdateCommitment env ch1 newCommitment (getUnsignedAckedUpdates lc1 (chanIDOf ch)) of
                         Inl e \<Rightarrow> (ch1, Inl (DanceDb e))
                       | Inr ch2 \<Rightarrow> (ch2, Inr (revocationMsg, Htlcs newCommitment)))))"

subsection \<open>Receiving a revocation\<close>

definition committedBoth :: "PaymentDescriptor \<Rightarrow> bool" where
  "committedBoth pd = (if EntryType pd = Add then addCommitHeightRemote pd > 0 \<and> addCommitHeightLocal pd > 0
     else removeCommitHeightRemote pd > 0 \<and> removeCommitHeightLocal pd > 0)"

definition freshlyLockedIn :: "u64 \<Rightarrow> u64 \<Rightarrow> PaymentDescriptor \<Rightarrow> bool" where
  "freshlyLockedIn remoteChainTail localChainTail pd =
     (if EntryType pd = Add then remoteChainTail = addCommitHeightRemote pd \<and> localChainTail \<ge> addCommitHeightLocal pd
      else remoteChainTail = removeCommitHeightRemote pd \<and> localChainTail \<ge> removeCommitHeightLocal pd)"

text \<open>
  The loop over the remote log: the new entries of the log, the adds to forward with their updates,
  and the settles and fails to forward with their updates.
\<close>

fun forwardLoop ::
    "u64 \<Rightarrow> u64 \<Rightarrow> ShortChannelID \<Rightarrow> ChannelID \<Rightarrow> u16 \<Rightarrow> u16 \<Rightarrow> (nat \<times> PaymentDescriptor) list
       \<Rightarrow> (nat \<times> PaymentDescriptor) list \<times> PaymentDescriptor list \<times> LogUpdate list \<times> PaymentDescriptor list \<times> LogUpdate list" where
  "forwardLoop remoteChainTail localChainTail source chanID addIndex settleFailIndex [] = ([], [], [], [], [])"
| "forwardLoop remoteChainTail localChainTail source chanID addIndex settleFailIndex ((e, pd) # es) =
     (if EntryType pd = FeeUpdate \<or> isForwarded pd
         \<or> \<not> (committedBoth pd \<and> freshlyLockedIn remoteChainTail localChainTail pd) then
        (case forwardLoop remoteChainTail localChainTail source chanID addIndex settleFailIndex es of
           (es', rest) \<Rightarrow> ((e, pd) # es', rest))
      else if EntryType pd = Add then
        (let pd' = pd\<lparr>SourceRef := Some \<lparr>ar_Height = remoteChainTail, ar_Index = addIndex\<rparr>, isForwarded := True\<rparr>
         in case forwardLoop remoteChainTail localChainTail source chanID (addIndex + 1) settleFailIndex es of
              (es', adds, addUpdates, sfs, sfUpdates) \<Rightarrow> ((e, pd') # es', pd' # adds, logUpdate chanID pd' # addUpdates, sfs, sfUpdates))
      else
        (let pd' = pd\<lparr>DestRef := Some \<lparr>sfr_Source = source, sfr_Height = remoteChainTail, sfr_Index = settleFailIndex\<rparr>, isForwarded := True\<rparr>
         in case forwardLoop remoteChainTail localChainTail source chanID addIndex (settleFailIndex + 1) es of
              (es', adds, addUpdates, sfs, sfUpdates) \<Rightarrow> ((e, pd') # es', adds, addUpdates, pd' # sfs, logUpdate chanID pd' # sfUpdates)))"

definition ReceiveRevocation ::
    "'pk Env \<Rightarrow> 'pk Chan \<Rightarrow> 'pk RevokeAndAck
       \<Rightarrow> 'pk Chan \<times> ('pk dance_error + FwdPkg \<times> PaymentDescriptor list \<times> PaymentDescriptor list \<times> HTLC list)" where
  "ReceiveRevocation env ch revMsg =
     (case AddNextEntry (ch_store ch) (raa_Revocation revMsg) of
        Inl e \<Rightarrow> (ch, Inl (DanceShachain e))
      | Inr store \<Rightarrow>
          (let ch1 = ch\<lparr>ch_store := store\<rparr>
           in if RemoteCurrentRevocation ch = None then (ch1, Inl NilPointPanic)
              else if RemoteCurrentRevocation ch \<noteq> Some (ComputeCommitmentPoint (env_cv env) (raa_Revocation revMsg))
              then (ch1, Inl RevocationKeyMismatch)
              else
                (let lc = ch_lc ch;
                     remoteChainTail = height (tail (remoteCommitChain lc)) + 1;
                     localChainTail = height (tail (localCommitChain lc));
                     source = ShortChanID (channelState lc);
                     chanID = chanIDOf ch;
                     (es, addsToForward, addUpdates, settleFailsToForward, settleFailUpdates) =
                       forwardLoop remoteChainTail localChainTail source chanID 0 0 (entries (remoteUpdateLog lc));
                     lc1 = lc\<lparr>remoteUpdateLog := (remoteUpdateLog lc)\<lparr>entries := es\<rparr>\<rparr>;
                     ch2 = ch1\<lparr>RemoteCurrentRevocation := RemoteNextRevocation ch,
                               RemoteNextRevocation := raa_NextRevocationKey revMsg, ch_lc := lc1\<rparr>;
                     localPeerUpdates = unsignedLocalUpdates lc1 (ourMessageIndex (tip (remoteCommitChain lc)))
                                          (ourMessageIndex (tail (localCommitChain lc))) chanID;
                     fwdPkg = NewFwdPkg source remoteChainTail addUpdates settleFailUpdates
                 in case AdvanceCommitChainTail env ch2 fwdPkg localPeerUpdates of
                      Inl e \<Rightarrow> (ch2, Inl (DanceDb e))
                    | Inr ch3 \<Rightarrow>
                        (let lc3 = ch_lc ch3;
                             lc4 = lc3\<lparr>remoteCommitChain := advanceTail (remoteCommitChain lc3)\<rparr>
                         in case compactLogs (localUpdateLog lc4) (remoteUpdateLog lc4) localChainTail remoteChainTail of
                              None \<Rightarrow> (ch3\<lparr>ch_lc := lc4\<rparr>, Inl CompactPanic)
                            | Some (ours, theirs) \<Rightarrow>
                                (ch3\<lparr>ch_lc := lc4\<lparr>localUpdateLog := ours, remoteUpdateLog := theirs\<rparr>\<rparr>,
                                 Inr (fwdPkg, addsToForward, settleFailsToForward, Htlcs (RemoteCommitment (channelState lc3))))))))"

end
