(* ===== verification/Restart.thy ===== *)
theory Restart
  imports Chan_Sync
begin

text \<open>
  The restoration of a channel after a restart (\<open>src/oblnd/lnwallet/channel.go\<close>:
  \<open>NewLightningChannel\<close>, \<open>restoreCommitState\<close>, \<open>diskCommitToMemCommit\<close>, \<open>diskHtlcToPayDesc\<close>,
  \<open>extractPayDescs\<close>, \<open>restoreStateLogs\<close>, \<open>restorePendingLocalUpdates\<close>, \<open>restorePendingRemoteUpdates\<close>,
  \<open>restorePeerLocalUpdates\<close> and the three conversions of log updates) from the bucket of the
  channel (\<open>fetchOpenChannel\<close> in \<open>src/oblnd/channeldb/channel.go\<close>).
\<close>

section \<open>The model\<close>

datatype restore_error =
    RestoreScript commit_error
  | RestoreShachain shachain_error
  | RestoreNilHtlcPanic u64
  | RestoreNilPointPanic
  | RestoreUnknownMessage
  | RestoreUnsignedRemoteUpdate u64
  | LogIndexMismatchPanic u64 u64
  | HtlcIndexMismatchPanic u64 u64

subsection \<open>Commitments\<close>

text \<open>The scripts of an HTLC: none for dust or without the keys of that commitment.\<close>

definition diskHtlcScripts ::
    "'pk ScriptLib \<Rightarrow> OpenChannel \<Rightarrow> SatPerKWeight \<Rightarrow> HTLC \<Rightarrow> 'pk CommitmentKeyRing option \<Rightarrow> bool \<Rightarrow> u32
       \<Rightarrow> commit_error + bytes \<times> bytes" where
  "diskHtlcScripts lib cs feeRate htlc keys ourCommit assetId =
     (let dust = DustLimit (if ourCommit then LocalChanCfg cs else RemoteChanCfg cs)
      in case keys of
           None \<Rightarrow> Inr ([], [])
         | Some k \<Rightarrow>
             if HtlcIsDust (ChanType cs) (h_Incoming htlc) ourCommit feeRate (ToSatoshis (h_BtcAmt htlc)) dust assetId
             then Inr ([], [])
             else genHtlcScript lib (ChanType cs) (h_Incoming htlc) ourCommit (h_RefundTimeout htlc) (h_RHash htlc) k)"

definition diskHtlcToPayDesc ::
    "'pk ScriptLib \<Rightarrow> OpenChannel \<Rightarrow> SatPerKWeight \<Rightarrow> HTLC \<Rightarrow> 'pk CommitmentKeyRing option \<Rightarrow> 'pk CommitmentKeyRing option
       \<Rightarrow> bool \<Rightarrow> u32 \<Rightarrow> commit_error + PaymentDescriptor" where
  "diskHtlcToPayDesc lib cs feeRate htlc localCommitKeys remoteCommitKeys isLocal assetId =
     sbind (diskHtlcScripts lib cs feeRate htlc localCommitKeys True assetId) (\<lambda>(ourP2WSH, ourWitness).
     sbind (diskHtlcScripts lib cs feeRate htlc remoteCommitKeys False assetId) (\<lambda>(theirP2WSH, theirWitness).
       Inr (zeroPD\<lparr>RHash := h_RHash htlc, Timeout := h_RefundTimeout htlc, BtcAmount := h_BtcAmt htlc,
              AssetAmount := h_AssetAmt htlc, EntryType := Add, HtlcIndex := h_HtlcIndex htlc, LogIndex := h_LogIndex htlc,
              OnionBlob := h_OnionBlob htlc, localOutputIndex := (if isLocal then h_OutputIndex htlc else 0),
              remoteOutputIndex := (if isLocal then 0 else h_OutputIndex htlc), ourPkScript := ourP2WSH,
              ourWitnessScript := ourWitness, theirPkScript := theirP2WSH, theirWitnessScript := theirWitness,
              AssetID := assetId\<rparr>)))"

fun extractPayDescs ::
    "'pk ScriptLib \<Rightarrow> OpenChannel \<Rightarrow> SatPerKWeight \<Rightarrow> HTLC list \<Rightarrow> 'pk CommitmentKeyRing option \<Rightarrow> 'pk CommitmentKeyRing option
       \<Rightarrow> bool \<Rightarrow> u32 \<Rightarrow> commit_error + PaymentDescriptor list \<times> PaymentDescriptor list" where
  "extractPayDescs lib cs feeRate [] localCommitKeys remoteCommitKeys isLocal assetId = Inr ([], [])"
| "extractPayDescs lib cs feeRate (htlc # htlcs) localCommitKeys remoteCommitKeys isLocal assetId =
     sbind (diskHtlcToPayDesc lib cs feeRate htlc localCommitKeys remoteCommitKeys isLocal assetId) (\<lambda>payDesc.
     sbind (extractPayDescs lib cs feeRate htlcs localCommitKeys remoteCommitKeys isLocal assetId) (\<lambda>(incomingHtlcs, outgoingHtlcs).
       Inr (if h_Incoming htlc then (payDesc # incomingHtlcs, outgoingHtlcs) else (incomingHtlcs, payDesc # outgoingHtlcs))))"

definition ringOf :: "'pk Env \<Rightarrow> 'pk Chan \<Rightarrow> bool \<Rightarrow> 'pk option \<Rightarrow> 'pk CommitmentKeyRing option" where
  "ringOf env ch isLocal point =
     map_option (\<lambda>p. DeriveCommitmentKeys (env_cv env) p isLocal (ChanType (channelState (ch_lc ch))) (ch_localKeys ch) (ch_remoteKeys ch)) point"

definition diskCommitToMemCommit ::
    "'pk Env \<Rightarrow> 'pk Chan \<Rightarrow> bool \<Rightarrow> ChannelCommitment \<Rightarrow> 'pk option \<Rightarrow> 'pk option \<Rightarrow> commit_error + commitment" where
  "diskCommitToMemCommit env ch isLocal diskCommit localCommitPoint remoteCommitPoint =
     (let cs = channelState (ch_lc ch)
      in sbind (extractPayDescs (env_lib env) cs (FeePerKw diskCommit) (Htlcs diskCommit)
                  (ringOf env ch True localCommitPoint) (ringOf env ch False remoteCommitPoint) isLocal (cs_AssetID cs))
           (\<lambda>(incomingHtlcs, outgoingHtlcs).
             Inr \<lparr>height = CommitHeight diskCommit, isOurs = isLocal, ourMessageIndex = LocalLogIndex diskCommit,
                  theirMessageIndex = RemoteLogIndex diskCommit, ourHtlcIndex = LocalHtlcIndex diskCommit,
                  theirHtlcIndex = RemoteHtlcIndex diskCommit, txn = CommitTx diskCommit, c_sig = ChannelCommitment.CommitSig diskCommit,
                  ourBtcBalance = LocalBtcBalance diskCommit, theirBtcBalance = RemoteBtcBalance diskCommit,
                  ourAssetBalance = LocalAssetBalance diskCommit, theirAssetBalance = RemoteAssetBalance diskCommit,
                  fee = CommitFee diskCommit, feePerKw = FeePerKw diskCommit,
                  dustLimit = DustLimit (if isLocal then LocalChanCfg cs else RemoteChanCfg cs),
                  outgoingHTLCs = outgoingHtlcs, incomingHTLCs = incomingHtlcs,
                  outgoingHTLCIndex = Map.empty, incomingHTLCIndex = Map.empty\<rparr>))"

subsection \<open>Log updates\<close>

text \<open>
  The three conversions share the case of a settle or a fail: the HTLC is looked up in the log of
  the other side, and reading a missing one panics.
\<close>

definition removalOf :: "updateLog \<Rightarrow> u64 \<Rightarrow> u64 \<Rightarrow> (PaymentDescriptor \<Rightarrow> PaymentDescriptor) \<Rightarrow> restore_error + PaymentDescriptor" where
  "removalOf u li hid f =
     (case lookupHtlc u hid of
        None \<Rightarrow> Inl (RestoreNilHtlcPanic hid)
      | Some ogHTLC \<Rightarrow> Inr (f (zeroPD\<lparr>AssetID := AssetID ogHTLC, BtcAmount := BtcAmount ogHTLC, AssetAmount := AssetAmount ogHTLC,
                               RHash := RHash ogHTLC, LogIndex := li, ParentIndex := HtlcIndex ogHTLC\<rparr>)))"

definition removalUpdate :: "(u64 \<Rightarrow> PaymentDescriptor \<Rightarrow> PaymentDescriptor) \<Rightarrow> updateLog \<Rightarrow> u64 \<Rightarrow> UpdateMsg \<Rightarrow> u64 \<Rightarrow> restore_error + PaymentDescriptor" where
  "removalUpdate setHeight u li m commitHeight =
     (case m of
        MsgUpdateFulfillHTLC w \<Rightarrow>
          removalOf u li (ufh_ID w) (\<lambda>pd. setHeight commitHeight (pd\<lparr>EntryType := Settle, RPreimage := ufh_PaymentPreimage w\<rparr>))
      | MsgUpdateFailHTLC w \<Rightarrow>
          removalOf u li (ufl_ID w) (\<lambda>pd. setHeight commitHeight (pd\<lparr>EntryType := Fail, FailReason := ufl_Reason w\<rparr>))
      | MsgUpdateFailMalformedHTLC w \<Rightarrow>
          removalOf u li (ufm_ID w) (\<lambda>pd. setHeight commitHeight (pd\<lparr>EntryType := MalformedFail, FailCode := ufm_FailureCode w,
                                                  ShaOnionBlob := ufm_ShaOnionBlob w\<rparr>))
      | _ \<Rightarrow> Inl RestoreUnknownMessage)"

definition feeUpdateOf :: "(u64 \<Rightarrow> PaymentDescriptor \<Rightarrow> PaymentDescriptor) \<Rightarrow> (u64 \<Rightarrow> PaymentDescriptor \<Rightarrow> PaymentDescriptor)
    \<Rightarrow> u64 \<Rightarrow> UpdateFee \<Rightarrow> u64 \<Rightarrow> PaymentDescriptor" where
  "feeUpdateOf setAdd setRemove li w commitHeight =
     setAdd commitHeight (setRemove commitHeight
       (zeroPD\<lparr>LogIndex := li, BtcAmount := NewMSatFromSatoshis (ucast (uf_FeePerKw w)), AssetID := uf_AssetID w, EntryType := FeeUpdate\<rparr>))"

definition logUpdateToPayDesc ::
    "'pk ScriptLib \<Rightarrow> OpenChannel \<Rightarrow> LogUpdate \<Rightarrow> updateLog \<Rightarrow> u64 \<Rightarrow> SatPerKWeight \<Rightarrow> 'pk CommitmentKeyRing \<Rightarrow> SatAmount
       \<Rightarrow> restore_error + PaymentDescriptor" where
  "logUpdateToPayDesc lib cs u remoteLog commitHeight feeRate remoteCommitKeys remoteDustLimit =
     (case lu_UpdateMsg u of
        MsgUpdateAddHTLC w \<Rightarrow>
          (let pd = (SetAmtFromMsgHtlc
                       (zeroPD\<lparr>RHash := uah_PaymentHash w, Timeout := uah_Expiry w, EntryType := Add, HtlcIndex := uah_ID w,
                          LogIndex := lu_LogIndex u, addCommitHeightRemote := commitHeight\<rparr>) w)\<lparr>OnionBlob := uah_OnionBlob w\<rparr>
           in if HtlcIsDust (ChanType cs) False False feeRate (ToSatoshis (uah_Amount w)) remoteDustLimit (uah_AssetID w) then Inr pd
              else (case genHtlcScript lib (ChanType cs) False False (uah_Expiry w) (uah_PaymentHash w) remoteCommitKeys of
                      Inl e \<Rightarrow> Inl (RestoreScript e)
                    | Inr (p2wsh, witness) \<Rightarrow> Inr (pd\<lparr>theirPkScript := p2wsh, theirWitnessScript := witness\<rparr>)))
      | MsgUpdateFee w \<Rightarrow> Inr (feeUpdateOf (setAddHeight True) (setRemoveHeight True) (lu_LogIndex u) w commitHeight)
      | m \<Rightarrow> removalUpdate (setRemoveHeight True) remoteLog (lu_LogIndex u) m commitHeight)"

definition localLogUpdateToPayDesc :: "LogUpdate \<Rightarrow> updateLog \<Rightarrow> u64 \<Rightarrow> restore_error + PaymentDescriptor" where
  "localLogUpdateToPayDesc u remoteLog commitHeight =
     (case lu_UpdateMsg u of
        MsgUpdateFee w \<Rightarrow> Inr (feeUpdateOf (setAddHeight True) (setRemoveHeight True) (lu_LogIndex u) w commitHeight)
      | m \<Rightarrow> removalUpdate (setRemoveHeight True) remoteLog (lu_LogIndex u) m commitHeight)"

definition remoteLogUpdateToPayDesc :: "LogUpdate \<Rightarrow> updateLog \<Rightarrow> u64 \<Rightarrow> restore_error + PaymentDescriptor" where
  "remoteLogUpdateToPayDesc u localLog commitHeight =
     (case lu_UpdateMsg u of
        MsgUpdateAddHTLC w \<Rightarrow>
          Inr ((SetAmtFromMsgHtlc
                  (zeroPD\<lparr>RHash := uah_PaymentHash w, Timeout := uah_Expiry w, AssetID := uah_AssetID w, EntryType := Add,
                     HtlcIndex := uah_ID w, LogIndex := lu_LogIndex u, addCommitHeightLocal := commitHeight\<rparr>) w)\<lparr>OnionBlob := uah_OnionBlob w\<rparr>)
      | MsgUpdateFee w \<Rightarrow> Inr (feeUpdateOf (setAddHeight False) (setRemoveHeight False) (lu_LogIndex u) w commitHeight)
      | m \<Rightarrow> removalUpdate (setRemoveHeight False) localLog (lu_LogIndex u) m commitHeight)"

subsection \<open>The update logs\<close>

definition heightMap :: "u64 \<Rightarrow> PaymentDescriptor list \<Rightarrow> (u64 \<Rightarrow> u64) \<Rightarrow> u64 \<Rightarrow> u64" where
  "heightMap h htlcs m = foldl (\<lambda>m r. m(HtlcIndex r := h)) m htlcs"

definition removedHtlc :: "LogUpdate \<Rightarrow> u64 option" where
  "removedHtlc u = (case lu_UpdateMsg u of
       MsgUpdateFulfillHTLC w \<Rightarrow> Some (ufh_ID w)
     | MsgUpdateFailHTLC w \<Rightarrow> Some (ufl_ID w)
     | MsgUpdateFailMalformedHTLC w \<Rightarrow> Some (ufm_ID w)
     | _ \<Rightarrow> None)"

definition removedHeights :: "u64 \<Rightarrow> LogUpdate list \<Rightarrow> (u64 \<Rightarrow> u64) \<Rightarrow> u64 \<Rightarrow> u64" where
  "removedHeights h us m = foldl (\<lambda>m i. m(i := h)) m (List.map_filter removedHtlc us)"

fun restorePendingLocalUpdates ::
    "'pk ScriptLib \<Rightarrow> OpenChannel \<Rightarrow> ChannelCommitment \<Rightarrow> LogUpdate list \<Rightarrow> 'pk CommitmentKeyRing \<Rightarrow> updateLog \<Rightarrow> updateLog
       \<Rightarrow> restore_error + updateLog \<times> updateLog" where
  "restorePendingLocalUpdates lib cs pendingCommit [] pendingRemoteKeys localLog remoteLog = Inr (localLog, remoteLog)"
| "restorePendingLocalUpdates lib cs pendingCommit (u # us) pendingRemoteKeys localLog remoteLog =
     sbind (logUpdateToPayDesc lib cs u remoteLog (CommitHeight pendingCommit) (FeePerKw pendingCommit) pendingRemoteKeys (DustLimit (RemoteChanCfg cs)))
       (\<lambda>pd0.
         let pd = (if EntryType pd0 = FeeUpdate \<and> LogIndex pd0 = 0 \<and> logIndex localLog > 0 then pd0\<lparr>LogIndex := logIndex localLog\<rparr> else pd0)
         in if LogIndex pd \<noteq> logIndex localLog then Inl (LogIndexMismatchPanic (LogIndex pd) (logIndex localLog))
            else case EntryType pd of
                   Add \<Rightarrow>
                     if HtlcIndex pd \<noteq> htlcCounter localLog then Inl (HtlcIndexMismatchPanic (HtlcIndex pd) (htlcCounter localLog))
                     else restorePendingLocalUpdates lib cs pendingCommit us pendingRemoteKeys (appendHtlc localLog pd) remoteLog
                 | FeeUpdate \<Rightarrow> restorePendingLocalUpdates lib cs pendingCommit us pendingRemoteKeys (appendUpdate localLog pd) remoteLog
                 | _ \<Rightarrow> restorePendingLocalUpdates lib cs pendingCommit us pendingRemoteKeys (appendUpdate localLog pd)
                          (markHtlcModified remoteLog (ParentIndex pd)))"

fun restorePendingRemoteUpdates ::
    "LogUpdate list \<Rightarrow> u64 \<Rightarrow> commitment option \<Rightarrow> updateLog \<Rightarrow> updateLog \<Rightarrow> restore_error + updateLog \<times> updateLog" where
  "restorePendingRemoteUpdates [] localCommitmentHeight pendingRemoteCommit localLog remoteLog = Inr (localLog, remoteLog)"
| "restorePendingRemoteUpdates (u # us) localCommitmentHeight pendingRemoteCommit localLog remoteLog =
     sbind (remoteLogUpdateToPayDesc u localLog localCommitmentHeight) (\<lambda>pd.
       if LogIndex pd \<ge> logIndex remoteLog then Inl (RestoreUnsignedRemoteUpdate (LogIndex pd))
       else if EntryType pd = Add then restorePendingRemoteUpdates us localCommitmentHeight pendingRemoteCommit localLog remoteLog
       else
         (let h = (case pendingRemoteCommit of
                     None \<Rightarrow> None
                   | Some c \<Rightarrow> if LogIndex pd < theirMessageIndex c then Some (height c) else None)
          in if EntryType pd = FeeUpdate then
               restorePendingRemoteUpdates us localCommitmentHeight pendingRemoteCommit localLog
                 (restoreUpdate remoteLog (case h of None \<Rightarrow> pd | Some n \<Rightarrow> setAddHeight True n (setRemoveHeight True n pd)))
             else
               restorePendingRemoteUpdates us localCommitmentHeight pendingRemoteCommit (markHtlcModified localLog (ParentIndex pd))
                 (restoreUpdate remoteLog (case h of None \<Rightarrow> pd | Some n \<Rightarrow> setRemoveHeight True n pd))))"

fun restorePeerLocalUpdates :: "LogUpdate list \<Rightarrow> u64 \<Rightarrow> updateLog \<Rightarrow> updateLog \<Rightarrow> restore_error + updateLog \<times> updateLog" where
  "restorePeerLocalUpdates [] remoteCommitmentHeight localLog remoteLog = Inr (localLog, remoteLog)"
| "restorePeerLocalUpdates (u # us) remoteCommitmentHeight localLog remoteLog =
     sbind (localLogUpdateToPayDesc u remoteLog remoteCommitmentHeight) (\<lambda>pd.
       restorePeerLocalUpdates us remoteCommitmentHeight (restoreUpdate localLog pd)
         (if EntryType pd \<noteq> FeeUpdate then markHtlcModified remoteLog (ParentIndex pd) else remoteLog))"

definition restoreStateLogs ::
    "'pk ScriptLib \<Rightarrow> LightningChannel \<Rightarrow> commitment \<Rightarrow> commitment \<Rightarrow> (commitment \<times> CommitDiff \<times> 'pk CommitmentKeyRing) option
       \<Rightarrow> LogUpdate list \<Rightarrow> LogUpdate list \<Rightarrow> restore_error + LightningChannel" where
  "restoreStateLogs lib lc localCommit remoteCommit pending unsignedAckedUpdates remoteUnsignedLocalUpdates =
     (let pendingCommit = map_option fst pending;
          incoming0 = (case pendingCommit of None \<Rightarrow> (\<lambda>_. 0) | Some c \<Rightarrow> heightMap (height c) (incomingHTLCs c) (\<lambda>_. 0));
          incomingRemoteAddHeights = removedHeights (height remoteCommit) remoteUnsignedLocalUpdates
                                       (heightMap (height remoteCommit) (incomingHTLCs remoteCommit) incoming0);
          outgoingLocalAddHeights = removedHeights (height localCommit) unsignedAckedUpdates
                                      (heightMap (height localCommit) (outgoingHTLCs localCommit) (\<lambda>_. 0));
          remoteLog = foldl (\<lambda>u htlc. restoreHtlc u (htlc\<lparr>addCommitHeightLocal := height localCommit,
                                 addCommitHeightRemote := incomingRemoteAddHeights (HtlcIndex htlc)\<rparr>))
                        (remoteUpdateLog lc) (incomingHTLCs localCommit);
          localLog = foldl (\<lambda>u htlc. restoreHtlc u (htlc\<lparr>addCommitHeightRemote := height remoteCommit,
                                addCommitHeightLocal := outgoingLocalAddHeights (HtlcIndex htlc)\<rparr>))
                       (localUpdateLog lc) (outgoingHTLCs remoteCommit)
      in sbind (case pending of
                  None \<Rightarrow> Inr (localLog, remoteLog)
                | Some (_, diff, pendingKeys) \<Rightarrow>
                    restorePendingLocalUpdates lib (channelState lc) (cd_Commitment diff) (cd_LogUpdates diff) pendingKeys localLog remoteLog)
           (\<lambda>(l1, r1).
         sbind (restorePendingRemoteUpdates unsignedAckedUpdates (height localCommit) pendingCommit l1 r1) (\<lambda>(l2, r2).
         sbind (restorePeerLocalUpdates remoteUnsignedLocalUpdates (height remoteCommit) l2 r2) (\<lambda>(l3, r3).
           Inr (lc\<lparr>localUpdateLog := l3, remoteUpdateLog := r3\<rparr>)))))"

subsection \<open>The channel\<close>

definition liftScript :: "commit_error + 'a \<Rightarrow> restore_error + 'a" where
  "liftScript r = (case r of Inl e \<Rightarrow> Inl (RestoreScript e) | Inr x \<Rightarrow> Inr x)"

text \<open>The restoration once the point of our current commitment is known.\<close>

definition restoreChains :: "'pk Env \<Rightarrow> 'pk Chan \<Rightarrow> 'pk option \<Rightarrow> restore_error + 'pk Chan" where
  "restoreChains env ch localCommitPoint =
     (let lc = ch_lc ch; cs = channelState lc; remoteCommitPoint = RemoteCurrentRevocation ch
      in sbind (liftScript (diskCommitToMemCommit env ch True (LocalCommitment cs) localCommitPoint remoteCommitPoint)) (\<lambda>localCommit.
         sbind (liftScript (diskCommitToMemCommit env ch False (RemoteCommitment cs) localCommitPoint remoteCommitPoint)) (\<lambda>remoteCommit.
         sbind (case db_commitDiff (ch_db ch) of
                  None \<Rightarrow> Inr None
                | Some diff \<Rightarrow>
                    sbind (liftScript (diskCommitToMemCommit env ch False (cd_Commitment diff) None (RemoteNextRevocation ch))) (\<lambda>c.
                      case ringOf env ch False (RemoteNextRevocation ch) of
                        None \<Rightarrow> Inl RestoreNilPointPanic
                      | Some k \<Rightarrow> Inr (Some (c, diff, k)))) (\<lambda>pending.
         sbind (restoreStateLogs (env_lib env)
                  (lc\<lparr>localCommitChain := addCommitment (localCommitChain lc) localCommit,
                      remoteCommitChain :=
                        (let s = addCommitment (remoteCommitChain lc) remoteCommit
                         in case pending of None \<Rightarrow> s | Some (c, _, _) \<Rightarrow> addCommitment s c)\<rparr>)
                  localCommit remoteCommit pending
                  (case db_unsignedAckedUpdates (ch_db ch) of None \<Rightarrow> [] | Some us \<Rightarrow> us)
                  (case db_remoteUnsignedLocalUpdates (ch_db ch) of None \<Rightarrow> [] | Some us \<Rightarrow> us)) (\<lambda>lc'.
           Inr (ch\<lparr>ch_lc := lc'\<rparr>))))))"

definition restoreCommitState :: "'pk Env \<Rightarrow> 'pk Chan \<Rightarrow> restore_error + 'pk Chan" where
  "restoreCommitState env ch =
     (case AtIndex (ch_producer ch) (currentHeight (ch_lc ch)) of
        Inl e \<Rightarrow> Inl (RestoreShachain e)
      | Inr ourRevPreImage \<Rightarrow> restoreChains env ch (Some (ComputeCommitmentPoint (env_cv env) ourRevPreImage)))"

text \<open>
  \<open>fetchOpenChannel\<close> reads what is on disk; the memory of the old process is gone. The keys, the
  builder and the sign descriptor come from the configuration, which never changes.
\<close>

definition fetchOpenChannel :: "'pk Chan \<Rightarrow> 'pk Chan" where
  "fetchOpenChannel ch =
     (let db = ch_db ch
      in case db_revocationState db of
           (store, current, nextPoint) \<Rightarrow>
             ch\<lparr>ch_lc := (ch_lc ch)\<lparr>channelState := (db_chanInfo db)\<lparr>LocalCommitment := db_localCommitment db,
                                        RemoteCommitment := db_remoteCommitment db\<rparr>\<rparr>,
                chanStatus := db_chanStatus db, LastWasRevoke := db_lastWasRevoke db,
                ch_store := store, RemoteCurrentRevocation := current, RemoteNextRevocation := nextPoint\<rparr>)"

definition NewLightningChannel :: "'pk Env \<Rightarrow> 'pk Chan \<Rightarrow> restore_error + 'pk Chan" where
  "NewLightningChannel env ch =
     (let state = channelState (ch_lc ch); localCommit = LocalCommitment state; remoteCommit = RemoteCommitment state
      in restoreCommitState env
           (ch\<lparr>ch_lc := \<lparr>BtcCapacity = cs_BtcCapacity state, AssetCapacity = cs_AssetCapacity state,
                         currentHeight = CommitHeight localCommit, remoteCommitChain = newCommitmentChain,
                         localCommitChain = newCommitmentChain, channelState = state,
                         localUpdateLog = newUpdateLog (LocalLogIndex remoteCommit) (LocalHtlcIndex remoteCommit),
                         remoteUpdateLog = newUpdateLog (RemoteLogIndex localCommit) (RemoteHtlcIndex localCommit)\<rparr>\<rparr>))"

end
