(* ===== verification/Channel_Disk.thy ===== *)
theory Channel_Disk
  imports Restart
begin

text \<open>
  The channel and its bucket: every successful operation of the commitment dance keeps the memory
  and the disk in agreement, a failing operation leaves the disk as it was, and a restart recovers
  from the disk what the memory held.
\<close>

section \<open>What the construction of a commitment may change\<close>

lemma sameConfig_write_trans [intro]: "sameConfig (writeEntry m ours e p lc) lc' \<Longrightarrow> sameConfig lc lc'"
  using sameConfig_trans sameConfig_steps(1) by blast

lemma sameConfig_count_trans [intro]:
  "sameConfig (lc\<lparr>channelState := countSettled ours p (channelState lc)\<rparr>) lc' \<Longrightarrow> sameConfig lc lc'"
  using sameConfig_trans sameConfig_steps(2) by blast

lemma removalLoop_config: "removalLoop ours h rc m es st = (st', r) \<Longrightarrow> sameConfig (es_lc st) (es_lc st')"
proof (induction es arbitrary: rc m st st' r)
  case (Cons x es)
  obtain e entry where x: "x = (e, entry)" by (cases x)
  from Cons.prems show ?case unfolding x
    by (auto simp: Let_def split: if_splits prod.splits sum.splits dest!: Cons.IH intro: sameConfig_trans)
      (rule sameConfig_count_trans, erule sameConfig_write_trans)
qed simp

lemma addLoop_config: "addLoop ours h rc m skip es lc b = (lc', r) \<Longrightarrow> sameConfig lc lc'"
proof (induction es arbitrary: lc b lc' r)
  case (Cons x es)
  obtain e entry where x: "x = (e, entry)" by (cases x)
  from Cons.prems show ?case unfolding x
    by (auto split: if_splits prod.splits dest!: Cons.IH)
qed simp

lemma evaluate_config:
  assumes "evaluateHTLCView lc v b h rc m = (lc', r)"
  shows "sameConfig lc lc'"
  using assms unfolding evaluateHTLCView_def
  by (auto simp: Let_def split: prod.splits option.splits dest!: removalLoop_config addLoop_config intro: sameConfig_trans)
    (metis sameConfig_trans)

lemma computeView_config: "computeView lc v rc m = (lc', r) \<Longrightarrow> sameConfig lc lc'"
  unfolding computeView_def Let_def by (auto split: prod.splits sum.splits dest!: evaluate_config)

lemma addHtlcOutputs_config:
  "addHtlcOutputs lib k ct ourTx inc rate dust es lc tx op cl = (lc', r) \<Longrightarrow> sameConfig lc lc'"
proof (induction es arbitrary: lc tx op cl lc' r)
  case (Cons x es)
  obtain e htlc where x: "x = (e, htlc)" by (cases x)
  from Cons.prems show ?case unfolding x
    by (auto split: if_splits prod.splits sum.splits dest!: Cons.IH)
qed simp

lemma createUnsigned_config:
  assumes "createUnsignedCommitmentTx lib cb lc b ourTx rate ht v k = (lc', r)"
  shows "sameConfig lc lc'"
  using assms unfolding createUnsignedCommitmentTx_def Let_def
  by (auto split: prod.splits sum.splits dest!: addHtlcOutputs_config intro: sameConfig_trans)

lemma fetchCommitmentView_config:
  assumes "fetchCommitmentView lib cb lc rc oi oh ti th k = (lc', r)"
  shows "sameConfig lc lc'"
  using assms
  by (cases rule: fetchCommitmentView_cases) (blast dest: computeView_config createUnsigned_config intro: sameConfig_trans)+

section \<open>What the operations do when they succeed\<close>

lemma inTransaction_Inr:
  "inTransaction env ch r = Inr db \<longleftrightarrow> \<not> hasChanStatus (chanStatus ch) ChanStatusRestored
     \<and> db_chanStatus (ch_db ch) = 0 \<and> env_dbCommits env \<and> r = Inr db"
  by (auto simp: inTransaction_def sbind_eq_Inr)

lemma extendRemoteChain_Inr:
  assumes "extendRemoteChain env ch k c = (ch', Inr (sig, htlcSigs, htlcs))"
  obtains f where "signCommitment env ch k c = Inr (sig, htlcSigs)"
    "ch' = ch\<lparr>ch_db := (ch_db ch)\<lparr>db_fwdPkgs := f, db_lastWasRevoke := False,
                db_commitDiff := Some (storeDiff (createCommitDiff (ch_lc ch) (chanIDOf ch) c sig htlcSigs))\<rparr>,
              ch_lc := (ch_lc ch)\<lparr>remoteCommitChain := remoteCommitChain (ch_lc ch) @ [c]\<rparr>\<rparr>"
    "htlcs = Htlcs (toDiskCommit c False)" "\<not> hasChanStatus (chanStatus ch) ChanStatusRestored" "db_chanStatus (ch_db ch) = 0"
proof (cases "signCommitment env ch k c")
  case (Inr ss)
  with assms have ss: "ss = (sig, htlcSigs)" by (auto simp: extendRemoteChain_def Let_def split: sum.splits prod.splits)
  obtain ch2 where "AppendRemoteCommitChain env ch (createCommitDiff (ch_lc ch) (chanIDOf ch) c sig htlcSigs) = Inr ch2"
    "ch' = ch2\<lparr>ch_lc := (ch_lc ch2)\<lparr>remoteCommitChain := remoteCommitChain (ch_lc ch2) @ [c]\<rparr>\<rparr>"
    "htlcs = Htlcs (toDiskCommit c False)"
    using assms Inr by (auto simp: extendRemoteChain_def ss addCommitment_def createCommitDiff_def Let_def split: sum.splits)
  with Inr ss that show thesis
    by (auto simp: AppendRemoteCommitChain_def Let_def sbind_eq_Inr inTransaction_Inr)
qed (use assms in \<open>simp add: extendRemoteChain_def\<close>)

lemma SignNextCommitment_built:
  assumes "SignNextCommitment env ch = (ch', Inr r)"
  defines "lc \<equiv> ch_lc ch"
  defines "ti \<equiv> theirMessageIndex (tail (localCommitChain lc))" and "oi \<equiv> logIndex (localUpdateLog lc)"
  obtains p k lc1 c where "RemoteNextRevocation ch = Some p" "\<not> hasUnackedCommitment (remoteCommitChain lc)"
    "validateCommitmentSanity lc ti oi True None None = Inr ()"
    "k = DeriveCommitmentKeys (env_cv env) p False (ChanType (channelState lc)) (ch_localKeys ch) (ch_remoteKeys ch)"
    "fetchCommitmentView (env_lib env) (ch_builder ch) lc True oi (htlcCounter (localUpdateLog lc)) ti
       (theirHtlcIndex (tail (localCommitChain lc))) k = (lc1, Inr c)"
    "extendRemoteChain env (ch\<lparr>ch_lc := lc1\<rparr>) k c = (ch', Inr r)"
  using assms unfolding SignNextCommitment_def
  by (cases "RemoteNextRevocation ch") (auto simp: Let_def split: if_splits sum.splits prod.splits)


definition stripSigs :: "commitment \<Rightarrow> commitment" where
  "stripSigs c = c\<lparr>c_sig := [], outgoingHTLCs := map withoutSig (outgoingHTLCs c), incomingHTLCs := map withoutSig (incomingHTLCs c)\<rparr>"

lemma strip_update_sig:
  "stripSigs (c\<lparr>incomingHTLCs := (incomingHTLCs c)[i := (incomingHTLCs c ! i)\<lparr>pd_sig := s\<rparr>]\<rparr>) = stripSigs c"
  "stripSigs (c\<lparr>outgoingHTLCs := (outgoingHTLCs c)[i := (outgoingHTLCs c ! i)\<lparr>pd_sig := s\<rparr>]\<rparr>) = stripSigs c"
proof -
  have *: "map withoutSig (xs[i := (xs ! i)\<lparr>pd_sig := s\<rparr>]) = map withoutSig xs" for xs
  proof (cases "i < length xs")
    case True
    then have "map withoutSig (xs[i := (xs ! i)\<lparr>pd_sig := s\<rparr>]) = (map withoutSig xs)[i := map withoutSig xs ! i]"
      by (simp add: map_update withoutSig_def)
    then show ?thesis by (simp only: list_update_id)
  qed (simp add: list_update_beyond)
  show "stripSigs (c\<lparr>incomingHTLCs := (incomingHTLCs c)[i := (incomingHTLCs c ! i)\<lparr>pd_sig := s\<rparr>]\<rparr>) = stripSigs c"
    "stripSigs (c\<lparr>outgoingHTLCs := (outgoingHTLCs c)[i := (outgoingHTLCs c ! i)\<lparr>pd_sig := s\<rparr>]\<rparr>) = stripSigs c"
    using * [of "incomingHTLCs c"] * [of "outgoingHTLCs c"] by (cases c; simp add: stripSigs_def)+
qed

lemma verifyLoop_strip:
  "verifyLoop lib sl k ct ini lease cfg tx is c sigs = Inr (c', r) \<Longrightarrow> stripSigs c' = stripSigs c"
proof (induction "is" arbitrary: c sigs c' r)
  case (Cons i "is")
  from Cons.prems show ?case
    by (auto simp: sbind_eq_Inr Let_def strip_update_sig split: option.splits list.splits dest!: Cons.IH)
qed simp

lemma verifyCommitment_strip:
  assumes "verifyCommitment env ch k c commitSig htlcSigs h = Inr c'"
  shows "stripSigs c' = stripSigs c"
proof -
  obtain tx c1 r s where "verifyLoop (env_lib env) (env_sl env) k (ChanType (channelState (ch_lc ch))) (IsInitiator (channelState (ch_lc ch)))
      (leaseExpiryOf (channelState (ch_lc ch))) (LocalChanCfg (channelState (ch_lc ch))) tx [0..<length (tx_TxOut tx)] c htlcSigs = Inr (c1, r)"
    "c' = c1\<lparr>c_sig := s\<rparr>"
    using assms unfolding verifyCommitment_def genHtlcSigValidationJobs_def
    by (auto simp: Let_def sbind_eq_Inr liftDance_def split: option.splits sum.splits if_splits list.splits prod.splits)
  then show ?thesis using verifyLoop_strip by (fastforce simp: stripSigs_def)
qed

lemma strip_fields:
  assumes "stripSigs c' = stripSigs c"
  shows "height c' = height c" "ourMessageIndex c' = ourMessageIndex c" "theirMessageIndex c' = theirMessageIndex c"
    "ourHtlcIndex c' = ourHtlcIndex c" "theirHtlcIndex c' = theirHtlcIndex c" "fee c' = fee c" "feePerKw c' = feePerKw c"
    "ourBtcBalance c' = ourBtcBalance c" "theirBtcBalance c' = theirBtcBalance c"
    "ourAssetBalance c' = ourAssetBalance c" "theirAssetBalance c' = theirAssetBalance c"
    "map withoutSig (outgoingHTLCs c') = map withoutSig (outgoingHTLCs c)"
    "map withoutSig (incomingHTLCs c') = map withoutSig (incomingHTLCs c)"
  using assms by (cases c; cases c'; simp add: stripSigs_def)+

lemma ReceiveNewCommitment_Inr:
  assumes "ReceiveNewCommitment env ch commitSig htlcSigs = (ch', Inr ())"
  defines "lc \<equiv> ch_lc ch"
  defines "ti \<equiv> logIndex (remoteUpdateLog lc)" and "oi \<equiv> ourMessageIndex (tail (remoteCommitChain lc))"
  obtains s k lc1 c c' where "validateCommitmentSanity lc ti oi False None None = Inr ()"
    "AtIndex (ch_producer ch) (currentHeight lc + 1) = Inr s"
    "k = DeriveCommitmentKeys (env_cv env) (ComputeCommitmentPoint (env_cv env) s) True (ChanType (channelState lc)) (ch_localKeys ch) (ch_remoteKeys ch)"
    "fetchCommitmentView (env_lib env) (ch_builder ch) lc False oi (ourHtlcIndex (tail (remoteCommitChain lc))) ti
       (htlcCounter (remoteUpdateLog lc)) k = (lc1, Inr c)"
    "verifyCommitment env (ch\<lparr>ch_lc := lc1\<rparr>) k c commitSig htlcSigs (currentHeight lc + 1) = Inr c'"
    "ch' = ch\<lparr>ch_lc := lc1\<lparr>localCommitChain := localCommitChain lc1 @ [c']\<rparr>\<rparr>"
  using assms unfolding ReceiveNewCommitment_def
  by (auto simp: Let_def addCommitment_def split: sum.splits prod.splits)

lemma RevokeCurrentCommitment_Inr:
  assumes "RevokeCurrentCommitment env ch = (ch', Inr (msg, htlcs))"
  defines "lc \<equiv> ch_lc ch"
  defines "lc1 \<equiv> lc\<lparr>localCommitChain := advanceTail (localCommitChain lc), currentHeight := currentHeight lc + 1\<rparr>"
  defines "d \<equiv> toDiskCommit (tail (localCommitChain lc1)) True"
  shows "generateRevocation env ch (currentHeight lc) = Inr msg" "localCommitChain lc1 \<noteq> []" "htlcs = Htlcs d"
    "ch' = ch\<lparr>ch_lc := lc1\<lparr>channelState := (channelState lc)\<lparr>LocalCommitment := d\<rparr>\<rparr>,
        ch_db := (ch_db ch)\<lparr>db_chanInfo := channelState lc, db_localCommitment := d,
          db_unsignedAckedUpdates := Some (map storeUpdate (getUnsignedAckedUpdates lc1 (chanIDOf ch))), db_lastWasRevoke := True,
          db_remoteUnsignedLocalUpdates := map_option (filter (\<lambda>u. lu_LogIndex u \<ge> LocalLogIndex d)) (db_remoteUnsignedLocalUpdates (ch_db ch))\<rparr>\<rparr>"
    "\<not> hasChanStatus (chanStatus ch) ChanStatusRestored" "db_chanStatus (ch_db ch) = 0"
  using assms unfolding RevokeCurrentCommitment_def
  by (auto simp: Let_def UpdateCommitment_def sbind_eq_Inr inTransaction_Inr split: sum.splits if_splits)


lemma AdvanceCommitChainTail_Inr:
  assumes "AdvanceCommitChainTail env ch pkg us = Inr ch'"
  obtains d a l f where "db_commitDiff (ch_db ch) = Some d"
    "ch' = ch\<lparr>ch_db := (ch_db ch)\<lparr>db_revocationState := (ch_store ch, RemoteCurrentRevocation ch, RemoteNextRevocation ch),
        db_remoteCommitment := cd_Commitment d, db_commitDiff := None,
        db_revocationLog := (db_revocationLog (ch_db ch))
          (CommitHeight (RemoteCommitment (channelState (ch_lc ch))) \<mapsto> RemoteCommitment (channelState (ch_lc ch))),
        db_fwdPkgs := f, db_unsignedAckedUpdates := a, db_remoteUnsignedLocalUpdates := l\<rparr>,
      ch_lc := (ch_lc ch)\<lparr>channelState := (channelState (ch_lc ch))\<lparr>RemoteCommitment := cd_Commitment d\<rparr>\<rparr>\<rparr>"
    "\<not> hasChanStatus (chanStatus ch) ChanStatusRestored" "db_chanStatus (ch_db ch) = 0"
proof (cases "db_commitDiff (ch_db ch)")
  case None
  then show thesis using assms by (simp add: AdvanceCommitChainTail_def Let_def sbind_eq_Inr inTransaction_Inr)
next
  case (Some d)
  show thesis
  proof (cases "db_unsignedAckedUpdates (ch_db ch)")
    case None
    with assms Some that [OF Some, where a = None and l = "db_remoteUnsignedLocalUpdates (ch_db ch)"] show thesis
      by (cases "ch_db ch") (auto simp: AdvanceCommitChainTail_def Let_def sbind_eq_Inr inTransaction_Inr)
  next
    case (Some acked)
    with assms \<open>db_commitDiff (ch_db ch) = Some d\<close> that [OF \<open>db_commitDiff (ch_db ch) = Some d\<close>] show thesis
      by (cases "ch_db ch") (auto simp: AdvanceCommitChainTail_def Let_def sbind_eq_Inr inTransaction_Inr)
  qed
qed


lemma ReceiveRevocation_Inr:
  assumes "ReceiveRevocation env ch msg = (ch', Inr (pkg, adds, sfs, htlcs))"
  defines "lc \<equiv> ch_lc ch"
  obtains store d es a l f ours theirs where "AddNextEntry (ch_store ch) (raa_Revocation msg) = Inr store"
    "RemoteCurrentRevocation ch = Some (ComputeCommitmentPoint (env_cv env) (raa_Revocation msg))"
    "db_commitDiff (ch_db ch) = Some d"
    "\<exists>r. forwardLoop (height (tail (remoteCommitChain lc)) + 1) (height (tail (localCommitChain lc))) (ShortChanID (channelState lc))
       (chanIDOf ch) 0 0 (entries (remoteUpdateLog lc)) = (es, r)"
    "compactLogs (localUpdateLog lc) ((remoteUpdateLog lc)\<lparr>entries := es\<rparr>)
       (height (tail (localCommitChain lc))) (height (tail (remoteCommitChain lc)) + 1) = Some (ours, theirs)"
    "ch' = ch\<lparr>ch_store := store, RemoteCurrentRevocation := RemoteNextRevocation ch, RemoteNextRevocation := raa_NextRevocationKey msg,
       ch_db := (ch_db ch)\<lparr>db_revocationState := (store, RemoteNextRevocation ch, raa_NextRevocationKey msg),
         db_remoteCommitment := cd_Commitment d, db_commitDiff := None,
         db_revocationLog := (db_revocationLog (ch_db ch))
           (CommitHeight (RemoteCommitment (channelState lc)) \<mapsto> RemoteCommitment (channelState lc)),
         db_fwdPkgs := f, db_unsignedAckedUpdates := a, db_remoteUnsignedLocalUpdates := l\<rparr>,
       ch_lc := lc\<lparr>channelState := (channelState lc)\<lparr>RemoteCommitment := cd_Commitment d\<rparr>,
         remoteCommitChain := advanceTail (remoteCommitChain lc), localUpdateLog := ours, remoteUpdateLog := theirs\<rparr>\<rparr>"
    "\<not> hasChanStatus (chanStatus ch) ChanStatusRestored" "db_chanStatus (ch_db ch) = 0"
proof -
  obtain store where s: "AddNextEntry (ch_store ch) (raa_Revocation msg) = Inr store"
    using assms(1) by (auto simp: ReceiveRevocation_def split: sum.splits)
  have k: "RemoteCurrentRevocation ch = Some (ComputeCommitmentPoint (env_cv env) (raa_Revocation msg))"
    using assms(1) s by (auto simp: ReceiveRevocation_def Let_def split: if_splits)
  obtain es adds' au sfs' su where l: "forwardLoop (height (tail (remoteCommitChain lc)) + 1) (height (tail (localCommitChain lc)))
       (ShortChanID (channelState lc)) (chanIDOf ch) 0 0 (entries (remoteUpdateLog lc)) = (es, adds', au, sfs', su)"
    by (metis prod_cases5)
  show thesis
    using assms(1) s k l that [OF s k] unfolding ReceiveRevocation_def lc_def
    by (auto simp: Let_def split: sum.splits option.splits elim!: AdvanceCommitChainTail_Inr)
qed


section \<open>A failing operation leaves the disk as it was\<close>

lemma Sign_keeps_db: "SignNextCommitment env ch = (ch', Inl e) \<Longrightarrow> ch_db ch' = ch_db ch"
  unfolding SignNextCommitment_def
  by (cases "RemoteNextRevocation ch")
    (auto simp: Let_def extendRemoteChain_def split: if_splits sum.splits prod.splits)

lemma Receive_keeps_db: "ReceiveNewCommitment env ch s ss = (ch', r) \<Longrightarrow> ch_db ch' = ch_db ch"
  unfolding ReceiveNewCommitment_def by (auto simp: Let_def split: sum.splits prod.splits)

lemma Revoke_keeps_db: "RevokeCurrentCommitment env ch = (ch', Inl e) \<Longrightarrow> ch_db ch' = ch_db ch"
  unfolding RevokeCurrentCommitment_def by (auto simp: Let_def split: sum.splits if_splits)

lemma Revocation_keeps_db:
  "ReceiveRevocation env ch msg = (ch', Inl e) \<Longrightarrow> e \<noteq> CompactPanic \<Longrightarrow> ch_db ch' = ch_db ch"
  unfolding ReceiveRevocation_def by (auto simp: Let_def split: sum.splits if_splits prod.splits option.splits)

section \<open>The invariant of memory and disk\<close>

text \<open>The signatures of HTLCs are on disk but are not read back into the memory.\<close>

definition blank :: "ChannelCommitment \<Rightarrow> ChannelCommitment" where
  "blank d = d\<lparr>Htlcs := map (\<lambda>h. h\<lparr>h_Signature := []\<rparr>) (Htlcs d)\<rparr>"

fun consecutive :: "commitmentChain \<Rightarrow> bool" where
  "consecutive [] = False"
| "consecutive [c] = True"
| "consecutive (c # d # s) = (height d = height c + 1 \<and> consecutive (d # s))"

definition diskRemote :: "'pk ChanBucket \<Rightarrow> ChannelCommitment list" where
  "diskRemote db = db_remoteCommitment db # (case db_commitDiff db of None \<Rightarrow> [] | Some d \<Rightarrow> [cd_Commitment d])"

definition diskState :: "'pk ChanBucket \<Rightarrow> OpenChannel" where
  "diskState db = (db_chanInfo db)\<lparr>LocalCommitment := db_localCommitment db, RemoteCommitment := db_remoteCommitment db\<rparr>"

definition disk_inv :: "'pk Chan \<Rightarrow> bool" where
  "disk_inv ch \<longleftrightarrow>
     consecutive (localCommitChain (ch_lc ch)) \<and> consecutive (remoteCommitChain (ch_lc ch))
     \<and> currentHeight (ch_lc ch) = height (tail (localCommitChain (ch_lc ch)))
     \<and> blank (toDiskCommit (tail (localCommitChain (ch_lc ch))) True) = blank (db_localCommitment (ch_db ch))
     \<and> map (\<lambda>c. blank (toDiskCommit c False)) (remoteCommitChain (ch_lc ch)) = map blank (diskRemote (ch_db ch))
     \<and> stripTotals (channelState (ch_lc ch)) = stripTotals (diskState (ch_db ch))
     \<and> BtcCapacity (ch_lc ch) = cs_BtcCapacity (channelState (ch_lc ch))
     \<and> AssetCapacity (ch_lc ch) = cs_AssetCapacity (channelState (ch_lc ch))
     \<and> db_revocationState (ch_db ch) = (ch_store ch, RemoteCurrentRevocation ch, RemoteNextRevocation ch)
     \<and> chanStatus ch = db_chanStatus (ch_db ch)"

lemma consecutive_snoc: "consecutive s \<Longrightarrow> height c = height (tip s) + 1 \<Longrightarrow> consecutive (s @ [c])"
  by (induction s rule: consecutive.induct) (auto simp: tip_def)

lemma consecutive_tl:
  assumes "consecutive s" "advanceTail s \<noteq> []"
  shows "consecutive (advanceTail s)" "height (tail (advanceTail s)) = height (tail s) + 1"
  using assms by (cases s rule: consecutive.cases; simp add: advanceTail_def tail_def)+

lemma consecutive_tail: "consecutive s \<Longrightarrow> tail (s @ t) = tail s"
  by (cases s) (auto simp: tail_def)

lemma blank_storeDiff [simp]: "cd_Commitment (storeDiff d) = cd_Commitment d"
  by (simp add: storeDiff_def)

lemma createCommitDiff_commitment [simp]: "cd_Commitment (createCommitDiff lc i c s ss) = toDiskCommit c False"
  by (simp add: createCommitDiff_def Let_def)

lemma sameConfig_strip: "sameConfig lc lc' \<Longrightarrow> stripTotals (channelState lc') = stripTotals (channelState lc)"
  by (simp add: sameConfig_def)

lemma stripTotals_fields:
  assumes "stripTotals a = stripTotals b"
  shows "LocalCommitment a = LocalCommitment b" "RemoteCommitment a = RemoteCommitment b" "ChanType a = ChanType b"
    "cs_BtcCapacity a = cs_BtcCapacity b" "cs_AssetCapacity a = cs_AssetCapacity b" "cs_AssetID a = cs_AssetID b"
    "IsInitiator a = IsInitiator b" "LocalChanCfg a = LocalChanCfg b" "RemoteChanCfg a = RemoteChanCfg b" "ShortChanID a = ShortChanID b"
  using assms by (cases a; cases b; simp add: stripTotals_def)+

lemma stripTotals_commitments:
  assumes "stripTotals a = stripTotals b"
  shows "stripTotals (a\<lparr>LocalCommitment := d\<rparr>) = stripTotals (b\<lparr>LocalCommitment := d\<rparr>)"
    "stripTotals (a\<lparr>RemoteCommitment := d\<rparr>) = stripTotals (b\<lparr>RemoteCommitment := d\<rparr>)"
  using assms by (cases a; cases b; simp add: stripTotals_def)+

lemma fetched_height:
  "fetchCommitmentView lib cb lc rc oi oh ti th k = (lc', Inr c) \<Longrightarrow> height c = height (tip (chainOf lc rc)) + 1"
  by (erule fetchCommitmentView_Inr) simp

lemma disk_inv_commitments:
  assumes "disk_inv ch"
  shows "LocalCommitment (channelState (ch_lc ch)) = db_localCommitment (ch_db ch)"
    "RemoteCommitment (channelState (ch_lc ch)) = db_remoteCommitment (ch_db ch)"
  using assms stripTotals_fields(1,2) [of "channelState (ch_lc ch)" "diskState (ch_db ch)"]
  by (simp_all add: disk_inv_def diskState_def)

lemma set_same_commitment:
  "RemoteCommitment cs = d \<Longrightarrow> cs\<lparr>LocalCommitment := e, RemoteCommitment := d\<rparr> = cs\<lparr>LocalCommitment := e\<rparr>"
  "LocalCommitment cs = d \<Longrightarrow> cs\<lparr>LocalCommitment := d\<rparr> = cs"
  by (cases cs; simp)+

subsection \<open>The operations keep it\<close>

lemma Sign_disk_inv:
  assumes inv: "disk_inv ch" and op: "SignNextCommitment env ch = (ch', Inr r)"
  shows "disk_inv ch'"
proof -
  obtain k lc1 c p where b: "\<not> hasUnackedCommitment (remoteCommitChain (ch_lc ch))"
    "fetchCommitmentView (env_lib env) (ch_builder ch) (ch_lc ch) True (logIndex (localUpdateLog (ch_lc ch)))
       (htlcCounter (localUpdateLog (ch_lc ch))) (theirMessageIndex (tail (localCommitChain (ch_lc ch))))
       (theirHtlcIndex (tail (localCommitChain (ch_lc ch)))) k = (lc1, Inr c)"
    "extendRemoteChain env (ch\<lparr>ch_lc := lc1\<rparr>) k c = (ch', Inr r)"
    by (rule SignNextCommitment_built [OF op]) blast
  obtain f sig ss where ch': "ch' = ch\<lparr>ch_lc := lc1, ch_db := (ch_db ch)\<lparr>db_fwdPkgs := f, db_lastWasRevoke := False,
       db_commitDiff := Some (storeDiff (createCommitDiff lc1 (chanIDOf (ch\<lparr>ch_lc := lc1\<rparr>)) c sig ss))\<rparr>,
     ch_lc := lc1\<lparr>remoteCommitChain := remoteCommitChain lc1 @ [c]\<rparr>\<rparr>"
    using b(3) by (cases r; cases "snd r") (auto elim!: extendRemoteChain_Inr)
  note cfg = sameConfigD [OF fetchCommitmentView_config [OF b(2)]]
    and same = sameConfig_strip [OF fetchCommitmentView_config [OF b(2)]]
  note same = same stripTotals_fields(5) [OF same]
  obtain c0 where c0: "remoteCommitChain (ch_lc ch) = [c0]" "db_commitDiff (ch_db ch) = None"
    using inv b(1) by (cases "remoteCommitChain (ch_lc ch)") (auto simp: disk_inv_def hasUnackedCommitment_def diskRemote_def split: option.splits)
  have "height c = height c0 + 1" using fetched_height [OF b(2)] c0 by (simp add: chainOf_def tip_def)
  with inv cfg c0 same show ?thesis
    by (simp add: disk_inv_def ch' diskRemote_def diskState_def tail_def)
qed

lemma Receive_disk_inv:
  assumes inv: "disk_inv ch" and op: "ReceiveNewCommitment env ch s ss = (ch', Inr ())"
  shows "disk_inv ch'"
proof -
  obtain k lc1 c c' h where b: "fetchCommitmentView (env_lib env) (ch_builder ch) (ch_lc ch) False (ourMessageIndex (tail (remoteCommitChain (ch_lc ch))))
       (ourHtlcIndex (tail (remoteCommitChain (ch_lc ch)))) (logIndex (remoteUpdateLog (ch_lc ch)))
       (htlcCounter (remoteUpdateLog (ch_lc ch))) k = (lc1, Inr c)"
    "verifyCommitment env (ch\<lparr>ch_lc := lc1\<rparr>) k c s ss h = Inr c'"
    "ch' = ch\<lparr>ch_lc := lc1\<lparr>localCommitChain := localCommitChain lc1 @ [c']\<rparr>\<rparr>"
    by (rule ReceiveNewCommitment_Inr [OF op]) blast
  note cfg = sameConfigD [OF fetchCommitmentView_config [OF b(1)]]
    and same = sameConfig_strip [OF fetchCommitmentView_config [OF b(1)]]
  have "height c' = height (tip (localCommitChain (ch_lc ch))) + 1"
    using fetched_height [OF b(1)] strip_fields(1) [OF verifyCommitment_strip [OF b(2)]] by (simp add: chainOf_def)
  with inv cfg same stripTotals_fields(5) [OF same] show ?thesis
    by (simp add: disk_inv_def b(3) consecutive_snoc consecutive_tail)
qed

lemma Revoke_disk_inv:
  assumes inv: "disk_inv ch" and op: "RevokeCurrentCommitment env ch = (ch', Inr r)"
  shows "disk_inv ch'"
proof -
  obtain msg htlcs where r: "r = (msg, htlcs)" by (cases r)
  note b = RevokeCurrentCommitment_Inr [OF op [unfolded r]]
  have "advanceTail (localCommitChain (ch_lc ch)) \<noteq> []" using b(2) by simp
  note tl = consecutive_tl [OF _ this]
  from inv tl show ?thesis
    unfolding disk_inv_def b(4) by (simp add: diskRemote_def diskState_def set_same_commitment(1) [OF disk_inv_commitments(2) [OF inv]])
qed

lemma Revocation_disk_inv:
  assumes inv: "disk_inv ch" and op: "ReceiveRevocation env ch msg = (ch', Inr r)"
  shows "disk_inv ch'"
proof -
  obtain pkg adds sfs htlcs where r: "r = (pkg, adds, sfs, htlcs)" by (cases r)
  obtain store d a l f ours theirs where d: "db_commitDiff (ch_db ch) = Some d"
    and ch': "ch' = ch\<lparr>ch_store := store, RemoteCurrentRevocation := RemoteNextRevocation ch, RemoteNextRevocation := raa_NextRevocationKey msg,
       ch_db := (ch_db ch)\<lparr>db_revocationState := (store, RemoteNextRevocation ch, raa_NextRevocationKey msg),
         db_remoteCommitment := cd_Commitment d, db_commitDiff := None,
         db_revocationLog := (db_revocationLog (ch_db ch))
           (CommitHeight (RemoteCommitment (channelState (ch_lc ch))) \<mapsto> RemoteCommitment (channelState (ch_lc ch))),
         db_fwdPkgs := f, db_unsignedAckedUpdates := a, db_remoteUnsignedLocalUpdates := l\<rparr>,
       ch_lc := (ch_lc ch)\<lparr>channelState := (channelState (ch_lc ch))\<lparr>RemoteCommitment := cd_Commitment d\<rparr>,
         remoteCommitChain := advanceTail (remoteCommitChain (ch_lc ch)), localUpdateLog := ours, remoteUpdateLog := theirs\<rparr>\<rparr>"
    by (rule ReceiveRevocation_Inr [OF op [unfolded r]]) blast
  have "advanceTail (remoteCommitChain (ch_lc ch)) \<noteq> []"
    using inv d by (auto simp: disk_inv_def diskRemote_def advanceTail_def map_eq_Cons_conv)
  note tl = consecutive_tl [OF _ this]
  have chain: "map (\<lambda>c. blank (toDiskCommit c False)) (advanceTail (remoteCommitChain (ch_lc ch))) = [blank (cd_Commitment d)]"
    using inv d by (auto simp: disk_inv_def diskRemote_def advanceTail_def map_eq_Cons_conv)
  have st: "stripTotals ((channelState (ch_lc ch))\<lparr>RemoteCommitment := cd_Commitment d\<rparr>)
      = stripTotals ((diskState (ch_db ch))\<lparr>RemoteCommitment := cd_Commitment d\<rparr>)"
    using inv by (intro stripTotals_commitments) (simp add: disk_inv_def)
  from inv tl chain st show ?thesis
    unfolding disk_inv_def ch' by (simp add: diskRemote_def diskState_def)
qed

lemma Insert_disk_inv:
  "disk_inv ch \<Longrightarrow> InsertNextRevocation env ch p = (ch', Inr ()) \<Longrightarrow> disk_inv ch'"
  by (auto simp: InsertNextRevocation_def disk_inv_def Let_def diskRemote_def diskState_def split: if_splits)

lemma Update_disk_inv:
  assumes "disk_inv ch" "sameConfig (ch_lc ch) lc'"
  shows "disk_inv (ch\<lparr>ch_lc := lc'\<rparr>)"
  using assms sameConfigD [OF assms(2)] sameConfig_strip [OF assms(2)] stripTotals_fields(5) [OF sameConfig_strip [OF assms(2)]]
  by (simp add: disk_inv_def)

section \<open>A restart recovers the commitments\<close>

definition normHtlc :: "HTLC \<Rightarrow> HTLC" where
  "normHtlc h = h\<lparr>h_Signature := [], h_AssetId := 0\<rparr>"

lemma diskHtlcToPayDesc_disk:
  "diskHtlcToPayDesc lib cs rate h lk rk isLocal a = Inr pd \<Longrightarrow> diskHtlc isLocal (h_Incoming h) pd = normHtlc h"
  by (cases h) (auto simp: diskHtlcToPayDesc_def sbind_eq_Inr diskHtlc_def normHtlc_def zeroPD_def)

lemma extractPayDescs_disk:
  "extractPayDescs lib cs rate hs lk rk isLocal a = Inr (inc, out) \<Longrightarrow>
     map (diskHtlc isLocal False) out = map normHtlc (filter (\<lambda>h. \<not> h_Incoming h) hs)
     \<and> map (diskHtlc isLocal True) inc = map normHtlc (filter h_Incoming hs)"
proof (induction hs arbitrary: inc out)
  case (Cons h hs)
  then show ?case
    by (auto simp: sbind_eq_Inr dest!: diskHtlcToPayDesc_disk split: if_splits)
qed simp

lemma blank_height: "blank (toDiskCommit c b) = blank d \<Longrightarrow> height c = CommitHeight d"
  by (drule arg_cong [where f = CommitHeight]) (simp add: blank_def toDiskCommit_def)

lemma blank_htlcs:
  assumes "blank (toDiskCommit c b) = blank d"
  shows "map normHtlc (filter (\<lambda>h. \<not> h_Incoming h) (Htlcs d)) @ map normHtlc (filter h_Incoming (Htlcs d)) = map (\<lambda>h. h\<lparr>h_Signature := []\<rparr>) (Htlcs d)"
proof -
  let ?s = "\<lambda>h. h\<lparr>h_Signature := []\<rparr>"
  let ?o = "map (diskHtlc b False) (outgoingHTLCs c)" and ?i = "map (diskHtlc b True) (incomingHTLCs c)"
  have eq: "map ?s (Htlcs d) = map ?s (?o @ ?i)"
    using arg_cong [OF assms, of Htlcs] by (simp add: blank_def toDiskCommit_def)
  have n: "normHtlc h = normHtlc (?s h)" and inc: "h_Incoming h = h_Incoming (?s h)" for h by (simp_all add: normHtlc_def)
  have f: "map normHtlc (filter P xs) = map normHtlc (filter P (map ?s xs))" if "\<And>h. P h = P (?s h)" for P xs
    using that n by (induction xs) auto
  have o: "map normHtlc (filter (\<lambda>h. \<not> h_Incoming h) (map ?s (?o @ ?i))) = map ?s ?o"
    and i: "map normHtlc (filter h_Incoming (map ?s (?o @ ?i))) = map ?s ?i"
    by (simp_all add: filter_map comp_def diskHtlc_def normHtlc_def)
  show ?thesis
    using f [of "\<lambda>h. \<not> h_Incoming h" "Htlcs d"] f [of h_Incoming "Htlcs d"] unfolding eq o i by simp
qed

lemma diskCommitToMemCommit_disk:
  assumes "diskCommitToMemCommit env ch isLocal d lp rp = Inr c'" and "blank (toDiskCommit c isLocal) = blank d"
  shows "blank (toDiskCommit c' isLocal) = blank d" "height c' = CommitHeight d"
proof -
  obtain inc out where x: "extractPayDescs (env_lib env) (channelState (ch_lc ch)) (FeePerKw d) (Htlcs d) (ringOf env ch True lp)
      (ringOf env ch False rp) isLocal (cs_AssetID (channelState (ch_lc ch))) = Inr (inc, out)"
    "outgoingHTLCs c' = out" "incomingHTLCs c' = inc"
    using assms(1) by (auto simp: diskCommitToMemCommit_def Let_def sbind_eq_Inr)
  have h: "map (\<lambda>h. h\<lparr>h_Signature := []\<rparr>) (Htlcs (toDiskCommit c' isLocal)) = map (\<lambda>h. h\<lparr>h_Signature := []\<rparr>) (Htlcs d)"
    using extractPayDescs_disk [OF x(1)] blank_htlcs [OF assms(2)] x(2,3) by (simp add: toDiskCommit_def comp_def normHtlc_def)
  from assms(1) h show "blank (toDiskCommit c' isLocal) = blank d" "height c' = CommitHeight d"
    by (cases d; auto simp: diskCommitToMemCommit_def Let_def sbind_eq_Inr toDiskCommit_def blank_def)+
qed

lemma restoreStateLogs_logs:
  "restoreStateLogs lib lc l r p us ls = Inr lc' \<Longrightarrow> \<exists>a b. lc' = lc\<lparr>localUpdateLog := a, remoteUpdateLog := b\<rparr>"
  by (auto simp: restoreStateLogs_def Let_def sbind_eq_Inr)

lemma restoreCommitState_Inr:
  assumes "restoreCommitState env ch = Inr ch'" and "localCommitChain (ch_lc ch) = []" "remoteCommitChain (ch_lc ch) = []"
  defines "cs \<equiv> channelState (ch_lc ch)"
  obtains lp l r a b where "diskCommitToMemCommit env ch True (LocalCommitment cs) lp (RemoteCurrentRevocation ch) = Inr l"
    "diskCommitToMemCommit env ch False (RemoteCommitment cs) lp (RemoteCurrentRevocation ch) = Inr r"
    "db_commitDiff (ch_db ch) = None"
    "ch' = ch\<lparr>ch_lc := (ch_lc ch)\<lparr>localCommitChain := [l], remoteCommitChain := [r], localUpdateLog := a, remoteUpdateLog := b\<rparr>\<rparr>"
  | lp l r a b d c where "diskCommitToMemCommit env ch True (LocalCommitment cs) lp (RemoteCurrentRevocation ch) = Inr l"
    "diskCommitToMemCommit env ch False (RemoteCommitment cs) lp (RemoteCurrentRevocation ch) = Inr r"
    "db_commitDiff (ch_db ch) = Some d"
    "diskCommitToMemCommit env ch False (cd_Commitment d) None (RemoteNextRevocation ch) = Inr c"
    "ch' = ch\<lparr>ch_lc := (ch_lc ch)\<lparr>localCommitChain := [l], remoteCommitChain := [r, c], localUpdateLog := a, remoteUpdateLog := b\<rparr>\<rparr>"
proof -
  have ls: "liftScript x = Inr y \<longleftrightarrow> x = Inr y" for x :: "commit_error + 'z" and y by (auto simp: liftScript_def split: sum.splits)
  show thesis
  proof (cases "db_commitDiff (ch_db ch)")
    case None
    show thesis
      using assms(1-3) that(1) [OF _ _ None] unfolding restoreCommitState_def restoreChains_def cs_def None
      by (auto simp: Let_def sbind_eq_Inr ls addCommitment_def split: sum.splits dest!: restoreStateLogs_logs)
  next
    case (Some d)
    show thesis
      using assms(1-3) that(2) [OF _ _ Some] unfolding restoreCommitState_def restoreChains_def cs_def Some
      by (cases "ringOf env ch False (RemoteNextRevocation ch)")
        (auto simp: Let_def sbind_eq_Inr ls addCommitment_def split: sum.splits dest!: restoreStateLogs_logs)
  qed
qed

text \<open>What a restart finds: the commitments of both chains, up to the signatures of the HTLCs.\<close>

definition recovered :: "'pk Chan \<Rightarrow> 'pk Chan \<Rightarrow> bool" where
  "recovered ch ch' \<longleftrightarrow>
     blank (toDiskCommit (tail (localCommitChain (ch_lc ch'))) True) = blank (toDiskCommit (tail (localCommitChain (ch_lc ch))) True)
     \<and> map (\<lambda>c. blank (toDiskCommit c False)) (remoteCommitChain (ch_lc ch')) = map (\<lambda>c. blank (toDiskCommit c False)) (remoteCommitChain (ch_lc ch))
     \<and> \<not> hasUnackedCommitment (localCommitChain (ch_lc ch'))
     \<and> ch_store ch' = ch_store ch \<and> RemoteCurrentRevocation ch' = RemoteCurrentRevocation ch
     \<and> RemoteNextRevocation ch' = RemoteNextRevocation ch \<and> currentHeight (ch_lc ch') = currentHeight (ch_lc ch)"

lemma restart_recovers:
  assumes inv: "disk_inv ch" and db: "ch_db ch1 = ch_db ch" and op: "NewLightningChannel env (fetchOpenChannel ch1) = Inr ch'"
  shows "disk_inv ch' \<and> recovered ch ch' \<and> ch_db ch' = ch_db ch \<and> LastWasRevoke ch' = db_lastWasRevoke (ch_db ch)
    \<and> ch_producer ch' = ch_producer ch1 \<and> ch_builder ch' = ch_builder ch1"
proof -
  define c0 where "c0 = (fetchOpenChannel ch1)\<lparr>ch_lc := \<lparr>BtcCapacity = cs_BtcCapacity (diskState (ch_db ch)), AssetCapacity = cs_AssetCapacity (diskState (ch_db ch)),
                         currentHeight = CommitHeight (db_localCommitment (ch_db ch)), remoteCommitChain = newCommitmentChain,
                         localCommitChain = newCommitmentChain, channelState = diskState (ch_db ch),
                         localUpdateLog = newUpdateLog (LocalLogIndex (db_remoteCommitment (ch_db ch))) (LocalHtlcIndex (db_remoteCommitment (ch_db ch))),
                         remoteUpdateLog = newUpdateLog (RemoteLogIndex (db_localCommitment (ch_db ch))) (RemoteHtlcIndex (db_localCommitment (ch_db ch)))\<rparr>\<rparr>"
  have r: "restoreCommitState env c0 = Inr ch'"
    using op by (simp add: NewLightningChannel_def Let_def c0_def fetchOpenChannel_def diskState_def db split: prod.splits)
  have f: "localCommitChain (ch_lc c0) = []" "remoteCommitChain (ch_lc c0) = []" "channelState (ch_lc c0) = diskState (ch_db ch)"
    "ch_db c0 = ch_db ch" "ch_store c0 = ch_store ch" "RemoteCurrentRevocation c0 = RemoteCurrentRevocation ch"
    "RemoteNextRevocation c0 = RemoteNextRevocation ch" "chanStatus c0 = db_chanStatus (ch_db ch)"
    "LastWasRevoke c0 = db_lastWasRevoke (ch_db ch)" "ch_producer c0 = ch_producer ch1" "ch_builder c0 = ch_builder ch1" "currentHeight (ch_lc c0) = CommitHeight (db_localCommitment (ch_db ch))"
    "BtcCapacity (ch_lc c0) = cs_BtcCapacity (diskState (ch_db ch))" "AssetCapacity (ch_lc c0) = cs_AssetCapacity (diskState (ch_db ch))"
    using inv by (simp_all add: c0_def fetchOpenChannel_def disk_inv_def newCommitmentChain_def db Let_def)
  have ds: "LocalCommitment (diskState (ch_db ch)) = db_localCommitment (ch_db ch)"
    "RemoteCommitment (diskState (ch_db ch)) = db_remoteCommitment (ch_db ch)" by (simp_all add: diskState_def)
  note mem = diskCommitToMemCommit_disk
  have lh: "height (tail (localCommitChain (ch_lc ch))) = CommitHeight (db_localCommitment (ch_db ch))"
    using inv unfolding disk_inv_def by (blast dest: blank_height)
  from r f(1,2) show ?thesis
  proof (cases rule: restoreCommitState_Inr)
    case (1 lp l rr a b)
    have "blank (toDiskCommit l True) = blank (db_localCommitment (ch_db ch))" "height l = CommitHeight (db_localCommitment (ch_db ch))"
      using mem [OF 1(1), of "tail (localCommitChain (ch_lc ch))"] inv by (simp_all add: f ds disk_inv_def)
    moreover obtain c where c: "remoteCommitChain (ch_lc ch) = [c]" "blank (toDiskCommit c False) = blank (db_remoteCommitment (ch_db ch))"
      using inv 1(3) by (auto simp: disk_inv_def diskRemote_def f map_eq_Cons_conv)
    moreover have "blank (toDiskCommit rr False) = blank (db_remoteCommitment (ch_db ch))"
      using mem(1) [OF 1(2), of c] c by (simp add: f ds)
    ultimately show ?thesis
      using inv 1(3) lh by (simp add: disk_inv_def recovered_def 1(4) f diskRemote_def tail_def hasUnackedCommitment_def)
  next
    case (2 lp l rr a b d c)
    have "blank (toDiskCommit l True) = blank (db_localCommitment (ch_db ch))" "height l = CommitHeight (db_localCommitment (ch_db ch))"
      using mem [OF 2(1), of "tail (localCommitChain (ch_lc ch))"] inv by (simp_all add: f ds disk_inv_def)
    moreover obtain e g where e: "remoteCommitChain (ch_lc ch) = [e, g]" "blank (toDiskCommit e False) = blank (db_remoteCommitment (ch_db ch))"
      "blank (toDiskCommit g False) = blank (cd_Commitment d)"
      using inv 2(3) by (auto simp: disk_inv_def diskRemote_def f map_eq_Cons_conv)
    moreover have "blank (toDiskCommit rr False) = blank (db_remoteCommitment (ch_db ch))" "height rr = CommitHeight (db_remoteCommitment (ch_db ch))"
      using mem [OF 2(2), of e] e by (simp_all add: f ds)
    moreover have "blank (toDiskCommit c False) = blank (cd_Commitment d)" "height c = CommitHeight (cd_Commitment d)"
      using mem [OF 2(4), of g] e by (simp_all add: f)
    moreover have "height e = CommitHeight (db_remoteCommitment (ch_db ch))" "height g = CommitHeight (cd_Commitment d)"
      using e(2,3) by (blast dest: blank_height)+
    ultimately show ?thesis
      using inv 2(3) lh by (simp add: disk_inv_def recovered_def 2(5) f diskRemote_def tail_def hasUnackedCommitment_def)
  qed
qed

section \<open>The steps of a channel\<close>

text \<open>An operation that fails after it has changed the memory; the caller then drops the memory.\<close>

inductive failed :: "'pk Env \<Rightarrow> 'pk Chan \<Rightarrow> 'pk Chan \<Rightarrow> bool" for env where
  failed_sign: "SignNextCommitment env ch = (ch', Inl e) \<Longrightarrow> failed env ch ch'"
| failed_receive: "ReceiveNewCommitment env ch sig sigs = (ch', Inl e) \<Longrightarrow> failed env ch ch'"
| failed_revoke: "RevokeCurrentCommitment env ch = (ch', Inl e) \<Longrightarrow> failed env ch ch'"
| failed_revocation: "ReceiveRevocation env ch msg = (ch', Inl e) \<Longrightarrow> e \<noteq> CompactPanic \<Longrightarrow> failed env ch ch'"

text \<open>A successful operation of a channel in memory.\<close>

inductive live_step :: "'pk Env \<Rightarrow> 'pk Chan \<Rightarrow> 'pk Chan \<Rightarrow> bool" for env where
  add: "AddHTLC (ch_lc ch) m key = Inr (lc, i) \<Longrightarrow> live_step env ch (ch\<lparr>ch_lc := lc\<rparr>)"
| receive_add: "ReceiveHTLC (ch_lc ch) m = Inr (lc, i) \<Longrightarrow> live_step env ch (ch\<lparr>ch_lc := lc\<rparr>)"
| settle: "SettleHTLC (ch_lc ch) preimage i src dst key = Inr lc \<Longrightarrow> live_step env ch (ch\<lparr>ch_lc := lc\<rparr>)"
| receive_settle: "ReceiveHTLCSettle (ch_lc ch) preimage i = Inr lc \<Longrightarrow> live_step env ch (ch\<lparr>ch_lc := lc\<rparr>)"
| fail: "FailHTLC (ch_lc ch) i reason src dst key = Inr lc \<Longrightarrow> live_step env ch (ch\<lparr>ch_lc := lc\<rparr>)"
| malformed_fail: "MalformedFailHTLC (ch_lc ch) i code sha src = Inr lc \<Longrightarrow> live_step env ch (ch\<lparr>ch_lc := lc\<rparr>)"
| receive_fail: "ReceiveFailHTLC (ch_lc ch) i reason = Inr lc \<Longrightarrow> live_step env ch (ch\<lparr>ch_lc := lc\<rparr>)"
| update_fee: "UpdateFee (ch_lc ch) rate = Inr lc \<Longrightarrow> live_step env ch (ch\<lparr>ch_lc := lc\<rparr>)"
| receive_fee: "ReceiveUpdateFee (ch_lc ch) rate = Inr lc \<Longrightarrow> live_step env ch (ch\<lparr>ch_lc := lc\<rparr>)"
| sign: "SignNextCommitment env ch = (ch', Inr r) \<Longrightarrow> live_step env ch ch'"
| receive_sign: "ReceiveNewCommitment env ch sig sigs = (ch', Inr ()) \<Longrightarrow> live_step env ch ch'"
| revoke: "RevokeCurrentCommitment env ch = (ch', Inr rr) \<Longrightarrow> live_step env ch ch'"
| receive_revoke: "ReceiveRevocation env ch msg = (ch', Inr rs) \<Longrightarrow> live_step env ch ch'"
| next_point: "InsertNextRevocation env ch p = (ch', Inr ()) \<Longrightarrow> live_step env ch ch'"

text \<open>A step of the node: a successful operation, or a restart, also after an operation has failed.\<close>

inductive channel_step :: "'pk Env \<Rightarrow> 'pk Chan \<Rightarrow> 'pk Chan \<Rightarrow> bool" for env where
  live: "live_step env ch ch' \<Longrightarrow> channel_step env ch ch'"
| restart: "NewLightningChannel env (fetchOpenChannel ch) = Inr ch' \<Longrightarrow> channel_step env ch ch'"
| failed_restart: "failed env ch ch1 \<Longrightarrow> NewLightningChannel env (fetchOpenChannel ch1) = Inr ch' \<Longrightarrow> channel_step env ch ch'"

lemma failed_keeps_db: "failed env ch ch' \<Longrightarrow> ch_db ch' = ch_db ch"
  by (induction rule: failed.induct) (auto dest: Sign_keeps_db Receive_keeps_db Revoke_keeps_db Revocation_keeps_db)

lemmas update_defs = AddHTLC_def ReceiveHTLC_def removal_defs UpdateFee_def ReceiveUpdateFee_def

lemma log_only: "sameConfig lc (lc\<lparr>localUpdateLog := a\<rparr>)" "sameConfig lc (lc\<lparr>remoteUpdateLog := b\<rparr>)"
  "sameConfig lc (lc\<lparr>localUpdateLog := a, remoteUpdateLog := b\<rparr>)" "sameConfig lc (lc\<lparr>remoteUpdateLog := b, localUpdateLog := a\<rparr>)"
  by (simp_all add: sameConfig_def)

lemma update_ops_config:
  "AddHTLC lc m key = Inr (lc', i) \<Longrightarrow> sameConfig lc lc'"
  "ReceiveHTLC lc m = Inr (lc', i) \<Longrightarrow> sameConfig lc lc'"
  "SettleHTLC lc preimage i src dst key = Inr lc' \<Longrightarrow> sameConfig lc lc'"
  "ReceiveHTLCSettle lc preimage i = Inr lc' \<Longrightarrow> sameConfig lc lc'"
  "FailHTLC lc i reason src dst key = Inr lc' \<Longrightarrow> sameConfig lc lc'"
  "MalformedFailHTLC lc i code sha srcr = Inr lc' \<Longrightarrow> sameConfig lc lc'"
  "ReceiveFailHTLC lc i reason = Inr lc' \<Longrightarrow> sameConfig lc lc'"
  "UpdateFee lc rate = Inr lc' \<Longrightarrow> sameConfig lc lc'"
  "ReceiveUpdateFee lc rate = Inr lc' \<Longrightarrow> sameConfig lc lc'"
  unfolding update_defs by (auto simp: sbind_eq_Inr Let_def log_only split: if_splits option.splits)

lemma live_disk_inv: "live_step env ch ch' \<Longrightarrow> disk_inv ch \<Longrightarrow> disk_inv ch'"
  by (induction rule: live_step.induct)
    (blast intro: Update_disk_inv Sign_disk_inv Receive_disk_inv Revoke_disk_inv Revocation_disk_inv Insert_disk_inv dest: update_ops_config)+

lemma step_disk_inv: "channel_step env ch ch' \<Longrightarrow> disk_inv ch \<Longrightarrow> disk_inv ch'"
proof (induction rule: channel_step.induct)
  case (restart ch ch')
  then show ?case using restart_recovers [of ch ch] by simp
next
  case (failed_restart ch ch1 ch')
  then show ?case using restart_recovers [OF _ failed_keeps_db] by blast
qed (rule live_disk_inv)

interpretation disk: invariant_system "channel_step env" disk_inv
  by unfold_locales (rule step_disk_inv)

end
