(* ===== verification/Resync.thy ===== *)
theory Resync
  imports Channel_Disk
begin

text \<open>
  Resynchronisation after a crash: what a restarted channel recovers, and that
  \<open>ProcessChanSyncMsg\<close> sends again exactly the messages that the peer has not seen, in the order in
  which they were first sent.
\<close>

section \<open>Instances\<close>

text \<open>
  A channel whose disk holds what its memory holds, keys that are all the same point, and the stages
  in which an instance is evaluated.
\<close>

definition sampleEnv :: "unit Env" where
  "sampleEnv = \<lparr>env_lib = sampleLib, env_sl = plainSigs, env_cv = unitCurve, env_dbCommits = True\<rparr>"

definition openedChan :: "LightningChannel \<Rightarrow> unit Chan" where
  "openedChan lc =
     (let l = toDiskCommit (tail (localCommitChain lc)) True; r = toDiskCommit (tail (remoteCommitChain lc)) False;
          cs = (channelState lc)\<lparr>LocalCommitment := l, RemoteCommitment := r\<rparr>
      in \<lparr>ch_lc = lc\<lparr>channelState := cs\<rparr>, ch_builder = sampleBuilder,
          ch_signDesc = \<lparr>sd_KeyDesc = (), sd_SingleTweak = [], sd_WitnessScript = [7], sd_Output = \<lparr>out_Value = 1000000, PkScript = [7]\<rparr>\<rparr>,
          ch_localKeys = sampleKeyPoints, ch_remoteKeys = sampleKeyPoints,
          RemoteCurrentRevocation = Some (), RemoteNextRevocation = Some (),
          ch_producer = NewRevocationProducer (replicate 32 5), ch_store = NewRevocationStore, chanStatus = 0, LastWasRevoke = False,
          ch_db = \<lparr>db_chanStatus = 0, db_chanInfo = cs, db_localCommitment = l, db_remoteCommitment = r, db_commitDiff = None,
            db_unsignedAckedUpdates = None, db_remoteUnsignedLocalUpdates = None, db_lastWasRevoke = False,
            db_revocationState = (NewRevocationStore, Some (), Some ()), db_revocationLog = (\<lambda>_. None), db_fwdPkgs = None\<rparr>\<rparr>)"

definition sampleChan :: "unit Chan" where
  "sampleChan = openedChan (withShutdown (sampleChannel 0))"

lemmas sample_defs = openedChan_def withShutdown_def sampleChannel_def sampleState_def Let_def diskRemote_def diskState_def tail_def
  sampleCommitment_def toDiskCommit_def

lemma sample_disk_inv: "disk_inv sampleChan"
  by (simp add: sampleChan_def disk_inv_def sample_defs)

fun signStage where
  "signStage env ch k (lc1, Inl e) = (ch\<lparr>ch_lc := lc1\<rparr>, Inl (DanceCommit e))"
| "signStage env ch k (lc1, Inr c) = extendRemoteChain env (ch\<lparr>ch_lc := lc1\<rparr>) k c"

fun emptyDiff :: "unit Chan \<times> (unit dance_error + Sig \<times> Sig list \<times> HTLC list) \<Rightarrow> bool" where
  "emptyDiff (ch, Inl e) = False"
| "emptyDiff (ch, Inr r) = (case db_commitDiff (ch_db ch) of Some d \<Rightarrow> cd_LogUpdates d = [] \<and> Htlcs (cd_Commitment d) = [] | None \<Rightarrow> False)"

definition tweakedKeys :: "bytes \<Rightarrow> bytes \<Rightarrow> unit CommitmentKeyRing" where
  "tweakedKeys a t = sampleKeys\<lparr>LocalCommitKeyTweak := a, LocalHtlcKeyTweak := t\<rparr>"

lemma sample_ring: "\<exists>a t. DeriveCommitmentKeys unitCurve () ours ct sampleKeyPoints sampleKeyPoints = tweakedKeys a t"
  by (simp add: DeriveCommitmentKeys_def tweakedKeys_def sampleKeys_def Let_def)

lemma sample_signed: "emptyDiff (signStage sampleEnv sampleChan (tweakedKeys a t)
    (buildStage sampleLib sampleBuilder (ch_lc sampleChan) True 0 0 0 0 (tweakedKeys a t) (computeView (ch_lc sampleChan) (fetchHTLCView (ch_lc sampleChan) 0 0) True True)))"
  by code_simp

lemma sample_sane: "validateCommitmentSanity (ch_lc sampleChan) 0 0 True None None = Inr ()"
  by code_simp

lemma sample_sign: "emptyDiff (SignNextCommitment sampleEnv sampleChan)"
proof -
  obtain a t where k: "DeriveCommitmentKeys unitCurve () False (ChanType (channelState (ch_lc sampleChan))) sampleKeyPoints sampleKeyPoints = tweakedKeys a t"
    using sample_ring by blast
  have "SignNextCommitment sampleEnv sampleChan = signStage sampleEnv sampleChan (tweakedKeys a t)
    (fetchCommitmentView sampleLib sampleBuilder (ch_lc sampleChan) True 0 0 0 0 (tweakedKeys a t))"
    using sample_sane k unfolding SignNextCommitment_def 
    by (simp add: sampleChan_def sampleEnv_def sample_defs hasUnackedCommitment_def newUpdateLog_def split: prod.splits sum.splits)
  then show ?thesis using sample_signed by (simp only: fetchCommitmentView_staged)
qed

lemma restart_empty:
  assumes "Htlcs (db_localCommitment (ch_db ch)) = []" "Htlcs (db_remoteCommitment (ch_db ch)) = []"
    and "\<forall>d. db_commitDiff (ch_db ch) = Some d \<longrightarrow> cd_LogUpdates d = [] \<and> Htlcs (cd_Commitment d) = []"
    and "db_unsignedAckedUpdates (ch_db ch) \<in> {None, Some []}" "db_remoteUnsignedLocalUpdates (ch_db ch) = None"
    and "db_revocationState (ch_db ch) = (st, cur, Some p)"
    and "AtIndex (ch_producer ch) (CommitHeight (db_localCommitment (ch_db ch))) = Inr s"
  shows "is_ok (NewLightningChannel env (fetchOpenChannel ch))"
proof (cases "db_commitDiff (ch_db ch)")
  case None
  with assms show ?thesis
  by (auto simp: NewLightningChannel_def restoreCommitState_def restoreChains_def fetchOpenChannel_def Let_def diskCommitToMemCommit_def
      liftScript_def ringOf_def restoreStateLogs_def is_ok_def)
next
  case (Some d)
  with assms show ?thesis
  by (auto simp: NewLightningChannel_def restoreCommitState_def restoreChains_def fetchOpenChannel_def Let_def diskCommitToMemCommit_def
      liftScript_def ringOf_def restoreStateLogs_def is_ok_def)
qed

lemma sample_secret: "h < 2 ^ 48 \<Longrightarrow> \<exists>s. AtIndex (NewRevocationProducer r) h = Inr s"
  using producer_defined [of r h] by (auto simp: is_ok_def word_less_nat_alt split: sum.splits)

lemma sample_crash:
  obtains ch1 sig ss hs ch2 where "SignNextCommitment sampleEnv sampleChan = (ch1, Inr (sig, ss, hs))"
    "NewLightningChannel sampleEnv (fetchOpenChannel ch1) = Inr ch2"
proof -
  obtain ch1 x where x: "SignNextCommitment sampleEnv sampleChan = (ch1, Inr x)" "emptyDiff (ch1, Inr x)"
    using sample_sign by (metis emptyDiff.elims(2))
  obtain sig ss hs where s: "SignNextCommitment sampleEnv sampleChan = (ch1, Inr (sig, ss, hs))" using x(1) by (cases x) auto
  obtain k lc1 c f d where "ch_db ch1 = (ch_db sampleChan)\<lparr>db_fwdPkgs := f, db_lastWasRevoke := False, db_commitDiff := Some d\<rparr>"
    "ch_producer ch1 = ch_producer sampleChan"
    by (rule SignNextCommitment_built [OF s], erule extendRemoteChain_Inr) simp
  moreover obtain t where "AtIndex (NewRevocationProducer (replicate 32 5)) 1 = Inr t" using sample_secret [of 1] by auto
  ultimately have "is_ok (NewLightningChannel sampleEnv (fetchOpenChannel ch1))"
    using x(2) by (intro restart_empty [where s = t and p = "()"]) (auto simp: sampleChan_def sample_defs)
  with s that show thesis by (auto simp: is_ok_def split: sum.splits)
qed

definition sampleSync :: "u64 \<Rightarrow> u64 \<Rightarrow> unit ChannelReestablish" where
  "sampleSync r n = \<lparr>cr_ChanID = replicate 32 0, cr_NextLocalCommitHeight = n, cr_RemoteCommitTailHeight = r,
     cr_LastRemoteCommitSecret = replicate 32 0, cr_LocalUnrevokedCommitPoint = None, cr_ExtraData = []\<rparr>"

section \<open>A restart\<close>

text \<open>
  C2. In every state that a channel reaches from one whose memory agrees with its disk, by updates,
  steps of the commitment dance, failing operations and restarts, a restart recovers the channel:
  both chains hold the same commitments with the same balances, indexes, fees and HTLCs up to the
  signatures, and the revocation state and the height are the same. It does not matter whether an
  operation was failing half-way: what it had done to the memory is rolled back.
\<close>

theorem restart_recovers_channel:
  assumes "(channel_step env)\<^sup>*\<^sup>* ch0 ch" "disk_inv ch0" and "ch1 = ch \<or> failed env ch ch1"
    and "NewLightningChannel env (fetchOpenChannel ch1) = Inr ch'"
  shows "recovered ch ch'"
proof -
  have "disk_inv ch" by (rule disk.reachable_inv [OF assms(1,2)])
  then show ?thesis using restart_recovers [of ch ch1] failed_keeps_db assms(3,4) by blast
qed

theorem restart_recovers_channel_witness:
  "\<exists>ch ch'. (channel_step sampleEnv)\<^sup>*\<^sup>* sampleChan ch \<and> NewLightningChannel sampleEnv (fetchOpenChannel ch) = Inr ch' \<and> recovered ch ch'"
proof -
  obtain ch1 sig ss hs ch2 where s: "SignNextCommitment sampleEnv sampleChan = (ch1, Inr (sig, ss, hs))"
    "NewLightningChannel sampleEnv (fetchOpenChannel ch1) = Inr ch2" by (rule sample_crash)
  have "(channel_step sampleEnv)\<^sup>*\<^sup>* sampleChan ch1" using channel_step.live [OF live_step.sign [OF s(1)]] by blast
  with restart_recovers_channel [OF this sample_disk_inv _ s(2)] s(2) show ?thesis by blast
qed

section \<open>What is sent again\<close>

definition owedRevocation :: "'pk Chan \<Rightarrow> 'pk ChannelReestablish \<Rightarrow> 'pk RevokeAndAck \<Rightarrow> 'pk SyncMsg list" where
  "owedRevocation ch msg m =
     (if cr_RemoteCommitTailHeight msg = height (tail (localCommitChain (ch_lc ch))) then [] else [SyncRevoke m])"

definition owedCommitment :: "'pk Chan \<Rightarrow> 'pk ChannelReestablish \<Rightarrow> 'pk SyncMsg list" where
  "owedCommitment ch msg =
     (case db_commitDiff (ch_db ch) of
        None \<Rightarrow> []
      | Some d \<Rightarrow>
          if cr_NextLocalCommitHeight msg = height (tip (remoteCommitChain (ch_lc ch)))
          then map (\<lambda>u. SyncUpdate (lu_UpdateMsg u)) (cd_LogUpdates d) @ [SyncCommitSig (cd_CommitSig d)] else [])"

text \<open>
  The peer is at most one message of each kind behind: it has seen our local commitment or the one
  before, and it has seen the last commitment that we signed, or not.
\<close>

definition justBehind :: "'pk Chan \<Rightarrow> 'pk ChannelReestablish \<Rightarrow> bool" where
  "justBehind ch msg \<longleftrightarrow>
     (let localTail = height (tail (localCommitChain (ch_lc ch)));
          remoteTail = height (tail (remoteCommitChain (ch_lc ch)));
          remoteTip = height (tip (remoteCommitChain (ch_lc ch)))
      in (cr_RemoteCommitTailHeight msg = localTail \<or> (cr_RemoteCommitTailHeight msg + 1 = localTail \<and> localTail \<noteq> 0))
         \<and> (cr_NextLocalCommitHeight msg = remoteTip + 1
              \<or> cr_NextLocalCommitHeight msg = remoteTip \<and> hasUnackedCommitment (remoteCommitChain (ch_lc ch)))
         \<and> localTail < 2 ^ 48 \<and> remoteTail < 2 ^ 48)"

definition quiet :: "'pk Chan \<Rightarrow> bool" where
  "quiet ch \<longleftrightarrow> hasUnackedCommitment (remoteCommitChain (ch_lc ch)) \<or> \<not> oweCommitment (ch_lc ch) True"

lemma no_wrap:
  fixes h :: u64
  assumes "h < 2 ^ 48"
  shows "h < h + 1" "h + 1 < h + 1 + 1" "h < h + 1 + 1" "h + 1 \<noteq> 0"
  using assms by (auto simp: word_less_nat_alt word_le_nat_alt unat_word_ariths unat_arith_simps)

lemma pending_chain:
  assumes "disk_inv ch"
  shows "db_commitDiff (ch_db ch) = None \<longleftrightarrow> \<not> hasUnackedCommitment (remoteCommitChain (ch_lc ch))"
    "db_commitDiff (ch_db ch) = None \<Longrightarrow> tip (remoteCommitChain (ch_lc ch)) = tail (remoteCommitChain (ch_lc ch))"
    "db_commitDiff (ch_db ch) = Some d \<Longrightarrow>
       height (tip (remoteCommitChain (ch_lc ch))) = height (tail (remoteCommitChain (ch_lc ch))) + 1"
  using assms
  by (auto simp: disk_inv_def diskRemote_def hasUnackedCommitment_def tip_def tail_def map_eq_Cons_conv split: option.splits)

lemma syncLocal_owed:
  assumes "\<not> hasChanStatus (chanStatus ch) ChanStatusRestored" "quiet ch" "justBehind ch msg"
    and rev: "cr_RemoteCommitTailHeight msg \<noteq> height (tail (localCommitChain (ch_lc ch)))
      \<longrightarrow> generateRevocation env ch (cr_RemoteCommitTailHeight msg) = Inr m"
  shows "syncLocal env ch msg = (ch, Inr (owedRevocation ch msg m))"
proof -
  have window: "SignNextCommitment env ch = (ch, Inl ErrNoWindow)" if "oweCommitment (ch_lc ch) True"
    using that assms(2) by (cases "RemoteNextRevocation ch") (auto simp: quiet_def SignNextCommitment_def Let_def)
  let ?t = "height (tail (localCommitChain (ch_lc ch)))" and ?r = "cr_RemoteCommitTailHeight msg"
  consider "?r = ?t" | "?r + 1 = ?t" "?t \<noteq> 0" using assms(3) by (auto simp: justBehind_def Let_def)
  then show ?thesis
  proof cases
    case 1
    moreover have "\<not> ?t + 1 < ?t" using assms(3) no_wrap(1) [of ?t] by (auto simp: justBehind_def Let_def)
    ultimately show ?thesis using assms(1) by (simp add: syncLocal_def owedRevocation_def Let_def)
  next
    case 2
    have r: "?r = ?t - 1" using 2(1) by (metis add_diff_cancel_right')
    have "?r < ?t" unfolding r using 2(2) unat_gt_0 [of ?t] by (simp add: word_less_nat_alt unat_minus_one)
    then have "\<not> ?r > ?t" "?r \<noteq> ?t" "\<not> ?r + 1 < ?t" using 2 by auto
    with 2 assms(1) rev window r show ?thesis
      by (auto simp: syncLocal_def owedRevocation_def Let_def)
  qed
qed

lemma syncRemote_owed:
  assumes inv: "disk_inv ch" and "justBehind ch msg"
  shows "\<exists>opened closed. syncRemote ch msg (height (tail (remoteCommitChain (ch_lc ch)))) (height (tip (remoteCommitChain (ch_lc ch)))) updates
     = Inr (if LastWasRevoke ch then owedCommitment ch msg @ updates else updates @ owedCommitment ch msg, opened, closed)"
proof (cases "db_commitDiff (ch_db ch)")
  case None
  let ?t = "height (tail (remoteCommitChain (ch_lc ch)))"
  have "cr_NextLocalCommitHeight msg = ?t + 1" "?t < 2 ^ 48"
    using assms(2) pending_chain(1,2) [OF inv] None by (auto simp: justBehind_def Let_def)
  with None pending_chain(2) [OF inv None] no_wrap [of ?t] show ?thesis
    by (simp add: syncRemote_def owedCommitment_def Let_def not_le)
next
  case (Some d)
  let ?t = "height (tail (remoteCommitChain (ch_lc ch)))"
  have "cr_NextLocalCommitHeight msg = ?t + 1 \<or> cr_NextLocalCommitHeight msg = ?t + 1 + 1" "?t < 2 ^ 48"
    using assms(2) pending_chain(3) [OF inv Some] by (auto simp: justBehind_def Let_def)
  with Some pending_chain(3) [OF inv Some] no_wrap [of ?t] show ?thesis
    by (auto simp: syncRemote_def owedCommitment_def RemoteCommitChainTip_def Let_def not_le)
qed

lemma seen_everything:
  assumes inv: "disk_inv ch" and "cr_NextLocalCommitHeight msg = height (tip (remoteCommitChain (ch_lc ch))) + 1"
    and "height (tail (remoteCommitChain (ch_lc ch))) < 2 ^ 48"
  shows "syncRemote c msg (height (tail (remoteCommitChain (ch_lc ch)))) (height (tip (remoteCommitChain (ch_lc ch)))) updates
    = Inr (updates, [], [])"
proof -
  let ?t = "height (tail (remoteCommitChain (ch_lc ch)))" and ?p = "height (tip (remoteCommitChain (ch_lc ch)))"
  have "?p = ?t \<or> ?p = ?t + 1" using pending_chain [OF inv] by (cases "db_commitDiff (ch_db ch)") auto
  then show ?thesis using assms(2) no_wrap [OF assms(3)] by (auto simp: syncRemote_def Let_def not_le)
qed

text \<open>
  C4. A channel whose memory agrees with its disk, that has no open window and that a peer just
  behind reconnects to, sends again exactly what the peer is missing: its last revocation if the
  peer has not seen it, the stored updates and signature of the pending commitment if the peer has
  not seen them, both in the order that the disk records, and nothing when nothing is missing. The
  channel itself does not change.
\<close>

theorem resync_exact:
  assumes "disk_inv ch" "LastWasRevoke ch = db_lastWasRevoke (ch_db ch)" "\<not> hasChanStatus (chanStatus ch) ChanStatusRestored"
    and "quiet ch" "justBehind ch msg" "checkSecret ch msg = Inr ()"
    and "checkCommitPoint ch msg (height (tail (remoteCommitChain (ch_lc ch)))) = Inr ()"
    and "cr_RemoteCommitTailHeight msg \<noteq> height (tail (localCommitChain (ch_lc ch)))
      \<longrightarrow> generateRevocation env ch (cr_RemoteCommitTailHeight msg) = Inr m"
  shows "\<exists>opened closed. ProcessChanSyncMsg env ch msg =
    (ch, Inr (if db_lastWasRevoke (ch_db ch) then owedCommitment ch msg @ owedRevocation ch msg m
              else owedRevocation ch msg m @ owedCommitment ch msg, opened, closed))"
  using syncLocal_owed [OF assms(3-5,8)] syncRemote_owed [OF assms(1,5), of "owedRevocation ch msg m"] assms(2,6,7)
  by (auto simp: ProcessChanSyncMsg_def Let_def)


theorem resync_exact_witness:
  "\<exists>m opened closed. generateRevocation sampleEnv sampleChan 0 = Inr m
     \<and> ProcessChanSyncMsg sampleEnv sampleChan (sampleSync 0 2) = (sampleChan, Inr ([SyncRevoke m], opened, closed))"
proof -
  obtain a b where "AtIndex (NewRevocationProducer (replicate 32 5)) 0 = Inr a" "AtIndex (NewRevocationProducer (replicate 32 5)) 2 = Inr b"
    using sample_secret [of 0 "replicate 32 5"] sample_secret [of 2 "replicate 32 5"] by auto
  then obtain m where m: "generateRevocation sampleEnv sampleChan 0 = Inr m"
    by (simp add: generateRevocation_def sampleChan_def sample_defs)
  have "quiet sampleChan" "justBehind sampleChan (sampleSync 0 2)" "checkSecret sampleChan (sampleSync 0 2) = Inr ()"
    "\<not> hasChanStatus (chanStatus sampleChan) ChanStatusRestored" "LastWasRevoke sampleChan = db_lastWasRevoke (ch_db sampleChan)"
    "checkCommitPoint sampleChan (sampleSync 0 2) (height (tail (remoteCommitChain (ch_lc sampleChan)))) = Inr ()"
    by (simp_all add: quiet_def justBehind_def checkSecret_def checkCommitPoint_def sampleSync_def sampleChan_def sample_defs
        oweCommitment_def tip_def hasChanStatus_def ChanStatusRestored_def newUpdateLog_def)
  from resync_exact [OF sample_disk_inv this(5,4,1,2,3,6), of sampleEnv m] m show ?thesis
    by (simp add: owedRevocation_def owedCommitment_def sampleSync_def sampleChan_def sample_defs)
qed

section \<open>What was sent is what is sent again\<close>

lemma recovered_heights:
  assumes "recovered ch ch'" "disk_inv ch" "disk_inv ch'"
  shows "height (tail (localCommitChain (ch_lc ch'))) = height (tail (localCommitChain (ch_lc ch)))"
    "map height (remoteCommitChain (ch_lc ch')) = map height (remoteCommitChain (ch_lc ch))"
proof -
  let ?f = "\<lambda>d. CommitHeight d"
  have h: "CommitHeight (blank (toDiskCommit c b)) = height c" for c b by (simp add: blank_def toDiskCommit_def)
  show "height (tail (localCommitChain (ch_lc ch'))) = height (tail (localCommitChain (ch_lc ch)))"
    using assms(1) h unfolding recovered_def by metis
  have "map CommitHeight (map (\<lambda>c. blank (toDiskCommit c False)) (remoteCommitChain (ch_lc ch')))
      = map CommitHeight (map (\<lambda>c. blank (toDiskCommit c False)) (remoteCommitChain (ch_lc ch)))"
    using assms(1) by (simp add: recovered_def)
  then show "map height (remoteCommitChain (ch_lc ch')) = map height (remoteCommitChain (ch_lc ch))"
    by (simp add: comp_def h)
qed

lemma checked_sync:
  assumes "disk_inv ch" "LastWasRevoke ch = db_lastWasRevoke (ch_db ch)" "\<not> hasChanStatus (chanStatus ch) ChanStatusRestored"
    and "quiet ch" "justBehind ch msg" "checkSecret ch msg = Inr ()"
    and "checkCommitPoint ch msg (height (tail (remoteCommitChain (ch_lc ch)))) = Inr ()"
    and "cr_RemoteCommitTailHeight msg \<noteq> height (tail (localCommitChain (ch_lc ch)))
      \<longrightarrow> generateRevocation env ch (cr_RemoteCommitTailHeight msg) = Inr m"
  shows "\<exists>opened closed. ProcessChanSyncMsg env ch msg =
    (ch, Inr (if db_lastWasRevoke (ch_db ch) then owedCommitment ch msg @ owedRevocation ch msg m
              else owedRevocation ch msg m @ owedCommitment ch msg, opened, closed))"
  using syncLocal_owed [OF assms(3-5,8)] syncRemote_owed [OF assms(1,5), of "owedRevocation ch msg m"] assms(2,6,7)
  by (auto simp: ProcessChanSyncMsg_def Let_def)

definition syncChecks :: "'pk Chan \<Rightarrow> 'pk ChannelReestablish \<Rightarrow> bool" where
  "syncChecks ch msg \<longleftrightarrow> checkSecret ch msg = Inr () \<and> checkCommitPoint ch msg (height (tail (remoteCommitChain (ch_lc ch)))) = Inr ()"

text \<open>
  C3. The node signs a commitment in any reachable state, crashes before the peer has it, and is
  restarted. When the peer reconnects and asks for that commitment, the node sends the updates that
  the commitment contains, in the order of the log, and then the very signatures that
  \<open>SignNextCommitment\<close> returned.
\<close>

theorem commitment_resent:
  assumes steps: "(channel_step env)\<^sup>*\<^sup>* ch0 ch" and init: "disk_inv ch0"
    and sign: "SignNextCommitment env ch = (ch1, Inr (sig, htlcSigs, htlcs))"
    and restart: "NewLightningChannel env (fetchOpenChannel ch1) = Inr ch2"
    and msg: "cr_RemoteCommitTailHeight msg = height (tail (localCommitChain (ch_lc ch)))"
      "cr_NextLocalCommitHeight msg = height (tail (remoteCommitChain (ch_lc ch))) + 1" "syncChecks ch2 msg"
    and small: "height (tail (localCommitChain (ch_lc ch))) < 2 ^ 48" "height (tail (remoteCommitChain (ch_lc ch))) < 2 ^ 48"
  defines "fresh \<equiv> \<lambda>pd. addCommitHeightRemote pd = height (tail (remoteCommitChain (ch_lc ch))) + 1
      \<or> removeCommitHeightRemote pd = height (tail (remoteCommitChain (ch_lc ch))) + 1"
  shows "\<exists>opened closed. ProcessChanSyncMsg env ch2 msg =
    (ch2, Inr (map (\<lambda>pd. SyncUpdate (lu_UpdateMsg (storeUpdate (logUpdate (chanIDOf ch) pd))))
                 (filter fresh (map snd (entries (localUpdateLog (ch_lc ch1)))))
               @ [SyncCommitSig \<lparr>cs_ChanID = chanIDOf ch, cs_CommitSig = sig, cs_HtlcSigs = htlcSigs, cs_ExtraData = []\<rparr>], opened, closed))"
proof -
  have inv: "disk_inv ch" by (rule disk.reachable_inv [OF steps init])
  have inv1: "disk_inv ch1" by (rule Sign_disk_inv [OF inv sign])
  note r = restart_recovers [OF inv1 refl restart]
  obtain k lc1 c f where b: "fetchCommitmentView (env_lib env) (ch_builder ch) (ch_lc ch) True (logIndex (localUpdateLog (ch_lc ch)))
       (htlcCounter (localUpdateLog (ch_lc ch))) (theirMessageIndex (tail (localCommitChain (ch_lc ch))))
       (theirHtlcIndex (tail (localCommitChain (ch_lc ch)))) k = (lc1, Inr c)" "\<not> hasUnackedCommitment (remoteCommitChain (ch_lc ch))"
    "ch1 = ch\<lparr>ch_lc := lc1, ch_db := (ch_db ch)\<lparr>db_fwdPkgs := f, db_lastWasRevoke := False,
       db_commitDiff := Some (storeDiff (createCommitDiff lc1 (chanIDOf (ch\<lparr>ch_lc := lc1\<rparr>)) c sig htlcSigs))\<rparr>,
     ch_lc := lc1\<lparr>remoteCommitChain := remoteCommitChain lc1 @ [c]\<rparr>\<rparr>" "\<not> hasChanStatus (chanStatus ch) ChanStatusRestored"
    by (rule SignNextCommitment_built [OF sign], erule extendRemoteChain_Inr) (simp add: chanIDOf_def)
  have i: "chanIDOf (ch\<lparr>ch_lc := lc1\<rparr>) = chanIDOf ch" by (simp add: chanIDOf_def)
  note cfg = sameConfigD(1,2) [OF fetchCommitmentView_config [OF b(1)]]
  obtain c0 where c0: "remoteCommitChain (ch_lc ch) = [c0]"
    using inv b(2) by (cases "remoteCommitChain (ch_lc ch)") (auto simp: disk_inv_def hasUnackedCommitment_def)
  have c: "height c = height c0 + 1" using fetched_height [OF b(1)] c0 by (simp add: chainOf_def tip_def)
  have d: "db_commitDiff (ch_db ch2) = Some (storeDiff (createCommitDiff lc1 (chanIDOf ch) c sig htlcSigs))" using r b(3) i by simp
  have h: "height (tail (localCommitChain (ch_lc ch2))) = height (tail (localCommitChain (ch_lc ch)))"
    "map height (remoteCommitChain (ch_lc ch2)) = [height c0, height c0 + 1]"
    using recovered_heights [of ch1 ch2] r inv1 b(3) cfg c c0 by simp_all
  then have tip: "height (tip (remoteCommitChain (ch_lc ch2))) = height c0 + 1" "hasUnackedCommitment (remoteCommitChain (ch_lc ch2))"
    "height (tail (remoteCommitChain (ch_lc ch2))) = height c0"
    by (auto simp: map_eq_Cons_conv tip_def tail_def hasUnackedCommitment_def)
  have st: "\<not> hasChanStatus (chanStatus ch2) ChanStatusRestored"
    using b(3,4) r inv1 by (simp add: disk_inv_def)
  have jb: "justBehind ch2 msg" using msg small h tip c0 by (simp add: justBehind_def Let_def tail_def)
  have ow: "owedRevocation ch2 msg m = []" "owedCommitment ch2 msg = map (\<lambda>u. SyncUpdate (lu_UpdateMsg u)) (cd_LogUpdates (storeDiff (createCommitDiff lc1 (chanIDOf ch) c sig htlcSigs)))
      @ [SyncCommitSig \<lparr>cs_ChanID = chanIDOf ch, cs_CommitSig = sig, cs_HtlcSigs = htlcSigs, cs_ExtraData = []\<rparr>]" for m
    using msg h tip c0 d by (simp_all add: owedRevocation_def owedCommitment_def tail_def storeDiff_def createCommitDiff_def Let_def)
  have lg: "localUpdateLog (ch_lc ch1) = localUpdateLog lc1" using b(3) by simp
  have q: "quiet ch2" using tip(2) by (simp add: quiet_def)
  from checked_sync [of ch2 msg env, OF _ _ st q jb] r msg h show ?thesis
    unfolding ow syncChecks_def
    by (simp add: storeDiff_def createCommitDiff_def Let_def comp_def fresh_def lg c c0 tail_def split: if_splits)
qed

text \<open>The first switch for a peer that misses the last revocation: the commitment that is owed may follow.\<close>

definition newSig :: "'pk Chan \<Rightarrow> Sig \<Rightarrow> Sig list \<Rightarrow> Lnwire_Messages.CommitSig" where
  "newSig ch sig htlcSigs = \<lparr>cs_ChanID = chanIDOf ch, cs_CommitSig = sig, cs_HtlcSigs = htlcSigs, cs_ExtraData = []\<rparr>"

lemma syncLocal_revocation:
  assumes "\<not> hasChanStatus (chanStatus ch) ChanStatusRestored"
    and h: "height (tail (localCommitChain (ch_lc ch))) = cr_RemoteCommitTailHeight msg + 1" "cr_RemoteCommitTailHeight msg < 2 ^ 48"
    and "generateRevocation env ch (cr_RemoteCommitTailHeight msg) = Inr m"
  shows "syncLocal env ch msg =
    (if oweCommitment (ch_lc ch) True
     then (case SignNextCommitment env ch of
             (ch1, Inr (sig, htlcSigs, _)) \<Rightarrow> (ch1, Inr [SyncRevoke m, SyncCommitSig (newSig ch sig htlcSigs)])
           | (ch1, Inl e) \<Rightarrow> (ch1, if e = ErrNoWindow then Inr [SyncRevoke m] else Inl e))
     else (ch, Inr [SyncRevoke m]))"
  using assms(1,4) no_wrap [OF h(2)]
  by (auto simp: syncLocal_def h(1) newSig_def Let_def split: prod.splits sum.splits dance_error.splits)

text \<open>What a new signature leaves alone and what it stores.\<close>

lemma Sign_stored:
  assumes "SignNextCommitment env ch = (ch', Inr (sig, htlcSigs, htlcs))"
  shows "RemoteCurrentRevocation ch' = RemoteCurrentRevocation ch" "RemoteNextRevocation ch' = RemoteNextRevocation ch"
    "ChanType (channelState (ch_lc ch')) = ChanType (channelState (ch_lc ch))"
    "map_option cd_CommitSig (db_commitDiff (ch_db ch')) = Some (newSig ch sig htlcSigs)"
    "map height (remoteCommitChain (ch_lc ch'))
       = map height (remoteCommitChain (ch_lc ch)) @ [height (tip (remoteCommitChain (ch_lc ch))) + 1]"
proof -
  obtain k lc1 c f where b: "fetchCommitmentView (env_lib env) (ch_builder ch) (ch_lc ch) True (logIndex (localUpdateLog (ch_lc ch)))
       (htlcCounter (localUpdateLog (ch_lc ch))) (theirMessageIndex (tail (localCommitChain (ch_lc ch))))
       (theirHtlcIndex (tail (localCommitChain (ch_lc ch)))) k = (lc1, Inr c)"
    "ch' = ch\<lparr>ch_lc := lc1, ch_db := (ch_db ch)\<lparr>db_fwdPkgs := f, db_lastWasRevoke := False,
       db_commitDiff := Some (storeDiff (createCommitDiff lc1 (chanIDOf (ch\<lparr>ch_lc := lc1\<rparr>)) c sig htlcSigs))\<rparr>,
     ch_lc := lc1\<lparr>remoteCommitChain := remoteCommitChain lc1 @ [c]\<rparr>\<rparr>"
    by (rule SignNextCommitment_built [OF assms], erule extendRemoteChain_Inr) (simp add: chanIDOf_def)
  note cfg = sameConfigD [OF fetchCommitmentView_config [OF b(1)]]
  have "height c = height (tip (remoteCommitChain (ch_lc ch))) + 1" using fetched_height [OF b(1)] by (simp add: chainOf_def)
  then show "RemoteCurrentRevocation ch' = RemoteCurrentRevocation ch" "RemoteNextRevocation ch' = RemoteNextRevocation ch"
    "ChanType (channelState (ch_lc ch')) = ChanType (channelState (ch_lc ch))"
    "map_option cd_CommitSig (db_commitDiff (ch_db ch')) = Some (newSig ch sig htlcSigs)"
    "map height (remoteCommitChain (ch_lc ch'))
       = map height (remoteCommitChain (ch_lc ch)) @ [height (tip (remoteCommitChain (ch_lc ch))) + 1]"
    using cfg by (simp_all add: b(2) newSig_def storeDiff_def createCommitDiff_def chanIDOf_def Let_def)
qed

lemma Sign_no_window: "SignNextCommitment env ch = (ch', Inl ErrNoWindow) \<Longrightarrow> ch' = ch"
  unfolding SignNextCommitment_def extendRemoteChain_def
  by (auto simp: Let_def split: option.splits if_splits sum.splits prod.splits)

text \<open>A node that revoked and restarted can generate the same revocation, one height below its tail.\<close>

lemma revoked_restart:
  assumes inv: "disk_inv ch" and revoke: "RevokeCurrentCommitment env ch = (ch1, Inr (m, htlcs))"
    and restart: "NewLightningChannel env (fetchOpenChannel ch1) = Inr ch2"
  defines "l \<equiv> height (tail (localCommitChain (ch_lc ch)))"
  shows "height (tail (localCommitChain (ch_lc ch2))) = l + 1" "generateRevocation env ch2 l = Inr m"
    "height (tip (remoteCommitChain (ch_lc ch2))) = height (tip (remoteCommitChain (ch_lc ch)))"
    "height (tail (remoteCommitChain (ch_lc ch2))) = height (tail (remoteCommitChain (ch_lc ch)))"
    "\<not> hasChanStatus (chanStatus ch2) ChanStatusRestored" "disk_inv ch2"
proof -
  have inv1: "disk_inv ch1" by (rule Revoke_disk_inv [OF inv revoke])
  note r = restart_recovers [OF inv1 refl restart]
  then show "disk_inv ch2" by simp
  note b = RevokeCurrentCommitment_Inr [OF revoke]
  have cur: "currentHeight (ch_lc ch) = l" using inv by (simp add: disk_inv_def l_def)
  have "advanceTail (localCommitChain (ch_lc ch)) \<noteq> []" using b(2) by simp
  then have "height (tail (localCommitChain (ch_lc ch1))) = l + 1"
    using consecutive_tl(2) inv by (simp add: b(4) disk_inv_def l_def)
  then have h: "height (tail (localCommitChain (ch_lc ch2))) = l + 1"
    "map height (remoteCommitChain (ch_lc ch2)) = map height (remoteCommitChain (ch_lc ch))"
    using recovered_heights [of ch1 ch2] r inv1 b(4) by simp_all
  then show "height (tail (localCommitChain (ch_lc ch2))) = l + 1" by simp
  have ne: "remoteCommitChain (ch_lc ch2) \<noteq> []" "remoteCommitChain (ch_lc ch) \<noteq> []" using inv r by (auto simp: disk_inv_def)
  then show "height (tip (remoteCommitChain (ch_lc ch2))) = height (tip (remoteCommitChain (ch_lc ch)))"
    "height (tail (remoteCommitChain (ch_lc ch2))) = height (tail (remoteCommitChain (ch_lc ch)))"
    using arg_cong [OF h(2), of last] arg_cong [OF h(2), of hd] by (simp_all add: last_map hd_map tip_def tail_def)
  have "generateRevocation env ch2 l = generateRevocation env ch l"
    using r b(4) by (simp add: generateRevocation_def chanIDOf_def)
  then show "generateRevocation env ch2 l = Inr m" using b(1) cur by simp
  show "\<not> hasChanStatus (chanStatus ch2) ChanStatusRestored"
    using b(4,5) r inv1 by (simp add: disk_inv_def)
qed

text \<open>
  C5. The node revokes a commitment in any reachable state and crashes before the peer has the
  revocation. After the restart, a peer that has seen everything else is sent the revocation that
  \<open>RevokeCurrentCommitment\<close> returned. When the restarted node owes the peer no commitment, or owes one
  but has no window to sign it, nothing else is sent and the channel does not change. When it owes
  one and signs it, the new signature follows the revocation in the same answer, the signed
  commitment has the next height, and it is stored, so that it can be sent again in its turn. When
  the signing fails, its error is returned.
\<close>

theorem revocation_resent:
  assumes steps: "(channel_step env)\<^sup>*\<^sup>* ch0 ch" and init: "disk_inv ch0"
    and revoke: "RevokeCurrentCommitment env ch = (ch1, Inr (m, htlcs))"
    and restart: "NewLightningChannel env (fetchOpenChannel ch1) = Inr ch2"
    and msg: "cr_RemoteCommitTailHeight msg = height (tail (localCommitChain (ch_lc ch)))"
      "cr_NextLocalCommitHeight msg = height (tip (remoteCommitChain (ch_lc ch))) + 1" "syncChecks ch2 msg"
    and small: "height (tail (localCommitChain (ch_lc ch))) < 2 ^ 48" "height (tail (remoteCommitChain (ch_lc ch))) < 2 ^ 48"
  shows "if oweCommitment (ch_lc ch2) True
    then (case SignNextCommitment env ch2 of
       (ch3, Inr (sig, htlcSigs, _)) \<Rightarrow>
         ProcessChanSyncMsg env ch2 msg = (ch3, Inr ([SyncRevoke m, SyncCommitSig (newSig ch2 sig htlcSigs)], [], []))
         \<and> map_option cd_CommitSig (db_commitDiff (ch_db ch3)) = Some (newSig ch2 sig htlcSigs)
         \<and> height (tip (remoteCommitChain (ch_lc ch3))) = cr_NextLocalCommitHeight msg
     | (ch3, Inl e) \<Rightarrow>
         ProcessChanSyncMsg env ch2 msg = (if e = ErrNoWindow then (ch2, Inr ([SyncRevoke m], [], [])) else (ch3, Inl e)))
    else ProcessChanSyncMsg env ch2 msg = (ch2, Inr ([SyncRevoke m], [], []))"
proof -
  have inv: "disk_inv ch" by (rule disk.reachable_inv [OF steps init])
  note r = revoked_restart [OF inv revoke restart]
  have sl: "syncLocal env ch2 msg = (if oweCommitment (ch_lc ch2) True
     then (case SignNextCommitment env ch2 of
             (ch3, Inr (sig, htlcSigs, _)) \<Rightarrow> (ch3, Inr [SyncRevoke m, SyncCommitSig (newSig ch2 sig htlcSigs)])
           | (ch3, Inl e) \<Rightarrow> (ch3, if e = ErrNoWindow then Inr [SyncRevoke m] else Inl e))
     else (ch2, Inr [SyncRevoke m]))"
    by (rule syncLocal_revocation) (use r msg(1) small(1) in simp_all)
  have sr: "syncRemote c msg (height (tail (remoteCommitChain (ch_lc ch2)))) (height (tip (remoteCommitChain (ch_lc ch2)))) us
      = Inr (us, [], [])" for c us
    using seen_everything [OF r(6), of msg c us] msg(2) small(2) r(3,4) by simp
  have ok: "checkSecret ch2 msg = Inr ()" "checkCommitPoint ch2 msg (height (tail (remoteCommitChain (ch_lc ch2)))) = Inr ()"
    using msg(3) by (simp_all add: syncChecks_def)
  have cp: "checkCommitPoint ch3 msg (height (tail (remoteCommitChain (ch_lc ch2)))) = Inr ()"
    if "SignNextCommitment env ch2 = (ch3, Inr (sig, htlcSigs, x))" for ch3 sig htlcSigs x
    using ok(2) unfolding checkCommitPoint_def Sign_stored(1-3) [OF that] .
  have tip: "height (tip (remoteCommitChain (ch_lc ch3))) = cr_NextLocalCommitHeight msg"
    if "SignNextCommitment env ch2 = (ch3, Inr (sig, htlcSigs, x))" for ch3 sig htlcSigs x
  proof -
    have "remoteCommitChain (ch_lc ch3) \<noteq> []" using Sign_stored(5) [OF that] by auto
    then show ?thesis
      using arg_cong [OF Sign_stored(5) [OF that], of last] msg(2) r(3) by (simp add: tip_def last_map)
  qed
  obtain ch3 e where sg: "SignNextCommitment env ch2 = (ch3, e)" by (rule prod.exhaust)
  show ?thesis
  proof (cases e)
    case (Inl err)
    then show ?thesis
      using sg sl Sign_no_window [of env ch2 ch3] by (auto simp: ProcessChanSyncMsg_def ok sr Let_def)
  next
    case (Inr x)
    obtain sig hs y where x: "x = (sig, hs, y)" by (rule prod_cases3)
    show ?thesis
      using sg [unfolded Inr x] sl cp tip Sign_stored(4) by (auto simp: ProcessChanSyncMsg_def ok sr Let_def)
  qed
qed

theorem commitment_resent_witness:
  "\<exists>ch1 ch2 sig htlcSigs htlcs updates opened closed. SignNextCommitment sampleEnv sampleChan = (ch1, Inr (sig, htlcSigs, htlcs))
     \<and> NewLightningChannel sampleEnv (fetchOpenChannel ch1) = Inr ch2
     \<and> ProcessChanSyncMsg sampleEnv ch2 (sampleSync 1 2) = (ch2, Inr (updates
         @ [SyncCommitSig \<lparr>cs_ChanID = chanIDOf sampleChan, cs_CommitSig = sig, cs_HtlcSigs = htlcSigs, cs_ExtraData = []\<rparr>], opened, closed))"
proof -
  obtain ch1 sig ss hs ch2 where s: "SignNextCommitment sampleEnv sampleChan = (ch1, Inr (sig, ss, hs))"
    "NewLightningChannel sampleEnv (fetchOpenChannel ch1) = Inr ch2" by (rule sample_crash)
  have "syncChecks ch2 (sampleSync 1 2)" by (simp add: syncChecks_def checkSecret_def checkCommitPoint_def sampleSync_def)
  then show ?thesis
    using commitment_resent [OF rtranclp.rtrancl_refl sample_disk_inv s, of "sampleSync 1 2"] s
    by (fastforce simp: sampleSync_def sampleChan_def sample_defs)
qed


definition revocable :: "unit Chan" where
  "revocable = sampleChan\<lparr>ch_lc := (ch_lc sampleChan)\<lparr>localCommitChain := [sampleCommitment True, (sampleCommitment True)\<lparr>height := 2\<rparr>]\<rparr>\<rparr>"

lemma revocable_inv: "disk_inv revocable"
  by (simp add: revocable_def sampleChan_def disk_inv_def sample_defs)

lemma revocable_revoked:
  obtains ch1 m hs ch2 where "RevokeCurrentCommitment sampleEnv revocable = (ch1, Inr (m, hs))"
    "NewLightningChannel sampleEnv (fetchOpenChannel ch1) = Inr ch2" "\<not> oweCommitment (ch_lc ch2) True"
proof -
  obtain a b c where s: "AtIndex (NewRevocationProducer (replicate 32 5)) 1 = Inr a" "AtIndex (NewRevocationProducer (replicate 32 5)) 2 = Inr b"
    "AtIndex (NewRevocationProducer (replicate 32 5)) 3 = Inr c"
    using sample_secret [of 1 "replicate 32 5"] sample_secret [of 2 "replicate 32 5"] sample_secret [of 3 "replicate 32 5"] by auto
  obtain ch1 m hs where r: "RevokeCurrentCommitment sampleEnv revocable = (ch1, Inr (m, hs))"
    using s by (simp add: RevokeCurrentCommitment_def generateRevocation_def revocable_def sampleChan_def sample_defs advanceTail_def
        UpdateCommitment_def inTransaction_def hasChanStatus_def ChanStatusRestored_def sampleEnv_def)
  note b = RevokeCurrentCommitment_Inr(4) [OF r]
  have "getUnsignedAckedUpdates ((ch_lc revocable)\<lparr>localCommitChain := advanceTail (localCommitChain (ch_lc revocable)),
      currentHeight := currentHeight (ch_lc revocable) + 1\<rparr>) i = []" for i
    by (simp add: getUnsignedAckedUpdates_def revocable_def sampleChan_def sample_defs newUpdateLog_def)
  note db = arg_cong [OF b, of ch_db, unfolded this, simplified]
  have "ch_producer ch1 = NewRevocationProducer (replicate 32 5)" by (simp add: b revocable_def sampleChan_def sample_defs)
  then have "\<exists>ch2. NewLightningChannel sampleEnv (fetchOpenChannel ch1) = Inr ch2 \<and> \<not> oweCommitment (ch_lc ch2) True"
    using s db
    by (simp add: NewLightningChannel_def restoreCommitState_def restoreChains_def fetchOpenChannel_def diskCommitToMemCommit_def
        liftScript_def ringOf_def restoreStateLogs_def revocable_def sampleChan_def sample_defs advanceTail_def newCommitmentChain_def
        oweCommitment_def addCommitment_def tip_def newUpdateLog_def)
  with r that show thesis by blast
qed

theorem revocation_resent_witness:
  "\<exists>ch1 ch2 m htlcs. RevokeCurrentCommitment sampleEnv revocable = (ch1, Inr (m, htlcs))
     \<and> NewLightningChannel sampleEnv (fetchOpenChannel ch1) = Inr ch2 \<and> \<not> oweCommitment (ch_lc ch2) True
     \<and> ProcessChanSyncMsg sampleEnv ch2 (sampleSync 1 2) = (ch2, Inr ([SyncRevoke m], [], []))"
proof -
  obtain ch1 m hs ch2 where s: "RevokeCurrentCommitment sampleEnv revocable = (ch1, Inr (m, hs))"
    "NewLightningChannel sampleEnv (fetchOpenChannel ch1) = Inr ch2" and o: "\<not> oweCommitment (ch_lc ch2) True"
    by (rule revocable_revoked)
  have "syncChecks ch2 (sampleSync 1 2)" by (simp add: syncChecks_def checkSecret_def checkCommitPoint_def sampleSync_def)
  then show ?thesis
    using revocation_resent [OF rtranclp.rtrancl_refl revocable_inv s, of "sampleSync 1 2"] s o
    by (fastforce simp: sampleSync_def revocable_def sampleChan_def sample_defs tip_def)
qed

end
