(* ===== verification/Update_Progress.thy ===== *)
theory Update_Progress
  imports Commitment_Safety
begin

text \<open>
  The progress of the updates of a channel: what the construction of a commitment writes to the
  entries of the two logs, which HTLCs the last commitment of a chain therefore carries, and that
  neither the construction of a commitment of the other chain nor the compaction of the logs
  changes this.
\<close>

section \<open>What an evaluation writes\<close>

text \<open>The value that the evaluation writes to an entry of the view at height \<open>h\<close> of a chain.\<close>

definition stampAdd :: "bool \<Rightarrow> u64 \<Rightarrow> u64 set \<Rightarrow> PaymentDescriptor \<Rightarrow> PaymentDescriptor" where
  "stampAdd rc h skip p =
     (if EntryType p \<noteq> Add \<or> HtlcIndex p \<in> skip \<or> addHeight rc p \<noteq> 0 then p else setAddHeight rc h p)"

definition stampRemoval :: "bool \<Rightarrow> u64 \<Rightarrow> PaymentDescriptor \<Rightarrow> PaymentDescriptor" where
  "stampRemoval rc h p =
     (if EntryType p = Add then p
      else if EntryType p = FeeUpdate
      then (if addHeight rc p \<noteq> 0 then p else setRemoveHeight rc h (setAddHeight rc h p))
      else if removeHeight rc p \<noteq> 0 then p else setRemoveHeight rc h p)"

definition mapElems :: "(PaymentDescriptor \<Rightarrow> PaymentDescriptor) \<Rightarrow> nat set \<Rightarrow> updateLog \<Rightarrow> updateLog" where
  "mapElems f K u = u\<lparr>entries := map (\<lambda>(e, p). if e \<in> K then (e, f p) else (e, p)) (entries u)\<rparr>"

text \<open>The entries of a view whose value matters are the values of the log.\<close>

definition current :: "(PaymentDescriptor \<Rightarrow> bool) \<Rightarrow> (nat \<times> PaymentDescriptor) list \<Rightarrow> updateLog \<Rightarrow> bool" where
  "current P es u \<longleftrightarrow> distinct (map fst es)
     \<and> (\<forall>(e, p) \<in> set es. \<forall>q. (e, q) \<in> set (entries u) \<longrightarrow> P p \<or> P q \<longrightarrow> q = p)"

lemma current_tl: "current P (x # es) u \<Longrightarrow> current P es u"
  by (auto simp: current_def)

lemma current_write:
  assumes "current P ((e, p) # es) u"
  shows "current P es (writeElem e p' u)"
proof -
  have "f \<noteq> e" if "(f, q) \<in> set es" for f q using assms that by (force simp: current_def)
  then show ?thesis using assms by (auto simp: current_def writeElem_mem)
qed

lemma mapElems_Cons_skip:
  assumes "\<And>q. (e, q) \<in> set (entries u) \<Longrightarrow> f q = q"
  shows "mapElems f (insert e K) u = mapElems f K u"
  using assms by (auto simp: mapElems_def intro!: updateLog.fold_congs)

lemma mapElems_Cons_write:
  assumes "\<And>q. (e, q) \<in> set (entries u) \<Longrightarrow> f q = p'" "e \<notin> K"
  shows "mapElems f (insert e K) u = mapElems f K (writeElem e p' u)"
  using assms by (auto simp: mapElems_def writeElem_def comp_def intro!: updateLog.fold_congs)

lemma removalLoop_stamp:
  assumes "removalLoop ours h rc True es st = (st', None)" and "current (\<lambda>_. True) es (ownLog ours (es_lc st))"
  shows "ownLog ours (es_lc st') = mapElems (stampRemoval rc h) (fst ` set es) (ownLog ours (es_lc st))"
  using assms
proof (induction es arbitrary: st)
  case Nil
  then show ?case by (auto simp: mapElems_def)
next
  case (Cons x es)
  obtain e entry where x: "x = (e, entry)" by (cases x)
  have eq: "q = entry" if "(e, q) \<in> set (entries (ownLog ours (es_lc st)))" for q
    using Cons.prems(2) that by (auto simp: current_def x)
  have new: "e \<notin> fst ` set es" using Cons.prems(2) by (auto simp: current_def x)
  have step: "ownLog ours (es_lc st') = mapElems (stampRemoval rc h) (fst ` set (x # es)) (ownLog ours (es_lc st))"
    if "removalLoop ours h rc True es st1 = (st', None)"
      "ownLog ours (es_lc st1) = writeElem e (stampRemoval rc h entry) (ownLog ours (es_lc st))" for st1
  proof -
    have "mapElems (stampRemoval rc h) (insert e (fst ` set es)) (ownLog ours (es_lc st))
        = mapElems (stampRemoval rc h) (fst ` set es) (writeElem e (stampRemoval rc h entry) (ownLog ours (es_lc st)))"
      by (rule mapElems_Cons_write [OF _ new]) (drule eq, simp)
    with Cons.IH [OF that(1)] current_write [OF Cons.prems(2) [unfolded x]] show ?thesis by (simp add: that(2) x)
  qed
  consider (add) "EntryType entry = Add" | (fee) "EntryType entry = FeeUpdate" | (rem) "isRemoval entry"
    using notRemoval_iff by auto
  then show ?case
  proof cases
    case add
    have "mapElems (stampRemoval rc h) (insert e (fst ` set es)) (ownLog ours (es_lc st))
        = mapElems (stampRemoval rc h) (fst ` set es) (ownLog ours (es_lc st))"
      by (rule mapElems_Cons_skip) (drule eq, simp add: stampRemoval_def add)
    then show ?thesis using Cons.IH [of st] Cons.prems current_tl [OF Cons.prems(2)] add by (simp add: x)
  next
    case fee
    obtain p' rate where p: "processFeeUpdate entry h rc True (es_fee st) = (p', rate)" by fastforce
    then have "p' = stampRemoval rc h entry"
      using fee by (auto simp: processFeeUpdate_def stampRemoval_def split: if_splits)
    with step [of "st\<lparr>es_lc := writeEntry True ours e p' (es_lc st), es_fee := rate\<rparr>"] Cons.prems(1) fee p show ?thesis
      by (simp add: x view_simps)
  next
    case rem
    have ne: "EntryType entry \<noteq> Add" "EntryType entry \<noteq> FeeUpdate" using isRemoval_not_Add [OF rem] by auto
    let ?lc = "if True \<and> EntryType entry = Settle \<and> \<not> rc \<and> removeCommitHeightLocal entry = 0
       then (es_lc st)\<lparr>channelState := countSettled ours entry (channelState (es_lc st))\<rparr> else es_lc st"
    obtain p' b where p: "processRemoveEntry entry (es_bal st) h rc ours True = (p', b)" by fastforce
    then have p': "p' = stampRemoval rc h entry"
      using ne by (auto simp: processRemoveEntry_def stampRemoval_def split: if_splits)
    obtain a where a: "fetchParent ?lc entry rc ours = Inr a"
      using Cons.prems(1) ne by (cases "fetchParent ?lc entry rc ours") (auto simp: x Let_def split: if_splits)
    have own: "ownLog ours ?lc = ownLog ours (es_lc st)" by (simp add: view_simps)
    show ?thesis
      using step [of "st\<lparr>es_lc := writeEntry True ours e p' ?lc, es_bal := b, es_skip := insert (HtlcIndex a) (es_skip st)\<rparr>"]
        Cons.prems(1) ne p a p' own by (simp add: x Let_def view_simps split del: if_split)
  qed
qed

lemma addLoop_stamp:
  assumes "addLoop ours h rc True skip es lc b = (lc', b', kept)" and "current (\<lambda>p. EntryType p = Add) es (ownLog ours lc)"
  shows "ownLog ours lc' = mapElems (stampAdd rc h skip) (fst ` set es) (ownLog ours lc)
    \<and> kept = map (\<lambda>(e, p). (e, stampAdd rc h skip p)) (filter (\<lambda>(e, p). EntryType p = Add \<and> HtlcIndex p \<notin> skip) es)"
  using assms
proof (induction es arbitrary: lc b kept)
  case Nil
  then show ?case by (auto simp: mapElems_def)
next
  case (Cons x es)
  obtain e entry where x: "x = (e, entry)" by (cases x)
  have eq: "q = entry" if "(e, q) \<in> set (entries (ownLog ours lc))" "EntryType entry = Add \<or> EntryType q = Add" for q
    using Cons.prems(2) that by (auto simp: current_def x)
  have new: "e \<notin> fst ` set es" using Cons.prems(2) by (auto simp: current_def x)
  show ?case
  proof (cases "EntryType entry \<noteq> Add \<or> HtlcIndex entry \<in> skip")
    case True
    have "stampAdd rc h skip q = q" if "(e, q) \<in> set (entries (ownLog ours lc))" for q
      using eq [OF that] True by (auto simp: stampAdd_def)
    then have "mapElems (stampAdd rc h skip) (insert e (fst ` set es)) (ownLog ours lc)
        = mapElems (stampAdd rc h skip) (fst ` set es) (ownLog ours lc)" by (rule mapElems_Cons_skip)
    then show ?thesis
      using Cons.IH [of lc b kept] Cons.prems current_tl [OF Cons.prems(2)] True by (auto simp: x)
  next
    case False
    obtain p' b1 where p: "processAddEntry entry b h rc (\<not> ours) True = (p', b1)" by fastforce
    then have p': "p' = stampAdd rc h skip entry" using False by (auto simp: processAddEntry_def stampAdd_def split: if_splits)
    obtain kept' where k: "addLoop ours h rc True skip es (writeEntry True ours e p' lc) b1 = (lc', b', kept')"
      "kept = (e, p') # kept'"
      using Cons.prems(1) False p by (auto simp: x split: prod.splits)
    have "stampAdd rc h skip q = p'" if "(e, q) \<in> set (entries (ownLog ours lc))" for q
      using eq [OF that] False p' by simp
    then have "mapElems (stampAdd rc h skip) (insert e (fst ` set es)) (ownLog ours lc)
        = mapElems (stampAdd rc h skip) (fst ` set es) (writeElem e p' (ownLog ours lc))"
      by (rule mapElems_Cons_write [OF _ new])
    with Cons.IH [OF k(1)] current_write [OF Cons.prems(2) [unfolded x]] k(2) False p'
    show ?thesis by (simp add: x view_simps)
  qed
qed


definition stamp :: "bool \<Rightarrow> u64 \<Rightarrow> u64 set \<Rightarrow> PaymentDescriptor \<Rightarrow> PaymentDescriptor" where
  "stamp rc h skip p = stampAdd rc h skip (stampRemoval rc h p)"

definition stampBelow :: "bool \<Rightarrow> u64 \<Rightarrow> u64 set \<Rightarrow> u64 \<Rightarrow> nat \<times> PaymentDescriptor \<Rightarrow> nat \<times> PaymentDescriptor" where
  "stampBelow rc h skip i x = (fst x, if LogIndex (snd x) < i then stamp rc h skip (snd x) else snd x)"

lemma mapElems_below:
  assumes "distinct (map fst (entries u))"
  shows "entries (mapElems f (fst ` set (below i (entries u))) u)
    = map (\<lambda>x. (fst x, if LogIndex (snd x) < i then f (snd x) else snd x)) (entries u)"
proof -
  have "fst x \<in> fst ` set (below i (entries u)) \<longleftrightarrow> LogIndex (snd x) < i" if "x \<in> set (entries u)" for x
  proof
    assume "fst x \<in> fst ` set (below i (entries u))"
    then obtain p where p: "(fst x, p) \<in> set (entries u)" "LogIndex p < i" by (auto simp: below_def)
    have "(fst x, snd x) \<in> set (entries u)" using that by simp
    from eq_key_imp_eq_value [OF assms p(1) this] p(2) show "LogIndex (snd x) < i" by simp
  qed (use that in \<open>force simp: below_def\<close>)
  then show ?thesis by (auto simp: mapElems_def)
qed

lemma mapElems_comp: "mapElems g K (mapElems f K u) = mapElems (\<lambda>p. g (f p)) K u"
  by (auto simp: mapElems_def comp_def intro!: updateLog.fold_congs)

lemma stampRemoval_fields [simp]:
  "EntryType (stampRemoval rc h p) = EntryType p" "EntryType p = Add \<Longrightarrow> stampRemoval rc h p = p"
  by (auto simp: stampRemoval_def view_simps)

lemma current_below:
  assumes "log_inv u"
  shows "current P (below i (entries u)) u"
  using log_invD(1) [OF assms] eq_key_imp_eq_value [OF log_invD(1) [OF assms]]
  by (auto simp: current_def below_def distinct_map_filter)

lemma current_below_adds:
  assumes "log_inv u"
  shows "current (\<lambda>p. EntryType p = Add) (below i (entries u)) (mapElems (stampRemoval rc h) K u)"
proof -
  have "q = p" if p: "(e, p) \<in> set (below i (entries u))" and q: "(e, q) \<in> set (entries (mapElems (stampRemoval rc h) K u))"
    and add: "EntryType p = Add \<or> EntryType q = Add" for e p q
  proof -
    obtain r where r: "(e, r) \<in> set (entries u)" "q = r \<or> q = stampRemoval rc h r"
      using q by (auto simp: mapElems_def split: if_splits)
    moreover have "(e, p) \<in> set (entries u)" using p by (simp add: below_def)
    ultimately have "r = p" using eq_key_imp_eq_value [OF log_invD(1) [OF assms]] by blast
    then show ?thesis using r(2) add by auto
  qed
  moreover have "distinct (map fst (below i (entries u)))" using log_invD(1) [OF assms] by (simp add: below_def distinct_map_filter)
  ultimately show ?thesis unfolding current_def by blast
qed

lemma evaluate_stamp:
  assumes inv: "logs_inv (localUpdateLog lc) (remoteUpdateLog lc)"
    and v: "ourUpdates v = below oi (entries (localUpdateLog lc))" "theirUpdates v = below ti (entries (remoteUpdateLog lc))"
    and ev: "evaluateHTLCView lc v b h rc True = (lc', Inr (b', v'))"
  defines "skipUs \<equiv> parentsOf (below ti (entries (remoteUpdateLog lc)))"
    and "skipThem \<equiv> parentsOf (below oi (entries (localUpdateLog lc)))"
  shows "entries (localUpdateLog lc') = map (stampBelow rc h skipUs oi) (entries (localUpdateLog lc))"
    and "entries (remoteUpdateLog lc') = map (stampBelow rc h skipThem ti) (entries (remoteUpdateLog lc))"
    and "ourUpdates v' = map (\<lambda>(e, p). (e, stampAdd rc h skipUs p))
           (filter (\<lambda>(e, p). EntryType p = Add \<and> HtlcIndex p \<notin> skipUs) (ourUpdates v))"
    and "theirUpdates v' = map (\<lambda>(e, p). (e, stampAdd rc h skipThem p))
           (filter (\<lambda>(e, p). EntryType p = Add \<and> HtlcIndex p \<notin> skipThem) (theirUpdates v))"
proof -
  let ?L = "localUpdateLog lc" and ?R = "remoteUpdateLog lc"
  have li: "log_inv ?L" "log_inv ?R" using inv by (auto simp: logs_inv_def)
  obtain st1 st2 lc3 b3 b4 ours theirs where e:
    "removalLoop True h rc True (ourUpdates v) \<lparr>es_lc = lc, es_bal = b, es_fee = v_feePerKw v, es_skip = {}\<rparr> = (st1, None)"
    "removalLoop False h rc True (theirUpdates v) (st1\<lparr>es_skip := {}\<rparr>) = (st2, None)"
    "addLoop True h rc True (es_skip st2) (ourUpdates v) (es_lc st2) (es_bal st2) = (lc3, b3, ours)"
    "addLoop False h rc True (es_skip st1) (theirUpdates v) lc3 b3 = (lc', b4, theirs)"
    "v' = \<lparr>ourUpdates = ours, theirUpdates = theirs, v_feePerKw = es_fee st2\<rparr>"
    using evaluate_cases [OF ev] .
  note skips = evaluate_skips(1,2) [OF inv e(1,2) [unfolded v], folded skipUs_def skipThem_def]
  note cur = current_below [OF li(1)] current_below [OF li(2)] current_below_adds [OF li(1)] current_below_adds [OF li(2)]
  let ?K = "fst ` set (below oi (entries ?L))" and ?M = "fst ` set (below ti (entries ?R))"
  have 1: "localUpdateLog (es_lc st1) = mapElems (stampRemoval rc h) ?K ?L" "remoteUpdateLog (es_lc st1) = ?R"
    using removalLoop_stamp [OF e(1)] removalLoop_frame [OF e(1)] cur(1) below_points [OF li(1)]
    by (simp_all add: ownLog_def otherLog_def frame_def v)
  have 2: "remoteUpdateLog (es_lc st2) = mapElems (stampRemoval rc h) ?M ?R" "localUpdateLog (es_lc st2) = localUpdateLog (es_lc st1)"
    using removalLoop_stamp [OF e(2)] removalLoop_frame [OF e(2)] cur(2) below_points [OF li(2)] 1(2)
    by (simp_all add: ownLog_def otherLog_def frame_def v)
  have dist: "distinct (map fst (entries (mapElems f K u)))" if "log_inv u" for f K u
    using log_invD(1) [OF that] by (simp add: mapElems_def comp_def case_prod_unfold if_distrib [of fst] cong: if_cong)
  have pts: "pointsInto (\<lambda>p. EntryType p = Add) (below i (entries u)) (mapElems (stampRemoval rc h) K u)" if "log_inv u" for i u K
    using dist [OF that] log_invD(1) [OF that] by (force simp: pointsInto_def below_def distinct_map_filter mapElems_def)
  have 3: "localUpdateLog lc3 = mapElems (stampAdd rc h skipUs) ?K (localUpdateLog (es_lc st2))" "remoteUpdateLog lc3 = remoteUpdateLog (es_lc st2)"
    "ours = map (\<lambda>(e, p). (e, stampAdd rc h skipUs p)) (filter (\<lambda>(e, p). EntryType p = Add \<and> HtlcIndex p \<notin> skipUs) (ourUpdates v))"
    using addLoop_stamp [OF e(3)] addLoop_frame [OF e(3)] cur(3) pts [OF li(1)] 1 2 skips
    by (simp_all add: ownLog_def otherLog_def frame_def v)
  have 4: "remoteUpdateLog lc' = mapElems (stampAdd rc h skipThem) ?M (remoteUpdateLog lc3)" "localUpdateLog lc' = localUpdateLog lc3"
    "theirs = map (\<lambda>(e, p). (e, stampAdd rc h skipThem p)) (filter (\<lambda>(e, p). EntryType p = Add \<and> HtlcIndex p \<notin> skipThem) (theirUpdates v))"
    using addLoop_stamp [OF e(4)] addLoop_frame [OF e(4)] cur(4) pts [OF li(2)] 1 2 3 skips
    by (simp_all add: ownLog_def otherLog_def frame_def v)
  show "ourUpdates v' = map (\<lambda>(e, p). (e, stampAdd rc h skipUs p))
           (filter (\<lambda>(e, p). EntryType p = Add \<and> HtlcIndex p \<notin> skipUs) (ourUpdates v))"
    "theirUpdates v' = map (\<lambda>(e, p). (e, stampAdd rc h skipThem p))
           (filter (\<lambda>(e, p). EntryType p = Add \<and> HtlcIndex p \<notin> skipThem) (theirUpdates v))"
    using 3(3) 4(3) e(5) by simp_all
  show "entries (localUpdateLog lc') = map (stampBelow rc h skipUs oi) (entries ?L)"
    using mapElems_below [OF log_invD(1) [OF li(1)]] 1 2 3 4 by (simp add: mapElems_comp stampBelow_def stamp_def)
  show "entries (remoteUpdateLog lc') = map (stampBelow rc h skipThem ti) (entries ?R)"
    using mapElems_below [OF log_invD(1) [OF li(2)]] 1 2 3 4 by (simp add: mapElems_comp stampBelow_def stamp_def)
qed


section \<open>The progress of the updates on one chain\<close>

definition sameOn :: "bool \<Rightarrow> PaymentDescriptor \<Rightarrow> PaymentDescriptor \<Rightarrow> bool" where
  "sameOn rc p q \<longleftrightarrow> sameUpdate p q \<and> addHeight rc q = addHeight rc p \<and> removeHeight rc q = removeHeight rc p"

text \<open>The value of the HTLCs that the last commitment of a chain carries, as the logs record it.\<close>

definition carried :: "bool \<Rightarrow> LightningChannel \<Rightarrow> u64" where
  "carried rc lc = inFlight False rc
     \<lparr>ourUpdates = entries (localUpdateLog lc), theirUpdates = entries (remoteUpdateLog lc), v_feePerKw = 0\<rparr>"

text \<open>
  Every update that a chain has committed lies below the indexes of its last commitment, and the
  HTLC of a committed removal is committed.
\<close>

definition progress_inv :: "bool \<Rightarrow> LightningChannel \<Rightarrow> u64 \<Rightarrow> u64 \<Rightarrow> bool" where
  "progress_inv rc lc ti oi \<longleftrightarrow>
     (\<forall>ours. \<forall>(e, p) \<in> set (entries (ownLog ours lc)).
        (addHeight rc p \<noteq> 0 \<or> removeHeight rc p \<noteq> 0 \<longrightarrow> LogIndex p < (if ours then oi else ti))
        \<and> (isRemoval p \<and> removeHeight rc p \<noteq> 0
             \<longrightarrow> (\<exists>q. lookupHtlc (otherLog ours lc) (ParentIndex p) = Some q \<and> addHeight rc q \<noteq> 0)))"

lemma progress_invD:
  assumes "progress_inv rc lc ti oi" and "(e, p) \<in> set (entries (ownLog ours lc))"
  shows "addHeight rc p \<noteq> 0 \<or> removeHeight rc p \<noteq> 0 \<Longrightarrow> LogIndex p < (if ours then oi else ti)"
    and "isRemoval p \<Longrightarrow> removeHeight rc p \<noteq> 0 \<Longrightarrow> \<exists>q. lookupHtlc (otherLog ours lc) (ParentIndex p) = Some q \<and> addHeight rc q \<noteq> 0"
  using assms unfolding progress_inv_def by blast+

lemma progress_below: "progress_inv rc lc ti oi \<Longrightarrow> ti \<le> ti' \<Longrightarrow> oi \<le> oi' \<Longrightarrow> committedBelow rc lc ti' oi'"
  unfolding progress_inv_def committedBelow_def
  by (fastforce dest: spec [of _ True] spec [of _ False] simp: ownLog_def)

lemma sumOf_rel:
  assumes "list_all2 (\<lambda>x y. fst x = fst y \<and> R (snd x) (snd y)) xs ys" and "\<And>p q. R p q \<Longrightarrow> amt q = amt p \<and> P q = P p"
  shows "sumOf amt P ys = sumOf amt P xs"
  using assms(1)
proof (induction rule: list_all2_induct)
  case (Cons x xs y ys)
  then show ?case using assms(2) [of "snd x" "snd y"] by (cases x; cases y) (simp add: view_simps)
qed (simp add: view_simps)

lemma carried_rel:
  assumes "logsRel (sameOn rc) lc lc'"
  shows "carried rc lc' = carried rc lc"
proof -
  have R: "amount False q = amount False p \<and> (EntryType q = Add \<and> addHeight rc q \<noteq> 0) = (EntryType p = Add \<and> addHeight rc p \<noteq> 0)"
    "amount False q = amount False p \<and> (isRemoval q \<and> removeHeight rc q \<noteq> 0) = (isRemoval p \<and> removeHeight rc p \<noteq> 0)"
    if "sameOn rc p q" for p q
    using that sameUpdateD by (auto simp: sameOn_def amount_def)
  have l: "list_all2 (\<lambda>x y. fst x = fst y \<and> sameOn rc (snd x) (snd y)) (entries (localUpdateLog lc)) (entries (localUpdateLog lc'))"
    "list_all2 (\<lambda>x y. fst x = fst y \<and> sameOn rc (snd x) (snd y)) (entries (remoteUpdateLog lc)) (entries (remoteUpdateLog lc'))"
    using assms by (simp_all add: logsRel_def logRel_def)
  from sumOf_rel [OF l(1) R(1)] sumOf_rel [OF l(1) R(2)] sumOf_rel [OF l(2) R(1)] sumOf_rel [OF l(2) R(2)]
  show ?thesis by (simp add: carried_def inFlight_def)
qed

lemma progress_rel:
  assumes rel: "logsRel (sameOn rc) lc lc'" and inv: "logs_inv (localUpdateLog lc) (remoteUpdateLog lc)"
    and p: "progress_inv rc lc ti oi"
  shows "progress_inv rc lc' ti oi"
proof -
  have own: "logRel (sameOn rc) (ownLog ours lc) (ownLog ours lc')" and other: "logRel (sameOn rc) (otherLog ours lc) (otherLog ours lc')"
    and li: "log_inv (otherLog ours lc)" for ours
    using rel inv by (auto simp: logsRel_def ownLog_def otherLog_def logs_inv_def)
  show ?thesis unfolding progress_inv_def
  proof (intro allI ballI, clarify)
    fix ours e q assume "(e, q) \<in> set (entries (ownLog ours lc'))"
    then obtain r where r: "(e, r) \<in> set (entries (ownLog ours lc))" "sameOn rc r q" using logRel_memD [OF own] by blast
    have rp: "(addHeight rc r \<noteq> 0 \<or> removeHeight rc r \<noteq> 0 \<longrightarrow> LogIndex r < (if ours then oi else ti))"
      "(isRemoval r \<and> removeHeight rc r \<noteq> 0 \<longrightarrow> (\<exists>q. lookupHtlc (otherLog ours lc) (ParentIndex r) = Some q \<and> addHeight rc q \<noteq> 0))"
      using p r(1) unfolding progress_inv_def by blast+
    have s: "LogIndex q = LogIndex r" "isRemoval q = isRemoval r" "ParentIndex q = ParentIndex r"
      "addHeight rc q = addHeight rc r" "removeHeight rc q = removeHeight rc r"
      using r(2) sameUpdateD by (auto simp: sameOn_def)
    have "\<exists>a. lookupHtlc (otherLog ours lc') k = Some a \<and> addHeight rc a \<noteq> 0"
      if "lookupHtlc (otherLog ours lc) k = Some a" "addHeight rc a \<noteq> 0" for k a
      using logRel_lookup [OF other li that(1)] that(2) by (auto simp: sameOn_def)
    with rp show "(addHeight rc q \<noteq> 0 \<or> removeHeight rc q \<noteq> 0 \<longrightarrow> LogIndex q < (if ours then oi else ti))
       \<and> (isRemoval q \<and> removeHeight rc q \<noteq> 0 \<longrightarrow> (\<exists>a. lookupHtlc (otherLog ours lc') (ParentIndex q) = Some a \<and> addHeight rc a \<noteq> 0))"
      unfolding s by blast
  qed
qed

lemma stamp_same: "sameUpdate p (stamp rc h skip p)"
  unfolding stamp_def stampAdd_def stampRemoval_def by (auto simp: view_simps)

lemma stamp_other: "addHeight (\<not> rc) (stamp rc h skip p) = addHeight (\<not> rc) p \<and> removeHeight (\<not> rc) (stamp rc h skip p) = removeHeight (\<not> rc) p"
  by (auto simp: stamp_def stampAdd_def stampRemoval_def setAddHeight_def setRemoveHeight_def addHeight_def removeHeight_def)

lemma stamp_heights:
  assumes "h \<noteq> 0"
  shows "EntryType p = Add \<Longrightarrow> HtlcIndex p \<in> skip \<longrightarrow> addHeight rc p \<noteq> 0 \<Longrightarrow> addHeight rc (stamp rc h skip p) \<noteq> 0"
    and "isRemoval p \<Longrightarrow> removeHeight rc (stamp rc h skip p) \<noteq> 0"
    and "addHeight rc p \<noteq> 0 \<Longrightarrow> addHeight rc (stamp rc h skip p) \<noteq> 0"
  using assms by (auto simp: stamp_def stampAdd_def stampRemoval_def isRemoval_def view_simps)


lemma sumOf_values:
  assumes "\<And>p. amt (g p) = amt p"
  shows "sumOf amt P (map (\<lambda>x. (fst x, g (snd x))) xs) = sumOf amt (\<lambda>p. P (g p)) xs"
  using assms by (induction xs) (auto simp: view_simps)

lemma sumOf_filter: "sumOf amt (\<lambda>_. True) (map (\<lambda>(e, p). (e, g p)) (filter (\<lambda>(e, p). P p) xs)) = sumOf amt P xs"
  if "\<And>p. amt (g p) = amt p"
  using that by (induction xs) (auto simp: view_simps)

lemma stampBelow_sum:
  assumes "xs = entries u" "log_inv u" and h: "h \<noteq> 0"
    and skip: "\<And>e p. (e, p) \<in> set xs \<Longrightarrow> EntryType p = Add \<Longrightarrow> HtlcIndex p \<in> skip \<Longrightarrow> addHeight rc p \<noteq> 0"
    and old: "\<And>e p. (e, p) \<in> set xs \<Longrightarrow> addHeight rc p \<noteq> 0 \<or> removeHeight rc p \<noteq> 0 \<Longrightarrow> LogIndex p < i"
  shows "sumOf (amount a) (\<lambda>p. EntryType p = Add \<and> addHeight rc p \<noteq> 0) (map (stampBelow rc h skip i) xs)
       = sumOf (amount a) (\<lambda>p. EntryType p = Add) (below i xs)"
    and "sumOf (amount a) (\<lambda>p. isRemoval p \<and> removeHeight rc p \<noteq> 0) (map (stampBelow rc h skip i) xs)
       = sumOf (amount a) isRemoval (below i xs)"
proof -
  let ?g = "\<lambda>p. if LogIndex p < i then stamp rc h skip p else p"
  have m: "map (stampBelow rc h skip i) xs = map (\<lambda>x. (fst x, ?g (snd x))) xs" by (simp add: stampBelow_def)
  have amt: "amount a (?g p) = amount a p" and ty: "EntryType (?g p) = EntryType p" "isRemoval (?g p) = isRemoval p" for p
    using sameUpdateD [OF stamp_same [of p rc h skip]] by (auto simp: amount_def)
  have A: "(EntryType (?g p) = Add \<and> addHeight rc (?g p) \<noteq> 0) = (LogIndex p < i \<and> EntryType p = Add)" if "(e, p) \<in> set xs" for e p
    using old [OF that] skip [OF that] stamp_heights(1) [OF h, of p skip rc] ty(1) [of p] by auto
  have B: "(isRemoval (?g p) \<and> removeHeight rc (?g p) \<noteq> 0) = (LogIndex p < i \<and> isRemoval p)" if "(e, p) \<in> set xs" for e p
    using old [OF that] stamp_heights(2) [OF h, of p rc skip] ty(2) [of p] by auto
  note val = sumOf_values [where g = ?g and amt = "amount a", OF amt]
  show "sumOf (amount a) (\<lambda>p. EntryType p = Add \<and> addHeight rc p \<noteq> 0) (map (stampBelow rc h skip i) xs)
       = sumOf (amount a) (\<lambda>p. EntryType p = Add) (below i xs)"
    unfolding m sumOf_below val by (rule sumOf_cong) (erule A)
  show "sumOf (amount a) (\<lambda>p. isRemoval p \<and> removeHeight rc p \<noteq> 0) (map (stampBelow rc h skip i) xs)
       = sumOf (amount a) isRemoval (below i xs)"
    unfolding m sumOf_below val by (rule sumOf_cong) (erule B)
qed

lemma stamped_add:
  assumes "logRel sameUpdate u w" "entries w = map (stampBelow rc h skip i) (entries u)" "h \<noteq> 0"
  shows "logRel (\<lambda>p q. addHeight rc p \<noteq> 0 \<longrightarrow> addHeight rc q \<noteq> 0) u w"
proof -
  have "addHeight rc (snd x) \<noteq> 0 \<longrightarrow> addHeight rc (snd (stampBelow rc h skip i x)) \<noteq> 0" "fst x = fst (stampBelow rc h skip i x)" for x
    using stamp_heights(3) [OF assms(3)] by (auto simp: stampBelow_def)
  then have "list_all2 (\<lambda>x y. fst x = fst y \<and> (addHeight rc (snd x) \<noteq> 0 \<longrightarrow> addHeight rc (snd y) \<noteq> 0)) xs (map (stampBelow rc h skip i) xs)" for xs
    by (induction xs) auto
  then show ?thesis using assms by (simp add: logRel_def)
qed

text \<open>One log after the evaluation: \<open>A\<close> is the log of the removals, \<open>B\<close> the log of their HTLCs.\<close>

lemma stamped_progress:
  assumes A: "entries A' = map (stampBelow rc h skip i) (entries A)" and B: "logRel sameUpdate B B'" "entries B' = map (stampBelow rc h skip' j) (entries B)"
    and inv: "log_inv B" "h \<noteq> 0" and mem: "(e, q) \<in> set (entries A')"
    and old: "\<And>e p. (e, p) \<in> set (entries A) \<Longrightarrow> addHeight rc p \<noteq> 0 \<or> removeHeight rc p \<noteq> 0 \<Longrightarrow> LogIndex p < i"
    and parents: "\<And>k. k \<in> parentsOf (below i (entries A)) \<Longrightarrow> \<exists>p. lookupHtlc B k = Some p \<and> addHeight rc p \<noteq> 0"
  shows "(addHeight rc q \<noteq> 0 \<or> removeHeight rc q \<noteq> 0 \<longrightarrow> LogIndex q < i)
     \<and> (isRemoval q \<and> removeHeight rc q \<noteq> 0 \<longrightarrow> (\<exists>p. lookupHtlc B' (ParentIndex q) = Some p \<and> addHeight rc p \<noteq> 0))"
proof -
  obtain p where p: "(e, p) \<in> set (entries A)" "q = (if LogIndex p < i then stamp rc h skip p else p)"
    using mem by (auto simp: A stampBelow_def)
  have f: "LogIndex q = LogIndex p" "isRemoval q = isRemoval p" "ParentIndex q = ParentIndex p"
    using sameUpdateD [OF stamp_same [of p rc h skip]] p(2) by auto
  have 1: "LogIndex q < i" if "addHeight rc q \<noteq> 0 \<or> removeHeight rc q \<noteq> 0"
    using old [OF p(1)] that p(2) f(1) by (cases "LogIndex p < i") auto
  moreover have "\<exists>r. lookupHtlc B' (ParentIndex q) = Some r \<and> addHeight rc r \<noteq> 0" if r: "isRemoval q" "removeHeight rc q \<noteq> 0"
  proof -
    have "ParentIndex p \<in> parentsOf (below i (entries A))" using 1 r p(1) f by (force simp: parentsOf_def below_def)
    then obtain a where a: "lookupHtlc B (ParentIndex p) = Some a" "addHeight rc a \<noteq> 0" using parents by blast
    from logRel_lookup [OF stamped_add [OF B inv(2)] inv(1) a(1)] a(2) f(3) show ?thesis by auto
  qed
  ultimately show ?thesis by blast
qed

lemma stamped_rel:
  assumes "logRel sameUpdate u w" and "entries w = map (stampBelow rc h skip i) (entries u)"
  shows "logRel (sameOn (\<not> rc)) u w"
proof -
  have "sameOn (\<not> rc) (snd x) (snd (stampBelow rc h skip i x))" "fst x = fst (stampBelow rc h skip i x)" for x
    using stamp_same [of "snd x" rc h skip] stamp_other [of rc h skip "snd x"] by (auto simp: stampBelow_def sameOn_def)
  then have "list_all2 (\<lambda>x y. fst x = fst y \<and> sameOn (\<not> rc) (snd x) (snd y)) xs (map (stampBelow rc h skip i) xs)" for xs
    by (induction xs) auto
  then show ?thesis using assms by (simp add: logRel_def)
qed

lemma evaluate_carried:
  assumes inv: "logs_inv (localUpdateLog lc) (remoteUpdateLog lc)"
    and prog: "progress_inv rc lc ti0 oi0" "ti0 \<le> ti" "oi0 \<le> oi"
    and v: "ourUpdates v = below oi (entries (localUpdateLog lc))" "theirUpdates v = below ti (entries (remoteUpdateLog lc))"
    and ev: "evaluateHTLCView lc v b h rc True = (lc', Inr (b', v'))" and h: "h \<noteq> 0"
  shows "carried rc lc' = htlcValue False v'" and "progress_inv rc lc' ti oi" and "logsRel (sameOn (\<not> rc)) lc lc'"
proof -
  let ?L = "localUpdateLog lc" and ?R = "remoteUpdateLog lc"
  let ?us = "parentsOf (below ti (entries ?R))" and ?them = "parentsOf (below oi (entries ?L))"
  have li: "log_inv ?L" "log_inv ?R" "pair_inv ?L ?R" "pair_inv ?R ?L" using inv by (auto simp: logs_inv_def)
  note st = evaluate_stamp [OF inv v ev]
  obtain st1 st2 where r: "removalLoop True h rc True (ourUpdates v) \<lparr>es_lc = lc, es_bal = b, es_fee = v_feePerKw v, es_skip = {}\<rparr> = (st1, None)"
    "removalLoop False h rc True (theirUpdates v) (st1\<lparr>es_skip := {}\<rparr>) = (st2, None)" using evaluate_cases [OF ev] by metis
  note sk = evaluate_skips [OF inv r [unfolded v]]
  have cb: "committedBelow rc lc ti oi" by (rule progress_below [OF prog])
  have them: "\<exists>p. lookupHtlc ?R k = Some p \<and> LogIndex p < ti \<and> addHeight rc p \<noteq> 0" if "k \<in> ?them" for k
    using sk(3) [of k] that committedBelow_lookup [OF cb, of True k] li(2) by (auto simp: sk(1) otherLog_def)
  have us: "\<exists>p. lookupHtlc ?L k = Some p \<and> LogIndex p < oi \<and> addHeight rc p \<noteq> 0" if "k \<in> ?us" for k
    using sk(4) [of k] that committedBelow_lookup [OF cb, of False k] li(1) by (auto simp: sk(2) otherLog_def)
  have old: "LogIndex p < oi" if "(e, p) \<in> set (entries ?L)" "addHeight rc p \<noteq> 0 \<or> removeHeight rc p \<noteq> 0" for e p
    using progress_invD(1) [OF prog(1), of e p True] that order_less_le_trans [OF _ prog(3)] by (simp add: ownLog_def)
  have old': "LogIndex p < ti" if "(e, p) \<in> set (entries ?R)" "addHeight rc p \<noteq> 0 \<or> removeHeight rc p \<noteq> 0" for e p
    using progress_invD(1) [OF prog(1), of e p False] that order_less_le_trans [OF _ prog(2)] by (simp add: ownLog_def)
  have skipL: "addHeight rc p \<noteq> 0" if "(e, p) \<in> set (entries ?L)" "EntryType p = Add" "HtlcIndex p \<in> ?us" for e p
  proof -
    have "lookupHtlc ?L (HtlcIndex p) = Some p" using that lookup_member [OF li(1)] by blast
    with us [OF that(3)] show ?thesis by simp
  qed
  have skipR: "addHeight rc p \<noteq> 0" if "(e, p) \<in> set (entries ?R)" "EntryType p = Add" "HtlcIndex p \<in> ?them" for e p
  proof -
    have "lookupHtlc ?R (HtlcIndex p) = Some p" using that lookup_member [OF li(2)] by blast
    with them [OF that(3)] show ?thesis by simp
  qed
  have sumL: "sumOf (amount False) (\<lambda>p. EntryType p = Add \<and> addHeight rc p \<noteq> 0) (map (stampBelow rc h ?us oi) (entries ?L))
       = sumOf (amount False) (\<lambda>p. EntryType p = Add) (below oi (entries ?L))"
    "sumOf (amount False) (\<lambda>p. isRemoval p \<and> removeHeight rc p \<noteq> 0) (map (stampBelow rc h ?us oi) (entries ?L))
       = sumOf (amount False) isRemoval (below oi (entries ?L))"
    by (rule stampBelow_sum(1) [OF refl li(1) h], erule (2) skipL, erule (1) old)
      (rule stampBelow_sum(2) [OF refl li(1) h], erule (2) skipL, erule (1) old)
  have sumR: "sumOf (amount False) (\<lambda>p. EntryType p = Add \<and> addHeight rc p \<noteq> 0) (map (stampBelow rc h ?them ti) (entries ?R))
       = sumOf (amount False) (\<lambda>p. EntryType p = Add) (below ti (entries ?R))"
    "sumOf (amount False) (\<lambda>p. isRemoval p \<and> removeHeight rc p \<noteq> 0) (map (stampBelow rc h ?them ti) (entries ?R))
       = sumOf (amount False) isRemoval (below ti (entries ?R))"
    by (rule stampBelow_sum(1) [OF refl li(2) h], erule (2) skipR, erule (1) old')
      (rule stampBelow_sum(2) [OF refl li(2) h], erule (2) skipR, erule (1) old')
  have amt: "amount False (stampAdd rc h skip p) = amount False p" for skip p by (simp add: stampAdd_def view_simps)
  have keptL: "sumOf (amount False) (\<lambda>_. True) (ourUpdates v') = sumOf (amount False) (\<lambda>p. EntryType p = Add \<and> HtlcIndex p \<notin> ?us) (below oi (entries ?L))"
    unfolding st(3) v by (rule sumOf_filter) (rule amt)
  have keptR: "sumOf (amount False) (\<lambda>_. True) (theirUpdates v') = sumOf (amount False) (\<lambda>p. EntryType p = Add \<and> HtlcIndex p \<notin> ?them) (below ti (entries ?R))"
    unfolding st(4) v by (rule sumOf_filter) (rule amt)
  have skL: "sumOf (amount False) (\<lambda>p. EntryType p = Add \<and> HtlcIndex p \<in> ?us) (below oi (entries ?L)) = sumOf (amount False) isRemoval (below ti (entries ?R))"
    by (rule skipped_sum [OF li(1,4)]) (use us in blast)
  have skR: "sumOf (amount False) (\<lambda>p. EntryType p = Add \<and> HtlcIndex p \<in> ?them) (below ti (entries ?R)) = sumOf (amount False) isRemoval (below oi (entries ?L))"
    by (rule skipped_sum [OF li(2,3)]) (use them in blast)
  have spL: "sumOf (amount False) (\<lambda>p. EntryType p = Add) (below oi (entries ?L))
     = sumOf (amount False) isRemoval (below ti (entries ?R)) + sumOf (amount False) (\<lambda>_. True) (ourUpdates v')"
    using sumOf_split [of "amount False" "\<lambda>p. EntryType p = Add" "below oi (entries ?L)" "\<lambda>p. HtlcIndex p \<in> ?us"] skL keptL by simp
  have spR: "sumOf (amount False) (\<lambda>p. EntryType p = Add) (below ti (entries ?R))
     = sumOf (amount False) isRemoval (below oi (entries ?L)) + sumOf (amount False) (\<lambda>_. True) (theirUpdates v')"
    using sumOf_split [of "amount False" "\<lambda>p. EntryType p = Add" "below ti (entries ?R)" "\<lambda>p. HtlcIndex p \<in> ?them"] skR keptR by simp
  show "carried rc lc' = htlcValue False v'"
    unfolding carried_def inFlight_def htlcView.simps st(1,2) sumL sumR spL spR htlcValue_def by (simp add: algebra_simps)
  have fr: "logRel sameUpdate ?L (localUpdateLog lc')" "logRel sameUpdate ?R (remoteUpdateLog lc')" "sameConfig lc lc'"
    using evaluate_frame [OF inv v ev] by blast+
  show "logsRel (sameOn (\<not> rc)) lc lc'"
    using stamped_rel [OF fr(1) st(1)] stamped_rel [OF fr(2) st(2)] fr(3) by (simp add: logsRel_def)
  show "progress_inv rc lc' ti oi" unfolding progress_inv_def
  proof (intro allI ballI, clarify)
    fix ours e q assume mem: "(e, q) \<in> set (entries (ownLog ours lc'))"
    show "(addHeight rc q \<noteq> 0 \<or> removeHeight rc q \<noteq> 0 \<longrightarrow> LogIndex q < (if ours then oi else ti))
       \<and> (isRemoval q \<and> removeHeight rc q \<noteq> 0 \<longrightarrow> (\<exists>p. lookupHtlc (otherLog ours lc') (ParentIndex q) = Some p \<and> addHeight rc p \<noteq> 0))"
    proof (cases ours)
      case True
      with mem have "(e, q) \<in> set (entries (localUpdateLog lc'))" by (simp add: ownLog_def)
      from stamped_progress [OF st(1) fr(2) st(2) li(2) h this] old them True show ?thesis
        unfolding ownLog_def otherLog_def by (simp only: if_True) blast
    next
      case False
      with mem have "(e, q) \<in> set (entries (remoteUpdateLog lc'))" by (simp add: ownLog_def)
      from stamped_progress [OF st(2) fr(1) st(1) li(1) h this] old' us False show ?thesis
        unfolding ownLog_def otherLog_def by (simp only: if_False) blast
    qed
  qed
qed


section \<open>The construction of a commitment\<close>

lemma inFlight_view:
  assumes "progress_inv rc lc ti0 oi0" "ti0 \<le> ti" "oi0 \<le> oi"
  shows "inFlight False rc (fetchHTLCView lc ti oi) = carried rc lc"
proof -
  have b: "sumOf (amount False) P (below i (entries (ownLog ours lc))) = sumOf (amount False) P (entries (ownLog ours lc))"
    if i: "i = (if ours then oi else ti)" and P: "\<And>p. P p \<Longrightarrow> addHeight rc p \<noteq> 0 \<or> removeHeight rc p \<noteq> 0" for i ours P
  proof -
    have "LogIndex p < i" if "(e, p) \<in> set (entries (ownLog ours lc))" "P p" for e p
      using progress_invD(1) [OF assms(1) that(1) P [OF that(2)]] assms(2,3) i by (auto split: if_splits)
    then show ?thesis unfolding sumOf_below by (intro sumOf_cong) auto
  qed
  note c = b [where P = "\<lambda>p. EntryType p = Add \<and> addHeight rc p \<noteq> 0"] b [where P = "\<lambda>p. isRemoval p \<and> removeHeight rc p \<noteq> 0"]
  from c [of oi True] c [of ti False] show ?thesis
    by (simp add: inFlight_def carried_def fetchHTLCView_below ownLog_def)
qed

lemma stamped_pointed:
  assumes "distinct (map fst (entries u))" and "entries w = map (stampBelow rc h skip i) (entries u)"
    and "es = map (\<lambda>(e, p). (e, stampAdd rc h skip p)) (filter (\<lambda>(e, p). EntryType p = Add \<and> HtlcIndex p \<notin> skip) (below i (entries u)))"
  shows "pointedBy sameProgress es w"
proof -
  have "(e, q) \<in> set (entries w)" if mem: "(e, q) \<in> set es" for e q
  proof -
    obtain p where "(e, p) \<in> set (entries u)" "LogIndex p < i" "EntryType p = Add" "q = stampAdd rc h skip p"
      using mem by (auto simp: assms(3) below_def)
    then have "stampBelow rc h skip i (e, p) = (e, q)" "(e, p) \<in> set (entries u)" by (simp_all add: stampBelow_def stamp_def)
    then show ?thesis unfolding assms(2) by force
  qed
  moreover have "map fst (entries w) = map fst (entries u)" by (simp add: assms(2) stampBelow_def)
  ultimately show ?thesis using assms(1) unfolding pointedBy_def by (auto intro: out_progress.R_refl)
qed

lemma sameProgress_on: "sameProgress p q \<Longrightarrow> sameOn rc p q"
  by (simp add: sameProgress_def sameOn_def)

lemma logsRel_mono: "logsRel R a b \<Longrightarrow> (\<And>p q. R p q \<Longrightarrow> S p q) \<Longrightarrow> logsRel S a b"
  unfolding logsRel_def using logRel_mono [of R] by blast

lemma fetch_progress:
  assumes inv: "logs_inv (localUpdateLog lc) (remoteUpdateLog lc)"
    and prog: "progress_inv rc lc ti0 oi0" "ti0 \<le> ti" "oi0 \<le> oi"
    and f: "fetchCommitmentView lib cb lc rc oi oh ti th k = (lc', Inr c)" and h: "height (tip (chainOf lc rc)) + 1 \<noteq> 0"
  shows "carried rc lc' = commitHtlcValue False c" "progress_inv rc lc' ti oi"
    "carried (\<not> rc) lc' = carried (\<not> rc) lc" "progress_inv (\<not> rc) lc a b \<Longrightarrow> progress_inv (\<not> rc) lc' a b"
proof -
  obtain lc1 bal w v u v' where c: "computeView lc (fetchHTLCView lc ti oi) rc True = (lc1, Inr (bal, w, v))"
    "createUnsignedCommitmentTx lib cb lc1 bal (\<not> rc) (v_feePerKw v) (height (tip (chainOf lc rc)) + 1) v k = (lc', Inr (u, v'))"
    "\<And>a. commitHtlcValue a c = htlcValue a v'"
    using fetchCommitmentView_Inr [OF f] by metis
  let ?v = "(fetchHTLCView lc ti oi)\<lparr>v_feePerKw := feePerKw (tip (chainOf lc rc))\<rparr>"
  have ev: "evaluateHTLCView lc ?v (startBalances lc rc) (height (tip (chainOf lc rc)) + 1) rc True = (lc1, Inr (bal, v))"
    using c(1) unfolding computeView_def Let_def by (auto split: prod.splits sum.splits)
  note e = evaluate_carried [OF inv prog fetch_with_rate ev h] and st = evaluate_stamp [OF inv fetch_with_rate ev]
  have li: "distinct (map fst (entries (localUpdateLog lc)))" "distinct (map fst (entries (remoteUpdateLog lc)))"
    using inv log_invD(1) by (auto simp: logs_inv_def)
  have rel: "logsRel (sameOn r) lc1 lc'" for r
    using out_progress.createUnsigned_rel [OF c(2) stamped_pointed [OF li(1) st(1) st(3) [unfolded fetch_with_rate]]
        stamped_pointed [OF li(2) st(2) st(4) [unfolded fetch_with_rate]]] by (rule logsRel_mono) (rule sameProgress_on)
  have inv1: "logs_inv (localUpdateLog lc1) (remoteUpdateLog lc1)" using sameLogs_inv [OF computeView_sameLogs [OF inv c(1)] inv] .
  have "htlcValue False v' = htlcValue False v"
    using list_same_sum [OF createUnsigned_Inr(3) [OF c(2)], of "amount False"] list_same_sum [OF createUnsigned_Inr(4) [OF c(2)], of "amount False"]
    by (simp add: htlcValue_def sumOf_map comp_def amount_def sameUpdateD case_prod_unfold)
  then show "carried rc lc' = commitHtlcValue False c" using e(1) carried_rel [OF rel] c(3) by simp
  show "progress_inv rc lc' ti oi" by (rule progress_rel [OF rel inv1 e(2)])
  show "carried (\<not> rc) lc' = carried (\<not> rc) lc" using carried_rel [OF rel] carried_rel [OF e(3)] by simp
  show "progress_inv (\<not> rc) lc' a b" if "progress_inv (\<not> rc) lc a b"
    by (rule progress_rel [OF rel inv1 progress_rel [OF e(3) inv that]])
qed

lemma fetch_height:
  assumes "fetchCommitmentView lib cb lc rc oi oh ti th k = (lc', Inr c)"
  shows "height c = height (tip (chainOf lc rc)) + 1" "height c \<le> maxStateHint" "ourMessageIndex c = oi" "theirMessageIndex c = ti"
proof -
  obtain lc1 bal w v u v' where c: "createUnsignedCommitmentTx lib cb lc1 bal (\<not> rc) (v_feePerKw v) (height (tip (chainOf lc rc)) + 1) v k = (lc', Inr (u, v'))"
    "height c = height (tip (chainOf lc rc)) + 1" "ourMessageIndex c = oi" "theirMessageIndex c = ti"
    using fetchCommitmentView_Inr [OF assms] by metis
  have "height (tip (chainOf lc rc)) + 1 \<le> maxStateHint"
    using c(1) unfolding createUnsignedCommitmentTx_def Let_def
    by (auto simp: sbind_eq_Inr finishCommitTx_def SetStateNumHint_def split: sum.splits prod.splits if_splits)
  with c show "height c = height (tip (chainOf lc rc)) + 1" "height c \<le> maxStateHint" "ourMessageIndex c = oi" "theirMessageIndex c = ti"
    by simp_all
qed

text \<open>What a commitment is worth: its balances, its fee and its HTLCs.\<close>

definition worth :: "commitment \<Rightarrow> u64" where
  "worth c = ourBtcBalance c + theirBtcBalance c + NewMSatFromSatoshis (fee c) + commitHtlcValue False c"

lemma fetch_worth:
  assumes inv: "logs_inv (localUpdateLog lc) (remoteUpdateLog lc)"
    and prog: "progress_inv rc lc ti0 oi0" "ti0 \<le> ti" "oi0 \<le> oi" and tip: "carried rc lc = commitHtlcValue False (tip (chainOf lc rc))"
    and btc: "cs_AssetID (channelState lc) = BtcAssetId" and sane: "validateCommitmentSanity lc ti oi rc None None = Inr ()"
    and f: "fetchCommitmentView lib cb lc rc oi oh ti th k = (lc', Inr c)" and small: "unat (fee c) * 1000 < 2 ^ 63"
  shows "worth c = worth (tip (chainOf lc rc))" "0 \<le> sint (ourBtcBalance c)" "0 \<le> sint (theirBtcBalance c)"
proof -
  obtain lc1 b w v where c: "computeView lc (fetchHTLCView lc ti oi) rc True = (lc1, Inr (b, w, v))"
    "ourBtcBalance c + theirBtcBalance c + NewMSatFromSatoshis (fee c) = total False b"
    "0 \<le> sint (ourBtcBalance c)" "0 \<le> sint (theirBtcBalance c)" "commitHtlcValue False c = htlcValue False v"
    using commitment_balances [OF inv btc sane f small] by blast
  have "total False b = ourBtc b + theirBtc b" by (simp add: total_def)
  with computeView_total [OF inv progress_below [OF prog] c(1)] btc c inFlight_view [OF prog] tip
  show "worth c = worth (tip (chainOf lc rc))" by (simp add: worth_def add.assoc)
  show "0 \<le> sint (ourBtcBalance c)" "0 \<le> sint (theirBtcBalance c)" using c by simp_all
qed


section \<open>Compaction\<close>

lemma compact_sums:
  assumes inv: "log_inv A" "pair_inv B A"
    and A': "entries A' = keepHtlcs (evictedParents lt rt (entries B)) (keepEntries lt rt (entries A))"
    and parents: "\<forall>(e, p) \<in> set (entries B). isRemoval p \<and> removeHeight rc p \<noteq> 0
       \<longrightarrow> (\<exists>q. lookupHtlc A (ParentIndex p) = Some q \<and> addHeight rc q \<noteq> 0)"
  shows "sumOf (amount a) (\<lambda>p. EntryType p = Add \<and> addHeight rc p \<noteq> 0) (entries A')
       = sumOf (amount a) (\<lambda>p. EntryType p = Add \<and> addHeight rc p \<noteq> 0) (entries A) - sumOf (amount a) (\<lambda>p. isRemoval p \<and> finalIn lt rt p) (entries B)"
    and "sumOf (amount a) (\<lambda>p. isRemoval p \<and> removeHeight rc p \<noteq> 0) (entries A')
       = sumOf (amount a) (\<lambda>p. isRemoval p \<and> removeHeight rc p \<noteq> 0) (entries A) - sumOf (amount a) (\<lambda>p. isRemoval p \<and> finalIn lt rt p) (entries A)"
proof -
  let ?K = "evictedParents lt rt (entries B)"
  have eq: "sumOf (amount a) P (entries A') = sumOf (amount a) (\<lambda>p. P p \<and> \<not> (EntryType p = Add \<and> HtlcIndex p \<in> ?K) \<and> \<not> finalIn lt rt p) (entries A)" for P
    unfolding A' keepHtlcs_def keepEntries_def sumOf_def by (simp add: case_prod_unfold conj_ac)
  have fin: "finalIn lt rt p \<Longrightarrow> EntryType p \<noteq> Add \<and> removeHeight rc p \<noteq> 0" for p by (auto simp: finalIn_def removeHeight_def)
  have k: "addHeight rc p \<noteq> 0" if mem: "(e, p) \<in> set (entries A)" "EntryType p = Add" "HtlcIndex p \<in> ?K" for e p
  proof -
    obtain f r where r: "(f, r) \<in> set (entries B)" "isRemoval r" "finalIn lt rt r" "ParentIndex r = HtlcIndex p"
      using mem(3) by (auto simp: evictedParents_def)
    from parents r(1,2) fin [OF r(3)] r(4) lookup_member [OF inv(1) mem(1,2)] show ?thesis by fastforce
  qed
  have "sumOf (amount a) (\<lambda>p. EntryType p = Add \<and> addHeight rc p \<noteq> 0) (entries A)
      = sumOf (amount a) (\<lambda>p. (EntryType p = Add \<and> addHeight rc p \<noteq> 0) \<and> HtlcIndex p \<in> ?K) (entries A)
        + sumOf (amount a) (\<lambda>p. (EntryType p = Add \<and> addHeight rc p \<noteq> 0) \<and> HtlcIndex p \<notin> ?K) (entries A)" by (rule sumOf_split)
  also have "sumOf (amount a) (\<lambda>p. (EntryType p = Add \<and> addHeight rc p \<noteq> 0) \<and> HtlcIndex p \<in> ?K) (entries A)
      = sumOf (amount a) (\<lambda>p. EntryType p = Add \<and> HtlcIndex p \<in> ?K) (entries A)" by (rule sumOf_cong) (use k in blast)
  also have "\<dots> = sumOf (amount a) (\<lambda>p. isRemoval p \<and> finalIn lt rt p) (entries B)"
    using matched_sum [OF inv, of a "finalIn lt rt"] by (simp add: evictedParents_def)
  also have "sumOf (amount a) (\<lambda>p. (EntryType p = Add \<and> addHeight rc p \<noteq> 0) \<and> HtlcIndex p \<notin> ?K) (entries A)
      = sumOf (amount a) (\<lambda>p. EntryType p = Add \<and> addHeight rc p \<noteq> 0) (entries A')"
    unfolding eq by (rule sumOf_cong) (use fin in blast)
  finally show "sumOf (amount a) (\<lambda>p. EntryType p = Add \<and> addHeight rc p \<noteq> 0) (entries A')
       = sumOf (amount a) (\<lambda>p. EntryType p = Add \<and> addHeight rc p \<noteq> 0) (entries A) - sumOf (amount a) (\<lambda>p. isRemoval p \<and> finalIn lt rt p) (entries B)" by simp
  have "sumOf (amount a) (\<lambda>p. isRemoval p \<and> removeHeight rc p \<noteq> 0) (entries A)
      = sumOf (amount a) (\<lambda>p. (isRemoval p \<and> removeHeight rc p \<noteq> 0) \<and> finalIn lt rt p) (entries A)
        + sumOf (amount a) (\<lambda>p. (isRemoval p \<and> removeHeight rc p \<noteq> 0) \<and> \<not> finalIn lt rt p) (entries A)" by (rule sumOf_split)
  also have "sumOf (amount a) (\<lambda>p. (isRemoval p \<and> removeHeight rc p \<noteq> 0) \<and> finalIn lt rt p) (entries A)
      = sumOf (amount a) (\<lambda>p. isRemoval p \<and> finalIn lt rt p) (entries A)" by (rule sumOf_cong) (use fin in blast)
  also have "sumOf (amount a) (\<lambda>p. (isRemoval p \<and> removeHeight rc p \<noteq> 0) \<and> \<not> finalIn lt rt p) (entries A)
      = sumOf (amount a) (\<lambda>p. isRemoval p \<and> removeHeight rc p \<noteq> 0) (entries A')"
    unfolding eq by (rule sumOf_cong) (use isRemoval_not_Add in blast)
  finally show "sumOf (amount a) (\<lambda>p. isRemoval p \<and> removeHeight rc p \<noteq> 0) (entries A')
       = sumOf (amount a) (\<lambda>p. isRemoval p \<and> removeHeight rc p \<noteq> 0) (entries A) - sumOf (amount a) (\<lambda>p. isRemoval p \<and> finalIn lt rt p) (entries A)" by simp
qed

lemma progress_sub:
  assumes inv: "logs_inv (localUpdateLog lc) (remoteUpdateLog lc)" "logs_inv (localUpdateLog lc') (remoteUpdateLog lc')"
    and sub: "\<And>ours. set (entries (ownLog ours lc')) \<subseteq> set (entries (ownLog ours lc))" and p: "progress_inv rc lc ti oi"
  shows "progress_inv rc lc' ti oi"
  unfolding progress_inv_def
proof (intro allI ballI, clarify)
  fix ours e q assume q: "(e, q) \<in> set (entries (ownLog ours lc'))"
  then have q0: "(e, q) \<in> set (entries (ownLog ours lc))" using sub by blast
  have li: "log_inv (otherLog ours lc)" "log_inv (otherLog ours lc')" "pair_inv (ownLog ours lc') (otherLog ours lc')"
    "otherLog ours lc = ownLog (\<not> ours) lc" "otherLog ours lc' = ownLog (\<not> ours) lc'"
    using inv by (auto simp: logs_inv_def ownLog_def otherLog_def)
  have "\<exists>r. lookupHtlc (otherLog ours lc') (ParentIndex q) = Some r \<and> addHeight rc r \<noteq> 0" if r: "isRemoval q" "removeHeight rc q \<noteq> 0"
  proof -
    have "q \<in> set (removals (ownLog ours lc'))" using q r(1) by (force simp: removals_def)
    then obtain h where h: "lookupHtlc (otherLog ours lc') (ParentIndex q) = Some h" using li(3) by (auto simp: pair_inv_def)
    obtain f where "(f, h) \<in> set (entries (otherLog ours lc'))" "EntryType h = Add" "HtlcIndex h = ParentIndex q"
      using lookupHtlc_iff [OF li(2)] h by force
    then have "lookupHtlc (otherLog ours lc) (ParentIndex q) = Some h"
      using lookup_member [OF li(1), of f h] sub [of "\<not> ours"] li(4,5) by auto
    with progress_invD(2) [OF p q0 r] h show ?thesis by simp
  qed
  then show "(addHeight rc q \<noteq> 0 \<or> removeHeight rc q \<noteq> 0 \<longrightarrow> LogIndex q < (if ours then oi else ti))
       \<and> (isRemoval q \<and> removeHeight rc q \<noteq> 0 \<longrightarrow> (\<exists>r. lookupHtlc (otherLog ours lc') (ParentIndex q) = Some r \<and> addHeight rc r \<noteq> 0))"
    using progress_invD(1) [OF p q0] by blast
qed

lemma compact_carried:
  assumes inv: "logs_inv (localUpdateLog lc) (remoteUpdateLog lc)" and p: "progress_inv rc lc ti oi"
    and c: "compactLogs (localUpdateLog lc) (remoteUpdateLog lc) lt rt = Some (localUpdateLog lc', remoteUpdateLog lc')"
  shows "carried rc lc' = carried rc lc" "progress_inv rc lc' ti oi" "logs_inv (localUpdateLog lc') (remoteUpdateLog lc')"
    "logIndex (localUpdateLog lc') = logIndex (localUpdateLog lc)" "logIndex (remoteUpdateLog lc') = logIndex (remoteUpdateLog lc)"
proof -
  let ?L = "localUpdateLog lc" and ?R = "remoteUpdateLog lc"
  have k: "logs_inv (localUpdateLog lc') (remoteUpdateLog lc')"
    "entries (localUpdateLog lc') = keepHtlcs (evictedParents lt rt (entries ?R)) (keepEntries lt rt (entries ?L))"
    "entries (remoteUpdateLog lc') = keepHtlcs (evictedParents lt rt (entries ?L)) (keepEntries lt rt (entries ?R))"
    "logIndex (localUpdateLog lc') = logIndex ?L" "logIndex (remoteUpdateLog lc') = logIndex ?R"
    using compactLogs_ok [OF inv, of lt rt] c by auto
  have li: "log_inv ?L" "log_inv ?R" "pair_inv ?L ?R" "pair_inv ?R ?L" using inv by (auto simp: logs_inv_def)
  have pL: "\<forall>(e, r) \<in> set (entries ?L). isRemoval r \<and> removeHeight rc r \<noteq> 0 \<longrightarrow> (\<exists>q. lookupHtlc ?R (ParentIndex r) = Some q \<and> addHeight rc q \<noteq> 0)"
    using progress_invD(2) [OF p, of _ _ True] by (auto simp: ownLog_def otherLog_def)
  have pR: "\<forall>(e, r) \<in> set (entries ?R). isRemoval r \<and> removeHeight rc r \<noteq> 0 \<longrightarrow> (\<exists>q. lookupHtlc ?L (ParentIndex r) = Some q \<and> addHeight rc q \<noteq> 0)"
    using progress_invD(2) [OF p, of _ _ False] by (auto simp: ownLog_def otherLog_def)
  note L = compact_sums [OF li(1,4) k(2) pR, of False] and R = compact_sums [OF li(2,3) k(3) pL, of False]
  show "carried rc lc' = carried rc lc"
    unfolding carried_def inFlight_def htlcView.simps L R by (simp add: algebra_simps)
  show "logs_inv (localUpdateLog lc') (remoteUpdateLog lc')"
    "logIndex (localUpdateLog lc') = logIndex ?L" "logIndex (remoteUpdateLog lc') = logIndex ?R" using k by blast+
  have "set (entries (ownLog ours lc')) \<subseteq> set (entries (ownLog ours lc))" for ours
    by (auto simp: ownLog_def k(2,3) keepHtlcs_def keepEntries_def)
  then show "progress_inv rc lc' ti oi" by (rule progress_sub [OF inv k(1) _ p])
qed

end
