(* ===== verification/Channel_Capacity.thy ===== *)
theory Channel_Capacity
  imports Update_Progress Resync
begin

text \<open>
  The capacity of a channel: along every sequence of successful operations, each commitment of both
  chains is worth what the channel was worth when it was opened. The invariant also says how far
  the two chains are apart, so that every commitment extends the previous one of its chain.
\<close>

section \<open>Updates\<close>

definition unstamped :: "PaymentDescriptor \<Rightarrow> bool" where
  "unstamped pd \<longleftrightarrow> (\<forall>rc. addHeight rc pd = 0 \<and> removeHeight rc pd = 0)"

definition appended :: "bool \<Rightarrow> LightningChannel \<Rightarrow> LightningChannel \<Rightarrow> bool" where
  "appended ours lc lc' \<longleftrightarrow>
     (\<exists>pd. unstamped pd \<and> entries (ownLog ours lc') = entries (ownLog ours lc) @ [(nextElem (ownLog ours lc), pd)])
     \<and> logIndex (ownLog ours lc') = logIndex (ownLog ours lc) + 1
     \<and> entries (otherLog ours lc') = entries (otherLog ours lc) \<and> logIndex (otherLog ours lc') = logIndex (otherLog ours lc)"

definition room :: "LightningChannel \<Rightarrow> bool" where
  "room lc \<longleftrightarrow> (\<forall>ours. logIndex (ownLog ours lc) + 1 \<noteq> 0 \<and> htlcCounter (ownLog ours lc) + 1 \<noteq> 0)"

definition updated :: "LightningChannel \<Rightarrow> LightningChannel \<Rightarrow> bool" where
  "updated lc lc' \<longleftrightarrow> sameConfig lc lc' \<and> logs_inv (localUpdateLog lc') (remoteUpdateLog lc') \<and> (\<exists>ours. appended ours lc lc')"

lemma append_appended:
  assumes "unstamped pd"
  shows "appended True lc (lc\<lparr>localUpdateLog := appendHtlc (localUpdateLog lc) pd\<rparr>)"
    "appended True lc (lc\<lparr>localUpdateLog := appendUpdate (localUpdateLog lc) pd\<rparr>)"
    "appended False lc (lc\<lparr>remoteUpdateLog := appendHtlc (remoteUpdateLog lc) pd\<rparr>)"
    "appended False lc (lc\<lparr>remoteUpdateLog := appendUpdate (remoteUpdateLog lc) pd\<rparr>)"
    "appended True lc (lc\<lparr>localUpdateLog := appendUpdate (localUpdateLog lc) pd, remoteUpdateLog := markHtlcModified (remoteUpdateLog lc) i\<rparr>)"
    "appended False lc (lc\<lparr>remoteUpdateLog := appendUpdate (remoteUpdateLog lc) pd, localUpdateLog := markHtlcModified (localUpdateLog lc) i\<rparr>)"
    "appended False lc (lc\<lparr>localUpdateLog := markHtlcModified (localUpdateLog lc) i, remoteUpdateLog := appendUpdate (remoteUpdateLog lc) pd\<rparr>)"
  using assms by (auto simp: appended_def ownLog_def otherLog_def append_simps mark_simps)

lemma unstamped_new:
  "unstamped (htlcAddDescriptor lc m key)" "unstamped (receivedDescriptor lc m)" "unstamped (feeDescriptor lc log rate)"
  by (auto simp: unstamped_def htlcAddDescriptor_def receivedDescriptor_def feeDescriptor_def SetAmtFromMsgHtlc_def zeroPD_def
      addHeight_def removeHeight_def Let_def)

lemma unstamped_zero:
  "addCommitHeightRemote pd = 0 \<Longrightarrow> addCommitHeightLocal pd = 0 \<Longrightarrow> removeCommitHeightRemote pd = 0 \<Longrightarrow> removeCommitHeightLocal pd = 0 \<Longrightarrow> unstamped pd"
  by (simp add: unstamped_def addHeight_def removeHeight_def)

lemma removal_appended:
  "SettleHTLC lc preimage i src dst key = Inr lc' \<Longrightarrow> appended True lc lc'"
  "FailHTLC lc i reason src dst key = Inr lc' \<Longrightarrow> appended True lc lc'"
  "MalformedFailHTLC lc i code sha srcr = Inr lc' \<Longrightarrow> appended True lc lc'"
  "ReceiveHTLCSettle lc preimage i = Inr lc' \<Longrightarrow> appended False lc lc'"
  "ReceiveFailHTLC lc i reason = Inr lc' \<Longrightarrow> appended False lc lc'"
  by (auto simp: SettleHTLC_def FailHTLC_def MalformedFailHTLC_def ReceiveHTLCSettle_def ReceiveFailHTLC_def zeroPD_def Let_def
      intro!: append_appended unstamped_zero split: option.splits if_splits)

lemma own_other: "logs_inv (ownLog ours lc) (otherLog ours lc) = logs_inv (localUpdateLog lc) (remoteUpdateLog lc)"
  using logs_inv_sym by (auto simp: ownLog_def otherLog_def)

lemma removal_updated:
  assumes "logs_inv (localUpdateLog lc) (remoteUpdateLog lc)" "room lc"
  shows "SettleHTLC lc preimage i src dst key = Inr lc' \<Longrightarrow> updated lc lc'"
    "FailHTLC lc i reason src dst key = Inr lc' \<Longrightarrow> updated lc lc'"
    "MalformedFailHTLC lc i code sha srcr = Inr lc' \<Longrightarrow> updated lc lc'"
    "ReceiveHTLCSettle lc preimage i = Inr lc' \<Longrightarrow> updated lc lc'"
    "ReceiveFailHTLC lc i reason = Inr lc' \<Longrightarrow> updated lc lc'"
proof -
  have inv: "logs_inv (ownLog ours lc) (otherLog ours lc)" for ours using assms(1) by (simp add: own_other)
  note r = assms(2) [unfolded room_def]
  show "SettleHTLC lc preimage i src dst key = Inr lc' \<Longrightarrow> updated lc lc'"
    using settle.keeps_logs_inv [OF _ inv [of True]] removal_appended(1) update_ops_config(3) r unfolding updated_def by (metis own_other)
  show "FailHTLC lc i reason src dst key = Inr lc' \<Longrightarrow> updated lc lc'"
    using fail.keeps_logs_inv [OF _ inv [of True]] removal_appended(2) update_ops_config(5) r unfolding updated_def by (metis own_other)
  show "MalformedFailHTLC lc i code sha srcr = Inr lc' \<Longrightarrow> updated lc lc'"
    using malformed.keeps_logs_inv [OF _ inv [of True]] removal_appended(3) update_ops_config(6) r unfolding updated_def by (metis own_other)
  show "ReceiveHTLCSettle lc preimage i = Inr lc' \<Longrightarrow> updated lc lc'"
    using receive_settle.keeps_logs_inv [OF _ inv [of False]] removal_appended(4) update_ops_config(4) r unfolding updated_def by (metis own_other)
  show "ReceiveFailHTLC lc i reason = Inr lc' \<Longrightarrow> updated lc lc'"
    using receive_fail.keeps_logs_inv [OF _ inv [of False]] removal_appended(5) update_ops_config(7) r unfolding updated_def by (metis own_other)
qed

lemma new_fields:
  "EntryType (htlcAddDescriptor lc m key) = Add" "LogIndex (htlcAddDescriptor lc m key) = logIndex (localUpdateLog lc)"
  "HtlcIndex (htlcAddDescriptor lc m key) = htlcCounter (localUpdateLog lc)"
  "EntryType (receivedDescriptor lc m) = Add" "LogIndex (receivedDescriptor lc m) = logIndex (remoteUpdateLog lc)"
  "HtlcIndex (receivedDescriptor lc m) = htlcCounter (remoteUpdateLog lc)"
  "EntryType (feeDescriptor lc log rate) = FeeUpdate" "LogIndex (feeDescriptor lc log rate) = logIndex log"
  by (simp_all add: htlcAddDescriptor_def receivedDescriptor_def feeDescriptor_def SetAmtFromMsgHtlc_def Let_def)

lemma add_updated:
  assumes inv: "logs_inv (localUpdateLog lc) (remoteUpdateLog lc)" and r: "room lc"
  shows "AddHTLC lc m key = Inr (lc', i) \<Longrightarrow> updated lc lc'" "ReceiveHTLC lc m = Inr (lc', i) \<Longrightarrow> updated lc lc'"
    "UpdateFee lc rate = Inr lc' \<Longrightarrow> updated lc lc'" "ReceiveUpdateFee lc rate = Inr lc' \<Longrightarrow> updated lc lc'"
proof -
  have inv': "logs_inv (remoteUpdateLog lc) (localUpdateLog lc)" using inv logs_inv_sym by blast
  have w: "logIndex (localUpdateLog lc) + 1 \<noteq> 0" "htlcCounter (localUpdateLog lc) + 1 \<noteq> 0"
    "logIndex (remoteUpdateLog lc) + 1 \<noteq> 0" "htlcCounter (remoteUpdateLog lc) + 1 \<noteq> 0"
    using r unfolding room_def by (metis ownLog_def)+
  note app = append_appended [OF unstamped_new(1)] append_appended [OF unstamped_new(2)] append_appended [OF unstamped_new(3)]
  show "updated lc lc'" if op: "AddHTLC lc m key = Inr (lc', i)"
  proof -
    have lc': "lc' = lc\<lparr>localUpdateLog := appendHtlc (localUpdateLog lc) (htlcAddDescriptor lc m key)\<rparr>"
      using op by (auto simp: AddHTLC_def Let_def sbind_eq_Inr)
    have "logs_inv (localUpdateLog lc') (remoteUpdateLog lc')"
      using logs_inv_add [OF inv new_fields(1-3) w(1,2), of m key] by (simp add: lc')
    with update_ops_config(1) [OF op] app(1) lc' show ?thesis unfolding updated_def by blast
  qed
  show "updated lc lc'" if op: "ReceiveHTLC lc m = Inr (lc', i)"
  proof -
    have lc': "lc' = lc\<lparr>remoteUpdateLog := appendHtlc (remoteUpdateLog lc) (receivedDescriptor lc m)\<rparr>"
      using op by (auto simp: ReceiveHTLC_def Let_def sbind_eq_Inr split: if_splits)
    have "logs_inv (localUpdateLog lc') (remoteUpdateLog lc')"
      using logs_inv_add [OF inv' new_fields(4-6) w(3,4), of m] logs_inv_sym by (simp add: lc')
    with update_ops_config(2) [OF op] app(10) lc' show ?thesis unfolding updated_def by blast
  qed
  show "updated lc lc'" if op: "UpdateFee lc rate = Inr lc'"
  proof -
    have lc': "lc' = lc\<lparr>localUpdateLog := appendUpdate (localUpdateLog lc) (feeDescriptor lc (localUpdateLog lc) rate)\<rparr>"
      using op by (auto simp: UpdateFee_def sbind_eq_Inr split: if_splits)
    have "logs_inv (localUpdateLog lc') (remoteUpdateLog lc')"
      using logs_inv_fee [OF inv new_fields(7,8) w(1), of lc rate] by (simp add: lc')
    with update_ops_config(8) [OF op] app(16) lc' show ?thesis unfolding updated_def by blast
  qed
  show "updated lc lc'" if op: "ReceiveUpdateFee lc rate = Inr lc'"
  proof -
    have lc': "lc' = lc\<lparr>remoteUpdateLog := appendUpdate (remoteUpdateLog lc) (feeDescriptor lc (remoteUpdateLog lc) rate)\<rparr>"
      using op by (auto simp: ReceiveUpdateFee_def split: if_splits)
    have "logs_inv (localUpdateLog lc') (remoteUpdateLog lc')"
      using logs_inv_fee [OF inv' new_fields(7,8) w(3), of lc rate] logs_inv_sym by (simp add: lc')
    with update_ops_config(9) [OF op] app(18) lc' show ?thesis unfolding updated_def by blast
  qed
qed


lemma sumOf_append: "sumOf amt P (xs @ ys) = sumOf amt P xs + sumOf amt P ys"
  by (simp add: sumOf_def)

lemma updated_carried:
  assumes "updated lc lc'"
  shows "carried rc lc' = carried rc lc"
proof -
  obtain ours pd where a: "unstamped pd" "entries (ownLog ours lc') = entries (ownLog ours lc) @ [(nextElem (ownLog ours lc), pd)]"
    "entries (otherLog ours lc') = entries (otherLog ours lc)"
    using assms unfolding updated_def appended_def by blast
  have z: "sumOf amt (\<lambda>p. EntryType p = Add \<and> addHeight rc p \<noteq> 0) [(e, pd)] = 0" "sumOf amt (\<lambda>p. isRemoval p \<and> removeHeight rc p \<noteq> 0) [(e, pd)] = 0" for amt e
    using a(1) by (simp_all add: sumOf_def unstamped_def)
  show ?thesis using a(2,3) z by (cases ours) (simp_all add: carried_def inFlight_def ownLog_def otherLog_def sumOf_append)
qed

lemma updated_progress:
  assumes u: "updated lc lc'" and inv: "logs_inv (localUpdateLog lc) (remoteUpdateLog lc)" and p: "progress_inv rc lc ti oi"
  shows "progress_inv rc lc' ti oi"
  unfolding progress_inv_def
proof (intro allI ballI, clarify)
  fix ours e q assume q: "(e, q) \<in> set (entries (ownLog ours lc'))"
  obtain mine pd where a: "unstamped pd" "entries (ownLog mine lc') = entries (ownLog mine lc) @ [(nextElem (ownLog mine lc), pd)]"
    "entries (otherLog mine lc') = entries (otherLog mine lc)"
    using u unfolding updated_def appended_def by blast
  have new: "(f, r) \<in> set (entries (ownLog b lc)) \<or> unstamped r" if "(f, r) \<in> set (entries (ownLog b lc'))" for b f r
    using a that by (cases mine; cases b; auto simp: ownLog_def otherLog_def)
  have sub: "set (entries (ownLog b lc)) \<subseteq> set (entries (ownLog b lc'))" for b
    using a by (cases mine; cases b; auto simp: ownLog_def otherLog_def)
  have li: "log_inv (otherLog ours lc)" "log_inv (otherLog ours lc')" "otherLog ours lc = ownLog (\<not> ours) lc" "otherLog ours lc' = ownLog (\<not> ours) lc'"
    using inv u by (auto simp: logs_inv_def ownLog_def otherLog_def updated_def)
  show "(addHeight rc q \<noteq> 0 \<or> removeHeight rc q \<noteq> 0 \<longrightarrow> LogIndex q < (if ours then oi else ti))
       \<and> (isRemoval q \<and> removeHeight rc q \<noteq> 0 \<longrightarrow> (\<exists>r. lookupHtlc (otherLog ours lc') (ParentIndex q) = Some r \<and> addHeight rc r \<noteq> 0))"
  proof (cases "unstamped q")
    case False
    then have q0: "(e, q) \<in> set (entries (ownLog ours lc))" using new [OF q] by blast
    have "\<exists>r. lookupHtlc (otherLog ours lc') (ParentIndex q) = Some r \<and> addHeight rc r \<noteq> 0" if rem: "isRemoval q" "removeHeight rc q \<noteq> 0"
    proof -
      obtain r where r: "lookupHtlc (otherLog ours lc) (ParentIndex q) = Some r" "addHeight rc r \<noteq> 0"
        using progress_invD(2) [OF p q0 rem] by blast
      then obtain f where "(f, r) \<in> set (entries (otherLog ours lc'))" "EntryType r = Add" "HtlcIndex r = ParentIndex q"
        using lookupHtlc_iff [OF li(1)] sub [of "\<not> ours"] li(3,4) by force
      with lookup_member [OF li(2)] r(2) show ?thesis by metis
    qed
    with progress_invD(1) [OF p q0] show ?thesis by blast
  qed (simp add: unstamped_def)
qed

section \<open>The invariant\<close>

definition indexes_inv :: "LightningChannel \<Rightarrow> bool" where
  "indexes_inv lc \<longleftrightarrow>
     sorted (map theirMessageIndex (localCommitChain lc) @ [logIndex (remoteUpdateLog lc)])
     \<and> sorted (map ourMessageIndex (remoteCommitChain lc) @ [logIndex (localUpdateLog lc)])
     \<and> theirMessageIndex (tip (remoteCommitChain lc)) \<le> theirMessageIndex (tail (localCommitChain lc))
     \<and> ourMessageIndex (tip (localCommitChain lc)) \<le> ourMessageIndex (tail (remoteCommitChain lc))"

definition chain_inv :: "u64 \<Rightarrow> LightningChannel \<Rightarrow> bool \<Rightarrow> bool" where
  "chain_inv cap lc rc \<longleftrightarrow> chainOf lc rc \<noteq> []
     \<and> (\<forall>c \<in> set (chainOf lc rc). worth c = cap \<and> 0 \<le> sint (ourBtcBalance c) \<and> 0 \<le> sint (theirBtcBalance c) \<and> height c \<le> maxStateHint)
     \<and> carried rc lc = commitHtlcValue False (tip (chainOf lc rc))
     \<and> progress_inv rc lc (theirMessageIndex (tip (chainOf lc rc))) (ourMessageIndex (tip (chainOf lc rc)))"

definition cap_inv :: "u64 \<Rightarrow> 'pk Chan \<Rightarrow> bool" where
  "cap_inv cap ch \<longleftrightarrow> logs_inv (localUpdateLog (ch_lc ch)) (remoteUpdateLog (ch_lc ch))
     \<and> cs_AssetID (channelState (ch_lc ch)) = BtcAssetId
     \<and> chain_inv cap (ch_lc ch) True \<and> chain_inv cap (ch_lc ch) False \<and> indexes_inv (ch_lc ch)"

lemma tip_in: "s \<noteq> [] \<Longrightarrow> tip s \<in> set s"
  by (simp add: tip_def)

lemma chainOf_simps [simp]: "chainOf lc True = remoteCommitChain lc" "chainOf lc False = localCommitChain lc"
  by (simp_all add: chainOf_def)

lemma sorted_raise: "sorted (xs @ [n]) \<Longrightarrow> n \<le> m \<Longrightarrow> sorted (xs @ [m :: 'a :: linorder])"
  by (auto simp: sorted_append)

lemma word_le_succ: "(n :: u64) + 1 \<noteq> 0 \<Longrightarrow> n \<le> n + 1"
  using word_less_succ [of n n] by simp

lemma updated_cap:
  assumes inv: "cap_inv cap ch" and u: "updated (ch_lc ch) lc'" and r: "room (ch_lc ch)"
  shows "cap_inv cap (ch\<lparr>ch_lc := lc'\<rparr>)"
proof -
  let ?lc = "ch_lc ch"
  have cfg: "sameConfig ?lc lc'" "logs_inv (localUpdateLog lc') (remoteUpdateLog lc')" using u by (auto simp: updated_def)
  note c = sameConfigD [OF cfg(1)]
  have w: "logIndex (localUpdateLog ?lc) + 1 \<noteq> 0" "logIndex (remoteUpdateLog ?lc) + 1 \<noteq> 0"
    using r unfolding room_def by (metis ownLog_def)+
  have i: "logIndex (localUpdateLog ?lc) \<le> logIndex (localUpdateLog lc')" "logIndex (remoteUpdateLog ?lc) \<le> logIndex (remoteUpdateLog lc')"
  proof -
    obtain ours where "logIndex (ownLog ours lc') = logIndex (ownLog ours ?lc) + 1" "logIndex (otherLog ours lc') = logIndex (otherLog ours ?lc)"
      using u unfolding updated_def appended_def by blast
    with word_le_succ [OF w(1)] word_le_succ [OF w(2)]
    show "logIndex (localUpdateLog ?lc) \<le> logIndex (localUpdateLog lc')" "logIndex (remoteUpdateLog ?lc) \<le> logIndex (remoteUpdateLog lc')"
      by (cases ours; simp add: ownLog_def otherLog_def)+
  qed
  have logs: "logs_inv (localUpdateLog ?lc) (remoteUpdateLog ?lc)" using inv by (simp add: cap_inv_def)
  have chain: "chain_inv cap lc' rc" if "chain_inv cap ?lc rc" for rc
    using that updated_carried [OF u] updated_progress [OF u logs] c by (simp add: chain_inv_def chainOf_def split: if_splits)
  have "indexes_inv ?lc" using inv by (simp add: cap_inv_def)
  then have "indexes_inv lc'"
    using sorted_raise [OF _ i(1)] sorted_raise [OF _ i(2)] unfolding indexes_inv_def c(1,2) by blast
  with inv chain cfg(2) c show ?thesis by (simp add: cap_inv_def)
qed


section \<open>The commitment dance\<close>

definition setChain :: "bool \<Rightarrow> commitmentChain \<Rightarrow> LightningChannel \<Rightarrow> LightningChannel" where
  "setChain rc s lc = (if rc then lc\<lparr>remoteCommitChain := s\<rparr> else lc\<lparr>localCommitChain := s\<rparr>)"

lemma logs_only:
  assumes "localUpdateLog a = localUpdateLog b" "remoteUpdateLog a = remoteUpdateLog b"
  shows "carried rc a = carried rc b" "progress_inv rc a ti oi = progress_inv rc b ti oi"
  using assms by (simp_all add: carried_def progress_inv_def ownLog_def otherLog_def)

lemma setChain_simps [simp]:
  "localUpdateLog (setChain rc s lc) = localUpdateLog lc" "remoteUpdateLog (setChain rc s lc) = remoteUpdateLog lc"
  "chainOf (setChain rc s lc) rc = s" "chainOf (setChain rc s lc) (\<not> rc) = chainOf lc (\<not> rc)"
  "channelState (setChain rc s lc) = channelState lc"
  by (simp_all add: setChain_def chainOf_def)

lemma maxStateHint_succ: "(h :: u64) \<le> maxStateHint \<Longrightarrow> h + 1 \<noteq> 0"
proof
  assume "h \<le> maxStateHint" "h + 1 = 0"
  then have "h = - 1" by (simp add: eq_neg_iff_add_eq_0)
  with \<open>h \<le> maxStateHint\<close> show False by (simp add: maxStateHint_def word_le_def unsigned_minus_1_eq_mask mask_eq_exp_minus_1)
qed

lemma extend_chain:
  assumes logs: "logs_inv (localUpdateLog lc) (remoteUpdateLog lc)" and btc: "cs_AssetID (channelState lc) = BtcAssetId"
    and chain: "chain_inv cap lc rc" "chain_inv cap lc (\<not> rc)"
    and le: "theirMessageIndex (tip (chainOf lc rc)) \<le> ti" "ourMessageIndex (tip (chainOf lc rc)) \<le> oi"
    and sane: "validateCommitmentSanity lc ti oi rc None None = Inr ()"
    and f: "fetchCommitmentView lib cb lc rc oi oh ti th k = (lc1, Inr c)" and small: "unat (fee c) * 1000 < 2 ^ 63"
    and c': "worth c' = worth c" "commitHtlcValue False c' = commitHtlcValue False c" "ourBtcBalance c' = ourBtcBalance c"
      "theirBtcBalance c' = theirBtcBalance c" "height c' = height c" "ourMessageIndex c' = ourMessageIndex c"
      "theirMessageIndex c' = theirMessageIndex c"
  defines "lc2 \<equiv> setChain rc (chainOf lc rc @ [c']) lc1"
  shows "logs_inv (localUpdateLog lc2) (remoteUpdateLog lc2)" "cs_AssetID (channelState lc2) = BtcAssetId"
    "chain_inv cap lc2 rc" "chain_inv cap lc2 (\<not> rc)" "ourMessageIndex c' = oi" "theirMessageIndex c' = ti"
    "logIndex (localUpdateLog lc2) = logIndex (localUpdateLog lc)" "logIndex (remoteUpdateLog lc2) = logIndex (remoteUpdateLog lc)"
proof -
  let ?t = "tip (chainOf lc rc)"
  have ch: "chainOf lc rc \<noteq> []" "worth ?t = cap" "height ?t \<le> maxStateHint" "carried rc lc = commitHtlcValue False ?t"
    "progress_inv rc lc (theirMessageIndex ?t) (ourMessageIndex ?t)"
    using chain(1) tip_in by (auto simp: chain_inv_def)
  have same: "sameLogs lc lc1" by (rule fetchCommitmentView_sameLogs [OF logs f])
  then have cfg: "sameConfig lc lc1" and rel: "logRel sameUpdate (localUpdateLog lc) (localUpdateLog lc1)"
    "logRel sameUpdate (remoteUpdateLog lc) (remoteUpdateLog lc1)" by (simp_all add: sameLogs_def)
  note h = fetch_height [OF f] and w = fetch_worth [OF logs ch(5) le ch(4) btc sane f small]
    and pr = fetch_progress [OF logs ch(5) le f maxStateHint_succ [OF ch(3)]]
  show "logs_inv (localUpdateLog lc2) (remoteUpdateLog lc2)" using sameLogs_inv [OF same logs] by (simp add: lc2_def)
  show "cs_AssetID (channelState lc2) = BtcAssetId" using sameConfigD(8) [OF cfg] btc by (simp add: lc2_def)
  show "ourMessageIndex c' = oi" "theirMessageIndex c' = ti" using h c' by simp_all
  show "logIndex (localUpdateLog lc2) = logIndex (localUpdateLog lc)" "logIndex (remoteUpdateLog lc2) = logIndex (remoteUpdateLog lc)"
    using logRel_fields(1) [OF rel(1)] logRel_fields(1) [OF rel(2)] by (simp_all add: lc2_def)
  have lo: "carried r lc2 = carried r lc1" "progress_inv r lc2 x y = progress_inv r lc1 x y" for r x y
    by (rule logs_only; simp add: lc2_def)+
  show "chain_inv cap lc2 rc"
    using chain(1) w ch(2) h pr(1,2) c' unfolding chain_inv_def lo by (auto simp: lc2_def tip_def)
  have "chainOf lc1 (\<not> rc) = chainOf lc (\<not> rc)" using sameConfigD(1,2) [OF cfg] by (simp add: chainOf_def)
  then show "chain_inv cap lc2 (\<not> rc)"
    using chain(2) pr(3,4) unfolding chain_inv_def lo by (simp add: lc2_def)
qed

lemma sign_cap:
  assumes inv: "cap_inv cap ch" and op: "SignNextCommitment env ch = (ch', Inr r)"
    and small: "\<forall>c \<in> set (remoteCommitChain (ch_lc ch')). unat (fee c) * 1000 < 2 ^ 63"
  shows "cap_inv cap ch'"
proof -
  let ?lc = "ch_lc ch"
  obtain sig hs htlcs where r: "r = (sig, hs, htlcs)" by (cases r)
  obtain p k lc1 c where b: "validateCommitmentSanity ?lc (theirMessageIndex (tail (localCommitChain ?lc))) (logIndex (localUpdateLog ?lc)) True None None = Inr ()"
    "fetchCommitmentView (env_lib env) (ch_builder ch) ?lc True (logIndex (localUpdateLog ?lc)) (htlcCounter (localUpdateLog ?lc))
       (theirMessageIndex (tail (localCommitChain ?lc))) (theirHtlcIndex (tail (localCommitChain ?lc))) k = (lc1, Inr c)"
    "extendRemoteChain env (ch\<lparr>ch_lc := lc1\<rparr>) k c = (ch', Inr (sig, hs, htlcs))"
    using SignNextCommitment_built [OF op [unfolded r]] by metis
  have rc: "remoteCommitChain lc1 = remoteCommitChain ?lc" "localCommitChain lc1 = localCommitChain ?lc"
    using sameConfigD [OF fetchCommitmentView_config [OF b(2)]] by simp_all
  have lc': "ch_lc ch' = setChain True (chainOf ?lc True @ [c]) lc1"
    using b(3) by (rule extendRemoteChain_Inr) (simp add: setChain_def rc)
  have i: "logs_inv (localUpdateLog ?lc) (remoteUpdateLog ?lc)" "cs_AssetID (channelState ?lc) = BtcAssetId"
    "chain_inv cap ?lc True" "chain_inv cap ?lc (\<not> True)" "indexes_inv ?lc" using inv by (simp_all add: cap_inv_def)
  have ne: "remoteCommitChain ?lc \<noteq> []" "localCommitChain ?lc \<noteq> []" using i(3,4) by (simp_all add: chain_inv_def)
  have le: "theirMessageIndex (tip (chainOf ?lc True)) \<le> theirMessageIndex (tail (localCommitChain ?lc))"
    "ourMessageIndex (tip (chainOf ?lc True)) \<le> logIndex (localUpdateLog ?lc)"
    using i(5) ne tip_in [of "remoteCommitChain ?lc"] by (auto simp: indexes_inv_def sorted_append)
  have "unat (fee c) * 1000 < 2 ^ 63" using small by (simp add: lc' setChain_def)
  note e = extend_chain [OF i(1-4) le b(1,2) this refl refl refl refl refl refl refl, folded lc']
  have "remoteCommitChain (ch_lc ch') = remoteCommitChain ?lc @ [c]" "localCommitChain (ch_lc ch') = localCommitChain ?lc"
    by (simp_all add: lc' setChain_def rc)
  with i(5) ne e le have "indexes_inv (ch_lc ch')"
    by (auto simp: indexes_inv_def sorted_append tip_def tail_def)
  with e show ?thesis by (simp add: cap_inv_def)
qed

lemma strip_value: "stripSigs c' = stripSigs c \<Longrightarrow> commitHtlcValue False c' = commitHtlcValue False c"
proof -
  assume "stripSigs c' = stripSigs c"
  note s = strip_fields(12,13) [OF this]
  have "map (amount False) xs = map (amount False) ys" if "map withoutSig xs = map withoutSig ys" for xs ys
  proof -
    have "map (amount False \<circ> withoutSig) xs = map (amount False \<circ> withoutSig) ys" using arg_cong [OF that, of "map (amount False)"] by simp
    moreover have "amount False \<circ> withoutSig = amount False" by (auto simp: withoutSig_def amount_def)
    ultimately show ?thesis by simp
  qed
  from this [OF s(1)] this [OF s(2)] show ?thesis by (simp add: commitHtlcValue_def)
qed

lemma receive_cap:
  assumes inv: "cap_inv cap ch" and op: "ReceiveNewCommitment env ch sig sigs = (ch', Inr ())"
    and small: "\<forall>c \<in> set (localCommitChain (ch_lc ch')). unat (fee c) * 1000 < 2 ^ 63"
  shows "cap_inv cap ch'"
proof -
  let ?lc = "ch_lc ch"
  obtain k lc1 c c' where b: "validateCommitmentSanity ?lc (logIndex (remoteUpdateLog ?lc)) (ourMessageIndex (tail (remoteCommitChain ?lc))) False None None = Inr ()"
    "fetchCommitmentView (env_lib env) (ch_builder ch) ?lc False (ourMessageIndex (tail (remoteCommitChain ?lc))) (ourHtlcIndex (tail (remoteCommitChain ?lc)))
       (logIndex (remoteUpdateLog ?lc)) (htlcCounter (remoteUpdateLog ?lc)) k = (lc1, Inr c)"
    "verifyCommitment env (ch\<lparr>ch_lc := lc1\<rparr>) k c sig sigs (currentHeight ?lc + 1) = Inr c'"
    "ch' = ch\<lparr>ch_lc := lc1\<lparr>localCommitChain := localCommitChain lc1 @ [c']\<rparr>\<rparr>"
    using ReceiveNewCommitment_Inr [OF op] by metis
  note st = verifyCommitment_strip [OF b(3)]
  note sf = strip_fields [OF st] strip_value [OF st]
  have w: "worth c' = worth c" by (simp add: worth_def sf)
  have rc: "remoteCommitChain lc1 = remoteCommitChain ?lc" "localCommitChain lc1 = localCommitChain ?lc"
    using sameConfigD [OF fetchCommitmentView_config [OF b(2)]] by simp_all
  have lc': "ch_lc ch' = setChain False (chainOf ?lc False @ [c']) lc1" by (simp add: b(4) setChain_def rc)
  have i: "logs_inv (localUpdateLog ?lc) (remoteUpdateLog ?lc)" "cs_AssetID (channelState ?lc) = BtcAssetId"
    "chain_inv cap ?lc False" "chain_inv cap ?lc (\<not> False)" "indexes_inv ?lc" using inv by (simp_all add: cap_inv_def)
  have ne: "remoteCommitChain ?lc \<noteq> []" "localCommitChain ?lc \<noteq> []" using i(3,4) by (simp_all add: chain_inv_def)
  have le: "theirMessageIndex (tip (chainOf ?lc False)) \<le> logIndex (remoteUpdateLog ?lc)"
    "ourMessageIndex (tip (chainOf ?lc False)) \<le> ourMessageIndex (tail (remoteCommitChain ?lc))"
    using i(5) ne tip_in [of "localCommitChain ?lc"] by (auto simp: indexes_inv_def sorted_append)
  have "unat (fee c) * 1000 < 2 ^ 63" using small sf by (simp add: lc' setChain_def)
  note e = extend_chain [OF i(1-4) le b(1,2) this w sf(14) sf(8,9,1-3), folded lc']
  have "localCommitChain (ch_lc ch') = localCommitChain ?lc @ [c']" "remoteCommitChain (ch_lc ch') = remoteCommitChain ?lc"
    by (simp_all add: lc' setChain_def rc)
  with i(5) ne e le have "indexes_inv (ch_lc ch')"
    by (auto simp: indexes_inv_def sorted_append tip_def tail_def)
  with e show ?thesis by (simp add: cap_inv_def)
qed


lemma advance_tip: "advanceTail s \<noteq> [] \<Longrightarrow> tip (advanceTail s) = tip s \<and> set (advanceTail s) \<subseteq> set s"
  by (cases s) (auto simp: advanceTail_def tip_def)

lemma advance_sorted:
  assumes "sorted (map f s @ [n])" "advanceTail s \<noteq> []"
  shows "sorted (map f (advanceTail s) @ [n])" "f (tail s) \<le> f (tail (advanceTail s))"
  using assms by (cases s; auto simp: advanceTail_def tail_def)+

text \<open>A chain whose tail is dropped, with logs of the same progress.\<close>

lemma advance_chain:
  assumes "chain_inv cap lc rc" "chainOf lc' rc = chainOf lc rc \<or> chainOf lc' rc = advanceTail (chainOf lc rc) \<and> chainOf lc' rc \<noteq> []"
    and "carried rc lc' = carried rc lc" "\<And>ti oi. progress_inv rc lc ti oi \<Longrightarrow> progress_inv rc lc' ti oi"
  shows "chain_inv cap lc' rc"
proof -
  have "chainOf lc' rc \<noteq> []" "tip (chainOf lc' rc) = tip (chainOf lc rc)" "set (chainOf lc' rc) \<subseteq> set (chainOf lc rc)"
    using assms(1,2) advance_tip [of "chainOf lc rc"] by (auto simp: chain_inv_def)
  then show ?thesis using assms(1,3,4) unfolding chain_inv_def by (auto dest: subsetD)
qed

lemma revoke_cap:
  assumes inv: "cap_inv cap ch" and op: "RevokeCurrentCommitment env ch = (ch', Inr (msg, htlcs))"
  shows "cap_inv cap ch'"
proof -
  let ?lc = "ch_lc ch" and ?lc' = "ch_lc ch'"
  note b = RevokeCurrentCommitment_Inr [OF op]
  have f: "localUpdateLog ?lc' = localUpdateLog ?lc" "remoteUpdateLog ?lc' = remoteUpdateLog ?lc"
    "localCommitChain ?lc' = advanceTail (localCommitChain ?lc)" "remoteCommitChain ?lc' = remoteCommitChain ?lc"
    "cs_AssetID (channelState ?lc') = cs_AssetID (channelState ?lc)" "advanceTail (localCommitChain ?lc) \<noteq> []"
    using b(2) by (simp_all add: b(4))
  note lo = logs_only [OF f(1,2)]
  have "chain_inv cap ?lc' True" "chain_inv cap ?lc' False"
    by (rule advance_chain [where lc = ?lc]; use inv f lo in \<open>simp add: cap_inv_def\<close>)+
  moreover have s: "sorted (map theirMessageIndex (localCommitChain ?lc) @ [logIndex (remoteUpdateLog ?lc)])" "indexes_inv ?lc"
    using inv by (simp_all add: cap_inv_def indexes_inv_def)
  note a = advance_sorted [OF s(1) f(6)]
  have "indexes_inv ?lc'"
    using a s(2) advance_tip [OF f(6)] unfolding indexes_inv_def f by (metis order_trans)
  ultimately show ?thesis using inv f by (simp add: cap_inv_def)
qed

lemma forwardLoop_rel:
  "forwardLoop rt lt source chanID i j xs = (es, r) \<Longrightarrow>
     list_all2 (\<lambda>x y. fst x = fst y \<and> sameProgress (snd x) (snd y)) xs es"
proof (induction xs arbitrary: i j es r)
  case (Cons x xs)
  obtain e pd where x: "x = (e, pd)" by (cases x)
  have fwd: "sameProgress pd (pd\<lparr>SourceRef := a, isForwarded := True\<rparr>)" "sameProgress pd (pd\<lparr>DestRef := b, isForwarded := True\<rparr>)" for a b
    by (simp_all add: sameProgress_def sameUpdate_def stripProgress_def addHeight_def removeHeight_def)
  from Cons.prems show ?case unfolding x
    by (auto simp: Let_def fwd split: if_splits prod.splits dest!: Cons.IH)
qed simp

lemma forward_logs:
  assumes "forwardLoop rt lt source chanID i j (entries (remoteUpdateLog lc)) = (es, r)"
  shows "logsRel sameProgress lc (lc\<lparr>remoteUpdateLog := (remoteUpdateLog lc)\<lparr>entries := es\<rparr>\<rparr>)"
  using forwardLoop_rel [OF assms] by (simp add: logsRel_def logRel_def sameConfig_def list_all2_refl out_progress.R_refl)

lemma revocation_cap:
  assumes inv: "cap_inv cap ch" and disk: "disk_inv ch" and op: "ReceiveRevocation env ch msg = (ch', Inr rs)"
  shows "cap_inv cap ch'"
proof -
  let ?lc = "ch_lc ch" and ?lc' = "ch_lc ch'"
  obtain pkg adds sfs htlcs where rs: "rs = (pkg, adds, sfs, htlcs)" by (cases rs)
  obtain store d es a l f ours theirs where b: "db_commitDiff (ch_db ch) = Some d"
    "\<exists>r. forwardLoop (height (tail (remoteCommitChain ?lc)) + 1) (height (tail (localCommitChain ?lc))) (ShortChanID (channelState ?lc))
       (chanIDOf ch) 0 0 (entries (remoteUpdateLog ?lc)) = (es, r)"
    "compactLogs (localUpdateLog ?lc) ((remoteUpdateLog ?lc)\<lparr>entries := es\<rparr>)
       (height (tail (localCommitChain ?lc))) (height (tail (remoteCommitChain ?lc)) + 1) = Some (ours, theirs)"
    "ch_lc ch' = ?lc\<lparr>channelState := (channelState ?lc)\<lparr>RemoteCommitment := cd_Commitment d\<rparr>,
         remoteCommitChain := advanceTail (remoteCommitChain ?lc), localUpdateLog := ours, remoteUpdateLog := theirs\<rparr>"
    using op [unfolded rs] by (rule ReceiveRevocation_Inr) simp
  define lc1 where "lc1 = ?lc\<lparr>remoteUpdateLog := (remoteUpdateLog ?lc)\<lparr>entries := es\<rparr>\<rparr>"
  have rel: "logsRel sameProgress ?lc lc1" using b(2) forward_logs unfolding lc1_def by blast
  then have on: "logsRel (sameOn rc) ?lc lc1" for rc by (rule logsRel_mono) (rule sameProgress_on)
  have logs: "logs_inv (localUpdateLog ?lc) (remoteUpdateLog ?lc)" using inv by (simp add: cap_inv_def)
  have "sameLogs ?lc lc1" using logsRel_mono [OF rel, of sameUpdate] by (simp add: logsRel_same [symmetric] sameProgress_def)
  then have logs1: "logs_inv (localUpdateLog lc1) (remoteUpdateLog lc1)" using sameLogs_inv logs by blast
  have len: "length (remoteCommitChain ?lc) = 2"
    using disk b(1) by (auto simp: disk_inv_def diskRemote_def dest!: arg_cong [of _ _ length])
  have f: "localCommitChain ?lc' = localCommitChain ?lc" "remoteCommitChain ?lc' = advanceTail (remoteCommitChain ?lc)"
    "cs_AssetID (channelState ?lc') = cs_AssetID (channelState ?lc)" "advanceTail (remoteCommitChain ?lc) \<noteq> []"
    "localUpdateLog ?lc' = ours" "remoteUpdateLog ?lc' = theirs"
    using len by (auto simp: b(4) advanceTail_def length_Suc_conv numeral_2_eq_2)
  have c: "compactLogs (localUpdateLog lc1) (remoteUpdateLog lc1) (height (tail (localCommitChain ?lc))) (height (tail (remoteCommitChain ?lc)) + 1)
      = Some (localUpdateLog ?lc', remoteUpdateLog ?lc')" using b(3) by (simp add: lc1_def f)
  have chain: "chain_inv cap ?lc' rc" if "chain_inv cap ?lc rc" for rc
  proof (rule advance_chain [OF that])
    have p: "progress_inv rc lc1 ti oi" if "progress_inv rc ?lc ti oi" for ti oi by (rule progress_rel [OF on logs that])
    show "carried rc ?lc' = carried rc ?lc"
      using compact_carried(1) [OF logs1 p c] that carried_rel [OF on] by (auto simp: chain_inv_def)
    show "progress_inv rc ?lc' ti oi" if "progress_inv rc ?lc ti oi" for ti oi by (rule compact_carried(2) [OF logs1 p [OF that] c])
    show "chainOf ?lc' rc = chainOf ?lc rc \<or> chainOf ?lc' rc = advanceTail (chainOf ?lc rc) \<and> chainOf ?lc' rc \<noteq> []"
      using f by (cases rc) simp_all
  qed
  have k: "logs_inv (localUpdateLog ?lc') (remoteUpdateLog ?lc')" "logIndex (localUpdateLog ?lc') = logIndex (localUpdateLog ?lc)"
    "logIndex (remoteUpdateLog ?lc') = logIndex (remoteUpdateLog ?lc)"
    using compactLogs_ok [OF logs1, of "height (tail (localCommitChain ?lc))" "height (tail (remoteCommitChain ?lc)) + 1"] c
    by (auto simp: lc1_def)
  have s: "sorted (map ourMessageIndex (remoteCommitChain ?lc) @ [logIndex (localUpdateLog ?lc)])" "indexes_inv ?lc"
    using inv by (simp_all add: cap_inv_def indexes_inv_def)
  have "indexes_inv ?lc'"
    using advance_sorted [OF s(1) f(4)] s(2) advance_tip [OF f(4)] unfolding indexes_inv_def f(1,2) k(2,3) by (metis order_trans)
  then show ?thesis using inv chain k(1) f(3) by (simp add: cap_inv_def)
qed

section \<open>Reachable states\<close>

text \<open>
  The bounds that the machine numbers put on a channel: the counters of the logs do not reach the
  end of their range, and a fee is less than what the signed amounts can hold.
\<close>

definition bounded :: "'pk Chan \<Rightarrow> bool" where
  "bounded ch \<longleftrightarrow> room (ch_lc ch) \<and> (\<forall>rc. \<forall>c \<in> set (chainOf (ch_lc ch) rc). unat (fee c) * 1000 < 2 ^ 63)"

definition bounded_step :: "'pk Env \<Rightarrow> 'pk Chan \<Rightarrow> 'pk Chan \<Rightarrow> bool" where
  "bounded_step env ch ch' \<longleftrightarrow> live_step env ch ch' \<and> bounded ch \<and> bounded ch'"

lemma live_cap:
  assumes "live_step env ch ch'" "cap_inv cap ch" "disk_inv ch" "bounded ch" "bounded ch'"
  shows "cap_inv cap ch'"
proof -
  have logs: "logs_inv (localUpdateLog (ch_lc ch)) (remoteUpdateLog (ch_lc ch))" and r: "room (ch_lc ch)"
    using assms by (simp_all add: cap_inv_def bounded_def)
  note u = add_updated [OF logs r] removal_updated [OF logs r]
  have small: "\<forall>c \<in> set (remoteCommitChain (ch_lc ch')). unat (fee c) * 1000 < 2 ^ 63" "\<forall>c \<in> set (localCommitChain (ch_lc ch')). unat (fee c) * 1000 < 2 ^ 63"
    using assms(5) unfolding bounded_def by (metis chainOf_simps)+
  have upd: "cap_inv cap (ch\<lparr>ch_lc := lc\<rparr>)" if "updated (ch_lc ch) lc" for lc by (rule updated_cap [OF assms(2) that r])
  from assms(1) show ?thesis
  proof cases
    case (sign r)
    then show ?thesis using sign_cap [OF assms(2) _ small(1)] by blast
  next
    case (receive_sign sig sigs)
    then show ?thesis using receive_cap [OF assms(2) _ small(2)] by blast
  next
    case (receive_revoke msg rs)
    then show ?thesis using revocation_cap [OF assms(2,3)] by blast
  next
    case (revoke rr)
    then show ?thesis using revoke_cap [OF assms(2)] by (cases rr) blast
  next
    case (next_point p)
    then have "ch_lc ch' = ch_lc ch" by (auto simp: InsertNextRevocation_def Let_def split: if_splits)
    then show ?thesis using assms(2) by (simp add: cap_inv_def)
  qed (use u upd in simp_all)
qed

interpretation capacity: invariant_system "bounded_step env" "\<lambda>ch. cap_inv cap ch \<and> disk_inv ch"
  by unfold_locales (use live_cap live_disk_inv in \<open>auto simp: bounded_step_def\<close>)


definition freshChain :: "SatAmount \<Rightarrow> commitmentChain \<Rightarrow> u64 \<Rightarrow> u64 \<Rightarrow> bool" where
  "freshChain capacity s ti oi \<longleftrightarrow>
     (\<exists>c. s = [c] \<and> ourBtcBalance c + theirBtcBalance c + NewMSatFromSatoshis (fee c) = NewMSatFromSatoshis capacity
        \<and> outgoingHTLCs c = [] \<and> incomingHTLCs c = [] \<and> 0 \<le> sint (ourBtcBalance c) \<and> 0 \<le> sint (theirBtcBalance c)
        \<and> height c \<le> maxStateHint \<and> theirMessageIndex c = ti \<and> ourMessageIndex c = oi)"

text \<open>A channel of bitcoin as it is opened: one commitment on each chain, no HTLCs and no updates.\<close>

definition freshChannel :: "LightningChannel \<Rightarrow> bool" where
  "freshChannel lc \<longleftrightarrow> cs_AssetID (channelState lc) = BtcAssetId
     \<and> (\<exists>i m j n. localUpdateLog lc = newUpdateLog i m \<and> remoteUpdateLog lc = newUpdateLog j n
          \<and> freshChain (BtcCapacity lc) (localCommitChain lc) j i \<and> freshChain (BtcCapacity lc) (remoteCommitChain lc) j i)"

lemma fresh_cap:
  assumes "freshChannel (ch_lc ch)"
  shows "cap_inv (NewMSatFromSatoshis (BtcCapacity (ch_lc ch))) ch"
proof -
  obtain i m j n where f: "localUpdateLog (ch_lc ch) = newUpdateLog i m" "remoteUpdateLog (ch_lc ch) = newUpdateLog j n"
    "freshChain (BtcCapacity (ch_lc ch)) (localCommitChain (ch_lc ch)) j i" "freshChain (BtcCapacity (ch_lc ch)) (remoteCommitChain (ch_lc ch)) j i"
    "cs_AssetID (channelState (ch_lc ch)) = BtcAssetId"
    using assms by (auto simp: freshChannel_def)
  have e: "entries (localUpdateLog (ch_lc ch)) = []" "entries (remoteUpdateLog (ch_lc ch)) = []"
    "logIndex (localUpdateLog (ch_lc ch)) = i" "logIndex (remoteUpdateLog (ch_lc ch)) = j"
    by (simp_all add: f newUpdateLog_def)
  have c: "chain_inv (NewMSatFromSatoshis (BtcCapacity (ch_lc ch))) (ch_lc ch) rc" for rc
    using f(3,4) by (cases rc) (auto simp: freshChain_def chain_inv_def worth_def commitHtlcValue_def carried_def inFlight_def e
        progress_inv_def ownLog_def tip_def view_simps)
  show ?thesis using f c logs_inv_new by (auto simp: cap_inv_def indexes_inv_def e freshChain_def tip_def tail_def)
qed

lemma worth_chain: "cap_inv cap ch \<Longrightarrow> c \<in> set (localCommitChain (ch_lc ch)) \<union> set (remoteCommitChain (ch_lc ch))
    \<Longrightarrow> worth c = cap \<and> 0 \<le> sint (ourBtcBalance c) \<and> 0 \<le> sint (theirBtcBalance c)"
  by (auto simp: cap_inv_def chain_inv_def)

text \<open>
  C1. A channel never creates or destroys money. Starting from a freshly opened bitcoin channel, in
  every state that is reached by offering, settling and failing HTLCs in both directions, fee
  updates, signatures and revocations of both parties in any order, every commitment of both chains
  is worth exactly the capacity of the channel to the millisatoshi: the two balances, the fee and
  the HTLCs add up to it, and neither balance is negative. The counters of the logs and the fees
  are assumed to stay within the range of their machine numbers.
\<close>

theorem capacity_conserved:
  assumes "(bounded_step env)\<^sup>*\<^sup>* ch0 ch" and "freshChannel (ch_lc ch0)" "disk_inv ch0"
    and "c \<in> set (localCommitChain (ch_lc ch)) \<union> set (remoteCommitChain (ch_lc ch))"
  shows "ourBtcBalance c + theirBtcBalance c + NewMSatFromSatoshis (fee c) + commitHtlcValue False c
       = NewMSatFromSatoshis (BtcCapacity (ch_lc ch0)) \<and> 0 \<le> sint (ourBtcBalance c) \<and> 0 \<le> sint (theirBtcBalance c)"
  using capacity.reachable_inv [OF assms(1) conjI [OF fresh_cap [OF assms(2)] assms(3)]] worth_chain [OF _ assms(4)]
  unfolding worth_def by blast

definition offeredChan :: "unit Chan" where
  "offeredChan = sampleChan\<lparr>ch_lc := (ch_lc sampleChan)\<lparr>localUpdateLog :=
     appendHtlc (localUpdateLog (ch_lc sampleChan)) (htlcAddDescriptor (ch_lc sampleChan) (sampleHTLC 0 0 1000000 []) None)\<rparr>\<rparr>"

fun carriesOne :: "unit Chan \<times> (unit dance_error + Sig \<times> Sig list \<times> HTLC list) \<Rightarrow> bool" where
  "carriesOne (ch, Inl e) = False"
| "carriesOne (ch, Inr r) = (let c = tip (remoteCommitChain (ch_lc ch)) in fee c < 1000000 \<and> commitHtlcValue False c = 1000000)"

lemma offered_signed: "carriesOne (signStage sampleEnv offeredChan (tweakedKeys a t)
    (buildStage sampleLib sampleBuilder (ch_lc offeredChan) True 1 1 0 0 (tweakedKeys a t) (computeView (ch_lc offeredChan) (fetchHTLCView (ch_lc offeredChan) 0 1) True True)))"
  by code_simp

lemma offeredChan_sane: "validateCommitmentSanity (ch_lc offeredChan) 0 1 True None None = Inr ()"
  by code_simp

lemma offered_sign: "carriesOne (SignNextCommitment sampleEnv offeredChan)"
proof -
  obtain a t where k: "DeriveCommitmentKeys unitCurve () False (ChanType (channelState (ch_lc offeredChan))) sampleKeyPoints sampleKeyPoints = tweakedKeys a t"
    using sample_ring by blast
  have f: "RemoteNextRevocation offeredChan = Some ()" "env_cv sampleEnv = unitCurve" "env_lib sampleEnv = sampleLib"
    "ch_localKeys offeredChan = sampleKeyPoints" "ch_remoteKeys offeredChan = sampleKeyPoints" "ch_builder offeredChan = sampleBuilder"
    "\<not> hasUnackedCommitment (remoteCommitChain (ch_lc offeredChan))" "logIndex (localUpdateLog (ch_lc offeredChan)) = 1"
    "htlcCounter (localUpdateLog (ch_lc offeredChan)) = 1" "theirMessageIndex (tail (localCommitChain (ch_lc offeredChan))) = 0"
    "theirHtlcIndex (tail (localCommitChain (ch_lc offeredChan))) = 0"
    by (simp_all add: offeredChan_def sampleChan_def sampleEnv_def sample_defs hasUnackedCommitment_def newUpdateLog_def append_simps)
  have "SignNextCommitment sampleEnv offeredChan = signStage sampleEnv offeredChan (tweakedKeys a t)
    (fetchCommitmentView sampleLib sampleBuilder (ch_lc offeredChan) True 1 1 0 0 (tweakedKeys a t))"
    using offeredChan_sane unfolding SignNextCommitment_def by (simp add: Let_def f k split: prod.splits sum.splits)
  then show ?thesis using offered_signed by (simp only: fetchCommitmentView_staged)
qed

lemma sample_fresh: "freshChannel (ch_lc sampleChan)"
  by (auto simp: freshChannel_def freshChain_def sampleChan_def sample_defs BtcAssetId_def maxStateHint_def NewMSatFromSatoshis_def mSatScale_def
      intro!: exI [of _ 0])

lemma offered_step: "live_step sampleEnv sampleChan offeredChan"
proof -
  have "validateAddHtlc (ch_lc sampleChan) (htlcAddDescriptor (ch_lc sampleChan) (sampleHTLC 0 0 1000000 []) None) = Inr ()" by code_simp
  then have "AddHTLC (ch_lc sampleChan) (sampleHTLC 0 0 1000000 []) None = Inr (ch_lc offeredChan, 0)"
    by (simp add: AddHTLC_def Let_def offeredChan_def new_fields) (simp add: sampleChan_def sample_defs newUpdateLog_def)
  from live_step.add [OF this] show ?thesis by (simp add: offeredChan_def)
qed

lemma room_iff: "room lc \<longleftrightarrow> logIndex (localUpdateLog lc) + 1 \<noteq> 0 \<and> htlcCounter (localUpdateLog lc) + 1 \<noteq> 0
    \<and> logIndex (remoteUpdateLog lc) + 1 \<noteq> 0 \<and> htlcCounter (remoteUpdateLog lc) + 1 \<noteq> 0"
  by (auto simp: room_def all_bool_eq ownLog_def)

lemma bounded_iff: "bounded ch \<longleftrightarrow> room (ch_lc ch) \<and> (\<forall>c \<in> set (remoteCommitChain (ch_lc ch)). unat (fee c) * 1000 < 2 ^ 63)
    \<and> (\<forall>c \<in> set (localCommitChain (ch_lc ch)). unat (fee c) * 1000 < 2 ^ 63)"
  by (simp add: bounded_def all_bool_eq)

lemma sample_bounded: "bounded sampleChan" "bounded offeredChan"
  by (simp_all add: bounded_iff room_iff offeredChan_def sampleChan_def sample_defs newUpdateLog_def append_simps)

lemma offeredChan_inv: "logs_inv (localUpdateLog (ch_lc offeredChan)) (remoteUpdateLog (ch_lc offeredChan))"
proof -
  have "logs_inv (localUpdateLog (ch_lc sampleChan)) (remoteUpdateLog (ch_lc sampleChan))"
    by (simp add: sampleChan_def sample_defs logs_inv_new)
  from logs_inv_add [OF this new_fields(1-3)] sample_bounded(1) show ?thesis by (simp add: bounded_iff room_iff offeredChan_def)
qed

lemma sign_shape:
  assumes op: "SignNextCommitment env ch = (ch', Inr r)" and inv: "logs_inv (localUpdateLog (ch_lc ch)) (remoteUpdateLog (ch_lc ch))"
  shows "localCommitChain (ch_lc ch') = localCommitChain (ch_lc ch)"
    "remoteCommitChain (ch_lc ch') = remoteCommitChain (ch_lc ch) @ [tip (remoteCommitChain (ch_lc ch'))]"
    "room (ch_lc ch) \<Longrightarrow> room (ch_lc ch')"
proof -
  obtain sig hs htlcs where r: "r = (sig, hs, htlcs)" by (cases r)
  obtain p k lc1 c oi oh ti th where b: "fetchCommitmentView (env_lib env) (ch_builder ch) (ch_lc ch) True oi oh ti th k = (lc1, Inr c)"
    "extendRemoteChain env (ch\<lparr>ch_lc := lc1\<rparr>) k c = (ch', Inr (sig, hs, htlcs))"
    using SignNextCommitment_built [OF op [unfolded r]] by metis
  have lc': "ch_lc ch' = lc1\<lparr>remoteCommitChain := remoteCommitChain lc1 @ [c]\<rparr>"
    using b(2) by (rule extendRemoteChain_Inr) simp
  have s: "sameLogs (ch_lc ch) lc1" by (rule fetchCommitmentView_sameLogs [OF inv b(1)])
  then have rel: "logRel sameUpdate (localUpdateLog (ch_lc ch)) (localUpdateLog lc1)" "logRel sameUpdate (remoteUpdateLog (ch_lc ch)) (remoteUpdateLog lc1)"
    and cfg: "sameConfig (ch_lc ch) lc1" by (simp_all add: sameLogs_def)
  show "localCommitChain (ch_lc ch') = localCommitChain (ch_lc ch)"
    "remoteCommitChain (ch_lc ch') = remoteCommitChain (ch_lc ch) @ [tip (remoteCommitChain (ch_lc ch'))]"
    using sameConfigD(1,2) [OF cfg] by (simp_all add: lc' tip_def)
  show "room (ch_lc ch')" if "room (ch_lc ch)"
    using that logRel_fields(1,2) [OF rel(1)] logRel_fields(1,2) [OF rel(2)] by (simp add: room_iff lc')
qed

theorem capacity_conserved_witness:
  "\<exists>ch c. (bounded_step sampleEnv)\<^sup>*\<^sup>* sampleChan ch \<and> c \<in> set (remoteCommitChain (ch_lc ch)) \<and> commitHtlcValue False c = 1000000
     \<and> ourBtcBalance c + theirBtcBalance c + NewMSatFromSatoshis (fee c) + 1000000 = NewMSatFromSatoshis 1000000"
proof -
  obtain ch r where s: "SignNextCommitment sampleEnv offeredChan = (ch, Inr r)" "carriesOne (ch, Inr r)"
    using offered_sign by (metis carriesOne.elims(2))
  let ?c = "tip (remoteCommitChain (ch_lc ch))"
  have c: "fee ?c < 1000000" "commitHtlcValue False ?c = 1000000" using s(2) by (simp_all add: Let_def)
  note shape = sign_shape [OF s(1) offeredChan_inv]
  have b: "bounded ch"
  proof -
    have "unat (fee ?c) < 1000000" using c(1) by (simp add: word_less_nat_alt)
    moreover have "\<forall>x \<in> set (remoteCommitChain (ch_lc ch)). x = ?c \<or> x \<in> set (remoteCommitChain (ch_lc offeredChan))"
      using shape(2) by (metis Un_iff set_append set_ConsD empty_iff empty_set)
    ultimately show ?thesis using sample_bounded(2) shape(1,3) unfolding bounded_iff by fastforce
  qed
  have steps: "(bounded_step sampleEnv)\<^sup>*\<^sup>* sampleChan ch"
  proof -
    have "bounded_step sampleEnv sampleChan offeredChan" "bounded_step sampleEnv offeredChan ch"
      using offered_step live_step.sign [OF s(1)] sample_bounded b by (simp_all add: bounded_step_def)
    then show ?thesis by (rule converse_rtranclp_into_rtranclp [OF _ r_into_rtranclp])
  qed
  have mem: "?c \<in> set (remoteCommitChain (ch_lc ch))" using shape(2) by (metis in_set_conv_decomp)
  moreover have "BtcCapacity (ch_lc sampleChan) = 1000000" by (simp add: sampleChan_def sample_defs)
  ultimately show ?thesis using capacity_conserved [OF steps sample_fresh sample_disk_inv, of ?c] c(2) steps by auto
qed

end
