(* ===== verification/Coop_Close.thy ===== *)
theory Coop_Close
  imports Commit_Dance
begin


text \<open>
  The closing transactions of a cooperative close (\<open>src/oblnd/lnwallet/channel.go\<close>:
  \<open>CreateCooperativeCloseTx\<close>, \<open>CreateCloseProposal\<close>, \<open>CompleteCooperativeClose\<close> and their variants for
  asset channels, \<open>src/oblnd/input/script_utils.go\<close>: \<open>SpendMultiSigWithoutW\<close>). A closing transaction
  of a bitcoin channel has one output per party. An asset channel may instead be closed with simple
  sends, which move the asset of one party each: the first transaction pays one party and returns the
  rest to the funding script, the second spends that rest.
\<close>

section \<open>The model\<close>

subsection \<open>Signed transactions\<close>

text \<open>
  A closing transaction has one input. Once it is signed, it carries the signature script of that
  input; the empty script is the one of an unsigned transaction.
\<close>

type_synonym SignedTx = "MsgTx \<times> bytes"

datatype ScriptPush = AddOp u8 | AddData bytes

text \<open>
  What the code calls of \<open>btcutil/txsort\<close>, \<open>wire\<close> and \<open>txscript\<close>: the canonical order of inputs and
  outputs, the hash of a transaction, the script that a builder returns for a sequence of pushes, and
  whether the script engine accepts the first input of a transaction that spends the output, with the
  amount it is given. The script builder's error is overwritten by its callers before it is looked at.
\<close>

record CloseLib =
  cl_InPlaceSort :: "MsgTx \<Rightarrow> MsgTx"
  cl_TxHash :: "SignedTx \<Rightarrow> bytes"
  cl_BuildScript :: "ScriptPush list \<Rightarrow> bytes"
  cl_Execute :: "TxOut \<Rightarrow> SignedTx \<Rightarrow> i64 \<Rightarrow> bool"

definition OP_FALSE :: u8 where
  "OP_FALSE = 0"

definition SigHashAll :: u8 where
  "SigHashAll = 1"

definition SpendMultiSigWithoutW :: "CloseLib \<Rightarrow> bytes \<Rightarrow> bytes \<Rightarrow> bytes \<Rightarrow> bytes \<Rightarrow> bytes \<Rightarrow> bytes" where
  "SpendMultiSigWithoutW cl witnessScript pubA sigA pubB sigB =
     cl_BuildScript cl
       (if bytesLess pubB pubA
        then [AddOp OP_FALSE, AddData (sigB @ [SigHashAll]), AddData (sigA @ [SigHashAll]), AddData witnessScript]
        else [AddOp OP_FALSE, AddData (sigA @ [SigHashAll]), AddData (sigB @ [SigHashAll]), AddData witnessScript])"

subsection \<open>The channel that is closed\<close>

datatype channelStatus = channelPending | channelOpen | channelClosing | channelClosed | channelDispute | channelPendingPayment

text \<open>
  The state of the channel with the status that guards the closing operations, whether it waits for
  its funding transaction, and the closing transaction under \<open>coopCloseTxKey\<close> of its bucket.
\<close>

record 'pk ClosingChannel =
  lc_chan :: "'pk Chan"
  lc_status :: channelStatus
  IsPending :: bool
  db_coopCloseTx :: "SignedTx option"

definition ResetState :: "'pk ClosingChannel \<Rightarrow> 'pk ClosingChannel" where
  "ResetState ch = ch\<lparr>lc_status := channelOpen\<rparr>"

text \<open>
  \<open>IndexOutOfRange\<close> is the run-time panic of an access past the end of a slice.
\<close>

datatype close_error =
    ErrChanClosing
  | CannotAffordFee
  | CloseTxInsane
  | CloseSigning
  | ScriptRejected
  | IndexOutOfRange
  | MalformedSig
  | ErrChanAlreadyClosing
  | ErrChanCloseNotFinished
  | ErrUpfrontShutdownScriptMismatch
  | UnexpectedMessage
  | FrozenChannel u32 u32
  | RelativeThawUnconfirmed
  | DisconnectFailed
  | PersistFailed
  | BroadcastFailed

definition of_opt :: "close_error \<Rightarrow> 'a option \<Rightarrow> close_error + 'a" where
  "of_opt e r = (case r of None \<Rightarrow> Inl e | Some x \<Rightarrow> Inr x)"

definition checkThat :: "bool \<Rightarrow> close_error \<Rightarrow> close_error + unit" where
  "checkThat b e = (if b then Inr () else Inl e)"

definition nth_opt :: "'a list \<Rightarrow> nat \<Rightarrow> close_error + 'a" where
  "nth_opt xs i = (if i < length xs then Inr (xs ! i) else Inl IndexOutOfRange)"

definition stateOf :: "'pk ClosingChannel \<Rightarrow> OpenChannel" where
  "stateOf ch = channelState (ch_lc (lc_chan ch))"

definition fundingIn :: "'pk ClosingChannel \<Rightarrow> TxIn" where
  "fundingIn ch = fundingTxIn (cb_FundingOutpoint (ch_builder (lc_chan ch)))"

definition CalcFee :: "'pk ClosingChannel \<Rightarrow> SatPerKWeight \<Rightarrow> SatAmount" where
  "CalcFee ch feeRate = FeeForWeight feeRate (CommitWeight (ChanType (stateOf ch)))"

definition AbsoluteThawHeightThreshold :: u32 where
  "AbsoluteThawHeightThreshold = 500000"

definition AbsoluteThawHeight :: "'pk ClosingChannel \<Rightarrow> close_error + u32" where
  "AbsoluteThawHeight ch =
     (let c = stateOf ch
      in if \<not> IsFrozen (ChanType c) \<and> \<not> HasLeaseExpiration (ChanType c) then Inr 0
         else if IsFrozen (ChanType c) \<and> ThawHeight c < AbsoluteThawHeightThreshold then
           (if IsPending ch then Inl RelativeThawUnconfirmed
            else Inr (BlockHeight (ShortChanID c) + ThawHeight c))
         else Inr (ThawHeight c))"

subsection \<open>One transaction for both parties\<close>

definition CreateCooperativeCloseTx ::
    "CloseLib \<Rightarrow> PksAmounts \<Rightarrow> TxIn \<Rightarrow> SatAmount \<Rightarrow> SatAmount \<Rightarrow> SatAmount \<Rightarrow> SatAmount \<Rightarrow> AssetAmount \<Rightarrow> AssetAmount
       \<Rightarrow> bytes \<Rightarrow> bytes \<Rightarrow> MsgTx \<times> PksAmounts" where
  "CreateCooperativeCloseTx cl amts fundIn localDust remoteDust ourSat theirSat ourTokens
      theirTokens ourScript theirScript =
     (let closeTx = \<lparr>Version = 2, tx_TxIn = [fundIn], tx_TxOut = [], LockTime = 0\<rparr>;
          (closeTx1, amts1) =
            addOutput (\<not> i64_less ourSat localDust) ourScript ourSat ourTokens (closeTx, amts);
          (closeTx2, amts2) =
            addOutput (\<not> i64_less theirSat remoteDust) theirScript theirSat theirTokens (closeTx1, amts1)
      in (cl_InPlaceSort cl closeTx2, amts2))"

text \<open>The error of \<open>op.AddOpReturnToTx\<close> is dropped; the transaction then stays as it is.\<close>

definition withOpReturn :: "MsgTx \<times> PksAmounts \<Rightarrow> MsgTx" where
  "withOpReturn p = (case AddOpReturnToTx (fst p) (snd p) of Inl _ \<Rightarrow> fst p | Inr tx \<Rightarrow> tx)"

text \<open>The part that proposing and completing a close share: the balances, the transaction, the sanity check.\<close>

definition coopCloseTx ::
    "'pk Env \<Rightarrow> CloseLib \<Rightarrow> 'pk ClosingChannel \<Rightarrow> SatAmount \<Rightarrow> bytes \<Rightarrow> bytes \<Rightarrow> close_error + MsgTx \<times> SatAmount" where
  "coopCloseTx env cl ch proposedFee localScript remoteScript =
     (let cs = stateOf ch
      in sbind (of_opt CannotAffordFee (CoopCloseBalance (IsInitiator cs) proposedFee (LocalCommitment cs)))
           (\<lambda>(ourSat, theirSat, ourTokens, theirTokens).
         (let closeTx = withOpReturn (CreateCooperativeCloseTx cl (NewPksAmounts (cs_AssetID cs)) (fundingIn ch)
                (DustLimit (LocalChanCfg cs)) (DustLimit (RemoteChanCfg cs)) ourSat theirSat
                ourTokens theirTokens localScript remoteScript)
          in sbind (checkThat (lib_CheckTransactionSanity (env_lib env) closeTx) CloseTxInsane) (\<lambda>_.
               Inr (closeTx, ourSat)))))"

definition CreateCloseProposal ::
    "'pk Env \<Rightarrow> CloseLib \<Rightarrow> 'pk ClosingChannel \<Rightarrow> SatAmount \<Rightarrow> bytes \<Rightarrow> bytes
       \<Rightarrow> close_error + 'pk ClosingChannel \<times> bytes \<times> bytes \<times> SatAmount" where
  "CreateCloseProposal env cl ch proposedFee localScript remoteScript =
     (if lc_status ch = channelClosed then Inl ErrChanClosing
      else sbind (coopCloseTx env cl ch proposedFee localScript remoteScript) (\<lambda>(closeTx, ourSat).
           sbind (of_opt CloseSigning (sl_SignOutputRaw (env_sl env) (ch_signDesc (lc_chan ch)) closeTx)) (\<lambda>sig.
             Inr (ch\<lparr>lc_status := channelClosing\<rparr>, sig, cl_TxHash cl (closeTx, []), ourSat))))"

definition multiSigScript :: "'pk Env \<Rightarrow> CloseLib \<Rightarrow> 'pk ClosingChannel \<Rightarrow> bytes \<Rightarrow> bytes \<Rightarrow> bytes" where
  "multiSigScript env cl ch localSig remoteSig =
     SpendMultiSigWithoutW cl (sd_WitnessScript (ch_signDesc (lc_chan ch)))
       (cv_SerializeCompressed (env_cv env) (MultiSigKey (ch_localKeys (lc_chan ch)))) localSig
       (cv_SerializeCompressed (env_cv env) (MultiSigKey (ch_remoteKeys (lc_chan ch)))) remoteSig"

definition CompleteCooperativeClose ::
    "'pk Env \<Rightarrow> CloseLib \<Rightarrow> 'pk ClosingChannel \<Rightarrow> bytes \<Rightarrow> bytes \<Rightarrow> bytes \<Rightarrow> bytes \<Rightarrow> SatAmount
       \<Rightarrow> close_error + 'pk ClosingChannel \<times> SignedTx \<times> SatAmount" where
  "CompleteCooperativeClose env cl ch localSig remoteSig localScript remoteScript proposedFee =
     (if lc_status ch = channelClosed then Inl ErrChanClosing
      else sbind (coopCloseTx env cl ch proposedFee localScript remoteScript) (\<lambda>(closeTx, ourSat).
        (let signed = (closeTx, multiSigScript env cl ch localSig remoteSig);
             prevOut = sd_Output (ch_signDesc (lc_chan ch))
         in sbind (checkThat (cl_Execute cl prevOut signed (out_Value prevOut)) ScriptRejected) (\<lambda>_.
              Inr (ch\<lparr>lc_status := channelClosed\<rparr>, signed, ourSat)))))"

subsection \<open>Simple sends for asset channels\<close>

text \<open>Which party the first transaction pays: script, balance and asset balance of both transactions.\<close>

definition orderParties ::
    "SatAmount \<Rightarrow> SatAmount \<Rightarrow> SatAmount \<Rightarrow> AssetAmount \<Rightarrow> AssetAmount \<Rightarrow> bytes \<Rightarrow> bytes
       \<Rightarrow> (bytes \<times> SatAmount \<times> AssetAmount) \<times> (bytes \<times> SatAmount \<times> AssetAmount)" where
  "orderParties closeFee ourSat theirSat ourTokens theirTokens ourScript theirScript =
     (let (tx1Pk, tx1Balance, tx1Asset, tx2Balance, tx2Asset) =
            (if ourTokens = 0 then (theirScript, theirSat, theirTokens, 0, 0)
             else (ourScript, ourSat, ourTokens, theirSat, theirTokens));
          tx1Balance' = (if tx2Asset = 0 then tx1Balance + closeFee else tx1Balance)
      in if i64_less 0 tx1Asset \<and> i64_less 0 tx2Asset \<and> bytesLess theirScript ourScript
         then ((theirScript, theirSat, theirTokens), (ourScript, ourSat, ourTokens))
         else ((tx1Pk, tx1Balance', tx1Asset), (theirScript, tx2Balance, tx2Asset)))"

text \<open>The error of \<open>OpreturnSimple.AddOpReturnToTx\<close> is dropped.\<close>

definition withSimpleSend :: "u32 \<Rightarrow> AssetAmount \<Rightarrow> MsgTx \<Rightarrow> MsgTx" where
  "withSimpleSend assetId tokens tx =
     (case OpreturnSimple_AddOpReturnToTx \<lparr>os_Ver = 0, os_TranType = 0, os_PropertyId = assetId, os_Amount = tokens\<rparr> tx of
        Inl _ \<Rightarrow> tx | Inr tx' \<Rightarrow> tx')"

definition OB_AssetCreateCooperativeCloseTx ::
    "CloseLib \<Rightarrow> u32 \<Rightarrow> SatAmount \<Rightarrow> SatAmount \<Rightarrow> bytes \<Rightarrow> TxIn \<Rightarrow> SatAmount \<Rightarrow> SatAmount \<Rightarrow> AssetAmount \<Rightarrow> AssetAmount
       \<Rightarrow> bytes \<Rightarrow> bytes \<Rightarrow> MsgTx \<times> MsgTx" where
  "OB_AssetCreateCooperativeCloseTx cl assetId cap closeFee fundingPkScript fundIn ourSat theirSat
      ourTokens theirTokens ourScript theirScript =
     (let ((tx1Pk, tx1Balance, tx1Asset), (tx2Pk, tx2Balance, tx2Asset)) =
            orderParties closeFee ourSat theirSat ourTokens theirTokens ourScript theirScript;
          changeBalance = cap - tx1Balance - closeFee;
          base1 = \<lparr>Version = 2, tx_TxIn = [fundIn], tx_TxOut = [], LockTime = 0\<rparr>;
          paid1 = (if i64_less tx1Asset 0 then base1
                   else AddTxOut (withSimpleSend assetId tx1Asset base1) \<lparr>out_Value = tx1Balance, PkScript = tx1Pk\<rparr>);
          closeTx1 = (if \<not> i64_less tx1Asset 0 \<and> i64_less 0 changeBalance
                      then AddTxOut paid1 \<lparr>out_Value = changeBalance, PkScript = fundingPkScript\<rparr> else paid1);
          base2 = \<lparr>Version = 2, tx_TxIn = [], tx_TxOut = [], LockTime = 0\<rparr>;
          closeTx2 = (if i64_less 0 tx2Asset
                      then AddTxOut
                        (withSimpleSend assetId tx2Asset
                          (base2\<lparr>tx_TxIn := [fundingTxIn \<lparr>op_Hash = cl_TxHash cl (closeTx1, []), op_Index = 2\<rparr>]\<rparr>))
                        \<lparr>out_Value = tx2Balance, PkScript = tx2Pk\<rparr>
                      else base2)
      in (closeTx1, closeTx2))"

text \<open>The balances and both transactions, as proposing and completing share them.\<close>

definition assetCloseTxs ::
    "CloseLib \<Rightarrow> 'pk ClosingChannel \<Rightarrow> SatAmount \<Rightarrow> bytes \<Rightarrow> bytes \<Rightarrow> close_error + MsgTx \<times> MsgTx \<times> SatAmount" where
  "assetCloseTxs cl ch proposedFee localScript remoteScript =
     (let cs = stateOf ch; localCommit = LocalCommitment cs;
          cap = CommitFee localCommit + ToSatoshis (LocalBtcBalance localCommit) + ToSatoshis (RemoteBtcBalance localCommit)
      in sbind (of_opt CannotAffordFee (CoopCloseBalance (IsInitiator cs) (proposedFee * 2) localCommit))
           (\<lambda>(ourSat, theirSat, ourTokens, theirTokens).
         (let (closeTx1, closeTx2) =
                OB_AssetCreateCooperativeCloseTx cl (cs_AssetID cs) cap proposedFee
                  (PkScript (sd_Output (ch_signDesc (lc_chan ch)))) (fundingIn ch) ourSat theirSat
                  ourTokens theirTokens localScript remoteScript
          in Inr (closeTx1, closeTx2, ourSat))))"

text \<open>The second transaction spends the change of the first one as it is signed.\<close>

definition spendChange :: "CloseLib \<Rightarrow> SignedTx \<Rightarrow> MsgTx \<Rightarrow> MsgTx" where
  "spendChange cl signed1 closeTx2 =
     closeTx2\<lparr>tx_TxIn := map (\<lambda>i. i\<lparr>PreviousOutPoint := (PreviousOutPoint i)\<lparr>op_Hash := cl_TxHash cl signed1\<rparr>\<rparr>) (tx_TxIn closeTx2)\<rparr>"

definition secondSignature ::
    "'pk Env \<Rightarrow> CloseLib \<Rightarrow> 'pk ClosingChannel \<Rightarrow> MsgTx \<Rightarrow> MsgTx \<Rightarrow> bytes \<Rightarrow> bytes \<Rightarrow> close_error + bytes" where
  "secondSignature env cl ch closeTx1 closeTx2 sig1 remoteSig =
     (let signed1 = (closeTx1, multiSigScript env cl ch sig1 remoteSig);
          fundingOut = sd_Output (ch_signDesc (lc_chan ch))
      in sbind (checkThat (cl_Execute cl fundingOut signed1 (out_Value fundingOut)) ScriptRejected) (\<lambda>_.
           of_opt CloseSigning (sl_SignOutputRaw (env_sl env) (ch_signDesc (lc_chan ch)) (spendChange cl signed1 closeTx2))))"

definition Ob_AssetCreateCloseProposal ::
    "'pk Env \<Rightarrow> CloseLib \<Rightarrow> 'pk ClosingChannel \<Rightarrow> SatAmount \<Rightarrow> bytes \<Rightarrow> bytes \<Rightarrow> bytes list
       \<Rightarrow> close_error + 'pk ClosingChannel \<times> bytes list \<times> bool \<times> bytes \<times> SatAmount" where
  "Ob_AssetCreateCloseProposal env cl ch proposedFee localScript remoteScript remoteSigs =
     (if lc_status ch = channelClosed then Inl ErrChanClosing
      else sbind (assetCloseTxs cl ch proposedFee localScript remoteScript) (\<lambda>(closeTx1, closeTx2, ourSat).
        sbind (checkThat (lib_CheckTransactionSanity (env_lib env) closeTx1) CloseTxInsane) (\<lambda>_.
        sbind (checkThat (tx_TxIn closeTx2 = [] \<or> lib_CheckTransactionSanity (env_lib env) closeTx2) CloseTxInsane) (\<lambda>_.
        sbind (of_opt CloseSigning (sl_SignOutputRaw (env_sl env) (ch_signDesc (lc_chan ch)) closeTx1)) (\<lambda>sig1.
        sbind (if tx_TxIn closeTx2 \<noteq> [] \<and> remoteSigs \<noteq> []
               then sbind (secondSignature env cl ch closeTx1 closeTx2 sig1 (hd remoteSigs)) (\<lambda>sig2.
                      Inr ([sig1, sig2], length remoteSigs = 2, multiSigScript env cl ch sig1 (hd remoteSigs)))
               else Inr ([sig1], tx_TxIn closeTx2 = [], [])) (\<lambda>(sigs, endSig, script1).
          Inr (ch\<lparr>lc_status := channelClosing\<rparr>, sigs, endSig, cl_TxHash cl (closeTx1, script1), ourSat)))))))"

text \<open>What completing does with the two transactions and the signatures of both parties.\<close>

definition signAssetTxs ::
    "'pk Env \<Rightarrow> CloseLib \<Rightarrow> 'pk ClosingChannel \<Rightarrow> bytes list \<Rightarrow> bytes list \<Rightarrow> MsgTx \<Rightarrow> MsgTx \<Rightarrow> close_error + SignedTx \<times> SignedTx" where
  "signAssetTxs env cl ch localSig remoteSig tx1 tx2 =
     sbind (checkThat (lib_CheckTransactionSanity (env_lib env) tx1) CloseTxInsane) (\<lambda>_.
     sbind (nth_opt localSig 0) (\<lambda>l0. sbind (nth_opt remoteSig 0) (\<lambda>r0.
     (let signed1 = (tx1, multiSigScript env cl ch l0 r0); out = sd_Output (ch_signDesc (lc_chan ch))
      in sbind (checkThat (cl_Execute cl out signed1 (out_Value out)) ScriptRejected) (\<lambda>_.
         if tx_TxIn tx2 = [] then Inr (signed1, (tx2, []))
         else sbind (nth_opt localSig 1) (\<lambda>l1. sbind (nth_opt remoteSig 1) (\<lambda>r1.
           sbind (nth_opt (tx_TxOut tx1) 2) (\<lambda>change.
           (let signed2 = (spendChange cl signed1 tx2, multiSigScript env cl ch l1 r1)
            in sbind (checkThat (cl_Execute cl out signed2 (out_Value change)) ScriptRejected) (\<lambda>_.
                 Inr (signed1, signed2)))))))))))"

definition OB_AssetCompleteCooperativeClose ::
    "'pk Env \<Rightarrow> CloseLib \<Rightarrow> 'pk ClosingChannel \<Rightarrow> bytes list \<Rightarrow> bytes list \<Rightarrow> bytes \<Rightarrow> bytes \<Rightarrow> SatAmount
       \<Rightarrow> close_error + 'pk ClosingChannel \<times> SignedTx \<times> SignedTx \<times> SatAmount" where
  "OB_AssetCompleteCooperativeClose env cl ch localSig remoteSig localScript remoteScript proposedFee =
     (if lc_status ch = channelClosed then Inl ErrChanClosing
      else sbind (assetCloseTxs cl ch proposedFee localScript remoteScript) (\<lambda>(closeTx1, closeTx2, ourSat).
           sbind (signAssetTxs env cl ch localSig remoteSig closeTx1 closeTx2) (\<lambda>(signed1, signed2).
             Inr (ch\<lparr>lc_status := channelClosed\<rparr>, signed1, signed2, ourSat))))"

section \<open>Both parties build the same transactions\<close>

text \<open>The channels of the two parties once no HTLC is left: each has the other's view of it.\<close>

definition mirrorCommit :: "ChannelCommitment \<Rightarrow> ChannelCommitment \<Rightarrow> bool" where
  "mirrorCommit a b \<longleftrightarrow> LocalBtcBalance a = RemoteBtcBalance b \<and> RemoteBtcBalance a = LocalBtcBalance b
     \<and> LocalAssetBalance a = RemoteAssetBalance b \<and> RemoteAssetBalance a = LocalAssetBalance b \<and> CommitFee a = CommitFee b"

definition mirrorState :: "OpenChannel \<Rightarrow> OpenChannel \<Rightarrow> bool" where
  "mirrorState a b \<longleftrightarrow> cs_AssetID a = cs_AssetID b \<and> IsInitiator a \<noteq> IsInitiator b
     \<and> DustLimit (LocalChanCfg a) = DustLimit (RemoteChanCfg b) \<and> DustLimit (RemoteChanCfg a) = DustLimit (LocalChanCfg b)
     \<and> mirrorCommit (LocalCommitment a) (LocalCommitment b)"

definition mirrorChan :: "'pk Env \<Rightarrow> 'pk Chan \<Rightarrow> 'pk Chan \<Rightarrow> bool" where
  "mirrorChan env a b \<longleftrightarrow> mirrorState (channelState (ch_lc a)) (channelState (ch_lc b))
     \<and> cb_FundingOutpoint (ch_builder a) = cb_FundingOutpoint (ch_builder b)
     \<and> sd_Output (ch_signDesc a) = sd_Output (ch_signDesc b)
     \<and> sd_WitnessScript (ch_signDesc a) = sd_WitnessScript (ch_signDesc b)
     \<and> MultiSigKey (ch_localKeys a) = MultiSigKey (ch_remoteKeys b) \<and> MultiSigKey (ch_remoteKeys a) = MultiSigKey (ch_localKeys b)
     \<and> cv_SerializeCompressed (env_cv env) (MultiSigKey (ch_localKeys a))
         \<noteq> cv_SerializeCompressed (env_cv env) (MultiSigKey (ch_remoteKeys a))"

lemmas mirror_defs = mirrorChan_def mirrorState_def mirrorCommit_def

lemma mirrorChan_sym: "mirrorChan env a b \<Longrightarrow> mirrorChan env b a"
  by (auto simp: mirror_defs)

text \<open>
  What BIP 69 promises: the order of the outputs does not depend on the order in which they were
  added, and no output is added, lost or changed.
\<close>

definition canonicalOrder :: "CloseLib \<Rightarrow> bool" where
  "canonicalOrder cl \<longleftrightarrow>
     (\<forall>tx outs. mset (tx_TxOut (cl_InPlaceSort cl tx)) = mset (tx_TxOut tx)
        \<and> (mset outs = mset (tx_TxOut tx) \<longrightarrow> cl_InPlaceSort cl (tx\<lparr>tx_TxOut := outs\<rparr>) = cl_InPlaceSort cl tx))"

lemma bytesLess_asym: "bytesLess x y \<Longrightarrow> \<not> bytesLess y x"
  by (simp add: bytesLess_iff)

lemma bytesLess_total: "x \<noteq> y \<Longrightarrow> \<not> bytesLess x y \<Longrightarrow> bytesLess y x"
  by (simp add: bytesLess_iff)

lemma multisig_swap:
  "a \<noteq> b \<Longrightarrow> SpendMultiSigWithoutW cl ws a sigA b sigB = SpendMultiSigWithoutW cl ws b sigB a sigA"
  by (auto simp: SpendMultiSigWithoutW_def dest: bytesLess_asym bytesLess_total)

lemma multiSigScript_mirror:
  "mirrorChan env (lc_chan a) (lc_chan b) \<Longrightarrow> multiSigScript env cl a sigA sigB = multiSigScript env cl b sigB sigA"
  unfolding multiSigScript_def mirrorChan_def by (metis multisig_swap)

fun swapShares :: "SatAmount \<times> SatAmount \<times> AssetAmount \<times> AssetAmount \<Rightarrow> SatAmount \<times> SatAmount \<times> AssetAmount \<times> AssetAmount" where
  "swapShares (a, b, c, d) = (b, a, d, c)"

lemma CoopCloseBalance_mirror:
  "mirrorCommit a b \<Longrightarrow> CoopCloseBalance (\<not> ini) f b = map_option swapShares (CoopCloseBalance ini f a)"
  by (auto simp: CoopCloseBalance_def mirrorCommit_def Let_def)

lemma balances_mirror:
  "mirrorState a b \<Longrightarrow> CoopCloseBalance (IsInitiator b) f (LocalCommitment b)
     = map_option swapShares (CoopCloseBalance (IsInitiator a) f (LocalCommitment a))"
  using CoopCloseBalance_mirror [of "LocalCommitment a" "LocalCommitment b" "IsInitiator a" f]
  by (cases "IsInitiator a") (auto simp: mirrorState_def)

subsection \<open>The transaction of a bitcoin channel\<close>

lemma findScript_index:
  "findScript i outs s = (True, n) \<Longrightarrow> \<exists>k < length outs. n = of_nat (i + k) \<and> PkScript (outs ! k) = s"
proof (induction outs arbitrary: i)
  case (Cons x outs)
  show ?case
  proof (cases "PkScript x = s")
    case True
    with Cons.prems show ?thesis by (intro exI [of _ 0]) simp
  next
    case False
    with Cons.prems Cons.IH [of "Suc i"] obtain k where "k < length outs" "n = of_nat (Suc i + k)" "PkScript (outs ! k) = s"
      by auto
    then show ?thesis by (intro exI [of _ "Suc k"]) simp
  qed
qed simp

lemma small_indexes:
  assumes "m < 2" and "n < 2" and "ucast (of_nat m :: u32) + 1 = (ucast (of_nat n :: u32) + 1 :: u8)"
  shows "m = n"
proof -
  have "m = 0 \<or> m = 1" "n = 0 \<or> n = 1" using assms by auto
  then show ?thesis using assms(3) by auto
qed

text \<open>The entries of the payload are sorted by output, so the order of the parties does not show.\<close>

lemma opreturn_swap:
  assumes "length (tx_TxOut tx) \<le> 2" and "pks p \<noteq> pks q"
  shows "withOpReturn (tx, \<lparr>pa_AssetID = i, pksAmounts = [p, q]\<rparr>) = withOpReturn (tx, \<lparr>pa_AssetID = i, pksAmounts = [q, p]\<rparr>)"
proof -
  obtain f m g n where f: "FindScriptOutputIndex tx (pks p) = (f, m)" and g: "FindScriptOutputIndex tx (pks q) = (g, n)"
    by (cases "FindScriptOutputIndex tx (pks p)"; cases "FindScriptOutputIndex tx (pks q)") auto
  show ?thesis
  proof (cases "f \<and> g")
    case True
    then obtain k l where kl: "k < length (tx_TxOut tx)" "m = of_nat k" "PkScript (tx_TxOut tx ! k) = pks p"
        "l < length (tx_TxOut tx)" "n = of_nat l" "PkScript (tx_TxOut tx ! l) = pks q"
      using findScript_index [of 0 "tx_TxOut tx" "pks p" m] findScript_index [of 0 "tx_TxOut tx" "pks q" n] f g
      by (auto simp: FindScriptOutputIndex_def)
    then have "k \<noteq> l" using assms(2) by auto
    then have "ucast m + 1 \<noteq> (ucast n + 1 :: u8)" using small_indexes [of k l] kl assms(1) by auto
    then show ?thesis using True f g by (auto simp: withOpReturn_def AddOpReturnToTx_def split: sum.splits)
  next
    case False
    then show ?thesis using f g by (auto simp: withOpReturn_def AddOpReturnToTx_def)
  qed
qed

lemma sort_swap:
  "canonicalOrder cl \<Longrightarrow>
     cl_InPlaceSort cl \<lparr>Version = v, tx_TxIn = ins, tx_TxOut = [a, b], LockTime = l\<rparr>
       = cl_InPlaceSort cl \<lparr>Version = v, tx_TxIn = ins, tx_TxOut = [b, a], LockTime = l\<rparr>"
  unfolding canonicalOrder_def
  by (drule spec [of _ "\<lparr>Version = v, tx_TxIn = ins, tx_TxOut = [b, a], LockTime = l\<rparr>"], drule spec [of _ "[a, b]"]) simp

lemma sort_length: "canonicalOrder cl \<Longrightarrow> length (tx_TxOut (cl_InPlaceSort cl tx)) = length (tx_TxOut tx)"
  unfolding canonicalOrder_def by (metis size_mset)

lemma withOpReturn_plain: "pa_AssetID (snd p) = 0 \<or> pa_AssetID (snd p) = BtcAssetId \<Longrightarrow> withOpReturn p = fst p"
  by (auto simp: withOpReturn_def AddOpReturnToTx_def)

lemma closeTx_unfold:
  "CreateCooperativeCloseTx cl (NewPksAmounts i) fi dA dB a b tA tB sA sB =
     (let p = \<not> i64_less a dA; q = \<not> i64_less b dB
      in (cl_InPlaceSort cl \<lparr>Version = 2, tx_TxIn = [fi],
            tx_TxOut = (if p then [\<lparr>out_Value = a, PkScript = sA\<rparr>] else []) @ (if q then [\<lparr>out_Value = b, PkScript = sB\<rparr>] else []),
            LockTime = 0\<rparr>,
          \<lparr>pa_AssetID = i, pksAmounts =
             (if i = 0 \<or> i = BtcAssetId then []
              else (if p \<and> tA \<noteq> 0 then [\<lparr>pks = sA, pa_amount = tA\<rparr>] else []) @ (if q \<and> tB \<noteq> 0 then [\<lparr>pks = sB, pa_amount = tB\<rparr>] else []))\<rparr>))"
  by (simp add: CreateCooperativeCloseTx_def addOutput_def AddTxOut_def PksAmounts_Add_def NewPksAmounts_def Let_def)

lemma closeTx_mirror:
  assumes "canonicalOrder cl" and "i = 0 \<or> i = BtcAssetId \<or> sA \<noteq> sB"
  shows "withOpReturn (CreateCooperativeCloseTx cl (NewPksAmounts i) fi dA dB a b tA tB sA sB)
       = withOpReturn (CreateCooperativeCloseTx cl (NewPksAmounts i) fi dB dA b a tB tA sB sA)"
proof (cases "i = 0 \<or> i = BtcAssetId")
  case True
  then show ?thesis
    using sort_swap [OF assms(1)] by (simp add: closeTx_unfold withOpReturn_plain Let_def)
next
  case False
  with assms(2) have "sA \<noteq> sB" by simp
  then show ?thesis
    using sort_swap [OF assms(1)] False
    by (auto simp: closeTx_unfold Let_def sort_length [OF assms(1)] intro!: opreturn_swap)
qed

text \<open>The results that two parties must agree on: everything but the view of the own balance.\<close>

lemma coopCloseTx_mirror:
  assumes "mirrorChan env (lc_chan a) (lc_chan b)" and "canonicalOrder cl"
    and "cs_AssetID (stateOf a) = 0 \<or> cs_AssetID (stateOf a) = BtcAssetId \<or> sA \<noteq> sB"
  shows "sbind (coopCloseTx env cl a f sA sB) (\<lambda>(tx, _). Inr tx) = sbind (coopCloseTx env cl b f sB sA) (\<lambda>(tx, _). Inr tx)"
proof -
  let ?a = "stateOf a" and ?b = "stateOf b"
  have m: "mirrorState ?a ?b" "fundingIn a = fundingIn b"
    using assms(1) by (auto simp: mirrorChan_def stateOf_def fundingIn_def)
  note c = balances_mirror [OF m(1), of f]
  show ?thesis
  proof (cases "CoopCloseBalance (IsInitiator ?a) f (LocalCommitment ?a)")
    case None
    then show ?thesis using c by (simp add: coopCloseTx_def of_opt_def)
  next
    case (Some r)
    obtain o1 t1 o2 t2 where r: "r = (o1, t1, o2, t2)" by (cases r) auto
    have "withOpReturn (CreateCooperativeCloseTx cl (NewPksAmounts (cs_AssetID ?a)) (fundingIn b)
            (DustLimit (LocalChanCfg ?a)) (DustLimit (RemoteChanCfg ?a)) o1 t1 o2 t2 sA sB)
        = withOpReturn (CreateCooperativeCloseTx cl (NewPksAmounts (cs_AssetID ?a)) (fundingIn b)
            (DustLimit (RemoteChanCfg ?a)) (DustLimit (LocalChanCfg ?a)) t1 o1 t2 o2 sB sA)"
      using assms(3) by (intro closeTx_mirror [OF assms(2)]) auto
    then show ?thesis
      using Some c m r by (simp add: coopCloseTx_def of_opt_def mirrorState_def checkThat_def Let_def)
  qed
qed

subsection \<open>The transactions of an asset channel\<close>

text \<open>
  The shares of the two parties in a simple-send close. Exactly one party may have no tokens; when
  both have some, their delivery scripts decide whose transaction comes first.
\<close>

definition sharesOk :: "AssetAmount \<Rightarrow> AssetAmount \<Rightarrow> bytes \<Rightarrow> bytes \<Rightarrow> bool" where
  "sharesOk tA tB sA sB \<longleftrightarrow> sA \<noteq> sB \<and> \<not> i64_less tA 0 \<and> \<not> i64_less tB 0 \<and> (tA \<noteq> 0 \<or> tB \<noteq> 0)"

lemma positive_iff: "\<not> i64_less t 0 \<Longrightarrow> i64_less 0 t \<longleftrightarrow> t \<noteq> 0"
  by (metis antisym_conv3 i64_less_def sint_eq_i64)

lemma no_self_less: "\<not> i64_less t t"
  by (simp add: i64_less_def)

lemma assetTxs_mirror:
  assumes "sharesOk tA tB sA sB"
  shows "OB_AssetCreateCooperativeCloseTx cl i cap f pk fi a b tA tB sA sB
       = OB_AssetCreateCooperativeCloseTx cl i cap f pk fi b a tB tA sB sA"
proof -
  have s: "sA \<noteq> sB" and t: "i64_less 0 tA \<longleftrightarrow> tA \<noteq> 0" "i64_less 0 tB \<longleftrightarrow> tB \<noteq> 0" "tA \<noteq> 0 \<or> tB \<noteq> 0"
    using assms by (auto simp: sharesOk_def positive_iff)
  show ?thesis
    using t(3) bytesLess_asym [of sA sB] bytesLess_total [OF s]
    by (cases "tA = 0"; cases "tB = 0"; cases "bytesLess sA sB")
      (auto simp: OB_AssetCreateCooperativeCloseTx_def orderParties_def t(1,2) no_self_less Let_def)
qed

lemma assetCloseTxs_mirror:
  assumes m: "mirrorChan env (lc_chan a) (lc_chan b)"
    and s: "sharesOk (LocalAssetBalance (LocalCommitment (stateOf a))) (RemoteAssetBalance (LocalCommitment (stateOf a))) sA sB"
  shows "sbind (assetCloseTxs cl a f sA sB) (\<lambda>(tx1, tx2, _). Inr (tx1, tx2))
       = sbind (assetCloseTxs cl b f sB sA) (\<lambda>(tx1, tx2, _). Inr (tx1, tx2))"
proof -
  let ?a = "stateOf a" and ?b = "stateOf b"
  have ms: "mirrorState ?a ?b" "fundingIn a = fundingIn b"
    using m by (auto simp: mirrorChan_def stateOf_def fundingIn_def)
  note c = balances_mirror [OF ms(1), of "f * 2"]
  show ?thesis
  proof (cases "CoopCloseBalance (IsInitiator ?a) (f * 2) (LocalCommitment ?a)")
    case None
    then show ?thesis using c by (simp add: assetCloseTxs_def of_opt_def Let_def)
  next
    case (Some r)
    then obtain o1 t1 where r: "r = (o1, t1, LocalAssetBalance (LocalCommitment ?a), RemoteAssetBalance (LocalCommitment ?a))"
      by (auto simp: CoopCloseBalance_def Let_def split: if_splits)
    show ?thesis
      using Some c ms m assetTxs_mirror [OF s] r
      by (simp add: assetCloseTxs_def of_opt_def mirrorState_def mirrorCommit_def mirrorChan_def Let_def case_prod_beta add_ac)
  qed
qed

lemma asset_complete_signs:
  "sbind (OB_AssetCompleteCooperativeClose env cl ch l r s t f) (\<lambda>(_, tx1, tx2, _). Inr (tx1, tx2))
     = (if lc_status ch = channelClosed then Inl ErrChanClosing
        else sbind (sbind (assetCloseTxs cl ch f s t) (\<lambda>(tx1, tx2, _). Inr (tx1, tx2))) (\<lambda>(tx1, tx2). signAssetTxs env cl ch l r tx1 tx2))"
  by (auto simp: OB_AssetCompleteCooperativeClose_def sbind_def split: sum.splits)

lemma signAssetTxs_mirror:
  assumes m: "mirrorChan env (lc_chan a) (lc_chan b)"
  shows "signAssetTxs env cl a l r tx1 tx2 = signAssetTxs env cl b r l tx1 tx2"
proof -
  have "sd_Output (ch_signDesc (lc_chan a)) = sd_Output (ch_signDesc (lc_chan b))" using m by (simp add: mirrorChan_def)
  then show ?thesis by (simp add: signAssetTxs_def multiSigScript_mirror [OF m] nth_opt_def Let_def)
qed

lemma asset_complete_mirror:
  assumes m: "mirrorChan env (lc_chan a) (lc_chan b)"
    and "sharesOk (LocalAssetBalance (LocalCommitment (stateOf a))) (RemoteAssetBalance (LocalCommitment (stateOf a))) sA sB"
    and "lc_status a = channelClosed \<longleftrightarrow> lc_status b = channelClosed"
  shows "sbind (OB_AssetCompleteCooperativeClose env cl a sigsA sigsB sA sB f) (\<lambda>(_, tx1, tx2, _). Inr (tx1, tx2))
       = sbind (OB_AssetCompleteCooperativeClose env cl b sigsB sigsA sB sA f) (\<lambda>(_, tx1, tx2, _). Inr (tx1, tx2))"
  unfolding asset_complete_signs signAssetTxs_mirror [OF m, of cl sigsA sigsB] assetCloseTxs_mirror [OF assms(1,2)]
  using assms(3) by simp

section \<open>Who is paid by a simple-send close\<close>

text \<open>An output whose payload moves the tokens to the next output.\<close>

definition movesTokens :: "u32 \<Rightarrow> AssetAmount \<Rightarrow> TxOut \<Rightarrow> bool" where
  "movesTokens assetId tokens out \<longleftrightarrow> out_Value out = 0
     \<and> OpreturnSimple_Decode (PkScript out) = Inr \<lparr>os_Ver = 0, os_TranType = 0, os_PropertyId = assetId, os_Amount = tokens\<rparr>"

lemma withSimpleSend_moves:
  assumes "assetId \<noteq> 0"
  shows "\<exists>out. movesTokens assetId t out \<and> (\<forall>tx. withSimpleSend assetId t tx = tx\<lparr>tx_TxOut := out # tx_TxOut tx\<rparr>)"
proof -
  let ?p = "\<lparr>os_Ver = 0, os_TranType = 0, os_PropertyId = assetId, os_Amount = t\<rparr>"
  obtain s where "OpreturnSimple_Encode ?p = Inr s" "OpreturnSimple_Decode s = Inr ?p"
    using simple_send_payload [of ?p] assms by auto
  then show ?thesis
    by (intro exI [of _ "\<lparr>out_Value = 0, PkScript = s\<rparr>"])
      (simp add: withSimpleSend_def OpreturnSimple_AddOpReturnToTx_def movesTokens_def)
qed

lemma asset_cap:
  "CoopCloseBalance ini (f * 2) c = Some (a, b, tA, tB) \<Longrightarrow>
     CommitFee c + ToSatoshis (LocalBtcBalance c) + ToSatoshis (RemoteBtcBalance c) = a + b + f * 2
     \<and> tA = LocalAssetBalance c \<and> tB = RemoteAssetBalance c"
  by (auto simp: CoopCloseBalance_def Let_def split: if_splits)

text \<open>The first transaction for the share \<open>(pk1, v1, t1)\<close> and the second for \<open>(pk2, v2, t2)\<close>.\<close>

definition paysShares ::
    "CloseLib \<Rightarrow> 'pk ClosingChannel \<Rightarrow> SatAmount \<Rightarrow> bytes \<times> SatAmount \<times> AssetAmount \<Rightarrow> bytes \<times> SatAmount \<times> AssetAmount
       \<Rightarrow> MsgTx \<Rightarrow> MsgTx \<Rightarrow> bool" where
  "paysShares cl ch f share1 share2 tx1 tx2 \<longleftrightarrow>
     (case (share1, share2) of ((pk1, v1, t1), (pk2, v2, t2)) \<Rightarrow>
        (\<exists>out1 out2. movesTokens (cs_AssetID (stateOf ch)) t1 out1 \<and> movesTokens (cs_AssetID (stateOf ch)) t2 out2
           \<and> tx_TxIn tx1 = [fundingIn ch]
           \<and> tx_TxOut tx1 = [out1, \<lparr>out_Value = v1, PkScript = pk1\<rparr>,
               \<lparr>out_Value = v2 + f, PkScript = PkScript (sd_Output (ch_signDesc (lc_chan ch)))\<rparr>]
           \<and> tx_TxIn tx2 = [fundingTxIn \<lparr>op_Hash = cl_TxHash cl (tx1, []), op_Index = 2\<rparr>]
           \<and> tx_TxOut tx2 = [out2, \<lparr>out_Value = v2, PkScript = pk2\<rparr>]))"

lemma positive_sum: "\<not> i64_less v 0 \<Longrightarrow> i64_less 0 f \<Longrightarrow> unat v < 2 ^ 62 \<Longrightarrow> unat f < 2 ^ 62 \<Longrightarrow> i64_less 0 (v + f)"
proof -
  assume a: "\<not> i64_less v 0" "i64_less 0 f" "unat v < 2 ^ 62" "unat f < 2 ^ 62"
  then have "unat (v + f) = unat v + unat f" by (intro unat_add_lt) simp
  moreover have "0 < unat f" using a(2) by (auto simp: i64_less_def unat_gt_0)
  moreover have "2 ^ 62 + 2 ^ 62 = (2 ^ 63 :: nat)" by simp
  ultimately have "0 < unat (v + f)" "unat (v + f) < 2 ^ 63" using a(3,4) by linarith+
  then show ?thesis unfolding i64_less_def by (metis sint_unat signed_0 of_nat_0_less_iff)
qed

lemma asset_close_outputs:
  assumes "cs_AssetID (stateOf ch) \<noteq> 0"
    and c: "CoopCloseBalance (IsInitiator (stateOf ch)) (f * 2) (LocalCommitment (stateOf ch)) = Some (a, b, tA, tB)"
    and t: "i64_less 0 tA" "i64_less 0 tB"
    and f: "i64_less 0 f" "unat f < 2 ^ 62" "unat a < 2 ^ 62" "unat b < 2 ^ 62"
  shows "\<exists>tx1 tx2. assetCloseTxs cl ch f sA sB = Inr (tx1, tx2, a)
     \<and> (if bytesLess sB sA then paysShares cl ch f (sB, b, tB) (sA, a, tA) tx1 tx2
        else paysShares cl ch f (sA, a, tA) (sB, b, tB) tx1 tx2)"
proof -
  obtain outA outB where o: "movesTokens (cs_AssetID (stateOf ch)) tA outA" "movesTokens (cs_AssetID (stateOf ch)) tB outB"
      "\<And>tx. withSimpleSend (cs_AssetID (stateOf ch)) tA tx = tx\<lparr>tx_TxOut := outA # tx_TxOut tx\<rparr>"
      "\<And>tx. withSimpleSend (cs_AssetID (stateOf ch)) tB tx = tx\<lparr>tx_TxOut := outB # tx_TxOut tx\<rparr>"
    using withSimpleSend_moves [OF assms(1), of tA] withSimpleSend_moves [OF assms(1), of tB] by auto
  have n: "\<not> i64_less a 0" "\<not> i64_less b 0" using c by (auto simp: CoopCloseBalance_def Let_def split: if_splits)
  have p: "i64_less 0 (a + f)" "i64_less 0 (b + f)"
    using positive_sum [OF n(1) f(1) f(3) f(2)] positive_sum [OF n(2) f(1) f(4) f(2)] by auto
  have z: "tA \<noteq> 0" "tB \<noteq> 0" "\<not> i64_less tA 0" "\<not> i64_less tB 0" using t by (auto simp: i64_less_def)
  show ?thesis
    using asset_cap [OF c] z o p t c
    by (auto simp: assetCloseTxs_def of_opt_def OB_AssetCreateCooperativeCloseTx_def orderParties_def AddTxOut_def
        paysShares_def Let_def algebra_simps)
qed

section \<open>An instance\<close>

text \<open>
  Keys are named by whether their owner opened the channel. A signature is the name of the key and
  the values of the outputs; the engine accepts the signatures of both parties, the one of the
  smaller key first, for the transaction at hand.
\<close>

definition twoKeys :: "bool Curve" where
  "twoKeys = \<lparr>cv_Add = (\<lambda>_ b. b), cv_ScalarMult = (\<lambda>_ b. b), cv_ScalarBaseMult = (\<lambda>_. True), cv_SerializeCompressed = (\<lambda>b. [if b then 3 else 2])\<rparr>"

definition signValues :: "bool \<Rightarrow> MsgTx \<Rightarrow> bytes" where
  "signValues key tx = (if key then 3 else 2) # concat (map (put_word 8 \<circ> out_Value) (tx_TxOut tx))"

definition twoSigs :: "bool SigLib" where
  "twoSigs = \<lparr>sl_TxHash = (\<lambda>tx. put_word 4 (LockTime tx)), sl_SignOutputRaw = (\<lambda>sd tx. Some (signValues (sd_KeyDesc sd) tx)),
     sl_NewSigFromSignature = Some, sl_ToSignature = Some, sl_CalcSignatureHash = (\<lambda>_ _. None), sl_Verify = (\<lambda>_ _ _. False)\<rparr>"

definition twoScripts :: "bool ScriptLib" where
  "twoScripts =
     \<lparr>lib_LeaseCommitScriptToSelf = (\<lambda>_ _ _ _. None), lib_CommitScriptToSelf = (\<lambda>_ _ _. None),
      lib_ReceiverHTLCScript = (\<lambda>_ _ _ _ _ _. None), lib_SenderHTLCScript = (\<lambda>_ _ _ _ _. None),
      lib_LeaseSecondLevelHtlcScript = (\<lambda>_ _ _ _. None), lib_SecondLevelHtlcScript = (\<lambda>_ _ _. None),
      lib_GenerateP2SH = (\<lambda>_. None), lib_CheckTransactionSanity = (\<lambda>tx. tx_TxIn tx \<noteq> []), lib_GetTransactionWeight = (\<lambda>_. 0)\<rparr>"

definition twoEnv :: "bool Env" where
  "twoEnv = \<lparr>env_lib = twoScripts, env_sl = twoSigs, env_cv = twoKeys, env_dbCommits = True\<rparr>"

fun pushed :: "ScriptPush \<Rightarrow> bytes" where
  "pushed (AddOp c) = [c]"
| "pushed (AddData d) = d"

definition twoOfTwo :: "MsgTx \<Rightarrow> bytes" where
  "twoOfTwo tx = 0 # signValues False tx @ [1] @ signValues True tx @ [1] @ [7]"

definition closeLib :: CloseLib where
  "closeLib = \<lparr>cl_InPlaceSort = (\<lambda>tx. tx\<lparr>tx_TxOut := sort_key (\<lambda>out. outputKey (out, 0)) (tx_TxOut tx)\<rparr>),
     cl_TxHash = (\<lambda>(tx, script). put_word 4 (LockTime tx)), cl_BuildScript = (\<lambda>ps. concat (map pushed ps)),
     cl_Execute = (\<lambda>_ (tx, script) _. script = twoOfTwo tx)\<rparr>"

lemma closeLib_canonical: "canonicalOrder closeLib"
proof -
  have i: "inj_on (\<lambda>out. outputKey (out, 0)) S" for S
    by (rule inj_onI, drule outputKey_inj) simp
  have "cl_InPlaceSort closeLib (tx\<lparr>tx_TxOut := outs\<rparr>) = cl_InPlaceSort closeLib tx" if "mset outs = mset (tx_TxOut tx)" for tx outs
    unfolding closeLib_def using sort_key_unique [OF that i] by simp
  moreover have "mset (tx_TxOut (cl_InPlaceSort closeLib tx)) = mset (tx_TxOut tx)" for tx by (simp add: closeLib_def)
  ultimately show ?thesis unfolding canonicalOrder_def by blast
qed

text \<open>
  The channel of the party that opened it or of its peer: the own and the other balance in
  millisatoshis, the own and the other tokens.
\<close>

definition twoCommit :: "MilliSatoshi \<Rightarrow> MilliSatoshi \<Rightarrow> AssetAmount \<Rightarrow> AssetAmount \<Rightarrow> ChannelCommitment" where
  "twoCommit own other tokens otherTokens =
     sampleDiskCommitment\<lparr>LocalBtcBalance := own, RemoteBtcBalance := other, LocalAssetBalance := tokens,
       RemoteAssetBalance := otherTokens, CommitFee := 1000\<rparr>"

definition keysOf :: "bool \<Rightarrow> bool ChannelKeys" where
  "keysOf b = \<lparr>MultiSigKey = b, RevocationBasePoint = b, PaymentBasePoint = b, DelayBasePoint = b, HtlcBasePoint = b\<rparr>"

definition sideOf :: "u32 \<Rightarrow> bool \<Rightarrow> ChannelCommitment \<Rightarrow> bool ClosingChannel" where
  "sideOf asset opener c =
     (let cs = (sampleState asset)\<lparr>IsInitiator := opener, LocalCommitment := c\<rparr>
      in \<lparr>lc_chan =
           \<lparr>ch_lc = (sampleChannel asset)\<lparr>channelState := cs\<rparr>, ch_builder = sampleBuilder,
            ch_signDesc = \<lparr>sd_KeyDesc = opener, sd_SingleTweak = [], sd_WitnessScript = [7], sd_Output = \<lparr>out_Value = 1000000, PkScript = [7]\<rparr>\<rparr>,
            ch_localKeys = keysOf opener, ch_remoteKeys = keysOf (\<not> opener),
            RemoteCurrentRevocation = None, RemoteNextRevocation = None,
            ch_producer = NewRevocationProducer (replicate 32 5), ch_store = NewRevocationStore, chanStatus = 0, LastWasRevoke = False,
            ch_db = \<lparr>db_chanStatus = 0, db_chanInfo = cs, db_localCommitment = c, db_remoteCommitment = c, db_commitDiff = None,
              db_unsignedAckedUpdates = None, db_remoteUnsignedLocalUpdates = None, db_lastWasRevoke = False,
              db_revocationState = (NewRevocationStore, None, None), db_revocationLog = (\<lambda>_. None), db_fwdPkgs = None\<rparr>\<rparr>,
          lc_status = channelOpen, IsPending = False, db_coopCloseTx = None\<rparr>)"

lemma sideOf_simps [simp]:
  "stateOf (sideOf asset opener c) = (sampleState asset)\<lparr>IsInitiator := opener, LocalCommitment := c\<rparr>"
  "ch_signDesc (lc_chan (sideOf asset opener c)) =
     \<lparr>sd_KeyDesc = opener, sd_SingleTweak = [], sd_WitnessScript = [7], sd_Output = \<lparr>out_Value = 1000000, PkScript = [7]\<rparr>\<rparr>"
  "lc_status (sideOf asset opener c) = channelOpen" "channelState (ch_lc (lc_chan (sideOf asset opener c))) = stateOf (sideOf asset opener c)"
  by (simp_all add: sideOf_def stateOf_def Let_def)

lemma sides_mirror:
  "mirrorChan twoEnv (lc_chan (sideOf asset b (twoCommit x y t u))) (lc_chan (sideOf asset (\<not> b) (twoCommit y x u t)))"
  by (simp add: mirror_defs sideOf_def sampleState_def sampleConstraints_def twoCommit_def keysOf_def twoEnv_def twoKeys_def Let_def)

section \<open>Properties\<close>

text \<open>
  C8. Both parties of a cooperative close build the same transaction. From channels that mirror each
  other, with the delivery scripts and the two signatures exchanged, completing the close gives both
  parties the same signed transaction, or the same error. In an asset channel the delivery scripts
  have to differ.
\<close>

theorem closing_transaction_agreed:
  assumes m: "mirrorChan env (lc_chan a) (lc_chan b)" and "canonicalOrder cl"
    and "cs_AssetID (stateOf a) = 0 \<or> cs_AssetID (stateOf a) = BtcAssetId \<or> sA \<noteq> sB"
    and "lc_status a = channelClosed \<longleftrightarrow> lc_status b = channelClosed"
  shows "sbind (CompleteCooperativeClose env cl a sigA sigB sA sB f) (\<lambda>(_, tx, _). Inr tx)
       = sbind (CompleteCooperativeClose env cl b sigB sigA sB sA f) (\<lambda>(_, tx, _). Inr tx)"
proof -
  have "sbind (CompleteCooperativeClose env cl c l r s t f) (\<lambda>(_, tx, _). Inr tx)
      = (if lc_status c = channelClosed then Inl ErrChanClosing
         else sbind (sbind (coopCloseTx env cl c f s t) (\<lambda>(tx, _). Inr tx)) (\<lambda>tx.
                (let signed = (tx, multiSigScript env cl c l r); out = sd_Output (ch_signDesc (lc_chan c))
                 in if cl_Execute cl out signed (out_Value out) then Inr signed else Inl ScriptRejected)))" for c l r s t
    by (cases "coopCloseTx env cl c f s t") (auto simp: CompleteCooperativeClose_def Let_def checkThat_def)
  then show ?thesis
    using assms(4) coopCloseTx_mirror [OF assms(1-3)] multiSigScript_mirror [OF m, of cl sigA sigB] m
    by (simp add: mirrorChan_def)
qed

theorem closing_transaction_agreed_witness:
  "let a = sideOf 0 True (twoCommit 600000000 399000000 0 0); b = sideOf 0 False (twoCommit 399000000 600000000 0 0);
       tx = \<lparr>Version = 2, tx_TxIn = [fundingIn a],
              tx_TxOut = [\<lparr>out_Value = 399000, PkScript = [9]\<rparr>, \<lparr>out_Value = 600817, PkScript = [8]\<rparr>], LockTime = 0\<rparr>
   in sbind (CompleteCooperativeClose twoEnv closeLib b (signValues False tx) (signValues True tx) [9] [8] 183) (\<lambda>(_, tx, _). Inr tx)
      = Inr (tx, twoOfTwo tx)"
proof -
  let ?a = "sideOf 0 True (twoCommit 600000000 399000000 0 0)" and ?b = "sideOf 0 False (twoCommit 399000000 600000000 0 0)"
  let ?tx = "\<lparr>Version = 2, tx_TxIn = [fundingIn ?a],
      tx_TxOut = [\<lparr>out_Value = 399000, PkScript = [9]\<rparr>, \<lparr>out_Value = 600817, PkScript = [8]\<rparr>], LockTime = 0\<rparr>"
  have "sbind (CompleteCooperativeClose twoEnv closeLib ?a (signValues True ?tx) (signValues False ?tx) [8] [9] 183) (\<lambda>(_, tx, _). Inr tx)
      = Inr (?tx, twoOfTwo ?tx)"
    by code_simp
  moreover have "mirrorChan twoEnv (lc_chan ?a) (lc_chan ?b)" using sides_mirror [of 0 True] by simp
  ultimately show ?thesis
    using closing_transaction_agreed [OF _ closeLib_canonical, of twoEnv ?a ?b "[8]" "[9]" "signValues True ?tx" "signValues False ?tx" 183]
    by (simp only: Let_def sideOf_simps list.inject) simp
qed

text \<open>
  C9. When both parties of an asset channel hold tokens, a simple-send close pays both. Both parties
  build the same two transactions and complete them alike. The first transaction pays the bitcoin
  and the tokens of one party, decided by the order of the delivery scripts, and returns the other
  party's bitcoin and one more fee to the funding script; the second spends that output and pays the
  bitcoin and the tokens of the other party. The two fees are all that is missing from the capacity.
\<close>

theorem asset_close_pays_both:
  assumes m: "mirrorChan env (lc_chan chA) (lc_chan chB)" and "cs_AssetID (stateOf chA) \<noteq> 0" and "sA \<noteq> sB"
    and c: "CoopCloseBalance (IsInitiator (stateOf chA)) (f * 2) (LocalCommitment (stateOf chA)) = Some (a, b, tA, tB)"
    and t: "i64_less 0 tA" "i64_less 0 tB"
    and f: "i64_less 0 f" "unat f < 2 ^ 62" "unat a < 2 ^ 62" "unat b < 2 ^ 62"
    and "lc_status chA = channelClosed \<longleftrightarrow> lc_status chB = channelClosed"
  shows "\<exists>tx1 tx2. assetCloseTxs cl chA f sA sB = Inr (tx1, tx2, a) \<and> assetCloseTxs cl chB f sB sA = Inr (tx1, tx2, b)
     \<and> (paysShares cl chA f (sA, a, tA) (sB, b, tB) tx1 tx2 \<or> paysShares cl chA f (sB, b, tB) (sA, a, tA) tx1 tx2)
     \<and> a + b + f + f = CommitFee (LocalCommitment (stateOf chA)) + ToSatoshis (LocalBtcBalance (LocalCommitment (stateOf chA)))
          + ToSatoshis (RemoteBtcBalance (LocalCommitment (stateOf chA)))
     \<and> sbind (OB_AssetCompleteCooperativeClose env cl chA sigsA sigsB sA sB f) (\<lambda>(_, tx1, tx2, _). Inr (tx1, tx2))
         = sbind (OB_AssetCompleteCooperativeClose env cl chB sigsB sigsA sB sA f) (\<lambda>(_, tx1, tx2, _). Inr (tx1, tx2))"
proof -
  obtain tx1 tx2 where tx: "assetCloseTxs cl chA f sA sB = Inr (tx1, tx2, a)"
      "paysShares cl chA f (sA, a, tA) (sB, b, tB) tx1 tx2 \<or> paysShares cl chA f (sB, b, tB) (sA, a, tA) tx1 tx2"
    using asset_close_outputs [OF assms(2) c t f] by (meson)
  have "\<not> i64_less tA 0" "\<not> i64_less tB 0" "tA \<noteq> 0" using t by (auto simp: i64_less_def)
  then have s: "sharesOk (LocalAssetBalance (LocalCommitment (stateOf chA))) (RemoteAssetBalance (LocalCommitment (stateOf chA))) sA sB"
    using asset_cap [OF c] assms(3) by (simp add: sharesOk_def)
  have "mirrorState (stateOf chA) (stateOf chB)" using m by (simp add: mirrorChan_def stateOf_def)
  then have "CoopCloseBalance (IsInitiator (stateOf chB)) (f * 2) (LocalCommitment (stateOf chB)) = Some (b, a, tB, tA)"
    using balances_mirror [of "stateOf chA" "stateOf chB" "f * 2"] c by simp
  then have "\<exists>tx. assetCloseTxs cl chB f sB sA = Inr (fst tx, snd tx, b)"
    by (auto simp: assetCloseTxs_def of_opt_def Let_def case_prod_beta)
  then have "assetCloseTxs cl chB f sB sA = Inr (tx1, tx2, b)"
    using assetCloseTxs_mirror [OF m s, of cl f] tx(1) by auto
  then show ?thesis using tx asset_cap [OF c] asset_complete_mirror [OF m s assms(11)] by (simp add: mult_2_right)
qed

theorem asset_close_pays_both_witness:
  "let a = sideOf 31 True (twoCommit 600000000 399000000 500 700) in
   \<exists>tx1 tx2. assetCloseTxs closeLib a 183 [8] [9] = Inr (tx1, tx2, 600634)
     \<and> (paysShares closeLib a 183 ([8], 600634, 500) ([9], 399000, 700) tx1 tx2
        \<or> paysShares closeLib a 183 ([9], 399000, 700) ([8], 600634, 500) tx1 tx2)"
proof -
  let ?a = "sideOf 31 True (twoCommit 600000000 399000000 500 700)" and ?b = "sideOf 31 False (twoCommit 399000000 600000000 700 500)"
  have m: "mirrorChan twoEnv (lc_chan ?a) (lc_chan ?b)" using sides_mirror [of 31 True] by simp
  have c: "CoopCloseBalance (IsInitiator (stateOf ?a)) (183 * 2) (LocalCommitment (stateOf ?a)) = Some (600634, 399000, 500, 700)"
    by code_simp
  have x: "cs_AssetID (stateOf ?a) \<noteq> 0" "[8 :: u8] \<noteq> [9]" "lc_status ?a = channelClosed \<longleftrightarrow> lc_status ?b = channelClosed"
    by (simp_all add: sampleState_def)
  have n: "i64_less 0 500" "i64_less 0 700" "i64_less 0 183" "unat (183 :: i64) < 2 ^ 62" "unat (600634 :: i64) < 2 ^ 62"
      "unat (399000 :: i64) < 2 ^ 62"
    by (simp_all add: i64_less_def)
  show ?thesis
    unfolding Let_def using asset_close_pays_both [OF m x(1,2) c n x(3), of closeLib "[]" "[]"] by blast
qed

text \<open>
  C10. When one party of an asset channel holds no tokens but bitcoin, a simple-send close strands its
  bitcoin. The only transaction pays the tokens and the bitcoin of the other party and returns the
  rest, the whole bitcoin balance of the party without tokens, to the funding script of both
  parties; there is no second transaction that would spend it.
\<close>

theorem one_sided_close_strands_bitcoin:
  assumes "cs_AssetID (stateOf ch) \<noteq> 0"
    and c: "CoopCloseBalance (IsInitiator (stateOf ch)) (f * 2) (LocalCommitment (stateOf ch)) = Some (a, b, tA, 0)"
    and t: "i64_less 0 tA" and b: "i64_less 0 b"
  shows "\<exists>tx1 tx2 out. assetCloseTxs cl ch f sA sB = Inr (tx1, tx2, a) \<and> tx_TxIn tx2 = []
     \<and> movesTokens (cs_AssetID (stateOf ch)) tA out
     \<and> tx_TxOut tx1 = [out, \<lparr>out_Value = a + f, PkScript = sA\<rparr>,
         \<lparr>out_Value = b, PkScript = PkScript (sd_Output (ch_signDesc (lc_chan ch)))\<rparr>]"
proof -
  obtain outA where o: "movesTokens (cs_AssetID (stateOf ch)) tA outA"
      "\<And>tx. withSimpleSend (cs_AssetID (stateOf ch)) tA tx = tx\<lparr>tx_TxOut := outA # tx_TxOut tx\<rparr>"
    using withSimpleSend_moves [OF assms(1), of tA] by auto
  have z: "tA \<noteq> 0" "\<not> i64_less tA 0" using t by (auto simp: i64_less_def)
  show ?thesis
    using asset_cap [OF c] z o b t c
    by (auto simp: assetCloseTxs_def of_opt_def OB_AssetCreateCooperativeCloseTx_def orderParties_def AddTxOut_def
        no_self_less Let_def algebra_simps)
qed


theorem one_sided_close_strands_bitcoin_witness:
  "let a = sideOf 31 True (twoCommit 600000000 399000000 500 0) in
   \<exists>tx1 tx2 out. assetCloseTxs closeLib a 183 [8] [9] = Inr (tx1, tx2, 600634) \<and> tx_TxIn tx2 = [] \<and> movesTokens 31 500 out
     \<and> tx_TxOut tx1 = [out, \<lparr>out_Value = 600817, PkScript = [8]\<rparr>, \<lparr>out_Value = 399000, PkScript = [7]\<rparr>]"
proof -
  let ?a = "sideOf 31 True (twoCommit 600000000 399000000 500 0)"
  have "CoopCloseBalance True (183 * 2) (twoCommit 600000000 399000000 500 0) = Some (600634, 399000, 500, 0)"
    by code_simp
  then show ?thesis
    using one_sided_close_strands_bitcoin [of ?a 183 600634 399000 500 closeLib "[8]" "[9]"]
    by (simp add: i64_less_def sampleState_def)
qed

end
