(* ===== verification/Chan_Closer.thy ===== *)
theory Chan_Closer
  imports Coop_Close
begin

text \<open>
  The state machine of a cooperative close (\<open>src/oblnd/lnwallet/chancloser/chancloser.go\<close>). A
  closer answers each message of the peer with the messages to send, and says whether the
  negotiation is over. An error leaves the changes that were made before it, as in the code, so every
  operation returns the closer together with its result.
\<close>

section \<open>The model\<close>

subsection \<open>State\<close>

datatype closeState = closeIdle | closeShutdownInitiated | closeFeeNegotiation | closeFinished

text \<open>
  The calls that a closer makes to the outside, in their order: the request to disable the channel,
  the status and transaction written to the bucket, the end of the connection, and the transactions
  that it broadcasts.
\<close>

datatype CloseEvent = DisableRequested | CoopMarked "SignedTx option" | Disconnected | Broadcasted SignedTx

record 'pk ChanCloser =
  cc_state :: closeState
  cc_channel :: "'pk ClosingChannel"
  negotiationHeight :: u32
  closingTx :: "SignedTx option"
  idealFeeSat :: SatAmount
  lastFeeProposal :: SatAmount
  priorFeeOffers :: "SatAmount \<rightharpoonup> ClosingSigned"
  obSimpleSendPriorFeeOffers :: "SatAmount \<rightharpoonup> ObClosingSignedSimpleSend"
  localDeliveryScript :: bytes
  remoteDeliveryScript :: bytes
  locallyInitiated :: bool
  cc_events :: "CloseEvent list"

text \<open>The packages the closer calls, whether the peer can be disconnected and a transaction broadcast.\<close>

record 'pk CloseEnv =
  ce_env :: "'pk Env"
  ce_lib :: CloseLib
  ce_Disconnect :: bool
  ce_BroadcastTx :: "SignedTx \<Rightarrow> bool"

datatype CloseMsg =
    MsgShutdown Shutdown
  | MsgClosingSigned ClosingSigned
  | MsgObShutdownSimpleSend ObShutdownSimpleSend
  | MsgObClosingSignedSimpleSend ObClosingSignedSimpleSend

type_synonym ('pk, 'a) closing = "'pk ChanCloser \<times> (close_error + 'a)"

text \<open>\<open>cbind\<close> continues with the changed closer, \<open>ctry\<close> with the value of a call that does not change it.\<close>

definition cbind :: "('pk, 'a) closing \<Rightarrow> ('pk ChanCloser \<Rightarrow> 'a \<Rightarrow> ('pk, 'b) closing) \<Rightarrow> ('pk, 'b) closing" where
  "cbind r f = (case r of (c, Inl e) \<Rightarrow> (c, Inl e) | (c, Inr x) \<Rightarrow> f c x)"

definition ctry :: "'pk ChanCloser \<Rightarrow> close_error + 'a \<Rightarrow> ('a \<Rightarrow> ('pk, 'b) closing) \<Rightarrow> ('pk, 'b) closing" where
  "ctry c r f = (case r of Inl e \<Rightarrow> (c, Inl e) | Inr x \<Rightarrow> f x)"

definition noteEvent :: "CloseEvent \<Rightarrow> 'pk ChanCloser \<Rightarrow> 'pk ChanCloser" where
  "noteEvent e c = c\<lparr>cc_events := cc_events c @ [e]\<rparr>"

definition NewChanCloser :: "'pk ClosingChannel \<Rightarrow> bytes \<Rightarrow> SatPerKWeight \<Rightarrow> u32 \<Rightarrow> bool \<Rightarrow> 'pk ChanCloser" where
  "NewChanCloser channel deliveryScript idealFeePerKw startHeight locally =
     (let ideal = CalcFee channel idealFeePerKw;
          channelCommitFee = CommitFee (LocalCommitment (stateOf channel))
      in \<lparr>cc_state = closeIdle, cc_channel = channel, negotiationHeight = startHeight, closingTx = None,
          idealFeeSat = (if i64_less channelCommitFee ideal then channelCommitFee else ideal), lastFeeProposal = 0,
          priorFeeOffers = Map.empty, obSimpleSendPriorFeeOffers = Map.empty,
          localDeliveryScript = deliveryScript, remoteDeliveryScript = [], locallyInitiated = locally, cc_events = []\<rparr>)"

subsection \<open>Marking the channel\<close>

definition ChanStatusCoopBroadcasted :: ChannelStatus where
  "ChanStatusCoopBroadcasted = 16"

definition ChanStatusLocalCloseInitiator :: ChannelStatus where
  "ChanStatusLocalCloseInitiator = 32"

definition ChanStatusRemoteCloseInitiator :: ChannelStatus where
  "ChanStatusRemoteCloseInitiator = 64"

text \<open>The status and the transaction are written together or not at all.\<close>

definition putChanStatus :: "'pk Env \<Rightarrow> ChannelStatus \<Rightarrow> SignedTx option \<Rightarrow> 'pk ClosingChannel \<Rightarrow> close_error + 'pk ClosingChannel" where
  "putChanStatus env status closeTx ch =
     (let c = lc_chan ch; status' = db_chanStatus (ch_db c) OR status
      in if env_dbCommits env
         then Inr (ch\<lparr>lc_chan := c\<lparr>chanStatus := status', ch_db := (ch_db c)\<lparr>db_chanStatus := status'\<rparr>\<rparr>,
                      db_coopCloseTx := (if closeTx = None then db_coopCloseTx ch else closeTx)\<rparr>)
         else Inl PersistFailed)"

definition MarkCoopBroadcasted :: "'pk Env \<Rightarrow> SignedTx option \<Rightarrow> bool \<Rightarrow> 'pk ClosingChannel \<Rightarrow> close_error + 'pk ClosingChannel" where
  "MarkCoopBroadcasted env closeTx locally ch =
     putChanStatus env
       (ChanStatusCoopBroadcasted OR (if locally then ChanStatusLocalCloseInitiator else ChanStatusRemoteCloseInitiator)) closeTx ch"

definition markClosing :: "'pk CloseEnv \<Rightarrow> SignedTx option \<Rightarrow> 'pk ChanCloser \<Rightarrow> ('pk, unit) closing" where
  "markClosing ce closeTx c =
     ctry c (MarkCoopBroadcasted (ce_env ce) closeTx (locallyInitiated c) (cc_channel c)) (\<lambda>ch.
       (noteEvent (CoopMarked closeTx) (c\<lparr>cc_channel := ch\<rparr>), Inr ()))"

subsection \<open>Shutdown\<close>

definition cidOf :: "'pk ChanCloser \<Rightarrow> ChannelID" where
  "cidOf c = chanIDOf (lc_chan (cc_channel c))"

definition initShutdown :: "'pk CloseEnv \<Rightarrow> 'pk ChanCloser \<Rightarrow> ('pk, unit) closing" where
  "initShutdown ce c = markClosing ce None (noteEvent DisableRequested c)"

definition initChanShutdown :: "'pk CloseEnv \<Rightarrow> 'pk ChanCloser \<Rightarrow> ('pk, CloseMsg) closing" where
  "initChanShutdown ce c =
     (let shutdown = \<lparr>sd_ChannelID = cidOf c, sd_Address = localDeliveryScript c, sd_ExtraData = []\<rparr>
      in cbind (initShutdown ce c) (\<lambda>c1 _. (c1, Inr (MsgShutdown shutdown))))"

definition obSimpleSendInitChanShutdown :: "'pk CloseEnv \<Rightarrow> 'pk ChanCloser \<Rightarrow> ('pk, CloseMsg) closing" where
  "obSimpleSendInitChanShutdown ce c =
     (let shutdown = \<lparr>osd_ChannelID = cidOf c, osd_Address = localDeliveryScript c, osd_ExtraData = []\<rparr>
      in cbind (initShutdown ce c) (\<lambda>c1 _. (c1, Inr (MsgObShutdownSimpleSend shutdown))))"

definition startShutdown :: "('pk ChanCloser \<Rightarrow> ('pk, CloseMsg) closing) \<Rightarrow> 'pk ChanCloser \<Rightarrow> ('pk, CloseMsg) closing" where
  "startShutdown init c =
     (if cc_state c \<noteq> closeIdle then (c, Inl ErrChanAlreadyClosing)
      else cbind (init c) (\<lambda>c1 msg. (c1\<lparr>cc_state := closeShutdownInitiated\<rparr>, Inr msg)))"

definition ShutdownChan :: "'pk CloseEnv \<Rightarrow> 'pk ChanCloser \<Rightarrow> ('pk, CloseMsg) closing" where
  "ShutdownChan ce c = startShutdown (initChanShutdown ce) c"

definition ObSimpleSendShutdownChan :: "'pk CloseEnv \<Rightarrow> 'pk ChanCloser \<Rightarrow> ('pk, CloseMsg) closing" where
  "ObSimpleSendShutdownChan ce c = startShutdown (obSimpleSendInitChanShutdown ce) c"

definition ClosingTx :: "'pk ChanCloser \<Rightarrow> close_error + SignedTx option" where
  "ClosingTx c = (if cc_state c \<noteq> closeFinished then Inl ErrChanCloseNotFinished else Inr (closingTx c))"

definition maybeMatchScript :: "'pk CloseEnv \<Rightarrow> bytes \<Rightarrow> bytes \<Rightarrow> 'pk ChanCloser \<Rightarrow> ('pk, unit) closing" where
  "maybeMatchScript ce upfrontScript peerScript c =
     (if upfrontScript = [] then (c, Inr ())
      else if upfrontScript \<noteq> peerScript
      then (noteEvent Disconnected c, Inl (if ce_Disconnect ce then ErrUpfrontShutdownScriptMismatch else DisconnectFailed))
      else (c, Inr ()))"

subsection \<open>Fees\<close>

definition feeInAcceptableRange :: "SatAmount \<Rightarrow> SatAmount \<Rightarrow> bool" where
  "feeInAcceptableRange localFee remoteFee =
     (if i64_less localFee remoteFee
      then \<not> i64_less (localFee + i64_div (localFee * 3) 10) remoteFee
      else \<not> i64_less remoteFee (localFee - i64_div (localFee * 3) 10))"

definition ratchetFee :: "SatAmount \<Rightarrow> bool \<Rightarrow> SatAmount" where
  "ratchetFee f up = (if up then f + i64_div (f * 1) 10 else f - i64_div (f * 1) 10)"

definition calcCompromiseFee :: "SatAmount \<Rightarrow> SatAmount \<Rightarrow> SatAmount \<Rightarrow> SatAmount" where
  "calcCompromiseFee ourIdealFee lastSentFee remoteFee =
     (if ourIdealFee = remoteFee \<or> lastSentFee = 0 then ourIdealFee
      else if remoteFee = lastSentFee then lastSentFee
      else if i64_less remoteFee lastSentFee then
        (if feeInAcceptableRange lastSentFee remoteFee then remoteFee else ratchetFee lastSentFee False)
      else if i64_less lastSentFee remoteFee then
        (if feeInAcceptableRange lastSentFee remoteFee then remoteFee else ratchetFee lastSentFee True)
      else remoteFee)"

subsection \<open>Proposals\<close>

definition proposeCloseSigned :: "'pk CloseEnv \<Rightarrow> SatAmount \<Rightarrow> 'pk ChanCloser \<Rightarrow> ('pk, ClosingSigned) closing" where
  "proposeCloseSigned ce f c =
     ctry c (CreateCloseProposal (ce_env ce) (ce_lib ce) (cc_channel c) f (localDeliveryScript c) (remoteDeliveryScript c))
       (\<lambda>(ch, rawSig, _, _).
       (let c1 = c\<lparr>cc_channel := ch, lastFeeProposal := f\<rparr>
        in ctry c1 (of_opt MalformedSig (sl_NewSigFromSignature (env_sl (ce_env ce)) rawSig)) (\<lambda>parsedSig.
           (let closeSigned = \<lparr>cls_ChannelID = cidOf c1, cls_FeeSatoshis = f, cls_Signature = parsedSig, cls_ExtraData = []\<rparr>
            in (c1\<lparr>priorFeeOffers := (priorFeeOffers c1)(f \<mapsto> closeSigned)\<rparr>, Inr closeSigned)))))"

fun mapSigs :: "('a \<Rightarrow> 'b option) \<Rightarrow> 'a list \<Rightarrow> close_error + 'b list" where
  "mapSigs conv [] = Inr []"
| "mapSigs conv (s # ss) = sbind (of_opt MalformedSig (conv s)) (\<lambda>x. sbind (mapSigs conv ss) (\<lambda>xs. Inr (x # xs)))"

definition obSimpelSendProposeCloseSigned ::
    "'pk CloseEnv \<Rightarrow> SatAmount \<Rightarrow> Sig list \<Rightarrow> 'pk ChanCloser \<Rightarrow> ('pk, ObClosingSignedSimpleSend) closing" where
  "obSimpelSendProposeCloseSigned ce f rSigs c =
     ctry c (mapSigs (sl_ToSignature (env_sl (ce_env ce))) rSigs) (\<lambda>remoteSigs.
     ctry c (Ob_AssetCreateCloseProposal (ce_env ce) (ce_lib ce) (cc_channel c) f (localDeliveryScript c)
               (remoteDeliveryScript c) remoteSigs)
       (\<lambda>(ch, rawSigs, sigEnd, _, _).
       (let c1 = c\<lparr>cc_channel := ch, lastFeeProposal := f\<rparr>
        in ctry c1 (mapSigs (sl_NewSigFromSignature (env_sl (ce_env ce))) rawSigs) (\<lambda>sigs.
           (let closeSigned = \<lparr>ocs_ChannelID = cidOf c1, ocs_FeeSatoshis = f, ocs_Signatures = sigs, ocs_ExtraData = [],
                               ocs_SigEnd = sigEnd\<rparr>
            in (c1\<lparr>obSimpleSendPriorFeeOffers := (obSimpleSendPriorFeeOffers c1)(f \<mapsto> closeSigned)\<rparr>, Inr closeSigned))))))"

definition proposeIdeal :: "'pk CloseEnv \<Rightarrow> 'pk ChanCloser \<Rightarrow> ('pk, CloseMsg) closing" where
  "proposeIdeal ce c = cbind (proposeCloseSigned ce (idealFeeSat c) c) (\<lambda>c1 m. (c1, Inr (MsgClosingSigned m)))"

definition obProposeIdeal :: "'pk CloseEnv \<Rightarrow> 'pk ChanCloser \<Rightarrow> ('pk, CloseMsg) closing" where
  "obProposeIdeal ce c =
     cbind (obSimpelSendProposeCloseSigned ce (idealFeeSat c) [] c) (\<lambda>c1 m. (c1, Inr (MsgObClosingSignedSimpleSend m)))"

subsection \<open>Messages\<close>

text \<open>
  The two handlers treat a shutdown alike, up to the messages they send: \<open>init\<close> is the own shutdown,
  \<open>propose\<close> the first offer.
\<close>

definition onIdle ::
    "'pk CloseEnv \<Rightarrow> ('pk ChanCloser \<Rightarrow> ('pk, CloseMsg) closing) \<Rightarrow> ('pk ChanCloser \<Rightarrow> ('pk, CloseMsg) closing) \<Rightarrow> bytes
       \<Rightarrow> 'pk ChanCloser \<Rightarrow> ('pk, CloseMsg list \<times> bool) closing" where
  "onIdle ce init propose address c =
     (let chanInitiator = IsInitiator (stateOf (cc_channel c))
      in ctry c (if chanInitiator then Inr ()
                 else sbind (AbsoluteThawHeight (cc_channel c)) (\<lambda>thaw.
                        checkThat (\<not> negotiationHeight c < thaw) (FrozenChannel (negotiationHeight c) thaw))) (\<lambda>_.
         cbind (maybeMatchScript ce (RemoteShutdownScript (stateOf (cc_channel c))) address c) (\<lambda>c1 _.
         cbind (init (c1\<lparr>remoteDeliveryScript := address\<rparr>)) (\<lambda>c2 localShutdown.
         (let c3 = c2\<lparr>cc_state := closeFeeNegotiation\<rparr>
          in if chanInitiator
             then cbind (propose c3) (\<lambda>c4 closeSigned. (c4, Inr ([localShutdown, closeSigned], False)))
             else (c3, Inr ([localShutdown], False)))))))"

definition onShutdownInitiated ::
    "'pk CloseEnv \<Rightarrow> ('pk ChanCloser \<Rightarrow> ('pk, CloseMsg) closing) \<Rightarrow> bytes \<Rightarrow> 'pk ChanCloser \<Rightarrow> ('pk, CloseMsg list \<times> bool) closing" where
  "onShutdownInitiated ce propose address c =
     cbind (maybeMatchScript ce (RemoteShutdownScript (stateOf (cc_channel c))) address c) (\<lambda>c1 _.
     (let c2 = c1\<lparr>remoteDeliveryScript := address, cc_state := closeFeeNegotiation\<rparr>
      in if IsInitiator (stateOf (cc_channel c2))
         then cbind (propose c2) (\<lambda>c3 closeSigned. (c3, Inr ([closeSigned], False)))
         else (c2, Inr ([], False))))"

definition broadcast :: "'pk CloseEnv \<Rightarrow> SignedTx \<Rightarrow> 'pk ChanCloser \<Rightarrow> ('pk, unit) closing" where
  "broadcast ce tx c = (noteEvent (Broadcasted tx) c, checkThat (ce_BroadcastTx ce tx) BroadcastFailed)"

text \<open>The fee is agreed on. The offer is one of ours, so it is in the map.\<close>

definition finishClose :: "'pk CloseEnv \<Rightarrow> ClosingSigned \<Rightarrow> 'pk ChanCloser \<Rightarrow> ('pk, CloseMsg list \<times> bool) closing" where
  "finishClose ce closeSignedMsg c =
     (let remoteProposedFee = cls_FeeSatoshis closeSignedMsg; toSig = sl_ToSignature (env_sl (ce_env ce))
      in ctry c (of_opt IndexOutOfRange (priorFeeOffers c remoteProposedFee)) (\<lambda>matchingOffer.
         ctry c (of_opt MalformedSig (toSig (cls_Signature matchingOffer))) (\<lambda>localSig.
         ctry c (of_opt MalformedSig (toSig (cls_Signature closeSignedMsg))) (\<lambda>remoteSig.
         ctry c (CompleteCooperativeClose (ce_env ce) (ce_lib ce) (cc_channel c) localSig remoteSig
                   (localDeliveryScript c) (remoteDeliveryScript c) remoteProposedFee) (\<lambda>(ch, closeTx, _).
         cbind (markClosing ce (Some closeTx) (c\<lparr>cc_channel := ch, closingTx := Some closeTx\<rparr>)) (\<lambda>c1 _.
         cbind (broadcast ce closeTx c1) (\<lambda>c2 _.
           (c2\<lparr>cc_state := closeFinished\<rparr>, Inr ([MsgClosingSigned matchingOffer], True)))))))))"

definition onClosingSigned :: "'pk CloseEnv \<Rightarrow> ClosingSigned \<Rightarrow> 'pk ChanCloser \<Rightarrow> ('pk, CloseMsg list \<times> bool) closing" where
  "onClosingSigned ce closeSignedMsg c =
     (let remoteProposedFee = cls_FeeSatoshis closeSignedMsg
      in if priorFeeOffers c remoteProposedFee = None then
           (let feeProposal = calcCompromiseFee (idealFeeSat c) (lastFeeProposal c) remoteProposedFee
            in cbind (proposeCloseSigned ce feeProposal c) (\<lambda>c1 closeSigned.
               if feeProposal \<noteq> remoteProposedFee then (c1, Inr ([MsgClosingSigned closeSigned], False))
               else finishClose ce closeSignedMsg c1))
         else finishClose ce closeSignedMsg c)"

definition ProcessCloseMsg :: "'pk CloseEnv \<Rightarrow> CloseMsg \<Rightarrow> 'pk ChanCloser \<Rightarrow> ('pk, CloseMsg list \<times> bool) closing" where
  "ProcessCloseMsg ce msg c =
     (case (cc_state c, msg) of
        (closeIdle, MsgShutdown m) \<Rightarrow> onIdle ce (initChanShutdown ce) (proposeIdeal ce) (sd_Address m) c
      | (closeShutdownInitiated, MsgShutdown m) \<Rightarrow> onShutdownInitiated ce (proposeIdeal ce) (sd_Address m) c
      | (closeFeeNegotiation, MsgClosingSigned m) \<Rightarrow> onClosingSigned ce m c
      | (closeFinished, MsgClosingSigned m) \<Rightarrow> (c, Inr ([], True))
      | _ \<Rightarrow> (c, Inl UnexpectedMessage))"

subsection \<open>Messages of a simple-send close\<close>

text \<open>The transaction that is shown to the user: the one that pays us, if there are two.\<close>

definition shownTx :: "bytes \<Rightarrow> SignedTx \<Rightarrow> SignedTx \<Rightarrow> SignedTx" where
  "shownTx script tx1 tx2 =
     (if fst (FindScriptOutputIndex (fst tx1) script) then tx1
      else if tx_TxIn (fst tx2) \<noteq> [] then tx2 else tx1)"

definition obFinishClose ::
    "'pk CloseEnv \<Rightarrow> ObClosingSignedSimpleSend \<Rightarrow> 'pk ChanCloser \<Rightarrow> ('pk, CloseMsg list \<times> bool) closing" where
  "obFinishClose ce closeSignedMsg c =
     (let remoteProposedFee = ocs_FeeSatoshis closeSignedMsg; toSig = sl_ToSignature (env_sl (ce_env ce))
      in ctry c (of_opt IndexOutOfRange (obSimpleSendPriorFeeOffers c remoteProposedFee)) (\<lambda>matchingOffer.
         ctry c (mapSigs toSig (ocs_Signatures matchingOffer)) (\<lambda>localSigs.
         ctry c (mapSigs toSig (ocs_Signatures closeSignedMsg)) (\<lambda>remoteSigs.
         ctry c (OB_AssetCompleteCooperativeClose (ce_env ce) (ce_lib ce) (cc_channel c) localSigs remoteSigs
                   (localDeliveryScript c) (remoteDeliveryScript c) remoteProposedFee) (\<lambda>(ch, closeTx1, closeTx2, _).
         cbind (markClosing ce (Some closeTx1)
                  (c\<lparr>cc_channel := ch, closingTx := Some (shownTx (localDeliveryScript c) closeTx1 closeTx2)\<rparr>)) (\<lambda>c1 _.
         cbind (broadcast ce closeTx1 c1) (\<lambda>c2 _.
         cbind (if tx_TxIn (fst closeTx2) \<noteq> [] then broadcast ce closeTx2 c2 else (c2, Inr ())) (\<lambda>c3 _.
           (c3\<lparr>cc_state := closeFinished\<rparr>, Inr ([MsgObClosingSignedSimpleSend matchingOffer], True))))))))))"

definition onObClosingSigned ::
    "'pk CloseEnv \<Rightarrow> ObClosingSignedSimpleSend \<Rightarrow> 'pk ChanCloser \<Rightarrow> ('pk, CloseMsg list \<times> bool) closing" where
  "onObClosingSigned ce closeSignedMsg c =
     (let remoteProposedFee = ocs_FeeSatoshis closeSignedMsg
      in if (case obSimpleSendPriorFeeOffers c remoteProposedFee of None \<Rightarrow> True | Some prePropose \<Rightarrow> \<not> ocs_SigEnd prePropose) then
           (let feeProposal = calcCompromiseFee (idealFeeSat c) (lastFeeProposal c) remoteProposedFee
            in cbind (obSimpelSendProposeCloseSigned ce feeProposal (ocs_Signatures closeSignedMsg) c) (\<lambda>c1 closeSigned.
               if feeProposal \<noteq> remoteProposedFee then (c1, Inr ([MsgObClosingSignedSimpleSend closeSigned], False))
               else if \<not> ocs_SigEnd closeSigned then (c1, Inr ([MsgObClosingSignedSimpleSend closeSigned], False))
               else obFinishClose ce closeSignedMsg c1))
         else obFinishClose ce closeSignedMsg c)"

definition OB_ProcessCloseMsg :: "'pk CloseEnv \<Rightarrow> CloseMsg \<Rightarrow> 'pk ChanCloser \<Rightarrow> ('pk, CloseMsg list \<times> bool) closing" where
  "OB_ProcessCloseMsg ce msg c =
     (case (cc_state c, msg) of
        (closeIdle, MsgObShutdownSimpleSend m) \<Rightarrow>
          onIdle ce (obSimpleSendInitChanShutdown ce) (obProposeIdeal ce) (osd_Address m) c
      | (closeShutdownInitiated, MsgObShutdownSimpleSend m) \<Rightarrow> onShutdownInitiated ce (obProposeIdeal ce) (osd_Address m) c
      | (closeFeeNegotiation, MsgObClosingSignedSimpleSend m) \<Rightarrow> onObClosingSigned ce m c
      | (closeFinished, MsgObClosingSignedSimpleSend m) \<Rightarrow> (c, Inr ([], True))
      | _ \<Rightarrow> (c, Inl UnexpectedMessage))"

end
