(* ===== verification/Close_Negotiation.thy ===== *)
theory Close_Negotiation
  imports Chan_Closer
begin

text \<open>
  Two closers of the same channel finish. The negotiation of the fee is first a game of two parties
  with a rule for the next offer (locale \<open>fee_rule\<close>), which ends because the gap between the last
  offers shrinks; \<open>calcCompromiseFee\<close> is such a rule. The closers then play that game: from the first
  shutdown on, their messages lead both to the same signed transaction.
\<close>

section \<open>The fee rule\<close>

text \<open>A party of a negotiation: its ideal fee, the fee it offered last, and all fees it offered.\<close>

record Haggler =
  hg_ideal :: SatAmount
  hg_last :: SatAmount
  hg_offers :: "SatAmount set"

definition makeOffer :: "SatAmount \<Rightarrow> Haggler \<Rightarrow> Haggler" where
  "makeOffer f h = h\<lparr>hg_last := f, hg_offers := insert f (hg_offers h)\<rparr>"

text \<open>
  The negotiation with the last offer of \<open>s\<close> on its way to \<open>r\<close>: it is accepted when \<open>r\<close> has made the
  same offer or its rule settles on it; otherwise \<open>r\<close> makes the offer that its rule gives. No offer
  leaves the interval from \<open>l\<close> to \<open>u\<close>.
\<close>

inductive agree :: "(SatAmount \<Rightarrow> SatAmount \<Rightarrow> SatAmount \<Rightarrow> SatAmount) \<Rightarrow> nat \<Rightarrow> nat \<Rightarrow> Haggler \<Rightarrow> Haggler \<Rightarrow> SatAmount \<Rightarrow> bool"
  for rule :: "SatAmount \<Rightarrow> SatAmount \<Rightarrow> SatAmount \<Rightarrow> SatAmount" and l u :: nat where
  offered: "hg_last s \<in> hg_offers r \<Longrightarrow> l \<le> unat (hg_last s) \<Longrightarrow> unat (hg_last s) \<le> u \<Longrightarrow> agree rule l u s r (hg_last s)"
| accepted: "hg_last s \<notin> hg_offers r \<Longrightarrow> rule (hg_ideal r) (hg_last r) (hg_last s) = hg_last s \<Longrightarrow>
    l \<le> unat (hg_last s) \<Longrightarrow> unat (hg_last s) \<le> u \<Longrightarrow> agree rule l u s r (hg_last s)"
| countered: "hg_last s \<notin> hg_offers r \<Longrightarrow> rule (hg_ideal r) (hg_last r) (hg_last s) = p \<Longrightarrow> p \<noteq> hg_last s \<Longrightarrow>
    l \<le> unat p \<Longrightarrow> unat p \<le> u \<Longrightarrow> agree rule l u (makeOffer p r) s f \<Longrightarrow> agree rule l u s r f"

lemma agree_between: "agree rule l u s r f \<Longrightarrow> l \<le> unat f \<and> unat f \<le> u"
  by (induction rule: agree.induct) auto

text \<open>
  What a fee rule promises between \<open>lo\<close> and \<open>hi\<close>: the first offer is the ideal fee; later, faced with an
  offer that is not the ideal fee, it accepts it or moves strictly towards it without reaching it.
\<close>

locale fee_rule =
  fixes rule :: "SatAmount \<Rightarrow> SatAmount \<Rightarrow> SatAmount \<Rightarrow> SatAmount"
    and lo hi :: nat
  assumes first: "rule ideal 0 remote = ideal"
    and lower: "\<lbrakk>ideal \<noteq> remote; lo \<le> unat remote; unat remote < unat prev; unat prev \<le> hi\<rbrakk> \<Longrightarrow>
      rule ideal prev remote = remote
      \<or> unat remote < unat (rule ideal prev remote) \<and> unat (rule ideal prev remote) < unat prev"
    and raise: "\<lbrakk>ideal \<noteq> remote; lo \<le> unat prev; unat prev < unat remote; unat remote \<le> hi\<rbrakk> \<Longrightarrow>
      rule ideal prev remote = remote
      \<or> unat prev < unat (rule ideal prev remote) \<and> unat (rule ideal prev remote) < unat remote"
begin

text \<open>Both parties have made their offers from opposite sides, and there is a gap between the last ones.\<close>

definition apart :: "nat \<Rightarrow> nat \<Rightarrow> Haggler \<Rightarrow> Haggler \<Rightarrow> bool" where
  "apart l u low high \<longleftrightarrow> l \<le> unat (hg_last low) \<and> unat (hg_last low) < unat (hg_last high) \<and> unat (hg_last high) \<le> u
     \<and> hg_ideal low \<in> hg_offers low \<and> hg_ideal high \<in> hg_offers high
     \<and> (\<forall>f \<in> hg_offers low. unat f \<le> unat (hg_last low)) \<and> (\<forall>f \<in> hg_offers high. unat (hg_last high) \<le> unat f)"

lemma apart_agree:
  assumes "lo \<le> l" and "u \<le> hi"
  shows "apart l u low high \<Longrightarrow> (\<exists>f. agree rule l u low high f) \<and> (\<exists>f. agree rule l u high low f)"
proof (induction "unat (hg_last high) - unat (hg_last low)" arbitrary: low high rule: less_induct)
  case less
  note a = less.prems [unfolded apart_def]
  have new: "hg_last low \<notin> hg_offers high" "hg_last high \<notin> hg_offers low" using a by (auto simp: not_le)
  then have ideal: "hg_ideal high \<noteq> hg_last low" "hg_ideal low \<noteq> hg_last high" using a by auto
  have range: "lo \<le> unat (hg_last low)" "unat (hg_last high) \<le> hi" using a assms by linarith+
  have "\<exists>f. agree rule l u low high f"
  proof -
    let ?p = "rule (hg_ideal high) (hg_last high) (hg_last low)"
    consider "?p = hg_last low" | "unat (hg_last low) < unat ?p" "unat ?p < unat (hg_last high)"
      using lower [OF ideal(1)] a range by blast
    then show ?thesis
    proof cases
      case 1
      then show ?thesis using agree.accepted [where rule = rule and l = l and u = u, OF new(1) 1] a by auto
    next
      case 2
      have "apart l u low (makeOffer ?p high)" using a 2 by (auto simp: apart_def makeOffer_def)
      moreover have "unat (hg_last (makeOffer ?p high)) - unat (hg_last low) < unat (hg_last high) - unat (hg_last low)"
        using 2 by (simp add: makeOffer_def)
      ultimately have "\<exists>f. agree rule l u (makeOffer ?p high) low f" using less.hyps by blast
      moreover have "?p \<noteq> hg_last low" "l \<le> unat ?p" "unat ?p \<le> u" using 2 a by auto
      ultimately show ?thesis using agree.countered [where rule = rule, OF new(1) refl] by blast
    qed
  qed
  moreover have "\<exists>f. agree rule l u high low f"
  proof -
    let ?p = "rule (hg_ideal low) (hg_last low) (hg_last high)"
    consider "?p = hg_last high" | "unat (hg_last low) < unat ?p" "unat ?p < unat (hg_last high)"
      using raise [OF ideal(2)] a range by blast
    then show ?thesis
    proof cases
      case 1
      then show ?thesis using agree.accepted [where rule = rule and l = l and u = u, OF new(2) 1] a by auto
    next
      case 2
      have "apart l u (makeOffer ?p low) high" using a 2 by (auto simp: apart_def makeOffer_def)
      moreover have "unat (hg_last high) - unat (hg_last (makeOffer ?p low)) < unat (hg_last high) - unat (hg_last low)"
        using 2 by (simp add: makeOffer_def)
      ultimately have "\<exists>f. agree rule l u (makeOffer ?p low) high f" using less.hyps by blast
      moreover have "?p \<noteq> hg_last high" "l \<le> unat ?p" "unat ?p \<le> u" using 2 a by auto
      ultimately show ?thesis using agree.countered [where rule = rule, OF new(2) refl] by blast
    qed
  qed
  ultimately show ?case ..
qed

text \<open>A negotiation that starts with the ideal fee of one party ends.\<close>

lemma negotiation_ends:
  assumes "lo \<le> l" "u \<le> hi" and "l \<le> unat i" "unat i \<le> u" "l \<le> unat j" "unat j \<le> u"
  shows "\<exists>f. agree rule l u \<lparr>hg_ideal = i, hg_last = i, hg_offers = {i}\<rparr> \<lparr>hg_ideal = j, hg_last = 0, hg_offers = {}\<rparr> f"
proof (cases "i = j")
  case True
  then show ?thesis
    using assms first agree.accepted [of "\<lparr>hg_ideal = i, hg_last = i, hg_offers = {i}\<rparr>" "\<lparr>hg_ideal = j, hg_last = 0, hg_offers = {}\<rparr>" rule]
    by (intro exI [of _ i]) simp
next
  case False
  let ?s = "\<lparr>hg_ideal = i, hg_last = i, hg_offers = {i}\<rparr>" and ?r = "\<lparr>hg_ideal = j, hg_last = j, hg_offers = {j}\<rparr>"
  have "unat i < unat j \<or> unat j < unat i" using False by (metis linorder_neqE_nat word_unat_eq_iff)
  then have "apart l u ?s ?r \<or> apart l u ?r ?s" using assms by (auto simp: apart_def)
  then obtain f where "agree rule l u ?r ?s f" using apart_agree [OF assms(1,2)] by blast
  moreover have "makeOffer j \<lparr>hg_ideal = j, hg_last = 0, hg_offers = {}\<rparr> = ?r" by (simp add: makeOffer_def)
  ultimately show ?thesis
    using False first assms agree.countered [of ?s "\<lparr>hg_ideal = j, hg_last = 0, hg_offers = {}\<rparr>" rule j l u f] by auto
qed

end

subsection \<open>The rule of the code\<close>

lemma unat_small: "unat (a :: u64) < 2 ^ 60 \<Longrightarrow> unat a < 2 ^ 63"
  by simp

lemma i64_less_nat: "unat a < 2 ^ 63 \<Longrightarrow> unat b < 2 ^ 63 \<Longrightarrow> i64_less a b \<longleftrightarrow> unat a < unat b"
  unfolding i64_less_def by (simp only: sint_unat of_nat_less_iff)

lemma fraction_nat:
  assumes "unat (f :: u64) < 2 ^ 60" and "k \<le> 3"
  shows "unat (i64_div (f * of_nat k) 10) = unat f * k div 10"
proof -
  have k: "unat (of_nat k :: u64) = k" using assms(2) by (simp add: unat_of_nat)
  have "unat f * 3 < 2 ^ 62" using assms(1) by simp
  with mult_le_mono2 [OF assms(2), of "unat f"] have b: "unat f * k < 2 ^ 62" by (rule le_less_trans)
  have "unat (f * of_nat k) = unat f * k" using b k unat_mult_lt [of f "of_nat k"] by simp
  then show ?thesis using b by (simp add: i64_div_nat)
qed

lemma ratchet_nat:
  assumes "unat f < 2 ^ 60"
  shows "unat (ratchetFee f up) = (if up then unat f + unat f div 10 else unat f - unat f div 10)"
proof -
  have t: "unat (i64_div (f * 1) 10) = unat f div 10" using fraction_nat [OF assms, of 1] by simp
  have "unat f + unat f div 10 < 2 ^ 64" using assms by simp
  then have "unat (f + i64_div (f * 1) 10) = unat f + unat f div 10" using unat_add_lt [of f "i64_div (f * 1) 10"] t by simp
  moreover have "unat (f - i64_div (f * 1) 10) = unat f - unat f div 10" using t by (simp add: unat_sub word_le_nat_alt)
  ultimately show ?thesis by (cases up) (simp_all only: ratchetFee_def if_True if_False)
qed

lemma acceptable_nat:
  assumes "unat l < 2 ^ 60" "unat r < 2 ^ 60"
  shows "feeInAcceptableRange l r \<longleftrightarrow>
     (if unat l < unat r then unat r \<le> unat l + unat l * 3 div 10 else unat l - unat l * 3 div 10 \<le> unat r)"
proof -
  have t: "unat (i64_div (l * 3) 10) = unat l * 3 div 10" using fraction_nat [OF assms(1), of 3] by simp
  have "unat l * 3 div 10 \<le> unat l" by simp
  then have u: "unat (l + i64_div (l * 3) 10) = unat l + unat l * 3 div 10" "unat (l - i64_div (l * 3) 10) = unat l - unat l * 3 div 10"
    using assms(1) t by (simp_all add: unat_add_lt unat_sub word_le_nat_alt)
  then have b: "unat (l + i64_div (l * 3) 10) < 2 ^ 63" "unat (l - i64_div (l * 3) 10) < 2 ^ 63" using assms(1) by simp_all
  show ?thesis
    unfolding feeInAcceptableRange_def i64_less_nat [OF unat_small unat_small, OF assms]
      i64_less_nat [OF b(1) unat_small, OF assms(2)] i64_less_nat [OF unat_small b(2), OF assms(2)] u
    by (simp add: not_less)
qed

text \<open>Below ten satoshis a tenth is nothing and an offer would not move; above \<open>2 ^ 60\<close> the products wrap.\<close>

interpretation code_rule: fee_rule calcCompromiseFee 10 "2 ^ 60 - 1"
proof
  fix ideal remote prev :: SatAmount
  show "calcCompromiseFee ideal 0 remote = ideal" by (simp add: calcCompromiseFee_def)
  show "calcCompromiseFee ideal prev remote = remote \<or>
      unat remote < unat (calcCompromiseFee ideal prev remote) \<and> unat (calcCompromiseFee ideal prev remote) < unat prev"
    if "ideal \<noteq> remote" "10 \<le> unat remote" "unat remote < unat prev" "unat prev \<le> 2 ^ 60 - 1"
  proof -
    have b: "unat prev < 2 ^ 60" "unat remote < 2 ^ 60" using that by simp_all
    have "i64_less remote prev" "prev \<noteq> 0" "remote \<noteq> prev"
      using that b by (auto simp: i64_less_nat)
    then show ?thesis
      using that acceptable_nat [OF b] ratchet_nat [OF b(1), of False] by (auto simp: calcCompromiseFee_def)
  qed
  show "calcCompromiseFee ideal prev remote = remote \<or>
      unat prev < unat (calcCompromiseFee ideal prev remote) \<and> unat (calcCompromiseFee ideal prev remote) < unat remote"
    if "ideal \<noteq> remote" "10 \<le> unat prev" "unat prev < unat remote" "unat remote \<le> 2 ^ 60 - 1"
  proof -
    have b: "unat prev < 2 ^ 60" "unat remote < 2 ^ 60" using that by simp_all
    have "\<not> i64_less remote prev" "i64_less prev remote" "prev \<noteq> 0" "remote \<noteq> prev"
      using that b by (auto simp: i64_less_nat)
    then show ?thesis
      using that acceptable_nat [OF b] ratchet_nat [OF b(1), of True] by (auto simp: calcCompromiseFee_def)
  qed
qed

section \<open>Closers follow the rule\<close>

text \<open>The part of a channel that the closing transaction depends on.\<close>

definition sameTerms :: "'pk Chan \<Rightarrow> 'pk Chan \<Rightarrow> bool" where
  "sameTerms x y \<longleftrightarrow> ch_lc x = ch_lc y \<and> ch_builder x = ch_builder y \<and> ch_signDesc x = ch_signDesc y
     \<and> ch_localKeys x = ch_localKeys y \<and> ch_remoteKeys x = ch_remoteKeys y"

definition openOn :: "'pk Chan \<Rightarrow> 'pk ClosingChannel" where
  "openOn x = \<lparr>lc_chan = x, lc_status = channelOpen, IsPending = False, db_coopCloseTx = None\<rparr>"

lemma terms_only:
  assumes "sameTerms (lc_chan ch) x"
  shows "coopCloseTx env cl ch f s t = coopCloseTx env cl (openOn x) f s t" "multiSigScript env cl ch l r = multiSigScript env cl (openOn x) l r"
    "ch_signDesc (lc_chan ch) = ch_signDesc x" "stateOf ch = stateOf (openOn x)"
  using assms by (auto simp: sameTerms_def openOn_def coopCloseTx_def multiSigScript_def stateOf_def fundingIn_def)

text \<open>A message with which the owner of the channel offers the fee: a signature of the closing transaction.\<close>

definition signsClose :: "'pk CloseEnv \<Rightarrow> 'pk Chan \<Rightarrow> MsgTx \<Rightarrow> bytes \<Rightarrow> Sig \<Rightarrow> bool" where
  "signsClose ce x tx raw sig \<longleftrightarrow> sl_SignOutputRaw (env_sl (ce_env ce)) (ch_signDesc x) tx = Some raw
     \<and> sl_NewSigFromSignature (env_sl (ce_env ce)) raw = Some sig \<and> sl_ToSignature (env_sl (ce_env ce)) sig = Some raw"

definition offerFor :: "'pk CloseEnv \<Rightarrow> 'pk Chan \<Rightarrow> bytes \<Rightarrow> bytes \<Rightarrow> SatAmount \<Rightarrow> ClosingSigned \<Rightarrow> bool" where
  "offerFor ce x s t f m \<longleftrightarrow> cls_FeeSatoshis m = f
     \<and> (\<exists>tx bal raw. coopCloseTx (ce_env ce) (ce_lib ce) (openOn x) f s t = Inr (tx, bal) \<and> signsClose ce x tx raw (cls_Signature m))"

text \<open>The transaction that both parties sign for a fee.\<close>

definition agreedTx :: "'pk CloseEnv \<Rightarrow> 'pk Chan \<Rightarrow> 'pk Chan \<Rightarrow> bytes \<Rightarrow> bytes \<Rightarrow> SatAmount \<Rightarrow> SignedTx \<Rightarrow> bool" where
  "agreedTx ce x y s t f closeTx \<longleftrightarrow>
     (\<exists>tx bal rx ry. coopCloseTx (ce_env ce) (ce_lib ce) (openOn x) f s t = Inr (tx, bal)
        \<and> sl_SignOutputRaw (env_sl (ce_env ce)) (ch_signDesc x) tx = Some rx
        \<and> sl_SignOutputRaw (env_sl (ce_env ce)) (ch_signDesc y) tx = Some ry
        \<and> closeTx = (tx, multiSigScript (ce_env ce) (ce_lib ce) (openOn x) rx ry))"

lemma agreedTx_unique: "agreedTx ce x y s t f a \<Longrightarrow> agreedTx ce x y s t f b \<Longrightarrow> a = b"
  by (auto simp: agreedTx_def)

text \<open>
  Two channels that can be closed for every fee from \<open>lo\<close> to \<open>hi\<close>: the channels are each other's mirror,
  the one who opened it can pay, the transactions are sane, both signers sign, signatures survive the
  wire, the engine accepts a transaction that both have signed, the database commits and the network
  takes the transaction.
\<close>

definition closable :: "'pk CloseEnv \<Rightarrow> nat \<Rightarrow> nat \<Rightarrow> 'pk Chan \<Rightarrow> 'pk Chan \<Rightarrow> bytes \<Rightarrow> bytes \<Rightarrow> bool" where
  "closable ce lo hi x y s t \<longleftrightarrow> canonicalOrder (ce_lib ce) \<and> mirrorChan (ce_env ce) x y
     \<and> (cs_AssetID (channelState (ch_lc x)) = 0 \<or> cs_AssetID (channelState (ch_lc x)) = BtcAssetId \<or> s \<noteq> t)
     \<and> env_dbCommits (ce_env ce) \<and> (\<forall>tx. ce_BroadcastTx ce tx)
     \<and> (\<forall>tx. \<exists>rx ry sx sy. signsClose ce x tx rx sx \<and> signsClose ce y tx ry sy
          \<and> cl_Execute (ce_lib ce) (sd_Output (ch_signDesc x)) (tx, multiSigScript (ce_env ce) (ce_lib ce) (openOn x) rx ry)
              (out_Value (sd_Output (ch_signDesc x))))
     \<and> (\<forall>f. lo \<le> unat f \<and> unat f \<le> hi \<longrightarrow> is_ok (coopCloseTx (ce_env ce) (ce_lib ce) (openOn x) f s t))"

lemma openOn_simps [simp]: "lc_chan (openOn x) = x" "stateOf (openOn x) = channelState (ch_lc x)" "lc_status (openOn x) = channelOpen"
  by (simp_all add: openOn_def stateOf_def)

lemma closable_tx:
  assumes "closable ce lo hi x y s t"
  shows "sbind (coopCloseTx (ce_env ce) (ce_lib ce) (openOn x) f s t) (\<lambda>(tx, _). Inr tx)
       = sbind (coopCloseTx (ce_env ce) (ce_lib ce) (openOn y) f t s) (\<lambda>(tx, _). Inr tx)"
  using assms by (intro coopCloseTx_mirror) (auto simp: closable_def)

lemma closable_tx_iff:
  assumes "closable ce lo hi x y s t"
  shows "(\<exists>b. coopCloseTx (ce_env ce) (ce_lib ce) (openOn y) f t s = Inr (tx, b))
     \<longleftrightarrow> (\<exists>b. coopCloseTx (ce_env ce) (ce_lib ce) (openOn x) f s t = Inr (tx, b))"
proof -
  have "sbind r (\<lambda>(tx, _). Inr tx) = Inr tx \<longleftrightarrow> (\<exists>b. r = Inr (tx, b))" for r :: "close_error + MsgTx \<times> SatAmount"
    by (auto simp: sbind_eq_Inr)
  then show ?thesis using closable_tx [OF assms, of f] by metis
qed

lemma closable_sym:
  assumes "closable ce lo hi x y s t"
  shows "closable ce lo hi y x t s"
proof -
  have m: "mirrorChan (ce_env ce) x y" using assms by (simp add: closable_def)
  have "multiSigScript (ce_env ce) cl (openOn y) ry rx = multiSigScript (ce_env ce) cl (openOn x) rx ry" for cl rx ry
    using multiSigScript_mirror [of "ce_env ce" "openOn x" "openOn y" cl rx ry] m by simp
  moreover have "is_ok (coopCloseTx (ce_env ce) (ce_lib ce) (openOn y) f t s)" if "lo \<le> unat f \<and> unat f \<le> hi" for f
  proof -
    have "is_ok (coopCloseTx (ce_env ce) (ce_lib ce) (openOn x) f s t)" using assms that by (simp add: closable_def)
    then obtain tx b where "coopCloseTx (ce_env ce) (ce_lib ce) (openOn x) f s t = Inr (tx, b)"
      by (cases "coopCloseTx (ce_env ce) (ce_lib ce) (openOn x) f s t") auto
    then show ?thesis using closable_tx_iff [OF assms, of f tx] by auto
  qed
  moreover have "sd_Output (ch_signDesc x) = sd_Output (ch_signDesc y)"
    "cs_AssetID (channelState (ch_lc x)) = cs_AssetID (channelState (ch_lc y))"
    using m by (simp_all add: mirrorChan_def mirrorState_def)
  ultimately show ?thesis
    using assms mirrorChan_sym [OF m] unfolding closable_def by metis
qed

lemma agreedTx_sym:
  assumes "closable ce lo hi x y s t" and "agreedTx ce x y s t f a"
  shows "agreedTx ce y x t s f a"
proof -
  have m: "mirrorChan (ce_env ce) x y" using assms by (simp add: closable_def)
  have "multiSigScript (ce_env ce) cl (openOn y) ry rx = multiSigScript (ce_env ce) cl (openOn x) rx ry" for cl rx ry
    using multiSigScript_mirror [of "ce_env ce" "openOn x" "openOn y" cl rx ry] m by simp
  then show ?thesis using assms(2) closable_tx_iff [OF assms(1)] unfolding agreedTx_def by metis
qed

text \<open>The closer of the channel \<open>x\<close> is in the negotiation at the point of the party \<open>h\<close>.\<close>

definition plays :: "'pk CloseEnv \<Rightarrow> 'pk Chan \<Rightarrow> bytes \<Rightarrow> bytes \<Rightarrow> Haggler \<Rightarrow> 'pk ChanCloser \<Rightarrow> bool" where
  "plays ce x s t h c \<longleftrightarrow> sameTerms (lc_chan (cc_channel c)) x \<and> lc_status (cc_channel c) \<noteq> channelClosed
     \<and> cc_state c = closeFeeNegotiation \<and> localDeliveryScript c = s \<and> remoteDeliveryScript c = t
     \<and> idealFeeSat c = hg_ideal h \<and> lastFeeProposal c = hg_last h \<and> dom (priorFeeOffers c) = hg_offers h
     \<and> (\<forall>f m. priorFeeOffers c f = Some m \<longrightarrow> offerFor ce x s t f m)"

text \<open>The closer is done: it holds, has stored and has broadcast the transaction.\<close>

definition closedWith :: "SignedTx \<Rightarrow> 'pk ChanCloser \<Rightarrow> bool" where
  "closedWith tx c \<longleftrightarrow> cc_state c = closeFinished \<and> closingTx c = Some tx \<and> db_coopCloseTx (cc_channel c) = Some tx
     \<and> lc_status (cc_channel c) = channelClosed \<and> (\<exists>es. cc_events c = es @ [CoopMarked (Some tx), Broadcasted tx])"

lemmas closing_defs = ctry_def cbind_def of_opt_def checkThat_def noteEvent_def

lemma propose_plays:
  assumes "closable ce lo hi x y s t" and p: "plays ce x s t h c" and f: "lo \<le> unat f" "unat f \<le> hi"
  shows "\<exists>c' m. proposeCloseSigned ce f c = (c', Inr m) \<and> offerFor ce x s t f m \<and> plays ce x s t (makeOffer f h) c'
     \<and> priorFeeOffers c' = (priorFeeOffers c)(f \<mapsto> m)"
proof -
  have "is_ok (coopCloseTx (ce_env ce) (ce_lib ce) (openOn x) f s t)" using assms by (simp add: closable_def)
  then obtain tx b where tx: "coopCloseTx (ce_env ce) (ce_lib ce) (openOn x) f s t = Inr (tx, b)"
    by (cases "coopCloseTx (ce_env ce) (ce_lib ce) (openOn x) f s t") auto
  obtain raw sig where sig: "signsClose ce x tx raw sig" using assms(1) unfolding closable_def by metis
  let ?m = "\<lparr>cls_ChannelID = cidOf c, cls_FeeSatoshis = f, cls_Signature = sig, cls_ExtraData = []\<rparr>"
  let ?c = "c\<lparr>cc_channel := (cc_channel c)\<lparr>lc_status := channelClosing\<rparr>, lastFeeProposal := f,
    priorFeeOffers := (priorFeeOffers c)(f \<mapsto> ?m)\<rparr>"
  have o: "offerFor ce x s t f ?m" using tx sig by (auto simp: offerFor_def)
  have "proposeCloseSigned ce f c = (?c, Inr ?m)"
    using p tx sig terms_only [of "cc_channel c" x]
    by (simp add: proposeCloseSigned_def CreateCloseProposal_def plays_def closing_defs signsClose_def cidOf_def Let_def)
  moreover have "plays ce x s t (makeOffer f h) ?c" using p o by (auto simp: plays_def makeOffer_def)
  ultimately show ?thesis using o by (intro exI [of _ ?c] exI [of _ ?m]) simp
qed

lemma finish_plays:
  assumes cl: "closable ce lo hi x y s t" and p: "plays ce x s t h c" and f: "f \<in> hg_offers h"
    and m: "offerFor ce y t s f m"
  shows "\<exists>c' m' tx. finishClose ce m c = (c', Inr ([MsgClosingSigned m'], True)) \<and> offerFor ce x s t f m'
     \<and> agreedTx ce x y s t f tx \<and> closedWith tx c'"
proof -
  have "f \<in> dom (priorFeeOffers c)" using p f by (simp add: plays_def)
  then obtain m' where m'1: "priorFeeOffers c f = Some m'" by blast
  moreover have "offerFor ce x s t f m'" using p m'1 by (simp add: plays_def)
  ultimately have m': "priorFeeOffers c f = Some m'" "offerFor ce x s t f m'" .
  then obtain tx b rx where tx: "coopCloseTx (ce_env ce) (ce_lib ce) (openOn x) f s t = Inr (tx, b)"
      and rx: "signsClose ce x tx rx (cls_Signature m')" by (auto simp: offerFor_def)
  obtain ry where ry: "signsClose ce y tx ry (cls_Signature m)" and fee: "cls_FeeSatoshis m = f"
    using m closable_tx_iff [OF cl, of f] tx by (auto simp: offerFor_def) 
  let ?tx = "(tx, multiSigScript (ce_env ce) (ce_lib ce) (openOn x) rx ry)" and ?out = "sd_Output (ch_signDesc x)"
  have ex: "cl_Execute (ce_lib ce) ?out ?tx (out_Value ?out)"
  proof -
    obtain rx' ry' sx sy where "signsClose ce x tx rx' sx" "signsClose ce y tx ry' sy"
        "cl_Execute (ce_lib ce) ?out (tx, multiSigScript (ce_env ce) (ce_lib ce) (openOn x) rx' ry') (out_Value ?out)"
      using cl unfolding closable_def by metis
    then show ?thesis using rx ry by (auto simp: signsClose_def)
  qed
  have e: "env_dbCommits (ce_env ce)" "ce_BroadcastTx ce ?tx" using cl by (simp_all add: closable_def)
  have "agreedTx ce x y s t f ?tx" using tx rx ry by (auto simp: agreedTx_def signsClose_def)
  moreover have "\<exists>c'. finishClose ce m c = (c', Inr ([MsgClosingSigned m'], True)) \<and> closedWith ?tx c'"
    using p tx rx ry ex e m'(1) fee terms_only [of "cc_channel c" x]
    by (simp add: finishClose_def CompleteCooperativeClose_def plays_def closing_defs signsClose_def closedWith_def
        markClosing_def MarkCoopBroadcasted_def putChanStatus_def broadcast_def Let_def)
  ultimately show ?thesis using m'(2) by blast
qed

section \<open>A conversation of two closers\<close>

text \<open>
  The peer of a closer delivers its messages one by one; an error ends the close. \<open>exchange\<close> lets two
  closers answer each other until no message is left; the messages go to \<open>r\<close> first. It is \<open>None\<close> when a
  closer fails, or when messages are left after \<open>n\<close> turns.
\<close>

fun deliver :: "'pk CloseEnv \<Rightarrow> CloseMsg list \<Rightarrow> 'pk ChanCloser \<Rightarrow> ('pk, CloseMsg list) closing" where
  "deliver ce [] c = (c, Inr [])"
| "deliver ce (m # ms) c =
     cbind (ProcessCloseMsg ce m c) (\<lambda>c1 (out, _). cbind (deliver ce ms c1) (\<lambda>c2 outs. (c2, Inr (out @ outs))))"

fun exchange :: "'pk CloseEnv \<Rightarrow> nat \<Rightarrow> 'pk ChanCloser \<Rightarrow> 'pk ChanCloser \<Rightarrow> CloseMsg list \<Rightarrow> ('pk ChanCloser \<times> 'pk ChanCloser) option" where
  "exchange ce n s r [] = Some (s, r)"
| "exchange ce 0 s r (m # ms) = None"
| "exchange ce (Suc n) s r (m # ms) =
     (case deliver ce (m # ms) r of
        (_, Inl _) \<Rightarrow> None
      | (r', Inr out) \<Rightarrow> map_option prod.swap (exchange ce n r' s out))"

lemma exchange_more: "exchange ce n s r ms = Some p \<Longrightarrow> n \<le> k \<Longrightarrow> exchange ce k s r ms = Some p"
proof (induction ce n s r ms arbitrary: k p rule: exchange.induct)
  case (3 ce n s r m ms)
  then obtain k' where k: "k = Suc k'" "n \<le> k'" by (cases k) auto
  obtain r' res where d: "deliver ce (m # ms) r = (r', res)" by (rule prod.exhaust)
  with "3.prems"(1) obtain out where out: "res = Inr out" by (cases res) auto
  then obtain q where q: "exchange ce n r' s out = Some q" "p = prod.swap q" using "3.prems"(1) d by auto
  then have "exchange ce k' r' s out = Some q" using "3.IH" [OF d [symmetric] out] k(2) by blast
  then show ?case using q(2) d out k(1) by (simp del: deliver.simps)
qed simp_all

lemma exchange_one:
  "ProcessCloseMsg ce m r = (r', Inr (out, b)) \<Longrightarrow> exchange ce n r' s out = Some (x, y) \<Longrightarrow> exchange ce (Suc n) s r [m] = Some (y, x)"
  by (simp add: cbind_def)

lemma finished_quiet: "cc_state c = closeFinished \<Longrightarrow> exchange ce (Suc 0) d c [MsgClosingSigned m] = Some (d, c)"
  by (simp add: ProcessCloseMsg_def cbind_def)

text \<open>An offer that the receiver accepts: it finishes, its answer finishes the sender, and the echo is ignored.\<close>

lemma accepted_closes:
  assumes cl: "closable ce lo hi x y s t" and d: "plays ce x s t hx d" and m: "offerFor ce x s t f m" and f: "f \<in> hg_offers hx"
    and c: "plays ce y t s hc c" and a: "ProcessCloseMsg ce (MsgClosingSigned m) c = finishClose ce m c1"
    and c1: "plays ce y t s hc1 c1" "f \<in> hg_offers hc1"
  shows "\<exists>n d' c' tx. exchange ce n d c [MsgClosingSigned m] = Some (d', c') \<and> agreedTx ce x y s t f tx \<and> closedWith tx d' \<and> closedWith tx c'"
proof -
  obtain c' m' tx where c': "finishClose ce m c1 = (c', Inr ([MsgClosingSigned m'], True))" "offerFor ce y t s f m'"
      "agreedTx ce y x t s f tx" "closedWith tx c'"
    using finish_plays [OF closable_sym [OF cl] c1 m] by blast
  obtain d' m'' tx' where d': "finishClose ce m' d = (d', Inr ([MsgClosingSigned m''], True))"
      "agreedTx ce x y s t f tx'" "closedWith tx' d'"
    using finish_plays [OF cl d f c'(2)] by blast
  have "tx' = tx" using agreedTx_unique [OF d'(2) agreedTx_sym [OF closable_sym [OF cl] c'(3)]] .
  have o: "f \<in> dom (priorFeeOffers d)" "cls_FeeSatoshis m' = f" "cc_state d = closeFeeNegotiation"
    using d f c'(2) by (auto simp: plays_def offerFor_def)
  then have "ProcessCloseMsg ce (MsgClosingSigned m') d = (d', Inr ([MsgClosingSigned m''], True))"
    using d'(1) by (auto simp: ProcessCloseMsg_def onClosingSigned_def Let_def)
  then have "exchange ce (Suc (Suc 0)) c' d [MsgClosingSigned m'] = Some (c', d')"
    using finished_quiet [of c' ce d' m''] c'(4) by (intro exchange_one) (auto simp: closedWith_def)
  then have "exchange ce (Suc (Suc (Suc 0))) d c [MsgClosingSigned m] = Some (d', c')"
    using a c'(1) by (intro exchange_one) auto
  then show ?thesis using d'(2,3) c'(4) \<open>tx' = tx\<close> by blast
qed

text \<open>The closers carry out the negotiation of the parties they play.\<close>

lemma negotiation_simulated:
  "\<lbrakk>agree calcCompromiseFee lo hi hs hr f; closable ce lo hi x y s t; plays ce x s t hs d; plays ce y t s hr c;
    hg_last hs \<in> hg_offers hs; offerFor ce x s t (hg_last hs) m\<rbrakk> \<Longrightarrow>
   \<exists>n d' c' tx. exchange ce n d c [MsgClosingSigned m] = Some (d', c') \<and> agreedTx ce x y s t f tx \<and> closedWith tx d' \<and> closedWith tx c'"
proof (induction hs hr f arbitrary: x y s t d c m rule: agree.induct)
  case (offered hs hr)
  have "hg_last hs \<in> dom (priorFeeOffers c)" "cls_FeeSatoshis m = hg_last hs" "cc_state c = closeFeeNegotiation"
    using offered by (auto simp: plays_def offerFor_def)
  then have "ProcessCloseMsg ce (MsgClosingSigned m) c = finishClose ce m c"
    by (auto simp: ProcessCloseMsg_def onClosingSigned_def Let_def)
  then show ?case using accepted_closes offered by metis
next
  case (accepted hs hr)
  obtain c1 m1 where c1: "proposeCloseSigned ce (hg_last hs) c = (c1, Inr m1)" "plays ce y t s (makeOffer (hg_last hs) hr) c1"
    using propose_plays [OF closable_sym [OF accepted.prems(1)] accepted.prems(3)] accepted.hyps by metis
  have "hg_last hs \<notin> dom (priorFeeOffers c)" "cls_FeeSatoshis m = hg_last hs" "cc_state c = closeFeeNegotiation"
      "idealFeeSat c = hg_ideal hr" "lastFeeProposal c = hg_last hr"
    using accepted by (auto simp: plays_def offerFor_def)
  then have "ProcessCloseMsg ce (MsgClosingSigned m) c = finishClose ce m c1"
    using c1(1) accepted.hyps by (auto simp: ProcessCloseMsg_def onClosingSigned_def Let_def cbind_def domIff)
  moreover have "hg_last hs \<in> hg_offers (makeOffer (hg_last hs) hr)" by (simp add: makeOffer_def)
  ultimately show ?case using accepted_closes [OF accepted.prems(1,2) accepted.prems(5,4,3) _ c1(2)] by blast
next
  case (countered hs hr p f)
  obtain c1 m1 where c1: "proposeCloseSigned ce p c = (c1, Inr m1)" "offerFor ce y t s p m1" "plays ce y t s (makeOffer p hr) c1"
    using propose_plays [OF closable_sym [OF countered.prems(1)] countered.prems(3)] countered.hyps by metis
  have "hg_last hs \<notin> dom (priorFeeOffers c)" "cls_FeeSatoshis m = hg_last hs" "cc_state c = closeFeeNegotiation"
      "idealFeeSat c = hg_ideal hr" "lastFeeProposal c = hg_last hr"
    using countered.hyps countered.prems by (auto simp: plays_def offerFor_def)
  then have "ProcessCloseMsg ce (MsgClosingSigned m) c = (c1, Inr ([MsgClosingSigned m1], False))"
    using c1(1) countered.hyps by (auto simp: ProcessCloseMsg_def onClosingSigned_def Let_def cbind_def domIff)
  moreover obtain n c' d' tx where "exchange ce n c1 d [MsgClosingSigned m1] = Some (c', d')" "agreedTx ce y x t s f tx"
      "closedWith tx c'" "closedWith tx d'"
    using countered.IH [OF closable_sym [OF countered.prems(1)] c1(3) countered.prems(2), of m1] c1(2)
    by (auto simp: makeOffer_def simp del: split_paired_Ex)
  ultimately show ?case
    using exchange_one agreedTx_sym [OF closable_sym [OF countered.prems(1)]] by blast
qed

section \<open>From shutdown to the closing transaction\<close>

definition idle :: "SatAmount \<Rightarrow> Haggler" where
  "idle i = \<lparr>hg_ideal = i, hg_last = 0, hg_offers = {}\<rparr>"

text \<open>A closer that has not made an offer.\<close>

definition unheard :: "closeState \<Rightarrow> 'pk ClosingChannel \<Rightarrow> bytes \<Rightarrow> SatAmount \<Rightarrow> 'pk ChanCloser \<Rightarrow> bool" where
  "unheard st ch s i c \<longleftrightarrow> sameTerms (lc_chan (cc_channel c)) (lc_chan ch) \<and> lc_status (cc_channel c) = lc_status ch \<and> cc_state c = st
     \<and> localDeliveryScript c = s \<and> idealFeeSat c = i \<and> lastFeeProposal c = 0 \<and> priorFeeOffers c = Map.empty"

lemma unheard_plays:
  "unheard closeFeeNegotiation ch s i c \<Longrightarrow> remoteDeliveryScript c = t \<Longrightarrow> lc_status ch \<noteq> channelClosed \<Longrightarrow>
     plays ce (lc_chan ch) s t (idle i) c"
  by (simp add: unheard_def plays_def idle_def)

lemma sameTerms_refl [simp]: "sameTerms x x"
  by (simp add: sameTerms_def)

lemma unheard_new: "unheard closeIdle ch s (idealFeeSat (NewChanCloser ch s rate h loc)) (NewChanCloser ch s rate h loc)"
  by (simp add: unheard_def NewChanCloser_def Let_def)

lemma init_unheard:
  assumes "env_dbCommits (ce_env ce)" and "unheard st ch s i c"
  shows "\<exists>c1 m. initChanShutdown ce c = (c1, Inr (MsgShutdown m)) \<and> sd_Address m = s \<and> unheard st ch s i c1
     \<and> remoteDeliveryScript c1 = remoteDeliveryScript c"
  using assms
  by (simp add: initChanShutdown_def initShutdown_def markClosing_def MarkCoopBroadcasted_def putChanStatus_def closing_defs
      unheard_def sameTerms_def Let_def)

lemma match_ok: "up = [] \<or> up = s \<Longrightarrow> maybeMatchScript ce up s c = (c, Inr ())"
  by (auto simp: maybeMatchScript_def)

lemma unheard_state: "unheard st ch s i c \<Longrightarrow> stateOf (cc_channel c) = stateOf ch"
  by (simp add: unheard_def sameTerms_def stateOf_def)

lemma first_offer:
  assumes cl: "closable ce lo hi (lc_chan ch) y s t" and u: "unheard closeFeeNegotiation ch s i c" "remoteDeliveryScript c = t"
    and "lc_status ch \<noteq> channelClosed" and "lo \<le> unat i" "unat i \<le> hi"
  shows "\<exists>c1 m. proposeIdeal ce c = (c1, Inr (MsgClosingSigned m)) \<and> offerFor ce (lc_chan ch) s t i m
     \<and> plays ce (lc_chan ch) s t \<lparr>hg_ideal = i, hg_last = i, hg_offers = {i}\<rparr> c1"
proof -
  have "makeOffer i (idle i) = \<lparr>hg_ideal = i, hg_last = i, hg_offers = {i}\<rparr>" by (simp add: makeOffer_def idle_def)
  then show ?thesis
    using propose_plays [OF cl unheard_plays [OF u assms(4)] assms(5,6)] u(1)
    by (auto simp: proposeIdeal_def cbind_def unheard_def)
qed

text \<open>The answer to a shutdown: our own shutdown, and the first offer if we opened the channel.\<close>

lemma shutdown_answered:
  assumes cl: "closable ce lo hi (lc_chan ch) y s t" and u: "unheard closeIdle ch s i c"
    and st: "lc_status ch \<noteq> channelClosed" and i: "lo \<le> unat i" "unat i \<le> hi"
    and up: "RemoteShutdownScript (stateOf ch) = [] \<or> RemoteShutdownScript (stateOf ch) = t"
    and thaw: "IsInitiator (stateOf ch) \<or> (\<exists>th. AbsoluteThawHeight (cc_channel c) = Inr th \<and> th \<le> negotiationHeight c)"
    and m: "sd_Address m = t"
  shows "\<exists>c1 m1. sd_Address m1 = s \<and>
     (if IsInitiator (stateOf ch)
      then \<exists>o1. ProcessCloseMsg ce (MsgShutdown m) c = (c1, Inr ([MsgShutdown m1, MsgClosingSigned o1], False))
        \<and> offerFor ce (lc_chan ch) s t i o1 \<and> plays ce (lc_chan ch) s t \<lparr>hg_ideal = i, hg_last = i, hg_offers = {i}\<rparr> c1
      else ProcessCloseMsg ce (MsgShutdown m) c = (c1, Inr ([MsgShutdown m1], False)) \<and> plays ce (lc_chan ch) s t (idle i) c1)"
proof -
  have db: "env_dbCommits (ce_env ce)" using cl by (simp add: closable_def)
  have "unheard closeIdle ch s i (c\<lparr>remoteDeliveryScript := t\<rparr>)" using u by (simp add: unheard_def)
  then obtain c2 m1 where c2: "initChanShutdown ce (c\<lparr>remoteDeliveryScript := t\<rparr>) = (c2, Inr (MsgShutdown m1))"
      "sd_Address m1 = s" "unheard closeIdle ch s i c2" "remoteDeliveryScript c2 = t"
    using init_unheard [OF db] by force
  let ?c3 = "c2\<lparr>cc_state := closeFeeNegotiation\<rparr>"
  have c3: "unheard closeFeeNegotiation ch s i ?c3" "remoteDeliveryScript ?c3 = t" using c2(3,4) by (simp_all add: unheard_def)
  have idleState: "cc_state c = closeIdle" using u by (simp add: unheard_def)
  have p: "ProcessCloseMsg ce (MsgShutdown m) c =
     (if IsInitiator (stateOf ch) then cbind (proposeIdeal ce ?c3) (\<lambda>c4 o1. (c4, Inr ([MsgShutdown m1, o1], False)))
      else (?c3, Inr ([MsgShutdown m1], False)))"
    using thaw up c2(1) m idleState
    by (auto simp: ProcessCloseMsg_def onIdle_def unheard_state [OF u] match_ok ctry_def cbind_def checkThat_def not_less Let_def)
  show ?thesis
  proof (cases "IsInitiator (stateOf ch)")
    case True
    then show ?thesis using p first_offer [OF cl c3 st i] c2(2) by (fastforce simp: cbind_def)
  next
    case False
    then show ?thesis using p unheard_plays [OF c3 st] c2(2) by auto
  qed
qed

text \<open>The other side, once its shutdown is answered.\<close>

lemma shutdown_received:
  assumes cl: "closable ce lo hi (lc_chan ch) y s t" and u: "unheard closeShutdownInitiated ch s i c"
    and st: "lc_status ch \<noteq> channelClosed" and i: "lo \<le> unat i" "unat i \<le> hi"
    and up: "RemoteShutdownScript (stateOf ch) = [] \<or> RemoteShutdownScript (stateOf ch) = t" and m: "sd_Address m = t"
  shows "\<exists>c1. if IsInitiator (stateOf ch)
     then \<exists>o1. ProcessCloseMsg ce (MsgShutdown m) c = (c1, Inr ([MsgClosingSigned o1], False))
        \<and> offerFor ce (lc_chan ch) s t i o1 \<and> plays ce (lc_chan ch) s t \<lparr>hg_ideal = i, hg_last = i, hg_offers = {i}\<rparr> c1
     else ProcessCloseMsg ce (MsgShutdown m) c = (c1, Inr ([], False)) \<and> plays ce (lc_chan ch) s t (idle i) c1"
proof -
  let ?c1 = "c\<lparr>remoteDeliveryScript := t, cc_state := closeFeeNegotiation\<rparr>"
  have c1: "unheard closeFeeNegotiation ch s i ?c1" "remoteDeliveryScript ?c1 = t" using u by (simp_all add: unheard_def)
  have p: "ProcessCloseMsg ce (MsgShutdown m) c =
     (if IsInitiator (stateOf ch) then cbind (proposeIdeal ce ?c1) (\<lambda>c2 o1. (c2, Inr ([o1], False))) else (?c1, Inr ([], False)))"
    using up m u by (auto simp: ProcessCloseMsg_def onShutdownInitiated_def unheard_state [OF u] match_ok cbind_def unheard_def Let_def)
  show ?thesis
  proof (cases "IsInitiator (stateOf ch)")
    case True
    then show ?thesis using p first_offer [OF cl c1 st i] by (fastforce simp: cbind_def)
  next
    case False
    then show ?thesis using p unheard_plays [OF c1 st] by auto
  qed
qed

lemma exchange_silent:
  "ProcessCloseMsg ce m r = (r', Inr ([], b)) \<Longrightarrow> exchange ce n s r' (m2 # ms) = Some p \<Longrightarrow> exchange ce n s r (m # m2 # ms) = Some p"
  by (cases n) (auto simp: cbind_def split: prod.splits sum.splits)

lemma conversation_ends:
  assumes cl: "closable ce lo hi (lc_chan chA) (lc_chan chB) sA sB" and lim: "10 \<le> lo" "hi < 2 ^ 60"
    and st: "lc_status chA \<noteq> channelClosed" "lc_status chB \<noteq> channelClosed"
    and up: "RemoteShutdownScript (stateOf chA) = [] \<or> RemoteShutdownScript (stateOf chA) = sB"
      "RemoteShutdownScript (stateOf chB) = [] \<or> RemoteShutdownScript (stateOf chB) = sA"
    and a: "unheard closeShutdownInitiated chA sA i a" "lo \<le> unat i" "unat i \<le> hi"
    and b: "unheard closeIdle chB sB j b" "lo \<le> unat j" "unat j \<le> hi"
    and thaw: "IsInitiator (stateOf chB) \<or> (\<exists>th. AbsoluteThawHeight (cc_channel b) = Inr th \<and> th \<le> negotiationHeight b)"
    and m: "sd_Address m = sA"
  shows "\<exists>n a' b' f tx. exchange ce n a b [MsgShutdown m] = Some (a', b') \<and> lo \<le> unat f \<and> unat f \<le> hi
     \<and> agreedTx ce (lc_chan chA) (lc_chan chB) sA sB f tx \<and> closedWith tx a' \<and> closedWith tx b'"
proof -
  note cl' = closable_sym [OF cl]
  have ini: "IsInitiator (stateOf chA) \<longleftrightarrow> \<not> IsInitiator (stateOf chB)"
    using cl by (auto simp: closable_def mirrorChan_def mirrorState_def stateOf_def)
  have hi: "hi \<le> 2 ^ 60 - 1" using lim(2) by simp
  obtain b1 mB where B: "sd_Address mB = sB"
      "if IsInitiator (stateOf chB)
       then \<exists>o1. ProcessCloseMsg ce (MsgShutdown m) b = (b1, Inr ([MsgShutdown mB, MsgClosingSigned o1], False))
         \<and> offerFor ce (lc_chan chB) sB sA j o1 \<and> plays ce (lc_chan chB) sB sA \<lparr>hg_ideal = j, hg_last = j, hg_offers = {j}\<rparr> b1
       else ProcessCloseMsg ce (MsgShutdown m) b = (b1, Inr ([MsgShutdown mB], False)) \<and> plays ce (lc_chan chB) sB sA (idle j) b1"
    using shutdown_answered [OF cl' b(1) st(2) b(2,3) up(2) thaw m] by blast
  obtain a1 where A: "if IsInitiator (stateOf chA)
       then \<exists>o1. ProcessCloseMsg ce (MsgShutdown mB) a = (a1, Inr ([MsgClosingSigned o1], False))
         \<and> offerFor ce (lc_chan chA) sA sB i o1 \<and> plays ce (lc_chan chA) sA sB \<lparr>hg_ideal = i, hg_last = i, hg_offers = {i}\<rparr> a1
       else ProcessCloseMsg ce (MsgShutdown mB) a = (a1, Inr ([], False)) \<and> plays ce (lc_chan chA) sA sB (idle i) a1"
    using shutdown_received [OF cl a(1) st(1) a(2,3) up(1) B(1)] by blast
  show ?thesis
  proof (cases "IsInitiator (stateOf chA)")
    case True
    with A B(2) ini obtain o1 where s: "ProcessCloseMsg ce (MsgShutdown m) b = (b1, Inr ([MsgShutdown mB], False))"
        "ProcessCloseMsg ce (MsgShutdown mB) a = (a1, Inr ([MsgClosingSigned o1], False))" "offerFor ce (lc_chan chA) sA sB i o1"
        "plays ce (lc_chan chA) sA sB \<lparr>hg_ideal = i, hg_last = i, hg_offers = {i}\<rparr> a1" "plays ce (lc_chan chB) sB sA (idle j) b1"
      by auto
    obtain f where f: "agree calcCompromiseFee lo hi \<lparr>hg_ideal = i, hg_last = i, hg_offers = {i}\<rparr> (idle j) f"
      using code_rule.negotiation_ends [OF lim(1) hi a(2,3) b(2,3)] by (auto simp: idle_def)
    obtain n a' b' tx where "exchange ce n a1 b1 [MsgClosingSigned o1] = Some (a', b')"
        "agreedTx ce (lc_chan chA) (lc_chan chB) sA sB f tx" "closedWith tx a'" "closedWith tx b'"
      using negotiation_simulated [OF f cl s(4,5), of o1] s(3) by auto
    moreover from this(1) have "exchange ce (Suc (Suc n)) a b [MsgShutdown m] = Some (a', b')"
      using exchange_one s(1,2) by metis
    ultimately show ?thesis using agree_between [OF f] by blast
  next
    case False
    with A B(2) ini obtain o1 where s: "ProcessCloseMsg ce (MsgShutdown m) b = (b1, Inr ([MsgShutdown mB, MsgClosingSigned o1], False))"
        "offerFor ce (lc_chan chB) sB sA j o1" "plays ce (lc_chan chB) sB sA \<lparr>hg_ideal = j, hg_last = j, hg_offers = {j}\<rparr> b1"
        "ProcessCloseMsg ce (MsgShutdown mB) a = (a1, Inr ([], False))" "plays ce (lc_chan chA) sA sB (idle i) a1"
      by auto
    obtain f where f: "agree calcCompromiseFee lo hi \<lparr>hg_ideal = j, hg_last = j, hg_offers = {j}\<rparr> (idle i) f"
      using code_rule.negotiation_ends [OF lim(1) hi b(2,3) a(2,3)] by (auto simp: idle_def)
    obtain n a' b' tx where n: "exchange ce n b1 a1 [MsgClosingSigned o1] = Some (b', a')"
        "agreedTx ce (lc_chan chB) (lc_chan chA) sB sA f tx" "closedWith tx a'" "closedWith tx b'"
      using negotiation_simulated [OF f cl' s(3,5), of o1] s(2) by auto
    then have "exchange ce (Suc n) a b [MsgShutdown m] = Some (a', b')"
      using exchange_one [OF s(1)] exchange_silent [OF s(4)] by metis
    then show ?thesis using agree_between [OF f] n agreedTx_sym [OF cl' n(2)] by blast
  qed
qed

section \<open>Properties\<close>

text \<open>
  C6. A cooperative close of a bitcoin channel completes. Two closers, one of which starts the
  shutdown, answer each other's messages until none is left: after finitely many turns both are
  finished, with the same transaction, for a fee between the two ideal fees, which both parties have
  signed, stored and broadcast. The ideal fees are at least ten satoshis and at most \<open>hi\<close>.
\<close>

theorem cooperative_close_completes:
  assumes "a = NewChanCloser chA sA rateA heightA True" and "b = NewChanCloser chB sB rateB heightB False"
    and cl: "closable ce lo hi (lc_chan chA) (lc_chan chB) sA sB" and lim: "10 \<le> lo" "hi < 2 ^ 60"
    and st: "lc_status chA \<noteq> channelClosed" "lc_status chB \<noteq> channelClosed"
    and up: "RemoteShutdownScript (stateOf chA) = [] \<or> RemoteShutdownScript (stateOf chA) = sB"
      "RemoteShutdownScript (stateOf chB) = [] \<or> RemoteShutdownScript (stateOf chB) = sA"
    and thaw: "IsInitiator (stateOf chB) \<or> (\<exists>th. AbsoluteThawHeight chB = Inr th \<and> th \<le> heightB)"
    and i: "lo \<le> unat (idealFeeSat a)" "unat (idealFeeSat a) \<le> hi" "lo \<le> unat (idealFeeSat b)" "unat (idealFeeSat b) \<le> hi"
  shows "\<exists>a1 m n a' b' f tx. ShutdownChan ce a = (a1, Inr m)
     \<and> (\<forall>k \<ge> n. exchange ce k a1 b [m] = Some (a', b')) \<and> lo \<le> unat f \<and> unat f \<le> hi
     \<and> agreedTx ce (lc_chan chA) (lc_chan chB) sA sB f tx \<and> closedWith tx a' \<and> closedWith tx b'"
proof -
  have db: "env_dbCommits (ce_env ce)" using cl by (simp add: closable_def)
  have u: "unheard closeIdle chA sA (idealFeeSat a) a" "unheard closeIdle chB sB (idealFeeSat b) b"
    using unheard_new assms(1,2) by metis+
  obtain a1 m where a1: "initChanShutdown ce a = (a1, Inr (MsgShutdown m))" "sd_Address m = sA" "unheard closeIdle chA sA (idealFeeSat a) a1"
    using init_unheard [OF db u(1)] by blast
  let ?a = "a1\<lparr>cc_state := closeShutdownInitiated\<rparr>"
  have a: "ShutdownChan ce a = (?a, Inr (MsgShutdown m))" "unheard closeShutdownInitiated chA sA (idealFeeSat a) ?a"
    using a1 u(1) by (simp_all add: ShutdownChan_def startShutdown_def cbind_def unheard_def)
  have "cc_channel b = chB" "negotiationHeight b = heightB" using assms(2) by (simp_all add: NewChanCloser_def Let_def)
  then have th: "IsInitiator (stateOf chB) \<or> (\<exists>th. AbsoluteThawHeight (cc_channel b) = Inr th \<and> th \<le> negotiationHeight b)"
    using thaw by simp
  obtain n a' b' f tx where n: "exchange ce n ?a b [MsgShutdown m] = Some (a', b')" "lo \<le> unat f" "unat f \<le> hi"
      "agreedTx ce (lc_chan chA) (lc_chan chB) sA sB f tx" "closedWith tx a'" "closedWith tx b'"
    using conversation_ends [OF cl lim st up a(2) i(1,2) u(2) i(3,4) th a1(2)] by blast
  have "\<forall>k \<ge> n. exchange ce k ?a b [MsgShutdown m] = Some (a', b')" using exchange_more [OF n(1)] by blast
  with a(1) n show ?thesis by blast
qed

definition twoCloseEnv :: "bool CloseEnv" where
  "twoCloseEnv = \<lparr>ce_env = twoEnv, ce_lib = closeLib, ce_Disconnect = True, ce_BroadcastTx = (\<lambda>_. True)\<rparr>"

lemma coopCloseTx_ok:
  "lib_CheckTransactionSanity (env_lib env) = (\<lambda>tx. tx_TxIn tx \<noteq> []) \<Longrightarrow>
   (\<And>tx. tx_TxIn (cl_InPlaceSort cl tx) = tx_TxIn tx) \<Longrightarrow>
   is_ok (coopCloseTx env cl ch f s t) \<longleftrightarrow> CoopCloseBalance (IsInitiator (stateOf ch)) f (LocalCommitment (stateOf ch)) \<noteq> None"
proof -
  assume l: "lib_CheckTransactionSanity (env_lib env) = (\<lambda>tx. tx_TxIn tx \<noteq> [])" "\<And>tx. tx_TxIn (cl_InPlaceSort cl tx) = tx_TxIn tx"
  have "tx_TxIn (withOpReturn p) = tx_TxIn (fst p)" for p
    by (auto simp: withOpReturn_def AddOpReturnToTx_def sbind_def split: sum.splits if_splits)
  then show ?thesis
    using l by (auto simp: coopCloseTx_def of_opt_def closeTx_unfold checkThat_def Let_def split: option.splits)
qed

lemma two_closable:
  "hi \<le> 1000 \<Longrightarrow> closable twoCloseEnv lo hi (lc_chan (sideOf 0 True (twoCommit 600000000 399000000 0 0)))
     (lc_chan (sideOf 0 False (twoCommit 399000000 600000000 0 0))) [8] [9]"
  (is "_ \<Longrightarrow> closable _ _ _ (lc_chan ?a) (lc_chan ?b) _ _")
proof -
  assume hi: "hi \<le> 1000"
  have "is_ok (coopCloseTx twoEnv closeLib (openOn (lc_chan ?a)) f [8] [9])" if "unat f \<le> 1000" for f
  proof -
    have "ToSatoshis 600000000 + (1000 - f) = 601000 - f" "ToSatoshis 399000000 = 399000" by (simp_all add: ToSatoshis_def mSatScale_def)
    moreover have "\<not> i64_less (601000 - f) 0"
    proof -
      have "unat (601000 - f) = 601000 - unat f" using that by (simp add: unat_sub word_le_nat_alt)
      then show ?thesis unfolding i64_less_def using sint_unat [of "601000 - f"] by simp
    qed
    moreover have "\<not> i64_less 399000 0" by (simp add: i64_less_def)
    ultimately show ?thesis
      by (simp add: coopCloseTx_ok twoEnv_def twoScripts_def closeLib_def CoopCloseBalance_def twoCommit_def)
  qed
  moreover have "\<exists>rx ry sx sy. signsClose twoCloseEnv (lc_chan ?a) tx rx sx \<and> signsClose twoCloseEnv (lc_chan ?b) tx ry sy
      \<and> cl_Execute closeLib out (tx, multiSigScript twoEnv closeLib (openOn (lc_chan ?a)) rx ry) v" for tx out v
    by (simp add: signsClose_def twoCloseEnv_def twoEnv_def twoSigs_def closeLib_def multiSigScript_def SpendMultiSigWithoutW_def
        sideOf_def keysOf_def twoKeys_def twoOfTwo_def OP_FALSE_def SigHashAll_def Let_def)
  ultimately show ?thesis
    using sides_mirror [of 0 True] closeLib_canonical hi
    by (simp add: closable_def twoCloseEnv_def twoEnv_def [THEN arg_cong [of _ _ env_dbCommits]] sampleState_def)
qed

theorem cooperative_close_completes_witness:
  "let chA = sideOf 0 True (twoCommit 600000000 399000000 0 0); chB = sideOf 0 False (twoCommit 399000000 600000000 0 0);
       a = NewChanCloser chA [8] 253 700000 True; b = NewChanCloser chB [9] 400 700000 False
   in idealFeeSat a = 183 \<and> idealFeeSat b = 289
     \<and> (\<exists>a1 m n a' b' f tx. ShutdownChan twoCloseEnv a = (a1, Inr m)
          \<and> (\<forall>k \<ge> n. exchange twoCloseEnv k a1 b [m] = Some (a', b')) \<and> 183 \<le> unat f \<and> unat f \<le> 289
          \<and> agreedTx twoCloseEnv (lc_chan chA) (lc_chan chB) [8] [9] f tx \<and> closedWith tx a' \<and> closedWith tx b')"
proof -
  let ?chA = "sideOf 0 True (twoCommit 600000000 399000000 0 0)" and ?chB = "sideOf 0 False (twoCommit 399000000 600000000 0 0)"
  let ?a = "NewChanCloser ?chA [8] 253 700000 True" and ?b = "NewChanCloser ?chB [9] 400 700000 False"
  have i: "idealFeeSat ?a = 183" "idealFeeSat ?b = 289" by code_simp+
  have th: "AbsoluteThawHeight ?chB = Inr 0" by code_simp
  have up: "RemoteShutdownScript (stateOf ?chA) = []" "RemoteShutdownScript (stateOf ?chB) = []" by (simp_all add: sampleState_def)
  have c: "closable twoCloseEnv 183 289 (lc_chan ?chA) (lc_chan ?chB) [8] [9]" by (rule two_closable) simp
  have b: "(10 :: nat) \<le> 183" "(289 :: nat) < 2 ^ 60" "lc_status ?chA \<noteq> channelClosed" "lc_status ?chB \<noteq> channelClosed"
    "IsInitiator (stateOf ?chB) \<or> (\<exists>th. AbsoluteThawHeight ?chB = Inr th \<and> th \<le> 700000)"
    "183 \<le> unat (idealFeeSat ?a)" "unat (idealFeeSat ?a) \<le> 289" "183 \<le> unat (idealFeeSat ?b)" "unat (idealFeeSat ?b) \<le> 289"
    using i th by simp_all
  show ?thesis
    unfolding Let_def
    using cooperative_close_completes [OF refl refl c b(1-4) disjI1 [OF up(1)] disjI1 [OF up(2)] b(5-9)] i by blast
qed

text \<open>
  Below ten satoshis the rule of the code is not a fee rule: an offer does not move. With the ideal fees
  one and nine no fee is ever agreed on.
\<close>

lemma small_fees_stuck: "calcCompromiseFee 1 1 9 = 1" "calcCompromiseFee 9 9 1 = 9" "calcCompromiseFee 9 0 1 = 9"
  by code_simp+

definition stuckOn :: "SatAmount \<Rightarrow> Haggler \<Rightarrow> bool" where
  "stuckOn i h \<longleftrightarrow> hg_ideal h = i \<and> (hg_last h = i \<and> hg_offers h = {i} \<or> hg_last h = 0 \<and> hg_offers h = {})"

lemma small_fees_never_agree:
  assumes "agree calcCompromiseFee l u s r f"
  shows "\<not> (hg_last s = 1 \<and> stuckOn 1 s \<and> stuckOn 9 r) \<and> \<not> (hg_last s = 9 \<and> stuckOn 9 s \<and> stuckOn 1 r \<and> hg_last r = 1)"
  using assms
proof (induction rule: agree.induct)
  case (countered s r p f)
  then show ?case by (auto simp: stuckOn_def makeOffer_def small_fees_stuck)
qed (auto simp: stuckOn_def small_fees_stuck)

end
