(* ===== verification/Close_Safety.thy ===== *)
theory Close_Safety
  imports Close_Negotiation
begin

text \<open>
  What a closer does when the peer is not honest, and when the parties disagree. A closer of a bitcoin
  channel is a step system (\<open>closer_step\<close>) whose invariant bounds what it may broadcast; the simple-send
  close of an asset channel has two faults that its handler of offers shows.
\<close>

section \<open>What a closer broadcasts\<close>

text \<open>
  A closer is started, or receives any message whatsoever. Neither the order of the messages nor
  their signatures are restricted, and an operation may fail.
\<close>

inductive closer_step :: "'pk CloseEnv \<Rightarrow> 'pk ChanCloser \<Rightarrow> 'pk ChanCloser \<Rightarrow> bool" for ce where
  start: "ShutdownChan ce c = (c', r) \<Longrightarrow> closer_step ce c c'"
| message: "ProcessCloseMsg ce m c = (c', r) \<Longrightarrow> closer_step ce c c'"

fun preparing :: "CloseEvent \<Rightarrow> bool" where
  "preparing (Broadcasted tx) = False"
| "preparing (CoopMarked (Some tx)) = False"
| "preparing e = True"

text \<open>A transaction for a fee that the closer itself has offered, accepted by the script engine.\<close>

definition properClose :: "'pk CloseEnv \<Rightarrow> 'pk ChanCloser \<Rightarrow> SignedTx \<Rightarrow> bool" where
  "properClose ce c tx \<longleftrightarrow>
     (\<exists>f bal. f \<in> dom (priorFeeOffers c)
        \<and> coopCloseTx (ce_env ce) (ce_lib ce) (cc_channel c) f (localDeliveryScript c) (remoteDeliveryScript c) = Inr (fst tx, bal))
     \<and> (let out = sd_Output (ch_signDesc (lc_chan (cc_channel c))) in cl_Execute (ce_lib ce) out tx (out_Value out))"

definition not_agreed :: "'pk ChanCloser \<Rightarrow> bool" where
  "not_agreed c \<longleftrightarrow> lc_status (cc_channel c) \<noteq> channelClosed \<and> cc_state c \<noteq> closeFinished \<and> closingTx c = None
     \<and> (\<forall>e \<in> set (cc_events c). preparing e)"

definition agreedOn :: "'pk CloseEnv \<Rightarrow> SignedTx \<Rightarrow> 'pk ChanCloser \<Rightarrow> bool" where
  "agreedOn ce tx c \<longleftrightarrow> lc_status (cc_channel c) = channelClosed \<and> cc_state c \<in> {closeFeeNegotiation, closeFinished}
     \<and> closingTx c = Some tx \<and> properClose ce c tx
     \<and> (\<exists>es. (\<forall>e \<in> set es. preparing e)
          \<and> (cc_events c = es \<and> cc_state c \<noteq> closeFinished
             \<or> cc_events c = es @ [CoopMarked (Some tx)] \<and> cc_state c \<noteq> closeFinished \<and> db_coopCloseTx (cc_channel c) = Some tx
             \<or> cc_events c = es @ [CoopMarked (Some tx), Broadcasted tx] \<and> db_coopCloseTx (cc_channel c) = Some tx))"

definition closer_inv :: "'pk CloseEnv \<Rightarrow> 'pk ChanCloser \<Rightarrow> bool" where
  "closer_inv ce c \<longleftrightarrow> not_agreed c \<or> (\<exists>tx. agreedOn ce tx c)"

lemma propose_not_agreed:
  "not_agreed c \<Longrightarrow> proposeCloseSigned ce f c = (c', r) \<Longrightarrow>
     not_agreed c' \<and> cc_state c' = cc_state c \<and> localDeliveryScript c' = localDeliveryScript c \<and> remoteDeliveryScript c' = remoteDeliveryScript c"
  by (auto simp: proposeCloseSigned_def CreateCloseProposal_def ctry_def sbind_eq_Inr not_agreed_def Let_def split: sum.splits if_splits prod.splits)

lemma propose_closed: "lc_status (cc_channel c) = channelClosed \<Longrightarrow> proposeCloseSigned ce f c = (c, Inl ErrChanClosing)"
  by (simp add: proposeCloseSigned_def CreateCloseProposal_def ctry_def)

lemma mark_none_not_agreed:
  "not_agreed c \<Longrightarrow> initChanShutdown ce c = (c', r) \<Longrightarrow> not_agreed c' \<and> cc_state c' = cc_state c"
  by (auto simp: initChanShutdown_def initShutdown_def markClosing_def MarkCoopBroadcasted_def putChanStatus_def closing_defs
      not_agreed_def Let_def split: if_splits)

lemma match_not_agreed:
  "not_agreed c \<Longrightarrow> maybeMatchScript ce up s c = (c', r) \<Longrightarrow> not_agreed c' \<and> cc_state c' = cc_state c"
  by (auto simp: maybeMatchScript_def noteEvent_def not_agreed_def split: if_splits)

lemma finish_closed: "lc_status (cc_channel c) = channelClosed \<Longrightarrow> \<exists>e. finishClose ce m c = (c, Inl e)"
  by (auto simp: finishClose_def CompleteCooperativeClose_def ctry_def Let_def split: sum.splits)

lemma finish_inv:
  assumes "not_agreed c" and "cc_state c = closeFeeNegotiation" and "finishClose ce m c = (c', r)"
  shows "closer_inv ce c'"
proof (cases "c' = c")
  case True
  then show ?thesis using assms(1) by (simp add: closer_inv_def)
next
  case False
  let ?f = "cls_FeeSatoshis m" and ?out = "sd_Output (ch_signDesc (lc_chan (cc_channel c)))"
  from False assms(3) obtain offer l r' ch tx bal where s: "priorFeeOffers c ?f = Some offer"
      "CompleteCooperativeClose (ce_env ce) (ce_lib ce) (cc_channel c) l r' (localDeliveryScript c) (remoteDeliveryScript c) ?f = Inr (ch, tx, bal)"
      "(c', r) = cbind (markClosing ce (Some tx) (c\<lparr>cc_channel := ch, closingTx := Some tx\<rparr>)) (\<lambda>c1 _.
         cbind (broadcast ce tx c1) (\<lambda>c2 _. (c2\<lparr>cc_state := closeFinished\<rparr>, Inr ([MsgClosingSigned offer], True))))"
    by (auto simp: finishClose_def ctry_def of_opt_def Let_def split: sum.splits option.splits)
  have ch: "ch = (cc_channel c)\<lparr>lc_status := channelClosed\<rparr>" "cl_Execute (ce_lib ce) ?out tx (out_Value ?out)"
      "\<exists>b. coopCloseTx (ce_env ce) (ce_lib ce) (cc_channel c) ?f (localDeliveryScript c) (remoteDeliveryScript c) = Inr (fst tx, b)"
    using s(2) by (auto simp: CompleteCooperativeClose_def sbind_eq_Inr checkThat_def Let_def split: if_splits)
  have "agreedOn ce tx c'"
    using s(1,3) ch assms(1,2)
    by (auto simp: markClosing_def MarkCoopBroadcasted_def putChanStatus_def closing_defs broadcast_def agreedOn_def not_agreed_def
        properClose_def coopCloseTx_def stateOf_def fundingIn_def Let_def split: if_splits)
  then show ?thesis unfolding closer_inv_def by blast
qed

lemma closing_signed_inv:
  assumes "not_agreed c" and "cc_state c = closeFeeNegotiation" and "onClosingSigned ce m c = (c', r)"
  shows "closer_inv ce c'"
proof (cases "priorFeeOffers c (cls_FeeSatoshis m) = None")
  case True
  let ?p = "calcCompromiseFee (idealFeeSat c) (lastFeeProposal c) (cls_FeeSatoshis m)"
  obtain c1 q where q: "proposeCloseSigned ce ?p c = (c1, q)" by (rule prod.exhaust)
  then have c1: "not_agreed c1" "cc_state c1 = closeFeeNegotiation" using propose_not_agreed [OF assms(1) q] assms(2) by auto
  then have "closer_inv ce c1" by (simp add: closer_inv_def)
  moreover have "c' = c1 \<or> finishClose ce m c1 = (c', r)"
    using assms(3) True q by (cases q) (auto simp: onClosingSigned_def cbind_def Let_def split: if_splits)
  ultimately show ?thesis using finish_inv [OF c1] by blast
next
  case False
  then show ?thesis using assms finish_inv by (auto simp: onClosingSigned_def Let_def)
qed

lemma closing_signed_closed:
  "lc_status (cc_channel c) = channelClosed \<Longrightarrow> \<exists>e. onClosingSigned ce m c = (c, Inl e)"
  using finish_closed [of c ce m] by (auto simp: onClosingSigned_def propose_closed cbind_def Let_def)

lemma ideal_not_agreed: "not_agreed c \<Longrightarrow> proposeIdeal ce c = (c', r) \<Longrightarrow> not_agreed c'"
  by (auto simp: proposeIdeal_def cbind_def split: prod.splits sum.splits dest: propose_not_agreed)

lemma idle_not_agreed:
  assumes "not_agreed c" and "onIdle ce (initChanShutdown ce) (proposeIdeal ce) s c = (c', r)"
  shows "not_agreed c'"
proof -
  obtain c1 q1 where 1: "maybeMatchScript ce (RemoteShutdownScript (stateOf (cc_channel c))) s c = (c1, q1)" by (rule prod.exhaust)
  obtain c2 q2 where 2: "initChanShutdown ce (c1\<lparr>remoteDeliveryScript := s\<rparr>) = (c2, q2)" by (rule prod.exhaust)
  obtain c4 q4 where 4: "proposeIdeal ce (c2\<lparr>cc_state := closeFeeNegotiation\<rparr>) = (c4, q4)" by (rule prod.exhaust)
  have n1: "not_agreed c1" using match_not_agreed [OF assms(1) 1] by simp
  then have n2: "not_agreed c2" using mark_none_not_agreed [OF _ 2] by (simp add: not_agreed_def)
  then have n3: "not_agreed (c2\<lparr>cc_state := closeFeeNegotiation\<rparr>)" by (simp add: not_agreed_def)
  then have n4: "not_agreed c4" using ideal_not_agreed [OF _ 4] by blast
  have "c' \<in> {c, c1, c2, c2\<lparr>cc_state := closeFeeNegotiation\<rparr>, c4}"
    using assms(2) 1 2 4 unfolding onIdle_def cbind_def ctry_def Let_def by (auto split: sum.splits if_splits)
  then show ?thesis using assms(1) n1 n2 n3 n4 by auto
qed

lemma initiated_not_agreed:
  assumes "not_agreed c" and "onShutdownInitiated ce (proposeIdeal ce) s c = (c', r)"
  shows "not_agreed c'"
proof -
  obtain c1 q1 where 1: "maybeMatchScript ce (RemoteShutdownScript (stateOf (cc_channel c))) s c = (c1, q1)" by (rule prod.exhaust)
  let ?c2 = "c1\<lparr>remoteDeliveryScript := s, cc_state := closeFeeNegotiation\<rparr>"
  obtain c3 q3 where 3: "proposeIdeal ce ?c2 = (c3, q3)" by (rule prod.exhaust)
  have n1: "not_agreed c1" using match_not_agreed [OF assms(1) 1] by simp
  then have n2: "not_agreed ?c2" by (simp add: not_agreed_def)
  then have n3: "not_agreed c3" using ideal_not_agreed [OF _ 3] by blast
  have "c' \<in> {c1, ?c2, c3}"
    using assms(2) 1 3 unfolding onShutdownInitiated_def cbind_def Let_def by (auto split: sum.splits if_splits)
  then show ?thesis using n1 n2 n3 by auto
qed

lemma process_inv:
  assumes "closer_inv ce c" and p: "ProcessCloseMsg ce m c = (c', r)"
  shows "closer_inv ce c'"
proof (cases "not_agreed c")
  case True
  have "c' = c \<or> (\<exists>s. onIdle ce (initChanShutdown ce) (proposeIdeal ce) s c = (c', r))
      \<or> (\<exists>s. onShutdownInitiated ce (proposeIdeal ce) s c = (c', r))
      \<or> cc_state c = closeFeeNegotiation \<and> (\<exists>m. onClosingSigned ce m c = (c', r))"
    using p by (cases "cc_state c"; cases m) (auto simp: ProcessCloseMsg_def)
  then show ?thesis
    using assms(1) idle_not_agreed [OF True] initiated_not_agreed [OF True] closing_signed_inv [OF True]
    unfolding closer_inv_def by blast
next
  case False
  then have a: "lc_status (cc_channel c) = channelClosed" "cc_state c \<in> {closeFeeNegotiation, closeFinished}"
    using assms(1) unfolding closer_inv_def agreedOn_def by blast+
  then have "c' = c"
    using p closing_signed_closed [OF a(1), of ce] by (cases m) (auto simp: ProcessCloseMsg_def, metis prod.inject)
  with assms(1) show ?thesis by simp
qed

lemma shutdown_inv:
  assumes "closer_inv ce c" and p: "ShutdownChan ce c = (c', r)"
  shows "closer_inv ce c'"
proof (cases "cc_state c = closeIdle")
  case True
  then have n: "not_agreed c" using assms(1) by (auto simp: closer_inv_def agreedOn_def)
  obtain c1 q where q: "initChanShutdown ce c = (c1, q)" by (rule prod.exhaust)
  have "not_agreed c1" using mark_none_not_agreed [OF n q] by simp
  then have "not_agreed c'"
    using p q True by (cases q) (auto simp: ShutdownChan_def startShutdown_def cbind_def not_agreed_def)
  then show ?thesis by (simp add: closer_inv_def)
next
  case False
  with assms show ?thesis by (auto simp: ShutdownChan_def startShutdown_def)
qed

interpretation closer: invariant_system "closer_step ce" "closer_inv ce"
  by unfold_locales (auto elim!: closer_step.cases intro: shutdown_inv process_inv)

text \<open>
  C7. A closer broadcasts at most one transaction, and only a proper one. Whatever messages the peer
  sends, in whatever order: a transaction that is broadcast is the closing transaction for a fee that
  the closer itself has offered, between the delivery scripts of both parties; the script engine has
  accepted it; and it was stored, as the last thing done, before it was broadcast.
\<close>

theorem only_offered_fee_broadcast:
  assumes "(closer_step ce)\<^sup>*\<^sup>* (NewChanCloser ch s rate h loc) c" and "lc_status ch \<noteq> channelClosed"
    and "Broadcasted tx \<in> set (cc_events c)"
  shows "closingTx c = Some tx \<and> db_coopCloseTx (cc_channel c) = Some tx \<and> properClose ce c tx
     \<and> (\<exists>es. cc_events c = es @ [CoopMarked (Some tx), Broadcasted tx] \<and> (\<forall>e \<in> set es. preparing e))"
proof -
  have "closer_inv ce (NewChanCloser ch s rate h loc)"
    using assms(2) by (simp add: closer_inv_def not_agreed_def NewChanCloser_def Let_def)
  then have "closer_inv ce c" by (rule closer.reachable_inv [OF assms(1)])
  moreover have "\<not> not_agreed c" using assms(3) by (force simp: not_agreed_def)
  ultimately obtain tx' where tx': "agreedOn ce tx' c" unfolding closer_inv_def by blast
  then obtain es where es: "\<forall>e \<in> set es. preparing e" "cc_events c = es @ [CoopMarked (Some tx'), Broadcasted tx']"
      "db_coopCloseTx (cc_channel c) = Some tx'"
    using assms(3) unfolding agreedOn_def by force
  then have "tx = tx'" using assms(3) by force
  then show ?thesis using tx' es unfolding agreedOn_def by blast
qed

text \<open>Both parties of an honest close; the turns are steps.\<close>

lemma deliver_steps: "deliver ce ms c = (c', r) \<Longrightarrow> (closer_step ce)\<^sup>*\<^sup>* c c'"
proof (induction ms arbitrary: c r)
  case (Cons m ms)
  obtain c1 q where q: "ProcessCloseMsg ce m c = (c1, q)" by (rule prod.exhaust)
  then have s: "closer_step ce c c1" by (rule closer_step.message)
  show ?case
  proof (cases q)
    case (Inl e)
    then show ?thesis using Cons.prems q s by (auto simp: cbind_def)
  next
    case (Inr x)
    obtain c2 q2 where 2: "deliver ce ms c1 = (c2, q2)" by (rule prod.exhaust)
    then have "c' = c2" using Cons.prems q Inr by (cases x; cases q2) (auto simp: cbind_def)
    then show ?thesis using Cons.IH [of c1 q2] 2 s by auto
  qed
qed simp

lemma exchange_steps: "exchange ce n a b ms = Some (a', b') \<Longrightarrow> (closer_step ce)\<^sup>*\<^sup>* a a' \<and> (closer_step ce)\<^sup>*\<^sup>* b b'"
proof (induction ce n a b ms arbitrary: a' b' rule: exchange.induct)
  case (3 ce n s r m ms)
  obtain r' res where d: "deliver ce (m # ms) r = (r', res)" by (rule prod.exhaust)
  with "3.prems" obtain out where out: "res = Inr out" by (cases res) auto
  then have "exchange ce n r' s out = Some (b', a')" using "3.prems" d by auto
  then show ?case using "3.IH" [OF d [symmetric] out] deliver_steps [OF d] by auto
qed auto

theorem only_offered_fee_broadcast_witness:
  "\<exists>c tx. (closer_step twoCloseEnv)\<^sup>*\<^sup>* (NewChanCloser (sideOf 0 True (twoCommit 600000000 399000000 0 0)) [8] 253 700000 True) c
     \<and> Broadcasted tx \<in> set (cc_events c) \<and> properClose twoCloseEnv c tx"
proof -
  let ?chA = "sideOf 0 True (twoCommit 600000000 399000000 0 0)" and ?chB = "sideOf 0 False (twoCommit 399000000 600000000 0 0)"
  let ?a = "NewChanCloser ?chA [8] 253 700000 True" and ?b = "NewChanCloser ?chB [9] 253 700000 False"
  have i: "idealFeeSat ?a = 183" "idealFeeSat ?b = 183" by code_simp+
  have c: "closable twoCloseEnv 183 183 (lc_chan ?chA) (lc_chan ?chB) [8] [9]" by (rule two_closable) simp
  have u: "unheard closeIdle ?chA [8] 183 ?a" "unheard closeIdle ?chB [9] 183 ?b"
    using unheard_new [of ?chA "[8]" 253 700000 True] unheard_new [of ?chB "[9]" 253 700000 False] i by simp_all
  obtain a1 m where a1: "initChanShutdown twoCloseEnv ?a = (a1, Inr (MsgShutdown m))" "sd_Address m = [8]" "unheard closeIdle ?chA [8] 183 a1"
    using init_unheard [OF _ u(1), of twoCloseEnv] by (auto simp: twoCloseEnv_def twoEnv_def)
  let ?a1 = "a1\<lparr>cc_state := closeShutdownInitiated\<rparr>"
  have s: "ShutdownChan twoCloseEnv ?a = (?a1, Inr (MsgShutdown m))" "unheard closeShutdownInitiated ?chA [8] 183 ?a1"
    using a1 u(1) by (simp_all add: ShutdownChan_def startShutdown_def cbind_def unheard_def)
  have h: "(10 :: nat) \<le> 183" "(183 :: nat) < 2 ^ 60" "lc_status ?chA \<noteq> channelClosed" "lc_status ?chB \<noteq> channelClosed"
      "RemoteShutdownScript (stateOf ?chA) = [] \<or> RemoteShutdownScript (stateOf ?chA) = [9]"
      "RemoteShutdownScript (stateOf ?chB) = [] \<or> RemoteShutdownScript (stateOf ?chB) = [8]"
      "183 \<le> unat (183 :: u64)" "unat (183 :: u64) \<le> 183"
    by (simp_all add: sampleState_def)
  have "AbsoluteThawHeight (cc_channel ?b) = Inr 0" "negotiationHeight ?b = 700000" by code_simp+
  then have th: "IsInitiator (stateOf ?chB) \<or> (\<exists>th. AbsoluteThawHeight (cc_channel ?b) = Inr th \<and> th \<le> negotiationHeight ?b)" by simp
  obtain n a' b' tx where e: "exchange twoCloseEnv n ?a1 ?b [MsgShutdown m] = Some (a', b')" "closedWith tx a'"
    using conversation_ends [OF c h(1-6) s(2) h(7,8) u(2) h(7,8) th a1(2)] by blast
  have r: "(closer_step twoCloseEnv)\<^sup>*\<^sup>* ?a a'"
    using closer_step.start [OF s(1)] exchange_steps [OF e(1)] by auto
  moreover have "Broadcasted tx \<in> set (cc_events a')" using e(2) by (auto simp: closedWith_def)
  moreover have "properClose twoCloseEnv a' tx" using only_offered_fee_broadcast [OF r h(3) calculation(2)] by blast
  ultimately show ?thesis by blast
qed

section \<open>Simple-send closes\<close>

lemma mapSigs_length: "mapSigs conv xs = Inr ys \<Longrightarrow> length ys = length xs"
  by (induction conv xs arbitrary: ys rule: mapSigs.induct) (auto simp: sbind_eq_Inr)

lemma mapSigs_back:
  "(\<And>x y. conv x = Some y \<Longrightarrow> unconv y = Some x) \<Longrightarrow> mapSigs conv xs = Inr ys \<Longrightarrow> mapSigs unconv ys = Inr xs"
  by (induction conv xs arbitrary: ys rule: mapSigs.induct)
    (auto simp: sbind_eq_Inr of_opt_def split: option.splits)

text \<open>
  C12. A peer can crash a node during a simple-send close. Once a node has offered a fee and needs only
  one transaction, because one party holds no tokens, a well-formed message with the same fee and
  without any signature is not refused: completing the close indexes the empty list of signatures.
\<close>

theorem empty_signatures_panic:
  assumes o: "obSimpelSendProposeCloseSigned ce f [] c = (c1, Inr offer)" and "ocs_SigEnd offer" and "cc_state c = closeFeeNegotiation"
    and sig: "\<forall>raw s. sl_NewSigFromSignature (env_sl (ce_env ce)) raw = Some s \<longrightarrow> sl_ToSignature (env_sl (ce_env ce)) s = Some raw"
    and m: "ocs_FeeSatoshis m = f" "ocs_Signatures m = []" "length (ocs_ChannelID m) = 32"
  shows "OB_ProcessCloseMsg ce (MsgObClosingSignedSimpleSend m) c1 = (c1, Inl IndexOutOfRange)
     \<and> (\<exists>bs. ObClosingSignedSimpleSend_Encode m = Inr bs \<and> ObClosingSignedSimpleSend_Decode bs = Inr (m, []))"
proof -
  obtain ch rawSigs sigs x y where p: "Ob_AssetCreateCloseProposal (ce_env ce) (ce_lib ce) (cc_channel c) f (localDeliveryScript c)
        (remoteDeliveryScript c) [] = Inr (ch, rawSigs, ocs_SigEnd offer, x, y)"
      and sigs: "mapSigs (sl_NewSigFromSignature (env_sl (ce_env ce))) rawSigs = Inr sigs" "ocs_Signatures offer = sigs"
      and c1: "c1 = c\<lparr>cc_channel := ch, lastFeeProposal := f, obSimpleSendPriorFeeOffers := (obSimpleSendPriorFeeOffers c)(f \<mapsto> offer)\<rparr>"
    using o by (auto simp: obSimpelSendProposeCloseSigned_def ctry_def Let_def split: sum.splits)
  obtain tx1 tx2 bal raw where tx: "assetCloseTxs (ce_lib ce) (cc_channel c) f (localDeliveryScript c) (remoteDeliveryScript c) = Inr (tx1, tx2, bal)"
      "lib_CheckTransactionSanity (env_lib (ce_env ce)) tx1" "rawSigs = [raw]" "ch = (cc_channel c)\<lparr>lc_status := channelClosing\<rparr>"
    using p by (auto simp: Ob_AssetCreateCloseProposal_def sbind_eq_Inr checkThat_def split: if_splits)
  have ours: "mapSigs (sl_ToSignature (env_sl (ce_env ce))) (ocs_Signatures offer) = Inr [raw]"
    using mapSigs_back [OF _ sigs(1)] sig sigs(2) tx(3) by blast
  have "assetCloseTxs (ce_lib ce) ch f s t = assetCloseTxs (ce_lib ce) (cc_channel c) f s t" for s t
    using tx(4) by (simp add: assetCloseTxs_def stateOf_def fundingIn_def)
  then have "OB_ProcessCloseMsg ce (MsgObClosingSignedSimpleSend m) c1 = (c1, Inl IndexOutOfRange)"
    using assms(2,3) m(1,2) c1 tx ours
    by (simp add: OB_ProcessCloseMsg_def onObClosingSigned_def obFinishClose_def OB_AssetCompleteCooperativeClose_def signAssetTxs_def
        ctry_def of_opt_def checkThat_def nth_opt_def Let_def)
  moreover have "ObClosingSignedSimpleSend_wf m" using m by (simp add: ObClosingSignedSimpleSend_wf_def)
  ultimately show ?thesis using msg_ObClosingSignedSimpleSend.encode_decode by blast
qed

definition assetCloser :: "AssetAmount \<Rightarrow> bool ChanCloser" where
  "assetCloser theirs =
     (NewChanCloser (sideOf 31 True (twoCommit 600000000 399000000 500 theirs)) [8] 253 700000 True)
       \<lparr>cc_state := closeFeeNegotiation, remoteDeliveryScript := [9]\<rparr>"

fun offersEnd :: "(bool, ObClosingSignedSimpleSend) closing \<Rightarrow> bool" where
  "offersEnd (c, Inl e) = False"
| "offersEnd (c, Inr m) = ocs_SigEnd m"

lemma one_sided_offer: "offersEnd (obSimpelSendProposeCloseSigned twoCloseEnv 183 [] (assetCloser 0))"
  by code_simp

theorem empty_signatures_panic_witness:
  "\<exists>c1 offer m. obSimpelSendProposeCloseSigned twoCloseEnv 183 [] (assetCloser 0) = (c1, Inr offer)
     \<and> OB_ProcessCloseMsg twoCloseEnv (MsgObClosingSignedSimpleSend m) c1 = (c1, Inl IndexOutOfRange)"
proof -
  obtain c1 offer where o: "obSimpelSendProposeCloseSigned twoCloseEnv 183 [] (assetCloser 0) = (c1, Inr offer)" "ocs_SigEnd offer"
    using one_sided_offer by (metis offersEnd.elims(2))
  let ?m = "\<lparr>ocs_ChannelID = replicate 32 0, ocs_FeeSatoshis = 183, ocs_Signatures = [], ocs_ExtraData = [], ocs_SigEnd = False\<rparr>"
  have "cc_state (assetCloser 0) = closeFeeNegotiation" by (simp add: assetCloser_def)
  then have "OB_ProcessCloseMsg twoCloseEnv (MsgObClosingSignedSimpleSend ?m) c1 = (c1, Inl IndexOutOfRange)"
    using empty_signatures_panic [OF o, of ?m] by (simp add: twoCloseEnv_def twoEnv_def twoSigs_def)
  with o(1) show ?thesis by blast
qed

lemma paysShares_spends: "paysShares cl ch f x y tx1 tx2 \<Longrightarrow> tx_TxIn tx2 \<noteq> []"
  by (cases x; cases y) (auto simp: paysShares_def)

text \<open>The values of the first transaction of a simple-send close tell the fee.\<close>

lemma fee_in_values:
  assumes "cs_AssetID (stateOf ch) \<noteq> 0"
    and c: "CoopCloseBalance (IsInitiator (stateOf ch)) (f * 2) (LocalCommitment (stateOf ch)) = Some (a, b, tA, tB)"
      "CoopCloseBalance (IsInitiator (stateOf ch)) (g * 2) (LocalCommitment (stateOf ch)) = Some (a', b', tA, tB)"
    and t: "i64_less 0 tA" "i64_less 0 tB"
    and f: "i64_less 0 f" "unat f < 2 ^ 62" "unat a < 2 ^ 62" "unat b < 2 ^ 62"
    and g: "i64_less 0 g" "unat g < 2 ^ 62" "unat a' < 2 ^ 62" "unat b' < 2 ^ 62"
    and "assetCloseTxs cl ch f s t' = Inr (x1, x2, x)" "assetCloseTxs cl ch g s t' = Inr (y1, y2, y)"
    and v: "map out_Value (tx_TxOut x1) = map out_Value (tx_TxOut y1)"
  shows "f = g"
proof -
  have x: "if bytesLess t' s then paysShares cl ch f (t', b, tB) (s, a, tA) x1 x2 else paysShares cl ch f (s, a, tA) (t', b, tB) x1 x2"
    using asset_close_outputs [OF assms(1) c(1) t f, of cl s t'] assms(14) by auto
  have y: "if bytesLess t' s then paysShares cl ch g (t', b', tB) (s, a', tA) y1 y2 else paysShares cl ch g (s, a', tA) (t', b', tB) y1 y2"
    using asset_close_outputs [OF assms(1) c(2) t g, of cl s t'] assms(15) by auto
  have "a = a' \<and> b + f = b' + g \<or> b = b' \<and> a + f = a' + g"
    using x y v by (auto simp: paysShares_def split: if_splits)
  moreover have "a + f * 2 = a' + g * 2 \<and> b = b' \<or> b + f * 2 = b' + g * 2 \<and> a = a'"
    using c by (auto simp: CoopCloseBalance_def Let_def algebra_simps split: if_splits)
  moreover have "f * 2 = g * 2 \<Longrightarrow> f = g"
  proof -
    assume "f * 2 = g * 2"
    then have "unat (f * 2) = unat (g * 2)" by simp
    moreover have "unat (f * 2) = unat f * 2" "unat (g * 2) = unat g * 2"
      using unat_mult_lt [of f 2] unat_mult_lt [of g 2] f(2) g(2) by simp_all
    ultimately show ?thesis by (simp add: word_unat_eq_iff)
  qed
  moreover have "x + f = y + g \<Longrightarrow> x + f * 2 = y + g * 2 \<Longrightarrow> f = g" for x y :: u64
  proof -
    assume "x + f = y + g" "x + f * 2 = y + g * 2"
    moreover have "x + f * 2 = (x + f) + f" "y + g * 2 = (y + g) + g" by simp_all
    ultimately show ?thesis by (metis add_left_cancel)
  qed
  ultimately show ?thesis by auto
qed

text \<open>
  C11. In an asset channel in which both parties hold tokens, a disagreement on the fee ends a simple-send
  close instead of being negotiated. When the peer's honest offer is for another fee than the one the
  node answers with, the node checks the peer's signature against the transaction of its own fee; the
  script engine rejects it, and the message fails without any change. The engine is only assumed to
  reject a signature that was made for a transaction with other output values.
\<close>

theorem asset_fee_disagreement_aborts:
  assumes st: "cc_state c = closeFeeNegotiation"
    and mirror: "mirrorChan (ce_env ce) (lc_chan (cc_channel c)) (lc_chan chB)" and asset: "cs_AssetID (stateOf (cc_channel c)) \<noteq> 0"
    and scripts: "localDeliveryScript c \<noteq> remoteDeliveryScript c"
    and fresh: "obSimpleSendPriorFeeOffers c r = None"
    and p: "calcCompromiseFee (idealFeeSat c) (lastFeeProposal c) r = p" "p \<noteq> r"
    and bal: "CoopCloseBalance (IsInitiator (stateOf (cc_channel c))) (p * 2) (LocalCommitment (stateOf (cc_channel c))) = Some (a, b, tA, tB)"
      "CoopCloseBalance (IsInitiator (stateOf (cc_channel c))) (r * 2) (LocalCommitment (stateOf (cc_channel c))) = Some (a', b', tA, tB)"
    and t: "i64_less 0 tA" "i64_less 0 tB"
    and bounds: "i64_less 0 p" "unat p < 2 ^ 62" "unat a < 2 ^ 62" "unat b < 2 ^ 62"
      "i64_less 0 r" "unat r < 2 ^ 62" "unat a' < 2 ^ 62" "unat b' < 2 ^ 62"
    and peer: "assetCloseTxs (ce_lib ce) chB r (remoteDeliveryScript c) (localDeliveryScript c) = Inr (tx', tx2', bal')"
      "mapSigs (sl_ToSignature (env_sl (ce_env ce))) (ocs_Signatures m) = Inr (raw # raws)" "ocs_FeeSatoshis m = r"
    and engine: "\<forall>tx l v. sl_SignOutputRaw (env_sl (ce_env ce)) (ch_signDesc (lc_chan (cc_channel c))) tx = Some l \<longrightarrow>
      map out_Value (tx_TxOut tx) \<noteq> map out_Value (tx_TxOut tx') \<longrightarrow>
      \<not> cl_Execute (ce_lib ce) (sd_Output (ch_signDesc (lc_chan (cc_channel c)))) (tx, multiSigScript (ce_env ce) (ce_lib ce) (cc_channel c) l raw) v"
  shows "\<exists>e. OB_ProcessCloseMsg ce (MsgObClosingSignedSimpleSend m) c = (c, Inl e)"
proof -
  let ?ch = "cc_channel c" and ?s = "localDeliveryScript c" and ?t = "remoteDeliveryScript c"
  obtain tx1 tx2 where tx: "assetCloseTxs (ce_lib ce) ?ch p ?s ?t = Inr (tx1, tx2, a)" "tx_TxIn tx2 \<noteq> []"
    using asset_close_outputs [OF asset bal(1) t bounds(1-4), of "ce_lib ce" ?s ?t] paysShares_spends by meson
  have "\<not> i64_less tA 0" "\<not> i64_less tB 0" "tA \<noteq> 0" using t by (auto simp: i64_less_def)
  then have "sharesOk (LocalAssetBalance (LocalCommitment (stateOf ?ch))) (RemoteAssetBalance (LocalCommitment (stateOf ?ch))) ?s ?t"
    using asset_cap [OF bal(1)] scripts by (simp add: sharesOk_def)
  then obtain y where y: "assetCloseTxs (ce_lib ce) ?ch r ?s ?t = Inr (tx', tx2', y)"
    using assetCloseTxs_mirror [OF mirror, of ?s ?t "ce_lib ce" r] peer(1) by (auto simp: sbind_eq_Inr)
  have "map out_Value (tx_TxOut tx1) \<noteq> map out_Value (tx_TxOut tx')"
    using fee_in_values [OF asset bal t bounds tx(1) y] p(2) by blast
  then have "\<exists>e. Ob_AssetCreateCloseProposal (ce_env ce) (ce_lib ce) ?ch p ?s ?t (raw # raws) = Inl e"
    using tx engine
    by (auto simp: Ob_AssetCreateCloseProposal_def secondSignature_def checkThat_def Let_def sbind_def of_opt_def split: option.splits)
  then show ?thesis
    using st fresh p(1) peer(2,3)
    by (auto simp: OB_ProcessCloseMsg_def onObClosingSigned_def obSimpelSendProposeCloseSigned_def cbind_def ctry_def Let_def)
qed

lemma values_inj:
  "length xs = length ys \<Longrightarrow> concat (map (put_word 8 \<circ> out_Value) xs) = concat (map (put_word 8 \<circ> out_Value) ys) \<Longrightarrow>
     map out_Value xs = map out_Value ys"
proof (induction xs ys rule: list_induct2)
  case (Cons x xs y ys)
  then have h: "put_word 8 (out_Value x) = put_word 8 (out_Value y)"
    "concat (map (put_word 8 \<circ> out_Value) xs) = concat (map (put_word 8 \<circ> out_Value) ys)"
    by (simp_all add: append_eq_append_conv comp_def)
  then have "(get_word (put_word 8 (out_Value x)) :: u64) = get_word (put_word 8 (out_Value y))" by (simp only:)
  then show ?case using Cons.IH [OF h(2)] by simp
qed simp

lemma length_values: "length (concat (map (put_word 8 \<circ> out_Value) xs)) = 8 * length xs"
  by (induction xs) simp_all

text \<open>The engine of the instance rejects a signature for other values.\<close>

lemma closeLib_rejects:
  assumes "map out_Value (tx_TxOut tx) \<noteq> map out_Value (tx_TxOut tx')"
  shows "\<not> cl_Execute closeLib out
     (tx, multiSigScript twoEnv closeLib (sideOf asset True c) (signValues True tx) (signValues False tx')) v"
proof
  let ?v = "\<lambda>tx. concat (map (put_word 8 \<circ> out_Value) (tx_TxOut tx))"
  assume "cl_Execute closeLib out (tx, multiSigScript twoEnv closeLib (sideOf asset True c) (signValues True tx) (signValues False tx')) v"
  then have e: "?v tx' @ [1] @ signValues True tx @ [1, 7] = ?v tx @ [1] @ signValues True tx @ [1, 7]"
    by (simp add: closeLib_def multiSigScript_def SpendMultiSigWithoutW_def sideOf_def keysOf_def twoEnv_def twoKeys_def twoOfTwo_def
        signValues_def OP_FALSE_def SigHashAll_def Let_def)
  then have "?v tx' = ?v tx" by simp
  moreover from this have "length (tx_TxOut tx') = length (tx_TxOut tx)"
    using length_values [of "tx_TxOut tx"] length_values [of "tx_TxOut tx'"] by simp
  ultimately show False using values_inj assms by metis
qed

theorem asset_fee_disagreement_aborts_witness:
  "\<exists>m e. ocs_FeeSatoshis m = 289 \<and> length (ocs_Signatures m) = 1
     \<and> OB_ProcessCloseMsg twoCloseEnv (MsgObClosingSignedSimpleSend m) (assetCloser 700) = (assetCloser 700, Inl e)"
proof -
  let ?c = "assetCloser 700" and ?chA = "sideOf 31 True (twoCommit 600000000 399000000 500 700)"
    and ?chB = "sideOf 31 False (twoCommit 399000000 600000000 700 500)"
  have c: "cc_state ?c = closeFeeNegotiation" "cc_channel ?c = ?chA" "localDeliveryScript ?c = [8]" "remoteDeliveryScript ?c = [9]"
      "obSimpleSendPriorFeeOffers ?c 289 = None"
    by (simp_all add: assetCloser_def NewChanCloser_def Let_def)
  have p: "calcCompromiseFee (idealFeeSat ?c) (lastFeeProposal ?c) 289 = 183" by code_simp
  have mirror: "mirrorChan (ce_env twoCloseEnv) (lc_chan (cc_channel ?c)) (lc_chan ?chB)"
    using sides_mirror [of 31 True] c(2) by (simp add: twoCloseEnv_def)
  have bal: "CoopCloseBalance (IsInitiator (stateOf (cc_channel ?c))) (183 * 2) (LocalCommitment (stateOf (cc_channel ?c))) = Some (600634, 399000, 500, 700)"
      "CoopCloseBalance (IsInitiator (stateOf (cc_channel ?c))) (289 * 2) (LocalCommitment (stateOf (cc_channel ?c))) = Some (600422, 399000, 500, 700)"
    unfolding c(2) by code_simp+
  have n: "i64_less 0 500" "i64_less 0 700" "i64_less 0 183" "unat (183 :: i64) < 2 ^ 62" "unat (600634 :: i64) < 2 ^ 62" "unat (399000 :: i64) < 2 ^ 62"
      "i64_less 0 289" "unat (289 :: i64) < 2 ^ 62" "unat (600422 :: i64) < 2 ^ 62"
    by (simp_all add: i64_less_def)
  have "is_ok (assetCloseTxs closeLib ?chB 289 [9] [8])" by code_simp
  then obtain tx' tx2' bal' where peer: "assetCloseTxs closeLib ?chB 289 [9] [8] = Inr (tx', tx2', bal')"
    by (cases "assetCloseTxs closeLib ?chB 289 [9] [8]") auto
  let ?m = "\<lparr>ocs_ChannelID = replicate 32 0, ocs_FeeSatoshis = 289, ocs_Signatures = [signValues False tx'], ocs_ExtraData = [], ocs_SigEnd = False\<rparr>"
  have "\<exists>e. OB_ProcessCloseMsg twoCloseEnv (MsgObClosingSignedSimpleSend ?m) ?c = (?c, Inl e)"
  proof (rule asset_fee_disagreement_aborts [OF c(1) mirror _ _ c(5) p _ bal n(1-6,7-9,6)])
    show "cs_AssetID (stateOf (cc_channel ?c)) \<noteq> 0" using c(2) by (simp add: sampleState_def)
    show "localDeliveryScript ?c \<noteq> remoteDeliveryScript ?c" using c by simp
    show "assetCloseTxs (ce_lib twoCloseEnv) ?chB 289 (remoteDeliveryScript ?c) (localDeliveryScript ?c) = Inr (tx', tx2', bal')"
      using peer c by (simp add: twoCloseEnv_def)
    show "mapSigs (sl_ToSignature (env_sl (ce_env twoCloseEnv))) (ocs_Signatures ?m) = Inr [signValues False tx']"
      by (simp add: twoCloseEnv_def twoEnv_def twoSigs_def of_opt_def)
    show "\<forall>tx l v. sl_SignOutputRaw (env_sl (ce_env twoCloseEnv)) (ch_signDesc (lc_chan (cc_channel ?c))) tx = Some l \<longrightarrow>
      map out_Value (tx_TxOut tx) \<noteq> map out_Value (tx_TxOut tx') \<longrightarrow>
      \<not> cl_Execute (ce_lib twoCloseEnv) (sd_Output (ch_signDesc (lc_chan (cc_channel ?c))))
        (tx, multiSigScript (ce_env twoCloseEnv) (ce_lib twoCloseEnv) (cc_channel ?c) l (signValues False tx')) v"
      using closeLib_rejects c(2) by (auto simp: twoCloseEnv_def twoEnv_def twoSigs_def)
  qed simp_all
  then show ?thesis by (intro exI [of _ ?m]) auto
qed

end
