(* ===== verification/Kv_Bucket.thy ===== *)
theory Kv_Bucket
  imports Prelude "HOL-Library.List_Lexorder"
begin

text \<open>
  A bucket of the key-value database: keys in ascending order, each with one value, as the
  documentation of \<open>kvdb\<close> describes it. \<open>Put\<close> adds or overwrites, \<open>Delete\<close> of a missing key does
  nothing, \<open>Get\<close> is the lookup and \<open>ForEach\<close> walks the entries in the order of the keys. Integer
  keys stand for their eight big-endian bytes, which have the same order. The contract is a locale;
  the sorted association list is the model that the payment theories use.
\<close>

section \<open>The contract of a bucket\<close>

locale kv_store =
  fixes get :: "'b \<Rightarrow> 'k \<Rightarrow> 'v option"
    and put :: "'k \<Rightarrow> 'v \<Rightarrow> 'b \<Rightarrow> 'b"
    and del :: "'k \<Rightarrow> 'b \<Rightarrow> 'b"
    and ok :: "'b \<Rightarrow> bool"
  assumes get_put: "get (put k v b) = (get b)(k \<mapsto> v)"
    and get_del: "get (del k b) = (get b)(k := None)"
    and put_ok: "ok b \<Longrightarrow> ok (put k v b)"
    and del_ok: "ok b \<Longrightarrow> ok (del k b)"
begin

text \<open>Deleting a list of keys, as the loops over keys to delete do.\<close>

lemma fold_del_ok: "ok b \<Longrightarrow> ok (fold del ks b)"
  by (induction ks arbitrary: b) (simp_all add: del_ok)

lemma get_fold_del: "get (fold del ks b) = (\<lambda>k. if k \<in> set ks then None else get b k)"
  by (induction ks arbitrary: b) (auto simp: get_del fun_eq_iff)

end

section \<open>Sorted association lists\<close>

fun bPut :: "'k::linorder \<Rightarrow> 'v \<Rightarrow> ('k \<times> 'v) list \<Rightarrow> ('k \<times> 'v) list" where
  "bPut k v [] = [(k, v)]"
| "bPut k v (e # es) =
     (if fst e < k then e # bPut k v es
      else if fst e = k then (k, v) # es
      else (k, v) # e # es)"

definition bDelete :: "'k::linorder \<Rightarrow> ('k \<times> 'v) list \<Rightarrow> ('k \<times> 'v) list" where
  "bDelete k es = filter (\<lambda>e. fst e \<noteq> k) es"

abbreviation bGet :: "('k \<times> 'v) list \<Rightarrow> 'k \<Rightarrow> 'v option" where
  "bGet \<equiv> map_of"

definition b_ok :: "('k::linorder \<times> 'v) list \<Rightarrow> bool" where
  "b_ok es \<longleftrightarrow> sorted_wrt (<) (map fst es)"

lemma b_ok_Nil [simp]: "b_ok []"
  by (simp add: b_ok_def)

lemma b_ok_Cons: "b_ok (e # es) \<longleftrightarrow> b_ok es \<and> (\<forall>x \<in> set es. fst e < fst x)"
  by (auto simp: b_ok_def)

lemma bPut_keys [simp]: "fst ` set (bPut k v es) = insert k (fst ` set es)"
  by (induction es) auto

lemma bPut_entries: "x \<in> set (bPut k v es) \<Longrightarrow> x = (k, v) \<or> x \<in> set es"
  by (induction es) (auto split: if_splits)

lemma bPut_ok: "b_ok es \<Longrightarrow> b_ok (bPut k v es)"
  by (induction es) (auto simp: b_ok_Cons dest!: bPut_entries)

interpretation kv: kv_store bGet bPut bDelete b_ok
proof
  fix k :: "'a::linorder" and v :: 'b and es :: "('a \<times> 'b) list"
  show "bGet (bPut k v es) = (bGet es)(k \<mapsto> v)" by (induction es) auto
  show "bGet (bDelete k es) = (bGet es)(k := None)" by (induction es) (auto simp: bDelete_def)
  show "b_ok es \<Longrightarrow> b_ok (bPut k v es)" by (rule bPut_ok)
  show "b_ok es \<Longrightarrow> b_ok (bDelete k es)" by (auto simp: b_ok_def bDelete_def sorted_wrt_map sorted_wrt_filter)
qed

lemma b_ok_distinct: "b_ok es \<Longrightarrow> distinct (map fst es)"
  by (auto simp: b_ok_def strict_sorted_iff)

lemma b_ok_sorted: "b_ok es \<Longrightarrow> sorted (map fst es)"
  by (auto simp: b_ok_def strict_sorted_iff)

lemma b_ok_keys_card: "b_ok es \<Longrightarrow> card (fst ` set es) = length es"
  using b_ok_distinct [of es] distinct_card [of "map fst es"] by simp

lemma b_ok_in_set: "b_ok es \<Longrightarrow> (k, v) \<in> set es \<longleftrightarrow> bGet es k = Some v"
  by (auto intro: map_of_SomeD dest: b_ok_distinct)

lemma keys_bGet: "k \<in> fst ` set es \<longleftrightarrow> bGet es k \<noteq> None"
  by (metis dom_map_of_conv_image_fst domIff)

lemma bPut_same: "b_ok es \<Longrightarrow> bGet es k = Some v \<Longrightarrow> bPut k v es = es"
  by (induction es) (auto simp: b_ok_Cons split: if_splits dest!: map_of_SomeD)

end
