(* ===== verification/Payment_Control.thy ===== *)
theory Payment_Control
  imports Kv_Bucket Units
begin

text \<open>
  The control of outgoing payments (\<open>src/oblnd/channeldb/payment_control.go\<close>, \<open>mp_payment.go\<close>,
  \<open>payments.go\<close>, \<open>duplicate_payments.go\<close>): a payment is initialised, its HTLC attempts are registered
  and then settled or failed, the payment is failed as a whole, deleted, and sequence numbers are
  allotted in blocks. The buckets of the database are sorted association lists that hold the values
  as they are read back: what the serialisers drop or refuse is modelled, the byte layout of the
  values, which rests on third-party encoders, is not. A database transaction that returns an error
  is rolled back. This theory holds the model; \<open>Payment_Safety\<close> holds its invariants and properties.
\<close>

section \<open>Routes\<close>

type_synonym Hash = bytes
type_synonym Vertex = bytes

text \<open>A point in time in nanoseconds, or the zero value of \<open>time.Time\<close>.\<close>

type_synonym GoTime = "i64 option"

record MPP =
  mpp_paymentAddr :: bytes
  mpp_totalMsat :: UnitPrec11
  mpp_assetId :: u32

record AMP =
  amp_rootShare :: bytes
  amp_setID :: bytes
  amp_childIndex :: u32

record Hop =
  hop_PubKeyBytes :: Vertex
  hop_ChannelID :: u64
  hop_OutgoingTimeLock :: u32
  hop_AmtToForward :: UnitPrec11
  hop_MPP :: "MPP option"
  hop_AMP :: "AMP option"
  hop_CustomRecords :: "(u64 \<times> bytes) list"
  hop_LegacyPayload :: bool

record Route =
  rt_TotalTimeLock :: u32
  rt_TotalAmount :: UnitPrec11
  rt_AssetId :: u32
  rt_SourcePubKey :: Vertex
  rt_Hops :: "Hop list"

definition FinalHop :: "Route \<Rightarrow> Hop option" where
  "FinalHop r = (if rt_Hops r = [] then None else Some (rt_Hops r ! (length (rt_Hops r) - 1)))"

definition ReceiverAmt :: "Route \<Rightarrow> UnitPrec11" where
  "ReceiverAmt r = (if rt_Hops r = [] then 0 else hop_AmtToForward (rt_Hops r ! (length (rt_Hops r) - 1)))"

definition TotalFees :: "Route \<Rightarrow> UnitPrec11" where
  "TotalFees r = (if rt_Hops r = [] then 0 else rt_TotalAmount r - ReceiverAmt r)"

section \<open>Payments\<close>

record HTLCAttemptInfo =
  ai_AttemptID :: u64
  ai_sessionKey :: bytes
  ai_Route :: Route
  ai_AttemptTime :: GoTime
  ai_Hash :: "Hash option"

record HTLCSettleInfo =
  si_Preimage :: bytes
  si_SettleTime :: GoTime

text \<open>The failure message is kept in its wire encoding.\<close>

record HTLCFailInfo =
  hfi_FailTime :: GoTime
  hfi_Message :: "bytes option"
  hfi_Reason :: u8
  hfi_FailureSourceIndex :: u32

record HTLCAttempt =
  ha_Info :: HTLCAttemptInfo
  ha_Settle :: "HTLCSettleInfo option"
  ha_Failure :: "HTLCFailInfo option"

type_synonym FailureReason = u8

datatype PaymentStatus = StatusUnknown | StatusInFlight | StatusSucceeded | StatusFailed

record PaymentCreationInfo =
  pci_PaymentIdentifier :: Hash
  pci_Value :: UnitPrec11
  pci_AssetId :: u32
  pci_CreationTime :: GoTime
  pci_PaymentRequest :: bytes
  pci_HaveHodlInvoice :: bool

record MPPayment =
  mp_SequenceNum :: u64
  mp_Info :: PaymentCreationInfo
  mp_HTLCs :: "HTLCAttempt list"
  mp_FailureReason :: "FailureReason option"
  mp_Status :: PaymentStatus

datatype payment_error =
    ErrAlreadyPaid | ErrPaymentInFlight | ErrPaymentNotInitiated
  | ErrPaymentAlreadySucceeded | ErrPaymentAlreadyFailed | ErrPaymentTerminal
  | ErrAttemptAlreadySettled | ErrAttemptAlreadyFailed
  | ErrValueMismatch | ErrValueExceedsAmt | ErrNonMPPayment | ErrMPPayment
  | ErrMPPPaymentAddrMismatch | ErrMPPTotalAmountMismatch
  | errNoAttemptInfo | SequenceNumberNotFound | CreationInfoNotFound
  | HtlcsBucketNotFound | HtlcNotRegistered u64 | AttemptNotFound
  | ReservedRecordType | ValueTooLong | InvalidHashLength
  | NonBucketElement | PaymentStillInFlight | NilHopPanic
  | IndexBucketMissing | ErrNoSequenceNumber | ErrNoDuplicateBucket | ErrDuplicateNotFound

text \<open>The results of a loop that stops at the first error.\<close>

fun collect :: "('a \<Rightarrow> 'e + 'b) \<Rightarrow> 'a list \<Rightarrow> 'e + 'b list" where
  "collect f [] = Inr []"
| "collect f (x # xs) = sbind (f x) (\<lambda>y. sbind (collect f xs) (\<lambda>ys. Inr (y # ys)))"

fun TerminalLoop :: "HTLCAttempt list \<Rightarrow> HTLCSettleInfo option" where
  "TerminalLoop [] = None"
| "TerminalLoop (h # hs) = (if ha_Settle h \<noteq> None then ha_Settle h else TerminalLoop hs)"

definition TerminalInfo :: "MPPayment \<Rightarrow> HTLCSettleInfo option \<times> FailureReason option" where
  "TerminalInfo m =
     (case TerminalLoop (mp_HTLCs m) of
        Some s \<Rightarrow> (Some s, None)
      | None \<Rightarrow> (None, mp_FailureReason m))"

fun SentAmtLoop :: "HTLCAttempt list \<Rightarrow> UnitPrec11 \<times> UnitPrec11 \<Rightarrow> UnitPrec11 \<times> UnitPrec11" where
  "SentAmtLoop [] acc = acc"
| "SentAmtLoop (h # hs) (sent, fees) =
     (if ha_Failure h \<noteq> None then SentAmtLoop hs (sent, fees)
      else SentAmtLoop hs (sent + ReceiverAmt (ai_Route (ha_Info h)), fees + TotalFees (ai_Route (ha_Info h))))"

definition SentAmt :: "MPPayment \<Rightarrow> UnitPrec11 \<times> UnitPrec11" where
  "SentAmt m = SentAmtLoop (mp_HTLCs m) (0, 0)"

definition InFlightHTLCs :: "MPPayment \<Rightarrow> HTLCAttempt list" where
  "InFlightHTLCs m = filter (\<lambda>h. \<not> (ha_Settle h \<noteq> None \<or> ha_Failure h \<noteq> None)) (mp_HTLCs m)"

definition GetAttempt :: "MPPayment \<Rightarrow> u64 \<Rightarrow> payment_error + HTLCAttempt" where
  "GetAttempt m aid =
     (case find (\<lambda>h. ai_AttemptID (ha_Info h) = aid) (mp_HTLCs m) of
        Some h \<Rightarrow> Inr h
      | None \<Rightarrow> Inl AttemptNotFound)"

section \<open>What is written and read back\<close>

text \<open>The time with zero nanoseconds is written like the zero value, and read as that.\<close>

definition serializeTime :: "GoTime \<Rightarrow> i64" where
  "serializeTime t = (case t of None \<Rightarrow> 0 | Some unixNano \<Rightarrow> unixNano)"

definition deserializeTime :: "i64 \<Rightarrow> GoTime" where
  "deserializeTime unixNano = (if unixNano = 0 then None else Some unixNano)"

definition storedTime :: "GoTime \<Rightarrow> GoTime" where
  "storedTime t = deserializeTime (serializeTime t)"

definition CustomTypeStart :: u64 where
  "CustomTypeStart = 65536"

definition Validate :: "(u64 \<times> bytes) list \<Rightarrow> payment_error + unit" where
  "Validate c = (if \<exists>e \<in> set c. fst e < CustomTypeStart then Inl ReservedRecordType else Inr ())"

text \<open>A legacy hop is written without any record, no hop is written with its AMP record.\<close>

definition serializeHop :: "Hop \<Rightarrow> payment_error + Hop" where
  "serializeHop h =
     (if hop_LegacyPayload h then Inr (h\<lparr>hop_MPP := None, hop_AMP := None, hop_CustomRecords := []\<rparr>)
      else sbind (Validate (hop_CustomRecords h)) (\<lambda>_. Inr (h\<lparr>hop_AMP := None\<rparr>)))"

definition maxOnionPayloadSize :: nat where
  "maxOnionPayloadSize = 1300"

definition deserializeHop :: "Hop \<Rightarrow> payment_error + Hop" where
  "deserializeHop h =
     (if \<exists>e \<in> set (hop_CustomRecords h). maxOnionPayloadSize < length (snd e) then Inl ValueTooLong else Inr h)"

definition SerializeRoute :: "Route \<Rightarrow> payment_error + Route" where
  "SerializeRoute r = sbind (collect serializeHop (rt_Hops r)) (\<lambda>hops. Inr (r\<lparr>rt_Hops := hops\<rparr>))"

definition DeserializeRoute :: "Route \<Rightarrow> payment_error + Route" where
  "DeserializeRoute r = sbind (collect deserializeHop (rt_Hops r)) (\<lambda>hops. Inr (r\<lparr>rt_Hops := hops\<rparr>))"

text \<open>The identifier of an attempt is the key, not a part of the value.\<close>

definition serializeHTLCAttemptInfo :: "HTLCAttemptInfo \<Rightarrow> payment_error + HTLCAttemptInfo" where
  "serializeHTLCAttemptInfo a =
     sbind (SerializeRoute (ai_Route a)) (\<lambda>r.
       Inr (a\<lparr>ai_AttemptID := 0, ai_Route := r, ai_AttemptTime := storedTime (ai_AttemptTime a)\<rparr>))"

definition readHtlcAttemptInfo :: "HTLCAttemptInfo \<Rightarrow> payment_error + HTLCAttemptInfo" where
  "readHtlcAttemptInfo a = sbind (DeserializeRoute (ai_Route a)) (\<lambda>r. Inr (a\<lparr>ai_Route := r\<rparr>))"

definition serializeHTLCSettleInfo :: "HTLCSettleInfo \<Rightarrow> HTLCSettleInfo" where
  "serializeHTLCSettleInfo s = s\<lparr>si_SettleTime := storedTime (si_SettleTime s)\<rparr>"

definition FailureMessageLength :: nat where
  "FailureMessageLength = 256"

text \<open>A missing message is written as an empty one, which is read as missing.\<close>

definition serializeHTLCFailInfo :: "HTLCFailInfo \<Rightarrow> HTLCFailInfo" where
  "serializeHTLCFailInfo f =
     f\<lparr>hfi_FailTime := storedTime (hfi_FailTime f),
       hfi_Message := Some (case hfi_Message f of None \<Rightarrow> [] | Some m \<Rightarrow> m)\<rparr>"

definition readHtlcFailInfo :: "HTLCFailInfo \<Rightarrow> payment_error + HTLCFailInfo" where
  "readHtlcFailInfo f =
     (let failureBytes = (case hfi_Message f of None \<Rightarrow> [] | Some m \<Rightarrow> m)
      in if FailureMessageLength < length failureBytes then Inl ValueTooLong
         else Inr (f\<lparr>hfi_Message := (if 0 < length failureBytes then Some failureBytes else None)\<rparr>))"

definition serializePaymentCreationInfo :: "PaymentCreationInfo \<Rightarrow> PaymentCreationInfo" where
  "serializePaymentCreationInfo c = c\<lparr>pci_CreationTime := storedTime (pci_CreationTime c)\<rparr>"

section \<open>The database\<close>

text \<open>
  The bucket of the HTLC attempts has keys made of a prefix (\<open>ai\<close>, \<open>si\<close> or \<open>fi\<close>) and the identifier
  of the attempt. The three ranges of keys are three buckets of the model.
\<close>

definition htlcAttemptInfoKey :: bytes where
  "htlcAttemptInfoKey = [0x61, 0x69]"

definition htlcSettleInfoKey :: bytes where
  "htlcSettleInfoKey = [0x73, 0x69]"

definition htlcFailInfoKey :: bytes where
  "htlcFailInfoKey = [0x66, 0x69]"

definition htlcBucketKey :: "bytes \<Rightarrow> u64 \<Rightarrow> bytes" where
  "htlcBucketKey prefix aid = prefix @ put_word 8 aid"

record htlcs_bucket =
  hb_ai :: "(u64 \<times> HTLCAttemptInfo) list"
  hb_si :: "(u64 \<times> HTLCSettleInfo) list"
  hb_fi :: "(u64 \<times> HTLCFailInfo) list"

record duplicate_bucket =
  db_sequence :: "u64 option"
  db_creationInfo :: "PaymentCreationInfo option"
  db_attemptInfo :: "HTLCAttemptInfo option"
  db_settleInfo :: "bytes option"
  db_failInfo :: "FailureReason option"

record payment_bucket =
  pb_sequence :: "u64 option"
  pb_creationInfo :: "PaymentCreationInfo option"
  pb_failInfo :: "FailureReason option"
  pb_htlcs :: "htlcs_bucket option"
  pb_duplicates :: "(u64 \<times> duplicate_bucket) list option"

text \<open>The root bucket with its sequence is created by the first payment, the index with the database.\<close>

record payments_root =
  pr_sequence :: u64
  pr_payments :: "(Hash \<times> payment_bucket) list"

record payments_db =
  pd_root :: "payments_root option"
  pd_index :: "(u64 \<times> Hash) list"

record PaymentControl =
  currPaymentSeq :: u64
  storedPaymentSeq :: u64
  pc_db :: payments_db

definition NewPaymentControl :: "payments_db \<Rightarrow> PaymentControl" where
  "NewPaymentControl db = \<lparr>currPaymentSeq = 0, storedPaymentSeq = 0, pc_db = db\<rparr>"

definition emptyBucket :: payment_bucket where
  "emptyBucket = \<lparr>pb_sequence = None, pb_creationInfo = None, pb_failInfo = None, pb_htlcs = None, pb_duplicates = None\<rparr>"

definition emptyRoot :: payments_root where
  "emptyRoot = \<lparr>pr_sequence = 0, pr_payments = []\<rparr>"

definition emptyHtlcs :: htlcs_bucket where
  "emptyHtlcs = \<lparr>hb_ai = [], hb_si = [], hb_fi = []\<rparr>"

section \<open>Reading a payment\<close>

definition fetchCreationInfo :: "payment_bucket \<Rightarrow> payment_error + PaymentCreationInfo" where
  "fetchCreationInfo bucket =
     (case pb_creationInfo bucket of None \<Rightarrow> Inl CreationInfoNotFound | Some b \<Rightarrow> Inr b)"

definition zeroAttemptInfo :: HTLCAttemptInfo where
  "zeroAttemptInfo =
     \<lparr>ai_AttemptID = 0, ai_sessionKey = replicate 32 0,
      ai_Route = \<lparr>rt_TotalTimeLock = 0, rt_TotalAmount = 0, rt_AssetId = 0, rt_SourcePubKey = replicate 33 0, rt_Hops = []\<rparr>,
      ai_AttemptTime = None, ai_Hash = None\<rparr>"

definition fetchHtlcAttempts :: "htlcs_bucket \<Rightarrow> payment_error + HTLCAttempt list" where
  "fetchHtlcAttempts hb =
     sbind (collect (\<lambda>(aid, v). sbind (readHtlcAttemptInfo v) (\<lambda>a. Inr (aid, a\<lparr>ai_AttemptID := aid\<rparr>))) (hb_ai hb)) (\<lambda>infos.
     sbind (collect (\<lambda>(aid, v). sbind (readHtlcFailInfo v) (\<lambda>f. Inr (aid, f))) (hb_fi hb)) (\<lambda>fails.
       let settles = hb_si hb;
           htlcs = remdups (map fst infos @ map fst fails @ map fst settles)
       in if length infos \<noteq> length htlcs then Inl errNoAttemptInfo
          else Inr (map (\<lambda>key. \<lparr>ha_Info = (case bGet infos key of None \<Rightarrow> zeroAttemptInfo | Some a \<Rightarrow> a),
                               ha_Settle = bGet settles key, ha_Failure = bGet fails key\<rparr>) (sort htlcs))))"

fun scanHtlcs :: "HTLCAttempt list \<Rightarrow> bool \<times> bool \<Rightarrow> bool \<times> bool" where
  "scanHtlcs [] flags = flags"
| "scanHtlcs (h # hs) (inflight, settled) =
     (if ha_Failure h \<noteq> None then scanHtlcs hs (inflight, settled)
      else if ha_Settle h \<noteq> None then scanHtlcs hs (inflight, True)
      else scanHtlcs hs (True, settled))"

definition paymentStatus :: "HTLCAttempt list \<Rightarrow> FailureReason option \<Rightarrow> PaymentStatus" where
  "paymentStatus htlcs failureReason =
     (case scanHtlcs htlcs (False, False) of (inflight, settled) \<Rightarrow>
        if \<not> inflight \<and> settled then StatusSucceeded
        else if \<not> inflight \<and> failureReason \<noteq> None then StatusFailed
        else StatusInFlight)"

definition fetchPayment :: "payment_bucket \<Rightarrow> payment_error + MPPayment" where
  "fetchPayment bucket =
     (case pb_sequence bucket of
        None \<Rightarrow> Inl SequenceNumberNotFound
      | Some sequenceNum \<Rightarrow>
          sbind (fetchCreationInfo bucket) (\<lambda>creationInfo.
          sbind (case pb_htlcs bucket of None \<Rightarrow> Inr [] | Some hb \<Rightarrow> fetchHtlcAttempts hb) (\<lambda>htlcs.
            Inr \<lparr>mp_SequenceNum = sequenceNum, mp_Info = creationInfo, mp_HTLCs = htlcs,
                 mp_FailureReason = pb_failInfo bucket, mp_Status = paymentStatus htlcs (pb_failInfo bucket)\<rparr>)))"

definition fetchPaymentStatus :: "payment_bucket \<Rightarrow> payment_error + PaymentStatus" where
  "fetchPaymentStatus bucket =
     (if pb_creationInfo bucket = None then Inr StatusUnknown
      else sbind (fetchPayment bucket) (\<lambda>payment. Inr (mp_Status payment)))"

definition fetchPaymentBucket :: "payments_db \<Rightarrow> Hash \<Rightarrow> payment_error + payment_bucket" where
  "fetchPaymentBucket db paymentHash =
     (case pd_root db of
        None \<Rightarrow> Inl ErrPaymentNotInitiated
      | Some root \<Rightarrow> (case bGet (pr_payments root) paymentHash of
          None \<Rightarrow> Inl ErrPaymentNotInitiated
        | Some bucket \<Rightarrow> Inr bucket))"

definition FetchPayment :: "PaymentControl \<Rightarrow> Hash \<Rightarrow> payment_error + MPPayment" where
  "FetchPayment p paymentHash = sbind (fetchPaymentBucket (pc_db p) paymentHash) fetchPayment"

definition ensureInFlight :: "MPPayment \<Rightarrow> payment_error + unit" where
  "ensureInFlight payment =
     (case mp_Status payment of
        StatusInFlight \<Rightarrow> Inr ()
      | StatusUnknown \<Rightarrow> Inl ErrPaymentNotInitiated
      | StatusSucceeded \<Rightarrow> Inl ErrPaymentAlreadySucceeded
      | StatusFailed \<Rightarrow> Inl ErrPaymentAlreadyFailed)"

fun inFlightLoop :: "(Hash \<times> payment_bucket) list \<Rightarrow> payment_error + MPPayment list" where
  "inFlightLoop [] = Inr []"
| "inFlightLoop (e # es) =
     sbind (fetchPaymentStatus (snd e)) (\<lambda>status.
       if status \<noteq> StatusInFlight then inFlightLoop es
       else sbind (fetchPayment (snd e)) (\<lambda>p. sbind (inFlightLoop es) (\<lambda>ps. Inr (p # ps))))"

definition FetchInFlightPayments :: "PaymentControl \<Rightarrow> payment_error + MPPayment list" where
  "FetchInFlightPayments p =
     (case pd_root (pc_db p) of None \<Rightarrow> Inr [] | Some root \<Rightarrow> inFlightLoop (pr_payments root))"

section \<open>Operations\<close>

definition paymentSeqBlockSize :: u64 where
  "paymentSeqBlockSize = 1000"

text \<open>Sequence numbers are allotted in blocks: the upper bound of the block is stored first.\<close>

definition nextPaymentSequence :: "PaymentControl \<Rightarrow> PaymentControl \<times> u64" where
  "nextPaymentSequence p =
     (let p1 =
        (if currPaymentSeq p = storedPaymentSeq p then
           (let root = (case pd_root (pc_db p) of None \<Rightarrow> emptyRoot | Some r \<Rightarrow> r);
                curr = pr_sequence root;
                newUpperBound = curr + paymentSeqBlockSize
            in p\<lparr>pc_db := (pc_db p)\<lparr>pd_root := Some (root\<lparr>pr_sequence := newUpperBound\<rparr>)\<rparr>,
                 currPaymentSeq := (if currPaymentSeq p = 0 then curr else currPaymentSeq p),
                 storedPaymentSeq := newUpperBound\<rparr>)
         else p);
          p2 = p1\<lparr>currPaymentSeq := currPaymentSeq p1 + 1\<rparr>
      in (p2, currPaymentSeq p2))"

definition createPaymentBucket :: "payments_db \<Rightarrow> Hash \<Rightarrow> payments_root \<times> payment_bucket" where
  "createPaymentBucket db paymentHash =
     (let payments = (case pd_root db of None \<Rightarrow> emptyRoot | Some r \<Rightarrow> r)
      in case bGet (pr_payments payments) paymentHash of
           Some bucket \<Rightarrow> (payments, bucket)
         | None \<Rightarrow> (payments\<lparr>pr_payments := bPut paymentHash emptyBucket (pr_payments payments)\<rparr>, emptyBucket))"

definition writeBucket :: "payments_root \<Rightarrow> Hash \<Rightarrow> payment_bucket \<Rightarrow> payments_db \<Rightarrow> payments_db" where
  "writeBucket root h bucket db = db\<lparr>pd_root := Some (root\<lparr>pr_payments := bPut h bucket (pr_payments root)\<rparr>)\<rparr>"

text \<open>
  The transaction of \<open>InitPayment\<close>. An error rolls it back; the two refusals are not errors of the
  transaction, which is committed.
\<close>

definition initPaymentTx ::
    "Hash \<Rightarrow> PaymentCreationInfo \<Rightarrow> u64 \<Rightarrow> payments_db \<Rightarrow> payment_error + (payments_db \<times> payment_error option)" where
  "initPaymentTx paymentHash info sequenceNum db =
     (case createPaymentBucket db paymentHash of (root, bucket) \<Rightarrow>
        sbind (fetchPaymentStatus bucket) (\<lambda>status.
          let db' = db\<lparr>pd_root := Some root\<rparr>
          in case status of
               StatusInFlight \<Rightarrow> Inr (db', Some ErrPaymentInFlight)
             | StatusSucceeded \<Rightarrow> Inr (db', Some ErrAlreadyPaid)
             | _ \<Rightarrow>
                 (let index1 = (case pb_sequence bucket of None \<Rightarrow> pd_index db | Some s \<Rightarrow> bDelete s (pd_index db));
                      index2 = bPut sequenceNum (pci_PaymentIdentifier info) index1;
                      bucket' = bucket\<lparr>pb_sequence := Some sequenceNum,
                                       pb_creationInfo := Some (serializePaymentCreationInfo info),
                                       pb_htlcs := None, pb_failInfo := None\<rparr>
                  in Inr ((writeBucket root paymentHash bucket' db)\<lparr>pd_index := index2\<rparr>, None))))"

definition InitPayment ::
    "Hash \<Rightarrow> PaymentCreationInfo \<Rightarrow> PaymentControl \<Rightarrow> PaymentControl \<times> payment_error option" where
  "InitPayment paymentHash info p =
     (case nextPaymentSequence p of (p1, sequenceNum) \<Rightarrow>
        case initPaymentTx paymentHash info sequenceNum (pc_db p1) of
          Inl e \<Rightarrow> (p1, Some e)
        | Inr (db, updateErr) \<Rightarrow> (p1\<lparr>pc_db := db\<rparr>, updateErr))"

text \<open>The options of a new shard agree with those of the shards in flight.\<close>

fun checkShards :: "MPP option \<Rightarrow> HTLCAttempt list \<Rightarrow> payment_error + unit" where
  "checkShards mpp [] = Inr ()"
| "checkShards mpp (h # hs) =
     (case FinalHop (ai_Route (ha_Info h)) of
        None \<Rightarrow> Inl NilHopPanic
      | Some hop \<Rightarrow>
          (case (mpp, hop_MPP hop) of
             (None, Some _) \<Rightarrow> Inl ErrMPPayment
           | (Some _, None) \<Rightarrow> Inl ErrNonMPPayment
           | (None, None) \<Rightarrow> checkShards mpp hs
           | (Some m, Some m') \<Rightarrow>
               if mpp_paymentAddr m \<noteq> mpp_paymentAddr m' then Inl ErrMPPPaymentAddrMismatch
               else if mpp_totalMsat m \<noteq> mpp_totalMsat m' then Inl ErrMPPTotalAmountMismatch
               else checkShards mpp hs))"

definition checkAttempt :: "MPPayment \<Rightarrow> HTLCAttemptInfo \<Rightarrow> payment_error + unit" where
  "checkAttempt p attempt =
     (case TerminalInfo p of (settle, fail) \<Rightarrow>
        if settle \<noteq> None \<or> fail \<noteq> None then Inl ErrPaymentTerminal
        else sbind (ensureInFlight p) (\<lambda>_.
          case FinalHop (ai_Route attempt) of
            None \<Rightarrow> Inl NilHopPanic
          | Some hop \<Rightarrow>
              sbind (checkShards (hop_MPP hop) (InFlightHTLCs p)) (\<lambda>_.
                let amt = ReceiverAmt (ai_Route attempt)
                in if hop_MPP hop = None \<and> amt \<noteq> pci_Value (mp_Info p) then Inl ErrValueMismatch
                   else if fst (SentAmt p) + amt > pci_Value (mp_Info p) then Inl ErrValueExceedsAmt
                   else Inr ())))"

definition fetchPaymentBucketUpdate :: "payments_db \<Rightarrow> Hash \<Rightarrow> payment_error + (payments_root \<times> payment_bucket)" where
  "fetchPaymentBucketUpdate db paymentHash =
     (case pd_root db of
        None \<Rightarrow> Inl ErrPaymentNotInitiated
      | Some root \<Rightarrow> (case bGet (pr_payments root) paymentHash of
          None \<Rightarrow> Inl ErrPaymentNotInitiated
        | Some bucket \<Rightarrow> Inr (root, bucket)))"

definition RegisterAttempt ::
    "Hash \<Rightarrow> HTLCAttemptInfo \<Rightarrow> PaymentControl \<Rightarrow> payment_error + (PaymentControl \<times> MPPayment)" where
  "RegisterAttempt paymentHash attempt pc =
     sbind (serializeHTLCAttemptInfo attempt) (\<lambda>htlcInfoBytes.
     sbind (fetchPaymentBucketUpdate (pc_db pc) paymentHash) (\<lambda>(root, bucket).
     sbind (fetchPayment bucket) (\<lambda>p.
     sbind (checkAttempt p attempt) (\<lambda>_.
       let htlcs = (case pb_htlcs bucket of None \<Rightarrow> emptyHtlcs | Some hb \<Rightarrow> hb);
           htlcs' = htlcs\<lparr>hb_ai := bPut (ai_AttemptID attempt) htlcInfoBytes (hb_ai htlcs)\<rparr>;
           bucket' = bucket\<lparr>pb_htlcs := Some htlcs'\<rparr>
       in sbind (fetchPayment bucket') (\<lambda>payment.
            Inr (pc\<lparr>pc_db := writeBucket root paymentHash bucket' (pc_db pc)\<rparr>, payment))))))"

text \<open>Settling and failing an attempt differ in the key that is written.\<close>

datatype htlc_update = SettleKey HTLCSettleInfo | FailKey HTLCFailInfo

fun putHtlcKey :: "u64 \<Rightarrow> htlc_update \<Rightarrow> htlcs_bucket \<Rightarrow> htlcs_bucket" where
  "putHtlcKey aid (SettleKey v) hb = hb\<lparr>hb_si := bPut aid v (hb_si hb)\<rparr>"
| "putHtlcKey aid (FailKey v) hb = hb\<lparr>hb_fi := bPut aid v (hb_fi hb)\<rparr>"

definition updateHtlcKey ::
    "Hash \<Rightarrow> u64 \<Rightarrow> htlc_update \<Rightarrow> PaymentControl \<Rightarrow> payment_error + (PaymentControl \<times> MPPayment)" where
  "updateHtlcKey paymentHash attemptID upd pc =
     sbind (fetchPaymentBucketUpdate (pc_db pc) paymentHash) (\<lambda>(root, bucket).
     sbind (fetchPayment bucket) (\<lambda>p.
     sbind (ensureInFlight p) (\<lambda>_.
       case pb_htlcs bucket of
         None \<Rightarrow> Inl HtlcsBucketNotFound
       | Some hb \<Rightarrow>
           if bGet (hb_ai hb) attemptID = None then Inl (HtlcNotRegistered attemptID)
           else if bGet (hb_fi hb) attemptID \<noteq> None then Inl ErrAttemptAlreadyFailed
           else if bGet (hb_si hb) attemptID \<noteq> None then Inl ErrAttemptAlreadySettled
           else (let bucket' = bucket\<lparr>pb_htlcs := Some (putHtlcKey attemptID upd hb)\<rparr>
                 in sbind (fetchPayment bucket') (\<lambda>payment.
                      Inr (pc\<lparr>pc_db := writeBucket root paymentHash bucket' (pc_db pc)\<rparr>, payment))))))"

definition SettleAttempt ::
    "Hash \<Rightarrow> u64 \<Rightarrow> HTLCSettleInfo \<Rightarrow> PaymentControl \<Rightarrow> payment_error + (PaymentControl \<times> MPPayment)" where
  "SettleAttempt h attemptID settleInfo pc =
     updateHtlcKey h attemptID (SettleKey (serializeHTLCSettleInfo settleInfo)) pc"

definition FailAttempt ::
    "Hash \<Rightarrow> u64 \<Rightarrow> HTLCFailInfo \<Rightarrow> PaymentControl \<Rightarrow> payment_error + (PaymentControl \<times> MPPayment)" where
  "FailAttempt h attemptID failInfo pc =
     updateHtlcKey h attemptID (FailKey (serializeHTLCFailInfo failInfo)) pc"

definition Fail ::
    "Hash \<Rightarrow> FailureReason \<Rightarrow> PaymentControl \<Rightarrow> payment_error + (PaymentControl \<times> MPPayment)" where
  "Fail paymentHash reason pc =
     sbind (fetchPaymentBucketUpdate (pc_db pc) paymentHash) (\<lambda>(root, bucket).
     sbind (fetchPaymentStatus bucket) (\<lambda>status.
       if status = StatusUnknown then Inl ErrPaymentNotInitiated
       else (let bucket' = bucket\<lparr>pb_failInfo := Some reason\<rparr>
             in sbind (fetchPayment bucket') (\<lambda>payment.
                  Inr (pc\<lparr>pc_db := writeBucket root paymentHash bucket' (pc_db pc)\<rparr>, payment)))))"

section \<open>Deletion\<close>

definition fetchFailedHtlcKeys :: "payment_bucket \<Rightarrow> payment_error + u64 list" where
  "fetchFailedHtlcKeys bucket =
     sbind (case pb_htlcs bucket of None \<Rightarrow> Inr [] | Some hb \<Rightarrow> fetchHtlcAttempts hb) (\<lambda>htlcs.
       Inr (map (\<lambda>h. ai_AttemptID (ha_Info h)) (filter (\<lambda>h. ha_Failure h \<noteq> None) htlcs)))"

definition fetchSequenceNumbers :: "payment_bucket \<Rightarrow> payment_error + u64 list" where
  "fetchSequenceNumbers bucket =
     (case pb_sequence bucket of
        None \<Rightarrow> Inl SequenceNumberNotFound
      | Some seqNum \<Rightarrow> Inr (seqNum # (case pb_duplicates bucket of None \<Rightarrow> [] | Some d \<Rightarrow> map fst d)))"

definition deleteHtlcs :: "u64 list \<Rightarrow> payment_bucket \<Rightarrow> payment_bucket" where
  "deleteHtlcs toDelete bucket =
     bucket\<lparr>pb_htlcs := map_option (\<lambda>hb. hb\<lparr>hb_ai := fold bDelete toDelete (hb_ai hb),
                                             hb_fi := fold bDelete toDelete (hb_fi hb),
                                             hb_si := fold bDelete toDelete (hb_si hb)\<rparr>) (pb_htlcs bucket)\<rparr>"

definition DeletePayment :: "Hash \<Rightarrow> bool \<Rightarrow> payments_db \<Rightarrow> payment_error + payments_db" where
  "DeletePayment paymentHash failedHtlcsOnly db =
     (case pd_root db of
        None \<Rightarrow> Inr db
      | Some root \<Rightarrow>
          (case bGet (pr_payments root) paymentHash of
             None \<Rightarrow> Inl NonBucketElement
           | Some bucket \<Rightarrow>
               sbind (fetchPaymentStatus bucket) (\<lambda>status.
                 if status = StatusInFlight then Inl PaymentStillInFlight
                 else if failedHtlcsOnly then
                   sbind (fetchFailedHtlcKeys bucket) (\<lambda>toDelete.
                     Inr (writeBucket root paymentHash (deleteHtlcs toDelete bucket) db))
                 else
                   sbind (fetchSequenceNumbers bucket) (\<lambda>seqNrs.
                     Inr \<lparr>pd_root = Some (root\<lparr>pr_payments := bDelete paymentHash (pr_payments root)\<rparr>),
                          pd_index = fold bDelete seqNrs (pd_index db)\<rparr>))))"

text \<open>What \<open>DeletePayments\<close> collects: the attempts, the payments and the index entries to delete.\<close>

fun collectDeletes :: "bool \<Rightarrow> bool \<Rightarrow> (Hash \<times> payment_bucket) list
    \<Rightarrow> payment_error + ((Hash \<times> u64 list) list \<times> Hash list \<times> u64 list)" where
  "collectDeletes failedOnly failedHtlcsOnly [] = Inr ([], [], [])"
| "collectDeletes failedOnly failedHtlcsOnly (e # es) =
     (case e of (k, bucket) \<Rightarrow>
       sbind (fetchPaymentStatus bucket) (\<lambda>status.
         if status = StatusInFlight then collectDeletes failedOnly failedHtlcsOnly es
         else if failedOnly \<and> status \<noteq> StatusFailed then collectDeletes failedOnly failedHtlcsOnly es
         else if failedHtlcsOnly then
           sbind (fetchFailedHtlcKeys bucket) (\<lambda>toDelete.
             if length k \<noteq> 32 then Inl InvalidHashLength
             else sbind (collectDeletes failedOnly failedHtlcsOnly es) (\<lambda>(htlcs, buckets, indexes).
               Inr ((k, toDelete) # htlcs, buckets, indexes)))
         else
           sbind (fetchSequenceNumbers bucket) (\<lambda>seqNrs.
             sbind (collectDeletes failedOnly failedHtlcsOnly es) (\<lambda>(htlcs, buckets, indexes).
               Inr (htlcs, k # buckets, seqNrs @ indexes)))))"

definition deleteHtlcsOf :: "Hash \<times> u64 list \<Rightarrow> (Hash \<times> payment_bucket) list \<Rightarrow> (Hash \<times> payment_bucket) list" where
  "deleteHtlcsOf d payments =
     (case bGet payments (fst d) of None \<Rightarrow> payments | Some bucket \<Rightarrow> bPut (fst d) (deleteHtlcs (snd d) bucket) payments)"

definition DeletePayments :: "bool \<Rightarrow> bool \<Rightarrow> payments_db \<Rightarrow> payment_error + payments_db" where
  "DeletePayments failedOnly failedHtlcsOnly db =
     (case pd_root db of
        None \<Rightarrow> Inr db
      | Some root \<Rightarrow>
          sbind (collectDeletes failedOnly failedHtlcsOnly (pr_payments root)) (\<lambda>(htlcs, buckets, indexes).
            Inr \<lparr>pd_root = Some (root\<lparr>pr_payments := fold bDelete buckets (fold deleteHtlcsOf htlcs (pr_payments root))\<rparr>),
                 pd_index = fold bDelete indexes (pd_index db)\<rparr>))"

end
