(* ===== verification/Payment_Safety.thy ===== *)
theory Payment_Safety
  imports Payment_Control
begin

text \<open>
  The invariants of the payment database and what they give: a payment with a settled attempt is
  never started again, the attempts of a payment never exceed its value, the status of a payment
  moves only along the edges of the life cycle, and the sequence numbers are unique, also across
  restarts.
\<close>

section \<open>Reading back\<close>

lemma collect_Inr: "(\<And>x. x \<in> set xs \<Longrightarrow> f x = Inr (g x)) \<Longrightarrow> collect f xs = Inr (map g xs)"
  by (induction xs) auto

lemma collect_InrD: "collect f xs = Inr ys \<Longrightarrow> x \<in> set xs \<Longrightarrow> \<exists>y. f x = Inr y"
  by (induction xs arbitrary: ys) (auto simp: sbind_eq_Inr)

lemma collect_same: "collect f xs = Inr ys \<Longrightarrow> (\<And>x y. f x = Inr y \<Longrightarrow> y = x) \<Longrightarrow> ys = xs"
  by (induction xs arbitrary: ys) (auto simp: sbind_eq_Inr)

lemma deserializeHop_same: "deserializeHop h = Inr h' \<Longrightarrow> h' = h"
  by (auto simp: deserializeHop_def split: if_splits)

lemma readHtlcAttemptInfo_same: "readHtlcAttemptInfo a = Inr a' \<Longrightarrow> a' = a"
  by (auto simp: readHtlcAttemptInfo_def DeserializeRoute_def sbind_eq_Inr
      dest!: collect_same [OF _ deserializeHop_same])

lemma htlcBucketKey_inj:
  "length p = length q \<Longrightarrow> htlcBucketKey p i = htlcBucketKey q j \<longleftrightarrow> p = q \<and> i = j"
  by (auto simp: htlcBucketKey_def dest: arg_cong [of _ _ "get_word :: bytes \<Rightarrow> u64"])

section \<open>Well-formed buckets\<close>

definition hb_ok :: "htlcs_bucket \<Rightarrow> bool" where
  "hb_ok hb \<longleftrightarrow> b_ok (hb_ai hb) \<and> b_ok (hb_si hb) \<and> b_ok (hb_fi hb)
     \<and> (\<forall>k. bGet (hb_si hb) k \<noteq> None \<or> bGet (hb_fi hb) k \<noteq> None \<longrightarrow> bGet (hb_ai hb) k \<noteq> None)
     \<and> (\<forall>k. bGet (hb_si hb) k = None \<or> bGet (hb_fi hb) k = None)
     \<and> (\<forall>e \<in> set (hb_ai hb). readHtlcAttemptInfo (snd e) = Inr (snd e))
     \<and> (\<forall>e \<in> set (hb_fi hb). is_ok (readHtlcFailInfo (snd e)))"

definition attemptOf :: "htlcs_bucket \<Rightarrow> u64 \<times> HTLCAttemptInfo \<Rightarrow> HTLCAttempt" where
  "attemptOf hb e =
     \<lparr>ha_Info = (snd e)\<lparr>ai_AttemptID := fst e\<rparr>, ha_Settle = bGet (hb_si hb) (fst e),
      ha_Failure = map_option (projr \<circ> readHtlcFailInfo) (bGet (hb_fi hb) (fst e))\<rparr>"

definition attemptsOf :: "htlcs_bucket \<Rightarrow> HTLCAttempt list" where
  "attemptsOf hb = map (attemptOf hb) (hb_ai hb)"

lemma attemptOf_sel [simp]:
  "ha_Info (attemptOf hb e) = (snd e)\<lparr>ai_AttemptID := fst e\<rparr>"
  "ha_Settle (attemptOf hb e) = bGet (hb_si hb) (fst e)"
  "ha_Failure (attemptOf hb e) = None \<longleftrightarrow> bGet (hb_fi hb) (fst e) = None"
  by (simp_all add: attemptOf_def)

lemma collect_fails:
  assumes "\<forall>e \<in> set fs. is_ok (readHtlcFailInfo (snd e))"
  shows "collect (\<lambda>(aid, v). sbind (readHtlcFailInfo v) (\<lambda>f. Inr (aid, f))) fs
    = Inr (map (\<lambda>(k, v). (k, projr (readHtlcFailInfo v))) fs)"
proof (rule collect_Inr)
  fix e assume "e \<in> set fs"
  with assms have "is_ok (readHtlcFailInfo (snd e))" by blast
  then show "(case e of (aid, v) \<Rightarrow> sbind (readHtlcFailInfo v) (\<lambda>f. Inr (aid, f)))
      = Inr (case e of (k, v) \<Rightarrow> (k, projr (readHtlcFailInfo v)))"
    by (cases e; cases "readHtlcFailInfo (snd e)") auto
qed

lemma collect_infos:
  assumes "\<forall>e \<in> set es. readHtlcAttemptInfo (snd e) = Inr (snd e)"
  shows "collect (\<lambda>(aid, v). sbind (readHtlcAttemptInfo v) (\<lambda>a. Inr (aid, a\<lparr>ai_AttemptID := aid\<rparr>))) es
    = Inr (map (\<lambda>(k, v). (k, v\<lparr>ai_AttemptID := k\<rparr>)) es)"
  by (rule collect_Inr) (use assms in force)

lemma sort_remdups_keys:
  assumes "b_ok es" "set ks \<subseteq> fst ` set es"
  shows "sort (remdups (map fst es @ ks)) = map fst es"
proof (rule sorted_distinct_set_unique)
  show "set (sort (remdups (map fst es @ ks))) = set (map fst es)" using assms(2) by auto
qed (use assms(1) b_ok_sorted b_ok_distinct in auto)

lemma map_of_map_entry: "map_of (map (\<lambda>(k, v). (k, f k v)) es) k = map_option (f k) (map_of es k)"
  by (induction es) auto

lemma fetchHtlcAttempts_ok:
  assumes "hb_ok hb"
  shows "fetchHtlcAttempts hb = Inr (attemptsOf hb)"
proof -
  let ?infos = "map (\<lambda>(k, v). (k, v\<lparr>ai_AttemptID := k\<rparr>)) (hb_ai hb)"
  let ?fails = "map (\<lambda>(k, v). (k, projr (readHtlcFailInfo v))) (hb_fi hb)"
  let ?keys = "remdups (map fst ?infos @ map fst ?fails @ map fst (hb_si hb))"
  have keys: "map fst ?infos = map fst (hb_ai hb)" "map fst ?fails = map fst (hb_fi hb)" by auto
  have "k \<in> fst ` set (hb_ai hb)" if "k \<in> fst ` set (hb_fi hb) \<union> fst ` set (hb_si hb)" for k
    using that assms unfolding hb_ok_def Un_iff keys_bGet by blast
  then have "set (map fst ?fails @ map fst (hb_si hb)) \<subseteq> fst ` set (hb_ai hb)"
    unfolding keys set_append set_map by blast
  then have sorted: "sort ?keys = map fst (hb_ai hb)"
    using sort_remdups_keys [of "hb_ai hb" "map fst ?fails @ map fst (hb_si hb)"] assms
    unfolding keys by (simp add: hb_ok_def)
  have len: "length ?infos = length ?keys"
    using arg_cong [OF sorted, of length] by (simp only: length_sort length_map)
  have "\<lparr>ha_Info = (case bGet ?infos (fst e) of None \<Rightarrow> zeroAttemptInfo | Some a \<Rightarrow> a),
         ha_Settle = bGet (hb_si hb) (fst e), ha_Failure = bGet ?fails (fst e)\<rparr> = attemptOf hb e"
    if "e \<in> set (hb_ai hb)" for e
  proof -
    obtain k v where "e = (k, v)" by (rule prod.exhaust)
    with that assms show ?thesis by (auto simp: attemptOf_def hb_ok_def b_ok_in_set map_of_map_entry comp_def)
  qed
  then show ?thesis
    using assms len sorted
    by (simp add: fetchHtlcAttempts_def collect_infos collect_fails hb_ok_def attemptsOf_def Let_def comp_def split_beta)
qed

text \<open>What a bucket that is read successfully has to satisfy: the check that an operation makes before it commits.\<close>

lemma fetchHtlcAttempts_InrD:
  assumes "fetchHtlcAttempts hb = Inr hs"
  shows "\<forall>e \<in> set (hb_ai hb). readHtlcAttemptInfo (snd e) = Inr (snd e)"
    and "\<forall>e \<in> set (hb_fi hb). is_ok (readHtlcFailInfo (snd e))"
proof -
  obtain xs ys
    where xs: "collect (\<lambda>(aid, v). sbind (readHtlcAttemptInfo v) (\<lambda>a. Inr (aid, a\<lparr>ai_AttemptID := aid\<rparr>))) (hb_ai hb) = Inr xs"
      and ys: "collect (\<lambda>(aid, v). sbind (readHtlcFailInfo v) (\<lambda>f. Inr (aid, f))) (hb_fi hb) = Inr ys"
    using assms by (auto simp: fetchHtlcAttempts_def sbind_eq_Inr)
  show "\<forall>e \<in> set (hb_ai hb). readHtlcAttemptInfo (snd e) = Inr (snd e)"
    using collect_InrD [OF xs] by (fastforce simp: sbind_eq_Inr dest: readHtlcAttemptInfo_same)
  show "\<forall>e \<in> set (hb_fi hb). is_ok (readHtlcFailInfo (snd e))"
    using collect_InrD [OF ys] by (fastforce simp: sbind_eq_Inr)
qed

definition bucket_ok :: "payment_bucket \<Rightarrow> bool" where
  "bucket_ok b \<longleftrightarrow> pb_sequence b \<noteq> None \<and> pb_creationInfo b \<noteq> None \<and> (\<forall>hb. pb_htlcs b = Some hb \<longrightarrow> hb_ok hb)"

definition htlcsOf :: "payment_bucket \<Rightarrow> HTLCAttempt list" where
  "htlcsOf b = (case pb_htlcs b of None \<Rightarrow> [] | Some hb \<Rightarrow> attemptsOf hb)"

definition inflightOf :: "payment_bucket \<Rightarrow> bool" where
  "inflightOf b \<longleftrightarrow> (\<exists>h \<in> set (htlcsOf b). ha_Failure h = None \<and> ha_Settle h = None)"

definition settledOf :: "payment_bucket \<Rightarrow> bool" where
  "settledOf b \<longleftrightarrow> (\<exists>h \<in> set (htlcsOf b). ha_Failure h = None \<and> ha_Settle h \<noteq> None)"

definition bucketStatus :: "payment_bucket \<Rightarrow> PaymentStatus" where
  "bucketStatus b =
     (if inflightOf b then StatusInFlight
      else if settledOf b then StatusSucceeded
      else if pb_failInfo b \<noteq> None then StatusFailed
      else StatusInFlight)"

definition paymentOf :: "payment_bucket \<Rightarrow> MPPayment" where
  "paymentOf b = \<lparr>mp_SequenceNum = the (pb_sequence b), mp_Info = the (pb_creationInfo b), mp_HTLCs = htlcsOf b,
                  mp_FailureReason = pb_failInfo b, mp_Status = bucketStatus b\<rparr>"

lemma scanHtlcs_flags:
  "scanHtlcs hs (i, s) =
     (i \<or> (\<exists>h \<in> set hs. ha_Failure h = None \<and> ha_Settle h = None),
      s \<or> (\<exists>h \<in> set hs. ha_Failure h = None \<and> ha_Settle h \<noteq> None))"
  by (induction hs arbitrary: i s) auto

lemma paymentStatus_bucket: "paymentStatus (htlcsOf b) (pb_failInfo b) = bucketStatus b"
  by (auto simp: paymentStatus_def scanHtlcs_flags bucketStatus_def inflightOf_def settledOf_def)

lemma fetchPayment_ok: "bucket_ok b \<Longrightarrow> fetchPayment b = Inr (paymentOf b)"
  using paymentStatus_bucket [of b]
  by (cases "pb_htlcs b")
    (auto simp: bucket_ok_def fetchPayment_def fetchCreationInfo_def paymentOf_def htlcsOf_def fetchHtlcAttempts_ok)

lemma fetchPaymentStatus_ok: "bucket_ok b \<Longrightarrow> fetchPaymentStatus b = Inr (bucketStatus b)"
  by (simp add: fetchPaymentStatus_def fetchPayment_ok) (auto simp: bucket_ok_def paymentOf_def)

lemma fetchPaymentStatus_empty: "fetchPaymentStatus emptyBucket = Inr StatusUnknown"
  by (simp add: fetchPaymentStatus_def emptyBucket_def)

lemma fetchFailedHtlcKeys_ok:
  "bucket_ok b \<Longrightarrow> fetchFailedHtlcKeys b
     = Inr (map (\<lambda>h. ai_AttemptID (ha_Info h)) (filter (\<lambda>h. ha_Failure h \<noteq> None) (htlcsOf b)))"
  by (cases "pb_htlcs b") (auto simp: bucket_ok_def fetchFailedHtlcKeys_def htlcsOf_def fetchHtlcAttempts_ok)

lemma fetchPayment_hb_readable:
  "fetchPayment b = Inr p \<Longrightarrow> pb_htlcs b = Some hb \<Longrightarrow> \<exists>hs. fetchHtlcAttempts hb = Inr hs"
  by (auto simp: fetchPayment_def sbind_eq_Inr split: option.splits)

section \<open>Well-formed states\<close>

definition bucketAt :: "PaymentControl \<Rightarrow> Hash \<Rightarrow> payment_bucket option" where
  "bucketAt p h = (case pd_root (pc_db p) of None \<Rightarrow> None | Some r \<Rightarrow> bGet (pr_payments r) h)"

definition payments_ok :: "PaymentControl \<Rightarrow> bool" where
  "payments_ok p \<longleftrightarrow> (\<forall>r. pd_root (pc_db p) = Some r \<longrightarrow> b_ok (pr_payments r))
     \<and> (\<forall>h b. bucketAt p h = Some b \<longrightarrow> bucket_ok b)"

lemma fetchPaymentBucketUpdate_Inr:
  "fetchPaymentBucketUpdate db h = Inr (root, b) \<longleftrightarrow> pd_root db = Some root \<and> bGet (pr_payments root) h = Some b"
  by (auto simp: fetchPaymentBucketUpdate_def split: option.splits)

lemma FetchPayment_ok:
  "payments_ok p \<Longrightarrow> FetchPayment p h = (case bucketAt p h of None \<Rightarrow> Inl ErrPaymentNotInitiated | Some b \<Rightarrow> Inr (paymentOf b))"
  by (auto simp: FetchPayment_def fetchPaymentBucket_def bucketAt_def payments_ok_def fetchPayment_ok split: option.splits)

lemma writeBucket_sel [simp]:
  "pd_root (writeBucket root h b db) = Some (root\<lparr>pr_payments := bPut h b (pr_payments root)\<rparr>)"
  "pd_index (writeBucket root h b db) = pd_index db"
  by (simp_all add: writeBucket_def)

lemma bucketAt_write:
  "pd_root (pc_db p) = Some root \<Longrightarrow> bucketAt (p\<lparr>pc_db := writeBucket root h b (pc_db p)\<rparr>) = (bucketAt p)(h \<mapsto> b)"
  by (auto simp: bucketAt_def kv.get_put)

lemma payments_ok_write:
  assumes "payments_ok p" "pd_root (pc_db p) = Some root" "bucket_ok b"
  shows "payments_ok (p\<lparr>pc_db := writeBucket root h b (pc_db p)\<rparr>)"
  using assms bucketAt_write [OF assms(2), of h b] by (auto simp: payments_ok_def bPut_ok)


section \<open>What each operation does\<close>

text \<open>Registering an attempt: the checks passed, the bucket has the attempt, and reads back.\<close>

definition withAttempt :: "u64 \<Rightarrow> HTLCAttemptInfo \<Rightarrow> payment_bucket \<Rightarrow> payment_bucket" where
  "withAttempt aid v b =
     (let hb = (case pb_htlcs b of None \<Rightarrow> emptyHtlcs | Some hb \<Rightarrow> hb)
      in b\<lparr>pb_htlcs := Some (hb\<lparr>hb_ai := bPut aid v (hb_ai hb)\<rparr>)\<rparr>)"

lemma withAttempt_sel [simp]:
  "pb_sequence (withAttempt aid v b) = pb_sequence b"
  "pb_creationInfo (withAttempt aid v b) = pb_creationInfo b"
  "pb_failInfo (withAttempt aid v b) = pb_failInfo b"
  "pb_duplicates (withAttempt aid v b) = pb_duplicates b"
  by (simp_all add: withAttempt_def Let_def)

lemma hb_ok_empty: "hb_ok emptyHtlcs"
  by (simp add: hb_ok_def emptyHtlcs_def)

lemma hb_ok_put_ai:
  assumes "hb_ok hb" "readHtlcAttemptInfo v = Inr v"
  shows "hb_ok (hb\<lparr>hb_ai := bPut aid v (hb_ai hb)\<rparr>)"
  using assms by (auto simp: hb_ok_def bPut_ok kv.get_put dest!: bPut_entries)

lemma bucket_ok_withAttempt:
  assumes "bucket_ok b" "fetchPayment (withAttempt aid v b) = Inr pay"
  shows "bucket_ok (withAttempt aid v b)"
proof -
  let ?hb = "case pb_htlcs b of None \<Rightarrow> emptyHtlcs | Some hb \<Rightarrow> hb"
  have hb: "hb_ok ?hb" using assms(1) by (auto simp: bucket_ok_def hb_ok_empty split: option.splits)
  have w: "pb_htlcs (withAttempt aid v b) = Some (?hb\<lparr>hb_ai := bPut aid v (hb_ai ?hb)\<rparr>)"
    by (simp add: withAttempt_def Let_def)
  obtain hs where "fetchHtlcAttempts (?hb\<lparr>hb_ai := bPut aid v (hb_ai ?hb)\<rparr>) = Inr hs"
    using fetchPayment_hb_readable [OF assms(2) w] by blast
  then have "\<forall>e \<in> set (bPut aid v (hb_ai ?hb)). readHtlcAttemptInfo (snd e) = Inr (snd e)"
    using fetchHtlcAttempts_InrD(1) by fastforce
  moreover have "(aid, v) \<in> set (bPut aid v (hb_ai ?hb))"
    by (simp add: b_ok_in_set kv.get_put bPut_ok hb [unfolded hb_ok_def])
  ultimately have "readHtlcAttemptInfo v = Inr v" by force
  then show ?thesis
    using assms(1) hb_ok_put_ai [OF hb] w by (auto simp: bucket_ok_def)
qed

lemma RegisterAttempt_InrD:
  assumes "payments_ok p" "RegisterAttempt h a p = Inr (p', pay)"
  obtains root b v where "pd_root (pc_db p) = Some root" "bucketAt p h = Some b" "bucket_ok b"
    "serializeHTLCAttemptInfo a = Inr v" "checkAttempt (paymentOf b) a = Inr ()"
    "bucket_ok (withAttempt (ai_AttemptID a) v b)"
    "p' = p\<lparr>pc_db := writeBucket root h (withAttempt (ai_AttemptID a) v b) (pc_db p)\<rparr>"
    "pay = paymentOf (withAttempt (ai_AttemptID a) v b)"
proof -
  obtain root b v pp
    where v: "serializeHTLCAttemptInfo a = Inr v"
      and root: "pd_root (pc_db p) = Some root" and at: "bGet (pr_payments root) h = Some b"
      and pp: "fetchPayment b = Inr pp" and chk: "checkAttempt pp a = Inr ()"
      and pay: "fetchPayment (withAttempt (ai_AttemptID a) v b) = Inr pay"
      and p': "p' = p\<lparr>pc_db := writeBucket root h (withAttempt (ai_AttemptID a) v b) (pc_db p)\<rparr>"
    using assms(2)
    by (auto simp: RegisterAttempt_def sbind_eq_Inr fetchPaymentBucketUpdate_Inr withAttempt_def Let_def)
  have b: "bucketAt p h = Some b" using root at by (simp add: bucketAt_def)
  with assms(1) have ok: "bucket_ok b" by (auto simp: payments_ok_def)
  with pp have "pp = paymentOf b" by (simp add: fetchPayment_ok)
  moreover have "bucket_ok (withAttempt (ai_AttemptID a) v b)" by (rule bucket_ok_withAttempt [OF ok pay])
  ultimately show thesis using that root b v chk p' pay ok by (simp add: fetchPayment_ok)
qed

text \<open>Settling or failing an attempt: it was registered and neither settled nor failed.\<close>

definition withUpdate :: "u64 \<Rightarrow> htlc_update \<Rightarrow> htlcs_bucket \<Rightarrow> payment_bucket \<Rightarrow> payment_bucket" where
  "withUpdate aid upd hb b = b\<lparr>pb_htlcs := Some (putHtlcKey aid upd hb)\<rparr>"

lemma hb_ok_update:
  assumes "hb_ok hb" "bGet (hb_ai hb) aid \<noteq> None" "bGet (hb_fi hb) aid = None" "bGet (hb_si hb) aid = None"
    and "\<forall>e \<in> set (hb_fi (putHtlcKey aid upd hb)). is_ok (readHtlcFailInfo (snd e))"
  shows "hb_ok (putHtlcKey aid upd hb)"
  using assms by (cases upd) (auto simp: hb_ok_def bPut_ok kv.get_put)

lemma updateHtlcKey_InrD:
  assumes "payments_ok p" "updateHtlcKey h aid upd p = Inr (p', pay)"
  obtains root b hb where "pd_root (pc_db p) = Some root" "bucketAt p h = Some b" "bucket_ok b"
    "bucketStatus b = StatusInFlight" "pb_htlcs b = Some hb" "hb_ok hb"
    "bGet (hb_ai hb) aid \<noteq> None" "bGet (hb_fi hb) aid = None" "bGet (hb_si hb) aid = None"
    "bucket_ok (withUpdate aid upd hb b)"
    "p' = p\<lparr>pc_db := writeBucket root h (withUpdate aid upd hb b) (pc_db p)\<rparr>"
    "pay = paymentOf (withUpdate aid upd hb b)"
proof -
  obtain root b pp
    where root: "pd_root (pc_db p) = Some root" and at: "bGet (pr_payments root) h = Some b"
      and pp: "fetchPayment b = Inr pp" and inf: "ensureInFlight pp = Inr ()"
      and rest: "(case pb_htlcs b of
         None \<Rightarrow> Inl HtlcsBucketNotFound
       | Some hb \<Rightarrow>
           if bGet (hb_ai hb) aid = None then Inl (HtlcNotRegistered aid)
           else if bGet (hb_fi hb) aid \<noteq> None then Inl ErrAttemptAlreadyFailed
           else if bGet (hb_si hb) aid \<noteq> None then Inl ErrAttemptAlreadySettled
           else sbind (fetchPayment (withUpdate aid upd hb b)) (\<lambda>payment.
                  Inr (p\<lparr>pc_db := writeBucket root h (withUpdate aid upd hb b) (pc_db p)\<rparr>, payment))) = Inr (p', pay)"
    using assms(2) unfolding updateHtlcKey_def Let_def withUpdate_def [symmetric]
    by (auto simp: fetchPaymentBucketUpdate_Inr sbind_eq_Inr [of "fetchPaymentBucketUpdate db b" for db b] sbind_eq_Inr [of "fetchPayment b" for b]
        sbind_eq_Inr [of "ensureInFlight b" for b])
  obtain hb where hb: "pb_htlcs b = Some hb"
      and keys: "bGet (hb_ai hb) aid \<noteq> None" "bGet (hb_fi hb) aid = None" "bGet (hb_si hb) aid = None"
      and pay: "fetchPayment (withUpdate aid upd hb b) = Inr pay"
      and p': "p' = p\<lparr>pc_db := writeBucket root h (withUpdate aid upd hb b) (pc_db p)\<rparr>"
    using rest by (auto simp: sbind_eq_Inr split: option.splits if_splits)
  have b: "bucketAt p h = Some b" using root at by (simp add: bucketAt_def)
  with assms(1) have ok: "bucket_ok b" by (auto simp: payments_ok_def)
  then have hbok: "hb_ok hb" using hb by (simp add: bucket_ok_def)
  have st: "bucketStatus b = StatusInFlight"
    using pp inf ok by (auto simp: fetchPayment_ok ensureInFlight_def paymentOf_def split: PaymentStatus.splits)
  obtain hs where "fetchHtlcAttempts (putHtlcKey aid upd hb) = Inr hs"
    using fetchPayment_hb_readable [OF pay] by (auto simp: withUpdate_def)
  then have "hb_ok (putHtlcKey aid upd hb)"
    using hb_ok_update [OF hbok keys] fetchHtlcAttempts_InrD(2) by blast
  then have "bucket_ok (withUpdate aid upd hb b)"
    using ok by (auto simp: bucket_ok_def withUpdate_def)
  then show thesis using that root b ok st hb hbok keys p' pay by (simp add: fetchPayment_ok)
qed

lemma bucket_ok_fail: "bucket_ok (b\<lparr>pb_failInfo := r\<rparr>) = bucket_ok b"
  by (simp add: bucket_ok_def)

lemma Fail_InrD:
  assumes "payments_ok p" "Fail h r p = Inr (p', pay)"
  obtains root b where "pd_root (pc_db p) = Some root" "bucketAt p h = Some b" "bucket_ok b"
    "p' = p\<lparr>pc_db := writeBucket root h (b\<lparr>pb_failInfo := Some r\<rparr>) (pc_db p)\<rparr>"
    "pay = paymentOf (b\<lparr>pb_failInfo := Some r\<rparr>)"
proof -
  obtain root b
    where root: "pd_root (pc_db p) = Some root" and at: "bGet (pr_payments root) h = Some b"
      and pay: "fetchPayment (b\<lparr>pb_failInfo := Some r\<rparr>) = Inr pay"
      and p': "p' = p\<lparr>pc_db := writeBucket root h (b\<lparr>pb_failInfo := Some r\<rparr>) (pc_db p)\<rparr>"
    using assms(2) by (auto simp: Fail_def sbind_eq_Inr fetchPaymentBucketUpdate_Inr Let_def split: if_splits)
  have b: "bucketAt p h = Some b" using root at by (simp add: bucketAt_def)
  with assms(1) have ok: "bucket_ok b" by (auto simp: payments_ok_def)
  then show thesis using that root b p' pay by (simp add: fetchPayment_ok bucket_ok_fail)
qed


text \<open>Starting a payment: refused when it is in flight or has succeeded, otherwise a fresh bucket.\<close>

definition statusAt :: "PaymentControl \<Rightarrow> Hash \<Rightarrow> PaymentStatus" where
  "statusAt p h = (case bucketAt p h of None \<Rightarrow> StatusUnknown | Some b \<Rightarrow> bucketStatus b)"

definition initBucket :: "u64 \<Rightarrow> PaymentCreationInfo \<Rightarrow> payment_bucket \<Rightarrow> payment_bucket" where
  "initBucket s info b =
     b\<lparr>pb_sequence := Some s, pb_creationInfo := Some (serializePaymentCreationInfo info),
       pb_htlcs := None, pb_failInfo := None\<rparr>"

lemma bucket_ok_init: "bucket_ok (initBucket s info b)"
  by (simp add: bucket_ok_def initBucket_def)

lemma bucketStatus_init: "bucketStatus (initBucket s info b) = StatusInFlight"
  by (simp add: bucketStatus_def initBucket_def inflightOf_def settledOf_def htlcsOf_def)

lemma bucketStatus_known: "bucketStatus b \<noteq> StatusUnknown"
  by (simp add: bucketStatus_def)

lemma nextPaymentSequence_payments:
  assumes "nextPaymentSequence p = (p1, s)"
  shows "bucketAt p1 = bucketAt p" "pd_index (pc_db p1) = pd_index (pc_db p)"
    "payments_ok p \<Longrightarrow> payments_ok p1"
proof -
  show at: "bucketAt p1 = bucketAt p"
    using assms by (auto simp: nextPaymentSequence_def Let_def bucketAt_def emptyRoot_def fun_eq_iff split: if_splits option.splits)
  show "pd_index (pc_db p1) = pd_index (pc_db p)"
    using assms by (auto simp: nextPaymentSequence_def Let_def split: if_splits)
  assume "payments_ok p"
  then show "payments_ok p1"
    using assms at
    by (auto simp: payments_ok_def nextPaymentSequence_def Let_def emptyRoot_def split: if_splits option.splits)
qed

lemma initPaymentTx_eq:
  assumes "payments_ok p"
  shows "initPaymentTx h info s (pc_db p) =
    (case createPaymentBucket (pc_db p) h of (root, b) \<Rightarrow>
       Inr (case statusAt p h of
         StatusInFlight \<Rightarrow> ((pc_db p)\<lparr>pd_root := Some root\<rparr>, Some ErrPaymentInFlight)
       | StatusSucceeded \<Rightarrow> ((pc_db p)\<lparr>pd_root := Some root\<rparr>, Some ErrAlreadyPaid)
       | _ \<Rightarrow> ((writeBucket root h (initBucket s info b) (pc_db p))
             \<lparr>pd_index := bPut s (pci_PaymentIdentifier info)
                (case pb_sequence b of None \<Rightarrow> pd_index (pc_db p) | Some o' \<Rightarrow> bDelete o' (pd_index (pc_db p)))\<rparr>, None)))"
proof -
  obtain root b where cb: "createPaymentBucket (pc_db p) h = (root, b)" by (rule prod.exhaust)
  have "fetchPaymentStatus b = Inr (statusAt p h)"
  proof (cases "bucketAt p h")
    case None
    then have "b = emptyBucket"
      using cb by (auto simp: createPaymentBucket_def bucketAt_def emptyRoot_def Let_def split: option.splits)
    then show ?thesis using None by (simp add: fetchPaymentStatus_empty statusAt_def)
  next
    case (Some b')
    then have "b = b'"
      using cb by (auto simp: createPaymentBucket_def bucketAt_def Let_def split: option.splits)
    then show ?thesis using Some assms by (auto simp: fetchPaymentStatus_ok statusAt_def payments_ok_def)
  qed
  then show ?thesis
    by (simp add: initPaymentTx_def cb Let_def initBucket_def split: PaymentStatus.splits)
qed

lemma createPaymentBucket_payments:
  assumes "createPaymentBucket (pc_db p) h = (root, b)"
  shows "b = (case bucketAt p h of None \<Rightarrow> emptyBucket | Some b \<Rightarrow> b)"
    and "bGet (pr_payments root) = (case bucketAt p h of None \<Rightarrow> (bucketAt p)(h \<mapsto> emptyBucket) | Some _ \<Rightarrow> bucketAt p)"
    and "payments_ok p \<Longrightarrow> b_ok (pr_payments root)"
  using assms
  by (auto simp: createPaymentBucket_def bucketAt_def emptyRoot_def Let_def kv.get_put bPut_ok b_ok_Cons payments_ok_def fun_eq_iff
      split: option.splits)

lemma InitPayment_result:
  assumes "payments_ok p"
  shows "snd (InitPayment h info p) =
    (case statusAt p h of StatusInFlight \<Rightarrow> Some ErrPaymentInFlight | StatusSucceeded \<Rightarrow> Some ErrAlreadyPaid | _ \<Rightarrow> None)"
proof -
  obtain p1 s where n: "nextPaymentSequence p = (p1, s)" by (rule prod.exhaust)
  note n1 = nextPaymentSequence_payments [OF n]
  then have "statusAt p1 h = statusAt p h" by (simp add: statusAt_def)
  then show ?thesis
    using initPaymentTx_eq [OF n1(3) [OF assms], of h info s]
    by (auto simp: InitPayment_def n split: prod.splits PaymentStatus.splits)
qed

definition restartable :: "PaymentStatus \<Rightarrow> bool" where
  "restartable st \<longleftrightarrow> st = StatusUnknown \<or> st = StatusFailed"

lemma InitPayment_run:
  assumes "payments_ok p" "nextPaymentSequence p = (p1, s)" "createPaymentBucket (pc_db p1) h = (root, b)"
  shows "InitPayment h info p =
    (if restartable (statusAt p h)
     then (p1\<lparr>pc_db := (writeBucket root h (initBucket s info b) (pc_db p1))
           \<lparr>pd_index := bPut s (pci_PaymentIdentifier info)
              (case pb_sequence b of None \<Rightarrow> pd_index (pc_db p1) | Some o' \<Rightarrow> bDelete o' (pd_index (pc_db p1)))\<rparr>\<rparr>, None)
     else (p1\<lparr>pc_db := (pc_db p1)\<lparr>pd_root := Some root\<rparr>\<rparr>,
           Some (if statusAt p h = StatusInFlight then ErrPaymentInFlight else ErrAlreadyPaid)))"
proof -
  note n1 = nextPaymentSequence_payments [OF assms(2)]
  have "statusAt p1 h = statusAt p h" by (simp add: statusAt_def n1(1))
  then show ?thesis
    using initPaymentTx_eq [OF n1(3) [OF assms(1)], of h info s]
    by (simp add: InitPayment_def assms(2,3) restartable_def split: PaymentStatus.splits)
qed

lemma InitPayment_payments:
  assumes "payments_ok p"
  shows "bucketAt (fst (InitPayment h info p)) =
      (if restartable (statusAt p h)
       then (bucketAt p)(h \<mapsto> initBucket (snd (nextPaymentSequence p)) info
              (case bucketAt p h of None \<Rightarrow> emptyBucket | Some b \<Rightarrow> b))
       else bucketAt p)" (is ?at)
    and "payments_ok (fst (InitPayment h info p))" (is ?ok)
proof -
  obtain p1 s where n: "nextPaymentSequence p = (p1, s)" by (rule prod.exhaust)
  obtain root b where cb: "createPaymentBucket (pc_db p1) h = (root, b)" by (rule prod.exhaust)
  note n1 = nextPaymentSequence_payments [OF n]
  note c = createPaymentBucket_payments [OF cb]
  note run = InitPayment_run [OF assms n cb]
  have known: "bucketAt p h \<noteq> None" if "\<not> restartable (statusAt p h)"
    using that by (auto simp: statusAt_def restartable_def split: option.splits)
  show at: ?at
    using c(1,2) known unfolding run n1(1)
    by (auto simp: bucketAt_def [of "_\<lparr>pc_db := _\<rparr>"] kv.get_put n fun_eq_iff split: option.splits)
  show ?ok
    unfolding payments_ok_def at
    using assms c(3) [OF n1(3) [OF assms]]
    by (auto simp: run bucket_ok_init payments_ok_def bPut_ok split: if_splits)
qed

text \<open>Deleting the failed attempts leaves exactly the others.\<close>

lemma fold_bDelete: "fold bDelete ks es = filter (\<lambda>e. fst e \<notin> set ks) es"
proof (induction ks arbitrary: es)
  case (Cons k ks)
  then show ?case by (simp add: bDelete_def)
qed simp

lemma set_fold_bDelete: "set (fold bDelete ks es) = {e \<in> set es. fst e \<notin> set ks}"
  by (simp add: fold_bDelete)

definition failedKeys :: "payment_bucket \<Rightarrow> u64 list" where
  "failedKeys b = map (\<lambda>h. ai_AttemptID (ha_Info h)) (filter (\<lambda>h. ha_Failure h \<noteq> None) (htlcsOf b))"

lemma failedKeys_eq:
  "pb_htlcs b = Some hb \<Longrightarrow> failedKeys b = map fst (filter (\<lambda>e. bGet (hb_fi hb) (fst e) \<noteq> None) (hb_ai hb))"
  by (simp add: failedKeys_def htlcsOf_def attemptsOf_def filter_map comp_def del: not_None_eq)

lemma deleteHtlcs_sel [simp]:
  "pb_sequence (deleteHtlcs ks b) = pb_sequence b"
  "pb_creationInfo (deleteHtlcs ks b) = pb_creationInfo b"
  "pb_failInfo (deleteHtlcs ks b) = pb_failInfo b"
  "pb_duplicates (deleteHtlcs ks b) = pb_duplicates b"
  by (simp_all add: deleteHtlcs_def)

lemma hb_ok_delete:
  assumes "hb_ok hb"
  shows "hb_ok (hb\<lparr>hb_ai := fold bDelete ks (hb_ai hb), hb_fi := fold bDelete ks (hb_fi hb), hb_si := fold bDelete ks (hb_si hb)\<rparr>)"
  using assms unfolding hb_ok_def by (auto simp: kv.fold_del_ok kv.get_fold_del set_fold_bDelete)

lemma bucket_ok_delete: "bucket_ok b \<Longrightarrow> bucket_ok (deleteHtlcs ks b)"
  by (auto simp: bucket_ok_def hb_ok_delete deleteHtlcs_def)

lemma htlcsOf_delete:
  assumes "bucket_ok b"
  shows "htlcsOf (deleteHtlcs (failedKeys b) b) = filter (\<lambda>h. ha_Failure h = None) (htlcsOf b)"
proof (cases "pb_htlcs b")
  case None
  then show ?thesis by (simp add: deleteHtlcs_def htlcsOf_def)
next
  case (Some hb)
  let ?ks = "failedKeys b"
  have "attemptOf (hb\<lparr>hb_ai := fold bDelete ?ks (hb_ai hb), hb_fi := fold bDelete ?ks (hb_fi hb), hb_si := fold bDelete ?ks (hb_si hb)\<rparr>) e
      = attemptOf hb e" if "fst e \<notin> set ?ks" for e
    using that by (simp add: attemptOf_def kv.get_fold_del)
  moreover have "fst e \<notin> set ?ks \<longleftrightarrow> ha_Failure (attemptOf hb e) = None" if "e \<in> set (hb_ai hb)" for e
    using that by (force simp: failedKeys_eq [OF Some])
  ultimately show ?thesis
    using Some by (auto simp: deleteHtlcs_def htlcsOf_def attemptsOf_def fold_bDelete filter_map comp_def intro!: map_cong filter_cong)
qed

lemma bucketStatus_delete: "bucket_ok b \<Longrightarrow> bucketStatus (deleteHtlcs (failedKeys b) b) = bucketStatus b"
  by (auto simp: bucketStatus_def inflightOf_def settledOf_def htlcsOf_delete)

lemma DeletePayment_InrD:
  assumes "payments_ok p" "DeletePayment h only (pc_db p) = Inr db'"
  shows "bucketAt (p\<lparr>pc_db := db'\<rparr>) =
      (if bucketAt p h = None \<or> statusAt p h = StatusInFlight then bucketAt p
       else if only then (bucketAt p)(h := map_option (\<lambda>b. deleteHtlcs (failedKeys b) b) (bucketAt p h))
       else (bucketAt p)(h := None))" (is ?at)
    and "payments_ok (p\<lparr>pc_db := db'\<rparr>)" (is ?ok)
proof -
  show at: ?at
    using assms
    by (auto simp: DeletePayment_def bucketAt_def statusAt_def sbind_eq_Inr payments_ok_def kv.get_put kv.get_del
        fetchPaymentStatus_ok fetchFailedHtlcKeys_ok failedKeys_def fun_eq_iff split: option.splits if_splits)
  have "\<forall>r. pd_root db' = Some r \<longrightarrow> b_ok (pr_payments r)"
    using assms by (auto simp: DeletePayment_def payments_ok_def sbind_eq_Inr bPut_ok kv.del_ok split: option.splits if_splits)
  then show ?ok
    using assms(1) unfolding payments_ok_def at by (auto simp: bucket_ok_delete split: if_splits)
qed

definition deletable :: "bool \<Rightarrow> payment_bucket \<Rightarrow> bool" where
  "deletable failedOnly b \<longleftrightarrow> bucketStatus b \<noteq> StatusInFlight \<and> (failedOnly \<longrightarrow> bucketStatus b = StatusFailed)"

definition seqsOf :: "payment_bucket \<Rightarrow> u64 list" where
  "seqsOf b = the (pb_sequence b) # (case pb_duplicates b of None \<Rightarrow> [] | Some d \<Rightarrow> map fst d)"

lemma fetchSequenceNumbers_ok: "bucket_ok b \<Longrightarrow> fetchSequenceNumbers b = Inr (seqsOf b)"
  by (auto simp: bucket_ok_def fetchSequenceNumbers_def seqsOf_def)

lemma collectDeletes_InrD:
  assumes "collectDeletes fo fh es = Inr (hs, bs, ix)" "\<forall>e \<in> set es. bucket_ok (snd e)"
  shows "hs = (if fh then map (\<lambda>e. (fst e, failedKeys (snd e))) (filter (\<lambda>e. deletable fo (snd e)) es) else [])
    \<and> bs = (if fh then [] else map fst (filter (\<lambda>e. deletable fo (snd e)) es))
    \<and> ix = (if fh then [] else concat (map (\<lambda>e. seqsOf (snd e)) (filter (\<lambda>e. deletable fo (snd e)) es)))"
  using assms
proof (induction es arbitrary: hs bs ix)
  case (Cons e es)
  obtain k b where e: "e = (k, b)" by (rule prod.exhaust)
  have b: "bucket_ok b" using Cons.prems e by simp
  show ?case
    using Cons b
    by (cases "deletable fo b"; cases fh)
      (auto simp: e fetchPaymentStatus_ok fetchFailedHtlcKeys_ok fetchSequenceNumbers_ok sbind_eq_Inr deletable_def failedKeys_def
        split: if_splits)
qed simp

lemma fold_deleteHtlcsOf:
  assumes "distinct (map fst ds)"
  shows "bGet (fold deleteHtlcsOf ds ps) k =
    (case bGet ps k of None \<Rightarrow> None
     | Some b \<Rightarrow> Some (case bGet ds k of None \<Rightarrow> b | Some ids \<Rightarrow> deleteHtlcs ids b))"
  using assms
proof (induction ds arbitrary: ps)
  case (Cons d ds)
  then have "bGet ds (fst d) = None" by (simp add: map_of_eq_None_iff)
  with Cons show ?case
    by (auto simp: deleteHtlcsOf_def kv.get_put split: option.splits)
qed (simp split: option.splits)

lemma fold_deleteHtlcsOf_ok: "b_ok ps \<Longrightarrow> b_ok (fold deleteHtlcsOf ds ps)"
  by (induction ds arbitrary: ps) (auto simp: deleteHtlcsOf_def bPut_ok split: option.splits)


definition afterDelete :: "bool \<Rightarrow> bool \<Rightarrow> payment_bucket \<Rightarrow> payment_bucket option" where
  "afterDelete fo fh b =
     (if deletable fo b then if fh then Some (deleteHtlcs (failedKeys b) b) else None else Some b)"

lemma map_of_map_filter:
  "distinct (map fst es) \<Longrightarrow> map_of (map (\<lambda>e. (fst e, f (snd e))) (filter (\<lambda>e. P (snd e)) es)) k =
     (case map_of es k of None \<Rightarrow> None | Some v \<Rightarrow> if P v then Some (f v) else None)"
  by (induction es) (auto split: option.splits simp: map_of_eq_None_iff dest!: map_of_SomeD, force)

lemma in_filtered_keys:
  "distinct (map fst es) \<Longrightarrow> k \<in> fst ` set (filter (\<lambda>e. P (snd e)) es) \<longleftrightarrow> (\<exists>v. map_of es k = Some v \<and> P v)"
  by (induction es) (auto simp: image_iff dest: map_of_SomeD)

lemma DeletePayments_InrD:
  assumes "payments_ok p" "DeletePayments fo fh (pc_db p) = Inr db'"
  shows "bucketAt (p\<lparr>pc_db := db'\<rparr>) h = Option.bind (bucketAt p h) (afterDelete fo fh)"
    and "payments_ok (p\<lparr>pc_db := db'\<rparr>)" (is ?ok)
proof -
  have at: "bucketAt (p\<lparr>pc_db := db'\<rparr>) h = Option.bind (bucketAt p h) (afterDelete fo fh)
      \<and> (\<forall>r. pd_root db' = Some r \<longrightarrow> b_ok (pr_payments r))" for h
  proof (cases "pd_root (pc_db p)")
    case None
    with assms(2) show ?thesis by (auto simp: DeletePayments_def bucketAt_def)
  next
    case (Some root)
    let ?es = "pr_payments root"
    have ok: "b_ok ?es" "\<forall>e \<in> set ?es. bucket_ok (snd e)"
      using assms(1) Some by (auto simp: payments_ok_def bucketAt_def b_ok_in_set)
    obtain hs bs ix where c: "collectDeletes fo fh ?es = Inr (hs, bs, ix)"
      and db': "db' = \<lparr>pd_root = Some (root\<lparr>pr_payments := fold bDelete bs (fold deleteHtlcsOf hs ?es)\<rparr>),
                       pd_index = fold bDelete ix (pd_index (pc_db p))\<rparr>"
      using assms(2) Some by (auto simp: DeletePayments_def sbind_eq_Inr)
    note d = b_ok_distinct [OF ok(1)]
    have hs: "distinct (map fst hs)"
      using collectDeletes_InrD [OF c ok(2)] d by (auto simp: comp_def distinct_map_filter)
    have hsAt: "bGet hs h = (case bGet ?es h of None \<Rightarrow> None | Some b \<Rightarrow> if fh \<and> deletable fo b then Some (failedKeys b) else None)"
      using collectDeletes_InrD [OF c ok(2)] map_of_map_filter [OF d, of failedKeys "deletable fo" h]
      by (auto split: option.splits)
    have bsAt: "h \<in> set bs \<longleftrightarrow> \<not> fh \<and> (\<exists>b. bGet ?es h = Some b \<and> deletable fo b)"
      using collectDeletes_InrD [OF c ok(2)] in_filtered_keys [OF d, of h "deletable fo"] by auto
    have "bGet (fold bDelete bs (fold deleteHtlcsOf hs ?es)) h = Option.bind (bGet ?es h) (afterDelete fo fh)"
      unfolding kv.get_fold_del fold_deleteHtlcsOf [OF hs] hsAt bsAt by (auto simp: afterDelete_def split: option.splits)
    then show ?thesis using ok by (simp add: db' bucketAt_def Some kv.fold_del_ok fold_deleteHtlcsOf_ok)
  qed
  then show "bucketAt (p\<lparr>pc_db := db'\<rparr>) h = Option.bind (bucketAt p h) (afterDelete fo fh)" by blast
  from at show ?ok
    using assms(1)
    by (fastforce simp: payments_ok_def afterDelete_def bucket_ok_delete bind_eq_Some_conv split: if_splits)
qed

section \<open>Sequences of operations\<close>

text \<open>
  The operations that the router, the RPC server and a restart of the node perform. An operation
  that returns an error leaves the database as it was, apart from the sequence number that
  \<open>InitPayment\<close> has taken.
\<close>

datatype payment_op =
    OpInit Hash PaymentCreationInfo
  | OpRegister Hash HTLCAttemptInfo
  | OpSettle Hash u64 HTLCSettleInfo
  | OpFailAttempt Hash u64 HTLCFailInfo
  | OpFail Hash FailureReason
  | OpDelete Hash bool
  | OpDeleteAll bool bool
  | OpRestart

definition orElse :: "'e + ('s \<times> 'a) \<Rightarrow> 's \<Rightarrow> 's" where
  "orElse r s = (case r of Inl _ \<Rightarrow> s | Inr (s', _) \<Rightarrow> s')"

fun apply_op :: "payment_op \<Rightarrow> PaymentControl \<Rightarrow> PaymentControl" where
  "apply_op (OpInit h info) p = fst (InitPayment h info p)"
| "apply_op (OpRegister h a) p = orElse (RegisterAttempt h a p) p"
| "apply_op (OpSettle h aid s) p = orElse (SettleAttempt h aid s p) p"
| "apply_op (OpFailAttempt h aid f) p = orElse (FailAttempt h aid f p) p"
| "apply_op (OpFail h r) p = orElse (Fail h r p) p"
| "apply_op (OpDelete h only) p =
     (case DeletePayment h only (pc_db p) of Inl _ \<Rightarrow> p | Inr db \<Rightarrow> p\<lparr>pc_db := db\<rparr>)"
| "apply_op (OpDeleteAll fo fh) p =
     (case DeletePayments fo fh (pc_db p) of Inl _ \<Rightarrow> p | Inr db \<Rightarrow> p\<lparr>pc_db := db\<rparr>)"
| "apply_op OpRestart p = NewPaymentControl (pc_db p)"

text \<open>The operations that may remove a payment that has succeeded.\<close>

fun forgets :: "Hash \<Rightarrow> payment_op \<Rightarrow> bool" where
  "forgets h (OpDelete h' only) \<longleftrightarrow> h' = h \<and> \<not> only"
| "forgets h (OpDeleteAll fo fh) \<longleftrightarrow> \<not> fo \<and> \<not> fh"
| "forgets h _ \<longleftrightarrow> False"

text \<open>What an operation does to the bucket of one payment.\<close>

inductive bucket_step :: "Hash \<Rightarrow> payment_op \<Rightarrow> payment_bucket option \<Rightarrow> payment_bucket option \<Rightarrow> bool" for h where
  same: "bucket_step h op b b"
| init: "b = None \<or> (\<exists>b'. b = Some b' \<and> bucketStatus b' = StatusFailed) \<Longrightarrow>
    bucket_step h (OpInit h info) b (Some (initBucket s info (case b of None \<Rightarrow> emptyBucket | Some b' \<Rightarrow> b')))"
| register: "serializeHTLCAttemptInfo a = Inr v \<Longrightarrow> checkAttempt (paymentOf b) a = Inr () \<Longrightarrow>
    bucket_ok (withAttempt (ai_AttemptID a) v b) \<Longrightarrow>
    bucket_step h (OpRegister h a) (Some b) (Some (withAttempt (ai_AttemptID a) v b))"
| update: "op = OpSettle h aid s \<and> upd = SettleKey (serializeHTLCSettleInfo s)
      \<or> op = OpFailAttempt h aid f \<and> upd = FailKey (serializeHTLCFailInfo f) \<Longrightarrow>
    bucketStatus b = StatusInFlight \<Longrightarrow> pb_htlcs b = Some hb \<Longrightarrow>
    bGet (hb_ai hb) aid \<noteq> None \<Longrightarrow> bGet (hb_fi hb) aid = None \<Longrightarrow> bGet (hb_si hb) aid = None \<Longrightarrow>
    bucket_ok (withUpdate aid upd hb b) \<Longrightarrow>
    bucket_step h op (Some b) (Some (withUpdate aid upd hb b))"
| fail: "bucket_step h (OpFail h r) (Some b) (Some (b\<lparr>pb_failInfo := Some r\<rparr>))"
| prune: "bucketStatus b \<noteq> StatusInFlight \<Longrightarrow> bucket_step h op (Some b) (Some (deleteHtlcs (failedKeys b) b))"
| delete: "bucketStatus b \<noteq> StatusInFlight \<Longrightarrow> forgets h op \<or> bucketStatus b = StatusFailed \<Longrightarrow>
    bucket_step h op (Some b) None"

inductive_cases bucket_step_SomeE: "bucket_step h op (Some b) c"

lemma bucket_step_write:
  assumes "pd_root (pc_db p) = Some root" "bucketAt p h' = Some b"
    and "h' = h \<Longrightarrow> bucket_step h op (Some b) (Some b')"
  shows "bucket_step h op (bucketAt p h) (bucketAt (p\<lparr>pc_db := writeBucket root h' b' (pc_db p)\<rparr>) h)"
  using assms by (auto simp: bucketAt_write bucket_step.same)


lemma updateHtlcKey_step:
  assumes "payments_ok p"
    and "op = OpSettle h' aid s \<and> upd = SettleKey (serializeHTLCSettleInfo s)
      \<or> op = OpFailAttempt h' aid f \<and> upd = FailKey (serializeHTLCFailInfo f)"
  shows "payments_ok (orElse (updateHtlcKey h' aid upd p) p)
    \<and> bucket_step h op (bucketAt p h) (bucketAt (orElse (updateHtlcKey h' aid upd p) p) h)"
proof (cases "updateHtlcKey h' aid upd p")
  case (Inl e)
  then show ?thesis using assms by (simp add: orElse_def bucket_step.same)
next
  case (Inr r)
  obtain p' pay where r: "r = (p', pay)" by (rule prod.exhaust)
  show ?thesis
  proof (rule updateHtlcKey_InrD [OF assms(1) Inr [unfolded r]])
    fix root b hb
    assume root: "pd_root (pc_db p) = Some root" and b: "bucketAt p h' = Some b"
      and rest: "bucketStatus b = StatusInFlight" "pb_htlcs b = Some hb"
        "bGet (hb_ai hb) aid \<noteq> None" "bGet (hb_fi hb) aid = None" "bGet (hb_si hb) aid = None"
        "bucket_ok (withUpdate aid upd hb b)"
      and p': "p' = p\<lparr>pc_db := writeBucket root h' (withUpdate aid upd hb b) (pc_db p)\<rparr>"
    have "bucket_step h op (Some b) (Some (withUpdate aid upd hb b))" if "h' = h"
      using bucket_step.update [OF _ rest] assms(2) that by blast
    then show ?thesis
      using payments_ok_write [OF assms(1) root rest(6)] bucket_step_write [OF root b]
      by (simp add: Inr r orElse_def p')
  qed
qed

lemma RegisterAttempt_step:
  assumes "payments_ok p"
  shows "payments_ok (apply_op (OpRegister h' a) p)
    \<and> bucket_step h (OpRegister h' a) (bucketAt p h) (bucketAt (apply_op (OpRegister h' a) p) h)"
proof (cases "RegisterAttempt h' a p")
  case (Inl e)
  then show ?thesis using assms by (simp add: orElse_def bucket_step.same)
next
  case (Inr r)
  obtain p' pay where r: "r = (p', pay)" by (rule prod.exhaust)
  show ?thesis
  proof (rule RegisterAttempt_InrD [OF assms Inr [unfolded r]])
    fix root b v
    assume root: "pd_root (pc_db p) = Some root" and b: "bucketAt p h' = Some b"
      and rest: "serializeHTLCAttemptInfo a = Inr v" "checkAttempt (paymentOf b) a = Inr ()"
        "bucket_ok (withAttempt (ai_AttemptID a) v b)"
      and p': "p' = p\<lparr>pc_db := writeBucket root h' (withAttempt (ai_AttemptID a) v b) (pc_db p)\<rparr>"
    show ?thesis
      using payments_ok_write [OF assms root rest(3)] bucket_step_write [OF root b] bucket_step.register [OF rest]
      by (auto simp: Inr r orElse_def p')
  qed
qed

lemma Fail_step:
  assumes "payments_ok p"
  shows "payments_ok (apply_op (OpFail h' r) p)
    \<and> bucket_step h (OpFail h' r) (bucketAt p h) (bucketAt (apply_op (OpFail h' r) p) h)"
proof (cases "Fail h' r p")
  case (Inl e)
  then show ?thesis using assms by (simp add: orElse_def bucket_step.same)
next
  case (Inr x)
  obtain p' pay where x: "x = (p', pay)" by (rule prod.exhaust)
  show ?thesis
  proof (rule Fail_InrD [OF assms Inr [unfolded x]])
    fix root b
    assume root: "pd_root (pc_db p) = Some root" and b: "bucketAt p h' = Some b" and ok: "bucket_ok b"
      and p': "p' = p\<lparr>pc_db := writeBucket root h' (b\<lparr>pb_failInfo := Some r\<rparr>) (pc_db p)\<rparr>"
    show ?thesis
      using payments_ok_write [OF assms root bucket_ok_fail [THEN iffD2, OF ok]] bucket_step_write [OF root b] bucket_step.fail
      by (auto simp: Inr x orElse_def p')
  qed
qed

lemma InitPayment_step:
  assumes "payments_ok p"
  shows "bucket_step h (OpInit h' info) (bucketAt p h) (bucketAt (apply_op (OpInit h' info) p) h)"
proof (cases "h' = h \<and> restartable (statusAt p h)")
  case True
  then have "bucketAt p h = None \<or> (\<exists>b'. bucketAt p h = Some b' \<and> bucketStatus b' = StatusFailed)"
    using bucketStatus_known by (auto simp: restartable_def statusAt_def split: option.splits)
  from bucket_step.init [OF this] True show ?thesis by (auto simp: InitPayment_payments [OF assms])
next
  case False
  then show ?thesis by (auto simp: InitPayment_payments [OF assms] bucket_step.same)
qed

lemma DeletePayment_step:
  assumes "payments_ok p" "DeletePayment h' only (pc_db p) = Inr db'"
  shows "bucket_step h (OpDelete h' only) (bucketAt p h) (bucketAt (p\<lparr>pc_db := db'\<rparr>) h)"
  unfolding DeletePayment_InrD(1) [OF assms]
  by (cases "bucketAt p h") (auto simp: statusAt_def intro: bucket_step.intros)

lemma DeletePayments_step:
  assumes "payments_ok p" "DeletePayments fo fh (pc_db p) = Inr db'"
  shows "bucket_step h (OpDeleteAll fo fh) (bucketAt p h) (bucketAt (p\<lparr>pc_db := db'\<rparr>) h)"
  unfolding DeletePayments_InrD(1) [OF assms]
  by (cases "bucketAt p h") (auto simp: afterDelete_def deletable_def intro: bucket_step.intros)

text \<open>Every operation keeps the database well-formed and acts on each payment as a step of its bucket.\<close>

lemma bucketAt_restart: "bucketAt (NewPaymentControl (pc_db p)) = bucketAt p"
  by (simp add: bucketAt_def NewPaymentControl_def fun_eq_iff)

lemma apply_op_step:
  assumes "payments_ok p"
  shows "payments_ok (apply_op op p) \<and> bucket_step h op (bucketAt p h) (bucketAt (apply_op op p) h)"
proof (cases op)
  case (OpDelete h' only)
  then show ?thesis
    using assms DeletePayment_InrD(2) DeletePayment_step by (auto simp: bucket_step.same split: sum.splits)
next
  case (OpDeleteAll fo fh)
  then show ?thesis
    using assms DeletePayments_InrD(2) DeletePayments_step by (auto simp: bucket_step.same split: sum.splits)
next
  case OpRestart
  then show ?thesis
    using assms by (simp add: payments_ok_def bucketAt_restart bucket_step.same) (simp add: NewPaymentControl_def)
qed (use assms InitPayment_step InitPayment_payments(2) RegisterAttempt_step Fail_step updateHtlcKey_step in
      \<open>auto simp: SettleAttempt_def FailAttempt_def\<close>)


section \<open>Runs\<close>

text \<open>
  A system whose operations are observed through a view: each operation keeps the state well-formed
  and moves the view by a step. What the allowed steps keep is kept by every run of allowed
  operations.
\<close>

locale viewed_system =
  fixes run_op :: "'o \<Rightarrow> 's \<Rightarrow> 's" and ok :: "'s \<Rightarrow> bool" and view :: "'s \<Rightarrow> 'v"
    and good :: "'v \<Rightarrow> bool" and vstep :: "'o \<Rightarrow> 'v \<Rightarrow> 'v \<Rightarrow> bool"
  assumes op_ok: "ok s \<Longrightarrow> ok (run_op op s)"
    and op_step: "ok s \<Longrightarrow> vstep op (view s) (view (run_op op s))"
    and view_good: "ok s \<Longrightarrow> good (view s)"
begin

lemma run_ok: "ok s \<Longrightarrow> ok (fold run_op ops s)"
  by (induction ops arbitrary: s) (simp_all add: op_ok)

lemma run_keeps:
  assumes "\<And>op v v'. allowed op \<Longrightarrow> good v \<Longrightarrow> good v' \<Longrightarrow> vstep op v v' \<Longrightarrow> P v \<Longrightarrow> P v'"
  shows "ok s \<Longrightarrow> P (view s) \<Longrightarrow> \<forall>op \<in> set ops. allowed op \<Longrightarrow> P (view (fold run_op ops s))"
proof (induction ops arbitrary: s)
  case (Cons op ops)
  then have "P (view (run_op op s))"
    using assms [OF _ view_good view_good op_step] op_ok by (metis list.set_intros(1))
  with Cons show ?case by (simp add: op_ok)
qed simp

end

interpretation payments: viewed_system apply_op payments_ok "\<lambda>p. bucketAt p h"
    "\<lambda>b. \<forall>x. b = Some x \<longrightarrow> bucket_ok x" "bucket_step h" for h
proof
  fix p op
  assume p: "payments_ok p"
  show "payments_ok (apply_op op p)" "bucket_step h op (bucketAt p h) (bucketAt (apply_op op p) h)"
    using apply_op_step [OF p] by blast+
  show "\<forall>x. bucketAt p h = Some x \<longrightarrow> bucket_ok x" using p by (simp add: payments_ok_def)
qed

definition freshControl :: PaymentControl where
  "freshControl = NewPaymentControl \<lparr>pd_root = None, pd_index = []\<rparr>"

lemma payments_ok_fresh: "payments_ok freshControl"
  by (simp add: payments_ok_def freshControl_def NewPaymentControl_def bucketAt_def)

lemma bucketAt_fresh: "bucketAt freshControl h = None"
  by (simp add: freshControl_def NewPaymentControl_def bucketAt_def)

text \<open>A payment of ten units over one hop, for the examples.\<close>

definition exHash :: Hash where
  "exHash = replicate 32 1"

definition exInfo :: PaymentCreationInfo where
  "exInfo = \<lparr>pci_PaymentIdentifier = exHash, pci_Value = 10, pci_AssetId = 0, pci_CreationTime = Some 5,
             pci_PaymentRequest = [], pci_HaveHodlInvoice = False\<rparr>"

definition exAttempt :: HTLCAttemptInfo where
  "exAttempt =
     \<lparr>ai_AttemptID = 7, ai_sessionKey = replicate 32 2,
      ai_Route = \<lparr>rt_TotalTimeLock = 100, rt_TotalAmount = 11, rt_AssetId = 0, rt_SourcePubKey = replicate 33 2,
        rt_Hops = [\<lparr>hop_PubKeyBytes = replicate 33 3, hop_ChannelID = 1, hop_OutgoingTimeLock = 90, hop_AmtToForward = 10,
                    hop_MPP = None, hop_AMP = None, hop_CustomRecords = [], hop_LegacyPayload = False\<rparr>]\<rparr>,
      ai_AttemptTime = Some 6, ai_Hash = None\<rparr>"

definition exSent :: PaymentControl where
  "exSent = fold apply_op [OpInit exHash exInfo, OpRegister exHash exAttempt] freshControl"

lemma payments_ok_exSent: "payments_ok exSent"
  unfolding exSent_def by (rule payments.run_ok [OF payments_ok_fresh])

section \<open>No second payment\<close>

lemma settledOf_iff:
  assumes "bucket_ok b"
  shows "settledOf b \<longleftrightarrow> (\<exists>hb k. pb_htlcs b = Some hb \<and> bGet (hb_si hb) k \<noteq> None)" (is "_ \<longleftrightarrow> ?R")
proof
  show "settledOf b \<Longrightarrow> ?R"
    by (cases "pb_htlcs b") (auto simp: settledOf_def htlcsOf_def attemptsOf_def)
  assume ?R
  then obtain hb k where hb: "pb_htlcs b = Some hb" "bGet (hb_si hb) k \<noteq> None" by blast
  then have ok: "hb_ok hb" using assms by (simp add: bucket_ok_def)
  then obtain v where "(k, v) \<in> set (hb_ai hb)" "bGet (hb_fi hb) k = None"
    using hb unfolding hb_ok_def by (metis b_ok_in_set not_None_eq)
  then show "settledOf b"
    using hb by (force simp: settledOf_def htlcsOf_def attemptsOf_def)
qed

lemma settled_not_failed: "settledOf b \<Longrightarrow> bucketStatus b \<noteq> StatusFailed"
  by (simp add: bucketStatus_def)

lemma TerminalLoop_settled: "TerminalLoop hs = None \<longleftrightarrow> (\<forall>h \<in> set hs. ha_Settle h = None)"
  by (induction hs) auto

lemma settled_terminal: "settledOf b \<Longrightarrow> checkAttempt (paymentOf b) a = Inl ErrPaymentTerminal"
  using TerminalLoop_settled [of "htlcsOf b"]
  by (auto simp: checkAttempt_def TerminalInfo_def paymentOf_def settledOf_def split: option.splits)

lemma putHtlcKey_settled: "bGet (hb_si hb) k \<noteq> None \<Longrightarrow> bGet (hb_si (putHtlcKey aid upd hb)) k \<noteq> None"
  by (cases upd) (auto simp: kv.get_put)

lemma settled_kept:
  assumes "bucket_step h op b c" "\<not> forgets h op" "\<forall>x. b = Some x \<longrightarrow> bucket_ok x" "\<forall>x. c = Some x \<longrightarrow> bucket_ok x"
    and "\<exists>x. b = Some x \<and> settledOf x"
  shows "\<exists>x. c = Some x \<and> settledOf x"
  using assms
proof (cases rule: bucket_step.cases)
  case (update aid s upd f x hb)
  then have x: "bucket_ok x" "settledOf x" "bucket_ok (withUpdate aid upd hb x)" using assms by auto
  then obtain k where k: "bGet (hb_si hb) k \<noteq> None" using update by (auto simp: settledOf_iff)
  have "settledOf (withUpdate aid upd hb x)"
    unfolding settledOf_iff [OF x(3)]
    by (rule exI [of _ "putHtlcKey aid upd hb"], rule exI [of _ k])
      (use putHtlcKey_settled [OF k] in \<open>simp add: withUpdate_def\<close>)
  then show ?thesis using update by simp
next
  case (prune x)
  then show ?thesis using assms by (auto simp: settledOf_def htlcsOf_delete)
next
  case (fail r x)
  then show ?thesis using assms by (auto simp: settledOf_def htlcsOf_def)
qed (use settled_not_failed settled_terminal in auto)

text \<open>
  C15. Once an attempt of a payment is settled, every later \<open>InitPayment\<close> for the same hash is
  refused and does not change any payment, whatever operations come in between, including further
  attempts, failures, restarts and the deletion of failed attempts and failed payments, as long as
  the record of the payment itself is not deleted.
\<close>

theorem settled_never_paid_again:
  assumes "payments_ok p" and "SettleAttempt h aid s p = Inr (p', pay)"
    and "\<forall>op \<in> set ops. \<not> forgets h op"
  shows "snd (InitPayment h info (fold apply_op ops p')) \<in> {Some ErrPaymentInFlight, Some ErrAlreadyPaid}
    \<and> bucketAt (fst (InitPayment h info (fold apply_op ops p'))) = bucketAt (fold apply_op ops p')"
proof -
  let ?q = "fold apply_op ops p'"
  have run: "p' = apply_op (OpSettle h aid s) p" by (simp add: assms(2) orElse_def)
  then have ok': "payments_ok p'" using payments.op_ok assms(1) by blast
  have "\<exists>x. bucketAt p' h = Some x \<and> settledOf x"
  proof (rule updateHtlcKey_InrD [OF assms(1) assms(2) [unfolded SettleAttempt_def]])
    fix root b hb
    assume a: "pd_root (pc_db p) = Some root" "bucket_ok (withUpdate aid (SettleKey (serializeHTLCSettleInfo s)) hb b)"
      "p' = p\<lparr>pc_db := writeBucket root h (withUpdate aid (SettleKey (serializeHTLCSettleInfo s)) hb b) (pc_db p)\<rparr>"
    then show ?thesis
      using settledOf_iff [OF a(2)] by (auto simp: bucketAt_write withUpdate_def kv.get_put)
  qed
  then have "\<exists>x. bucketAt ?q h = Some x \<and> settledOf x"
    by (rule payments.run_keeps [where allowed = "\<lambda>op. \<not> forgets h op" and P = "\<lambda>b. \<exists>x. b = Some x \<and> settledOf x",
          rotated 2]) (use settled_kept ok' assms(3) in blast)+
  then have st: "statusAt ?q h = StatusInFlight \<or> statusAt ?q h = StatusSucceeded"
    by (auto simp: statusAt_def bucketStatus_def split: if_splits)
  have ok: "payments_ok ?q" by (rule payments.run_ok [OF ok'])
  show ?thesis
    using st by (auto simp: InitPayment_result [OF ok] InitPayment_payments [OF ok] restartable_def)
qed


theorem settled_never_paid_again_witness:
  "\<exists>p' pay. SettleAttempt exHash 7 \<lparr>si_Preimage = replicate 32 4, si_SettleTime = None\<rparr> exSent = Inr (p', pay)
     \<and> snd (InitPayment exHash exInfo (fold apply_op [OpFail exHash 0, OpRestart, OpDeleteAll True False] p'))
         \<in> {Some ErrPaymentInFlight, Some ErrAlreadyPaid}
     \<and> bucketAt (fst (InitPayment exHash exInfo (fold apply_op [OpFail exHash 0, OpRestart, OpDeleteAll True False] p')))
         = bucketAt (fold apply_op [OpFail exHash 0, OpRestart, OpDeleteAll True False] p')"
proof -
  have "is_ok (SettleAttempt exHash 7 \<lparr>si_Preimage = replicate 32 4, si_SettleTime = None\<rparr> exSent)" by code_simp
  then obtain p' pay where s: "SettleAttempt exHash 7 \<lparr>si_Preimage = replicate 32 4, si_SettleTime = None\<rparr> exSent = Inr (p', pay)"
    using is_ok_Inr by force
  have "\<forall>op \<in> set [OpFail exHash 0, OpRestart, OpDeleteAll True False]. \<not> forgets exHash op" by simp
  from settled_never_paid_again [OF payments_ok_exSent s this] s show ?thesis by blast
qed

section \<open>No overpayment\<close>

definition entryAmt :: "htlcs_bucket \<Rightarrow> u64 \<times> HTLCAttemptInfo \<Rightarrow> nat" where
  "entryAmt hb e = (if bGet (hb_fi hb) (fst e) = None then unat (ReceiverAmt (ai_Route (snd e))) else 0)"

text \<open>What the attempts that did not fail pay to the receiver.\<close>

definition attemptsAmt :: "HTLCAttempt list \<Rightarrow> nat" where
  "attemptsAmt hs = sum_list (map (\<lambda>a. unat (ReceiverAmt (ai_Route (ha_Info a)))) (filter (\<lambda>a. ha_Failure a = None) hs))"

lemma attemptsAmt_entries: "attemptsAmt (attemptsOf hb) = sum_list (map (entryAmt hb) (hb_ai hb))"
proof -
  have "attemptsAmt (map (attemptOf hb) es) = sum_list (map (entryAmt hb) es)" for es
    by (induction es) (auto simp: attemptsAmt_def entryAmt_def)
  then show ?thesis by (simp add: attemptsOf_def)
qed

lemma SentAmtLoop_sum: "fst (SentAmtLoop hs (s, f)) = s + of_nat (attemptsAmt hs)"
  by (induction hs arbitrary: s f) (auto simp: attemptsAmt_def algebra_simps)

lemma sum_bPut: "sum_list (map f (bPut k v es)) \<le> f (k, v) + (sum_list (map f es) :: nat)"
  by (induction es) auto

lemma SerializeRoute_amt:
  assumes "SerializeRoute r = Inr r'"
  shows "ReceiverAmt r' = ReceiverAmt r"
proof -
  obtain hops where c: "collect serializeHop (rt_Hops r) = Inr hops" and r': "r' = r\<lparr>rt_Hops := hops\<rparr>"
    using assms by (auto simp: SerializeRoute_def sbind_eq_Inr)
  have hop: "serializeHop x = Inr y \<Longrightarrow> hop_AmtToForward y = hop_AmtToForward x" for x y
    by (auto simp: serializeHop_def sbind_eq_Inr split: if_splits)
  have "collect serializeHop xs = Inr ys \<Longrightarrow> map hop_AmtToForward ys = map hop_AmtToForward xs" for xs ys
    by (induction xs arbitrary: ys) (auto simp: sbind_eq_Inr hop)
  from this [OF c] have m: "map hop_AmtToForward hops = map hop_AmtToForward (rt_Hops r)" .
  then have len: "length hops = length (rt_Hops r)" by (rule map_eq_imp_length_eq)
  have last: "map hop_AmtToForward hops ! (length hops - 1) = map hop_AmtToForward (rt_Hops r) ! (length hops - 1)"
    by (simp add: m)
  show ?thesis
  proof (cases "rt_Hops r = []")
    case True
    then show ?thesis using len by (simp add: ReceiverAmt_def r')
  next
    case False
    then have "hops \<noteq> []" using len by auto
    then show ?thesis using last len False by (simp add: ReceiverAmt_def r' nth_map)
  qed
qed

definition funded :: "payment_bucket \<Rightarrow> bool" where
  "funded b \<longleftrightarrow> (\<exists>i. pb_creationInfo b = Some i \<and> pci_Value i < 2 ^ 63 \<and> attemptsAmt (htlcsOf b) \<le> unat (pci_Value i))"

lemma funded_init: "pci_Value info < 2 ^ 63 \<Longrightarrow> funded (initBucket s info b)"
  by (simp add: funded_def initBucket_def serializePaymentCreationInfo_def htlcsOf_def attemptsAmt_def)

lemma withAttempt_amt:
  "attemptsAmt (htlcsOf (withAttempt aid v b)) \<le> unat (ReceiverAmt (ai_Route v)) + attemptsAmt (htlcsOf b)"
proof -
  let ?hb = "case pb_htlcs b of None \<Rightarrow> emptyHtlcs | Some hb \<Rightarrow> hb"
  have "attemptsAmt (attemptsOf ?hb) = attemptsAmt (htlcsOf b)"
    by (auto simp: htlcsOf_def emptyHtlcs_def attemptsOf_def split: option.splits)
  moreover have "entryAmt (?hb\<lparr>hb_ai := x\<rparr>) = entryAmt ?hb" for x
    by (simp add: entryAmt_def fun_eq_iff)
  moreover have "entryAmt ?hb (aid, v) \<le> unat (ReceiverAmt (ai_Route v))" by (simp add: entryAmt_def)
  ultimately show ?thesis
    using sum_bPut [of "entryAmt ?hb" aid v "hb_ai ?hb"]
    by (simp add: withAttempt_def Let_def htlcsOf_def attemptsAmt_entries)
qed

lemma u64_add_no_wrap:
  assumes "m \<le> unat (val :: u64)" "val < 2 ^ 63" "amt < 2 ^ 63" "\<not> of_nat m + amt > val"
  shows "unat amt + m \<le> unat val"
proof -
  have "unat val < 2 ^ 63" "unat amt < 2 ^ 63"
    using assms(2,3) by (simp_all add: word_less_nat_alt)
  then have "unat (of_nat m + amt) = m + unat amt"
    using assms(1) by (simp add: unat_word_ariths unat_of_nat)
  then show ?thesis using assms(4) by (simp add: not_less word_le_nat_alt)
qed

lemma funded_register:
  assumes "funded b" "checkAttempt (paymentOf b) a = Inr ()" "serializeHTLCAttemptInfo a = Inr v"
    and "ReceiverAmt (ai_Route a) < 2 ^ 63"
  shows "funded (withAttempt aid v b)"
proof -
  obtain i where i: "pb_creationInfo b = Some i" "pci_Value i < 2 ^ 63" "attemptsAmt (htlcsOf b) \<le> unat (pci_Value i)"
    using assms(1) by (auto simp: funded_def)
  have "\<not> fst (SentAmt (paymentOf b)) + ReceiverAmt (ai_Route a) > pci_Value i"
    using assms(2) i(1) by (auto simp: checkAttempt_def sbind_eq_Inr Let_def paymentOf_def split: prod.splits option.splits if_splits)
  then have "\<not> of_nat (attemptsAmt (htlcsOf b)) + ReceiverAmt (ai_Route a) > pci_Value i"
    by (simp add: SentAmt_def SentAmtLoop_sum paymentOf_def)
  from u64_add_no_wrap [OF i(3,2) assms(4) this]
  have "unat (ReceiverAmt (ai_Route a)) + attemptsAmt (htlcsOf b) \<le> unat (pci_Value i)" .
  moreover have "ReceiverAmt (ai_Route v) = ReceiverAmt (ai_Route a)"
    using assms(3) SerializeRoute_amt by (auto simp: serializeHTLCAttemptInfo_def sbind_eq_Inr)
  ultimately show ?thesis
    using withAttempt_amt [of aid v b] i by (auto simp: funded_def)
qed

lemma funded_update:
  assumes "funded b" "pb_htlcs b = Some hb"
  shows "funded (withUpdate aid upd hb b)"
proof -
  have "entryAmt (putHtlcKey aid upd hb) e \<le> entryAmt hb e" for e
    by (cases upd) (auto simp: entryAmt_def kv.get_put)
  moreover have "hb_ai (putHtlcKey aid upd hb) = hb_ai hb" by (cases upd) auto
  ultimately have "attemptsAmt (htlcsOf (withUpdate aid upd hb b)) \<le> attemptsAmt (htlcsOf b)"
    using assms(2) by (simp add: withUpdate_def htlcsOf_def attemptsAmt_entries sum_list_mono)
  then show ?thesis using assms(1) by (auto simp: funded_def withUpdate_def)
qed

text \<open>The amounts that an operation brings in are below half the range of the type.\<close>

fun amounts_ok :: "payment_op \<Rightarrow> bool" where
  "amounts_ok (OpInit h info) \<longleftrightarrow> pci_Value info < 2 ^ 63"
| "amounts_ok (OpRegister h a) \<longleftrightarrow> ReceiverAmt (ai_Route a) < 2 ^ 63"
| "amounts_ok _ \<longleftrightarrow> True"

lemma funded_kept:
  assumes "bucket_step h op b c" "amounts_ok op" "\<forall>x. b = Some x \<longrightarrow> bucket_ok x" "\<forall>x. b = Some x \<longrightarrow> funded x"
  shows "\<forall>x. c = Some x \<longrightarrow> funded x"
  using assms
proof (cases rule: bucket_step.cases)
  case (prune x)
  then show ?thesis using assms by (auto simp: funded_def htlcsOf_delete attemptsAmt_def)
next
  case (fail r x)
  then show ?thesis using assms by (auto simp: funded_def htlcsOf_def)
qed (use funded_init funded_register funded_update assms in auto)

text \<open>
  C16. From an empty database, after any sequence of operations with amounts below \<open>2 ^ 63\<close>, what
  the attempts of a payment that did not fail pay to the receiver, settled or in flight, is together
  at most the value of the payment, also when attempt identifiers are used more than once.
\<close>

theorem payment_never_overpaid:
  assumes "\<forall>op \<in> set ops. amounts_ok op"
    and "FetchPayment (fold apply_op ops freshControl) h = Inr pay"
  shows "attemptsAmt (mp_HTLCs pay) \<le> unat (pci_Value (mp_Info pay))"
proof -
  let ?q = "fold apply_op ops freshControl"
  have ok: "payments_ok ?q" by (rule payments.run_ok [OF payments_ok_fresh])
  obtain b where b: "bucketAt ?q h = Some b" and pay: "pay = paymentOf b"
    using assms(2) FetchPayment_ok [OF ok] by (auto split: option.splits)
  have "\<forall>x. bucketAt ?q h = Some x \<longrightarrow> funded x"
  proof (rule payments.run_keeps [where allowed = amounts_ok and P = "\<lambda>b. \<forall>x. b = Some x \<longrightarrow> funded x"])
    show "\<forall>x. bucketAt freshControl h = Some x \<longrightarrow> funded x" by (simp add: bucketAt_fresh)
  qed (use funded_kept payments_ok_fresh assms(1) in blast)+
  then show ?thesis using b by (auto simp: pay paymentOf_def funded_def)
qed


theorem payment_never_overpaid_witness:
  "\<exists>pay. FetchPayment (fold apply_op [OpInit exHash exInfo, OpRegister exHash exAttempt, OpRegister exHash exAttempt] freshControl) exHash
       = Inr pay \<and> attemptsAmt (mp_HTLCs pay) \<le> unat (pci_Value (mp_Info pay))"
proof -
  have a: "\<forall>op \<in> set [OpInit exHash exInfo, OpRegister exHash exAttempt, OpRegister exHash exAttempt]. amounts_ok op" by code_simp
  have "is_ok (FetchPayment (fold apply_op [OpInit exHash exInfo, OpRegister exHash exAttempt, OpRegister exHash exAttempt] freshControl) exHash)"
    by code_simp
  then obtain pay where
    f: "FetchPayment (fold apply_op [OpInit exHash exInfo, OpRegister exHash exAttempt, OpRegister exHash exAttempt] freshControl) exHash = Inr pay"
    using is_ok_Inr by force
  from payment_never_overpaid [OF a f] f show ?thesis by blast
qed

section \<open>The life cycle of a payment\<close>

text \<open>
  The abstract machine of the status of one payment. \<open>StatusUnknown\<close> is a payment without a record;
  the flag says whether the operation may forget a payment that has succeeded.
\<close>

fun status_edge :: "bool \<Rightarrow> PaymentStatus \<Rightarrow> PaymentStatus \<Rightarrow> bool" where
  "status_edge f StatusUnknown t \<longleftrightarrow> t = StatusUnknown \<or> t = StatusInFlight"
| "status_edge f StatusInFlight t \<longleftrightarrow> t \<noteq> StatusUnknown"
| "status_edge f StatusFailed t \<longleftrightarrow> t \<noteq> StatusSucceeded"
| "status_edge f StatusSucceeded t \<longleftrightarrow> t = StatusSucceeded \<or> f \<and> t = StatusUnknown"

definition optStatus :: "payment_bucket option \<Rightarrow> PaymentStatus" where
  "optStatus b = (case b of None \<Rightarrow> StatusUnknown | Some x \<Rightarrow> bucketStatus x)"

lemma check_in_flight: "checkAttempt (paymentOf b) a = Inr () \<Longrightarrow> bucketStatus b = StatusInFlight"
  by (auto simp: checkAttempt_def sbind_eq_Inr ensureInFlight_def paymentOf_def split: prod.splits if_splits PaymentStatus.splits)

lemma fail_status:
  "bucketStatus (b\<lparr>pb_failInfo := Some r\<rparr>) =
     (if inflightOf b then StatusInFlight else if settledOf b then StatusSucceeded else StatusFailed)"
  by (simp add: bucketStatus_def inflightOf_def settledOf_def htlcsOf_def)

lemma bucket_step_edge:
  assumes "bucket_step h op b c" "\<forall>x. b = Some x \<longrightarrow> bucket_ok x"
  shows "status_edge (forgets h op) (optStatus b) (optStatus c)"
  using assms
proof (cases rule: bucket_step.cases)
  case same
  then show ?thesis by (cases "optStatus b") auto
next
  case (init info s)
  then show ?thesis by (auto simp: optStatus_def bucketStatus_init)
next
  case (fail r x)
  then show ?thesis by (cases "bucketStatus x") (auto simp: optStatus_def fail_status, auto simp: bucketStatus_def split: if_splits)
next
  case (prune x)
  then show ?thesis using assms by (cases "bucketStatus x") (auto simp: optStatus_def bucketStatus_delete)
next
  case (delete x)
  then show ?thesis using bucketStatus_known [of x] by (cases "bucketStatus x") (auto simp: optStatus_def)
qed (auto simp: optStatus_def bucketStatus_known dest: check_in_flight)

text \<open>
  C17. The status that the payment control reports for a payment moves along the edges of the life
  cycle under every operation: it starts in flight, ends succeeded or failed, only a failed payment
  is started again, and a payment that has succeeded keeps that status until its record is deleted.
\<close>

theorem payment_life_cycle:
  assumes "payments_ok p"
  shows "status_edge (forgets h op) (statusAt p h) (statusAt (apply_op op p) h)
    \<and> (case FetchPayment p h of Inl e \<Rightarrow> statusAt p h = StatusUnknown | Inr pay \<Rightarrow> statusAt p h = mp_Status pay)"
  using bucket_step_edge [OF payments.op_step [OF assms] payments.view_good [OF assms]] FetchPayment_ok [OF assms]
  by (auto simp: statusAt_def optStatus_def paymentOf_def split: option.splits)

theorem payment_life_cycle_witness:
  "status_edge (forgets exHash (OpFail exHash 1)) (statusAt exSent exHash) (statusAt (apply_op (OpFail exHash 1) exSent) exHash)
   \<and> (case FetchPayment exSent exHash of Inl e \<Rightarrow> statusAt exSent exHash = StatusUnknown
        | Inr pay \<Rightarrow> statusAt exSent exHash = mp_Status pay)"
  by (rule payment_life_cycle [OF payments_ok_exSent])

section \<open>Failing a payment\<close>

text \<open>
  C21. Failing a payment allows it to be started again exactly when none of its attempts is in
  flight or settled; with an attempt in flight the next \<open>InitPayment\<close> is refused as in flight, with
  a settled one as already paid.
\<close>

theorem failed_payment_retried:
  assumes "payments_ok p" and "Fail h r p = Inr (p', pay)"
  shows "snd (InitPayment h info p') =
    (if \<exists>a \<in> set (mp_HTLCs pay). ha_Failure a = None \<and> ha_Settle a = None then Some ErrPaymentInFlight
     else if \<exists>a \<in> set (mp_HTLCs pay). ha_Failure a = None then Some ErrAlreadyPaid
     else None)"
proof -
  have "p' = apply_op (OpFail h r) p" by (simp add: assms(2) orElse_def)
  then have ok': "payments_ok p'" using payments.op_ok assms(1) by blast
  show ?thesis
  proof (rule Fail_InrD [OF assms])
    fix root b
    assume a: "pd_root (pc_db p) = Some root"
      "p' = p\<lparr>pc_db := writeBucket root h (b\<lparr>pb_failInfo := Some r\<rparr>) (pc_db p)\<rparr>"
      "pay = paymentOf (b\<lparr>pb_failInfo := Some r\<rparr>)"
    then have "statusAt p' h = bucketStatus (b\<lparr>pb_failInfo := Some r\<rparr>)"
      by (simp add: statusAt_def bucketAt_write)
    moreover have "mp_HTLCs pay = htlcsOf b" by (simp add: a(3) paymentOf_def htlcsOf_def)
    moreover have "(\<exists>a \<in> set (htlcsOf b). ha_Failure a = None) \<longleftrightarrow> inflightOf b \<or> settledOf b"
      unfolding inflightOf_def settledOf_def by blast
    ultimately show ?thesis
      unfolding InitPayment_result [OF ok'] by (simp add: fail_status flip: inflightOf_def)
  qed
qed

theorem failed_payment_retried_witness:
  "\<exists>p' pay. Fail exHash 1 exSent = Inr (p', pay)
     \<and> snd (InitPayment exHash exInfo p') =
         (if \<exists>a \<in> set (mp_HTLCs pay). ha_Failure a = None \<and> ha_Settle a = None then Some ErrPaymentInFlight
          else if \<exists>a \<in> set (mp_HTLCs pay). ha_Failure a = None then Some ErrAlreadyPaid
          else None)"
proof -
  have "is_ok (Fail exHash 1 exSent)" by code_simp
  then obtain p' pay where f: "Fail exHash 1 exSent = Inr (p', pay)" using is_ok_Inr by force
  from failed_payment_retried [OF payments_ok_exSent f] f show ?thesis by blast
qed

end
