(* ===== verification/Payment_Index.thy ===== *)
theory Payment_Index
  imports Payment_Safety
begin

text \<open>
  The sequence numbers of payments: blocks of numbers are reserved on disk, a restart continues after
  the last reserved block, and the index from numbers to payments is exact. The queries over the
  payments stand on that index.
\<close>

section \<open>The invariant of the sequence numbers\<close>

definition rootSeq :: "PaymentControl \<Rightarrow> u64" where
  "rootSeq p = (case pd_root (pc_db p) of None \<Rightarrow> 0 | Some r \<Rightarrow> pr_sequence r)"

text \<open>No number above this one has been given to a payment.\<close>

definition topSeq :: "PaymentControl \<Rightarrow> u64" where
  "topSeq p = (if currPaymentSeq p = 0 then rootSeq p else currPaymentSeq p)"

definition counters_ok :: "PaymentControl \<Rightarrow> bool" where
  "counters_ok p \<longleftrightarrow> currPaymentSeq p = 0 \<and> storedPaymentSeq p = 0
     \<or> currPaymentSeq p \<noteq> 0 \<and> currPaymentSeq p \<le> storedPaymentSeq p \<and> storedPaymentSeq p = rootSeq p"

definition seqAt :: "PaymentControl \<Rightarrow> Hash \<Rightarrow> u64 option" where
  "seqAt p h = Option.bind (bucketAt p h) pb_sequence"

definition index_ok :: "PaymentControl \<Rightarrow> bool" where
  "index_ok p \<longleftrightarrow> b_ok (pd_index (pc_db p)) \<and> (\<forall>s h. bGet (pd_index (pc_db p)) s = Some h \<longleftrightarrow> seqAt p h = Some s)
     \<and> (\<forall>s h. seqAt p h = Some s \<longrightarrow> s \<noteq> 0 \<and> s \<le> topSeq p)
     \<and> (\<forall>h b. bucketAt p h = Some b \<longrightarrow> pb_duplicates b = None)"

definition seq_inv :: "nat \<Rightarrow> PaymentControl \<Rightarrow> bool" where
  "seq_inv n p \<longleftrightarrow> payments_ok p \<and> counters_ok p \<and> index_ok p \<and> unat (rootSeq p) \<le> 1000 * n"

lemma nextPaymentSequence_block:
  assumes "counters_ok p" "currPaymentSeq p = storedPaymentSeq p" "nextPaymentSequence p = (p1, s)"
  shows "topSeq p = rootSeq p" "s = rootSeq p + 1" "currPaymentSeq p1 = s" "storedPaymentSeq p1 = rootSeq p1"
    "rootSeq p1 = rootSeq p + 1000"
  using assms
  by (auto simp: nextPaymentSequence_def Let_def topSeq_def counters_ok_def rootSeq_def emptyRoot_def paymentSeqBlockSize_def
      split: option.splits)

lemma nextPaymentSequence_top:
  assumes "counters_ok p" "unat (rootSeq p) + 1000 < 2 ^ 64" "nextPaymentSequence p = (p1, s)"
  shows "topSeq p < s \<and> topSeq p1 = s \<and> counters_ok p1 \<and> unat (rootSeq p1) \<le> unat (rootSeq p) + 1000"
proof (cases "currPaymentSeq p = storedPaymentSeq p")
  case True
  note b = nextPaymentSequence_block [OF assms(1) True assms(3)]
  have n: "unat (rootSeq p + 1000) = unat (rootSeq p) + 1000" "unat (rootSeq p + 1) = unat (rootSeq p) + 1"
    using assms(2) by (simp_all add: unat_word_ariths)
  then have nz: "rootSeq p + 1 \<noteq> 0" by (metis Suc_eq_plus1 nat.distinct(1) unat_0)
  show ?thesis
    using b n nz by (simp add: counters_ok_def topSeq_def word_less_nat_alt word_le_nat_alt)
next
  case False
  then have c: "currPaymentSeq p \<noteq> 0" "currPaymentSeq p < rootSeq p" "storedPaymentSeq p = rootSeq p"
    using assms(1) by (auto simp: counters_ok_def)
  have p1: "currPaymentSeq p1 = currPaymentSeq p + 1" "storedPaymentSeq p1 = storedPaymentSeq p" "rootSeq p1 = rootSeq p"
    "s = currPaymentSeq p + 1"
    using assms(3) False by (auto simp: nextPaymentSequence_def Let_def rootSeq_def)
  have n: "unat (currPaymentSeq p + 1) = unat (currPaymentSeq p) + 1"
    using c(2) assms(2) by (simp add: unat_word_ariths word_less_nat_alt)
  then have nz: "currPaymentSeq p + 1 \<noteq> 0" by (metis Suc_eq_plus1 nat.distinct(1) unat_0)
  show ?thesis
    using c p1 n nz by (simp add: counters_ok_def topSeq_def word_less_nat_alt word_le_nat_alt)
qed

section \<open>The operations keep the index exact\<close>

lemma InitPayment_seq:
  assumes "payments_ok p" "nextPaymentSequence p = (p1, s)"
  shows "currPaymentSeq (fst (InitPayment h info p)) = currPaymentSeq p1"
    "storedPaymentSeq (fst (InitPayment h info p)) = storedPaymentSeq p1"
    "rootSeq (fst (InitPayment h info p)) = rootSeq p1"
    "bGet (pd_index (pc_db (fst (InitPayment h info p)))) =
      (if restartable (statusAt p h)
       then (\<lambda>x. if x = s then Some (pci_PaymentIdentifier info) else if seqAt p h = Some x then None
             else bGet (pd_index (pc_db p)) x)
       else bGet (pd_index (pc_db p)))"
    "b_ok (pd_index (pc_db p)) \<Longrightarrow> b_ok (pd_index (pc_db (fst (InitPayment h info p))))"
proof -
  obtain root b where cb: "createPaymentBucket (pc_db p1) h = (root, b)" by (rule prod.exhaust)
  note n1 = nextPaymentSequence_payments [OF assms(2)]
  note run = InitPayment_run [OF assms cb]
  have root: "pr_sequence root = rootSeq p1"
    using cb by (auto simp: createPaymentBucket_def rootSeq_def Let_def emptyRoot_def split: option.splits)
  have b: "pb_sequence b = seqAt p h"
    using createPaymentBucket_payments(1) [OF cb] n1(1)
    by (auto simp: seqAt_def emptyBucket_def split: option.splits)
  show "currPaymentSeq (fst (InitPayment h info p)) = currPaymentSeq p1"
    "storedPaymentSeq (fst (InitPayment h info p)) = storedPaymentSeq p1"
    "rootSeq (fst (InitPayment h info p)) = rootSeq p1"
    using root by (auto simp: run rootSeq_def)
  show "bGet (pd_index (pc_db (fst (InitPayment h info p)))) =
      (if restartable (statusAt p h)
       then (\<lambda>x. if x = s then Some (pci_PaymentIdentifier info) else if seqAt p h = Some x then None
             else bGet (pd_index (pc_db p)) x)
       else bGet (pd_index (pc_db p)))"
    by (auto simp: run b n1(2) kv.get_put kv.get_del fun_eq_iff split: option.splits)
  show "b_ok (pd_index (pc_db p)) \<Longrightarrow> b_ok (pd_index (pc_db (fst (InitPayment h info p))))"
    by (auto simp: run n1(2) bPut_ok kv.del_ok split: option.splits)
qed

lemma seqAt_init:
  assumes "payments_ok p" "nextPaymentSequence p = (p1, s)"
  shows "seqAt (fst (InitPayment h info p)) = (if restartable (statusAt p h) then (seqAt p)(h \<mapsto> s) else seqAt p)"
  by (auto simp: seqAt_def InitPayment_payments [OF assms(1)] assms(2) initBucket_def fun_eq_iff)

lemma seqAt_inj: "index_ok p \<Longrightarrow> seqAt p h = Some s \<Longrightarrow> seqAt p h' = Some s \<Longrightarrow> h' = h"
  unfolding index_ok_def by (metis option.inject)

lemma seq_inv_init:
  assumes "seq_inv n p" "1000 * Suc n < 2 ^ 64" "pci_PaymentIdentifier info = h"
  shows "seq_inv (Suc n) (fst (InitPayment h info p))"
proof -
  let ?q = "fst (InitPayment h info p)"
  obtain p1 s where nx: "nextPaymentSequence p = (p1, s)" by (rule prod.exhaust)
  have ok: "payments_ok p" and ix: "index_ok p" and "counters_ok p" "unat (rootSeq p) \<le> 1000 * n"
    using assms(1) by (auto simp: seq_inv_def)
  then have t: "topSeq p < s" "topSeq p1 = s" "counters_ok p1" "unat (rootSeq p1) \<le> unat (rootSeq p) + 1000"
    using nextPaymentSequence_top [of p p1 s] nx assms(2) by auto
  note q = InitPayment_seq [OF ok nx, of h info] seqAt_init [OF ok nx, of h info]
  have top: "topSeq ?q = s" and cnt: "counters_ok ?q"
    using t q by (auto simp: topSeq_def counters_ok_def)
  have below: "y < s" if "seqAt p x = Some y" for x y
    using ix t(1) that unfolding index_ok_def by (meson le_less_trans)
  then have fresh: "seqAt p x \<noteq> Some s" for x by blast
  have "index_ok ?q"
    unfolding index_ok_def top q(1-4) q(6)
  proof (intro conjI allI)
    show "b_ok (pd_index (pc_db ?q))" using q(5) ix by (simp add: index_ok_def)
  next
    fix x k
    show "((if restartable (statusAt p h)
          then (\<lambda>x. if x = s then Some (pci_PaymentIdentifier info) else if seqAt p h = Some x then None
                else bGet (pd_index (pc_db p)) x)
          else bGet (pd_index (pc_db p))) x = Some k)
        = ((if restartable (statusAt p h) then (seqAt p)(h \<mapsto> s) else seqAt p) k = Some x)"
      using ix fresh assms(3) seqAt_inj [OF ix] by (auto simp: index_ok_def)
  next
    fix x k
    show "(if restartable (statusAt p h) then (seqAt p)(h \<mapsto> s) else seqAt p) k = Some x \<longrightarrow> x \<noteq> 0 \<and> x \<le> s"
      using below [of k x] ix t(1) by (auto simp: index_ok_def)
  next
    fix k b
    show "bucketAt ?q k = Some b \<longrightarrow> pb_duplicates b = None"
      using ix by (auto simp: InitPayment_payments [OF ok] index_ok_def initBucket_def emptyBucket_def split: option.splits)
  qed
  then show ?thesis
    using cnt InitPayment_payments(2) [OF ok] q(3) t(4) assms(1) by (simp add: seq_inv_def)
qed


text \<open>The other operations change neither counters nor index, unless they delete a payment or restart.\<close>

lemma seq_inv_same:
  assumes "seq_inv n p" "payments_ok p'" "currPaymentSeq p' = currPaymentSeq p" "storedPaymentSeq p' = storedPaymentSeq p"
    and "rootSeq p' = rootSeq p" "pd_index (pc_db p') = pd_index (pc_db p)"
    and "\<And>h. map_option (\<lambda>b. (pb_sequence b, pb_duplicates b)) (bucketAt p' h)
      = map_option (\<lambda>b. (pb_sequence b, pb_duplicates b)) (bucketAt p h)"
  shows "seq_inv (Suc n) p'"
proof -
  have "seqAt p' h = seqAt p h" for h
    using assms(7) [of h] by (cases "bucketAt p h"; cases "bucketAt p' h") (auto simp: seqAt_def)
  moreover have "pb_duplicates b = None" if "bucketAt p' h = Some b" for h b
    using assms(1) assms(7) [of h] that by (cases "bucketAt p h") (auto simp: seq_inv_def index_ok_def)
  ultimately show ?thesis
    using assms(1-6) by (auto simp: seq_inv_def counters_ok_def index_ok_def topSeq_def)
qed

lemma rootSeq_write:
  "pd_root (pc_db p) = Some root \<Longrightarrow> rootSeq (p\<lparr>pc_db := writeBucket root h b (pc_db p)\<rparr>) = rootSeq p"
  by (simp add: rootSeq_def)

lemma seq_inv_write:
  assumes "seq_inv n p" "pd_root (pc_db p) = Some root" "bucketAt p h = Some b"
    and "bucket_ok b'" "pb_sequence b' = pb_sequence b" "pb_duplicates b' = pb_duplicates b"
  shows "seq_inv (Suc n) (p\<lparr>pc_db := writeBucket root h b' (pc_db p)\<rparr>)"
  by (rule seq_inv_same [OF assms(1)])
    (use assms payments_ok_write [OF _ assms(2,4)] in \<open>auto simp: seq_inv_def rootSeq_write bucketAt_write\<close>)

lemma seq_inv_Suc: "seq_inv n p \<Longrightarrow> seq_inv (Suc n) p"
  by (auto simp: seq_inv_def)

lemma seq_inv_update: "seq_inv n p \<Longrightarrow> seq_inv (Suc n) (orElse (updateHtlcKey h aid upd p) p)"
proof (cases "updateHtlcKey h aid upd p")
  case (Inr r)
  obtain p' pay where r: "r = (p', pay)" by (rule prod.exhaust)
  assume inv: "seq_inv n p"
  then have ok: "payments_ok p" by (simp add: seq_inv_def)
  show ?thesis
    by (rule updateHtlcKey_InrD [OF ok Inr [unfolded r]])
      (use seq_inv_write [OF inv] in \<open>auto simp: Inr r orElse_def withUpdate_def\<close>)
qed (simp add: orElse_def seq_inv_Suc)

lemma seq_inv_register: "seq_inv n p \<Longrightarrow> seq_inv (Suc n) (orElse (RegisterAttempt h a p) p)"
proof (cases "RegisterAttempt h a p")
  case (Inr r)
  obtain p' pay where r: "r = (p', pay)" by (rule prod.exhaust)
  assume inv: "seq_inv n p"
  then have ok: "payments_ok p" by (simp add: seq_inv_def)
  show ?thesis
    by (rule RegisterAttempt_InrD [OF ok Inr [unfolded r]])
      (use seq_inv_write [OF inv] in \<open>auto simp: Inr r orElse_def\<close>)
qed (simp add: orElse_def seq_inv_Suc)

lemma seq_inv_fail: "seq_inv n p \<Longrightarrow> seq_inv (Suc n) (orElse (Fail h r p) p)"
proof (cases "Fail h r p")
  case (Inr x)
  obtain p' pay where x: "x = (p', pay)" by (rule prod.exhaust)
  assume inv: "seq_inv n p"
  then have ok: "payments_ok p" by (simp add: seq_inv_def)
  show ?thesis
    by (rule Fail_InrD [OF ok Inr [unfolded x]])
      (use seq_inv_write [OF inv] in \<open>auto simp: Inr x orElse_def bucket_ok_fail\<close>)
qed (simp add: orElse_def seq_inv_Suc)

lemma seq_inv_restart: "seq_inv n p \<Longrightarrow> seq_inv (Suc n) (NewPaymentControl (pc_db p))"
proof -
  assume inv: "seq_inv n p"
  define q where "q = NewPaymentControl (pc_db p)"
  have q: "currPaymentSeq q = 0" "storedPaymentSeq q = 0" "pc_db q = pc_db p" "bucketAt q = bucketAt p" "rootSeq q = rootSeq p"
    by (simp_all add: q_def bucketAt_restart rootSeq_def) (simp_all add: NewPaymentControl_def)
  have "topSeq p \<le> topSeq q" using inv q by (auto simp: seq_inv_def counters_ok_def topSeq_def)
  moreover have "counters_ok q" "payments_ok q" "seqAt q = seqAt p"
    using inv q by (auto simp: counters_ok_def payments_ok_def seq_inv_def seqAt_def fun_eq_iff)
  ultimately have "seq_inv (Suc n) q"
    using inv q by (auto simp: seq_inv_def index_ok_def intro: order_trans)
  then show ?thesis by (simp add: q_def)
qed


text \<open>Deleting payments removes exactly their entries of the index.\<close>

lemma seq_inv_remove:
  assumes inv: "seq_inv n p" and "payments_ok p'" "currPaymentSeq p' = currPaymentSeq p"
    "storedPaymentSeq p' = storedPaymentSeq p" "rootSeq p' = rootSeq p"
    and at: "\<And>h. bucketAt p' h = (if h \<in> D then None else bucketAt p h)"
    and index: "\<And>s. bGet (pd_index (pc_db p')) s = (if \<exists>h \<in> D. seqAt p h = Some s then None else bGet (pd_index (pc_db p)) s)"
    and "b_ok (pd_index (pc_db p'))"
  shows "seq_inv (Suc n) p'"
proof -
  have ix: "index_ok p" using inv by (simp add: seq_inv_def)
  have seq: "seqAt p' h = (if h \<in> D then None else seqAt p h)" for h by (simp add: seqAt_def at)
  have "index_ok p'"
    unfolding index_ok_def seq index at
    using ix seqAt_inj [OF ix] assms(3,5,8) by (auto simp: index_ok_def topSeq_def)
  then show ?thesis
    using assms(2-5) inv by (simp add: seq_inv_def counters_ok_def)
qed

lemma seqsOf_single: "index_ok p \<Longrightarrow> bucketAt p h = Some b \<Longrightarrow> bucket_ok b \<Longrightarrow> seqAt p h = Some s \<longleftrightarrow> s \<in> set (seqsOf b)"
  by (auto simp: index_ok_def seqAt_def seqsOf_def bucket_ok_def)

lemma seq_inv_delete:
  assumes inv: "seq_inv n p" and del: "DeletePayment h only (pc_db p) = Inr db'"
  shows "seq_inv (Suc n) (p\<lparr>pc_db := db'\<rparr>)"
proof (cases "pd_root (pc_db p)")
  case None
  then have "p\<lparr>pc_db := db'\<rparr> = p" using del by (cases p) (simp add: DeletePayment_def)
  then show ?thesis using seq_inv_Suc [OF inv] by simp
next
  case (Some root)
  have ok: "payments_ok p" and ix: "index_ok p" using inv by (auto simp: seq_inv_def)
  obtain b where b: "bucketAt p h = Some b" "bGet (pr_payments root) h = Some b"
    using del Some by (auto simp: DeletePayment_def bucketAt_def split: option.splits)
  then have bok: "bucket_ok b" using ok by (simp add: payments_ok_def)
  show ?thesis
  proof (cases only)
    case True
    then have "db' = writeBucket root h (deleteHtlcs (failedKeys b) b) (pc_db p)"
      using del Some b bok
      by (auto simp: DeletePayment_def fetchPaymentStatus_ok fetchFailedHtlcKeys_ok failedKeys_def split: if_splits)
    then show ?thesis using seq_inv_write [OF inv Some b(1) bucket_ok_delete [OF bok]] by simp
  next
    case False
    then have db': "db' = \<lparr>pd_root = Some (root\<lparr>pr_payments := bDelete h (pr_payments root)\<rparr>),
        pd_index = fold bDelete (seqsOf b) (pd_index (pc_db p))\<rparr>"
      using del Some b bok by (auto simp: DeletePayment_def fetchPaymentStatus_ok fetchSequenceNumbers_ok split: if_splits)
    show ?thesis
    proof (rule seq_inv_remove [OF inv DeletePayment_InrD(2) [OF ok del], of "{h}"])
      fix s show "bGet (pd_index (pc_db (p\<lparr>pc_db := db'\<rparr>))) s
          = (if \<exists>h \<in> {h}. seqAt p h = Some s then None else bGet (pd_index (pc_db p)) s)"
        by (simp add: db' kv.get_fold_del seqsOf_single [OF ix b(1) bok])
    qed (use ix in \<open>simp_all add: db' rootSeq_def bucketAt_def Some kv.get_del kv.fold_del_ok index_ok_def\<close>)
  qed
qed

lemma seq_inv_delete_all:
  assumes inv: "seq_inv n p" and del: "DeletePayments fo fh (pc_db p) = Inr db'"
  shows "seq_inv (Suc n) (p\<lparr>pc_db := db'\<rparr>)"
proof (cases "pd_root (pc_db p)")
  case None
  then have "p\<lparr>pc_db := db'\<rparr> = p" using del by (cases p) (simp add: DeletePayments_def)
  then show ?thesis using seq_inv_Suc [OF inv] by simp
next
  case (Some root)
  let ?es = "pr_payments root"
  have ok: "payments_ok p" and ix: "index_ok p" using inv by (auto simp: seq_inv_def)
  then have es: "\<forall>e \<in> set ?es. bucket_ok (snd e)" "b_ok ?es"
    using Some by (auto simp: payments_ok_def bucketAt_def b_ok_in_set)
  obtain hs bs ixs where c: "collectDeletes fo fh ?es = Inr (hs, bs, ixs)"
    and db': "db' = \<lparr>pd_root = Some (root\<lparr>pr_payments := fold bDelete bs (fold deleteHtlcsOf hs ?es)\<rparr>),
                     pd_index = fold bDelete ixs (pd_index (pc_db p))\<rparr>"
    using del Some by (auto simp: DeletePayments_def sbind_eq_Inr)
  note ds = collectDeletes_InrD [OF c es(1)]
  note at = DeletePayments_InrD [OF ok del]
  show ?thesis
  proof (cases fh)
    case True
    show ?thesis
    proof (rule seq_inv_same [OF inv at(2)])
      fix h show "map_option (\<lambda>b. (pb_sequence b, pb_duplicates b)) (bucketAt (p\<lparr>pc_db := db'\<rparr>) h)
          = map_option (\<lambda>b. (pb_sequence b, pb_duplicates b)) (bucketAt p h)"
        unfolding at(1) using True by (cases "bucketAt p h") (auto simp: afterDelete_def)
    qed (use True ds Some in \<open>auto simp: db' rootSeq_def\<close>)
  next
    case False
    let ?D = "{h. \<exists>b. bucketAt p h = Some b \<and> deletable fo b}"
    have "s \<in> set ixs \<longleftrightarrow> (\<exists>h b. bucketAt p h = Some b \<and> deletable fo b \<and> s \<in> set (seqsOf b))" for s
      using ds False Some by (force simp: bucketAt_def b_ok_in_set [OF es(2)])
    then have ixs: "s \<in> set ixs \<longleftrightarrow> (\<exists>h \<in> ?D. seqAt p h = Some s)" for s
      using seqsOf_single [OF ix] ok unfolding payments_ok_def by blast
    show ?thesis
    proof (rule seq_inv_remove [OF inv at(2), of ?D])
      fix s show "bGet (pd_index (pc_db (p\<lparr>pc_db := db'\<rparr>))) s
          = (if \<exists>h \<in> ?D. seqAt p h = Some s then None else bGet (pd_index (pc_db p)) s)"
        by (simp add: db' kv.get_fold_del ixs)
    next
      fix h show "bucketAt (p\<lparr>pc_db := db'\<rparr>) h = (if h \<in> ?D then None else bucketAt p h)"
        by (cases "bucketAt p h") (auto simp: at(1) afterDelete_def False)
    qed (use ix in \<open>simp_all add: db' rootSeq_def Some kv.fold_del_ok index_ok_def\<close>)
  qed
qed


section \<open>Sequence numbers across runs\<close>

text \<open>The router passes the hash under which it starts a payment also as its identifier.\<close>

fun names_itself :: "payment_op \<Rightarrow> bool" where
  "names_itself (OpInit h info) \<longleftrightarrow> pci_PaymentIdentifier info = h"
| "names_itself _ \<longleftrightarrow> True"

lemma seq_inv_op:
  assumes "seq_inv n p" "1000 * Suc n < 2 ^ 64" "names_itself op"
  shows "seq_inv (Suc n) (apply_op op p)"
  using assms
  by (cases op)
    (auto simp: seq_inv_init seq_inv_register seq_inv_update seq_inv_fail seq_inv_restart seq_inv_delete seq_inv_delete_all
      seq_inv_Suc SettleAttempt_def FailAttempt_def split: sum.splits simp del: power_numeral)

lemma seq_inv_fresh: "seq_inv 0 freshControl"
  by (simp add: seq_inv_def payments_ok_fresh counters_ok_def index_ok_def seqAt_def bucketAt_fresh)
    (simp add: b_ok_def freshControl_def NewPaymentControl_def rootSeq_def)

lemma seq_inv_run:
  "\<forall>op \<in> set ops. names_itself op \<Longrightarrow> length ops < 2 ^ 53 \<Longrightarrow> seq_inv (length ops) (fold apply_op ops freshControl)"
proof (induction ops rule: rev_induct)
  case (snoc op ops)
  then show ?case using seq_inv_op [of "length ops" "fold apply_op ops freshControl" op] by simp
qed (simp add: seq_inv_fresh)

lemma FetchPayment_seq:
  assumes "payments_ok p"
  shows "(\<exists>pay. FetchPayment p h = Inr pay \<and> mp_SequenceNum pay = s) \<longleftrightarrow> seqAt p h = Some s"
  using assms
  by (cases "bucketAt p h") (auto simp: FetchPayment_ok seqAt_def paymentOf_def payments_ok_def bucket_ok_def)

text \<open>
  C18. After any sequence of fewer than \<open>2 ^ 53\<close> operations on an empty database, restarts and
  deletions included, in which every payment is started under the hash that its creation info names
  (as both callers do), the index maps a sequence number to a hash exactly when the payment with that
  hash has the number, so no two payments share one; and a payment that is started gets a number
  greater than those of all other payments.
\<close>

theorem payment_index_exact:
  assumes "\<forall>op \<in> set ops. names_itself op" "length ops + 1 < 2 ^ 53" "pci_PaymentIdentifier info = h"
  shows "(\<forall>s k. bGet (pd_index (pc_db (fold apply_op ops freshControl))) s = Some k
        \<longleftrightarrow> (\<exists>pay. FetchPayment (fold apply_op ops freshControl) k = Inr pay \<and> mp_SequenceNum pay = s))
    \<and> (snd (InitPayment h info (fold apply_op ops freshControl)) = None
        \<longrightarrow> (\<exists>new. FetchPayment (fst (InitPayment h info (fold apply_op ops freshControl))) h = Inr new
              \<and> (\<forall>k old. k \<noteq> h \<longrightarrow> FetchPayment (fst (InitPayment h info (fold apply_op ops freshControl))) k = Inr old
                   \<longrightarrow> mp_SequenceNum old < mp_SequenceNum new)))"
proof -
  define q where "q = fold apply_op ops freshControl"
  define q' where "q' = fst (InitPayment h info q)"
  have inv: "seq_inv (length ops) q" using seq_inv_run assms(1,2) by (simp add: q_def)
  then have ok: "payments_ok q" and ix: "index_ok q" by (auto simp: seq_inv_def)
  have ok': "payments_ok q'" using InitPayment_payments(2) [OF ok] by (simp add: q'_def)
  have "\<exists>new. FetchPayment q' h = Inr new
      \<and> (\<forall>k old. k \<noteq> h \<longrightarrow> FetchPayment q' k = Inr old \<longrightarrow> mp_SequenceNum old < mp_SequenceNum new)"
    if started: "snd (InitPayment h info q) = None"
  proof -
    obtain p1 s where nx: "nextPaymentSequence q = (p1, s)" by (rule prod.exhaust)
    have "restartable (statusAt q h)"
      using started by (auto simp: InitPayment_result [OF ok] restartable_def split: PaymentStatus.splits)
    then have seq: "seqAt q' = (seqAt q)(h \<mapsto> s)" using seqAt_init [OF ok nx] by (simp add: q'_def)
    then obtain new where new: "FetchPayment q' h = Inr new" "mp_SequenceNum new = s"
      using FetchPayment_seq [OF ok', of h s] by auto
    have "topSeq q < s"
      using nextPaymentSequence_top [OF _ _ nx] inv assms(2) by (auto simp: seq_inv_def)
    then have "mp_SequenceNum old < s" if "k \<noteq> h" "FetchPayment q' k = Inr old" for k old
      using FetchPayment_seq [OF ok', of k "mp_SequenceNum old"] that seq ix
      unfolding index_ok_def by (auto intro: le_less_trans)
    with new show ?thesis by blast
  qed
  moreover have "\<forall>s k. bGet (pd_index (pc_db q)) s = Some k \<longleftrightarrow> (\<exists>pay. FetchPayment q k = Inr pay \<and> mp_SequenceNum pay = s)"
    using ix by (simp add: FetchPayment_seq [OF ok] index_ok_def)
  ultimately show ?thesis by (simp add: q_def q'_def)
qed

theorem payment_index_exact_witness:
  "(\<forall>s k. bGet (pd_index (pc_db (fold apply_op [OpInit exHash exInfo, OpRestart, OpFail exHash 1] freshControl))) s = Some k
        \<longleftrightarrow> (\<exists>pay. FetchPayment (fold apply_op [OpInit exHash exInfo, OpRestart, OpFail exHash 1] freshControl) k = Inr pay
               \<and> mp_SequenceNum pay = s))
    \<and> snd (InitPayment exHash exInfo (fold apply_op [OpInit exHash exInfo, OpRestart, OpFail exHash 1] freshControl)) = None
    \<and> (\<exists>new. FetchPayment (fst (InitPayment exHash exInfo
             (fold apply_op [OpInit exHash exInfo, OpRestart, OpFail exHash 1] freshControl))) exHash = Inr new
         \<and> mp_SequenceNum new = 1001)"
proof -
  have a: "\<forall>op \<in> set [OpInit exHash exInfo, OpRestart, OpFail exHash 1]. names_itself op" by code_simp
  have b: "pci_PaymentIdentifier exInfo = exHash" by (simp add: exInfo_def)
  have c: "snd (InitPayment exHash exInfo (fold apply_op [OpInit exHash exInfo, OpRestart, OpFail exHash 1] freshControl)) = None"
    by code_simp
  have d: "map_sum id mp_SequenceNum (FetchPayment (fst (InitPayment exHash exInfo
      (fold apply_op [OpInit exHash exInfo, OpRestart, OpFail exHash 1] freshControl))) exHash) = Inr 1001" by code_simp
  have l: "length [OpInit exHash exInfo, OpRestart, OpFail exHash 1] + 1 < 2 ^ 53" by simp
  from payment_index_exact [OF a l b] c d show ?thesis by (auto simp: map_sum_def split: sum.splits)
qed

end
