(* ===== verification/Payment_Query.thy ===== *)
theory Payment_Query
  imports Payment_Index
begin

text \<open>
  Queries over the payments (\<open>QueryPayments\<close>, \<open>FetchPayments\<close> and the duplicates of old payments,
  \<open>src/oblnd/channeldb/payments.go\<close> and \<open>duplicate_payments.go\<close>) and the paginator they use
  (\<open>paginate.go\<close>). A cursor is a position in the entries of a bucket. The theorems say that a query
  returns exactly the matching payments of its range, and that the next page continues where the last
  one stopped.
\<close>

section \<open>The paginator\<close>

definition Seek :: "(u64 \<times> 'v) list \<Rightarrow> u64 \<Rightarrow> nat option" where
  "Seek es key = (let i = length (takeWhile (\<lambda>e. fst e < key) es) in if i < length es then Some i else None)"

definition Last :: "(u64 \<times> 'v) list \<Rightarrow> nat option" where
  "Last es = (if es = [] then None else Some (length es - 1))"

definition Next :: "(u64 \<times> 'v) list \<Rightarrow> nat \<Rightarrow> nat option" where
  "Next es i = (if i + 1 < length es then Some (i + 1) else None)"

definition Prev :: "nat \<Rightarrow> nat option" where
  "Prev i = (if i = 0 then None else Some (i - 1))"

record 'v paginator =
  pg_cursor :: "(u64 \<times> 'v) list"
  pg_reversed :: bool
  pg_indexOffset :: u64
  pg_totalItems :: u64

definition keyValueForIndex :: "'v paginator \<Rightarrow> u64 \<Rightarrow> nat option" where
  "keyValueForIndex p index = Seek (pg_cursor p) index"

definition lastIndex :: "'v paginator \<Rightarrow> u64" where
  "lastIndex p = (case Last (pg_cursor p) of None \<Rightarrow> 0 | Some i \<Rightarrow> fst (pg_cursor p ! i))"

definition nextKey :: "'v paginator \<Rightarrow> nat \<Rightarrow> nat option" where
  "nextKey p i = (if pg_reversed p then Prev i else Next (pg_cursor p) i)"

definition cursorStart :: "'v paginator \<Rightarrow> nat option" where
  "cursorStart p =
     (let start = keyValueForIndex p (pg_indexOffset p + 1)
      in if pg_reversed p then
           if pg_indexOffset p = 0 then Last (pg_cursor p)
           else if pg_indexOffset p = 1 then None
           else if pg_indexOffset p > lastIndex p then Last (pg_cursor p)
           else Option.bind (keyValueForIndex p (pg_indexOffset p)) Prev
         else start)"

text \<open>
  The loop of \<open>query\<close>: the callback returns the item that it adds, if any. The number of items is
  compared with the limit before each call.
\<close>

function queryLoop ::
    "'v paginator \<Rightarrow> (u64 \<times> 'v \<Rightarrow> 'e + 'a option) \<Rightarrow> nat option \<Rightarrow> nat \<Rightarrow> 'a list \<Rightarrow> 'e + 'a list" where
  "queryLoop p fetchAndAppend None totalItems items = Inr items"
| "queryLoop p fetchAndAppend (Some i) totalItems items =
     (if of_nat totalItems \<ge> pg_totalItems p then Inr items
      else sbind (fetchAndAppend (pg_cursor p ! i)) (\<lambda>added.
        case added of
          None \<Rightarrow> queryLoop p fetchAndAppend (nextKey p i) totalItems items
        | Some x \<Rightarrow> queryLoop p fetchAndAppend (nextKey p i) (totalItems + 1) (items @ [x])))"
  by pat_completeness auto

termination
proof (relation "measure (\<lambda>(p, f, pos, n, items). case pos of None \<Rightarrow> 0
    | Some i \<Rightarrow> if pg_reversed p then Suc i else Suc (length (pg_cursor p) - i))")
qed (auto simp: nextKey_def Next_def Prev_def)

definition paginate :: "'v paginator \<Rightarrow> (u64 \<times> 'v \<Rightarrow> 'e + 'a option) \<Rightarrow> 'e + 'a list" where
  "paginate p fetchAndAppend = queryLoop p fetchAndAppend (cursorStart p) 0 []"

section \<open>Duplicate payments\<close>

definition fetchDuplicatePaymentStatus :: "duplicate_bucket \<Rightarrow> PaymentStatus" where
  "fetchDuplicatePaymentStatus bucket =
     (if db_settleInfo bucket \<noteq> None then StatusSucceeded
      else if db_failInfo bucket \<noteq> None then StatusFailed
      else if db_creationInfo bucket \<noteq> None then StatusInFlight
      else StatusUnknown)"

definition duplicateAttempt :: "HTLCAttemptInfo \<Rightarrow> bytes option \<Rightarrow> HTLCAttempt" where
  "duplicateAttempt a preimg =
     \<lparr>ha_Info = zeroAttemptInfo\<lparr>ai_AttemptID := ai_AttemptID a, ai_Route := ai_Route a, ai_sessionKey := ai_sessionKey a\<rparr>,
      ha_Settle = map_option (\<lambda>b. \<lparr>si_Preimage = b, si_SettleTime = None\<rparr>) preimg,
      ha_Failure = (if preimg = None
        then Some \<lparr>hfi_FailTime = None, hfi_Message = None, hfi_Reason = 0, hfi_FailureSourceIndex = 0\<rparr> else None)\<rparr>"

definition fetchDuplicatePayment :: "duplicate_bucket \<Rightarrow> payment_error + MPPayment" where
  "fetchDuplicatePayment bucket =
     (case db_sequence bucket of
        None \<Rightarrow> Inl SequenceNumberNotFound
      | Some sequenceNum \<Rightarrow>
          (case db_creationInfo bucket of
             None \<Rightarrow> Inl CreationInfoNotFound
           | Some creationInfo \<Rightarrow>
               sbind (case db_attemptInfo bucket of
                        None \<Rightarrow> Inr []
                      | Some b \<Rightarrow> sbind (readHtlcAttemptInfo b) (\<lambda>attempt.
                          Inr [duplicateAttempt attempt (db_settleInfo bucket)]))
                 (\<lambda>htlcs. Inr \<lparr>mp_SequenceNum = sequenceNum, mp_Info = creationInfo, mp_HTLCs = htlcs,
                               mp_FailureReason = db_failInfo bucket,
                               mp_Status = fetchDuplicatePaymentStatus bucket\<rparr>)))"

definition fetchDuplicatePayments :: "payment_bucket \<Rightarrow> payment_error + MPPayment list" where
  "fetchDuplicatePayments bucket =
     (case pb_duplicates bucket of None \<Rightarrow> Inr [] | Some dup \<Rightarrow> collect (\<lambda>e. fetchDuplicatePayment (snd e)) dup)"

text \<open>
  The search among the duplicates goes on after a match; a duplicate without a sequence number is
  passed over.
\<close>

fun findDuplicate :: "u64 \<Rightarrow> (u64 \<times> duplicate_bucket) list \<Rightarrow> MPPayment option \<Rightarrow> payment_error + MPPayment option" where
  "findDuplicate s [] found = Inr found"
| "findDuplicate s (e # es) found =
     (if db_sequence (snd e) \<noteq> Some s then findDuplicate s es found
      else sbind (fetchDuplicatePayment (snd e)) (\<lambda>p. findDuplicate s es (Some p)))"

definition fetchPaymentWithSequenceNumber :: "payments_db \<Rightarrow> Hash \<Rightarrow> u64 \<Rightarrow> payment_error + MPPayment" where
  "fetchPaymentWithSequenceNumber db paymentHash sequenceNumber =
     sbind (fetchPaymentBucket db paymentHash) (\<lambda>bucket.
       case pb_sequence bucket of
         None \<Rightarrow> Inl ErrNoSequenceNumber
       | Some seqBytes \<Rightarrow>
           if seqBytes = sequenceNumber then fetchPayment bucket
           else (case pb_duplicates bucket of
                   None \<Rightarrow> Inl ErrNoDuplicateBucket
                 | Some dup \<Rightarrow> sbind (findDuplicate sequenceNumber dup None) (\<lambda>found.
                     case found of None \<Rightarrow> Inl ErrDuplicateNotFound | Some p \<Rightarrow> Inr p)))"

definition FetchPayments :: "payments_db \<Rightarrow> payment_error + MPPayment list" where
  "FetchPayments db =
     (case pd_root db of
        None \<Rightarrow> Inr []
      | Some root \<Rightarrow>
          sbind (collect (\<lambda>e. sbind (fetchPayment (snd e)) (\<lambda>p.
                   sbind (fetchDuplicatePayments (snd e)) (\<lambda>ds. Inr (p # ds)))) (pr_payments root)) (\<lambda>payments.
            Inr (sort_key mp_SequenceNum (concat payments))))"

section \<open>Queries\<close>

record PaymentsQuery =
  pq_IndexOffset :: u64
  pq_MaxPayments :: u64
  pq_Reversed :: bool
  pq_IncludeIncomplete :: bool
  pq_IsQueryAsset :: bool
  pq_AssetId :: u32
  pq_StartTime :: i64
  pq_EndTime :: i64

record PaymentsResponse =
  ps_Payments :: "MPPayment list"
  ps_FirstIndexOffset :: u64
  ps_LastIndexOffset :: u64

text \<open>Seconds since 1970; the zero value of \<open>time.Time\<close> is the first of January of the year 1.\<close>

definition Unix :: "GoTime \<Rightarrow> int" where
  "Unix t = (case t of None \<Rightarrow> - 62135596800 | Some nanos \<Rightarrow> sint nanos div 1000000000)"

definition inQuery :: "PaymentsQuery \<Rightarrow> MPPayment \<Rightarrow> bool" where
  "inQuery query payment \<longleftrightarrow>
     (if mp_Status payment \<noteq> StatusSucceeded \<and> \<not> pq_IncludeIncomplete query then False
      else if pq_IsQueryAsset query \<and> pq_AssetId query \<noteq> pci_AssetId (mp_Info payment) then False
      else if \<not> pq_IsQueryAsset query \<and> pci_AssetId (mp_Info payment) \<noteq> BtcAssetId then False
      else if sint (pq_StartTime query) > 0 \<and> sint (pq_StartTime query) > Unix (pci_CreationTime (mp_Info payment)) then False
      else if sint (pq_EndTime query) > 0 \<and> sint (pq_EndTime query) < Unix (pci_CreationTime (mp_Info payment)) then False
      else True)"

definition accumulatePayments :: "PaymentsQuery \<Rightarrow> payments_db \<Rightarrow> u64 \<times> Hash \<Rightarrow> payment_error + MPPayment option" where
  "accumulatePayments query db e =
     sbind (fetchPaymentWithSequenceNumber db (snd e) (fst e)) (\<lambda>payment.
       Inr (if inQuery query payment then Some payment else None))"

definition QueryPayments :: "PaymentsQuery \<Rightarrow> payments_db \<Rightarrow> payment_error + PaymentsResponse" where
  "QueryPayments query db =
     (case pd_root db of
        None \<Rightarrow> Inr \<lparr>ps_Payments = [], ps_FirstIndexOffset = 0, ps_LastIndexOffset = 0\<rparr>
      | Some root \<Rightarrow>
          sbind (paginate \<lparr>pg_cursor = pd_index db, pg_reversed = pq_Reversed query,
                           pg_indexOffset = pq_IndexOffset query, pg_totalItems = pq_MaxPayments query\<rparr>
                   (accumulatePayments query db)) (\<lambda>items.
            let payments = (if pq_Reversed query then rev items else items)
            in Inr (if payments = [] then \<lparr>ps_Payments = [], ps_FirstIndexOffset = 0, ps_LastIndexOffset = 0\<rparr>
                    else \<lparr>ps_Payments = payments, ps_FirstIndexOffset = mp_SequenceNum (payments ! 0),
                          ps_LastIndexOffset = mp_SequenceNum (payments ! (length payments - 1))\<rparr>)))"

section \<open>What the paginator visits\<close>

definition visit :: "'v paginator \<Rightarrow> nat option \<Rightarrow> (u64 \<times> 'v) list" where
  "visit p pos =
     (case pos of None \<Rightarrow> []
      | Some i \<Rightarrow> if pg_reversed p then rev (take (Suc i) (pg_cursor p)) else drop i (pg_cursor p))"

definition inside :: "'v paginator \<Rightarrow> nat option \<Rightarrow> bool" where
  "inside p pos \<longleftrightarrow> (\<forall>i. pos = Some i \<longrightarrow> i < length (pg_cursor p))"

lemma visit_next:
  assumes "i < length (pg_cursor p)"
  shows "visit p (Some i) = pg_cursor p ! i # visit p (nextKey p i)" "inside p (nextKey p i)"
proof -
  have "drop i (pg_cursor p) = pg_cursor p ! i # drop (Suc i) (pg_cursor p)"
    using assms by (simp add: Cons_nth_drop_Suc)
  then show "visit p (Some i) = pg_cursor p ! i # visit p (nextKey p i)"
    using assms by (auto simp: visit_def nextKey_def Next_def Prev_def take_Suc_conv_app_nth)
  show "inside p (nextKey p i)"
    using assms by (auto simp: inside_def nextKey_def Next_def Prev_def)
qed

lemma queryLoop_visit:
  assumes "inside p pos" "\<And>e. e \<in> set (pg_cursor p) \<Longrightarrow> f e = Inr (g e)" "n + length (visit p pos) < 2 ^ 64"
  shows "queryLoop p f pos n items = Inr (items @ take (unat (pg_totalItems p) - n) (List.map_filter g (visit p pos)))"
  using assms
proof (induction p f pos n items rule: queryLoop.induct)
  case (1 p f n items)
  then show ?case by (simp add: visit_def List.map_filter_def)
next
  case (2 p f i n items)
  then have i: "i < length (pg_cursor p)" by (simp add: inside_def)
  note v = visit_next [OF i]
  have fe: "f (pg_cursor p ! i) = Inr (g (pg_cursor p ! i))" using 2 i by simp
  have "unat (of_nat n :: u64) = n" using 2 by (simp add: unat_of_nat)
  then have lim: "of_nat n \<ge> pg_totalItems p \<longleftrightarrow> unat (pg_totalItems p) \<le> n" by (simp add: word_le_nat_alt)
  show ?case
  proof (cases "unat (pg_totalItems p) \<le> n")
    case True
    then show ?thesis using lim by simp
  next
    case False
    then have "unat (pg_totalItems p) - n = Suc (unat (pg_totalItems p) - Suc n)" by simp
    then show ?thesis
      using 2 v False lim fe by (cases "g (pg_cursor p ! i)") (auto simp: List.map_filter_simps)
  qed
qed

section \<open>Where the paginator starts\<close>

lemma b_ok_filter_less: "b_ok es \<Longrightarrow> takeWhile (\<lambda>e. fst e < k) es = filter (\<lambda>e. fst e < k) es"
  by (induction es) (auto simp: b_ok_Cons intro!: filter_False [symmetric])

lemma b_ok_filter_geq: "b_ok es \<Longrightarrow> dropWhile (\<lambda>e. fst e < k) es = filter (\<lambda>e. k \<le> fst e) es"
  by (induction es) (auto simp: b_ok_Cons intro!: filter_True [symmetric])

definition pageRange :: "'v paginator \<Rightarrow> (u64 \<times> 'v) list" where
  "pageRange p =
     (if pg_reversed p then rev (filter (\<lambda>e. pg_indexOffset p = 0 \<or> fst e < pg_indexOffset p) (pg_cursor p))
      else filter (\<lambda>e. pg_indexOffset p < fst e) (pg_cursor p))"

lemma Seek_drop:
  assumes "b_ok es"
  shows "(case Seek es k of None \<Rightarrow> [] | Some i \<Rightarrow> drop i es) = filter (\<lambda>e. k \<le> fst e) es"
    and "Seek es k = Some i \<Longrightarrow> i < length es \<and> take i es = filter (\<lambda>e. fst e < k) es"
    and "es \<noteq> [] \<Longrightarrow> k \<le> fst (last es) \<Longrightarrow> Seek es k \<noteq> None"
proof -
  let ?n = "length (takeWhile (\<lambda>e. fst e < k) es)"
  have d: "drop ?n es = filter (\<lambda>e. k \<le> fst e) es" "take ?n es = filter (\<lambda>e. fst e < k) es"
    using b_ok_filter_geq [OF assms, of k] b_ok_filter_less [OF assms, of k]
    by (metis dropWhile_eq_drop, metis takeWhile_eq_take)
  show "(case Seek es k of None \<Rightarrow> [] | Some i \<Rightarrow> drop i es) = filter (\<lambda>e. k \<le> fst e) es"
    unfolding d(1) [symmetric] by (auto simp: Seek_def Let_def)
  show "Seek es k = Some i \<Longrightarrow> i < length es \<and> take i es = filter (\<lambda>e. fst e < k) es"
    using d(2) by (auto simp: Seek_def Let_def split: if_splits)
  assume e: "es \<noteq> []" "k \<le> fst (last es)"
  then have "last es \<in> set (drop ?n es)" unfolding d(1) by simp
  then have "drop ?n es \<noteq> []" by auto
  then show "Seek es k \<noteq> None" by (simp add: Seek_def Let_def)
qed

lemma Last_visit: "pg_reversed p \<Longrightarrow> visit p (Last (pg_cursor p)) = rev (pg_cursor p)" "inside p (Last (pg_cursor p))"
  by (auto simp: visit_def Last_def inside_def)

lemma b_ok_last: "b_ok es \<Longrightarrow> e \<in> set es \<Longrightarrow> fst e \<le> fst (last es)"
  by (induction es) (auto simp: b_ok_Cons intro: less_imp_le)

lemma next_key_le: "(k :: u64) \<noteq> - 1 \<Longrightarrow> k + 1 \<le> x \<longleftrightarrow> k < x"
proof -
  assume "k \<noteq> - 1"
  then have "1 + k \<noteq> 0" by (metis add_eq_0_iff add.inverse_inverse)
  then have "unat (k + 1) = Suc (unat k)" using unatSuc [of k] by (simp add: add.commute)
  then show ?thesis by (simp add: word_le_nat_alt word_less_nat_alt Suc_le_eq)
qed

lemma lastIndex_last: "lastIndex p = (if pg_cursor p = [] then 0 else fst (last (pg_cursor p)))"
  by (simp add: lastIndex_def Last_def last_conv_nth)

lemma visit_start_forward:
  assumes "b_ok (pg_cursor p)" "\<not> pg_reversed p" "pg_indexOffset p \<noteq> - 1"
  shows "visit p (cursorStart p) = pageRange p \<and> inside p (cursorStart p)"
proof -
  have "cursorStart p = Seek (pg_cursor p) (pg_indexOffset p + 1)"
    using assms(2) by (simp add: cursorStart_def keyValueForIndex_def)
  then show ?thesis
    using Seek_drop [OF assms(1), of "pg_indexOffset p + 1"] assms(2)
    by (auto simp: visit_def pageRange_def inside_def next_key_le [OF assms(3)] split: option.splits)
qed

lemma visit_start_backward:
  assumes "b_ok (pg_cursor p)" "\<forall>e \<in> set (pg_cursor p). fst e \<noteq> 0" "pg_reversed p"
  shows "visit p (cursorStart p) = pageRange p \<and> inside p (cursorStart p)"
proof -
  let ?es = "pg_cursor p" and ?off = "pg_indexOffset p"
  consider "?off = 0" | "?off = 1" | "?off > lastIndex p" | "?off \<noteq> 0" "?off \<noteq> 1" "?off \<le> lastIndex p"
    by (meson not_le)
  then show ?thesis
  proof cases
    case 1
    then show ?thesis using Last_visit [of p] assms(3) by (simp add: cursorStart_def pageRange_def)
  next
    case 2
    have "\<not> fst e < 1" if "e \<in> set ?es" for e
      using assms(2) that by (auto simp: word_less_nat_alt unat_eq_0)
    then show ?thesis
      using 2 assms(3) by (auto simp: cursorStart_def pageRange_def visit_def inside_def filter_empty_conv)
  next
    case 3
    have "fst e < ?off" if "e \<in> set ?es" for e
      using b_ok_last [OF assms(1) that] 3 that by (auto simp: lastIndex_last intro: le_less_trans split: if_splits)
    then have "filter (\<lambda>e. ?off = 0 \<or> fst e < ?off) ?es = ?es" by (simp add: filter_id_conv)
    moreover have "cursorStart p = Last ?es \<or> ?off = 1 \<and> ?es = []"
      using 3 assms(2,3) by (auto simp: cursorStart_def lastIndex_last word_less_nat_alt unat_eq_0 split: if_splits)
    ultimately show ?thesis
      using Last_visit [of p] assms(3) 3
      by (auto simp: pageRange_def cursorStart_def visit_def inside_def)
  next
    case 4
    then have "?es \<noteq> []" "?off \<le> fst (last ?es)" by (auto simp: lastIndex_last split: if_splits)
    then obtain i where i: "Seek ?es ?off = Some i" using Seek_drop(3) [OF assms(1)] by blast
    then have start: "cursorStart p = Prev i"
      using 4 assms(3) by (simp add: cursorStart_def keyValueForIndex_def leD)
    from Seek_drop(2) [OF assms(1) i] have "i < length ?es" "take i ?es = filter (\<lambda>e. fst e < ?off) ?es" by auto
    then show ?thesis
      using 4 assms(3) by (auto simp: start Prev_def visit_def pageRange_def inside_def)
  qed
qed

lemma paginate_range:
  assumes "b_ok (pg_cursor p)" "\<forall>e \<in> set (pg_cursor p). fst e \<noteq> 0" "pg_reversed p \<or> pg_indexOffset p \<noteq> - 1"
    and "\<And>e. e \<in> set (pg_cursor p) \<Longrightarrow> f e = Inr (g e)" "length (pg_cursor p) < 2 ^ 64"
  shows "paginate p f = Inr (take (unat (pg_totalItems p)) (List.map_filter g (pageRange p)))"
proof -
  have v: "visit p (cursorStart p) = pageRange p" "inside p (cursorStart p)"
    using visit_start_forward [OF assms(1)] visit_start_backward [OF assms(1,2)] assms(3) by blast+
  have "length (pageRange p) \<le> length (pg_cursor p)" by (simp add: pageRange_def)
  then show ?thesis
    using queryLoop_visit [OF v(2) assms(4), where n = 0 and items = "[]"] assms(5) v(1) by (simp add: paginate_def)
qed

section \<open>Queries return the matching payments\<close>

definition indexed :: "PaymentControl \<Rightarrow> MPPayment list" where
  "indexed q = map (\<lambda>e. paymentOf (the (bucketAt q (snd e)))) (pd_index (pc_db q))"

lemma index_entry:
  assumes "seq_inv n q" "(s, h) \<in> set (pd_index (pc_db q))"
  obtains b where "bucketAt q h = Some b" "bucket_ok b" "pb_sequence b = Some s" "s \<noteq> 0" "unat s \<le> 1000 * n"
proof -
  have ix: "index_ok q" and ok: "payments_ok q" using assms(1) by (auto simp: seq_inv_def)
  have "bGet (pd_index (pc_db q)) s = Some h" using ix assms(2) b_ok_in_set [of "pd_index (pc_db q)"] unfolding index_ok_def by blast
  then have at: "seqAt q h = Some s" using ix by (simp add: index_ok_def)
  then have s: "s \<noteq> 0" "s \<le> topSeq q" using ix by (auto simp: index_ok_def)
  have "topSeq q \<le> rootSeq q" using assms(1) by (auto simp: seq_inv_def counters_ok_def topSeq_def)
  then have "unat s \<le> 1000 * n" using s(2) assms(1) by (auto simp: seq_inv_def word_le_nat_alt)
  then show thesis using that at s(1) ok by (auto simp: seqAt_def payments_ok_def bind_eq_Some_conv)
qed

lemma indexed_seqs: "seq_inv n q \<Longrightarrow> map mp_SequenceNum (indexed q) = map fst (pd_index (pc_db q))"
  by (auto simp: indexed_def paymentOf_def elim: index_entry)

lemma indexed_sorted: "seq_inv n q \<Longrightarrow> sorted_wrt (<) (map mp_SequenceNum (indexed q))"
  unfolding indexed_seqs by (simp add: seq_inv_def index_ok_def b_ok_def)

lemma set_indexed:
  assumes "seq_inv n q"
  shows "set (indexed q) = {pay. \<exists>h. FetchPayment q h = Inr pay}"
proof -
  have ok: "payments_ok q" and ix: "index_ok q" using assms by (auto simp: seq_inv_def)
  have "(\<exists>s. (s, h) \<in> set (pd_index (pc_db q))) \<longleftrightarrow> bucketAt q h \<noteq> None" for h
    using ix ok unfolding index_ok_def
    by (auto simp: b_ok_in_set seqAt_def bind_eq_Some_conv payments_ok_def bucket_ok_def)
  then have "pay \<in> set (indexed q) \<longleftrightarrow> (\<exists>h b. bucketAt q h = Some b \<and> pay = paymentOf b)" for pay
    unfolding indexed_def set_map image_iff by (metis option.sel not_None_eq snd_conv surj_pair)
  moreover have "FetchPayment q h = Inr pay \<longleftrightarrow> (\<exists>b. bucketAt q h = Some b \<and> pay = paymentOf b)" for h pay
    by (auto simp: FetchPayment_ok [OF ok] split: option.splits)
  ultimately show ?thesis by blast
qed

lemma FetchPayments_indexed:
  assumes "seq_inv n q"
  shows "FetchPayments (pc_db q) = Inr (indexed q)"
proof (cases "pd_root (pc_db q)")
  case None
  then have "set (indexed q) = {}"
    using set_indexed [OF assms] by (auto simp: FetchPayment_def fetchPaymentBucket_def)
  then show ?thesis using None by (simp add: FetchPayments_def)
next
  case (Some root)
  let ?all = "map (\<lambda>e. paymentOf (snd e)) (pr_payments root)"
  have ok: "payments_ok q" and ix: "index_ok q" using assms by (auto simp: seq_inv_def)
  then have es: "b_ok (pr_payments root)" and
    e: "\<And>h b. (h, b) \<in> set (pr_payments root) \<longleftrightarrow> bucketAt q h = Some b"
    using Some by (auto simp: payments_ok_def bucketAt_def b_ok_in_set)
  have bs: "bucket_ok (snd x)" "pb_duplicates (snd x) = None" "seqAt q (fst x) = Some (mp_SequenceNum (paymentOf (snd x)))"
    if "x \<in> set (pr_payments root)" for x
    using that e [of "fst x" "snd x"] ok ix by (auto simp: payments_ok_def index_ok_def seqAt_def paymentOf_def bucket_ok_def)
  have "collect (\<lambda>e. sbind (fetchPayment (snd e)) (\<lambda>p. sbind (fetchDuplicatePayments (snd e)) (\<lambda>ds. Inr (p # ds)))) (pr_payments root)
      = Inr (map (\<lambda>e. [paymentOf (snd e)]) (pr_payments root))"
    by (rule collect_Inr) (simp add: bs fetchPayment_ok fetchDuplicatePayments_def)
  then have fp: "FetchPayments (pc_db q) = Inr (sort_key mp_SequenceNum ?all)"
    by (simp add: FetchPayments_def Some)
  have inj: "inj_on (mp_SequenceNum \<circ> (\<lambda>e. paymentOf (snd e))) (set (pr_payments root))"
  proof (rule inj_onI)
    fix x y assume xy: "x \<in> set (pr_payments root)" "y \<in> set (pr_payments root)"
      "(mp_SequenceNum \<circ> (\<lambda>e. paymentOf (snd e))) x = (mp_SequenceNum \<circ> (\<lambda>e. paymentOf (snd e))) y"
    then have "fst x = fst y" using bs(3) [of x] bs(3) [of y] seqAt_inj [OF ix] by auto
    then show "x = y" using xy(1,2) es by (metis b_ok_in_set option.inject prod.collapse)
  qed
  have set_eq: "set ?all = set (indexed q)"
    using e by (force simp: set_indexed [OF assms] FetchPayment_ok [OF ok] split: option.splits)
  have dist: "distinct (map mp_SequenceNum ?all)"
    using inj es by (simp add: distinct_map comp_def b_ok_distinct [unfolded distinct_map])
  have "sort_key mp_SequenceNum ?all = indexed q"
  proof (rule map_sorted_distinct_set_unique [of mp_SequenceNum])
    have "inj_on mp_SequenceNum (set ?all)" using inj by (auto simp: inj_on_def)
    then show "inj_on mp_SequenceNum (set (sort_key mp_SequenceNum ?all) \<union> set (indexed q))"
      unfolding set_sort set_eq by simp
    show "distinct (map mp_SequenceNum (sort_key mp_SequenceNum ?all))"
      using dist by (metis distinct_map distinct_sort set_sort)
    show "sorted (map mp_SequenceNum (indexed q))" "distinct (map mp_SequenceNum (indexed q))"
      using indexed_sorted [OF assms] by (auto simp: strict_sorted_iff)
  qed (use set_eq in auto)
  then show ?thesis using fp by simp
qed


text \<open>The payments that a query asks for, and the page of them that it returns.\<close>

definition inRange :: "PaymentsQuery \<Rightarrow> MPPayment \<Rightarrow> bool" where
  "inRange query pay \<longleftrightarrow> inQuery query pay
     \<and> (if pq_Reversed query then pq_IndexOffset query = 0 \<or> mp_SequenceNum pay < pq_IndexOffset query
        else pq_IndexOffset query < mp_SequenceNum pay)"

definition page :: "PaymentsQuery \<Rightarrow> MPPayment list \<Rightarrow> MPPayment list" where
  "page query pays =
     (let n = unat (pq_MaxPayments query) in if pq_Reversed query then rev (take n (rev pays)) else take n pays)"

lemma index_length:
  assumes "seq_inv n q"
  shows "length (pd_index (pc_db q)) \<le> 1000 * n + 1"
proof -
  let ?ix = "pd_index (pc_db q)"
  have "unat ` fst ` set ?ix \<subseteq> {..1000 * n}" using index_entry [OF assms] by force
  then have "card (unat ` fst ` set ?ix) \<le> 1000 * n + 1" using card_mono [OF finite_atMost] by fastforce
  moreover have "card (unat ` fst ` set ?ix) = card (fst ` set ?ix)"
    by (rule card_image) (simp add: inj_on_def word_unat_eq_iff)
  ultimately show ?thesis
    using assms b_ok_keys_card [of ?ix] by (simp add: seq_inv_def index_ok_def)
qed

lemma accumulate_entry:
  assumes "seq_inv n q" "e \<in> set (pd_index (pc_db q))"
  shows "accumulatePayments query (pc_db q) e =
    Inr (if inQuery query (paymentOf (the (bucketAt q (snd e)))) then Some (paymentOf (the (bucketAt q (snd e)))) else None)"
proof (rule index_entry [of n q "fst e" "snd e"])
  fix b assume b: "bucketAt q (snd e) = Some b" "bucket_ok b" "pb_sequence b = Some (fst e)"
  then have "fetchPaymentBucket (pc_db q) (snd e) = Inr b"
    by (auto simp: bucketAt_def fetchPaymentBucket_def split: option.splits)
  then show ?thesis
    using b by (simp add: accumulatePayments_def fetchPaymentWithSequenceNumber_def fetchPayment_ok)
qed (use assms in simp_all)

lemma map_filter_if: "List.map_filter (\<lambda>e. if P (f e) then Some (f e) else None) es = filter P (map f es)"
  by (induction es) (auto simp: List.map_filter_simps)

lemma QueryPayments_page:
  assumes inv: "seq_inv n q" and "1000 * n + 1 < 2 ^ 64" and "pq_Reversed query \<or> pq_IndexOffset query \<noteq> - 1"
  shows "\<exists>resp. QueryPayments query (pc_db q) = Inr resp
    \<and> ps_Payments resp = page query (filter (inRange query) (indexed q))
    \<and> (ps_Payments resp \<noteq> [] \<longrightarrow> ps_LastIndexOffset resp = mp_SequenceNum (last (ps_Payments resp)))"
proof (cases "pd_root (pc_db q)")
  case None
  then have "set (indexed q) = {}"
    using set_indexed [OF inv] by (auto simp: FetchPayment_def fetchPaymentBucket_def)
  then show ?thesis using None by (simp add: QueryPayments_def page_def Let_def)
next
  case (Some root)
  let ?ix = "pd_index (pc_db q)" and ?pay = "\<lambda>e. paymentOf (the (bucketAt q (snd e)))"
  let ?pg = "\<lparr>pg_cursor = ?ix, pg_reversed = pq_Reversed query,
              pg_indexOffset = pq_IndexOffset query, pg_totalItems = pq_MaxPayments query\<rparr>"
  have seq: "mp_SequenceNum (?pay e) = fst e" if "e \<in> set ?ix" for e
    by (rule index_entry [OF inv, of "fst e" "snd e"]) (use that in \<open>auto simp: paymentOf_def\<close>)
  have "paginate ?pg (accumulatePayments query (pc_db q))
      = Inr (take (unat (pq_MaxPayments query)) (filter (inQuery query) (map ?pay (pageRange ?pg))))"
  proof -
    have "paginate ?pg (accumulatePayments query (pc_db q))
      = Inr (take (unat (pg_totalItems ?pg))
          (List.map_filter (\<lambda>e. if inQuery query (?pay e) then Some (?pay e) else None) (pageRange ?pg)))"
    proof (rule paginate_range)
      show "b_ok (pg_cursor ?pg)" using inv by (simp add: seq_inv_def index_ok_def)
      show "\<forall>e \<in> set (pg_cursor ?pg). fst e \<noteq> 0" using index_entry [OF inv] by (metis paginator.select_convs(1) prod.collapse)
      show "pg_reversed ?pg \<or> pg_indexOffset ?pg \<noteq> - 1" using assms(3) by simp
      show "length (pg_cursor ?pg) < 2 ^ 64" using index_length [OF inv] assms(2) by simp
    qed (use accumulate_entry [OF inv] in simp)
    then show ?thesis by (simp add: map_filter_if [of "inQuery query" ?pay])
  qed
  moreover have "filter (inQuery query) (map ?pay (pageRange ?pg))
      = (if pq_Reversed query then rev else id) (filter (inRange query) (indexed q))"
    using seq by (auto simp: pageRange_def indexed_def inRange_def filter_map comp_def rev_filter rev_map
        intro!: arg_cong [where f = "map ?pay"] arg_cong [where f = rev] filter_cong)
  ultimately show ?thesis
    by (auto simp: QueryPayments_def Some page_def Let_def last_conv_nth)
qed


lemma strict_le_last: "sorted_wrt (<) (map f ys) \<Longrightarrow> x \<in> set ys \<Longrightarrow> f x \<le> (f (last ys) :: 'a::linorder)"
  by (induction ys) (auto intro: less_imp_le)

lemma sorted_tail:
  assumes "sorted_wrt (<) (map f xs)" "take n xs \<noteq> []"
  shows "filter (\<lambda>x. f (last (take n xs)) < (f x :: 'a::linorder)) xs = drop n xs"
proof -
  let ?ys = "take n xs" and ?zs = "drop n xs"
  have s: "sorted_wrt (<) (map f ?ys @ map f ?zs)" using assms(1) by (simp flip: map_append)
  have "\<not> f (last ?ys) < f x" if "x \<in> set ?ys" for x
    using s that strict_le_last [of f ?ys x] by (auto simp: sorted_wrt_append not_less simp del: set_take_subset)
  moreover have "f (last ?ys) < f x" if "x \<in> set ?zs" for x
    using s that assms(2) by (auto simp: sorted_wrt_append)
  ultimately have "filter (\<lambda>x. f (last ?ys) < f x) (?ys @ ?zs) = ?zs"
    unfolding filter_append by (simp add: filter_False filter_True)
  then show ?thesis by simp
qed

lemma inRange_offset:
  assumes "\<not> pq_Reversed query" "pq_IndexOffset query < off"
  shows "inRange (query\<lparr>pq_IndexOffset := off\<rparr>) = (\<lambda>y. inRange query y \<and> off < mp_SequenceNum y)"
proof
  fix y
  have "inQuery (query\<lparr>pq_IndexOffset := off\<rparr>) y = inQuery query y" by (simp add: inQuery_def)
  then show "inRange (query\<lparr>pq_IndexOffset := off\<rparr>) y = (inRange query y \<and> off < mp_SequenceNum y)"
    using assms by (auto simp: inRange_def)
qed

lemma next_page:
  assumes inv: "seq_inv n q" and small: "1000 * n + 1 < 2 ^ 64"
    and r: "ps_Payments resp = page query (filter (inRange query) (indexed q))"
      "ps_Payments resp \<noteq> [] \<longrightarrow> ps_LastIndexOffset resp = mp_SequenceNum (last (ps_Payments resp))"
    and fwd: "\<not> pq_Reversed query" "ps_Payments resp \<noteq> []"
  shows "\<exists>resp'. QueryPayments (query\<lparr>pq_IndexOffset := ps_LastIndexOffset resp\<rparr>) (pc_db q) = Inr resp'
      \<and> ps_Payments resp' = page query (drop (unat (pq_MaxPayments query)) (filter (inRange query) (indexed q)))"
proof -
  let ?M = "filter (inRange query) (indexed q)" and ?query' = "query\<lparr>pq_IndexOffset := ps_LastIndexOffset resp\<rparr>"
  have pays: "ps_Payments resp = take (unat (pq_MaxPayments query)) ?M" using r(1) fwd(1) by (simp add: page_def Let_def)
  then have off: "ps_LastIndexOffset resp = mp_SequenceNum (last (take (unat (pq_MaxPayments query)) ?M))"
    using r(2) fwd(2) by simp
  let ?x = "last (take (unat (pq_MaxPayments query)) ?M)"
  have "?x \<in> set (take (unat (pq_MaxPayments query)) ?M)" using fwd(2) pays by (metis last_in_set)
  then have "?x \<in> set ?M" by (rule in_set_takeD)
  then have x: "?x \<in> set (indexed q)" "inRange query ?x" by auto
  have "mp_SequenceNum ?x \<in> set (map fst (pd_index (pc_db q)))"
    unfolding indexed_seqs [OF inv, symmetric] using x(1) by simp
  then obtain s h where "(s, h) \<in> set (pd_index (pc_db q))" "mp_SequenceNum ?x = s" by auto
  then have "unat (mp_SequenceNum ?x) \<le> 1000 * n" by (auto elim: index_entry [OF inv])
  moreover have "unat (- 1 :: u64) = 2 ^ 64 - 1" by (simp add: unsigned_minus_1_eq_mask mask_eq_exp_minus_1)
  ultimately have "mp_SequenceNum ?x \<noteq> - 1" using small by (metis less_diff_conv not_le)
  then have nmax: "pq_IndexOffset ?query' \<noteq> - 1" by (simp add: off)
  have "pq_IndexOffset query < mp_SequenceNum ?x" using x(2) fwd(1) by (simp add: inRange_def)
  then have "filter (inRange ?query') (indexed q) = filter (\<lambda>y. mp_SequenceNum ?x < mp_SequenceNum y) ?M"
    using inRange_offset [OF fwd(1), of "ps_LastIndexOffset resp"] unfolding filter_filter off by simp
  also have "\<dots> = drop (unat (pq_MaxPayments query)) ?M"
  proof (rule sorted_tail)
    show "sorted_wrt (<) (map mp_SequenceNum ?M)"
      using indexed_sorted [OF inv] by (simp add: sorted_wrt_map sorted_wrt_filter)
  qed (use fwd(2) pays in simp)
  finally have "filter (inRange ?query') (indexed q) = drop (unat (pq_MaxPayments query)) ?M" .
  then show ?thesis
    using QueryPayments_page [OF inv small, of ?query'] nmax fwd(1) by (auto simp: page_def)
qed

text \<open>
  C19. After any sequence of fewer than \<open>2 ^ 53\<close> operations on an empty database, in which
  every payment is started under the hash that its creation info names, \<open>FetchPayments\<close>
  lists every payment once, in the order of the sequence numbers, and \<open>QueryPayments\<close> returns the
  first (or, reversed, the last) payments of that list that match the query and lie behind (before)
  its offset; a forward query from the last index of the response returns the payments that follow.
\<close>

theorem query_returns_pages:
  assumes "\<forall>op \<in> set ops. names_itself op" "length ops < 2 ^ 53"
    and "pq_Reversed query \<or> pq_IndexOffset query \<noteq> - 1"
  shows "\<exists>pays resp. FetchPayments (pc_db (fold apply_op ops freshControl)) = Inr pays
    \<and> set pays = {pay. \<exists>h. FetchPayment (fold apply_op ops freshControl) h = Inr pay}
    \<and> sorted_wrt (<) (map mp_SequenceNum pays)
    \<and> QueryPayments query (pc_db (fold apply_op ops freshControl)) = Inr resp
    \<and> ps_Payments resp = page query (filter (inRange query) pays)
    \<and> (\<not> pq_Reversed query \<and> ps_Payments resp \<noteq> [] \<longrightarrow>
        (\<exists>resp'. QueryPayments (query\<lparr>pq_IndexOffset := ps_LastIndexOffset resp\<rparr>) (pc_db (fold apply_op ops freshControl))
              = Inr resp'
           \<and> ps_Payments resp' = page query (drop (unat (pq_MaxPayments query)) (filter (inRange query) pays))))"
proof -
  define q where "q = fold apply_op ops freshControl"
  have inv: "seq_inv (length ops) q" using seq_inv_run assms(1,2) by (simp add: q_def)
  have small: "1000 * length ops + 1 < 2 ^ 64" using assms(2) by simp
  obtain resp where r: "QueryPayments query (pc_db q) = Inr resp"
    "ps_Payments resp = page query (filter (inRange query) (indexed q))"
    "ps_Payments resp \<noteq> [] \<longrightarrow> ps_LastIndexOffset resp = mp_SequenceNum (last (ps_Payments resp))"
    using QueryPayments_page [OF inv small assms(3)] by blast
  note next_page [OF inv small r(2,3)]
  then show ?thesis
    using r(1,2) FetchPayments_indexed [OF inv] set_indexed [OF inv] indexed_sorted [OF inv] by (auto simp: q_def)
qed


definition exQuery :: PaymentsQuery where
  "exQuery = \<lparr>pq_IndexOffset = 0, pq_MaxPayments = 1, pq_Reversed = False, pq_IncludeIncomplete = True,
              pq_IsQueryAsset = False, pq_AssetId = 0, pq_StartTime = 0, pq_EndTime = 0\<rparr>"

theorem query_returns_pages_witness:
  "map_sum id (\<lambda>resp. map mp_SequenceNum (ps_Payments resp)) (QueryPayments exQuery (pc_db exSent)) = Inr [1]
   \<and> (\<exists>pays resp. FetchPayments (pc_db exSent) = Inr pays \<and> sorted_wrt (<) (map mp_SequenceNum pays)
        \<and> QueryPayments exQuery (pc_db exSent) = Inr resp
        \<and> ps_Payments resp = page exQuery (filter (inRange exQuery) pays))"
proof -
  have a: "\<forall>op \<in> set [OpInit exHash exInfo, OpRegister exHash exAttempt]. names_itself op" by (simp add: exInfo_def)
  have l: "length [OpInit exHash exInfo, OpRegister exHash exAttempt] < 2 ^ 53" by simp
  have r: "pq_Reversed exQuery \<or> pq_IndexOffset exQuery \<noteq> - 1" by (simp add: exQuery_def)
  have "map_sum id (\<lambda>resp. map mp_SequenceNum (ps_Payments resp)) (QueryPayments exQuery (pc_db exSent)) = Inr [1]"
    by code_simp
  then show ?thesis using query_returns_pages [OF a l r] unfolding exSent_def by blast
qed

end
