(* ===== verification/Control_Tower.thy ===== *)
theory Control_Tower
  imports Payment_Safety
begin

text \<open>
  The control tower (\<open>src/oblnd/routing/control_tower.go\<close>): the payment control with subscribers. A
  subscriber gets the current payment and then every change of it, until the payment is no longer in
  flight; then its queue is closed. The lock of a payment makes the update of the database and the
  notification one atomic step, so a run is a sequence of operations. The queue of a subscriber is
  unbounded, so a notification never waits for a reader; a subscriber that has quit is passed over.
  Three things make the code panic, and are errors of the model that end a run: sending on a closed
  queue, closing a subscriber twice, and registering an attempt whose route has no hop.
\<close>

section \<open>The model\<close>

record ControlTowerSubscriber =
  cts_hash :: Hash
  cts_events :: "MPPayment list"
  cts_closed :: bool
  cts_quit :: bool

record controlTower =
  ct_db :: PaymentControl
  ct_subscribers :: "(Hash \<times> nat list) list"
  ct_pool :: "ControlTowerSubscriber list"

datatype tower_error = TowerErr payment_error | SendOnClosedPanic | CloseOfClosedPanic

definition liftErr :: "payment_error + 'a \<Rightarrow> tower_error + 'a" where
  "liftErr r = (case r of Inl e \<Rightarrow> Inl (TowerErr e) | Inr x \<Rightarrow> Inr x)"

definition NewControlTower :: "PaymentControl \<Rightarrow> controlTower" where
  "NewControlTower db = \<lparr>ct_db = db, ct_subscribers = [], ct_pool = []\<rparr>"

text \<open>A subscriber is a number: the position in the list of all subscribers that were made.\<close>

definition newControlTowerSubscriber :: "Hash \<Rightarrow> ControlTowerSubscriber" where
  "newControlTowerSubscriber h = \<lparr>cts_hash = h, cts_events = [], cts_closed = False, cts_quit = False\<rparr>"

text \<open>Closing the channel \<open>quit\<close> a second time panics. There is no call for a number that was not given out.\<close>

definition Close :: "nat \<Rightarrow> controlTower \<Rightarrow> tower_error + controlTower" where
  "Close i p =
     (if length (ct_pool p) \<le> i then Inr p
      else if cts_quit (ct_pool p ! i) then Inl CloseOfClosedPanic
      else Inr (p\<lparr>ct_pool := (ct_pool p)[i := (ct_pool p ! i)\<lparr>cts_quit := True\<rparr>]\<rparr>))"

fun notifyLoop :: "MPPayment \<Rightarrow> bool \<Rightarrow> nat list \<Rightarrow> ControlTowerSubscriber list \<Rightarrow> tower_error + ControlTowerSubscriber list" where
  "notifyLoop event terminal [] pool = Inr pool"
| "notifyLoop event terminal (i # is) pool =
     (let s = pool ! i
      in if cts_quit s then notifyLoop event terminal is pool
         else if cts_closed s then Inl SendOnClosedPanic
         else notifyLoop event terminal is (pool[i := s\<lparr>cts_events := cts_events s @ [event], cts_closed := terminal\<rparr>]))"

definition notifySubscribers :: "Hash \<Rightarrow> MPPayment \<Rightarrow> controlTower \<Rightarrow> tower_error + controlTower" where
  "notifySubscribers paymentHash event p =
     (case bGet (ct_subscribers p) paymentHash of
        None \<Rightarrow> Inr p
      | Some list \<Rightarrow>
          (let terminal = (mp_Status event \<noteq> StatusInFlight);
               subs = (if terminal then bDelete paymentHash (ct_subscribers p) else ct_subscribers p)
           in sbind (notifyLoop event terminal list (ct_pool p)) (\<lambda>pool.
                Inr (p\<lparr>ct_subscribers := subs, ct_pool := pool\<rparr>))))"

definition tower_InitPayment :: "Hash \<Rightarrow> PaymentCreationInfo \<Rightarrow> controlTower \<Rightarrow> controlTower \<times> payment_error option" where
  "tower_InitPayment paymentHash info p =
     (case InitPayment paymentHash info (ct_db p) of (db, err) \<Rightarrow> (p\<lparr>ct_db := db\<rparr>, err))"

definition notifyWith :: "Hash \<Rightarrow> payment_error + (PaymentControl \<times> MPPayment) \<Rightarrow> controlTower
    \<Rightarrow> tower_error + (controlTower \<times> MPPayment)" where
  "notifyWith paymentHash r p =
     sbind (liftErr r) (\<lambda>(db, payment).
     sbind (notifySubscribers paymentHash payment (p\<lparr>ct_db := db\<rparr>)) (\<lambda>p'. Inr (p', payment)))"

definition tower_RegisterAttempt :: "Hash \<Rightarrow> HTLCAttemptInfo \<Rightarrow> controlTower \<Rightarrow> tower_error + (controlTower \<times> MPPayment)" where
  "tower_RegisterAttempt paymentHash attempt p = notifyWith paymentHash (RegisterAttempt paymentHash attempt (ct_db p)) p"

definition tower_SettleAttempt ::
    "Hash \<Rightarrow> u64 \<Rightarrow> HTLCSettleInfo \<Rightarrow> controlTower \<Rightarrow> tower_error + (controlTower \<times> (payment_error + HTLCAttempt))" where
  "tower_SettleAttempt paymentHash attemptID settleInfo p =
     sbind (notifyWith paymentHash (SettleAttempt paymentHash attemptID settleInfo (ct_db p)) p) (\<lambda>(p', payment).
       Inr (p', GetAttempt payment attemptID))"

definition tower_FailAttempt ::
    "Hash \<Rightarrow> u64 \<Rightarrow> HTLCFailInfo \<Rightarrow> controlTower \<Rightarrow> tower_error + (controlTower \<times> (payment_error + HTLCAttempt))" where
  "tower_FailAttempt paymentHash attemptID failInfo p =
     sbind (notifyWith paymentHash (FailAttempt paymentHash attemptID failInfo (ct_db p)) p) (\<lambda>(p', payment).
       Inr (p', GetAttempt payment attemptID))"

definition tower_Fail :: "Hash \<Rightarrow> FailureReason \<Rightarrow> controlTower \<Rightarrow> tower_error + (controlTower \<times> MPPayment)" where
  "tower_Fail paymentHash reason p = notifyWith paymentHash (Fail paymentHash reason (ct_db p)) p"

definition SubscribePayment :: "Hash \<Rightarrow> controlTower \<Rightarrow> tower_error + (controlTower \<times> nat)" where
  "SubscribePayment paymentHash p =
     sbind (liftErr (FetchPayment (ct_db p) paymentHash)) (\<lambda>payment.
       let subscriber = (newControlTowerSubscriber paymentHash)\<lparr>cts_events := [payment]\<rparr>;
           i = length (ct_pool p);
           old = (case bGet (ct_subscribers p) paymentHash of None \<Rightarrow> [] | Some l \<Rightarrow> l)
       in if mp_Status payment = StatusInFlight
          then Inr (p\<lparr>ct_subscribers := bPut paymentHash (old @ [i]) (ct_subscribers p),
                      ct_pool := ct_pool p @ [subscriber]\<rparr>, i)
          else Inr (p\<lparr>ct_pool := ct_pool p @ [subscriber\<lparr>cts_closed := True\<rparr>]\<rparr>, i))"

section \<open>Runs of the tower\<close>

datatype tower_op =
    TInit Hash PaymentCreationInfo
  | TRegister Hash HTLCAttemptInfo
  | TSettle Hash u64 HTLCSettleInfo
  | TFailAttempt Hash u64 HTLCFailInfo
  | TFail Hash FailureReason
  | TSubscribe Hash
  | TClose nat
  | TDelete Hash bool
  | TDeleteAll bool bool

text \<open>A returned error ends the operation and leaves the tower as it was; a panic ends the run.\<close>

definition keepOn :: "controlTower \<Rightarrow> tower_error + (controlTower \<times> 'a) \<Rightarrow> tower_error + controlTower" where
  "keepOn p r =
     (case r of
        Inl (TowerErr e) \<Rightarrow> if e = NilHopPanic then Inl (TowerErr NilHopPanic) else Inr p
      | Inl panic \<Rightarrow> Inl panic
      | Inr (p', _) \<Rightarrow> Inr p')"

fun tower_op_run :: "tower_op \<Rightarrow> controlTower \<Rightarrow> tower_error + controlTower" where
  "tower_op_run (TInit h info) p = Inr (fst (tower_InitPayment h info p))"
| "tower_op_run (TRegister h a) p = keepOn p (tower_RegisterAttempt h a p)"
| "tower_op_run (TSettle h aid s) p = keepOn p (tower_SettleAttempt h aid s p)"
| "tower_op_run (TFailAttempt h aid f) p = keepOn p (tower_FailAttempt h aid f p)"
| "tower_op_run (TFail h r) p = keepOn p (tower_Fail h r p)"
| "tower_op_run (TSubscribe h) p = keepOn p (SubscribePayment h p)"
| "tower_op_run (TClose i) p = Close i p"
| "tower_op_run (TDelete h only) p = Inr (p\<lparr>ct_db := apply_op (OpDelete h only) (ct_db p)\<rparr>)"
| "tower_op_run (TDeleteAll fo fh) p = Inr (p\<lparr>ct_db := apply_op (OpDeleteAll fo fh) (ct_db p)\<rparr>)"

fun tower_run :: "tower_op list \<Rightarrow> controlTower \<Rightarrow> tower_error + controlTower" where
  "tower_run [] p = Inr p"
| "tower_run (op # ops) p = sbind (tower_op_run op p) (tower_run ops)"

section \<open>No panic but the two that a caller provokes\<close>

text \<open>The attempts that are stored have routes with hops, because one without a hop is never stored.\<close>

definition hasHops :: "HTLCAttemptInfo \<Rightarrow> bool" where
  "hasHops a \<longleftrightarrow> rt_Hops (ai_Route a) \<noteq> []"

definition bucket_routed :: "payment_bucket \<Rightarrow> bool" where
  "bucket_routed b \<longleftrightarrow> (\<forall>hb. pb_htlcs b = Some hb \<longrightarrow> (\<forall>e \<in> set (hb_ai hb). hasHops (snd e)))"

definition routed :: "PaymentControl \<Rightarrow> bool" where
  "routed p \<longleftrightarrow> (\<forall>h b. bucketAt p h = Some b \<longrightarrow> bucket_routed b)"

lemma collect_Nil: "collect f xs = Inr ys \<Longrightarrow> ys = [] \<longleftrightarrow> xs = []"
  by (cases xs) (auto simp: sbind_eq_Inr)

lemma serialize_hops: "serializeHTLCAttemptInfo a = Inr v \<Longrightarrow> hasHops v \<longleftrightarrow> hasHops a"
  by (auto simp: serializeHTLCAttemptInfo_def SerializeRoute_def sbind_eq_Inr hasHops_def dest: collect_Nil)

lemma checkAttempt_hops: "checkAttempt p a = Inr () \<Longrightarrow> hasHops a"
  by (auto simp: checkAttempt_def hasHops_def FinalHop_def sbind_eq_Inr split: prod.splits if_splits)

lemma bucket_routed_attempt:
  assumes "bucket_routed b" "serializeHTLCAttemptInfo a = Inr v" "checkAttempt p a = Inr ()"
  shows "bucket_routed (withAttempt aid v b)"
proof -
  have "hasHops v" using assms(2,3) serialize_hops checkAttempt_hops by blast
  then show ?thesis
    using assms(1) by (auto simp: bucket_routed_def withAttempt_def emptyHtlcs_def Let_def split: option.splits dest!: bPut_entries)
qed

lemma bucket_routed_update: "bucket_routed b \<Longrightarrow> pb_htlcs b = Some hb \<Longrightarrow> bucket_routed (withUpdate aid upd hb b)"
  by (cases upd) (auto simp: bucket_routed_def withUpdate_def)

lemma bucket_step_routed:
  "bucket_step h op v v' \<Longrightarrow> (\<forall>b. v = Some b \<longrightarrow> bucket_routed b) \<Longrightarrow> (\<forall>b. v' = Some b \<longrightarrow> bucket_routed b)"
proof (induction rule: bucket_step.induct)
  case (register a v b)
  then show ?case using bucket_routed_attempt by blast
next
  case (update op aid s upd f b hb)
  then show ?case using bucket_routed_update by blast
next
  case (prune b op)
  then show ?case by (fastforce simp: bucket_routed_def deleteHtlcs_def fold_bDelete)
qed (auto simp: bucket_routed_def initBucket_def)

lemma routed_op: "payments_ok p \<Longrightarrow> routed p \<Longrightarrow> routed (apply_op op p)"
  using payments.op_step bucket_step_routed unfolding routed_def by metis

lemma routed_run: "payments_ok p \<Longrightarrow> routed p \<Longrightarrow> routed (fold apply_op ops p)"
  by (induction ops arbitrary: p) (simp_all add: routed_op payments.op_ok del: apply_op.simps)

text \<open>So the missing hop is met only in a new attempt.\<close>

lemma collect_Inl: "collect f xs = Inl e \<Longrightarrow> \<exists>x \<in> set xs. f x = Inl e"
  by (induction xs) (auto simp: sbind_eq_Inl)

lemma fetchPayment_no_panic: "fetchPayment b \<noteq> Inl NilHopPanic"
  by (auto simp: fetchPayment_def fetchCreationInfo_def fetchHtlcAttempts_def readHtlcAttemptInfo_def readHtlcFailInfo_def
      DeserializeRoute_def deserializeHop_def sbind_eq_Inl Let_def split: option.splits if_splits dest!: collect_Inl)

lemma ensureInFlight_no_panic: "ensureInFlight p \<noteq> Inl NilHopPanic"
  by (simp add: ensureInFlight_def split: PaymentStatus.splits)

lemma checkShards_no_panic:
  "(\<forall>h \<in> set hs. hasHops (ha_Info h)) \<Longrightarrow> checkShards mpp hs \<noteq> Inl NilHopPanic"
  by (induction hs) (auto simp: hasHops_def FinalHop_def split: option.splits)

lemma update_no_panic:
  "updateHtlcKey h aid upd p \<noteq> Inl NilHopPanic" "Fail h r p \<noteq> Inl NilHopPanic" "FetchPayment p h \<noteq> Inl NilHopPanic"
  using fetchPayment_no_panic ensureInFlight_no_panic
  by (auto simp: updateHtlcKey_def Fail_def FetchPayment_def fetchPaymentBucketUpdate_def fetchPaymentBucket_def
      fetchPaymentStatus_def sbind_eq_Inl Let_def split: option.splits if_splits)

lemma register_panic:
  assumes "payments_ok p" "routed p" "RegisterAttempt h a p = Inl NilHopPanic"
  shows "\<not> hasHops a"
proof
  assume hops: "hasHops a"
  have ser: "serializeHTLCAttemptInfo a \<noteq> Inl NilHopPanic"
    by (auto simp: serializeHTLCAttemptInfo_def SerializeRoute_def serializeHop_def Validate_def sbind_eq_Inl
        split: if_splits dest!: collect_Inl)
  obtain b where b: "bucketAt p h = Some b" "checkAttempt (paymentOf b) a = Inl NilHopPanic"
  proof -
    obtain root b where at: "pd_root (pc_db p) = Some root" "bGet (pr_payments root) h = Some b"
      "\<exists>pp. fetchPayment b = Inr pp \<and> checkAttempt pp a = Inl NilHopPanic"
      using assms(3) ser fetchPayment_no_panic
      by (auto simp: RegisterAttempt_def fetchPaymentBucketUpdate_def sbind_eq_Inl Let_def split: option.splits)
    then have "bucketAt p h = Some b" by (simp add: bucketAt_def)
    moreover from this assms(1) have "fetchPayment b = Inr (paymentOf b)" by (auto simp: payments_ok_def fetchPayment_ok)
    ultimately show thesis using at(3) that by auto
  qed
  have "\<forall>x \<in> set (InFlightHTLCs (paymentOf b)). hasHops (ha_Info x)"
    using assms(2) b(1)
    by (cases "pb_htlcs b")
      (fastforce simp: routed_def bucket_routed_def InFlightHTLCs_def paymentOf_def htlcsOf_def attemptsOf_def attemptOf_def
        hasHops_def)+
  then show False
    using b(2) hops checkShards_no_panic ensureInFlight_no_panic
    by (auto simp: checkAttempt_def FinalHop_def hasHops_def sbind_eq_Inl Let_def split: prod.splits if_splits)
qed

section \<open>The invariant\<close>

text \<open>
  What a subscriber has seen: payments in flight, and after them at most one that is not, with which
  its queue is closed. As long as the queue is open, the last payment it has seen is the current one.
\<close>

definition stream_ok :: "PaymentControl \<Rightarrow> ControlTowerSubscriber \<Rightarrow> bool" where
  "stream_ok db s \<longleftrightarrow> cts_events s \<noteq> [] \<and> (\<forall>e \<in> set (butlast (cts_events s)). mp_Status e = StatusInFlight)
     \<and> (cts_closed s \<longleftrightarrow> mp_Status (last (cts_events s)) \<noteq> StatusInFlight)
     \<and> (\<not> cts_quit s \<and> \<not> cts_closed s \<longrightarrow> FetchPayment db (cts_hash s) = Inr (last (cts_events s)))"

definition tower_inv :: "controlTower \<Rightarrow> bool" where
  "tower_inv p \<longleftrightarrow> payments_ok (ct_db p) \<and> routed (ct_db p)
     \<and> (\<forall>h l. bGet (ct_subscribers p) h = Some l \<longrightarrow> distinct l
          \<and> (\<forall>i \<in> set l. i < length (ct_pool p) \<and> cts_hash (ct_pool p ! i) = h \<and> \<not> cts_closed (ct_pool p ! i)))
     \<and> (\<forall>i < length (ct_pool p). stream_ok (ct_db p) (ct_pool p ! i)
          \<and> (\<not> cts_quit (ct_pool p ! i) \<and> \<not> cts_closed (ct_pool p ! i) \<longrightarrow>
               (\<exists>l. bGet (ct_subscribers p) (cts_hash (ct_pool p ! i)) = Some l \<and> i \<in> set l)))"

lemma tower_invD:
  assumes "tower_inv p" "i < length (ct_pool p)"
  shows "stream_ok (ct_db p) (ct_pool p ! i)"
    and "bGet (ct_subscribers p) (cts_hash (ct_pool p ! i)) = Some l \<Longrightarrow> i \<notin> set l
      \<Longrightarrow> cts_quit (ct_pool p ! i) \<or> cts_closed (ct_pool p ! i)"
    and "bGet (ct_subscribers p) (cts_hash (ct_pool p ! i)) = None
      \<Longrightarrow> cts_quit (ct_pool p ! i) \<or> cts_closed (ct_pool p ! i)"
  using assms unfolding tower_inv_def by (fastforce, fastforce, fastforce)

lemma tower_inv_new: "payments_ok db \<Longrightarrow> routed db \<Longrightarrow> tower_inv (NewControlTower db)"
  by (simp add: tower_inv_def NewControlTower_def)

lemma paymentOf_status: "mp_Status (paymentOf b) = bucketStatus b"
  by (simp add: paymentOf_def)

lemma stream_in_flight:
  "payments_ok db \<Longrightarrow> stream_ok db s \<Longrightarrow> \<not> cts_quit s \<Longrightarrow> \<not> cts_closed s \<Longrightarrow> statusAt db (cts_hash s) = StatusInFlight"
  by (auto simp: stream_ok_def FetchPayment_ok statusAt_def split: option.splits) (metis paymentOf_status)

text \<open>A change of the database that leaves the payments in flight alone needs no notification.\<close>

lemma tower_inv_db:
  assumes "tower_inv p" "payments_ok db" "routed db"
    and "\<And>h. statusAt (ct_db p) h = StatusInFlight \<Longrightarrow> bucketAt db h = bucketAt (ct_db p) h"
  shows "tower_inv (p\<lparr>ct_db := db\<rparr>)"
proof -
  have ok: "payments_ok (ct_db p)" using assms(1) by (simp add: tower_inv_def)
  have "stream_ok db s" if "stream_ok (ct_db p) s" for s
    using that stream_in_flight [OF ok that] assms(4) [of "cts_hash s"]
    by (auto simp: stream_ok_def FetchPayment_ok [OF ok] FetchPayment_ok [OF assms(2)])
  then show ?thesis using assms(1-3) by (simp add: tower_inv_def)
qed

lemma tower_inv_init: "tower_inv p \<Longrightarrow> tower_inv (fst (tower_InitPayment h info p))"
proof -
  assume inv: "tower_inv p"
  then have ok: "payments_ok (ct_db p)" "routed (ct_db p)" by (simp_all add: tower_inv_def)
  have "tower_inv (p\<lparr>ct_db := fst (InitPayment h info (ct_db p))\<rparr>)"
    by (rule tower_inv_db [OF inv])
      (use routed_op [OF ok, of "OpInit h info"] in \<open>auto simp: InitPayment_payments [OF ok(1)] restartable_def\<close>)
  then show ?thesis by (simp add: tower_InitPayment_def case_prod_beta)
qed

lemma delete_keeps_in_flight:
  assumes "payments_ok p" "statusAt p h = StatusInFlight" "op = OpDelete k only \<or> op = OpDeleteAll fo fh"
  shows "bucketAt (apply_op op p) h = bucketAt p h"
proof -
  obtain b where b: "bucketAt p h = Some b" "bucketStatus b = StatusInFlight"
    using assms(2) by (auto simp: statusAt_def split: option.splits)
  have "bucket_step h op (Some b) (bucketAt (apply_op op p) h)" using apply_op_step [OF assms(1)] b(1) by metis
  then show ?thesis using b assms(3) by (auto elim!: bucket_step_SomeE)
qed

lemma tower_inv_delete:
  assumes "tower_inv p" "op = OpDelete k only \<or> op = OpDeleteAll fo fh"
  shows "tower_inv (p\<lparr>ct_db := apply_op op (ct_db p)\<rparr>)"
proof (rule tower_inv_db [OF assms(1)])
  have ok: "payments_ok (ct_db p)" using assms(1) by (simp add: tower_inv_def)
  then show "payments_ok (apply_op op (ct_db p))" by (rule payments.op_ok)
  show "routed (apply_op op (ct_db p))" using assms(1) by (simp add: tower_inv_def routed_op del: apply_op.simps)
  show "bucketAt (apply_op op (ct_db p)) h = bucketAt (ct_db p) h" if "statusAt (ct_db p) h = StatusInFlight" for h
    by (rule delete_keeps_in_flight [OF ok that assms(2)])
qed

section \<open>Notifications\<close>

lemma notifyLoop_pool:
  assumes "distinct l" "\<forall>i \<in> set l. i < length pool \<and> \<not> cts_closed (pool ! i)"
  shows "\<exists>pool'. notifyLoop event terminal l pool = Inr pool' \<and> length pool' = length pool
    \<and> (\<forall>j < length pool. pool' ! j =
         (if j \<in> set l \<and> \<not> cts_quit (pool ! j)
          then (pool ! j)\<lparr>cts_events := cts_events (pool ! j) @ [event], cts_closed := terminal\<rparr> else pool ! j))"
  using assms
proof (induction l arbitrary: pool)
  case (Cons i l)
  show ?case
  proof (cases "cts_quit (pool ! i)")
    case True
    then show ?thesis using Cons.IH [of pool] Cons.prems by (auto simp: Let_def)
  next
    case False
    let ?s = "(pool ! i)\<lparr>cts_events := cts_events (pool ! i) @ [event], cts_closed := terminal\<rparr>"
    have "\<exists>pool'. notifyLoop event terminal l (pool[i := ?s]) = Inr pool' \<and> length pool' = length (pool[i := ?s])
      \<and> (\<forall>j < length (pool[i := ?s]). pool' ! j =
         (if j \<in> set l \<and> \<not> cts_quit (pool[i := ?s] ! j)
          then (pool[i := ?s] ! j)\<lparr>cts_events := cts_events (pool[i := ?s] ! j) @ [event], cts_closed := terminal\<rparr>
          else pool[i := ?s] ! j))"
      by (rule Cons.IH) (use Cons.prems in \<open>auto simp: nth_list_update\<close>)
    then obtain pool' where p': "notifyLoop event terminal l (pool[i := ?s]) = Inr pool'" "length pool' = length pool"
      and at: "\<And>j. j < length pool \<Longrightarrow> pool' ! j =
         (if j \<in> set l \<and> \<not> cts_quit (pool[i := ?s] ! j)
          then (pool[i := ?s] ! j)\<lparr>cts_events := cts_events (pool[i := ?s] ! j) @ [event], cts_closed := terminal\<rparr>
          else pool[i := ?s] ! j)" by auto
    have "pool' ! j = (if j \<in> set (i # l) \<and> \<not> cts_quit (pool ! j)
          then (pool ! j)\<lparr>cts_events := cts_events (pool ! j) @ [event], cts_closed := terminal\<rparr> else pool ! j)"
      if "j < length pool" for j
      using at [OF that] Cons.prems False that by (auto simp: nth_list_update)
    then show ?thesis using p' False Cons.prems by (simp add: Let_def)
  qed
qed simp


text \<open>An operation that returns a payment has stored it and has left the other payments alone.\<close>

definition updates :: "Hash \<Rightarrow> PaymentControl \<Rightarrow> PaymentControl \<Rightarrow> MPPayment \<Rightarrow> bool" where
  "updates h p p' pay \<longleftrightarrow> payments_ok p' \<and> routed p' \<and> FetchPayment p' h = Inr pay \<and> (\<forall>k. k \<noteq> h \<longrightarrow> FetchPayment p' k = FetchPayment p k)"

lemma updates_write:
  assumes "payments_ok p" "routed p" "pd_root (pc_db p) = Some root" "bucket_ok b" "bucket_routed b"
  shows "updates h p (p\<lparr>pc_db := writeBucket root h b (pc_db p)\<rparr>) (paymentOf b)"
  using payments_ok_write [OF assms(1,3,4), of h] bucketAt_write [OF assms(3), of h b] assms(1,2,5)
  by (simp add: updates_def FetchPayment_ok routed_def)

lemma update_results:
  assumes "payments_ok p" "routed p"
  shows "RegisterAttempt h a p = Inr (p', pay) \<Longrightarrow> updates h p p' pay"
    and "updateHtlcKey h aid upd p = Inr (p', pay) \<Longrightarrow> updates h p p' pay"
    and "Fail h r p = Inr (p', pay) \<Longrightarrow> updates h p p' pay"
proof -
  have b: "bucketAt p h = Some b \<Longrightarrow> bucket_routed b" for b using assms(2) by (simp add: routed_def)
  show "updates h p p' pay" if "RegisterAttempt h a p = Inr (p', pay)"
    by (rule RegisterAttempt_InrD [OF assms(1) that]) (simp add: updates_write [OF assms] bucket_routed_attempt b)
  show "updates h p p' pay" if "updateHtlcKey h aid upd p = Inr (p', pay)"
    by (rule updateHtlcKey_InrD [OF assms(1) that]) (simp add: updates_write [OF assms] bucket_routed_update b)
  show "updates h p p' pay" if "Fail h r p = Inr (p', pay)"
    by (rule Fail_InrD [OF assms(1) that])
      (use b in \<open>auto simp: bucket_routed_def bucket_ok_fail intro!: updates_write [OF assms]\<close>)
qed

lemma stream_ok_other:
  "stream_ok db s \<Longrightarrow> updates h db db' pay \<Longrightarrow> cts_hash s \<noteq> h \<or> cts_quit s \<or> cts_closed s \<Longrightarrow> stream_ok db' s"
  by (auto simp: stream_ok_def updates_def)

lemma stream_ok_event:
  assumes "stream_ok db s" "updates h db db' pay" "cts_hash s = h" "\<not> cts_quit s" "\<not> cts_closed s"
  shows "stream_ok db' (s\<lparr>cts_events := cts_events s @ [pay], cts_closed := (mp_Status pay \<noteq> StatusInFlight)\<rparr>)"
proof -
  have "set (cts_events s) = insert (last (cts_events s)) (set (butlast (cts_events s)))"
    using assms(1) by (metis append_butlast_last_id list.set(1) list.simps(15) set_append stream_ok_def Un_insert_right sup_bot_right)
  then show ?thesis using assms by (auto simp: stream_ok_def updates_def)
qed

lemma notify_inv:
  assumes inv: "tower_inv p" and upd: "updates h (ct_db p) db pay"
  shows "\<exists>p'. notifySubscribers h pay (p\<lparr>ct_db := db\<rparr>) = Inr p' \<and> tower_inv p'"
proof (cases "bGet (ct_subscribers p) h")
  case None
  have "stream_ok db (ct_pool p ! i)" if "i < length (ct_pool p)" for i
    by (rule stream_ok_other [OF tower_invD(1) [OF inv that] upd]) (use tower_invD(3) [OF inv that] None in blast)
  then have "tower_inv (p\<lparr>ct_db := db\<rparr>)" using inv upd by (simp add: tower_inv_def updates_def)
  then show ?thesis using None by (simp add: notifySubscribers_def)
next
  case (Some l)
  let ?terminal = "mp_Status pay \<noteq> StatusInFlight"
  have l: "distinct l" "\<forall>i \<in> set l. i < length (ct_pool p) \<and> cts_hash (ct_pool p ! i) = h \<and> \<not> cts_closed (ct_pool p ! i)"
    using inv Some by (auto simp: tower_inv_def)
  obtain pool' where run: "notifyLoop pay ?terminal l (ct_pool p) = Inr pool'" and len: "length pool' = length (ct_pool p)"
    and at: "\<And>j. j < length (ct_pool p) \<Longrightarrow> pool' ! j =
         (if j \<in> set l \<and> \<not> cts_quit (ct_pool p ! j)
          then (ct_pool p ! j)\<lparr>cts_events := cts_events (ct_pool p ! j) @ [pay], cts_closed := ?terminal\<rparr> else ct_pool p ! j)"
    using notifyLoop_pool [of l "ct_pool p" pay ?terminal] l by blast
  define p' where "p' = p\<lparr>ct_db := db, ct_pool := pool',
    ct_subscribers := if ?terminal then bDelete h (ct_subscribers p) else ct_subscribers p\<rparr>"
  have streams: "stream_ok db (pool' ! i)" if "i < length (ct_pool p)" for i
  proof (cases "i \<in> set l \<and> \<not> cts_quit (ct_pool p ! i)")
    case True
    then show ?thesis
      using l that stream_ok_event [OF tower_invD(1) [OF inv that] upd] by (simp add: at)
  next
    case False
    then have "cts_hash (ct_pool p ! i) \<noteq> h \<or> cts_quit (ct_pool p ! i) \<or> cts_closed (ct_pool p ! i)"
      using tower_invD(2) [OF inv that] Some by blast
    then show ?thesis
      using that stream_ok_other [OF tower_invD(1) [OF inv that] upd] False by (auto simp: at)
  qed
  have p': "ct_db p' = db" "ct_pool p' = pool'"
    "bGet (ct_subscribers p') k = (if ?terminal \<and> k = h then None else bGet (ct_subscribers p) k)" for k
    by (simp_all add: p'_def kv.get_del)
  have same: "cts_hash (pool' ! i) = cts_hash (ct_pool p ! i)" "cts_quit (pool' ! i) = cts_quit (ct_pool p ! i)"
    "cts_closed (pool' ! i) = (cts_closed (ct_pool p ! i) \<or> i \<in> set l \<and> \<not> cts_quit (ct_pool p ! i) \<and> ?terminal)"
    if "i < length (ct_pool p)" for i
    using that l(2) by (auto simp: at)
  have "tower_inv p'"
    unfolding tower_inv_def p'
  proof (intro conjI allI impI)
    show "payments_ok db" "routed db" using upd by (simp_all add: updates_def)
    fix k m assume m: "(if ?terminal \<and> k = h then None else bGet (ct_subscribers p) k) = Some m"
    then have sub: "bGet (ct_subscribers p) k = Some m" "?terminal \<Longrightarrow> k \<noteq> h" by (auto split: if_splits)
    then have mem: "distinct m" "\<forall>i \<in> set m. i < length (ct_pool p) \<and> cts_hash (ct_pool p ! i) = k \<and> \<not> cts_closed (ct_pool p ! i)"
      using inv by (auto simp: tower_inv_def)
    then show "distinct m" by simp
    show "\<forall>i \<in> set m. i < length pool' \<and> cts_hash (pool' ! i) = k \<and> \<not> cts_closed (pool' ! i)"
      using mem(2) sub(2) l(2) same len by metis
  next
    fix i assume i: "i < length pool'"
    then show "stream_ok db (pool' ! i)" using streams len by simp
    assume op: "\<not> cts_quit (pool' ! i) \<and> \<not> cts_closed (pool' ! i)"
    then obtain m where m: "bGet (ct_subscribers p) (cts_hash (ct_pool p ! i)) = Some m" "i \<in> set m"
      using tower_invD(2,3) [OF inv, of i] same [of i] i len by (metis option.exhaust)
    then have "\<not> (?terminal \<and> cts_hash (ct_pool p ! i) = h)" using op same [of i] i len Some by auto
    then show "\<exists>l. (if ?terminal \<and> cts_hash (pool' ! i) = h then None else bGet (ct_subscribers p) (cts_hash (pool' ! i))) = Some l \<and> i \<in> set l"
      using m same [of i] i len by auto
  qed
  moreover have "notifySubscribers h pay (p\<lparr>ct_db := db\<rparr>) = Inr p'"
    by (simp add: notifySubscribers_def Some run Let_def p'_def)
  ultimately show ?thesis by blast
qed


section \<open>Runs\<close>

text \<open>The subscribers that have quit.\<close>

definition quits :: "controlTower \<Rightarrow> nat set" where
  "quits p = {i. i < length (ct_pool p) \<and> cts_quit (ct_pool p ! i)}"

lemma notifyLoop_quit: "notifyLoop event terminal l pool = Inr pool' \<Longrightarrow> map cts_quit pool' = map cts_quit pool"
proof (induction l arbitrary: pool)
  case (Cons i l)
  have "(map cts_quit pool)[i := cts_quit (pool ! i)] = map cts_quit pool"
    by (cases "i < length pool") (simp_all add: list_update_beyond flip: nth_map)
  with Cons show ?case by (fastforce simp: Let_def map_update split: if_splits)
qed simp

lemma quits_map: "map cts_quit (ct_pool p') = map cts_quit (ct_pool p) \<Longrightarrow> quits p' = quits p"
  unfolding quits_def by (metis (no_types, lifting) length_map nth_map)

lemma notify_quits: "notifySubscribers h pay p = Inr p' \<Longrightarrow> quits p' = quits p"
  by (rule quits_map) (auto simp: notifySubscribers_def sbind_eq_Inr Let_def dest: notifyLoop_quit split: option.splits)

lemma notifyWith_inv:
  assumes "tower_inv p" "\<And>db pay. r = Inr (db, pay) \<Longrightarrow> updates h (ct_db p) db pay" "r \<noteq> Inl NilHopPanic"
  shows "\<exists>p'. keepOn p (notifyWith h r p) = Inr p' \<and> tower_inv p' \<and> quits p' = quits p"
proof (cases r)
  case (Inl e)
  then show ?thesis using assms(1,3) by (simp add: notifyWith_def liftErr_def keepOn_def)
next
  case (Inr x)
  obtain db pay where x: "x = (db, pay)" by (rule prod.exhaust)
  obtain p' where p': "notifySubscribers h pay (p\<lparr>ct_db := db\<rparr>) = Inr p'" "tower_inv p'"
    using notify_inv [OF assms(1) assms(2) [OF Inr [unfolded x]]] by blast
  have "quits p' = quits p" using notify_quits [OF p'(1)] by (simp add: quits_def)
  then show ?thesis using p' by (simp add: Inr x notifyWith_def liftErr_def keepOn_def)
qed

lemma keepOn_GetAttempt: "keepOn p (sbind r (\<lambda>(p', payment). Inr (p', f payment))) = keepOn p r"
  by (cases r) (auto simp: keepOn_def split: prod.splits tower_error.splits)

lemma tower_inv_close:
  assumes "tower_inv p" "i \<notin> quits p"
  shows "\<exists>p'. Close i p = Inr p' \<and> tower_inv p' \<and> quits p' \<subseteq> insert i (quits p)"
proof (cases "i < length (ct_pool p)")
  case True
  define p' where "p' = p\<lparr>ct_pool := (ct_pool p)[i := (ct_pool p ! i)\<lparr>cts_quit := True\<rparr>]\<rparr>"
  have "tower_inv p'" using assms(1) True unfolding tower_inv_def p'_def stream_ok_def by (auto simp: nth_list_update)
  moreover have "quits p' \<subseteq> insert i (quits p)" using True by (auto simp: quits_def p'_def nth_list_update split: if_splits)
  moreover have "Close i p = Inr p'" using True assms(2) by (simp add: Close_def quits_def p'_def)
  ultimately show ?thesis by blast
qed (use assms in \<open>auto simp: Close_def not_less\<close>)

lemma tower_inv_subscribe:
  assumes inv: "tower_inv p"
  shows "\<exists>p'. keepOn p (SubscribePayment h p) = Inr p' \<and> tower_inv p' \<and> quits p' = quits p"
proof (cases "FetchPayment (ct_db p) h")
  case (Inl e)
  then show ?thesis using inv update_no_panic(3) [of "ct_db p" h] by (auto simp: SubscribePayment_def liftErr_def keepOn_def)
next
  case (Inr pay)
  define s where "s = (newControlTowerSubscriber h)\<lparr>cts_events := [pay], cts_closed := (mp_Status pay \<noteq> StatusInFlight)\<rparr>"
  define p' where "p' = p\<lparr>ct_pool := ct_pool p @ [s],
    ct_subscribers := (if mp_Status pay = StatusInFlight
      then bPut h ((case bGet (ct_subscribers p) h of None \<Rightarrow> [] | Some l \<Rightarrow> l) @ [length (ct_pool p)]) (ct_subscribers p)
      else ct_subscribers p)\<rparr>"
  have s: "stream_ok (ct_db p) s" "cts_hash s = h" "cts_closed s \<longleftrightarrow> mp_Status pay \<noteq> StatusInFlight"
    by (simp_all add: s_def stream_ok_def newControlTowerSubscriber_def Inr)
  have "tower_inv p'"
    unfolding tower_inv_def
  proof (intro conjI allI impI)
    show "payments_ok (ct_db p')" "routed (ct_db p')" using inv by (simp_all add: p'_def tower_inv_def)
    fix k l assume "bGet (ct_subscribers p') k = Some l"
    then show "distinct l" and "\<forall>i \<in> set l. i < length (ct_pool p') \<and> cts_hash (ct_pool p' ! i) = k \<and> \<not> cts_closed (ct_pool p' ! i)"
      using inv s unfolding tower_inv_def
      by (force simp: p'_def kv.get_put nth_append split: if_splits option.splits)+
  next
    fix i assume i: "i < length (ct_pool p')"
    show "stream_ok (ct_db p') (ct_pool p' ! i)"
      using i s tower_invD(1) [OF inv, of i] by (auto simp: p'_def nth_append less_Suc_eq)
    assume open_sub: "\<not> cts_quit (ct_pool p' ! i) \<and> \<not> cts_closed (ct_pool p' ! i)"
    show "\<exists>l. bGet (ct_subscribers p') (cts_hash (ct_pool p' ! i)) = Some l \<and> i \<in> set l"
    proof (cases "i = length (ct_pool p)")
      case True
      then show ?thesis using open_sub s by (auto simp: p'_def nth_append kv.get_put)
    next
      case False
      then have i': "i < length (ct_pool p)" "ct_pool p' ! i = ct_pool p ! i" using i by (auto simp: p'_def nth_append)
      then obtain l where "bGet (ct_subscribers p) (cts_hash (ct_pool p ! i)) = Some l" "i \<in> set l"
        using tower_invD(2,3) [OF inv i'(1)] open_sub by (metis option.exhaust)
      then show ?thesis using i' by (auto simp: p'_def kv.get_put)
    qed
  qed
  moreover have "quits p' = quits p"
    by (auto simp: quits_def p'_def s_def newControlTowerSubscriber_def nth_append less_Suc_eq)
  moreover have "keepOn p (SubscribePayment h p) = Inr p'"
    by (simp add: SubscribePayment_def Inr liftErr_def keepOn_def Let_def p'_def s_def newControlTowerSubscriber_def)
  ultimately show ?thesis by blast
qed

text \<open>The subscribers that the caller closes, in the order of the calls.\<close>

fun closedBy :: "tower_op \<Rightarrow> nat list" where
  "closedBy (TClose i) = [i]"
| "closedBy _ = []"

definition closes :: "tower_op list \<Rightarrow> nat list" where
  "closes ops = concat (map closedBy ops)"

fun provokes :: "tower_op \<Rightarrow> controlTower \<Rightarrow> tower_error \<Rightarrow> bool" where
  "provokes (TClose i) p e \<longleftrightarrow> e = CloseOfClosedPanic \<and> i \<in> quits p"
| "provokes (TRegister h a) p e \<longleftrightarrow> e = TowerErr NilHopPanic \<and> \<not> hasHops a"
| "provokes _ p e \<longleftrightarrow> False"

lemma tower_op_inv:
  assumes "tower_inv p"
  shows "case tower_op_run op p of
      Inr p' \<Rightarrow> tower_inv p' \<and> quits p' \<subseteq> set (closedBy op) \<union> quits p
    | Inl e \<Rightarrow> provokes op p e"
proof -
  have ok: "payments_ok (ct_db p)" "routed (ct_db p)" using assms by (simp_all add: tower_inv_def)
  note upd = update_results [OF ok]
  have quiet: ?thesis if "\<exists>p'. tower_op_run op p = Inr p' \<and> tower_inv p' \<and> quits p' = quits p" using that by auto
  show ?thesis
  proof (cases op)
    case (TRegister h a)
    show ?thesis
    proof (cases "RegisterAttempt h a (ct_db p) = Inl NilHopPanic")
      case True
      then show ?thesis
        using register_panic [OF ok True] by (simp add: TRegister tower_RegisterAttempt_def notifyWith_def liftErr_def keepOn_def)
    next
      case False
      then show ?thesis
        by (intro quiet) (use notifyWith_inv [OF assms upd(1)] in \<open>simp add: TRegister tower_RegisterAttempt_def\<close>)
    qed
  next
    case (TSettle h aid s)
    then show ?thesis
      by (intro quiet) (use notifyWith_inv [OF assms upd(2) update_no_panic(1)] in
          \<open>simp add: tower_SettleAttempt_def keepOn_GetAttempt SettleAttempt_def\<close>)
  next
    case (TFailAttempt h aid f)
    then show ?thesis
      by (intro quiet) (use notifyWith_inv [OF assms upd(2) update_no_panic(1)] in
          \<open>simp add: tower_FailAttempt_def keepOn_GetAttempt FailAttempt_def\<close>)
  next
    case (TFail h r)
    then show ?thesis
      by (intro quiet) (use notifyWith_inv [OF assms upd(3) update_no_panic(2)] in \<open>simp add: tower_Fail_def\<close>)
  next
    case (TClose i)
    show ?thesis
    proof (cases "i \<in> quits p")
      case True
      then show ?thesis by (auto simp: TClose Close_def quits_def)
    next
      case False
      then show ?thesis using tower_inv_close [OF assms False] by (auto simp: TClose)
    qed
  next
    case (TSubscribe h)
    then show ?thesis by (intro quiet) (use tower_inv_subscribe [OF assms] in simp)
  next
    case (TInit h info)
    then show ?thesis
      by (intro quiet) (use tower_inv_init [OF assms] in \<open>simp add: quits_def tower_InitPayment_def case_prod_beta\<close>)
  qed (use tower_inv_delete [OF assms] in \<open>auto simp: quits_def simp del: apply_op.simps\<close>)
qed

lemma tower_run_inv:
  "tower_inv p \<Longrightarrow> case tower_run ops p of
      Inr q \<Rightarrow> tower_inv q
    | Inl e \<Rightarrow> e = CloseOfClosedPanic \<and> (\<not> distinct (closes ops) \<or> set (closes ops) \<inter> quits p \<noteq> {})
        \<or> e = TowerErr NilHopPanic \<and> (\<exists>h a. TRegister h a \<in> set ops \<and> \<not> hasHops a)"
proof (induction ops arbitrary: p)
  case (Cons op ops)
  note step = tower_op_inv [OF Cons.prems, of op]
  show ?case
  proof (cases "tower_op_run op p")
    case (Inl e)
    then have "provokes op p e" using step by simp
    then show ?thesis using Inl by (cases op) (auto simp: closes_def)
  next
    case (Inr p')
    then have p': "tower_inv p'" "quits p' \<subseteq> set (closedBy op) \<union> quits p" using step by simp_all
    have "closes (op # ops) = closedBy op @ closes ops" by (simp add: closes_def)
    then show ?thesis
      using Cons.IH [OF p'(1)] p'(2) Inr by (auto split: sum.splits)
  qed
qed simp

text \<open>
  C20. The control tower is started on any well-formed database whose attempts have routes with hops
  (what the operations of the payment control keep), and then runs any sequence of operations,
  subscriptions, cancelled subscriptions and deletions. It never sends on a closed queue: a run that
  panics has closed the same subscriber twice or has registered an attempt without a hop. When it
  does not panic, every subscriber has seen payments in flight only, except possibly the last one;
  its queue is closed exactly when the last one is not in flight; and as long as it has not quit and
  its queue is open, the last payment it has seen is the current state of the payment.
\<close>

theorem subscribers_up_to_date:
  assumes "payments_ok db" "routed db"
  shows "case tower_run ops (NewControlTower db) of
      Inr q \<Rightarrow> (\<forall>s \<in> set (ct_pool q). cts_events s \<noteq> []
         \<and> (\<forall>e \<in> set (butlast (cts_events s)). mp_Status e = StatusInFlight)
         \<and> (cts_closed s \<longleftrightarrow> mp_Status (last (cts_events s)) \<noteq> StatusInFlight)
         \<and> (\<not> cts_quit s \<and> \<not> cts_closed s \<longrightarrow> FetchPayment (ct_db q) (cts_hash s) = Inr (last (cts_events s))))
    | Inl panic \<Rightarrow> panic = CloseOfClosedPanic \<and> \<not> distinct (closes ops)
         \<or> panic = TowerErr NilHopPanic \<and> (\<exists>h a. TRegister h a \<in> set ops \<and> rt_Hops (ai_Route a) = [])"
proof -
  have "quits (NewControlTower db) = {}" by (simp add: quits_def NewControlTower_def)
  moreover have "stream_ok (ct_db q) s" if "tower_inv q" "s \<in> set (ct_pool q)" for q s
    using that tower_invD(1) by (metis in_set_conv_nth)
  ultimately show ?thesis
    using tower_run_inv [OF tower_inv_new [OF assms], of ops]
    by (auto simp: stream_ok_def hasHops_def split: sum.splits)
qed

lemma routed_exSent: "routed exSent"
  unfolding exSent_def
  by (rule routed_run [OF payments_ok_fresh]) (simp add: routed_def bucketAt_def freshControl_def NewPaymentControl_def)

definition exOps :: "tower_op list" where
  "exOps = [TSubscribe exHash, TFail exHash 1, TSubscribe exHash, TClose 0,
            TFailAttempt exHash 7 \<lparr>hfi_FailTime = None, hfi_Message = None, hfi_Reason = 0, hfi_FailureSourceIndex = 0\<rparr>]"

text \<open>The run of the example: one subscriber quits, the other sees the end of the payment.\<close>

theorem subscribers_up_to_date_witness:
  "\<exists>q. tower_run exOps (NewControlTower exSent) = Inr q
    \<and> (\<forall>s \<in> set (ct_pool q). cts_closed s \<longleftrightarrow> mp_Status (last (cts_events s)) \<noteq> StatusInFlight)
    \<and> tower_run (exOps @ [TClose 0]) (NewControlTower exSent) = Inl CloseOfClosedPanic"
proof -
  have "is_ok (tower_run exOps (NewControlTower exSent))" by code_simp
  then obtain q where "tower_run exOps (NewControlTower exSent) = Inr q" using is_ok_Inr by blast
  moreover have "projl (tower_run (exOps @ [TClose 0]) (NewControlTower exSent)) = CloseOfClosedPanic
      \<and> \<not> is_ok (tower_run (exOps @ [TClose 0]) (NewControlTower exSent))" by code_simp
  then have "tower_run (exOps @ [TClose 0]) (NewControlTower exSent) = Inl CloseOfClosedPanic"
    by (cases "tower_run (exOps @ [TClose 0]) (NewControlTower exSent)") auto
  ultimately show ?thesis
    using subscribers_up_to_date [OF payments_ok_exSent routed_exSent, of exOps] by auto
qed

end
