(* ===== verification/Spec2Isabelle.thy ===== *)
theory Spec2Isabelle
  imports Prelude Shachain_Store Channel_Safety Wire_Canonical Omni_Payload Commitment_Safety Second_Level Fwd_Pkg Resync Channel_Capacity Close_Safety Payment_Query Control_Tower
begin

text \<open>
  A verification development of the channel logic of the OmniBOLT daemon, a Lightning daemon whose
  channels carry bitcoin or an Omni asset (\<open>src/oblnd\<close>).

  \<^bold>\<open>The program and the parts modelled here.\<close> A channel is a state machine between two nodes. Each
  node keeps two logs of updates (its own and the peer's) and two chains of commitments (its own and
  the peer's). Updates are proposed in messages, enter a log, are included in a commitment when it
  is signed, and are final when the commitments that do not contain them are revoked. A revocation
  hands over a secret of a hash chain; the store of the receiver derives any earlier secret from at
  most 48 stored ones. What must survive a crash is written to the bucket of the channel in the
  database; after a restart the two nodes exchange reestablish messages and send again what the
  other has not seen. A commitment of an asset channel carries an \<open>OP_RETURN\<close> payload that assigns
  the asset amounts to its outputs. Above the channels, an outgoing payment is tracked in the database
  from its start over its HTLC attempts to its success or failure.

  \<^bold>\<open>Theories and sources.\<close>
  \<^item> \<open>Prelude\<close>: machine types, results, big-endian bytes, shared lemmas. \<open>Sha256\<close>: the hash of Go's
    standard library, executable.
  \<^item> \<open>Shachain\<close>, \<open>Shachain_Store\<close>: \<open>shachain/element.go\<close>, \<open>utils.go\<close>, \<open>producer.go\<close>, \<open>store.go\<close>.
    An index is a \<open>64 word\<close>, a bucket array a list of optional elements. Lemmas: derivability is
    prefix inclusion, derivations compose, the invariant of the buckets; from them, an honest
    sequence of secrets is accepted, every accepted one is recoverable, and the encoding of a store
    is decoded to the store.
  \<^item> \<open>Units\<close>: \<open>lnwire/msat.go\<close>, \<open>lnwallet/chainfee/rates.go\<close>, \<open>input/size.go\<close>, channel types and
    constraints of \<open>channeldb/channel.go\<close>, dust and fee functions of \<open>lnwallet\<close>. Amounts keep their
    width, all sums wrap.
  \<^item> \<open>Lnwire\<close>, \<open>Lnwire_Messages\<close>, \<open>Wire_Canonical\<close>: \<open>lnwire\<close>, one record with \<open>Encode\<close> and \<open>Decode\<close> per
    message. The locales \<open>element\<close> and \<open>wire_message\<close> are the contracts of the element codecs and of
    the interface \<open>Message\<close>; \<open>canonical_message\<close> adds that only encodings are accepted.
  \<^item> \<open>Update_Log\<close>, \<open>Commit_View\<close>, \<open>View_Conservation\<close>: \<open>lnwallet/channel.go\<close>, the payment descriptors,
    the logs with their two indexes and \<open>compactLogs\<close>; the chains, \<open>evaluateHTLCView\<close> and
    \<open>computeView\<close>. A Go list element has an identity, so entries are pairs of an element number
    and a descriptor, and mutation of the shared descriptor is an update of the entry. The lemmas
    show that an evaluation changes only the progress of the updates and conserves value.
  \<^item> \<open>Channel_Ops\<close>, \<open>Channel_Safety\<close>: the operations that add, settle and fail HTLCs and change the
    fee, with all their checks. The locale \<open>htlc_removal\<close> is the contract that the five operations
    which remove an HTLC share. The lemmas on extended views (\<open>evaluate_extended\<close>) follow an HTLC that
    was accepted without a check into the next commitment.
  \<^item> \<open>Omni_Payload\<close>: \<open>lnwallet/omnicore/op/opreturn.go\<close>. \<open>Key_Derivation\<close>: the tweaks of
    \<open>input/script_utils.go\<close> and \<open>DeriveCommitmentKeys\<close>. \<open>Commit_Tx\<close>, \<open>Commitment_Safety\<close>:
    \<open>lnwallet/commitment.go\<close>, \<open>commit_sort.go\<close> and the state hints, with \<open>fetchCommitmentView\<close>.
    \<open>Second_Level\<close>: the second-level transactions and the signing and verification jobs.
  \<^item> \<open>Fwd_Pkg\<close>: \<open>channeldb/forwarding_package.go\<close>; the locale \<open>index_set\<close> is the contract of a filter.
  \<^item> \<open>Commit_Dance\<close>, \<open>Chan_Sync\<close>, \<open>Restart\<close>, \<open>Channel_Disk\<close>, \<open>Resync\<close>: signing, receiving, revoking and
    receiving revocations with the database operations that they call; the reestablish messages;
    the restoration of a channel from its bucket; the invariant \<open>disk_inv\<close> that ties memory to disk
    along the step relation \<open>channel_step\<close> (operations, failing operations, restarts), which the
    locale \<open>invariant_system\<close> lifts to reachable states; and what is sent again after a crash, with the
    commitment that is signed anew when one is owed.
  \<^item> \<open>Update_Progress\<close>, \<open>Channel_Capacity\<close>: what the construction of a commitment writes to the logs, which
    HTLCs a commitment therefore carries, and the invariant along \<open>live_step\<close> that every commitment
    of both chains is worth the capacity of the channel.
  \<^item> \<open>Coop_Close\<close>, \<open>Chan_Closer\<close>, \<open>Close_Negotiation\<close>, \<open>Close_Safety\<close>: the closing transactions of
    \<open>lnwallet/channel.go\<close> and the state machine of \<open>lnwallet/chancloser/chancloser.go\<close>, for bitcoin
    channels and for the simple-send close of asset channels. The locale \<open>fee_rule\<close> is what the
    negotiation needs of \<open>calcCompromiseFee\<close>: with it the game of two parties ends, and two closers
    (\<open>exchange\<close>) play that game from the first shutdown to the broadcast. Along \<open>closer_step\<close>, any
    messages in any order, the invariant bounds what is broadcast.
  \<^item> \<open>Kv_Bucket\<close>, \<open>Payment_Control\<close>, \<open>Payment_Safety\<close>, \<open>Payment_Index\<close>, \<open>Payment_Query\<close>, \<open>Control_Tower\<close>: the
    outgoing payments, \<open>channeldb/payment_control.go\<close>, \<open>mp_payment.go\<close>, \<open>payments.go\<close>, \<open>paginate.go\<close>,
    \<open>duplicate_payments.go\<close> and \<open>routing/control_tower.go\<close>. The locale \<open>kv_store\<close> is the contract of a
    bucket. Every operation acts on each payment as a \<open>bucket_step\<close>; the locale \<open>viewed_system\<close> lifts what
    the steps keep to runs of operations. From it: no second payment after a settlement, no
    overpayment, the life cycle of the status, an exact index of sequence numbers across restarts,
    queries that return the pages of that index, and subscribers that
    are up to date; a run of the control tower panics only where its caller provokes it.

  \<^bold>\<open>State and errors.\<close> Every struct is a record with the fields that the modelled code reads or
  writes, every method a function that returns the new record. A returned Go error is \<open>Inl\<close> of an
  error datatype, and a panic (an index out of range, a nil pointer) is an error of its own. A
  database transaction commits all its writes or none; whether the engine commits is a parameter.

  \<^bold>\<open>Parameters.\<close> The curve (\<open>btcec\<close>), signing and verification (\<open>txscript\<close>), the script templates of
  \<open>input\<close>, transaction weight and sanity (\<open>btcd\<close>) and public key serialisation are record arguments,
  with the documented laws as named predicates (\<open>curveLaws\<close>, \<open>sigLaws\<close>, \<open>canonicalOrder\<close>, \<open>closable\<close>) that
  the witnesses show to be satisfiable.

  \<^bold>\<open>Bounds.\<close> All loops of the code are structural recursions or folds over lists and use no fuel. Only
  the conversation of two closers (\<open>exchange\<close>) counts its turns, and the theorem gives a number of
  turns from which on the result does not change. Heights in the resynchronisation theorems are
  below \<open>2 ^ 48\<close>, the number of secrets that a producer has; runs of the payment control have fewer than
  \<open>2 ^ 53\<close> operations, so that blocks of a thousand sequence numbers do not exhaust 64 bits, and its
  amounts are below \<open>2 ^ 63\<close>, so that the sum of two of them does not wrap; closing fees are from ten satoshis, below
  which an offer does not move, to \<open>2 ^ 60\<close>, above which the products of the fee rule wrap.

  \<^bold>\<open>Not modelled.\<close> The RPC surface, the peer connections, the wallet backends, chain notification,
  gossip, path finding, the switch, invoices, funding negotiation, on-chain resolution, watchtowers and
  the older daemon under \<open>src/experimental\<close>: they are concurrent glue around external services, or
  sit on top of the channel logic that is modelled. Mutexes are not modelled: each method holds
  the lock of its channel for its whole body, so its effect is atomic.
\<close>

end
